(* ===== verification/Relay_Prelude.thy ===== *)
theory Relay_Prelude
  imports Main "HOL-Library.Word" "HOL-Library.AList"
begin

text \<open>
  The vocabulary every component shares: Go's fixed-width unsigned integers as words, byte
  slices as lists of 8-bit words with the big-endian reads and writes of encoding/binary,
  Go maps as association lists with distinct keys, and \<^verbatim>\<open>time.Time\<close> and \<^verbatim>\<open>time.Duration\<close> as
  integers. The generic lemmas proved here (round trips of the byte encodings, look-up after
  update, delete and filter, pruning of a map by a predicate on its values) carry the proofs
  of the components.
\<close>

unbundle bit_operations_syntax

named_theorems wire_simps \<open>sizes and field reads of the wire encodings\<close>
named_theorems gomap_simps \<open>look-up after an operation on a Go map\<close>
named_theorems auth_defs \<open>definitions of the control authentication component\<close>
named_theorems relay_frame \<open>fields of the server that an operation leaves alone\<close>

subsection \<open>Machine integers and byte slices\<close>

type_synonym u8 = "8 word"
type_synonym u16 = "16 word"
type_synonym u32 = "32 word"
type_synonym u64 = "64 word"
type_synonym bytes = "u8 list"

text \<open>
  \<^verbatim>\<open>slice a b xs\<close> is Go's \<^verbatim>\<open>xs[a:b]\<close>. The code only slices after a length check, so the
  out-of-range panic of Go is never reached; every use below sits behind that check.
\<close>

definition slice :: "nat \<Rightarrow> nat \<Rightarrow> 'a list \<Rightarrow> 'a list" where
  "slice a b xs = take (b - a) (drop a xs)"

lemma length_slice [wire_simps]: "length (slice a b xs) = min (b - a) (length xs - a)"
  by (simp add: slice_def min.commute)

lemma slice_append_left: "b \<le> length xs \<Longrightarrow> slice a b (xs @ ys) = slice a b xs"
  by (simp add: slice_def)

lemma slice_append_right:
  "length xs \<le> a \<Longrightarrow> slice a b (xs @ ys) = slice (a - length xs) (b - length xs) ys"
  by (simp add: slice_def)

text \<open>Big-endian values: \<^verbatim>\<open>binary.BigEndian\<close> reads and writes.\<close>

definition be_val :: "bytes \<Rightarrow> nat" where
  "be_val bs = foldl (\<lambda>acc b. acc * 256 + unat b) 0 bs"

primrec be_bytes :: "nat \<Rightarrow> nat \<Rightarrow> bytes" where
  "be_bytes 0 v = []"
| "be_bytes (Suc n) v = be_bytes n (v div 256) @ [of_nat v]"

lemma unat_less_exp: "unat (w :: 'a::len word) < 2 ^ LENGTH('a)"
  by (rule unsigned_less)

lemma be_val_Nil [simp]: "be_val [] = 0"
  by (simp add: be_val_def)

lemma be_val_snoc [simp]: "be_val (bs @ [b]) = be_val bs * 256 + unat b"
  by (simp add: be_val_def)

lemma length_be_bytes [simp, wire_simps]: "length (be_bytes n v) = n"
  by (induction n arbitrary: v) auto

lemma unat_byte_of_nat: "unat (of_nat v :: u8) = v mod 256"
  by (simp add: unat_of_nat)

lemma be_val_be_bytes: "be_val (be_bytes n v) = v mod 256 ^ n"
proof (induction n arbitrary: v)
  case 0
  then show ?case by simp
next
  case (Suc n)
  have "v mod (256 * 256 ^ n) = 256 * (v div 256 mod 256 ^ n) + v mod 256"
    by (rule mod_mult2_eq)
  with Suc show ?case by (simp add: unat_byte_of_nat)
qed

lemma be_bytes_be_val: "be_bytes (length bs) (be_val bs) = bs"
proof (induction bs rule: rev_induct)
  case Nil
  then show ?case by simp
next
  case (snoc b bs)
  have b: "unat b < 256"
    using unat_less_exp [of b] by simp
  have "(be_val bs * 256 + unat b) div 256 = be_val bs"
    using b by simp
  moreover have "of_nat (be_val bs * 256 + unat b) = b"
  proof (rule word_unat_eq_iff [THEN iffD2])
    have "unat (of_nat (be_val bs * 256 + unat b) :: u8) = (be_val bs * 256 + unat b) mod 256"
      by (rule unat_byte_of_nat)
    also have "\<dots> = unat b"
      using b by simp
    finally show "unat (of_nat (be_val bs * 256 + unat b) :: u8) = unat b" .
  qed
  ultimately show ?case using snoc by simp
qed

lemma be_val_bound: "be_val bs < 256 ^ length bs"
proof (induction bs rule: rev_induct)
  case Nil
  then show ?case by simp
next
  case (snoc b bs)
  have "unat b < 256"
    using unat_less_exp [of b] by simp
  with snoc show ?case by simp
qed

definition Uint16 :: "bytes \<Rightarrow> u16" where
  "Uint16 bs = of_nat (be_val (take 2 bs))"

definition Uint32 :: "bytes \<Rightarrow> u32" where
  "Uint32 bs = of_nat (be_val (take 4 bs))"

definition Uint64 :: "bytes \<Rightarrow> u64" where
  "Uint64 bs = of_nat (be_val (take 8 bs))"

definition PutUint16 :: "u16 \<Rightarrow> bytes" where
  "PutUint16 v = be_bytes 2 (unat v)"

definition PutUint32 :: "u32 \<Rightarrow> bytes" where
  "PutUint32 v = be_bytes 4 (unat v)"

definition PutUint64 :: "u64 \<Rightarrow> bytes" where
  "PutUint64 v = be_bytes 8 (unat v)"

lemma length_PutUint [simp, wire_simps]:
  "length (PutUint16 a) = 2" "length (PutUint32 b) = 4" "length (PutUint64 c) = 8"
  by (simp_all add: PutUint16_def PutUint32_def PutUint64_def)

lemma Uint16_Put [simp]: "Uint16 (PutUint16 v) = v"
  using unat_less_exp [of v] by (simp add: Uint16_def PutUint16_def be_val_be_bytes)

lemma Uint32_Put [simp]: "Uint32 (PutUint32 v) = v"
  using unat_less_exp [of v] by (simp add: Uint32_def PutUint32_def be_val_be_bytes)

lemma Uint64_Put [simp]: "Uint64 (PutUint64 v) = v"
  using unat_less_exp [of v] by (simp add: Uint64_def PutUint64_def be_val_be_bytes)

lemma PutUint32_inject [simp]: "PutUint32 a = PutUint32 b \<longleftrightarrow> a = b"
  by (metis Uint32_Put)

lemma PutUint32_Uint32: "length bs = 4 \<Longrightarrow> PutUint32 (Uint32 bs) = bs"
  using be_val_bound [of bs] be_bytes_be_val [of bs]
  by (simp add: Uint32_def PutUint32_def unat_of_nat)

subsection \<open>Go maps\<close>

text \<open>
  A Go map is an association list with distinct keys. The order of the list stands for one
  iteration order of \<^verbatim>\<open>range\<close>; Go leaves that order unspecified, and no property below
  depends on which one is taken. \<^verbatim>\<open>m[k]\<close> is \<open>map_of m k\<close>, \<^verbatim>\<open>m[k] = v\<close> is \<open>AList.update k v m\<close>,
  \<^verbatim>\<open>delete(m, k)\<close> is \<open>AList.delete k m\<close>, and a loop that deletes the entries failing a test is
  \<open>prune\<close>.
\<close>

type_synonym ('k, 'v) gomap = "('k \<times> 'v) list"

abbreviation gomap_wf :: "('k, 'v) gomap \<Rightarrow> bool" where
  "gomap_wf m \<equiv> distinct (map fst m)"

definition prune :: "('v \<Rightarrow> bool) \<Rightarrow> ('k, 'v) gomap \<Rightarrow> ('k, 'v) gomap" where
  "prune keep m = filter (\<lambda>(k, v). keep v) m"

lemma map_of_update [simp, gomap_simps]: "map_of (AList.update k v m) = (map_of m)(k \<mapsto> v)"
  by (rule update_conv')

lemma map_of_delete [simp, gomap_simps]: "map_of (AList.delete k m) = (map_of m)(k := None)"
  by (rule delete_conv')

lemma gomap_wf_update [simp, intro]: "gomap_wf m \<Longrightarrow> gomap_wf (AList.update k v m)"
  by (rule distinct_update)

lemma gomap_wf_delete [simp, intro]: "gomap_wf m \<Longrightarrow> gomap_wf (AList.delete k m)"
  by (rule distinct_delete)

lemma gomap_wf_filter: "gomap_wf m \<Longrightarrow> gomap_wf (filter P m)"
  by (simp add: distinct_map_filter)

lemma gomap_wf_prune [simp, intro]: "gomap_wf m \<Longrightarrow> gomap_wf (prune keep m)"
  by (simp add: prune_def gomap_wf_filter)

lemma map_of_filter_wf:
  assumes "gomap_wf m"
  shows "map_of (filter (\<lambda>(k, v). P k v) m) k =
    (case map_of m k of None \<Rightarrow> None | Some v \<Rightarrow> if P k v then Some v else None)"
  using assms
proof (induction m)
  case Nil
  then show ?case by simp
next
  case (Cons kv m)
  obtain a b where [simp]: "kv = (a, b)" by (cases kv)
  show ?case
  proof (cases "k = a")
    case True
    with Cons.prems have "map_of m k = None"
      by (simp add: map_of_eq_None_iff)
    with True Cons show ?thesis by simp
  next
    case False
    with Cons show ?thesis by (simp split: if_splits)
  qed
qed

lemma map_of_prune [gomap_simps]:
  "gomap_wf m \<Longrightarrow> map_of (prune keep m) k =
    (case map_of m k of None \<Rightarrow> None | Some v \<Rightarrow> if keep v then Some v else None)"
  unfolding prune_def by (rule map_of_filter_wf)

lemma map_of_prune_SomeD: "gomap_wf m \<Longrightarrow> map_of (prune keep m) k = Some v \<Longrightarrow> map_of m k = Some v \<and> keep v"
  by (auto simp: map_of_prune split: option.splits if_splits)

lemma map_of_prune_keep:
  "gomap_wf m \<Longrightarrow> map_of m k = Some v \<Longrightarrow> keep v \<Longrightarrow> map_of (prune keep m) k = Some v"
  by (simp add: map_of_prune del: map_of_eq_Some_iff)

lemma length_prune [simp]: "length (prune keep m) \<le> length m"
  by (simp add: prune_def)

lemma set_prune: "set (prune keep m) = {kv \<in> set m. keep (snd kv)}"
  by (auto simp: prune_def)

lemma set_delete: "set (AList.delete k m) = {kv \<in> set m. fst kv \<noteq> k}"
  by (auto simp: AList.delete_eq)

lemma set_update_subset: "set (AList.update k v m) \<subseteq> insert (k, v) (set m)"
  by (induction m) auto

lemma set_update_wf:
  "gomap_wf m \<Longrightarrow> set (AList.update k v m) = insert (k, v) {kv \<in> set m. fst kv \<noteq> k}"
proof (induction m)
  case (Cons kv m)
  then show ?case by (cases kv) (force simp: image_iff)
qed simp

lemma length_update_le: "length (AList.update k v m) \<le> Suc (length m)"
  by (induction m) auto

lemma length_update_mem: "k \<in> fst ` set m \<Longrightarrow> length (AList.update k v m) = length m"
  by (induction m) auto

lemma length_update_notin: "k \<notin> fst ` set m \<Longrightarrow> length (AList.update k v m) = Suc (length m)"
  by (induction m) auto

lemma length_update_bound:
  "length m < b \<Longrightarrow> length (AList.update k v m) \<le> b"
  using length_update_le [of k v m] by simp

lemma map_of_in_keys: "map_of m k = Some v \<Longrightarrow> k \<in> fst ` set m"
  by (metis domI dom_map_of_conv_image_fst)

subsection \<open>Time\<close>

text \<open>
  \<^verbatim>\<open>time.Time\<close> is the number of nanoseconds since Go's zero time (year 1), so that
  \<^verbatim>\<open>t.IsZero()\<close> is \<open>t = 0\<close>, \<^verbatim>\<open>t.After(u)\<close> is \<open>u < t\<close>, and \<^verbatim>\<open>t.Add(d)\<close> is \<open>t + d\<close>.
  \<^verbatim>\<open>time.Duration\<close> is an integer number of nanoseconds; \<^verbatim>\<open>t.Sub(u)\<close> saturates at the bounds
  of an int64 as Go's does. A reading of \<^verbatim>\<open>time.Now()\<close> is an argument of the operation
  that takes it.
\<close>

type_synonym gotime = int
type_synonym duration = int

definition Second :: duration where
  "Second = 1000000000"

definition IsZero :: "gotime \<Rightarrow> bool" where
  "IsZero t \<longleftrightarrow> t = 0"

text \<open>Seconds from Go's zero time to the Unix epoch.\<close>

definition unixEpoch :: int where
  "unixEpoch = 62135596800"

definition time_Unix :: "int \<Rightarrow> gotime" where
  "time_Unix sec = (sec + unixEpoch) * Second"

definition Unix_of :: "gotime \<Rightarrow> int" where
  "Unix_of t = t div Second - unixEpoch"

definition time_Sub :: "gotime \<Rightarrow> gotime \<Rightarrow> duration" where
  "time_Sub t u = max (- (2 ^ 63)) (min (2 ^ 63 - 1) (t - u))"

lemma div_less_iff_int: "0 < d \<Longrightarrow> n < k * d \<longleftrightarrow> n div d < k" for n d k :: int
proof -
  assume d: "0 < d"
  have n: "n = d * (n div d) + n mod d" and m: "0 \<le> n mod d" "n mod d < d"
    using d by simp_all
  show ?thesis
  proof
    assume "n < k * d"
    moreover have "d * (n div d) \<le> n"
      using n m by linarith
    ultimately have "d * (n div d) < d * k"
      by (simp add: mult.commute)
    with d show "n div d < k" by simp
  next
    assume "n div d < k"
    then have "n div d + 1 \<le> k" by simp
    with d have "d * (n div d + 1) \<le> d * k" by simp
    then have "d * (n div d) + d \<le> k * d" by (simp add: algebra_simps)
    with n m show "n < k * d" by linarith
  qed
qed

lemma Unix_of_time_Unix [simp]: "Unix_of (time_Unix sec) = sec"
  by (simp add: Unix_of_def time_Unix_def Second_def)

lemma time_Unix_after_iff: "now < time_Unix sec \<longleftrightarrow> Unix_of now < sec"
proof -
  have "now < (sec + unixEpoch) * Second \<longleftrightarrow> now div Second < sec + unixEpoch"
    by (rule div_less_iff_int) (simp add: Second_def)
  then show ?thesis by (simp add: Unix_of_def time_Unix_def less_diff_eq algebra_simps)
qed

lemma Second_pos [simp]: "0 < Second"
  by (simp add: Second_def)


subsection \<open>Machines and invariants\<close>

text \<open>
  The interface of every state machine below: a step relation and an invariant that each step
  keeps. A client that starts in a good state only ever sees good states.
\<close>

inductive steps :: "('s \<Rightarrow> 's \<Rightarrow> bool) \<Rightarrow> 's \<Rightarrow> 's \<Rightarrow> bool" for step where
  steps_refl: "steps step s s"
| steps_step: "steps step s t \<Longrightarrow> step t u \<Longrightarrow> steps step s u"

lemma steps_single: "step s t \<Longrightarrow> steps step s t"
  by (rule steps_step) (rule steps_refl)

locale invariant_machine =
  fixes step :: "'s \<Rightarrow> 's \<Rightarrow> bool" and inv :: "'s \<Rightarrow> bool"
  assumes inv_step: "inv s \<Longrightarrow> step s t \<Longrightarrow> inv t"
begin

lemma inv_steps: "steps step s t \<Longrightarrow> inv s \<Longrightarrow> inv t"
  by (induction rule: steps.induct) (auto intro: inv_step)

end

end
