(* ===== verification/Wire.thy ===== *)
theory Wire
  imports Relay_Prelude
begin

text \<open>
  The Version 1 datagram format of main.go: packet and release-reason codes, the fixed header
  with its two extensions, \<^verbatim>\<open>parsePacket\<close>, the builders of Relay control packets, the talk and
  codec payloads and the names used in events. Round trips relate the builders to the parser,
  and a soundness lemma says that a parsed packet is an exact partition of its datagram.
\<close>

subsection \<open>Constants\<close>

abbreviation (input) protocolVersion :: u8 where "protocolVersion \<equiv> 1"
abbreviation (input) fixedHeaderSize :: nat where "fixedHeaderSize \<equiv> 16"
abbreviation (input) securityHeaderExtensionSize :: nat where "securityHeaderExtensionSize \<equiv> 12"
abbreviation (input) aesGCMV2HeaderSize :: nat where "aesGCMV2HeaderSize \<equiv> 36"
abbreviation (input) authTagSize :: nat where "authTagSize \<equiv> 16"
abbreviation (input) packetFlagAESGCMV2HeaderAAD :: u16 where "packetFlagAESGCMV2HeaderAAD \<equiv> 1"
abbreviation (input) packetFlagControlAuthV1 :: u16 where "packetFlagControlAuthV1 \<equiv> 2"
abbreviation (input) maxUDPDatagramBytes :: int where "maxUDPDatagramBytes \<equiv> 1200"
abbreviation (input) maxActiveTalkersV1 :: int where "maxActiveTalkersV1 \<equiv> 16"
abbreviation (input) maxTalkMaximumSecondsV1 :: int where "maxTalkMaximumSecondsV1 \<equiv> 65535"
abbreviation (input) udpNearLimitBytes :: int where "udpNearLimitBytes \<equiv> 1150"

abbreviation (input) pktAudio :: u8 where "pktAudio \<equiv> 0x01"
abbreviation (input) pktPttOn :: u8 where "pktPttOn \<equiv> 0x02"
abbreviation (input) pktPttOff :: u8 where "pktPttOff \<equiv> 0x03"
abbreviation (input) pktKeepalive :: u8 where "pktKeepalive \<equiv> 0x04"
abbreviation (input) pktJoin :: u8 where "pktJoin \<equiv> 0x05"
abbreviation (input) pktLeave :: u8 where "pktLeave \<equiv> 0x06"
abbreviation (input) pktTalkGrant :: u8 where "pktTalkGrant \<equiv> 0x07"
abbreviation (input) pktTalkRelease :: u8 where "pktTalkRelease \<equiv> 0x08"
abbreviation (input) pktTalkDeny :: u8 where "pktTalkDeny \<equiv> 0x09"
abbreviation (input) pktKeyExchange :: u8 where "pktKeyExchange \<equiv> 0x0A"
abbreviation (input) pktCodecConfig :: u8 where "pktCodecConfig \<equiv> 0x0B"
abbreviation (input) pktFec :: u8 where "pktFec \<equiv> 0x0C"
abbreviation (input) pktServerCfg :: u8 where "pktServerCfg \<equiv> 0x0D"
abbreviation (input) pktPing :: u8 where "pktPing \<equiv> 0x0E"
abbreviation (input) pktPong :: u8 where "pktPong \<equiv> 0x0F"
abbreviation (input) pktAuthHello :: u8 where "pktAuthHello \<equiv> 0x10"
abbreviation (input) pktAuthChallenge :: u8 where "pktAuthChallenge \<equiv> 0x11"
abbreviation (input) pktIdentityBegin :: u8 where "pktIdentityBegin \<equiv> 0x12"
abbreviation (input) pktIdentityChallenge :: u8 where "pktIdentityChallenge \<equiv> 0x13"
abbreviation (input) pktIdentityProof :: u8 where "pktIdentityProof \<equiv> 0x14"
abbreviation (input) pktIdentityDeny :: u8 where "pktIdentityDeny \<equiv> 0x15"
abbreviation (input) pktServiceBegin :: u8 where "pktServiceBegin \<equiv> 0x16"
abbreviation (input) pktServiceChallenge :: u8 where "pktServiceChallenge \<equiv> 0x17"
abbreviation (input) pktServiceProof :: u8 where "pktServiceProof \<equiv> 0x18"
abbreviation (input) pktServiceDeny :: u8 where "pktServiceDeny \<equiv> 0x19"
abbreviation (input) pktPttRequest :: u8 where "pktPttRequest \<equiv> 0x1A"

abbreviation (input) talkReleaseClientPttOff :: u8 where "talkReleaseClientPttOff \<equiv> 0x00"
abbreviation (input) talkReleaseServerTimeout :: u8 where "talkReleaseServerTimeout \<equiv> 0x01"
abbreviation (input) talkReleaseMembershipTimeout :: u8 where "talkReleaseMembershipTimeout \<equiv> 0x02"
abbreviation (input) talkReleaseClientLeave :: u8 where "talkReleaseClientLeave \<equiv> 0x03"
abbreviation (input) talkReleaseServerPolicy :: u8 where "talkReleaseServerPolicy \<equiv> 0x04"
abbreviation (input) talkReleaseIdentityExpired :: u8 where "talkReleaseIdentityExpired \<equiv> 0x05"
abbreviation (input) talkReleaseServiceRevoked :: u8 where "talkReleaseServiceRevoked \<equiv> 0x06"
abbreviation (input) talkReleasePreempted :: u8 where "talkReleasePreempted \<equiv> 0x07"
abbreviation (input) talkReleaseServiceExpired :: u8 where "talkReleaseServiceExpired \<equiv> 0x08"

subsection \<open>Packets\<close>

record packetHeader =
  h_Version :: u8
  h_Type :: u8
  h_HeaderLen :: u16
  h_ChannelId :: u32
  h_SenderId :: u32
  h_Seq :: u16
  h_Flags :: u16

record securityHeader =
  sec_ControlNonce :: u64
  sec_MediaNonceBase :: bytes
  sec_MediaCounter :: u32
  sec_KeyID :: u32

record parsedPacket =
  pk_Header :: packetHeader
  pk_Sec :: securityHeader
  pk_Payload :: bytes
  pk_Tag :: bytes
  pk_Raw :: bytes

text \<open>The zero value of the nonce base array and of the security header struct.\<close>

definition zeroBase :: bytes where
  "zeroBase = replicate 12 0"

definition zeroSecurityHeader :: securityHeader where
  "zeroSecurityHeader =
     \<lparr>sec_ControlNonce = 0, sec_MediaNonceBase = zeroBase, sec_MediaCounter = 0, sec_KeyID = 0\<rparr>"

definition acceptsUDPDatagramSize :: "int \<Rightarrow> bool" where
  "acceptsUDPDatagramSize n \<longleftrightarrow> 0 \<le> n \<and> n \<le> maxUDPDatagramBytes"

definition parsePacketPayload ::
  "bytes \<Rightarrow> packetHeader \<Rightarrow> securityHeader \<Rightarrow> nat \<Rightarrow> parsedPacket option" where
  "parsePacketPayload data header sec payloadOffset =
     (let payloadLen = int (length data) - int payloadOffset - int authTagSize in
      if payloadLen < 0 then None
      else Some
        \<lparr>pk_Header = header, pk_Sec = sec,
         pk_Payload = slice payloadOffset (payloadOffset + nat payloadLen) data,
         pk_Tag = drop (payloadOffset + nat payloadLen) data, pk_Raw = data\<rparr>)"

text \<open>The fixed header, read from the first sixteen bytes.\<close>

definition parseHeader :: "bytes \<Rightarrow> packetHeader" where
  "parseHeader data =
     \<lparr>h_Version = data ! 0, h_Type = data ! 1,
      h_HeaderLen = Uint16 (slice 2 4 data), h_ChannelId = Uint32 (slice 4 8 data),
      h_SenderId = Uint32 (slice 8 12 data), h_Seq = Uint16 (slice 12 14 data),
      h_Flags = Uint16 (slice 14 16 data)\<rparr>"

definition parsePacket :: "bytes \<Rightarrow> bool \<Rightarrow> parsedPacket option" where
  "parsePacket data noCrypto =
     (if length data < fixedHeaderSize then None
      else let header = parseHeader data in
        if (h_Type header = pktAudio \<or> h_Type header = pktFec) \<and>
           h_Flags header AND packetFlagAESGCMV2HeaderAAD \<noteq> 0
        then
          if h_HeaderLen header \<noteq> 36 \<or> length data < aesGCMV2HeaderSize + authTagSize then None
          else parsePacketPayload data header
            (zeroSecurityHeader\<lparr>sec_KeyID := Uint32 (slice 32 36 data),
               sec_MediaCounter := Uint32 (slice 28 32 data),
               sec_MediaNonceBase := slice 16 28 data\<rparr>) aesGCMV2HeaderSize
        else if h_HeaderLen header = 28
        then
          if length data < fixedHeaderSize + securityHeaderExtensionSize + authTagSize then None
          else parsePacketPayload data header
            (zeroSecurityHeader\<lparr>sec_ControlNonce := Uint64 (slice 16 24 data),
               sec_KeyID := Uint32 (slice 24 28 data)\<rparr>)
            (fixedHeaderSize + securityHeaderExtensionSize)
        else if h_HeaderLen header \<noteq> 16 \<or> \<not> noCrypto then None
        else Some
          \<lparr>pk_Header = header, pk_Sec = zeroSecurityHeader,
           pk_Payload = drop fixedHeaderSize data, pk_Tag = [], pk_Raw = data\<rparr>)"

subsection \<open>Builders\<close>

definition buildRelayControlPacket ::
  "u8 \<Rightarrow> u32 \<Rightarrow> u32 \<Rightarrow> bytes \<Rightarrow> bool \<Rightarrow> u16 \<Rightarrow> bytes" where
  "buildRelayControlPacket pktType channelId senderId payload noCrypto sequence =
     (let headerLen = (if noCrypto then fixedHeaderSize
                       else fixedHeaderSize + securityHeaderExtensionSize);
          header = [protocolVersion, pktType] @ PutUint16 (of_nat headerLen) @
                   PutUint32 channelId @ PutUint32 senderId @ PutUint16 sequence @ PutUint16 0
      in if noCrypto then header @ payload
         else header @ replicate securityHeaderExtensionSize 0 @ payload @ replicate authTagSize 0)"

definition buildControlPacket :: "u8 \<Rightarrow> u32 \<Rightarrow> u32 \<Rightarrow> bytes \<Rightarrow> bool \<Rightarrow> bytes" where
  "buildControlPacket pktType channelId senderId payload noCrypto =
     buildRelayControlPacket pktType channelId senderId payload noCrypto 0"

definition talkPayload :: "u32 \<Rightarrow> bytes" where
  "talkPayload talkerId = take 4 (PutUint32 talkerId @ [0])"

definition talkReleasePayload :: "u32 \<Rightarrow> u8 \<Rightarrow> bytes" where
  "talkReleasePayload talkerId reason = (PutUint32 talkerId @ [0])[4 := reason]"

definition buildTalkPacket :: "u8 \<Rightarrow> u32 \<Rightarrow> u32 \<Rightarrow> bool \<Rightarrow> bytes" where
  "buildTalkPacket pktType channelId talkerId noCrypto =
     buildControlPacket pktType channelId talkerId (talkPayload talkerId) noCrypto"

definition buildTalkReleasePacket :: "u32 \<Rightarrow> u32 \<Rightarrow> u8 \<Rightarrow> bool \<Rightarrow> bytes" where
  "buildTalkReleasePacket channelId talkerId reason noCrypto =
     buildControlPacket pktTalkRelease channelId talkerId (talkReleasePayload talkerId reason) noCrypto"

definition parseCodecConfigPayload :: "bytes \<Rightarrow> (bool \<times> u8 \<times> u32) option" where
  "parseCodecConfigPayload payload =
     (if length payload \<noteq> 19 then None
      else let flags = payload ! 0; pcmOnly = (flags AND 1 \<noteq> 0); codecId = payload ! 1;
               mode = Uint32 (slice 2 6 payload)
           in Some (pcmOnly, if pcmOnly then 0 else codecId, mode))"

subsection \<open>Names\<close>

definition codecName :: "u8 \<Rightarrow> string" where
  "codecName codecId =
     (if codecId = 0 then ''pcm'' else if codecId = 1 then ''codec2''
      else if codecId = 2 then ''opus'' else ''unknown'')"

definition pktTypeName :: "u8 \<Rightarrow> string" where
  "pktTypeName t =
     (if t = pktAudio then ''audio'' else if t = pktPttOn then ''ptt_on''
      else if t = pktPttOff then ''ptt_off'' else if t = pktPttRequest then ''ptt_request''
      else if t = pktKeepalive then ''keepalive'' else if t = pktJoin then ''join''
      else if t = pktLeave then ''leave'' else if t = pktTalkGrant then ''talk_grant''
      else if t = pktTalkRelease then ''talk_release'' else if t = pktTalkDeny then ''talk_deny''
      else if t = pktKeyExchange then ''key_exchange''
      else if t = pktCodecConfig then ''codec_config'' else if t = pktFec then ''fec''
      else if t = pktServerCfg then ''server_config'' else if t = pktAuthHello then ''auth_hello''
      else if t = pktAuthChallenge then ''auth_challenge''
      else if t = pktIdentityBegin then ''identity_begin''
      else if t = pktIdentityChallenge then ''identity_challenge''
      else if t = pktIdentityProof then ''identity_proof''
      else if t = pktIdentityDeny then ''identity_deny''
      else if t = pktServiceBegin then ''service_admission_begin''
      else if t = pktServiceChallenge then ''service_admission_challenge''
      else if t = pktServiceProof then ''service_admission_proof''
      else if t = pktServiceDeny then ''service_admission_deny'' else ''unknown'')"

definition talkReleaseReasonName :: "u8 \<Rightarrow> string" where
  "talkReleaseReasonName reason =
     (if reason = talkReleaseClientPttOff then ''CLIENT_PTT_OFF''
      else if reason = talkReleaseServerTimeout then ''SERVER_TALK_TIMEOUT''
      else if reason = talkReleaseMembershipTimeout then ''MEMBERSHIP_TIMEOUT''
      else if reason = talkReleaseClientLeave then ''CLIENT_LEAVE''
      else if reason = talkReleaseServerPolicy then ''SERVER_POLICY''
      else if reason = talkReleaseIdentityExpired then ''IDENTITY_EXPIRED''
      else if reason = talkReleaseServiceRevoked then ''SERVICE_ADMISSION_REVOKED''
      else if reason = talkReleasePreempted then ''PREEMPTED''
      else if reason = talkReleaseServiceExpired then ''SERVICE_ADMISSION_EXPIRED''
      else ''UNKNOWN'')"

subsection \<open>Field reads of a built header\<close>

text \<open>The sixteen header bytes both builders write, as one concatenation.\<close>

definition wireHeader :: "u8 \<Rightarrow> u16 \<Rightarrow> u32 \<Rightarrow> u32 \<Rightarrow> u16 \<Rightarrow> u16 \<Rightarrow> bytes" where
  "wireHeader pktType headerLen channelId senderId sequence flags =
     [protocolVersion, pktType] @ PutUint16 headerLen @ PutUint32 channelId @
     PutUint32 senderId @ PutUint16 sequence @ PutUint16 flags"

lemma length_wireHeader [simp, wire_simps]: "length (wireHeader t l c s q f) = 16"
  by (simp add: wireHeader_def)

lemma parseHeader_wireHeader:
  "parseHeader (wireHeader t l c s q f @ rest) =
     \<lparr>h_Version = protocolVersion, h_Type = t, h_HeaderLen = l, h_ChannelId = c,
      h_SenderId = s, h_Seq = q, h_Flags = f\<rparr>"
  by (simp add: parseHeader_def wireHeader_def slice_def take_Cons' drop_Cons')

lemma buildRelayControlPacket_clear:
  "buildRelayControlPacket t c s payload True q = wireHeader t 16 c s q 0 @ payload"
  by (simp add: buildRelayControlPacket_def wireHeader_def)

lemma buildRelayControlPacket_framed:
  "buildRelayControlPacket t c s payload False q =
     wireHeader t 28 c s q 0 @ replicate 12 0 @ payload @ replicate 16 0"
  by (simp add: buildRelayControlPacket_def wireHeader_def)

lemma parsePacketPayload_parts:
  assumes "length pre = off" "length tag = 16"
  shows "parsePacketPayload (pre @ payload @ tag) h sec off =
    Some \<lparr>pk_Header = h, pk_Sec = sec, pk_Payload = payload, pk_Tag = tag,
          pk_Raw = pre @ payload @ tag\<rparr>"
  using assms by (simp add: parsePacketPayload_def slice_def Let_def)

lemma parsePacketPayload_Some:
  assumes "parsePacketPayload data h sec off = Some pkt"
  shows "pk_Raw pkt = data \<and> length (pk_Tag pkt) = 16 \<and>
    data = take off data @ pk_Payload pkt @ pk_Tag pkt \<and> off \<le> length data"
proof -
  let ?n = "length data - off - 16"
  from assms have len: "off + 16 \<le> length data"
    by (auto simp: parsePacketPayload_def Let_def split: if_splits)
  then have "nat (int (length data) - int off - 16) = ?n" by linarith
  with assms len have pkt: "pk_Raw pkt = data" "pk_Payload pkt = take ?n (drop off data)"
    "pk_Tag pkt = drop ?n (drop off data)"
    by (auto simp: parsePacketPayload_def slice_def Let_def add.commute split: if_splits)
  have "data = take off data @ pk_Payload pkt @ pk_Tag pkt"
    by (simp only: pkt append_take_drop_id)
  with len pkt show ?thesis by simp
qed

lemma parsePacket_cases:
  assumes "parsePacket data noCrypto = Some pkt"
  shows "(\<exists>sec off. parsePacketPayload data (parseHeader data) sec off = Some pkt \<and>
            unat (h_HeaderLen (parseHeader data)) = off \<and> off \<in> {28, 36}) \<or>
    noCrypto \<and> 16 \<le> length data \<and> h_HeaderLen (parseHeader data) = 16 \<and>
    pkt = \<lparr>pk_Header = parseHeader data, pk_Sec = zeroSecurityHeader,
           pk_Payload = drop 16 data, pk_Tag = [], pk_Raw = data\<rparr>"
proof -
  have "unat (36 :: u16) = 36" "unat (28 :: u16) = 28" by simp_all
  with assms show ?thesis
    unfolding parsePacket_def Let_def
    by (simp split: if_splits) metis+
qed

subsection \<open>Properties of the format\<close>

lemma Uint_zeros [simp]: "Uint64 (replicate 8 0) = 0" "Uint32 (replicate 4 0) = 0"
  by (simp_all add: Uint64_def Uint32_def be_val_def numeral_eq_Suc)

lemma parse_relay_control:
  "parsePacket (buildRelayControlPacket t c s payload noCrypto q) noCrypto =
    Some \<lparr>pk_Header =
            \<lparr>h_Version = protocolVersion, h_Type = t,
             h_HeaderLen = (if noCrypto then 16 else 28), h_ChannelId = c, h_SenderId = s,
             h_Seq = q, h_Flags = 0\<rparr>,
          pk_Sec = zeroSecurityHeader, pk_Payload = payload,
          pk_Tag = (if noCrypto then [] else replicate 16 0),
          pk_Raw = buildRelayControlPacket t c s payload noCrypto q\<rparr>"
proof (cases noCrypto)
  case True
  then show ?thesis
    by (simp add: parsePacket_def buildRelayControlPacket_clear parseHeader_wireHeader Let_def)
next
  case False
  let ?pre = "wireHeader t 28 c s q 0 @ replicate 12 0"
  have "slice 16 24 (?pre @ payload @ replicate 16 0) = replicate 8 (0 :: u8)"
    "slice 24 28 (?pre @ payload @ replicate 16 0) = replicate 4 (0 :: u8)"
    by (simp_all add: slice_def)
  moreover have "parsePacketPayload (?pre @ payload @ replicate 16 0) h sec 28 =
    Some \<lparr>pk_Header = h, pk_Sec = sec, pk_Payload = payload, pk_Tag = replicate 16 0,
          pk_Raw = ?pre @ payload @ replicate 16 0\<rparr>" for h sec
    by (rule parsePacketPayload_parts) simp_all
  ultimately show ?thesis
    using False
    by (simp add: parsePacket_def buildRelayControlPacket_framed parseHeader_wireHeader Let_def
        zeroSecurityHeader_def)
qed

text \<open>
  Every Relay control packet that \<^verbatim>\<open>buildRelayControlPacket\<close> writes, in the clear or in the
  framed mode, is parsed back by \<^verbatim>\<open>parsePacket\<close> in the same mode to the packet type, channel,
  sender, sequence number and payload it was built from, with no flag set and a zero security
  extension.
\<close>

theorem relay_control_roundtrip:
  "parsePacket (buildRelayControlPacket t c s payload noCrypto q) noCrypto =
    Some \<lparr>pk_Header =
            \<lparr>h_Version = protocolVersion, h_Type = t,
             h_HeaderLen = (if noCrypto then 16 else 28), h_ChannelId = c, h_SenderId = s,
             h_Seq = q, h_Flags = 0\<rparr>,
          pk_Sec = zeroSecurityHeader, pk_Payload = payload,
          pk_Tag = (if noCrypto then [] else replicate 16 0),
          pk_Raw = buildRelayControlPacket t c s payload noCrypto q\<rparr>"
  by (rule parse_relay_control)

text \<open>
  \<^verbatim>\<open>parsePacket\<close> is sound: an accepted datagram is exactly its header of the announced length,
  then the payload, then the tag; the tag is sixteen bytes, or absent and then only in no-crypto
  mode with the bare sixteen-byte header; the raw bytes kept for forwarding are the datagram.
\<close>

theorem parsePacket_partition:
  assumes "parsePacket data noCrypto = Some pkt"
  shows "pk_Raw pkt = data \<and> pk_Header pkt = parseHeader data \<and>
    unat (h_HeaderLen (pk_Header pkt)) \<in> {16, 28, 36} \<and>
    data = take (unat (h_HeaderLen (pk_Header pkt))) data @ pk_Payload pkt @ pk_Tag pkt \<and>
    (length (pk_Tag pkt) = 16 \<or>
     noCrypto \<and> pk_Tag pkt = [] \<and> h_HeaderLen (pk_Header pkt) = 16)"
proof -
  have step: ?thesis
    if "parsePacketPayload data (parseHeader data) sec off = Some pkt"
      "unat (h_HeaderLen (parseHeader data)) = off" "off \<in> {28, 36}" for sec off
  proof -
    have "pk_Header pkt = parseHeader data"
      using that(1) by (auto simp: parsePacketPayload_def Let_def split: if_splits)
    with that parsePacketPayload_Some [OF that(1)] show ?thesis by simp
  qed
  from parsePacket_cases [OF assms] show ?thesis
    by (elim disjE exE conjE) (rule step, assumption+, simp)
qed

theorem parsePacket_partition_witness:
  "\<exists>pkt. parsePacket (buildRelayControlPacket 5 7 9 [] True 3) True = Some pkt \<and>
      pk_Raw pkt = buildRelayControlPacket 5 7 9 [] True 3 \<and> pk_Tag pkt = []"
proof -
  let ?d = "buildRelayControlPacket 5 7 9 [] True 3"
  obtain pkt where pkt: "parsePacket ?d True = Some pkt" "pk_Tag pkt = []"
    using parse_relay_control [of 5 7 9 "[]" True 3] by simp
  from parsePacket_partition [OF pkt(1)] have "pk_Raw pkt = ?d" by simp
  with pkt show ?thesis by simp
qed

end
