(* ===== verification/Replay.thy ===== *)
theory Replay
  imports Relay_Prelude
begin

text \<open>
  The 64-entry anti-replay windows: \<^verbatim>\<open>acceptReplayCounter\<close> of control_auth.go, which guards every
  authenticated control packet before and after JOIN, and \<^verbatim>\<open>directoryReplayState.accept\<close> of
  directory_v3.go. Both are bit windows over machine words. The abstract contract is a locale:
  a guard has a set of spent counters, accepts exactly the others, and only ever grows that set.
  The client lemmas (no counter is accepted twice in any run, and what is refused is either
  spent or stale) are proved once in the locale and reach both windows by interpretation.
\<close>

subsection \<open>The two windows of the code\<close>

definition acceptReplayCounter :: "u32 \<Rightarrow> u64 \<Rightarrow> u32 \<Rightarrow> bool \<times> u32 \<times> u64" where
  "acceptReplayCounter highest seen counter =
     (if highest < counter
      then let delta = counter - highest in
        (True, counter, if 64 \<le> delta then 1 else push_bit (unat delta) seen OR 1)
      else let delta = highest - counter in
        if 64 \<le> delta then (False, highest, seen)
        else let mask = push_bit (unat delta) 1 in
          if seen AND mask \<noteq> 0 then (False, highest, seen)
          else (True, highest, seen OR mask))"

record directoryReplayState =
  dr_initialized :: bool
  dr_highest :: u64
  dr_seen :: u64

definition directoryReplayAccept ::
  "directoryReplayState \<Rightarrow> u64 \<Rightarrow> bool \<times> directoryReplayState" where
  "directoryReplayAccept s sequence =
     (if \<not> dr_initialized s
      then (True, \<lparr>dr_initialized = True, dr_highest = sequence, dr_seen = 1\<rparr>)
      else if dr_highest s < sequence
      then let delta = sequence - dr_highest s in
        (True, s\<lparr>dr_seen := (if 64 \<le> delta then 1 else push_bit (unat delta) (dr_seen s) OR 1),
                 dr_highest := sequence\<rparr>)
      else let delta = dr_highest s - sequence in
        if 64 \<le> delta then (False, s)
        else let mask = push_bit (unat delta) 1 in
          if dr_seen s AND mask \<noteq> 0 then (False, s)
          else (True, s\<lparr>dr_seen := dr_seen s OR mask\<rparr>))"

definition zeroDirectoryReplayState :: directoryReplayState where
  "zeroDirectoryReplayState = \<lparr>dr_initialized = False, dr_highest = 0, dr_seen = 0\<rparr>"

subsection \<open>The contract\<close>

text \<open>The counters a guard accepts, in order, when it is offered a sequence of them.\<close>

fun guard_run :: "('s \<Rightarrow> 'c \<Rightarrow> bool \<times> 's) \<Rightarrow> 's \<Rightarrow> 'c list \<Rightarrow> 'c list \<times> 's" where
  "guard_run accept s [] = ([], s)"
| "guard_run accept s (c # cs) =
     (let (ok, s') = accept s c; (acc, t) = guard_run accept s' cs
      in (if ok then c # acc else acc, t))"

locale replay_guard =
  fixes accept :: "'s \<Rightarrow> 'c \<Rightarrow> bool \<times> 's"
    and spent :: "'s \<Rightarrow> 'c set"
  assumes accept_iff: "fst (accept s c) \<longleftrightarrow> c \<notin> spent s"
    and spent_accept: "c \<notin> spent s \<Longrightarrow> insert c (spent s) \<subseteq> spent (snd (accept s c))"
    and reject_unchanged: "c \<in> spent s \<Longrightarrow> snd (accept s c) = s"
begin

lemma accepted_fresh:
  "distinct (fst (guard_run accept s cs)) \<and> set (fst (guard_run accept s cs)) \<inter> spent s = {}"
proof (induction cs arbitrary: s)
  case Nil
  then show ?case by simp
next
  case (Cons c cs)
  obtain ok s' where step: "accept s c = (ok, s')" by fastforce
  show ?case
  proof (cases "c \<in> spent s")
    case True
    with step accept_iff [of s c] reject_unchanged [of c s] Cons.IH [of s] show ?thesis
      by (simp add: split_beta)
  next
    case False
    with step accept_iff [of s c] spent_accept [of c s]
    have "ok" "insert c (spent s) \<subseteq> spent s'" by simp_all
    with step False Cons.IH [of s'] show ?thesis
      by (auto simp: split_beta)
  qed
qed

lemma spent_run: "spent s \<union> set (fst (guard_run accept s cs)) \<subseteq> spent (snd (guard_run accept s cs))"
proof (induction cs arbitrary: s)
  case Nil
  then show ?case by simp
next
  case (Cons c cs)
  obtain ok s' where step: "accept s c = (ok, s')" by fastforce
  have "spent s \<union> (if ok then {c} else {}) \<subseteq> spent s'"
    using step accept_iff [of s c] spent_accept [of c s] reject_unchanged [of c s]
    by (cases "c \<in> spent s") auto
  with step Cons.IH [of s'] show ?case by (auto simp: split_beta)
qed

lemma no_replay: "\<not> fst (accept (snd (guard_run accept s cs)) c)"
  if "c \<in> set (fst (guard_run accept s cs))"
  using that spent_run [of s cs] accept_iff by blast

end

locale window_guard = replay_guard accept spent
  for accept :: "'s \<Rightarrow> 'c \<Rightarrow> bool \<times> 's" and spent :: "'s \<Rightarrow> 'c set" +
  fixes stale :: "'s \<Rightarrow> 'c set"
  assumes spent_exact:
      "c \<notin> spent s \<Longrightarrow>
       spent (snd (accept s c)) = insert c (spent s \<union> stale (snd (accept s c)))"
    and stale_spent: "stale s \<subseteq> spent s"
    and stale_mono: "stale s \<subseteq> stale (snd (accept s c))"
begin

lemma stale_run: "stale s \<subseteq> stale (snd (guard_run accept s cs))"
proof (induction cs arbitrary: s)
  case (Cons c cs)
  from stale_mono [of s c] Cons.IH [of "snd (accept s c)"] show ?case
    by (auto simp: split_beta)
qed simp

lemma spent_run_exact:
  "spent (snd (guard_run accept s cs)) =
   spent s \<union> set (fst (guard_run accept s cs)) \<union> stale (snd (guard_run accept s cs))"
proof (induction cs arbitrary: s)
  case Nil
  from stale_spent [of s] show ?case by auto
next
  case (Cons c cs)
  obtain ok s' where step: "accept s c = (ok, s')" by fastforce
  have "spent s' \<union> stale (snd (guard_run accept s' cs)) =
    spent s \<union> (if ok then {c} else {}) \<union> stale (snd (guard_run accept s' cs))"
    using step accept_iff [of s c] spent_exact [of c s] reject_unchanged [of c s]
      stale_run [of s' cs]
    by (cases "c \<in> spent s") auto
  with step Cons.IH [of s'] show ?case by (auto simp: split_beta)
qed

end

subsection \<open>Bit windows\<close>

text \<open>
  The counters at or below the highest one that a window refuses: those that have left it, and
  those whose bit is set.
\<close>

definition window_stale :: "'a::len word \<Rightarrow> 'a word set" where
  "window_stale highest = {c. unat c + 64 \<le> unat highest}"

definition window_spent :: "'a::len word \<Rightarrow> u64 \<Rightarrow> 'a word set" where
  "window_spent highest seen =
     {c. c \<le> highest \<and> (64 \<le> unat highest - unat c \<or> bit seen (unat highest - unat c))}"

text \<open>The body both functions share, at any width of at least seven bits.\<close>

definition window_accept :: "'a::len word \<Rightarrow> u64 \<Rightarrow> 'a word \<Rightarrow> bool \<times> 'a word \<times> u64" where
  "window_accept highest seen c =
     (if highest < c
      then (True, c, if 64 \<le> unat c - unat highest then 1
                     else push_bit (unat c - unat highest) seen OR 1)
      else if 64 \<le> unat highest - unat c then (False, highest, seen)
      else if bit seen (unat highest - unat c) then (False, highest, seen)
      else (True, highest, seen OR push_bit (unat highest - unat c) 1))"

lemma window_sub:
  fixes a b :: "'a::len word"
  assumes "b \<le> a"
  shows "unat (a - b) = unat a - unat b"
  using assms by (simp add: unat_sub word_le_nat_alt)

lemma sixtyfour_le_sub:
  fixes a b :: "'a::len word"
  assumes "b \<le> a" and "7 \<le> LENGTH('a)"
  shows "64 \<le> a - b \<longleftrightarrow> 64 \<le> unat a - unat b"
proof -
  have "(2 :: nat) ^ 7 \<le> 2 ^ LENGTH('a)"
    using assms(2) by (rule power_increasing) simp
  then have "unat (64 :: 'a word) = 64"
    by (simp add: unat_numeral take_bit_nat_eq_self)
  then show ?thesis
    using window_sub [OF assms(1)] by (simp add: word_le_nat_alt)
qed

lemma acceptReplayCounter_window: "acceptReplayCounter h s c = window_accept h s c"
proof (cases "h < c")
  case True
  then have "h \<le> c" by simp
  with True show ?thesis
    by (simp add: acceptReplayCounter_def window_accept_def Let_def sixtyfour_le_sub window_sub)
next
  case False
  then have "c \<le> h" by simp
  with False show ?thesis
    by (simp add: acceptReplayCounter_def window_accept_def Let_def sixtyfour_le_sub window_sub
        and_exp_eq_0_iff_not_bit)
qed

lemma directoryReplayAccept_window:
  assumes "dr_initialized s"
  shows "directoryReplayAccept s c =
     (let (ok, h, w) = window_accept (dr_highest s) (dr_seen s) c
      in (ok, s\<lparr>dr_highest := h, dr_seen := w\<rparr>))"
proof (cases "dr_highest s < c")
  case True
  then have "dr_highest s \<le> c" by simp
  with True assms show ?thesis
    by (simp add: directoryReplayAccept_def window_accept_def Let_def sixtyfour_le_sub window_sub)
next
  case False
  then have "c \<le> dr_highest s" by simp
  with False assms show ?thesis
    by (simp add: directoryReplayAccept_def window_accept_def Let_def sixtyfour_le_sub window_sub
        and_exp_eq_0_iff_not_bit)
qed

lemma window_accept_iff: "fst (window_accept h s c) \<longleftrightarrow> c \<notin> window_spent h s"
  by (auto simp: window_accept_def window_spent_def word_le_nat_alt word_less_nat_alt)

lemma window_reject: "c \<in> window_spent h s \<Longrightarrow> window_accept h s c = (False, h, s)"
  by (auto simp: window_accept_def window_spent_def)

lemma window_stale_spent: "window_stale h \<subseteq> window_spent h s"
  by (auto simp: window_stale_def window_spent_def word_le_nat_alt)

lemma window_spent_slide:
  assumes "h < c"
  shows "window_spent c (if 64 \<le> unat c - unat h then 1 else push_bit (unat c - unat h) s OR 1) =
    insert c (window_spent h s \<union> window_stale c)"
proof (rule set_eqI)
  fix d :: "'a word"
  have hc: "unat h < unat c" using assms by (simp add: word_less_nat_alt)
  have eq: "d = c \<longleftrightarrow> unat d = unat c" by (rule word_unat_eq_iff)
  show "d \<in> window_spent c (if 64 \<le> unat c - unat h then 1
        else push_bit (unat c - unat h) s OR 1) \<longleftrightarrow>
      d \<in> insert c (window_spent h s \<union> window_stale c)"
    using hc
    by (auto simp: window_spent_def window_stale_def word_le_nat_alt eq bit_push_bit_iff
        bit_or_iff bit_1_iff diff_diff_eq)
qed

lemma window_spent_fill:
  assumes "c \<le> h" "unat h - unat c < 64"
  shows "window_spent h (s OR push_bit (unat h - unat c) 1) =
    insert c (window_spent h s \<union> window_stale h)"
proof (rule set_eqI)
  fix d :: "'a word"
  have "unat c \<le> unat h" using assms(1) by (simp add: word_le_nat_alt)
  moreover have "d = c \<longleftrightarrow> unat d = unat c" by (rule word_unat_eq_iff)
  ultimately show "d \<in> window_spent h (s OR push_bit (unat h - unat c) 1) \<longleftrightarrow>
      d \<in> insert c (window_spent h s \<union> window_stale h)"
    using assms(2)
    by (auto simp: window_spent_def window_stale_def word_le_nat_alt bit_or_iff bit_exp_iff)
qed

lemma window_spent_exact:
  assumes "c \<notin> window_spent h s" "window_accept h s c = (ok, h', s')"
  shows "window_spent h' s' = insert c (window_spent h s \<union> window_stale h')"
proof (cases "h < c")
  case True
  with assms(2) window_spent_slide [OF True, of s] show ?thesis
    by (auto simp: window_accept_def)
next
  case False
  with assms(1) have c: "c \<le> h" "unat h - unat c < 64" "\<not> bit s (unat h - unat c)"
    by (auto simp: window_spent_def)
  with False assms(2) have "h' = h" "s' = s OR push_bit (unat h - unat c) 1"
    by (auto simp: window_accept_def)
  with window_spent_fill [OF c(1,2), of s] show ?thesis by simp
qed

lemma window_stale_mono: "window_accept h s c = (ok, h', s') \<Longrightarrow> window_stale h \<subseteq> window_stale h'"
  by (auto simp: window_accept_def window_stale_def word_less_nat_alt split: if_splits)

subsection \<open>The windows implement the contract\<close>

definition control_accept :: "u32 \<times> u64 \<Rightarrow> u32 \<Rightarrow> bool \<times> (u32 \<times> u64)" where
  "control_accept w c = acceptReplayCounter (fst w) (snd w) c"

definition directory_spent :: "directoryReplayState \<Rightarrow> u64 set" where
  "directory_spent s = (if dr_initialized s then window_spent (dr_highest s) (dr_seen s) else {})"

definition directory_stale :: "directoryReplayState \<Rightarrow> u64 set" where
  "directory_stale s = (if dr_initialized s then window_stale (dr_highest s) else {})"

lemma window_spent_singleton: "window_spent h 1 = insert h (window_stale h)"
proof (rule set_eqI)
  fix d :: "'a word"
  have "d = h \<longleftrightarrow> unat d = unat h" by (rule word_unat_eq_iff)
  then show "d \<in> window_spent h 1 \<longleftrightarrow> d \<in> insert h (window_stale h)"
    by (auto simp: window_spent_def window_stale_def word_le_nat_alt bit_1_iff)
qed

interpretation control_window: window_guard control_accept
  "\<lambda>w. window_spent (fst w) (snd w)" "\<lambda>w. window_stale (fst w)"
proof unfold_locales
  fix w :: "u32 \<times> u64" and c
  obtain h s where w: "w = (h, s)" by (cases w)
  obtain ok h' s' where step: "window_accept h s c = (ok, h', s')"
    by (cases "window_accept h s c")
  note defs = w step control_accept_def acceptReplayCounter_window
  show "fst (control_accept w c) \<longleftrightarrow> c \<notin> window_spent (fst w) (snd w)"
    using window_accept_iff [of h s c] by (simp add: defs)
  show "c \<notin> window_spent (fst w) (snd w) \<Longrightarrow>
    insert c (window_spent (fst w) (snd w)) \<subseteq>
    window_spent (fst (snd (control_accept w c))) (snd (snd (control_accept w c)))"
    using window_spent_exact [OF _ step] by (auto simp: defs)
  show "c \<in> window_spent (fst w) (snd w) \<Longrightarrow> snd (control_accept w c) = w"
    using window_reject [of c h s] by (simp add: defs)
  show "c \<notin> window_spent (fst w) (snd w) \<Longrightarrow>
    window_spent (fst (snd (control_accept w c))) (snd (snd (control_accept w c))) =
    insert c (window_spent (fst w) (snd w) \<union> window_stale (fst (snd (control_accept w c))))"
    using window_spent_exact [OF _ step] by (simp add: defs)
  show "window_stale (fst w) \<subseteq> window_spent (fst w) (snd w)"
    by (rule window_stale_spent)
  show "window_stale (fst w) \<subseteq> window_stale (fst (snd (control_accept w c)))"
    using window_stale_mono [OF step] by (simp add: defs)
qed

lemma directory_accept_fresh:
  assumes "c \<notin> directory_spent s"
  shows "directory_spent (snd (directoryReplayAccept s c)) =
    insert c (directory_spent s \<union> directory_stale (snd (directoryReplayAccept s c)))"
proof (cases "dr_initialized s")
  case True
  obtain ok h' s' where step: "window_accept (dr_highest s) (dr_seen s) c = (ok, h', s')"
    by (cases "window_accept (dr_highest s) (dr_seen s) c")
  from assms True show ?thesis
    using window_spent_exact [OF _ step]
    by (simp add: directoryReplayAccept_window step directory_spent_def directory_stale_def)
next
  case False
  then show ?thesis
    by (simp add: directoryReplayAccept_def directory_spent_def directory_stale_def
        window_spent_singleton)
qed

interpretation directory_window: window_guard directoryReplayAccept directory_spent directory_stale
proof unfold_locales
  fix s :: directoryReplayState and c
  obtain ok h' s' where step: "window_accept (dr_highest s) (dr_seen s) c = (ok, h', s')"
    by (cases "window_accept (dr_highest s) (dr_seen s) c")
  note defs = directory_spent_def directory_stale_def directoryReplayAccept_window step
  show "fst (directoryReplayAccept s c) \<longleftrightarrow> c \<notin> directory_spent s"
    using window_accept_iff [of "dr_highest s" "dr_seen s" c]
    by (cases "dr_initialized s") (simp_all add: defs, simp add: directoryReplayAccept_def)
  show fresh: "c \<notin> directory_spent s \<Longrightarrow>
    directory_spent (snd (directoryReplayAccept s c)) =
    insert c (directory_spent s \<union> directory_stale (snd (directoryReplayAccept s c)))"
    by (rule directory_accept_fresh)
  show "c \<notin> directory_spent s \<Longrightarrow>
    insert c (directory_spent s) \<subseteq> directory_spent (snd (directoryReplayAccept s c))"
    using fresh by auto
  show "c \<in> directory_spent s \<Longrightarrow> snd (directoryReplayAccept s c) = s"
    using window_reject [of c "dr_highest s" "dr_seen s"]
    by (auto simp: defs split: if_splits)
  show "directory_stale s \<subseteq> directory_spent s"
    by (simp add: defs window_stale_spent)
  show "directory_stale s \<subseteq> directory_stale (snd (directoryReplayAccept s c))"
    using window_stale_mono [OF step] by (auto simp: defs)
qed

subsection \<open>Properties of the windows\<close>

text \<open>
  Whatever sequence of counters a control session is offered, \<^verbatim>\<open>acceptReplayCounter\<close> accepts no
  counter twice, and none that was already spent when the run started. A counter it refuses at
  the end was spent before, was accepted in the run, or is at least 64 behind the highest one:
  nothing else is ever dropped.
\<close>

theorem control_replay_window:
  "distinct (fst (guard_run control_accept (h, s) cs)) \<and>
   set (fst (guard_run control_accept (h, s) cs)) \<inter> window_spent h s = {} \<and>
   (let (h', s') = snd (guard_run control_accept (h, s) cs) in
    fst (acceptReplayCounter h' s' c) \<longleftrightarrow>
      c \<notin> window_spent h s \<and> c \<notin> set (fst (guard_run control_accept (h, s) cs)) \<and>
      \<not> unat c + 64 \<le> unat h')"
proof -
  obtain h' s' where run: "snd (guard_run control_accept (h, s) cs) = (h', s')"
    by (cases "snd (guard_run control_accept (h, s) cs)")
  have "fst (acceptReplayCounter h' s' c) \<longleftrightarrow> c \<notin> window_spent h' s'"
    by (simp add: acceptReplayCounter_window window_accept_iff)
  with run control_window.accepted_fresh [of "(h, s)" cs]
    control_window.spent_run_exact [of "(h, s)" cs]
  show ?thesis by (simp add: window_stale_def)
qed

text \<open>
  A Directory replay record started from its zero value accepts no sequence number twice, and
  refuses only sequence numbers it has accepted or that are at least 64 behind the highest.
\<close>

theorem directory_replay_window:
  "let (acc, s') = guard_run directoryReplayAccept zeroDirectoryReplayState cs in
   distinct acc \<and>
   (fst (directoryReplayAccept s' c) \<longleftrightarrow>
      c \<notin> set acc \<and> \<not> (dr_initialized s' \<and> unat c + 64 \<le> unat (dr_highest s')))"
proof -
  obtain acc s' where run: "guard_run directoryReplayAccept zeroDirectoryReplayState cs = (acc, s')"
    by fastforce
  have "directory_spent zeroDirectoryReplayState = {}"
    by (simp add: directory_spent_def zeroDirectoryReplayState_def)
  with directory_window.spent_run_exact [of zeroDirectoryReplayState cs]
  have "directory_spent s' = set acc \<union> directory_stale s'" by (simp add: run)
  with directory_window.accepted_fresh [of zeroDirectoryReplayState cs]
    directory_window.accept_iff [of s' c]
  show ?thesis by (auto simp: run directory_stale_def window_stale_def)
qed

end
