(* ===== verification/Endpoint.thy ===== *)
theory Endpoint
  imports Relay_Prelude
begin

text \<open>
  UDP endpoints. A \<^verbatim>\<open>*net.UDPAddr\<close> is an optional record (\<open>None\<close> is the nil pointer). The Relay
  keys its maps by \<^verbatim>\<open>addr.String()\<close>, a text that determines port, zone and the IP address up to
  the two spellings of an IPv4 address (four bytes, or sixteen with the mapped prefix). The key
  is modelled as exactly that: the canonical address, the zone and the port; the empty key of a
  nil address is \<open>None\<close>. \<^verbatim>\<open>net.IP.Equal\<close> identifies the same two spellings, which
  \<open>ip_Equal_canonical\<close> states.
\<close>

record udpaddr =
  a_IP :: bytes
  a_Port :: int
  a_Zone :: string

definition v4InV6Prefix :: bytes where
  "v4InV6Prefix = replicate 10 0 @ [0xff, 0xff]"

definition To4 :: "bytes \<Rightarrow> bytes option" where
  "To4 ip = (if length ip = 4 then Some ip
             else if length ip = 16 \<and> take 12 ip = v4InV6Prefix then Some (drop 12 ip) else None)"

definition To16 :: "bytes \<Rightarrow> bytes option" where
  "To16 ip = (if length ip = 4 then Some (v4InV6Prefix @ ip)
              else if length ip = 16 then Some ip else None)"

definition ip_Equal :: "bytes \<Rightarrow> bytes \<Rightarrow> bool" where
  "ip_Equal x y =
     (if length x = length y then x = y
      else if length x = 4 \<and> length y = 16 then take 12 y = v4InV6Prefix \<and> x = drop 12 y
      else if length x = 16 \<and> length y = 4 then take 12 x = v4InV6Prefix \<and> y = drop 12 x
      else False)"

definition canonicalIP :: "bytes \<Rightarrow> bytes" where
  "canonicalIP ip = (case To4 ip of Some v4 \<Rightarrow> v4 | None \<Rightarrow> ip)"

lemma ip_Equal_canonical: "ip_Equal x y \<longleftrightarrow> canonicalIP x = canonicalIP y"
proof -
  have "x = y" if "take 12 x = take 12 y" "drop 12 x = drop 12 y"
    by (metis append_take_drop_id that)
  then show ?thesis
    by (auto simp: ip_Equal_def canonicalIP_def To4_def split: if_splits)
qed

record endpointKey =
  ek_IP :: bytes
  ek_Port :: int
  ek_Zone :: string

definition peerMapKey :: "udpaddr option \<Rightarrow> endpointKey option" where
  "peerMapKey addr =
     map_option (\<lambda>a. \<lparr>ek_IP = canonicalIP (a_IP a), ek_Port = a_Port a, ek_Zone = a_Zone a\<rparr>) addr"

lemma peerMapKey_simps [simp]:
  "peerMapKey None = None"
  "peerMapKey (Some a) = Some \<lparr>ek_IP = canonicalIP (a_IP a), ek_Port = a_Port a, ek_Zone = a_Zone a\<rparr>"
  by (simp_all add: peerMapKey_def)

definition cloneUDPAddr :: "udpaddr option \<Rightarrow> udpaddr option" where
  "cloneUDPAddr value = value"

definition sameUDPEndpoint :: "udpaddr option \<Rightarrow> udpaddr option \<Rightarrow> bool" where
  "sameUDPEndpoint left right =
     (case (left, right) of
        (Some l, Some r) \<Rightarrow> a_Port l = a_Port r \<and> a_Zone l = a_Zone r \<and> ip_Equal (a_IP l) (a_IP r)
      | _ \<Rightarrow> False)"

text \<open>The endpoint comparison of the code is equality of the map keys.\<close>

lemma sameUDPEndpoint_key:
  "sameUDPEndpoint left right \<longleftrightarrow> left \<noteq> None \<and> right \<noteq> None \<and> peerMapKey left = peerMapKey right"
  by (auto simp: sameUDPEndpoint_def ip_Equal_canonical split: option.splits)

end
