(* ===== verification/Primitives.thy ===== *)
theory Primitives
  imports Relay_Prelude
begin

text \<open>
  What the Relay takes from its standard library without depending on how it works: HMAC-SHA-256,
  SHA-256, Ed25519 verification and the JSON decoders of the ticket and grant structs. They are
  the fields of one record that every definition using them takes as an argument, so a property
  holds for whatever functions stand there; the few facts a property needs of them (a digest has
  32 bytes) are its hypotheses. Unpadded Base64URL, on the other hand, is defined here byte for
  byte, since \<^verbatim>\<open>strictBase64URL\<close> relies on the decoder's leniency and repairs it.
\<close>

subsection \<open>Claims\<close>

record identityTicketHeader =
  ith_Algorithm :: string
  ith_KeyID :: string
  ith_Type :: string

record identityTicketClaims =
  itc_Issuer :: string
  itc_Audience :: string
  itc_Subject :: string
  itc_TicketID :: string
  itc_IssuedAt :: int
  itc_ExpiresAt :: int
  itc_ChannelID :: u32
  itc_SenderID :: u32
  itc_Permissions :: u8
  itc_Priority :: "u8 option"
  itc_JWKThumbprint :: string

record serviceGrantHeader =
  sgh_Algorithm :: string
  sgh_KeyID :: string
  sgh_Type :: string

record serviceGrantClaims =
  sgc_Issuer :: string
  sgc_Audience :: string
  sgc_ServiceID :: string
  sgc_GrantID :: string
  sgc_IssuedAt :: int
  sgc_ExpiresAt :: int
  sgc_ChannelID :: u32
  sgc_SenderID :: u32
  sgc_Role :: string
  sgc_Permissions :: u8
  sgc_Priority :: "u8 option"
  sgc_GraceSeconds :: "u16 option"
  sgc_JWKThumbprint :: string

record prims =
  hmacSHA256 :: "bytes \<Rightarrow> bytes \<Rightarrow> bytes"
  sha256 :: "bytes \<Rightarrow> bytes"
  ed25519Verify :: "bytes \<Rightarrow> bytes \<Rightarrow> bytes \<Rightarrow> bool"
  jsonIdentityHeader :: "bytes \<Rightarrow> identityTicketHeader option"
  jsonIdentityClaims :: "bytes \<Rightarrow> identityTicketClaims option"
  jsonServiceHeader :: "bytes \<Rightarrow> serviceGrantHeader option"
  jsonServiceClaims :: "bytes \<Rightarrow> serviceGrantClaims option"

text \<open>The claim decoders fill int64 fields.\<close>

definition int64 :: "int \<Rightarrow> bool" where
  "int64 v \<longleftrightarrow> - (2 ^ 63) \<le> v \<and> v < 2 ^ 63"

definition bytes_of :: "string \<Rightarrow> bytes" where
  "bytes_of s = map of_char s"

definition string_of :: "bytes \<Rightarrow> string" where
  "string_of bs = map (\<lambda>b. char_of (unat b)) bs"

lemma length_bytes_of [simp]: "length (bytes_of s) = length s"
  by (simp add: bytes_of_def)

lemma length_string_of [simp]: "length (string_of bs) = length bs"
  by (simp add: string_of_def)

lemma string_of_bytes_of [simp]: "string_of (bytes_of s) = s"
proof -
  have "char_of (unat (of_char c :: u8)) = c" for c
    using unat_byte_of_nat [of "of_char c"] by (simp only: of_nat_of_char char_of_mod_256 char_of_char)
  then show ?thesis by (simp add: string_of_def bytes_of_def comp_def)
qed

text \<open>
  \<^verbatim>\<open>strings.Split(s, sep)\<close> for a one-character separator, and \<^verbatim>\<open>strings.TrimSpace(s) == ""\<close>: every
  rune of the UTF-8 text is a Unicode white space.
\<close>

fun splitOn :: "char \<Rightarrow> string \<Rightarrow> string list" where
  "splitOn sep [] = [[]]"
| "splitOn sep (c # cs) =
     (if c = sep then [] # splitOn sep cs
      else case splitOn sep cs of [] \<Rightarrow> [[c]] | seg # segs \<Rightarrow> (c # seg) # segs)"

lemma splitOn_nonempty [simp]: "splitOn sep s \<noteq> []"
  by (cases s) (auto split: list.split)

lemma splitOn_field: "sep \<notin> set s \<Longrightarrow> splitOn sep s = [s]"
  by (induction s) auto

lemma splitOn_append: "sep \<notin> set s \<Longrightarrow> splitOn sep (s @ sep # t) = s # splitOn sep t"
  by (induction s) auto

lemma splitOn_join: "splitOn sep s = x # xs \<Longrightarrow> s = x @ concat (map ((#) sep) xs)"
proof (induction s arbitrary: x xs)
  case (Cons c cs)
  obtain y ys where ys: "splitOn sep cs = y # ys" by (cases "splitOn sep cs") auto
  then have "c = sep \<and> x = [] \<and> xs = y # ys \<or> x = c # y \<and> xs = ys"
    using Cons.prems by (auto split: if_splits)
  then show ?case
  proof (elim disjE conjE)
    assume "c = sep" "x = []" "xs = y # ys"
    then show ?thesis by simp (rule Cons.IH [OF ys])
  next
    assume "x = c # y" "xs = ys"
    then show ?thesis by simp (rule Cons.IH [OF ys])
  qed
qed simp

definition wideSpaces :: "bytes list" where
  "wideSpaces = [[0xC2, 0x85], [0xC2, 0xA0], [0xE1, 0x9A, 0x80]] @
     map (\<lambda>n. [0xE2, 0x80, of_nat n]) ([0x80..<0x8B] @ [0xA8, 0xA9, 0xAF]) @
     [[0xE2, 0x81, 0x9F], [0xE3, 0x80, 0x80]]"

fun blankBytes :: "nat \<Rightarrow> bytes \<Rightarrow> bool" where
  "blankBytes n [] = True"
| "blankBytes 0 (b # bs) = False"
| "blankBytes (Suc n) (b # bs) =
     (if b \<in> {9, 10, 11, 12, 13, 32} then blankBytes n bs
      else if take 2 (b # bs) \<in> set wideSpaces then blankBytes n (drop 1 bs)
      else if take 3 (b # bs) \<in> set wideSpaces then blankBytes n (drop 2 bs)
      else False)"

text \<open>Each round consumes at least one byte, so the length of the text is fuel enough.\<close>

definition blankText :: "string \<Rightarrow> bool" where
  "blankText s = blankBytes (length s) (bytes_of s)"

subsection \<open>Base64URL without padding\<close>

definition b64Alphabet :: string where
  "b64Alphabet = ''ABCDEFGHIJKLMNOPQRSTUVWXYZabcdefghijklmnopqrstuvwxyz0123456789-_''"

definition b64Char :: "nat \<Rightarrow> char" where
  "b64Char n = b64Alphabet ! (n mod 64)"

definition b64Value :: "char \<Rightarrow> nat option" where
  "b64Value c = map_of (zip b64Alphabet [0..<64]) c"

fun b64Encode :: "bytes \<Rightarrow> string" where
  "b64Encode [] = []"
| "b64Encode [a] = (let v = unat a * 65536 in [b64Char (v div 262144), b64Char (v div 4096)])"
| "b64Encode [a, b] = (let v = unat a * 65536 + unat b * 256 in
     [b64Char (v div 262144), b64Char (v div 4096), b64Char (v div 64)])"
| "b64Encode (a # b # c # rest) = (let v = unat a * 65536 + unat b * 256 + unat c in
     [b64Char (v div 262144), b64Char (v div 4096), b64Char (v div 64), b64Char v]
     @ b64Encode rest)"

fun b64Quanta :: "nat list \<Rightarrow> bytes option" where
  "b64Quanta [] = Some []"
| "b64Quanta [a] = None"
| "b64Quanta [a, b] = (let v = a * 262144 + b * 4096 in Some [of_nat (v div 65536)])"
| "b64Quanta [a, b, c] = (let v = a * 262144 + b * 4096 + c * 64 in
     Some [of_nat (v div 65536), of_nat (v div 256)])"
| "b64Quanta (a # b # c # d # rest) = (let v = a * 262144 + b * 4096 + c * 64 + d in
     map_option (\<lambda>r. [of_nat (v div 65536), of_nat (v div 256), of_nat v] @ r) (b64Quanta rest))"

text \<open>
  The decoder skips carriage returns and newlines, fails on any other character outside the
  alphabet or on a lone final character, and ignores non-zero trailing bits.
\<close>

definition b64Decode :: "string \<Rightarrow> bytes option" where
  "b64Decode s =
     (let digits = map b64Value (filter (\<lambda>c. c \<noteq> CHR 0x0D \<and> c \<noteq> CHR 0x0A) s)
      in if None \<in> set digits then None else b64Quanta (map the digits))"

definition strictBase64URL :: "string \<Rightarrow> bytes option" where
  "strictBase64URL value =
     (if value = [] \<or> CHR ''='' \<in> set value then None
      else case b64Decode value of
        None \<Rightarrow> None
      | Some decoded \<Rightarrow> if b64Encode decoded \<noteq> value then None else Some decoded)"

lemma b64Alphabet_facts:
  "length b64Alphabet = 64" "distinct b64Alphabet"
  "CHR ''='' \<notin> set b64Alphabet" "CHR 0x0D \<notin> set b64Alphabet" "CHR 0x0A \<notin> set b64Alphabet"
  by code_simp+

lemma b64Char_mem: "b64Char n \<in> set b64Alphabet"
  unfolding b64Char_def by (rule nth_mem) (simp add: b64Alphabet_facts)

lemma b64Value_Char: "b64Value (b64Char n) = Some (n mod 64)"
  unfolding b64Value_def b64Char_def
  using map_of_zip_nth [of b64Alphabet "[0..<64]" "n mod 64"] by (simp add: b64Alphabet_facts)

lemma set_b64Encode: "set (b64Encode bs) \<subseteq> set b64Alphabet"
  by (induction bs rule: b64Encode.induct) (auto simp: Let_def b64Char_mem)

lemma sextets_join:
  "v < 16777216 \<Longrightarrow>
   v div 262144 mod 64 * 262144 + v div 4096 mod 64 * 4096 + v div 64 mod 64 * 64 + v mod 64 = v"
  for v :: nat
proof -
  assume "v < 16777216"
  then have "v div 262144 < 64" by simp
  have q: "v div 4096 = v div 64 div 64" "v div 262144 = v div 64 div 64 div 64"
    by (simp_all add: div_mult2_eq [symmetric])
  define a where "a = v div 64"
  define b where "b = a div 64"
  define c where "c = b div 64"
  have v: "v = a * 64 + v mod 64"
    unfolding a_def by (rule div_mult_mod_eq [symmetric])
  have a: "a = b * 64 + a mod 64"
    unfolding b_def by (rule div_mult_mod_eq [symmetric])
  have b: "b = c * 64 + b mod 64"
    unfolding c_def by (rule div_mult_mod_eq [symmetric])
  have "v = c * 262144 + b mod 64 * 4096 + a mod 64 * 64 + v mod 64"
    using v a b by linarith
  moreover have "c mod 64 = c"
    using \<open>v div 262144 < 64\<close> unfolding q by (simp add: a_def b_def c_def)
  ultimately show ?thesis unfolding q by (simp add: a_def b_def c_def)
qed

lemma b64Quanta_Encode: "b64Quanta (map (the \<circ> b64Value) (b64Encode bs)) = Some bs"
proof (induction bs rule: b64Encode.induct)
  case 1
  then show ?case by simp
next
  case (2 a)
  have a: "unat a < 256" using unat_less_exp [of a] by simp
  with sextets_join [of "unat a * 65536"] show ?case
    by (simp add: b64Value_Char Let_def)
next
  case (3 a b)
  have ab: "unat a < 256" "unat b < 256"
    using unat_less_exp [of a] unat_less_exp [of b] by simp_all
  let ?v = "unat a * 65536 + unat b * 256"
  have "?v div 65536 = unat a" "?v div 256 = unat a * 256 + unat b" "?v mod 64 = 0"
    using ab by simp_all
  moreover have "(of_nat (unat a * 256 + unat b) :: u8) = b"
    by (rule word_unat_eq_iff [THEN iffD2]) (use ab in \<open>simp only: unat_byte_of_nat\<close>, simp)
  ultimately show ?case
    using ab sextets_join [of ?v]
    by (simp add: b64Value_Char Let_def mult.commute [of a 256])
next
  case (4 a b c rest)
  have abc: "unat a < 256" "unat b < 256" "unat c < 256"
    using unat_less_exp [of a] unat_less_exp [of b] unat_less_exp [of c] by simp_all
  let ?v = "unat a * 65536 + unat b * 256 + unat c"
  have "?v div 65536 = unat a" "?v div 256 = unat a * 256 + unat b"
    using abc by simp_all
  moreover have "(of_nat (unat a * 256 + unat b) :: u8) = b"
    by (rule word_unat_eq_iff [THEN iffD2]) (use abc in \<open>simp only: unat_byte_of_nat\<close>, simp)
  moreover have "(of_nat ?v :: u8) = c"
  proof (rule word_unat_eq_iff [THEN iffD2])
    have "?v = (unat a * 256 + unat b) * 256 + unat c" by simp
    then have "?v mod 256 = unat c" using abc(3) by (simp only: mod_mult_self3 mod_less)
    then show "unat (of_nat ?v :: u8) = unat c" by (simp only: unat_byte_of_nat)
  qed
  ultimately show ?case
    using abc sextets_join [of ?v] 4
    by (simp add: b64Value_Char Let_def mult.commute [of a 256])
qed

lemma b64Decode_Encode: "b64Decode (b64Encode bs) = Some bs"
proof -
  let ?s = "b64Encode bs"
  have sub: "set ?s \<subseteq> set b64Alphabet" by (rule set_b64Encode)
  then have keep: "filter (\<lambda>c. c \<noteq> CHR 0x0D \<and> c \<noteq> CHR 0x0A) ?s = ?s"
    by (intro filter_True) (use b64Alphabet_facts in auto)
  have "b64Value c \<noteq> None" if "c \<in> set ?s" for c
  proof -
    from that sub obtain n where "n < 64" "c = b64Alphabet ! n"
      by (metis b64Alphabet_facts(1) in_set_conv_nth subsetD)
    then have "c = b64Char n" by (simp add: b64Char_def)
    then show ?thesis by (simp add: b64Value_Char)
  qed
  then have "None \<notin> set (map b64Value ?s)"
    by (metis (no_types, lifting) image_iff list.set_map)
  with keep b64Quanta_Encode [of bs] show ?thesis
    by (simp add: b64Decode_def comp_def)
qed

lemma strictBase64URL_Encode: "d \<noteq> [] \<Longrightarrow> strictBase64URL (b64Encode d) = Some d"
proof -
  assume "d \<noteq> []"
  then have "b64Encode d \<noteq> []"
    by (cases d rule: b64Encode.cases) (auto simp: Let_def)
  moreover have "CHR ''='' \<notin> set (b64Encode d)"
    using set_b64Encode [of d] b64Alphabet_facts(3) by blast
  ultimately show ?thesis by (simp add: strictBase64URL_def b64Decode_Encode)
qed

lemma strictBase64URL_Some: "strictBase64URL value = Some d \<Longrightarrow> d \<noteq> [] \<and> value = b64Encode d"
  by (auto simp: strictBase64URL_def split: if_splits option.splits)

lemma length_b64Encode: "length (b64Encode bs) = (4 * length bs + 2) div 3"
  by (induction bs rule: b64Encode.induct) (simp_all add: Let_def)

lemma b64Alphabet_ascii: "\<forall>c\<in>set b64Alphabet. c \<noteq> CHR ''.'' \<and> \<not> (0x7f :: u8) < of_char c"
  by code_simp

lemma b64Encode_ascii:
  "c \<in> set (b64Encode bs) \<Longrightarrow> c \<noteq> CHR ''.'' \<and> \<not> (0x7f :: u8) < of_char c"
  using set_b64Encode [of bs] b64Alphabet_ascii by blast

text \<open>
  \<^verbatim>\<open>strictBase64URL\<close> accepts exactly the canonical encodings: a text is accepted as the bytes \<open>d\<close>
  if and only if \<open>d\<close> is non-empty and the text is the one unpadded Base64URL spelling of \<open>d\<close>, even
  though the decoder it calls skips line breaks and ignores trailing bits.
\<close>

theorem strictBase64URL_canonical:
  "strictBase64URL value = Some d \<longleftrightarrow> d \<noteq> [] \<and> value = b64Encode d"
  using strictBase64URL_Some strictBase64URL_Encode by blast

text \<open>Three Base64URL segments joined by dots split back into the three.\<close>

lemma splitOn_segments:
  "splitOn (CHR ''.'') (b64Encode a @ ''.'' @ b64Encode b @ ''.'' @ b64Encode c) =
     [b64Encode a, b64Encode b, b64Encode c]"
proof -
  have "CHR ''.'' \<notin> set (b64Encode x)" for x using b64Encode_ascii by blast
  then show ?thesis by (simp add: splitOn_append splitOn_field)
qed

lemma segments_ascii:
  "(\<exists>v\<in>set (bytes_of (b64Encode a @ ''.'' @ b64Encode b @ ''.'' @ b64Encode c)). 0x7f < v) = False"
proof -
  have "\<not> (0x7f :: u8) < of_char (CHR ''.'')" by code_simp
  then show ?thesis using b64Encode_ascii by (auto simp: bytes_of_def)
qed

end
