(* ===== verification/Control_Auth.thy ===== *)
theory Control_Auth
  imports Wire Replay Endpoint Primitives
begin

text \<open>
  Control Authentication v1 (control_auth.go): the policy and key store, the HMAC tag of a control
  packet, the Relay nonce domain, the stateless cookie, the table of outstanding challenges and
  the provisional replay windows that carry a session from AUTH_HELLO to JOIN. Each mutex-protected
  section is one definition; a reading of the clock is an argument, and the random source is a
  supply of bytes in the state from which \<^verbatim>\<open>rand.Read\<close> takes the next ones, failing when it is dry.
\<close>

subsection \<open>State\<close>

datatype controlAuthPolicy = controlAuthOff | controlAuthOptional | controlAuthRequired

type_synonym controlKeyStore = "(u32, (u32, bytes) gomap) gomap"

record authChallengeKey =
  ack_channelID :: u32
  ack_senderID :: u32
  ack_keyID :: u32
  ack_sessionID :: u32
  ack_address :: "endpointKey option"
  ack_expiresAt :: u32
  ack_cookie :: bytes

record controlAuthMeta =
  meta_keyID :: u32
  meta_sessionID :: u32
  meta_counter :: u32

record provisionalReplayKey =
  prk_channelID :: u32
  prk_senderID :: u32
  prk_keyID :: u32
  prk_sessionID :: u32
  prk_address :: "endpointKey option"

record provisionalReplayState =
  prs_highest :: u32
  prs_seen :: u64
  prs_expiresAt :: gotime

record controlAuthState =
  ca_policy :: controlAuthPolicy
  ca_keys :: controlKeyStore
  ca_cookieSecret :: bytes
  ca_relayInstanceID :: u32
  ca_relayCounter :: u32
  ca_relayCounterExhausted :: bool
  ca_usedRelayInstanceIDs :: "u32 set"
  ca_challenges :: "(authChallengeKey, gotime) gomap"
  ca_provisional :: "(provisionalReplayKey, provisionalReplayState) gomap"
  ca_entropy :: bytes

definition zeroMeta :: controlAuthMeta where
  "zeroMeta = \<lparr>meta_keyID = 0, meta_sessionID = 0, meta_counter = 0\<rparr>"

definition controlAuthCookieTTL :: duration where
  "controlAuthCookieTTL = 30 * Second"

abbreviation (input) maxProvisionalControlSessions :: nat where
  "maxProvisionalControlSessions \<equiv> 1024"

text \<open>\<^verbatim>\<open>rand.Read\<close> of \<open>n\<close> bytes from the supply.\<close>

definition rand_Read :: "nat \<Rightarrow> bytes \<Rightarrow> (bytes \<times> bytes) option" where
  "rand_Read n supply = (if length supply < n then None else Some (take n supply, drop n supply))"

subsection \<open>Policy and keys\<close>

definition controlAuth_requires :: "controlAuthState option \<Rightarrow> u32 \<Rightarrow> bool" where
  "controlAuth_requires a channelID =
     (case a of None \<Rightarrow> False
      | Some st \<Rightarrow>
          (case ca_policy st of
             controlAuthRequired \<Rightarrow> True
           | controlAuthOptional \<Rightarrow>
               (case map_of (ca_keys st) channelID of None \<Rightarrow> False | Some ks \<Rightarrow> ks \<noteq> [])
           | controlAuthOff \<Rightarrow> False))"

text \<open>\<^verbatim>\<open>nil\<close> (no such key) is the empty slice.\<close>

definition controlAuth_key :: "controlAuthState option \<Rightarrow> u32 \<Rightarrow> u32 \<Rightarrow> bytes" where
  "controlAuth_key a channelID keyID =
     (case a of None \<Rightarrow> []
      | Some st \<Rightarrow>
          if keyID = 0 then []
          else case map_of (ca_keys st) channelID of
            None \<Rightarrow> []
          | Some ks \<Rightarrow> (case map_of ks keyID of None \<Rightarrow> [] | Some k \<Rightarrow> k))"

subsection \<open>Authenticated packets\<close>

definition controlAuthTag :: "prims \<Rightarrow> bytes \<Rightarrow> bytes \<Rightarrow> bytes" where
  "controlAuthTag pr key packetWithoutTag =
     take authTagSize
       (hmacSHA256 pr key (bytes_of ''incomudon-control-auth-v1'' @ [0] @ packetWithoutTag))"

definition verifyControlAuthPacket :: "prims \<Rightarrow> parsedPacket \<Rightarrow> bytes \<Rightarrow> bool" where
  "verifyControlAuthPacket pr pkt key =
     (if length key \<noteq> 32 \<or> h_HeaderLen (pk_Header pkt) \<noteq> 28 \<or>
         h_Flags (pk_Header pkt) AND packetFlagControlAuthV1 = 0 \<or>
         h_Flags (pk_Header pkt) AND packetFlagAESGCMV2HeaderAAD \<noteq> 0 \<or>
         sec_ControlNonce (pk_Sec pkt) = 0 \<or> sec_KeyID (pk_Sec pkt) = 0 \<or>
         length (pk_Tag pkt) \<noteq> authTagSize \<or> length (pk_Raw pkt) < 28 + authTagSize
      then False
      else controlAuthTag pr key (take (length (pk_Raw pkt) - authTagSize) (pk_Raw pkt)) = pk_Tag pkt)"

definition buildAuthenticatedControlPacketWithSeq ::
  "prims \<Rightarrow> u8 \<Rightarrow> u32 \<Rightarrow> u32 \<Rightarrow> bytes \<Rightarrow> u32 \<Rightarrow> bytes \<Rightarrow> u64 \<Rightarrow> u16 \<Rightarrow> bytes" where
  "buildAuthenticatedControlPacketWithSeq pr pktType channelID senderID payload keyID key nonce sequence =
     (let body = [protocolVersion, pktType] @ PutUint16 28 @ PutUint32 channelID @
                 PutUint32 senderID @ PutUint16 sequence @ PutUint16 packetFlagControlAuthV1 @
                 PutUint64 nonce @ PutUint32 keyID @ payload
      in body @ controlAuthTag pr key body)"

definition buildAuthenticatedControlPacket ::
  "prims \<Rightarrow> u8 \<Rightarrow> u32 \<Rightarrow> u32 \<Rightarrow> bytes \<Rightarrow> u32 \<Rightarrow> bytes \<Rightarrow> u64 \<Rightarrow> bytes" where
  "buildAuthenticatedControlPacket pr pktType channelID senderID payload keyID key nonce =
     buildAuthenticatedControlPacketWithSeq pr pktType channelID senderID payload keyID key nonce 0"

definition controlNonceParts :: "u64 \<Rightarrow> u32 \<times> u32" where
  "controlNonceParts nonce = (ucast (drop_bit 32 nonce), ucast nonce)"

definition verifyIncomingControl ::
  "prims \<Rightarrow> controlAuthState option \<Rightarrow> parsedPacket \<Rightarrow> controlAuthMeta \<times> bool" where
  "verifyIncomingControl pr a pkt =
     (case a of None \<Rightarrow> (zeroMeta, False)
      | Some st \<Rightarrow>
        let key = controlAuth_key a (h_ChannelId (pk_Header pkt)) (sec_KeyID (pk_Sec pkt)) in
        if \<not> verifyControlAuthPacket pr pkt key then (zeroMeta, False)
        else let (sessionID, counter) = controlNonceParts (sec_ControlNonce (pk_Sec pkt)) in
          if sessionID = 0 then (zeroMeta, False)
          else (\<lparr>meta_keyID = sec_KeyID (pk_Sec pkt), meta_sessionID = sessionID,
                 meta_counter = counter\<rparr>, True))"

subsection \<open>The Relay nonce domain\<close>

fun newRelayInstanceIDLoop :: "nat \<Rightarrow> controlAuthState \<Rightarrow> u32 option \<times> controlAuthState" where
  "newRelayInstanceIDLoop 0 a = (None, a)"
| "newRelayInstanceIDLoop (Suc attempts) a =
     (case rand_Read 4 (ca_entropy a) of
        None \<Rightarrow> (None, a)
      | Some (encoded, rest) \<Rightarrow>
          let a' = a\<lparr>ca_entropy := rest\<rparr>; instanceID = Uint32 encoded in
          if instanceID = 0 \<or> instanceID \<in> ca_usedRelayInstanceIDs a
          then newRelayInstanceIDLoop attempts a'
          else (Some instanceID,
                a'\<lparr>ca_usedRelayInstanceIDs := insert instanceID (ca_usedRelayInstanceIDs a)\<rparr>))"

definition newRelayInstanceIDLocked :: "controlAuthState \<Rightarrow> u32 option \<times> controlAuthState" where
  "newRelayInstanceIDLocked a = newRelayInstanceIDLoop 32 a"

definition nextRelayNonce :: "controlAuthState \<Rightarrow> u64 option \<times> controlAuthState" where
  "nextRelayNonce a =
     (let (ok, a1) =
        (if ca_relayCounterExhausted a
         then case newRelayInstanceIDLocked a of
                (None, a') \<Rightarrow> (False, a')
              | (Some instanceID, a') \<Rightarrow>
                  (True, a'\<lparr>ca_relayInstanceID := instanceID, ca_relayCounter := 0,
                            ca_relayCounterExhausted := False\<rparr>)
         else (True, a))
      in if \<not> ok then (None, a1)
         else let nonce = push_bit 32 (ucast (ca_relayInstanceID a1)) OR ucast (ca_relayCounter a1) in
           (Some nonce,
            if ca_relayCounter a1 = - 1 then a1\<lparr>ca_relayCounterExhausted := True\<rparr>
            else a1\<lparr>ca_relayCounter := ca_relayCounter a1 + 1\<rparr>))"

datatype controlAuthError =
    NoControlKeysConfigured | CookieSecretTooShort | RelayInstanceIDUnavailable

text \<open>
  The policy type has the three values the parser can produce, so the first check of the
  constructor (an unsupported policy text) has no case here.
\<close>

definition newControlAuthState ::
  "controlAuthPolicy \<Rightarrow> controlKeyStore \<Rightarrow> bytes \<Rightarrow> bytes \<Rightarrow> controlAuthError + controlAuthState" where
  "newControlAuthState policy keys cookieSecret entropy =
     (if policy = controlAuthRequired \<and> keys = [] then Inl NoControlKeysConfigured
      else if keys \<noteq> [] \<and> length cookieSecret < 32 then Inl CookieSecretTooShort
      else let state = \<lparr>ca_policy = policy, ca_keys = keys, ca_cookieSecret = cookieSecret,
             ca_relayInstanceID = 0, ca_relayCounter = 0, ca_relayCounterExhausted = False,
             ca_usedRelayInstanceIDs = {}, ca_challenges = [], ca_provisional = [],
             ca_entropy = entropy\<rparr>
        in if policy \<noteq> controlAuthOff
           then case newRelayInstanceIDLocked state of
                  (None, _) \<Rightarrow> Inl RelayInstanceIDUnavailable
                | (Some i, state') \<Rightarrow> Inr (state'\<lparr>ca_relayInstanceID := i\<rparr>)
           else Inr state)"

subsection \<open>Cookies and challenges\<close>

definition controlAuth_cookie ::
  "prims \<Rightarrow> controlAuthState \<Rightarrow> u32 \<Rightarrow> u32 \<Rightarrow> u32 \<Rightarrow> u32 \<Rightarrow> u32 \<Rightarrow> udpaddr \<Rightarrow> bytes" where
  "controlAuth_cookie pr a channelID senderID keyID sessionID expiresAt addr =
     (let ip = (case To4 (a_IP addr) of
                  Some v4 \<Rightarrow> v4InV6Prefix @ v4
                | None \<Rightarrow> (case To16 (a_IP addr) of Some v6 \<Rightarrow> v6 | None \<Rightarrow> replicate 16 0));
          input = bytes_of ''incomudon-control-cookie-v1'' @ [0] @ ip @
                  PutUint16 (of_int (a_Port addr)) @
                  concat (map PutUint32 [channelID, senderID, keyID, sessionID, expiresAt])
      in take authTagSize (hmacSHA256 pr (ca_cookieSecret a) input))"

definition cleanupPendingLocked :: "gotime \<Rightarrow> controlAuthState \<Rightarrow> controlAuthState" where
  "cleanupPendingLocked now a =
     a\<lparr>ca_challenges := prune (\<lambda>deadline. now < deadline) (ca_challenges a),
       ca_provisional := prune (\<lambda>st. now < prs_expiresAt st) (ca_provisional a)\<rparr>"

definition challengeKeyFor ::
  "parsedPacket \<Rightarrow> udpaddr option \<Rightarrow> controlAuthMeta \<Rightarrow> u32 \<Rightarrow> bytes \<Rightarrow> authChallengeKey" where
  "challengeKeyFor pkt addr meta expiresAt cookie =
     \<lparr>ack_channelID = h_ChannelId (pk_Header pkt), ack_senderID = h_SenderId (pk_Header pkt),
      ack_keyID = meta_keyID meta, ack_sessionID = meta_sessionID meta,
      ack_address = peerMapKey addr, ack_expiresAt = expiresAt,
      ack_cookie = take authTagSize (cookie @ replicate authTagSize 0)\<rparr>"

definition replayKeyFor ::
  "parsedPacket \<Rightarrow> udpaddr option \<Rightarrow> controlAuthMeta \<Rightarrow> provisionalReplayKey" where
  "replayKeyFor pkt addr meta =
     \<lparr>prk_channelID = h_ChannelId (pk_Header pkt), prk_senderID = h_SenderId (pk_Header pkt),
      prk_keyID = meta_keyID meta, prk_sessionID = meta_sessionID meta,
      prk_address = peerMapKey addr\<rparr>"

text \<open>\<open>now1\<close> fixes the expiry of the cookie, \<open>now2\<close> is read again under the lock.\<close>

definition createChallenge ::
  "prims \<Rightarrow> gotime \<Rightarrow> gotime \<Rightarrow> controlAuthState \<Rightarrow> parsedPacket \<Rightarrow> udpaddr option \<Rightarrow>
   controlAuthMeta \<Rightarrow> bytes option \<times> controlAuthState" where
  "createChallenge pr now1 now2 a pkt addr meta =
     (case addr of None \<Rightarrow> (None, a)
      | Some ad \<Rightarrow>
        if meta_counter meta \<noteq> 0 \<or> meta_sessionID meta = 0 then (None, a)
        else if length (controlAuth_key (Some a) (h_ChannelId (pk_Header pkt)) (meta_keyID meta)) \<noteq> 32
        then (None, a)
        else let
          expiresAt = of_int (Unix_of (now1 + controlAuthCookieTTL));
          cookie = controlAuth_cookie pr a (h_ChannelId (pk_Header pkt)) (h_SenderId (pk_Header pkt))
                     (meta_keyID meta) (meta_sessionID meta) expiresAt ad;
          challengeKey = challengeKeyFor pkt addr meta expiresAt cookie;
          a1 = cleanupPendingLocked now2 a;
          replayKey = replayKeyFor pkt addr meta
        in if maxProvisionalControlSessions \<le> length (ca_provisional a1) then (None, a1)
           else if map_of (ca_provisional a1) replayKey \<noteq> None then (None, a1)
           else let expires = time_Unix (uint expiresAt) in
             (Some (PutUint32 expiresAt @ cookie),
              a1\<lparr>ca_challenges := AList.update challengeKey expires (ca_challenges a1),
                 ca_provisional := AList.update replayKey
                   \<lparr>prs_highest = 0, prs_seen = 1, prs_expiresAt = expires\<rparr> (ca_provisional a1)\<rparr>))"

definition acceptPreJoinControl ::
  "gotime \<Rightarrow> controlAuthState \<Rightarrow> parsedPacket \<Rightarrow> udpaddr option \<Rightarrow> controlAuthMeta \<Rightarrow>
   bool \<times> controlAuthState" where
  "acceptPreJoinControl now a pkt addr meta =
     (if meta_sessionID meta = 0 \<or> addr = None then (False, a)
      else let key = replayKeyFor pkt addr meta; a1 = cleanupPendingLocked now a in
        case map_of (ca_provisional a1) key of
          None \<Rightarrow> (False, a1)
        | Some st \<Rightarrow>
            (case acceptReplayCounter (prs_highest st) (prs_seen st) (meta_counter meta) of
               (ok, h, w) \<Rightarrow>
                 if \<not> ok then (False, a1)
                 else (True, a1\<lparr>ca_provisional :=
                   AList.update key (st\<lparr>prs_highest := h, prs_seen := w\<rparr>) (ca_provisional a1)\<rparr>)))"

text \<open>The clock is read three times: for the expiry, for the clean-up and for the deadline.\<close>

definition consumeJoinChallenge ::
  "prims \<Rightarrow> gotime \<Rightarrow> gotime \<Rightarrow> gotime \<Rightarrow> controlAuthState \<Rightarrow> parsedPacket \<Rightarrow> udpaddr option \<Rightarrow>
   controlAuthMeta \<Rightarrow> provisionalReplayState option \<times> controlAuthState" where
  "consumeJoinChallenge pr now1 now2 now3 a pkt addr meta =
     (case addr of None \<Rightarrow> (None, a)
      | Some ad \<Rightarrow>
        if meta_sessionID meta = 0 \<or> length (pk_Payload pkt) \<noteq> 20 then (None, a)
        else let expiresAt = Uint32 (take 4 (pk_Payload pkt)) in
        if expiresAt < of_int (Unix_of now1) then (None, a)
        else if controlAuth_cookie pr a (h_ChannelId (pk_Header pkt)) (h_SenderId (pk_Header pkt))
                  (meta_keyID meta) (meta_sessionID meta) expiresAt ad \<noteq> drop 4 (pk_Payload pkt)
        then (None, a)
        else let
          challengeKey = challengeKeyFor pkt addr meta expiresAt (drop 4 (pk_Payload pkt));
          replayKey = replayKeyFor pkt addr meta;
          a1 = cleanupPendingLocked now2 a
        in case map_of (ca_challenges a1) challengeKey of
             None \<Rightarrow> (None, a1\<lparr>ca_challenges := AList.delete challengeKey (ca_challenges a1)\<rparr>)
           | Some deadline \<Rightarrow>
             if \<not> now3 < deadline
             then (None, a1\<lparr>ca_challenges := AList.delete challengeKey (ca_challenges a1)\<rparr>)
             else case map_of (ca_provisional a1) replayKey of
               None \<Rightarrow> (None, a1)
             | Some st \<Rightarrow>
                 (case acceptReplayCounter (prs_highest st) (prs_seen st) (meta_counter meta) of
                    (ok, h, w) \<Rightarrow>
                      if \<not> ok then (None, a1)
                      else (Some (st\<lparr>prs_highest := h, prs_seen := w\<rparr>),
                            a1\<lparr>ca_challenges := AList.delete challengeKey (ca_challenges a1),
                               ca_provisional := AList.delete replayKey (ca_provisional a1)\<rparr>)))"

subsection \<open>Authenticated packets parse and verify\<close>

lemma length_controlAuthTag:
  "(\<And>k m. length (hmacSHA256 pr k m) = 32) \<Longrightarrow> length (controlAuthTag pr key m) = 16"
  by (simp add: controlAuthTag_def)

lemma authenticated_packet_shape:
  "buildAuthenticatedControlPacketWithSeq pr t c s payload keyID key nonce q =
    (let pre = wireHeader t 28 c s q 2 @ PutUint64 nonce @ PutUint32 keyID
     in pre @ payload @ controlAuthTag pr key (pre @ payload))"
  by (simp add: buildAuthenticatedControlPacketWithSeq_def wireHeader_def Let_def)

text \<open>
  C38. A control packet the Relay signs with a 32-byte key parses back to its type, channel, sender,
  sequence, nonce, key ID and payload, and \<^verbatim>\<open>verifyControlAuthPacket\<close> accepts it under that key
  (HMAC-SHA-256 digests have 32 bytes; nonce and key ID are not zero).
\<close>

theorem authenticated_control_roundtrip:
  assumes hmac: "\<And>k m. length (hmacSHA256 pr k m) = 32"
    and key: "length key = 32" and nonzero: "nonce \<noteq> 0" "keyID \<noteq> 0"
  shows "\<exists>pkt. parsePacket (buildAuthenticatedControlPacketWithSeq pr t c s payload keyID key nonce q)
        noCrypto = Some pkt \<and>
      pk_Header pkt = \<lparr>h_Version = protocolVersion, h_Type = t, h_HeaderLen = 28, h_ChannelId = c,
        h_SenderId = s, h_Seq = q, h_Flags = packetFlagControlAuthV1\<rparr> \<and>
      sec_ControlNonce (pk_Sec pkt) = nonce \<and> sec_KeyID (pk_Sec pkt) = keyID \<and>
      pk_Payload pkt = payload \<and> verifyControlAuthPacket pr pkt key"
proof -
  let ?pre = "wireHeader t 28 c s q 2 @ PutUint64 nonce @ PutUint32 keyID"
  let ?tag = "controlAuthTag pr key (?pre @ payload)"
  let ?raw = "?pre @ payload @ ?tag"
  have tag: "length ?tag = 16" by (rule length_controlAuthTag [OF hmac])
  have fields: "slice 16 24 ?raw = PutUint64 nonce" "slice 24 28 ?raw = PutUint32 keyID"
    by (simp_all add: slice_def)
  have flag: "(2 :: u16) AND 1 = 0" "(2 :: u16) AND 2 \<noteq> 0" by simp_all
  have pl: "parsePacketPayload ?raw h sec 28 =
      Some \<lparr>pk_Header = h, pk_Sec = sec, pk_Payload = payload, pk_Tag = ?tag, pk_Raw = ?raw\<rparr>" for h sec
    by (rule parsePacketPayload_parts [OF _ tag]) simp
  have "take (length ?raw - 16) ?raw = ?pre @ payload" using tag by simp
  with tag key nonzero flag fields pl show ?thesis
    by (simp add: authenticated_packet_shape Let_def parsePacket_def parseHeader_wireHeader
        verifyControlAuthPacket_def)
qed

definition demoPrims :: prims where
  "demoPrims =
     \<lparr>hmacSHA256 = (\<lambda>k m. take 32 (m @ k @ replicate 32 7)), sha256 = (\<lambda>m. take 32 (m @ replicate 32 9)),
      ed25519Verify = (\<lambda>k m sig. sig = take 64 (m @ k @ replicate 64 5)),
      jsonIdentityHeader = (\<lambda>_. None), jsonIdentityClaims = (\<lambda>_. None),
      jsonServiceHeader = (\<lambda>_. None), jsonServiceClaims = (\<lambda>_. None)\<rparr>"

lemma demoPrims_hmac: "length (hmacSHA256 demoPrims k m) = 32"
  by (simp add: demoPrims_def)

theorem authenticated_control_roundtrip_witness:
  "\<exists>pkt. parsePacket (buildAuthenticatedControlPacketWithSeq demoPrims 8 3 4 [1] 1 (replicate 32 1) 77 0)
     False = Some pkt \<and> verifyControlAuthPacket demoPrims pkt (replicate 32 1)"
  using authenticated_control_roundtrip
    [of demoPrims "replicate 32 1" 77 1 8 3 4 "[1]" 0 False, OF demoPrims_hmac]
  by auto

subsection \<open>Relay nonces\<close>

lemma nonceParts_join:
  "controlNonceParts (push_bit 32 (ucast i) OR ucast c) = (i, c)"
  for i c :: u32
proof -
  have "ucast (drop_bit 32 (push_bit 32 (ucast i) OR ucast c :: u64)) = i"
    by (rule bit_word_eqI) (auto simp: bit_simps dest: bit_imp_le_length)
  moreover have "ucast (push_bit 32 (ucast i) OR ucast c :: u64) = c"
    by (rule bit_word_eqI) (auto simp: bit_simps)
  ultimately show ?thesis by (simp add: controlNonceParts_def)
qed

lemma newRelayInstanceIDLoop_fresh:
  assumes "newRelayInstanceIDLoop n a = (Some i, a')"
  shows "i \<noteq> 0 \<and> i \<notin> ca_usedRelayInstanceIDs a \<and>
    ca_usedRelayInstanceIDs a' = insert i (ca_usedRelayInstanceIDs a) \<and>
    ca_relayCounter a' = ca_relayCounter a \<and>
    ca_relayCounterExhausted a' = ca_relayCounterExhausted a"
  using assms
proof (induction n arbitrary: a)
  case (Suc n)
  show ?case
    using Suc.prems Suc.IH
    by (fastforce simp: Let_def split: option.splits if_splits)
qed simp

lemma newRelayInstanceIDLoop_used:
  "newRelayInstanceIDLoop n a = (r, a') \<Longrightarrow>
   ca_usedRelayInstanceIDs a \<subseteq> ca_usedRelayInstanceIDs a' \<and>
   (r = None \<longrightarrow> ca_usedRelayInstanceIDs a' = ca_usedRelayInstanceIDs a \<and>
      ca_relayInstanceID a' = ca_relayInstanceID a \<and> ca_relayCounter a' = ca_relayCounter a \<and>
      ca_relayCounterExhausted a' = ca_relayCounterExhausted a)"
proof (induction n arbitrary: a)
  case (Suc n)
  show ?case
    using Suc.prems Suc.IH
    by (fastforce simp: Let_def split: option.splits if_splits)
qed simp

lemma newRelayInstanceIDLocked_first:
  assumes "rand_Read 4 (ca_entropy a) = Some (e, rest)" "Uint32 e \<noteq> 0"
    "Uint32 e \<notin> ca_usedRelayInstanceIDs a"
  shows "newRelayInstanceIDLocked a = (Some (Uint32 e), a\<lparr>ca_entropy := rest,
    ca_usedRelayInstanceIDs := insert (Uint32 e) (ca_usedRelayInstanceIDs a)\<rparr>)"
  using assms newRelayInstanceIDLoop.simps(2) [of 31 a]
  by (simp add: newRelayInstanceIDLocked_def Let_def)

text \<open>The nonces handed out so far lie in used instances, below the counter of the current one.\<close>

definition nonce_inv :: "controlAuthState \<Rightarrow> u64 set \<Rightarrow> bool" where
  "nonce_inv a issued \<longleftrightarrow>
     ca_relayInstanceID a \<in> ca_usedRelayInstanceIDs a \<and>
     (\<forall>n\<in>issued. fst (controlNonceParts n) \<in> ca_usedRelayInstanceIDs a \<and>
        (fst (controlNonceParts n) = ca_relayInstanceID a \<longrightarrow>
           ca_relayCounterExhausted a \<or> snd (controlNonceParts n) < ca_relayCounter a))"

fun nonce_run :: "nat \<Rightarrow> controlAuthState \<Rightarrow> u64 list \<times> controlAuthState" where
  "nonce_run 0 a = ([], a)"
| "nonce_run (Suc n) a =
     (let (r, a') = nextRelayNonce a; (ns, a'') = nonce_run n a'
      in (case r of None \<Rightarrow> ns | Some x \<Rightarrow> x # ns, a''))"

lemma word_less_Suc: "x \<le> k \<Longrightarrow> k \<noteq> - 1 \<Longrightarrow> x < k + 1" for x k :: "'a::len word"
proof -
  assume x: "x \<le> k" and k: "k \<noteq> - 1"
  then have "1 + k \<noteq> 0" by (metis add.commute add_eq_0_iff2 add.inverse_inverse)
  then have "unat (1 + k) = Suc (unat k)" by (rule unatSuc)
  with x show "x < k + 1" by (simp add: word_less_nat_alt word_le_nat_alt add.commute)
qed

lemma nonce_emit:
  assumes inv: "nonce_inv a issued" and "\<not> ca_relayCounterExhausted a"
    and emit: "nextRelayNonce a = (Some n, a')"
  shows "n \<notin> issued \<and> nonce_inv a' (insert n issued)"
proof -
  from emit assms(2) have n: "controlNonceParts n = (ca_relayInstanceID a, ca_relayCounter a)"
    by (auto simp: nextRelayNonce_def Let_def nonceParts_join split: if_splits)
  have a': "a' = (if ca_relayCounter a = - 1 then a\<lparr>ca_relayCounterExhausted := True\<rparr>
      else a\<lparr>ca_relayCounter := ca_relayCounter a + 1\<rparr>)"
    using emit assms(2) by (auto simp: nextRelayNonce_def Let_def)
  from inv n assms(2) have "n \<notin> issued"
    by (auto simp: nonce_inv_def)
  moreover have "x < ca_relayCounter a + 1"
    if "x \<le> ca_relayCounter a" "ca_relayCounter a \<noteq> - 1" for x
    using that by (rule word_less_Suc)
  ultimately show ?thesis
    using inv n a' assms(2) by (auto simp: nonce_inv_def less_imp_le)
qed

lemma nonce_rollover:
  assumes inv: "nonce_inv a issued" and new: "newRelayInstanceIDLocked a = (Some i, a')"
  shows "nonce_inv (a'\<lparr>ca_relayInstanceID := i, ca_relayCounter := 0,
    ca_relayCounterExhausted := False\<rparr>) issued"
  using inv newRelayInstanceIDLoop_fresh [OF new [unfolded newRelayInstanceIDLocked_def]]
  by (auto simp: nonce_inv_def)

lemma nonce_step:
  assumes inv: "nonce_inv a issued" and step: "nextRelayNonce a = (r, a')"
  shows "case r of None \<Rightarrow> nonce_inv a' issued | Some n \<Rightarrow> n \<notin> issued \<and> nonce_inv a' (insert n issued)"
proof (cases "ca_relayCounterExhausted a")
  case False
  then obtain n where "r = Some n"
    using step by (auto simp: nextRelayNonce_def Let_def)
  with nonce_emit [OF inv False] step show ?thesis by simp
next
  case True
  obtain q b where new: "newRelayInstanceIDLocked a = (q, b)" by fastforce
  show ?thesis
  proof (cases q)
    case None
    with new True step have "r = None" "a' = b" by (auto simp: nextRelayNonce_def Let_def)
    with inv newRelayInstanceIDLoop_used [OF new [unfolded newRelayInstanceIDLocked_def]] None
    show ?thesis by (auto simp: nonce_inv_def)
  next
    case (Some i)
    let ?b = "b\<lparr>ca_relayInstanceID := i, ca_relayCounter := 0, ca_relayCounterExhausted := False\<rparr>"
    have "nextRelayNonce a = nextRelayNonce ?b"
      using True new Some by (simp add: nextRelayNonce_def Let_def)
    moreover from this step obtain n where "r = Some n" by (auto simp: nextRelayNonce_def Let_def)
    ultimately show ?thesis
      using nonce_emit [OF nonce_rollover [OF inv new [unfolded Some]], of n a'] step by simp
  qed
qed

lemma nonce_run_distinct:
  "nonce_inv a issued \<Longrightarrow> nonce_run n a = (ns, a') \<Longrightarrow>
   distinct ns \<and> set ns \<inter> issued = {} \<and> nonce_inv a' (set ns \<union> issued)"
proof (induction n arbitrary: a issued ns)
  case (Suc n)
  obtain r b where step: "nextRelayNonce a = (r, b)" by fastforce
  obtain ms where rest: "nonce_run n b = (ms, a')"
    using Suc.prems(2) step by (cases "nonce_run n b") (simp add: split_beta)
  from nonce_step [OF Suc.prems(1) step] Suc.IH [OF _ rest] Suc.prems(2) step rest
  show ?case by (cases r) fastforce+
qed simp

lemma newControlAuthState_nonce_inv:
  assumes "newControlAuthState policy keys secret entropy = Inr a" and "policy \<noteq> controlAuthOff"
  shows "nonce_inv a {} \<and> ca_relayInstanceID a \<noteq> 0"
  using assms newRelayInstanceIDLoop_fresh
  by (fastforce simp: newControlAuthState_def newRelayInstanceIDLocked_def nonce_inv_def Let_def
      split: if_splits prod.splits option.splits)

text \<open>A concrete Relay with one key.\<close>

definition demoAuth :: controlAuthState where
  "demoAuth = \<lparr>ca_policy = controlAuthRequired, ca_keys = [(5, [(1, replicate 32 1)])],
    ca_cookieSecret = replicate 32 2, ca_relayInstanceID = 9, ca_relayCounter = 0,
    ca_relayCounterExhausted = False, ca_usedRelayInstanceIDs = {9}, ca_challenges = [],
    ca_provisional = [], ca_entropy = []\<rparr>"

lemma demoAuth_new:
  "newControlAuthState controlAuthRequired [(5, [(1, replicate 32 1)])] (replicate 32 2)
     [0, 0, 0, 9] = Inr demoAuth"
  by (simp add: newControlAuthState_def newRelayInstanceIDLocked_first rand_Read_def
      Uint32_def be_val_def Let_def demoAuth_def)

text \<open>
  C37. A Relay never signs two control packets under one nonce: whatever number of nonces is drawn
  from a freshly constructed authentication state, across exhausted counters, new instance IDs and
  failures of the random source, the nonces that come out are pairwise different, so none repeats
  until the process ends.
\<close>

theorem relay_nonces_distinct:
  assumes "newControlAuthState policy keys secret entropy = Inr a" and "policy \<noteq> controlAuthOff"
  shows "distinct (fst (nonce_run n a))"
  using nonce_run_distinct [of a "{}" n] newControlAuthState_nonce_inv [OF assms]
  by (cases "nonce_run n a") auto

theorem relay_nonces_distinct_witness:
  "fst (nonce_run (Suc (Suc 0)) demoAuth) = [0x900000000, 0x900000001] \<and>
   distinct (fst (nonce_run (Suc (Suc 0)) demoAuth))"
proof -
  have "fst (nonce_run (Suc (Suc 0)) demoAuth) = [0x900000000, 0x900000001]"
    by (simp add: nextRelayNonce_def Let_def split_beta demoAuth_def)
  with relay_nonces_distinct [OF demoAuth_new, of "Suc (Suc 0)"] show ?thesis by auto
qed

subsection \<open>Outstanding challenges\<close>

definition replayKeyOf :: "authChallengeKey \<Rightarrow> provisionalReplayKey" where
  "replayKeyOf k =
     \<lparr>prk_channelID = ack_channelID k, prk_senderID = ack_senderID k, prk_keyID = ack_keyID k,
      prk_sessionID = ack_sessionID k, prk_address = ack_address k\<rparr>"

lemma replayKeyOf_challengeKeyFor [simp]:
  "replayKeyOf (challengeKeyFor pkt addr meta e c) = replayKeyFor pkt addr meta"
  by (simp add: replayKeyOf_def challengeKeyFor_def replayKeyFor_def)

text \<open>
  The invariant of the pending tables: both are maps, at most 1024 sessions are provisional, and
  every challenge belongs to a provisional session of its own with the same expiry.
\<close>

definition pending_inv :: "controlAuthState \<Rightarrow> bool" where
  "pending_inv a \<longleftrightarrow>
     gomap_wf (ca_challenges a) \<and> gomap_wf (ca_provisional a) \<and>
     length (ca_provisional a) \<le> maxProvisionalControlSessions \<and>
     inj_on replayKeyOf (fst ` set (ca_challenges a)) \<and>
     (\<forall>(k, e)\<in>set (ca_challenges a).
        \<exists>st. (replayKeyOf k, st) \<in> set (ca_provisional a) \<and> prs_expiresAt st = e)"

lemma pending_inv_cleanup:
  assumes "pending_inv a"
  shows "pending_inv (cleanupPendingLocked now a)"
proof -
  have "length (prune P (ca_provisional a)) \<le> 1024" for P
    using assms by (intro order_trans [OF length_prune]) (simp add: pending_inv_def)
  moreover have "inj_on replayKeyOf (fst ` set (prune P (ca_challenges a)))" for P
    using assms by (auto simp: pending_inv_def set_prune intro: inj_on_subset)
  ultimately show ?thesis
    using assms by (fastforce simp: pending_inv_def cleanupPendingLocked_def set_prune)
qed

lemma pending_inv_delete_challenge:
  assumes "pending_inv a"
  shows "pending_inv (a\<lparr>ca_challenges := AList.delete k (ca_challenges a)\<rparr>)"
proof -
  have "inj_on replayKeyOf (fst ` set (AList.delete k (ca_challenges a)))"
    using assms by (auto simp: pending_inv_def set_delete intro: inj_on_subset)
  with assms show ?thesis by (auto simp: pending_inv_def set_delete)
qed

lemma pending_inv_delete_session:
  assumes inv: "pending_inv a" and k: "k \<in> fst ` set (ca_challenges a)"
  shows "pending_inv (a\<lparr>ca_challenges := AList.delete k (ca_challenges a),
    ca_provisional := AList.delete (replayKeyOf k) (ca_provisional a)\<rparr>)"
proof -
  let ?b = "a\<lparr>ca_challenges := AList.delete k (ca_challenges a)\<rparr>"
  have b: "pending_inv ?b" by (rule pending_inv_delete_challenge [OF inv])
  have "replayKeyOf k' \<noteq> replayKeyOf k" if "(k', e) \<in> set (ca_challenges ?b)" for k' e
    using that inv k by (force simp: pending_inv_def set_delete dest: inj_onD)
  moreover have "length (AList.delete r (ca_provisional a)) \<le> 1024" for r
    using inv by (intro order_trans [OF length_delete_le]) (simp add: pending_inv_def)
  ultimately show ?thesis
    using b by (fastforce simp: pending_inv_def set_delete)
qed

lemma pending_inv_add:
  assumes inv: "pending_inv a" and room: "length (ca_provisional a) < 1024"
    and r: "r = replayKeyOf k" and fresh: "map_of (ca_provisional a) r = None"
    and e: "prs_expiresAt st = e"
  shows "pending_inv (a\<lparr>ca_challenges := AList.update k e (ca_challenges a),
    ca_provisional := AList.update r st (ca_provisional a)\<rparr>)"
proof -
  have other: "replayKeyOf k' \<noteq> r" if "(k', e') \<in> set (ca_challenges a)" for k' e'
    using that inv fresh by (force simp: pending_inv_def map_of_eq_None_iff)
  have keys: "fst ` set (AList.update k e (ca_challenges a)) = insert k (fst ` set (ca_challenges a))"
    by (metis dom_map_of_conv_image_fst dom_fun_upd map_of_update option.distinct(1))
  have inj: "inj_on replayKeyOf (insert k (fst ` set (ca_challenges a)))"
    using inv other r by (force simp: pending_inv_def)
  have len: "length (AList.update r st (ca_provisional a)) \<le> 1024"
    using room by (rule length_update_bound)
  have link: "\<exists>s. (replayKeyOf k', s) \<in> set (AList.update r st (ca_provisional a)) \<and>
      prs_expiresAt s = e'"
    if "(k', e') \<in> set (AList.update k e (ca_challenges a))" for k' e'
  proof (cases "k' = k")
    case True
    with that inv e r show ?thesis by (auto simp: pending_inv_def set_update_wf)
  next
    case False
    with that inv have old: "(k', e') \<in> set (ca_challenges a)"
      by (auto simp: pending_inv_def set_update_wf)
    with inv obtain s where "(replayKeyOf k', s) \<in> set (ca_provisional a)" "prs_expiresAt s = e'"
      by (auto simp: pending_inv_def)
    with other [OF old] inv show ?thesis by (auto simp: pending_inv_def set_update_wf)
  qed
  from inv inj len link show ?thesis by (auto simp: pending_inv_def keys)
qed

lemma pending_inv_window:
  assumes inv: "pending_inv a" and st: "map_of (ca_provisional a) r = Some st"
    and e: "prs_expiresAt st' = prs_expiresAt st"
  shows "pending_inv (a\<lparr>ca_provisional := AList.update r st' (ca_provisional a)\<rparr>)"
proof -
  have len: "length (AList.update r st' (ca_provisional a)) = length (ca_provisional a)"
    by (rule length_update_mem) (rule map_of_in_keys [OF st])
  have "s = st" if "(r, s) \<in> set (ca_provisional a)" for s
    using that st inv by (simp add: pending_inv_def)
  then have "\<exists>s. (replayKeyOf k', s) \<in> set (AList.update r st' (ca_provisional a)) \<and>
      prs_expiresAt s = e'" if "(k', e') \<in> set (ca_challenges a)" for k' e'
  proof -
    from inv that obtain s where s: "(replayKeyOf k', s) \<in> set (ca_provisional a)"
      "prs_expiresAt s = e'"
      by (auto simp: pending_inv_def)
    with inv e \<open>\<And>s. (r, s) \<in> set (ca_provisional a) \<Longrightarrow> s = st\<close> show ?thesis
      by (cases "replayKeyOf k' = r") (auto simp: pending_inv_def set_update_wf)
  qed
  with inv len show ?thesis by (auto simp: pending_inv_def)
qed

lemma pending_inv_createChallenge:
  "pending_inv a \<Longrightarrow> pending_inv (snd (createChallenge pr now1 now2 a pkt addr meta))"
  using pending_inv_cleanup [of a now2]
  by (auto simp: createChallenge_def Let_def not_le split: option.splits intro!: pending_inv_add)

lemma pending_inv_acceptPreJoin:
  "pending_inv a \<Longrightarrow> pending_inv (snd (acceptPreJoinControl now a pkt addr meta))"
  using pending_inv_cleanup [of a now]
  by (auto simp: acceptPreJoinControl_def Let_def split: option.splits prod.splits
      intro: pending_inv_window)

lemma pending_inv_consume:
  assumes inv: "pending_inv a"
  shows "pending_inv (snd (consumeJoinChallenge pr now1 now2 now3 a pkt addr meta))"
proof -
  let ?a = "cleanupPendingLocked now2 a"
  have a: "pending_inv ?a" by (rule pending_inv_cleanup [OF inv])
  have del: "pending_inv (?a\<lparr>ca_challenges := AList.delete k (ca_challenges ?a),
      ca_provisional := AList.delete r (ca_provisional ?a)\<rparr>)"
    if "r = replayKeyOf k" "map_of (ca_challenges ?a) k = Some d" for k r d
    using pending_inv_delete_session [OF a map_of_in_keys [OF that(2)]] that(1) by simp
  show ?thesis
    unfolding consumeJoinChallenge_def Let_def
    using inv a pending_inv_delete_challenge [OF a]
    by (simp add: del split: option.split prod.split)
qed

lemma pending_inv_bounds:
  assumes "pending_inv a"
  shows "length (ca_challenges a) \<le> length (ca_provisional a)"
proof -
  have "length (ca_challenges a) = card (fst ` set (ca_challenges a))"
    using assms distinct_card [of "map fst (ca_challenges a)"] by (simp add: pending_inv_def)
  also have "\<dots> = card (replayKeyOf ` fst ` set (ca_challenges a))"
    using assms by (simp add: pending_inv_def card_image)
  also have "\<dots> \<le> card (fst ` set (ca_provisional a))"
    using assms by (intro card_mono) (force simp: pending_inv_def)+
  also have "\<dots> \<le> length (ca_provisional a)"
    by (metis card_length length_map set_map)
  finally show ?thesis .
qed

text \<open>What the Relay does with the authentication state before a sender is admitted.\<close>

inductive auth_step :: "prims \<Rightarrow> controlAuthState \<Rightarrow> controlAuthState \<Rightarrow> bool" for pr where
  auth_hello: "auth_step pr a (snd (createChallenge pr t1 t2 a pkt addr meta))"
| auth_prejoin: "auth_step pr a (snd (acceptPreJoinControl t1 a pkt addr meta))"
| auth_join: "auth_step pr a (snd (consumeJoinChallenge pr t1 t2 t3 a pkt addr meta))"
| auth_nonce: "auth_step pr a (snd (nextRelayNonce a))"

lemma newRelayInstanceIDLoop_pending:
  "pending_inv (snd (newRelayInstanceIDLoop n a)) = pending_inv a"
  by (induction n arbitrary: a)
    (auto simp: Let_def pending_inv_def split: option.splits)

lemma pending_inv_nonce: "pending_inv (snd (nextRelayNonce a)) = pending_inv a"
  using newRelayInstanceIDLoop_pending [of 32 a]
  by (auto simp: nextRelayNonce_def newRelayInstanceIDLocked_def Let_def pending_inv_def
      split: prod.splits option.splits if_splits)

interpretation auth_machine: invariant_machine "auth_step pr" pending_inv
proof unfold_locales
  fix s t
  assume "pending_inv s" "auth_step pr s t"
  from this(2,1) show "pending_inv t"
    by cases (simp_all add: pending_inv_createChallenge pending_inv_acceptPreJoin
        pending_inv_consume pending_inv_nonce)
qed

lemma pending_inv_new:
  assumes "newControlAuthState policy keys secret entropy = Inr a"
  shows "pending_inv a"
proof -
  let ?st = "\<lparr>ca_policy = policy, ca_keys = keys, ca_cookieSecret = secret, ca_relayInstanceID = 0,
    ca_relayCounter = 0, ca_relayCounterExhausted = False, ca_usedRelayInstanceIDs = {},
    ca_challenges = [], ca_provisional = [], ca_entropy = entropy\<rparr>"
  have "pending_inv ?st" by (simp add: pending_inv_def)
  with newRelayInstanceIDLoop_pending [of 32 ?st] assms show ?thesis
    by (auto simp: newControlAuthState_def newRelayInstanceIDLocked_def Let_def pending_inv_def
        split: if_splits prod.splits option.splits)
qed

text \<open>
  However an unauthenticated peer orders its AUTH_HELLO, pre-JOIN and JOIN packets, at most
  1024 provisional sessions and at most as many outstanding challenges are held, and every
  outstanding challenge has a provisional session that expires with it.
\<close>

theorem pending_tables_bounded:
  assumes "newControlAuthState policy keys secret entropy = Inr a" and "steps (auth_step pr) a b"
  shows "length (ca_provisional b) \<le> 1024 \<and> length (ca_challenges b) \<le> length (ca_provisional b) \<and>
    (\<forall>(k, e)\<in>set (ca_challenges b).
       \<exists>st. map_of (ca_provisional b) (replayKeyOf k) = Some st \<and> prs_expiresAt st = e)"
proof -
  have b: "pending_inv b"
    by (rule auth_machine.inv_steps [OF assms(2) pending_inv_new [OF assms(1)]])
  with pending_inv_bounds [OF b] show ?thesis
    by (fastforce simp: pending_inv_def)
qed

text \<open>A client endpoint and its AUTH_HELLO.\<close>

definition demoAddr :: udpaddr where
  "demoAddr = \<lparr>a_IP = [192, 0, 2, 1], a_Port = 50000, a_Zone = []\<rparr>"

definition demoHello :: parsedPacket where
  "demoHello = \<lparr>pk_Header = \<lparr>h_Version = 1, h_Type = pktAuthHello, h_HeaderLen = 28, h_ChannelId = 5,
     h_SenderId = 11, h_Seq = 0, h_Flags = 2\<rparr>, pk_Sec = zeroSecurityHeader, pk_Payload = [],
     pk_Tag = [], pk_Raw = []\<rparr>"

definition demoMeta :: controlAuthMeta where
  "demoMeta = \<lparr>meta_keyID = 1, meta_sessionID = 77, meta_counter = 0\<rparr>"

lemma demoHello_challenge:
  "createChallenge demoPrims (time_Unix 1000) (time_Unix 1000) demoAuth demoHello (Some demoAddr) demoMeta
   = (Some payload, b) \<Longrightarrow> Uint32 (take 4 payload) = 1030"
  "fst (createChallenge demoPrims (time_Unix 1000) (time_Unix 1000) demoAuth demoHello (Some demoAddr)
     demoMeta) \<noteq> None"
  by (auto simp: createChallenge_def Let_def demoAuth_def demoHello_def demoMeta_def
      controlAuth_key_def cleanupPendingLocked_def prune_def controlAuthCookieTTL_def time_Unix_def
      Unix_of_def Second_def unixEpoch_def)

theorem pending_tables_bounded_witness:
  "\<exists>payload b. createChallenge demoPrims (time_Unix 1000) (time_Unix 1000) demoAuth demoHello
     (Some demoAddr) demoMeta = (Some payload, b) \<and> length (ca_provisional b) \<le> 1024"
proof -
  obtain payload b where b: "createChallenge demoPrims (time_Unix 1000) (time_Unix 1000) demoAuth
      demoHello (Some demoAddr) demoMeta = (Some payload, b)"
    using demoHello_challenge(2) by (metis option.exhaust surjective_pairing)
  have "steps (auth_step demoPrims) demoAuth b"
    using auth_hello [of demoPrims demoAuth "time_Unix 1000" "time_Unix 1000"
        demoHello "Some demoAddr" demoMeta] b by (intro steps_single) simp
  from pending_tables_bounded [OF demoAuth_new this] b show ?thesis by blast
qed

subsection \<open>A challenge is good for one JOIN\<close>

lemma window_first: "0 < c \<Longrightarrow> \<exists>w. acceptReplayCounter 0 1 c = (True, c, w)"
  by (simp add: acceptReplayCounter_def Let_def)

lemma consume_needs_challenge:
  assumes "consumeJoinChallenge pr t1 t2 t3 a pkt addr meta = (Some st, b)"
  shows "meta_sessionID meta \<noteq> 0 \<and>
    (\<exists>d. map_of (ca_challenges (cleanupPendingLocked t2 a))
           (challengeKeyFor pkt addr meta (Uint32 (take 4 (pk_Payload pkt))) (drop 4 (pk_Payload pkt)))
         = Some d \<and> t3 < d)"
  using assms
  by (auto simp: consumeJoinChallenge_def Let_def split: option.splits if_splits prod.splits)

lemma consume_uses_challenge:
  assumes "consumeJoinChallenge pr t1 t2 t3 a pkt addr meta = (Some st, b)"
  shows "map_of (ca_challenges b)
    (challengeKeyFor pkt addr meta (Uint32 (take 4 (pk_Payload pkt))) (drop 4 (pk_Payload pkt))) = None"
  using assms
  by (auto simp: consumeJoinChallenge_def Let_def split: option.splits if_splits prod.splits)

lemma cleanup_none:
  "map_of (ca_challenges a) k = None \<Longrightarrow> map_of (ca_challenges (cleanupPendingLocked t a)) k = None"
  by (force simp: cleanupPendingLocked_def map_of_eq_None_iff set_prune)

lemma consume_once:
  assumes "consumeJoinChallenge pr t1 t2 t3 a pkt addr meta = (Some st, b)"
  shows "fst (consumeJoinChallenge pr u1 u2 u3 b pkt addr meta) = None"
proof (rule ccontr)
  assume "fst (consumeJoinChallenge pr u1 u2 u3 b pkt addr meta) \<noteq> None"
  then obtain st' c where "consumeJoinChallenge pr u1 u2 u3 b pkt addr meta = (Some st', c)"
    by (cases "consumeJoinChallenge pr u1 u2 u3 b pkt addr meta") auto
  from consume_needs_challenge [OF this] cleanup_none [OF consume_uses_challenge [OF assms], of u2]
  show False by simp
qed

lemma createChallenge_Some:
  assumes "createChallenge pr n1 n2 a hello (Some ad) hm = (Some payload, b)"
  defines "e \<equiv> of_int (Unix_of (n1 + controlAuthCookieTTL))"
  defines "cookie \<equiv> controlAuth_cookie pr a (h_ChannelId (pk_Header hello))
    (h_SenderId (pk_Header hello)) (meta_keyID hm) (meta_sessionID hm) e ad"
  shows "payload = PutUint32 e @ cookie \<and> meta_sessionID hm \<noteq> 0 \<and>
    ca_cookieSecret b = ca_cookieSecret a \<and>
    map_of (ca_challenges b) (challengeKeyFor hello (Some ad) hm e cookie) = Some (time_Unix (uint e)) \<and>
    map_of (ca_provisional b) (replayKeyFor hello (Some ad) hm) =
      Some \<lparr>prs_highest = 0, prs_seen = 1, prs_expiresAt = time_Unix (uint e)\<rparr>"
  using assms(1) unfolding cookie_def e_def
  by (auto simp: createChallenge_def cleanupPendingLocked_def Let_def split: if_splits)

lemma join_challenge_once_step:
  assumes hmac: "\<And>k m. length (hmacSHA256 pr k m) = 32"
    and inv: "pending_inv a"
    and hello: "createChallenge pr n1 n2 a hello (Some ad) hm = (Some payload, b)"
    and join: "h_ChannelId (pk_Header join) = h_ChannelId (pk_Header hello)"
      "h_SenderId (pk_Header join) = h_SenderId (pk_Header hello)" "pk_Payload join = payload"
    and meta: "meta_keyID jm = meta_keyID hm" "meta_sessionID jm = meta_sessionID hm"
      "0 < meta_counter jm"
    and intime: "of_int (Unix_of t1) \<le> Uint32 (take 4 payload)"
      "t2 < time_Unix (uint (Uint32 (take 4 payload)))"
      "t3 < time_Unix (uint (Uint32 (take 4 payload)))"
  shows "\<exists>st c. consumeJoinChallenge pr t1 t2 t3 b join (Some ad) jm = (Some st, c) \<and>
    prs_highest st = meta_counter jm"
proof -
  define e :: u32 where "e = of_int (Unix_of (n1 + controlAuthCookieTTL))"
  let ?cookie = "controlAuth_cookie pr b (h_ChannelId (pk_Header hello))
    (h_SenderId (pk_Header hello)) (meta_keyID hm) (meta_sessionID hm) e ad"
  have same: "controlAuth_cookie pr x = controlAuth_cookie pr y"
    if "ca_cookieSecret x = ca_cookieSecret y" for x y
    using that by (simp add: controlAuth_cookie_def fun_eq_iff)
  note new = createChallenge_Some [OF hello, folded e_def]
  have payload: "payload = PutUint32 e @ ?cookie"
    using new same [of b a] by simp
  have len: "length ?cookie = 16" by (simp add: controlAuth_cookie_def Let_def hmac)
  then have parts: "Uint32 (take 4 payload) = e" "drop 4 payload = ?cookie" "length payload = 20"
    by (simp_all add: payload)
  have inv_b: "pending_inv b"
    using pending_inv_createChallenge [OF inv, of pr n1 n2 hello "Some ad" hm] hello by simp
  have keys: "challengeKeyFor join (Some ad) jm = challengeKeyFor hello (Some ad) hm"
    "replayKeyFor join (Some ad) jm = replayKeyFor hello (Some ad) hm"
    using join meta by (simp_all add: challengeKeyFor_def replayKeyFor_def fun_eq_iff)
  have found: "map_of (ca_challenges (cleanupPendingLocked t2 b))
      (challengeKeyFor hello (Some ad) hm e ?cookie) = Some (time_Unix (uint e))"
    "map_of (ca_provisional (cleanupPendingLocked t2 b)) (replayKeyFor hello (Some ad) hm) =
      Some \<lparr>prs_highest = 0, prs_seen = 1, prs_expiresAt = time_Unix (uint e)\<rparr>"
    using new inv_b intime(2) same [of b a]
    by (auto simp: cleanupPendingLocked_def pending_inv_def parts intro!: map_of_prune_keep
        simp del: map_of_eq_Some_iff)
  obtain w where w: "acceptReplayCounter 0 1 (meta_counter jm) = (True, meta_counter jm, w)"
    using window_first [OF meta(3)] by auto
  show ?thesis
    using new found intime meta join parts w
    by (simp add: consumeJoinChallenge_def Let_def keys not_less)
qed

text \<open>
  An AUTH_CHALLENGE is answered once. The payload \<^verbatim>\<open>createChallenge\<close> returns, echoed in a JOIN
  from the same endpoint for the same channel, sender, key and session, with any fresh counter
  and before the announced second, is accepted and starts the replay window at that counter; sent
  again, at whatever time, it is refused.
\<close>

theorem join_challenge_once:
  assumes hmac: "\<And>k m. length (hmacSHA256 pr k m) = 32"
    and inv: "pending_inv a"
    and hello: "createChallenge pr n1 n2 a hello (Some ad) hm = (Some payload, b)"
    and join: "h_ChannelId (pk_Header join) = h_ChannelId (pk_Header hello)"
      "h_SenderId (pk_Header join) = h_SenderId (pk_Header hello)" "pk_Payload join = payload"
    and meta: "meta_keyID jm = meta_keyID hm" "meta_sessionID jm = meta_sessionID hm"
      "0 < meta_counter jm"
    and intime: "of_int (Unix_of t1) \<le> Uint32 (take 4 payload)"
      "t2 < time_Unix (uint (Uint32 (take 4 payload)))"
      "t3 < time_Unix (uint (Uint32 (take 4 payload)))"
  shows "\<exists>st c. consumeJoinChallenge pr t1 t2 t3 b join (Some ad) jm = (Some st, c) \<and>
    prs_highest st = meta_counter jm \<and>
    fst (consumeJoinChallenge pr u1 u2 u3 c join (Some ad) jm) = None"
  using join_challenge_once_step [OF assms] consume_once by blast

theorem join_challenge_once_witness:
  "\<exists>payload b st c. createChallenge demoPrims (time_Unix 1000) (time_Unix 1000) demoAuth demoHello
     (Some demoAddr) demoMeta = (Some payload, b) \<and>
   consumeJoinChallenge demoPrims (time_Unix 1001) (time_Unix 1001) (time_Unix 1001) b
     (demoHello\<lparr>pk_Payload := payload\<rparr>) (Some demoAddr) (demoMeta\<lparr>meta_counter := 1\<rparr>) = (Some st, c) \<and>
   fst (consumeJoinChallenge demoPrims (time_Unix 1002) (time_Unix 1002) (time_Unix 1002) c
     (demoHello\<lparr>pk_Payload := payload\<rparr>) (Some demoAddr) (demoMeta\<lparr>meta_counter := 1\<rparr>)) = None"
proof -
  obtain payload b where b: "createChallenge demoPrims (time_Unix 1000) (time_Unix 1000) demoAuth
      demoHello (Some demoAddr) demoMeta = (Some payload, b)"
    using demoHello_challenge(2) by (metis option.exhaust surjective_pairing)
  have "pending_inv demoAuth" by (rule pending_inv_new [OF demoAuth_new])
  moreover have "time_Unix 1001 < time_Unix 1030" by (simp add: time_Unix_after_iff)
  ultimately show ?thesis
    using join_challenge_once [of demoPrims demoAuth _ _ demoHello demoAddr demoMeta payload b
        "demoHello\<lparr>pk_Payload := payload\<rparr>" "demoMeta\<lparr>meta_counter := 1\<rparr>"
        "time_Unix 1001" "time_Unix 1001" "time_Unix 1001"
        "time_Unix 1002" "time_Unix 1002" "time_Unix 1002", OF demoPrims_hmac _ b]
      b demoHello_challenge(1) [OF b] by fastforce
qed

text \<open>A packet that does not verify carries the zero metadata, which no challenge answers to.\<close>

lemma unverified_join_refused:
  assumes "verifyIncomingControl pr a pkt = (meta, False)"
  shows "consumeJoinChallenge pr t1 t2 t3 st pkt addr meta = (None, st)"
  using assms
  by (auto simp: verifyIncomingControl_def zeroMeta_def consumeJoinChallenge_def Let_def
      split: option.splits if_splits prod.splits)

end
