(* ===== verification/Admission_Store.thy ===== *)
theory Admission_Store
  imports Relay_Prelude
begin

text \<open>
  The contract the two admission flows (identity tickets and managed service grants) share: a
  begin puts a validated admission into the pending table, a proof moves it to the verified table,
  a JOIN takes it out. The laws speak of the tables as sets of entries. The client lemmas say that
  whatever order the packets come in, an admission that reaches a JOIN was validated for that very
  channel, sender, session and endpoint, was proved with the announced key, is still current, and
  is handed out once.
\<close>

locale admission_flow =
  fixes step :: "'s \<Rightarrow> 's \<Rightarrow> bool"
    and pending :: "'s \<Rightarrow> ('k \<times> 'p) set"
    and verified :: "'s \<Rightarrow> ('k \<times> 'a) set"
    and admitted :: "'p \<Rightarrow> 'a"
    and genuine :: "'s \<Rightarrow> 'k \<Rightarrow> 'p \<Rightarrow> bool"
    and proven :: "'k \<Rightarrow> 'p \<Rightarrow> bool"
  assumes genuine_step: "step s t \<Longrightarrow> genuine t = genuine s"
    and pending_step: "step s t \<Longrightarrow> (k, p) \<in> pending t \<Longrightarrow> (k, p) \<in> pending s \<or> genuine s k p"
    and verified_step: "step s t \<Longrightarrow> (k, a) \<in> verified t \<Longrightarrow>
      (k, a) \<in> verified s \<or> (\<exists>p. (k, p) \<in> pending s \<and> proven k p \<and> admitted p = a)"
begin

lemma genuine_steps: "steps step s t \<Longrightarrow> genuine t = genuine s"
  by (induction rule: steps.induct) (simp_all add: genuine_step)

lemma pending_genuine:
  "steps step s t \<Longrightarrow> pending s = {} \<Longrightarrow> (k, p) \<in> pending t \<Longrightarrow> genuine s k p"
proof (induction arbitrary: k p rule: steps.induct)
  case (steps_step s t u)
  from pending_step [OF steps_step.hyps(2) steps_step.prems(2)] steps_step genuine_steps
  show ?case by metis
qed simp

lemma verified_genuine:
  "steps step s t \<Longrightarrow> pending s = {} \<Longrightarrow> verified s = {} \<Longrightarrow> (k, a) \<in> verified t \<Longrightarrow>
   \<exists>p. genuine s k p \<and> proven k p \<and> admitted p = a"
proof (induction arbitrary: k a rule: steps.induct)
  case (steps_step s t u)
  from verified_step [OF steps_step.hyps(2) steps_step.prems(3)] steps_step.IH
    pending_genuine [OF steps_step.hyps(1)] steps_step.prems
  show ?case by blast
qed simp

end

locale admission_store = admission_flow step pending verified admitted genuine proven
  for step :: "'s \<Rightarrow> 's \<Rightarrow> bool"
    and pending :: "'s \<Rightarrow> ('k \<times> 'p) set"
    and verified :: "'s \<Rightarrow> ('k \<times> 'a) set"
    and admitted :: "'p \<Rightarrow> 'a"
    and genuine :: "'s \<Rightarrow> 'k \<Rightarrow> 'p \<Rightarrow> bool"
    and proven :: "'k \<Rightarrow> 'p \<Rightarrow> bool" +
  fixes key_for :: "'q \<Rightarrow> 'k"
    and take_for :: "gotime \<Rightarrow> 'q \<Rightarrow> 's \<Rightarrow> 'a option \<times> 's"
    and current :: "'a \<Rightarrow> gotime \<Rightarrow> bool"
  assumes take_verified:
      "take_for now q s = (Some a, t) \<Longrightarrow> (key_for q, a) \<in> verified s \<and> current a now"
    and take_consumes: "take_for now q s = (Some a, t) \<Longrightarrow> (key_for q, b) \<notin> verified t"
begin

lemma take_once:
  "take_for now q s = (Some a, t) \<Longrightarrow> key_for q' = key_for q \<Longrightarrow> fst (take_for now' q' t) = None"
proof (rule ccontr)
  assume first: "take_for now q s = (Some a, t)" and same: "key_for q' = key_for q"
    and "fst (take_for now' q' t) \<noteq> None"
  then obtain b u where "take_for now' q' t = (Some b, u)"
    by (cases "take_for now' q' t") auto
  with take_verified take_consumes [OF first] same show False by metis
qed

lemma take_genuine:
  assumes "steps step s t" "pending s = {}" "verified s = {}" "take_for now q t = (Some a, u)"
  shows "(\<exists>p. genuine s (key_for q) p \<and> proven (key_for q) p \<and> admitted p = a) \<and> current a now"
  using verified_genuine [OF assms(1-3)] take_verified [OF assms(4)] by blast

end

end
