(* ===== verification/Identity_Admission.thy ===== *)
theory Identity_Admission
  imports Control_Auth Admission_Store
begin

text \<open>
  Identity admission (identity_admission.go): the ticket validator, the tables of pending, verified
  and failed admissions, IDENTITY_BEGIN, IDENTITY_PROOF and what a JOIN takes. The receiver of every
  method may be nil (\<open>None\<close>), as in the code. A draw of \<^verbatim>\<open>rand.Read\<close> is an argument: the challenge,
  or \<open>None\<close> when the source fails.
\<close>

subsection \<open>Data\<close>

abbreviation (input) identityTicketMaxBytes :: nat where "identityTicketMaxBytes \<equiv> 768"
abbreviation (input) publicKeySize :: nat where "publicKeySize \<equiv> 32"
abbreviation (input) signatureSize :: nat where "signatureSize \<equiv> 64"
abbreviation (input) maxPendingIdentityAdmissions :: nat where "maxPendingIdentityAdmissions \<equiv> 1024"
abbreviation (input) identityPermissionListen :: u8 where "identityPermissionListen \<equiv> 1"
abbreviation (input) identityPermissionTalk :: u8 where "identityPermissionTalk \<equiv> 2"
abbreviation (input) identityPermissionInterrupt :: u8 where "identityPermissionInterrupt \<equiv> 4"
abbreviation (input) identityDenyAdmissionRequired :: u8 where "identityDenyAdmissionRequired \<equiv> 0"
abbreviation (input) identityDenyInvalidTicket :: u8 where "identityDenyInvalidTicket \<equiv> 1"
abbreviation (input) identityDenyTicketExpired :: u8 where "identityDenyTicketExpired \<equiv> 2"
abbreviation (input) identityDenyScopeMismatch :: u8 where "identityDenyScopeMismatch \<equiv> 3"
abbreviation (input) identityDenyPermissionDenied :: u8 where "identityDenyPermissionDenied \<equiv> 4"
abbreviation (input) identityDenyInvalidProof :: u8 where "identityDenyInvalidProof \<equiv> 5"

definition identityChallengeTTL :: duration where
  "identityChallengeTTL = 30 * Second"

datatype identityAdmissionMode =
    identityAdmissionOff | identityAdmissionOptional | identityAdmissionRequired

record identityAdmissionKey =
  iak_channelID :: u32
  iak_senderID :: u32
  iak_sessionID :: u32
  iak_address :: "endpointKey option"

record identityAdmission =
  ia_permissions :: u8
  ia_priority :: u8
  ia_expiresAt :: gotime
  ia_ticketHash :: bytes
  ia_actorIDHash :: bytes

record identityPendingAdmission =
  ipa_admission :: identityAdmission
  ipa_publicKey :: bytes
  ipa_challenge :: bytes
  ipa_expiresAt :: gotime

record identityAdmissionFailure =
  iaf_reason :: u8
  iaf_expiresAt :: gotime

record identityAdmissionState =
  ias_mode :: identityAdmissionMode
  ias_issuer :: string
  ias_audience :: string
  ias_keys :: "(string, bytes) gomap"
  ias_pending :: "(identityAdmissionKey, identityPendingAdmission) gomap"
  ias_verified :: "(identityAdmissionKey, identityAdmission) gomap"
  ias_failed :: "(identityAdmissionKey, identityAdmissionFailure) gomap"

definition zeroIdentityAdmission :: identityAdmission where
  "zeroIdentityAdmission = \<lparr>ia_permissions = 0, ia_priority = 0, ia_expiresAt = 0,
     ia_ticketHash = replicate 32 0, ia_actorIDHash = replicate 16 0\<rparr>"

datatype admissionConfigError = MissingIssuerOrAudience | MissingSigningKey

text \<open>Mode off gives a nil state and no error.\<close>

definition newIdentityAdmissionState ::
  "identityAdmissionMode \<Rightarrow> string \<Rightarrow> string \<Rightarrow> (string, bytes) gomap \<Rightarrow>
   admissionConfigError + identityAdmissionState option" where
  "newIdentityAdmissionState mode issuer audience keys =
     (if mode = identityAdmissionOff then Inr None
      else if blankText issuer \<or> blankText audience then Inl MissingIssuerOrAudience
      else if keys = [] then Inl MissingSigningKey
      else Inr (Some \<lparr>ias_mode = mode, ias_issuer = issuer, ias_audience = audience, ias_keys = keys,
                     ias_pending = [], ias_verified = [], ias_failed = []\<rparr>))"

definition identityKeyForPacket ::
  "parsedPacket \<Rightarrow> udpaddr option \<Rightarrow> u32 \<Rightarrow> identityAdmissionKey" where
  "identityKeyForPacket pkt addr sessionID =
     \<lparr>iak_channelID = h_ChannelId (pk_Header pkt), iak_senderID = h_SenderId (pk_Header pkt),
      iak_sessionID = sessionID, iak_address = peerMapKey addr\<rparr>"

subsection \<open>Tickets\<close>

text \<open>The claim checks of the second half of \<^verbatim>\<open>validateTicket\<close>, after the signature.\<close>

definition validateTicketClaims ::
  "prims \<Rightarrow> identityAdmissionState \<Rightarrow> identityTicketClaims \<Rightarrow> string \<Rightarrow> bytes \<Rightarrow> u32 \<Rightarrow> u32 \<Rightarrow> gotime \<Rightarrow>
   u8 + identityAdmission" where
  "validateTicketClaims pr a claims ticket publicKey channelID senderID now =
     (if itc_IssuedAt claims \<le> 0 \<or> itc_ExpiresAt claims \<le> itc_IssuedAt claims \<or>
         itc_ExpiresAt claims - itc_IssuedAt claims > 300 \<or>
         \<not> now < time_Unix (itc_ExpiresAt claims) \<or>
         now + 30 * Second < time_Unix (itc_IssuedAt claims)
      then Inl identityDenyTicketExpired
      else if itc_Issuer claims \<noteq> ias_issuer a \<or> itc_Audience claims \<noteq> ias_audience a \<or>
         itc_ChannelID claims \<noteq> channelID \<or> itc_SenderID claims \<noteq> senderID \<or> itc_SenderID claims = 0
      then Inl identityDenyScopeMismatch
      else if itc_Subject claims = [] \<or> itc_TicketID claims = [] \<or>
         itc_Permissions claims AND NOT 0x07 \<noteq> 0 \<or>
         itc_Permissions claims AND identityPermissionListen = 0
      then Inl identityDenyPermissionDenied
      else if itc_Permissions claims AND identityPermissionInterrupt \<noteq> 0 \<and>
         (itc_Permissions claims AND identityPermissionTalk = 0 \<or> itc_Priority claims = None \<or>
          itc_Priority claims = Some 0)
      then Inl identityDenyPermissionDenied
      else if itc_Permissions claims AND identityPermissionInterrupt = 0 \<and> itc_Priority claims \<noteq> None
      then Inl identityDenyPermissionDenied
      else if itc_JWKThumbprint claims = [] \<or>
         itc_JWKThumbprint claims \<noteq> b64Encode (sha256 pr publicKey)
      then Inl identityDenyScopeMismatch
      else Inr
        \<lparr>ia_permissions = itc_Permissions claims,
         ia_priority = (case itc_Priority claims of None \<Rightarrow> 0 | Some p \<Rightarrow> p),
         ia_expiresAt = time_Unix (itc_ExpiresAt claims),
         ia_ticketHash = sha256 pr (bytes_of ticket),
         ia_actorIDHash = take 16 (sha256 pr (bytes_of (itc_Subject claims)))\<rparr>)"

text \<open>
  \<^verbatim>\<open>validateTicket\<close>: \<open>Inl\<close> the deny reason, or \<open>Inr\<close> the admission (reason 0 in the code). The
  subtraction of the two int64 times is only reached when both are positive, where it does not wrap.
\<close>

definition validateTicket ::
  "prims \<Rightarrow> identityAdmissionState \<Rightarrow> string \<Rightarrow> bytes \<Rightarrow> u32 \<Rightarrow> u32 \<Rightarrow> gotime \<Rightarrow>
   u8 + identityAdmission" where
  "validateTicket pr a ticket publicKey channelID senderID now =
     (if ticket = [] \<or> identityTicketMaxBytes < length ticket \<or> length publicKey \<noteq> publicKeySize
      then Inl identityDenyInvalidTicket
      else if \<exists>value\<in>set (bytes_of ticket). 0x7f < value then Inl identityDenyInvalidTicket
      else case splitOn (CHR ''.'') ticket of
        [seg0, seg1, seg2] \<Rightarrow>
          (case (strictBase64URL seg0, strictBase64URL seg1, strictBase64URL seg2) of
             (Some headerRaw, Some payloadRaw, Some signature) \<Rightarrow>
               if length signature \<noteq> signatureSize then Inl identityDenyInvalidTicket
               else (case (jsonIdentityHeader pr headerRaw, jsonIdentityClaims pr payloadRaw) of
                  (Some header, Some claims) \<Rightarrow>
                    let issuerKey = (case map_of (ias_keys a) (ith_KeyID header) of
                                       None \<Rightarrow> [] | Some k \<Rightarrow> k) in
                    if ith_Algorithm header \<noteq> ''EdDSA'' \<or>
                       ith_Type header \<noteq> ''incomudon-admission+jwt'' \<or>
                       length issuerKey \<noteq> publicKeySize \<or>
                       \<not> ed25519Verify pr issuerKey (bytes_of (seg0 @ ''.'' @ seg1)) signature
                    then Inl identityDenyInvalidTicket
                    else validateTicketClaims pr a claims ticket publicKey channelID senderID now
                | _ \<Rightarrow> Inl identityDenyInvalidTicket)
           | _ \<Rightarrow> Inl identityDenyInvalidTicket)
      | _ \<Rightarrow> Inl identityDenyInvalidTicket)"

subsection \<open>The tables\<close>

definition identity_cleanupLocked :: "gotime \<Rightarrow> identityAdmissionState \<Rightarrow> identityAdmissionState" where
  "identity_cleanupLocked now a =
     a\<lparr>ias_pending := prune (\<lambda>p. now < ipa_expiresAt p) (ias_pending a),
       ias_verified := prune (\<lambda>v. now < ia_expiresAt v) (ias_verified a),
       ias_failed := prune (\<lambda>f. now < iaf_expiresAt f) (ias_failed a)\<rparr>"

definition identity_fail ::
  "identityAdmissionKey \<Rightarrow> u8 \<Rightarrow> gotime \<Rightarrow> identityAdmissionState \<Rightarrow> identityAdmissionState" where
  "identity_fail key reason now a =
     a\<lparr>ias_failed := AList.update key
         \<lparr>iaf_reason = reason, iaf_expiresAt = now + identityChallengeTTL\<rparr> (ias_failed a)\<rparr>"

text \<open>
  IDENTITY_BEGIN: \<open>Inr\<close> the challenge payload or \<open>Inl\<close> the deny reason. The first definition is the
  section under the lock, the second the length checks and the ticket validation before it.
\<close>

definition identity_beginLocked ::
  "bytes option \<Rightarrow> identityAdmissionKey \<Rightarrow> bytes \<Rightarrow> u8 + identityAdmission \<Rightarrow> gotime \<Rightarrow>
   identityAdmissionState \<Rightarrow> (u8 + bytes) \<times> identityAdmissionState" where
  "identity_beginLocked draw key publicKey validated now a =
     (let a1 = identity_cleanupLocked now a in
      case validated of
        Inl denyReason \<Rightarrow> (Inl denyReason, identity_fail key denyReason now a1)
      | Inr admission \<Rightarrow>
        if maxPendingIdentityAdmissions \<le> length (ias_pending a1)
        then (Inl identityDenyInvalidTicket, identity_fail key identityDenyInvalidTicket now a1)
        else (case draw of
            None \<Rightarrow> (Inl identityDenyInvalidTicket, a1)
          | Some challenge \<Rightarrow>
            let challengeExpiry =
                  (if ia_expiresAt admission < now + identityChallengeTTL
                   then ia_expiresAt admission else now + identityChallengeTTL);
                pend = \<lparr>ipa_admission = admission, ipa_publicKey = publicKey,
                        ipa_challenge = challenge, ipa_expiresAt = challengeExpiry\<rparr>
            in (Inr (PutUint32 (of_int (Unix_of challengeExpiry)) @ challenge),
                a1\<lparr>ias_pending := AList.update key pend (ias_pending a1),
                   ias_failed := AList.delete key (ias_failed a1)\<rparr>)))"

definition identity_begin ::
  "prims \<Rightarrow> bytes option \<Rightarrow> identityAdmissionState option \<Rightarrow> parsedPacket \<Rightarrow> udpaddr option \<Rightarrow>
   controlAuthMeta \<Rightarrow> gotime \<Rightarrow> (u8 + bytes) \<times> identityAdmissionState option" where
  "identity_begin pr draw st pkt addr meta now =
     (case st of None \<Rightarrow> (Inl identityDenyInvalidTicket, None)
      | Some a \<Rightarrow>
        if length (pk_Payload pkt) < 2 + publicKeySize then (Inl identityDenyInvalidTicket, st)
        else let ticketLength = unat (Uint16 (take 2 (pk_Payload pkt))) in
        if ticketLength < 1 \<or> identityTicketMaxBytes < ticketLength \<or>
           length (pk_Payload pkt) \<noteq> 2 + ticketLength + publicKeySize
        then (Inl identityDenyInvalidTicket, st)
        else let
          ticket = string_of (slice 2 (2 + ticketLength) (pk_Payload pkt));
          publicKey = drop (2 + ticketLength) (pk_Payload pkt);
          validated = validateTicket pr a ticket publicKey (h_ChannelId (pk_Header pkt))
                        (h_SenderId (pk_Header pkt)) now;
          key = identityKeyForPacket pkt addr (meta_sessionID meta);
          (result, a') = identity_beginLocked draw key publicKey validated now a
        in (result, Some a'))"

definition identityProofMessage :: "prims \<Rightarrow> bytes \<Rightarrow> u32 \<Rightarrow> u32 \<Rightarrow> bytes \<Rightarrow> bytes" where
  "identityProofMessage pr challenge channelID senderID ticketHash =
     sha256 pr (bytes_of ''incomudon-identity-admission-v1'' @ [0] @ challenge @
                PutUint32 channelID @ PutUint32 senderID @ ticketHash)"

text \<open>IDENTITY_PROOF: the reason, 0 for success.\<close>

definition identity_proof ::
  "prims \<Rightarrow> identityAdmissionState option \<Rightarrow> parsedPacket \<Rightarrow> udpaddr option \<Rightarrow> controlAuthMeta \<Rightarrow>
   gotime \<Rightarrow> u8 \<times> identityAdmissionState option" where
  "identity_proof pr st pkt addr meta now =
     (case st of None \<Rightarrow> (identityDenyInvalidProof, None)
      | Some a \<Rightarrow>
        if length (pk_Payload pkt) \<noteq> signatureSize then (identityDenyInvalidProof, st)
        else let
          key = identityKeyForPacket pkt addr (meta_sessionID meta);
          a1 = identity_cleanupLocked now a
        in case map_of (ias_pending a1) key of
             None \<Rightarrow> (identityDenyInvalidProof,
                      Some (identity_fail key identityDenyInvalidProof now a1))
           | Some pend \<Rightarrow>
             if \<not> now < ipa_expiresAt pend
             then (identityDenyInvalidProof,
                   Some (identity_fail key identityDenyInvalidProof now a1))
             else let
               message = identityProofMessage pr (ipa_challenge pend) (h_ChannelId (pk_Header pkt))
                           (h_SenderId (pk_Header pkt)) (ia_ticketHash (ipa_admission pend));
               a2 = a1\<lparr>ias_pending := AList.delete key (ias_pending a1)\<rparr>
             in if \<not> ed25519Verify pr (ipa_publicKey pend) message (pk_Payload pkt)
                then (identityDenyInvalidProof,
                      Some (identity_fail key identityDenyInvalidProof now a2))
                else (0, Some (a2\<lparr>ias_failed := AList.delete key (ias_failed a2),
                                 ias_verified := AList.update key (ipa_admission pend)
                                   (ias_verified a2)\<rparr>)))"

definition identity_takeVerifiedAdmission ::
  "identityAdmissionState option \<Rightarrow> parsedPacket \<Rightarrow> udpaddr option \<Rightarrow> controlAuthMeta \<Rightarrow> gotime \<Rightarrow>
   identityAdmission option \<times> identityAdmissionState option" where
  "identity_takeVerifiedAdmission st pkt addr meta now =
     (case st of None \<Rightarrow> (None, None)
      | Some a \<Rightarrow>
        let key = identityKeyForPacket pkt addr (meta_sessionID meta);
            a1 = identity_cleanupLocked now a
        in case map_of (ias_verified a1) key of
             None \<Rightarrow> (None, Some a1)
           | Some admission \<Rightarrow>
             if \<not> now < ia_expiresAt admission then (None, Some a1)
             else (Some admission, Some (a1\<lparr>ias_verified := AList.delete key (ias_verified a1)\<rparr>)))"

text \<open>
  What a JOIN gets: an admission (the zero struct when none applies), whether it may go on, and the
  reason when it may not.
\<close>

definition identity_admissionForJoin ::
  "identityAdmissionState option \<Rightarrow> parsedPacket \<Rightarrow> udpaddr option \<Rightarrow> controlAuthMeta \<Rightarrow> gotime \<Rightarrow>
   (identityAdmission \<times> bool \<times> u8) \<times> identityAdmissionState option" where
  "identity_admissionForJoin st pkt addr meta now =
     (case st of None \<Rightarrow> ((zeroIdentityAdmission, True, 0), None)
      | Some a \<Rightarrow>
        let key = identityKeyForPacket pkt addr (meta_sessionID meta);
            a1 = identity_cleanupLocked now a;
            rest =
              (case map_of (ias_failed a1) key of
                 Some failure \<Rightarrow> (zeroIdentityAdmission, False, iaf_reason failure)
               | None \<Rightarrow>
                 if map_of (ias_pending a1) key \<noteq> None
                 then (zeroIdentityAdmission, False, identityDenyInvalidProof)
                 else if ias_mode a1 = identityAdmissionRequired
                 then (zeroIdentityAdmission, False, identityDenyAdmissionRequired)
                 else (zeroIdentityAdmission, True, 0))
        in case map_of (ias_verified a1) key of
             Some admission \<Rightarrow>
               if now < ia_expiresAt admission
               then ((admission, True, 0),
                     Some (a1\<lparr>ias_verified := AList.delete key (ias_verified a1)\<rparr>))
               else (rest, Some a1)
           | None \<Rightarrow> (rest, Some a1))"

definition identity_isRequired :: "identityAdmissionState option \<Rightarrow> bool" where
  "identity_isRequired st = (case st of None \<Rightarrow> False | Some a \<Rightarrow> ias_mode a = identityAdmissionRequired)"

definition identity_isEnabled :: "identityAdmissionState option \<Rightarrow> bool" where
  "identity_isEnabled st = (case st of None \<Rightarrow> False | Some a \<Rightarrow> ias_mode a \<noteq> identityAdmissionOff)"

definition admissionAllowsTalk :: "identityAdmission option \<Rightarrow> gotime \<Rightarrow> bool \<Rightarrow> bool" where
  "admissionAllowsTalk admission now required =
     (case admission of None \<Rightarrow> \<not> required
      | Some a \<Rightarrow> now < ia_expiresAt a \<and> ia_permissions a AND identityPermissionTalk \<noteq> 0)"

definition admissionAllowsInterrupt :: "identityAdmission option \<Rightarrow> gotime \<Rightarrow> bool" where
  "admissionAllowsInterrupt admission now =
     (case admission of None \<Rightarrow> False
      | Some a \<Rightarrow> now < ia_expiresAt a \<and> ia_permissions a AND identityPermissionTalk \<noteq> 0 \<and>
          ia_permissions a AND identityPermissionInterrupt \<noteq> 0 \<and> ia_priority a \<noteq> 0)"

subsection \<open>What a valid ticket says\<close>

lemma validateTicketClaims_ok:
  assumes "validateTicketClaims pr a claims ticket pk ch sid now = Inr adm"
  shows "itc_Issuer claims = ias_issuer a \<and> itc_Audience claims = ias_audience a \<and>
    itc_ChannelID claims = ch \<and> itc_SenderID claims = sid \<and> sid \<noteq> 0 \<and>
    itc_JWKThumbprint claims = b64Encode (sha256 pr pk) \<and>
    itc_ExpiresAt claims \<le> itc_IssuedAt claims + 300 \<and>
    time_Unix (itc_IssuedAt claims) \<le> now + 30 * Second \<and>
    ia_expiresAt adm = time_Unix (itc_ExpiresAt claims) \<and> now < ia_expiresAt adm \<and>
    ia_ticketHash adm = sha256 pr (bytes_of ticket) \<and>
    ia_permissions adm AND identityPermissionListen \<noteq> 0 \<and>
    (ia_permissions adm AND identityPermissionInterrupt \<noteq> 0 \<longleftrightarrow> ia_priority adm \<noteq> 0) \<and>
    (ia_priority adm \<noteq> 0 \<longrightarrow> ia_permissions adm AND identityPermissionTalk \<noteq> 0)"
  using assms
  by (auto simp: validateTicketClaims_def split: if_splits option.splits)

lemma time_Unix_lifetime:
  assumes "e \<le> i + n" "time_Unix i \<le> t"
  shows "time_Unix e \<le> t + n * Second"
proof -
  have "(e + unixEpoch) * Second \<le> (i + n + unixEpoch) * Second"
    using assms(1) by (intro mult_right_mono) (simp_all add: less_imp_le)
  with assms(2) show ?thesis by (simp add: time_Unix_def algebra_simps)
qed

lemma validateTicket_split:
  assumes "validateTicket pr a ticket pk ch sid now = Inr adm"
  shows "\<exists>seg0 seg1 signature payload claims kid issuerKey.
    ticket = seg0 @ ''.'' @ seg1 @ ''.'' @ b64Encode signature \<and>
    map_of (ias_keys a) kid = Some issuerKey \<and>
    ed25519Verify pr issuerKey (bytes_of (seg0 @ ''.'' @ seg1)) signature \<and>
    seg1 = b64Encode payload \<and> jsonIdentityClaims pr payload = Some claims \<and>
    length pk = publicKeySize \<and>
    validateTicketClaims pr a claims ticket pk ch sid now = Inr adm"
proof -
  from assms obtain seg0 seg1 seg2 headerRaw payloadRaw signature header claims where
    segs: "splitOn (CHR ''.'') ticket = [seg0, seg1, seg2]"
    and raw: "strictBase64URL seg0 = Some headerRaw" "strictBase64URL seg1 = Some payloadRaw"
      "strictBase64URL seg2 = Some signature"
    and json: "jsonIdentityHeader pr headerRaw = Some header"
      "jsonIdentityClaims pr payloadRaw = Some claims"
    by (auto simp: validateTicket_def Let_def split: if_splits list.splits option.splits)
  have pk: "length pk = publicKeySize"
    using assms by (auto simp: validateTicket_def split: if_splits)
  from assms segs raw json obtain issuerKey where
    "map_of (ias_keys a) (ith_KeyID header) = Some issuerKey"
    "ed25519Verify pr issuerKey (bytes_of (seg0 @ ''.'' @ seg1)) signature"
    "validateTicketClaims pr a claims ticket pk ch sid now = Inr adm"
    by (auto simp: validateTicket_def Let_def split: if_splits option.splits)
  moreover have "ticket = seg0 @ ''.'' @ seg1 @ ''.'' @ seg2"
    using splitOn_join [OF segs] by simp
  moreover have "seg1 = b64Encode payloadRaw" "seg2 = b64Encode signature"
    using raw by (auto simp: strictBase64URL_def split: if_splits option.splits)
  ultimately show ?thesis using json(2) pk by metis
qed

text \<open>Conversely, a well-formed signed ticket is judged by its claims alone.\<close>

lemma validateTicket_signed:
  assumes "h \<noteq> []" "p \<noteq> []" "length signature = signatureSize" "length pk = publicKeySize"
    and ticket: "ticket = b64Encode h @ ''.'' @ b64Encode p @ ''.'' @ b64Encode signature"
    and "length ticket \<le> identityTicketMaxBytes"
    and "jsonIdentityHeader pr h = Some header" "jsonIdentityClaims pr p = Some claims"
    and "ith_Algorithm header = ''EdDSA''" "ith_Type header = ''incomudon-admission+jwt''"
    and "map_of (ias_keys a) (ith_KeyID header) = Some issuerKey" "length issuerKey = publicKeySize"
    and "ed25519Verify pr issuerKey (bytes_of (b64Encode h @ ''.'' @ b64Encode p)) signature"
  shows "validateTicket pr a ticket pk ch sid now =
    validateTicketClaims pr a claims ticket pk ch sid now"
proof -
  have "signature \<noteq> []" using assms(3) by auto
  then show ?thesis
    using assms unfolding validateTicket_def ticket splitOn_segments segments_ascii
    by (simp add: strictBase64URL_Encode)
qed

text \<open>
  C27. A ticket is accepted only if one of the configured issuer keys signed exactly its first two
  segments, its claims name this issuer, audience, channel and non-zero sender and the thumbprint
  of the presented key, and it is unexpired; the admission it gives ends at most 330 seconds after
  the check, always has the listen permission, and has a priority exactly when it may interrupt,
  which implies that it may talk.
\<close>

theorem ticket_sound:
  assumes "validateTicket pr a ticket pk ch sid now = Inr adm"
  shows "\<exists>seg0 seg1 signature payload claims kid issuerKey.
    ticket = seg0 @ ''.'' @ seg1 @ ''.'' @ b64Encode signature \<and>
    map_of (ias_keys a) kid = Some issuerKey \<and>
    ed25519Verify pr issuerKey (bytes_of (seg0 @ ''.'' @ seg1)) signature \<and>
    seg1 = b64Encode payload \<and> jsonIdentityClaims pr payload = Some claims \<and>
    itc_Issuer claims = ias_issuer a \<and> itc_Audience claims = ias_audience a \<and>
    itc_ChannelID claims = ch \<and> itc_SenderID claims = sid \<and> sid \<noteq> 0 \<and>
    itc_JWKThumbprint claims = b64Encode (sha256 pr pk) \<and>
    now < ia_expiresAt adm \<and> ia_expiresAt adm \<le> now + 330 * Second \<and>
    ia_permissions adm AND identityPermissionListen \<noteq> 0 \<and>
    (ia_permissions adm AND identityPermissionInterrupt \<noteq> 0 \<longleftrightarrow> ia_priority adm \<noteq> 0) \<and>
    (ia_priority adm \<noteq> 0 \<longrightarrow> ia_permissions adm AND identityPermissionTalk \<noteq> 0)"
proof -
  from validateTicket_split [OF assms] obtain seg0 seg1 signature payload claims kid issuerKey where
    ticket: "ticket = seg0 @ ''.'' @ seg1 @ ''.'' @ b64Encode signature"
      "map_of (ias_keys a) kid = Some issuerKey"
      "ed25519Verify pr issuerKey (bytes_of (seg0 @ ''.'' @ seg1)) signature"
      "seg1 = b64Encode payload" "jsonIdentityClaims pr payload = Some claims"
    and ok: "validateTicketClaims pr a claims ticket pk ch sid now = Inr adm"
    by blast
  note facts = validateTicketClaims_ok [OF ok]
  have "ia_expiresAt adm \<le> now + 30 * Second + 300 * Second"
    using facts time_Unix_lifetime [of "itc_ExpiresAt claims" "itc_IssuedAt claims" 300
        "now + 30 * Second"] by simp
  then have "ia_expiresAt adm \<le> now + 330 * Second" by simp
  with ticket facts show ?thesis by blast
qed

text \<open>A concrete issuer, ticket and verifier.\<close>

definition ticketPrims :: prims where
  "ticketPrims = demoPrims\<lparr>sha256 := \<lambda>m. replicate 32 3,
     ed25519Verify := \<lambda>k m sig. sig = replicate 64 (k ! 0),
     jsonIdentityHeader := \<lambda>bs. if bs = [1] then Some \<lparr>ith_Algorithm = ''EdDSA'', ith_KeyID = ''k1'',
        ith_Type = ''incomudon-admission+jwt''\<rparr> else None,
     jsonIdentityClaims := \<lambda>bs. if bs = [2] then Some \<lparr>itc_Issuer = ''iss'', itc_Audience = ''aud'',
        itc_Subject = ''alice'', itc_TicketID = ''t1'', itc_IssuedAt = 990, itc_ExpiresAt = 1200,
        itc_ChannelID = 5, itc_SenderID = 11, itc_Permissions = 7, itc_Priority = Some 9,
        itc_JWKThumbprint = b64Encode (replicate 32 3)\<rparr> else None\<rparr>"

definition demoTicket :: string where
  "demoTicket = b64Encode [1] @ ''.'' @ b64Encode [2] @ ''.'' @ b64Encode (replicate 64 8)"

definition demoIdentity :: identityAdmissionState where
  "demoIdentity = \<lparr>ias_mode = identityAdmissionRequired, ias_issuer = ''iss'', ias_audience = ''aud'',
     ias_keys = [(''k1'', replicate 32 8)], ias_pending = [], ias_verified = [], ias_failed = []\<rparr>"

definition demoAdmission :: identityAdmission where
  "demoAdmission = \<lparr>ia_permissions = 7, ia_priority = 9, ia_expiresAt = time_Unix 1200,
     ia_ticketHash = replicate 32 3, ia_actorIDHash = replicate 16 3\<rparr>"

lemma demoIdentity_new:
  "newIdentityAdmissionState identityAdmissionRequired ''iss'' ''aud'' [(''k1'', replicate 32 8)] =
     Inr (Some demoIdentity)"
  by code_simp

lemma demoTicket_valid:
  "validateTicket ticketPrims demoIdentity demoTicket (replicate 32 4) 5 11 (time_Unix 1000) =
     Inr demoAdmission"
proof -
  have text_len: "length demoTicket \<le> 768"
    by (simp add: demoTicket_def length_b64Encode)
  have thumb: "b64Encode (replicate 32 3) \<noteq> []"
    using length_b64Encode [of "replicate 32 3"] by force
  have times: "time_Unix 1000 < time_Unix 1200" "\<not> time_Unix 1000 + 30 * Second < time_Unix 990"
    by (simp_all add: time_Unix_def Second_def)
  have "validateTicket ticketPrims demoIdentity demoTicket (replicate 32 4) 5 11 (time_Unix 1000) =
    validateTicketClaims ticketPrims demoIdentity \<lparr>itc_Issuer = ''iss'', itc_Audience = ''aud'',
        itc_Subject = ''alice'', itc_TicketID = ''t1'', itc_IssuedAt = 990, itc_ExpiresAt = 1200,
        itc_ChannelID = 5, itc_SenderID = 11, itc_Permissions = 7, itc_Priority = Some 9,
        itc_JWKThumbprint = b64Encode (replicate 32 3)\<rparr> demoTicket (replicate 32 4) 5 11 (time_Unix 1000)"
    by (rule validateTicket_signed [where h = "[1]" and p = "[2]" and signature = "replicate 64 8"
          and issuerKey = "replicate 32 8" and header = "\<lparr>ith_Algorithm = ''EdDSA'', ith_KeyID = ''k1'',
            ith_Type = ''incomudon-admission+jwt''\<rparr>", OF _ _ _ _ demoTicket_def text_len])
      (simp_all add: ticketPrims_def demoIdentity_def)
  then show ?thesis
    using thumb times
    by (simp add: validateTicketClaims_def ticketPrims_def demoIdentity_def demoAdmission_def)
qed

theorem ticket_sound_witness:
  "\<exists>claims payload. jsonIdentityClaims ticketPrims payload = Some claims \<and> itc_SenderID claims = 11 \<and>
     ia_expiresAt demoAdmission \<le> time_Unix 1000 + 330 * Second"
  using ticket_sound [OF demoTicket_valid] by blast

subsection \<open>The flow from BEGIN to JOIN\<close>

inductive identity_step :: "prims \<Rightarrow> identityAdmissionState \<Rightarrow> identityAdmissionState \<Rightarrow> bool" for pr where
  is_begin: "identity_begin pr draw (Some a) pkt addr meta now = (r, Some b) \<Longrightarrow> identity_step pr a b"
| is_proof: "identity_proof pr (Some a) pkt addr meta now = (q, Some b) \<Longrightarrow> identity_step pr a b"
| is_take: "identity_takeVerifiedAdmission (Some a) pkt addr meta now = (v, Some b) \<Longrightarrow> identity_step pr a b"
| is_join: "identity_admissionForJoin (Some a) pkt addr meta now = (j, Some b) \<Longrightarrow> identity_step pr a b"

text \<open>A pending entry is genuine if some ticket validates to it, proven if its key signed the challenge.\<close>

definition identity_genuine ::
  "prims \<Rightarrow> identityAdmissionState \<Rightarrow> identityAdmissionKey \<Rightarrow> identityPendingAdmission \<Rightarrow> bool" where
  "identity_genuine pr a k p \<longleftrightarrow>
     (\<exists>ticket now. validateTicket pr a ticket (ipa_publicKey p) (iak_channelID k) (iak_senderID k) now
        = Inr (ipa_admission p))"

definition identity_proven :: "prims \<Rightarrow> identityAdmissionKey \<Rightarrow> identityPendingAdmission \<Rightarrow> bool" where
  "identity_proven pr k p \<longleftrightarrow>
     (\<exists>signature. ed25519Verify pr (ipa_publicKey p)
        (identityProofMessage pr (ipa_challenge p) (iak_channelID k) (iak_senderID k)
           (ia_ticketHash (ipa_admission p))) signature)"

text \<open>The admission a JOIN is given, if any.\<close>

definition identity_joined ::
  "parsedPacket \<Rightarrow> udpaddr option \<Rightarrow> controlAuthMeta \<Rightarrow> gotime \<Rightarrow> identityAdmissionState \<Rightarrow>
   identityAdmission option \<times> identityAdmissionState" where
  "identity_joined pkt addr meta now a =
     (case identity_admissionForJoin (Some a) pkt addr meta now of
        ((adm, ok, reason), b) \<Rightarrow>
          (if ok \<and> adm \<noteq> zeroIdentityAdmission then Some adm else None, the b))"

lemma validateTicket_config:
  assumes "ias_issuer b = ias_issuer a" "ias_audience b = ias_audience a" "ias_keys b = ias_keys a"
  shows "validateTicket pr b = validateTicket pr a"
proof -
  have "validateTicketClaims pr b = validateTicketClaims pr a"
    by (intro ext) (unfold validateTicketClaims_def assms, rule refl)
  then show ?thesis
    by (intro ext) (unfold validateTicket_def assms, simp only:)
qed

text \<open>A BEGIN that gets past the length checks validates some ticket for the presented key.\<close>

lemma identity_begin_cases:
  assumes "identity_begin pr draw (Some a) pkt addr meta now = (r, Some b)"
  shows "b = a \<or>
    (\<exists>ticket pk. identity_beginLocked draw (identityKeyForPacket pkt addr (meta_sessionID meta)) pk
      (validateTicket pr a ticket pk (h_ChannelId (pk_Header pkt)) (h_SenderId (pk_Header pkt)) now)
      now a = (r, b))" (is "_ \<or> (\<exists>ticket pk. ?locked ticket pk = _)")
proof -
  let ?n = "unat (Uint16 (take 2 (pk_Payload pkt)))"
  let ?X = "?locked (string_of (slice 2 (2 + ?n) (pk_Payload pkt))) (drop (2 + ?n) (pk_Payload pkt))"
  obtain r' b' where X: "?X = (r', b')" by (rule prod.exhaust)
  from assms have "(r, Some b) = (Inl identityDenyInvalidTicket, Some a) \<or> (r, Some b) = (r', Some b')"
    unfolding identity_begin_def Let_def option.case X prod.case
    by (auto simp only: split: if_split_asm)
  then have "b = a \<or> ?X = (r, b)" unfolding X by auto
  then show ?thesis by blast
qed

lemma identity_beginLocked_tables:
  assumes "identity_beginLocked draw key pk validated now a = (r, b)"
  shows "ias_issuer b = ias_issuer a \<and> ias_audience b = ias_audience a \<and> ias_keys b = ias_keys a \<and>
    ias_mode b = ias_mode a \<and> set (ias_verified b) \<subseteq> set (ias_verified a) \<and>
    (\<forall>(k, p)\<in>set (ias_pending b). (k, p) \<in> set (ias_pending a) \<or>
       k = key \<and> ipa_publicKey p = pk \<and> validated = Inr (ipa_admission p))"
proof -
  let ?c = "identity_cleanupLocked now a"
  have old: "set (ias_pending ?c) \<subseteq> set (ias_pending a)" "set (ias_verified ?c) \<subseteq> set (ias_verified a)"
    by (auto simp: identity_cleanupLocked_def set_prune)
  have "set (ias_pending b) \<subseteq> set (ias_pending a) \<or>
    (\<exists>p. set (ias_pending b) \<subseteq> insert (key, p) (set (ias_pending a)) \<and>
       ipa_publicKey p = pk \<and> validated = Inr (ipa_admission p))"
  proof (cases "ias_pending b = ias_pending ?c")
    case False
    with assms obtain p where "ias_pending b = AList.update key p (ias_pending ?c)"
      "ipa_publicKey p = pk" "validated = Inr (ipa_admission p)"
      by (fastforce simp: identity_beginLocked_def identity_fail_def Let_def
          split: sum.split_asm if_split_asm option.split_asm)
    with old(1) set_update_subset [of key p "ias_pending ?c"] show ?thesis
      by (intro disjI2 exI [of _ p]) auto
  qed (use old in simp)
  moreover have "ias_issuer b = ias_issuer a \<and> ias_audience b = ias_audience a \<and>
      ias_keys b = ias_keys a \<and> ias_mode b = ias_mode a \<and> ias_verified b = ias_verified ?c"
    using assms
    by (auto simp: identity_beginLocked_def identity_fail_def identity_cleanupLocked_def Let_def
        split: sum.splits if_splits option.splits)
  ultimately show ?thesis using old(2) by (fastforce dest: subsetD)
qed

lemmas identity_table_defs = identity_cleanupLocked_def identity_fail_def

lemma identity_step_config:
  assumes "identity_step pr a b"
  shows "ias_issuer b = ias_issuer a \<and> ias_audience b = ias_audience a \<and> ias_keys b = ias_keys a \<and>
    ias_mode b = ias_mode a"
  using assms
proof cases
  case (is_begin draw pkt addr meta now r)
  from identity_begin_cases [OF this] show ?thesis
    using identity_beginLocked_tables by metis
qed (auto simp: identity_proof_def identity_takeVerifiedAdmission_def identity_admissionForJoin_def
    identity_table_defs Let_def split: if_splits option.splits)

lemma identity_begin_tables:
  assumes "identity_begin pr draw (Some a) pkt addr meta now = (r, Some b)"
  shows "set (ias_verified b) \<subseteq> set (ias_verified a) \<and>
    (\<forall>(k, p)\<in>set (ias_pending b). (k, p) \<in> set (ias_pending a) \<or> identity_genuine pr a k p)"
  using identity_begin_cases [OF assms]
proof (elim disjE exE)
  fix ticket pk
  let ?key = "identityKeyForPacket pkt addr (meta_sessionID meta)"
  assume "identity_beginLocked draw ?key pk (validateTicket pr a ticket pk
    (h_ChannelId (pk_Header pkt)) (h_SenderId (pk_Header pkt)) now) now a = (r, b)"
  note tables = identity_beginLocked_tables [OF this]
  have "identity_genuine pr a ?key p"
    if "ipa_publicKey p = pk" "validateTicket pr a ticket pk (h_ChannelId (pk_Header pkt))
      (h_SenderId (pk_Header pkt)) now = Inr (ipa_admission p)" for p
    using that by (auto simp: identity_genuine_def identityKeyForPacket_def)
  with tables show ?thesis by blast
qed auto

lemma identity_proof_tables:
  assumes "identity_proof pr (Some a) pkt addr meta now = (q, Some b)"
  shows "set (ias_pending b) \<subseteq> set (ias_pending a) \<and>
    (\<forall>(k, v)\<in>set (ias_verified b). (k, v) \<in> set (ias_verified a) \<or>
       (\<exists>p. (k, p) \<in> set (ias_pending a) \<and> identity_proven pr k p \<and> ipa_admission p = v))"
proof -
  let ?key = "identityKeyForPacket pkt addr (meta_sessionID meta)"
  let ?c = "identity_cleanupLocked now a"
  have old: "set (ias_pending ?c) \<subseteq> set (ias_pending a)" "set (ias_verified ?c) \<subseteq> set (ias_verified a)"
    by (auto simp: identity_cleanupLocked_def set_prune)
  have pend: "set (ias_pending b) \<subseteq> set (ias_pending a)"
    using assms old
    by (auto simp: identity_proof_def identity_fail_def Let_def set_delete
        split: if_splits option.splits)
  consider "set (ias_verified b) \<subseteq> set (ias_verified a)"
    | p where "ias_verified b = AList.update ?key (ipa_admission p) (ias_verified ?c)"
      "map_of (ias_pending ?c) ?key = Some p" "identity_proven pr ?key p"
    using assms old(2)
    by (fastforce simp: identity_proof_def identity_fail_def Let_def identity_proven_def
        identityKeyForPacket_def split: if_splits option.splits)
  then show ?thesis
  proof cases
    case 2
    have "(?key, p) \<in> set (ias_pending a)" using map_of_SomeD [OF 2(2)] old(1) by blast
    moreover have "set (ias_verified b) \<subseteq> insert (?key, ipa_admission p) (set (ias_verified a))"
      using 2(1) set_update_subset [of ?key "ipa_admission p" "ias_verified ?c"] old(2) by auto
    ultimately show ?thesis using pend 2(3) by blast
  qed (use pend in blast)
qed

lemma identity_other_tables:
  "identity_takeVerifiedAdmission (Some a) pkt addr meta now = (v, Some b) \<Longrightarrow>
     set (ias_pending b) \<subseteq> set (ias_pending a) \<and> set (ias_verified b) \<subseteq> set (ias_verified a)"
  "identity_admissionForJoin (Some a) pkt addr meta now = (j, Some b) \<Longrightarrow>
     set (ias_pending b) \<subseteq> set (ias_pending a) \<and> set (ias_verified b) \<subseteq> set (ias_verified a)"
  by (auto simp: identity_takeVerifiedAdmission_def identity_admissionForJoin_def
      identity_table_defs Let_def set_prune set_delete split: if_splits option.splits)

lemma identity_step_tables:
  assumes "identity_step pr a b"
  shows "(\<forall>(k, p)\<in>set (ias_pending b). (k, p) \<in> set (ias_pending a) \<or> identity_genuine pr a k p) \<and>
    (\<forall>(k, v)\<in>set (ias_verified b). (k, v) \<in> set (ias_verified a) \<or>
       (\<exists>p. (k, p) \<in> set (ias_pending a) \<and> identity_proven pr k p \<and> ipa_admission p = v))"
  using assms
proof cases
  case is_begin
  from identity_begin_tables [OF this] show ?thesis by blast
next
  case is_proof
  from identity_proof_tables [OF this] show ?thesis by blast
next
  case is_take
  from identity_other_tables(1) [OF this] show ?thesis by blast
next
  case is_join
  from identity_other_tables(2) [OF this] show ?thesis by blast
qed

lemma identity_joined_Some:
  assumes "identity_joined pkt addr meta now a = (Some adm, b)"
  shows "(identityKeyForPacket pkt addr (meta_sessionID meta), adm) \<in> set (ias_verified a) \<and>
    now < ia_expiresAt adm \<and>
    (identityKeyForPacket pkt addr (meta_sessionID meta), v) \<notin> set (ias_verified b)"
  using assms
  by (auto simp: identity_joined_def identity_admissionForJoin_def identity_cleanupLocked_def Let_def
      set_delete set_prune split: if_splits option.splits dest!: map_of_SomeD)


interpretation identity_flow: admission_store "identity_step pr"
  "\<lambda>a. set (ias_pending a)" "\<lambda>a. set (ias_verified a)" ipa_admission
  "identity_genuine pr" "identity_proven pr"
  "\<lambda>(pkt, addr, meta). identityKeyForPacket pkt addr (meta_sessionID meta)"
  "\<lambda>now (pkt, addr, meta) a. identity_joined pkt addr meta now a"
  "\<lambda>adm now. now < ia_expiresAt adm"
proof unfold_locales
  fix s t k p v now a b and q :: "parsedPacket \<times> udpaddr option \<times> controlAuthMeta"
  show "identity_step pr s t \<Longrightarrow> identity_genuine pr t = identity_genuine pr s"
    using validateTicket_config [of t s pr] identity_step_config [of pr s t]
    by (intro ext) (simp only: identity_genuine_def)
  show "identity_step pr s t \<Longrightarrow> (k, p) \<in> set (ias_pending t) \<Longrightarrow>
      (k, p) \<in> set (ias_pending s) \<or> identity_genuine pr s k p"
    using identity_step_tables by blast
  show "identity_step pr s t \<Longrightarrow> (k, v) \<in> set (ias_verified t) \<Longrightarrow>
      (k, v) \<in> set (ias_verified s) \<or>
      (\<exists>p. (k, p) \<in> set (ias_pending s) \<and> identity_proven pr k p \<and> ipa_admission p = v)"
    using identity_step_tables by blast
  show "(case q of (pkt, addr, meta) \<Rightarrow> \<lambda>a. identity_joined pkt addr meta now a) s = (Some a, t) \<Longrightarrow>
      ((case q of (pkt, addr, meta) \<Rightarrow> identityKeyForPacket pkt addr (meta_sessionID meta)), a)
        \<in> set (ias_verified s) \<and> now < ia_expiresAt a"
    using identity_joined_Some by (auto split: prod.splits)
  show "(case q of (pkt, addr, meta) \<Rightarrow> \<lambda>a. identity_joined pkt addr meta now a) s = (Some a, t) \<Longrightarrow>
      ((case q of (pkt, addr, meta) \<Rightarrow> identityKeyForPacket pkt addr (meta_sessionID meta)), b)
        \<notin> set (ias_verified t)"
    using identity_joined_Some by (auto split: prod.splits)
qed

text \<open>
  C24. In whatever order IDENTITY_BEGIN, IDENTITY_PROOF and JOIN packets arrive from whichever
  endpoints, the admission a JOIN takes comes from a ticket that validated for that packet's
  channel and sender and a key that signed the challenge; it is unexpired at the JOIN; and the next
  JOIN of the same session finds nothing until a new proof succeeds.
\<close>

theorem identity_admission_genuine:
  assumes new: "newIdentityAdmissionState mode issuer audience keys = Inr (Some a)"
    and run: "steps (identity_step pr) a b"
    and join: "identity_joined pkt addr meta now b = (Some adm, c)"
  shows "(\<exists>ticket pk t challenge signature.
      validateTicket pr a ticket pk (h_ChannelId (pk_Header pkt)) (h_SenderId (pk_Header pkt)) t = Inr adm \<and>
      ed25519Verify pr pk (identityProofMessage pr challenge (h_ChannelId (pk_Header pkt))
        (h_SenderId (pk_Header pkt)) (ia_ticketHash adm)) signature) \<and>
    now < ia_expiresAt adm \<and> fst (identity_joined pkt addr meta now' c) = None"
proof -
  have empty: "set (ias_pending a) = {}" "set (ias_verified a) = {}"
    using new by (auto simp: newIdentityAdmissionState_def split: if_splits)
  let ?q = "(pkt, addr, meta)"
  have taken: "(case ?q of (pkt, addr, meta) \<Rightarrow> \<lambda>a. identity_joined pkt addr meta now a) b = (Some adm, c)"
    using join by simp
  from identity_flow.take_genuine [OF run empty taken]
  obtain p where "identity_genuine pr a (identityKeyForPacket pkt addr (meta_sessionID meta)) p"
    "identity_proven pr (identityKeyForPacket pkt addr (meta_sessionID meta)) p"
    "ipa_admission p = adm" "now < ia_expiresAt adm"
    by auto
  moreover have "fst (identity_joined pkt addr meta now' c) = None"
    using identity_flow.take_once [OF taken, of ?q now'] by simp
  ultimately show ?thesis
    by (auto simp: identity_genuine_def identity_proven_def identityKeyForPacket_def)
qed

text \<open>One session: a BEGIN with the ticket, the signed challenge, the JOIN.\<close>

definition demoBegin :: parsedPacket where
  "demoBegin = demoHello\<lparr>pk_Payload := PutUint16 (of_nat (length demoTicket)) @ bytes_of demoTicket @
     replicate 32 4\<rparr>"

definition demoProof :: parsedPacket where
  "demoProof = demoHello\<lparr>pk_Payload := replicate 64 4\<rparr>"

definition demoVerified :: identityAdmissionState where
  "demoVerified = demoIdentity\<lparr>ias_verified :=
     [(identityKeyForPacket demoHello (Some demoAddr) 77, demoAdmission)]\<rparr>"

lemma demoBegin_parts:
  "length (pk_Payload demoBegin) = 126"
  "unat (Uint16 (take 2 (pk_Payload demoBegin))) = 92"
  "string_of (slice 2 94 (pk_Payload demoBegin)) = demoTicket"
  "drop 94 (pk_Payload demoBegin) = replicate 32 4"
  "pk_Header demoBegin = pk_Header demoHello" "h_ChannelId (pk_Header demoHello) = 5"
  "h_SenderId (pk_Header demoHello) = 11" "meta_sessionID demoMeta = 77"
proof -
  have len: "length demoTicket = 92" by (simp add: demoTicket_def length_b64Encode)
  show "length (pk_Payload demoBegin) = 126"
    "unat (Uint16 (take 2 (pk_Payload demoBegin))) = 92"
    "string_of (slice 2 94 (pk_Payload demoBegin)) = demoTicket"
    "drop 94 (pk_Payload demoBegin) = replicate 32 4"
    by (simp_all add: demoBegin_def len slice_def)
qed (simp_all add: demoBegin_def demoHello_def demoMeta_def)

lemma demo_begun:
  "identity_begin ticketPrims (Some (replicate 32 6)) (Some demoIdentity) demoBegin (Some demoAddr)
     demoMeta (time_Unix 1000) =
   (Inr (PutUint32 1030 @ replicate 32 6),
    Some (demoIdentity\<lparr>ias_pending := [(identityKeyForPacket demoHello (Some demoAddr) 77,
      \<lparr>ipa_admission = demoAdmission, ipa_publicKey = replicate 32 4, ipa_challenge = replicate 32 6,
       ipa_expiresAt = time_Unix 1030\<rparr>)]\<rparr>))"
proof -
  have expiry: "\<not> time_Unix 1200 < time_Unix 1030"
    "time_Unix 1000 + identityChallengeTTL = time_Unix 1030"
    by (simp_all add: time_Unix_def identityChallengeTTL_def Second_def)
  show ?thesis
    by (simp add: identity_begin_def demoBegin_parts demoTicket_valid)
      (simp add: identity_beginLocked_def identity_cleanupLocked_def prune_def demoIdentity_def
        demoAdmission_def expiry identityKeyForPacket_def Let_def demoBegin_parts)
qed

lemma demo_proved:
  "identity_proof ticketPrims (Some (demoIdentity\<lparr>ias_pending :=
      [(identityKeyForPacket demoHello (Some demoAddr) 77,
       \<lparr>ipa_admission = demoAdmission, ipa_publicKey = replicate 32 4, ipa_challenge = replicate 32 6,
        ipa_expiresAt = time_Unix 1030\<rparr>)]\<rparr>)) demoProof (Some demoAddr) demoMeta (time_Unix 1001) =
   (0, Some demoVerified)"
proof -
  have "time_Unix 1001 < time_Unix 1030" by (simp add: time_Unix_after_iff)
  then show ?thesis
    by (simp add: identity_proof_def identity_cleanupLocked_def prune_def demoProof_def demoHello_def
        demoMeta_def identityKeyForPacket_def demoIdentity_def demoVerified_def ticketPrims_def Let_def)
qed

lemma demo_joined:
  "\<exists>c. identity_joined demoHello (Some demoAddr) demoMeta (time_Unix 1002) demoVerified =
     (Some demoAdmission, c)"
proof -
  have "time_Unix 1002 < time_Unix 1200" by (simp add: time_Unix_after_iff)
  then show ?thesis
    by (simp add: identity_joined_def identity_admissionForJoin_def identity_cleanupLocked_def prune_def
        demoMeta_def demoIdentity_def demoVerified_def demoAdmission_def zeroIdentityAdmission_def Let_def)
qed

theorem identity_admission_genuine_witness:
  "\<exists>c. identity_joined demoHello (Some demoAddr) demoMeta (time_Unix 1002) demoVerified =
      (Some demoAdmission, c) \<and>
    fst (identity_joined demoHello (Some demoAddr) demoMeta (time_Unix 1003) c) = None"
proof -
  obtain c where c: "identity_joined demoHello (Some demoAddr) demoMeta (time_Unix 1002) demoVerified =
      (Some demoAdmission, c)" using demo_joined by blast
  have "steps (identity_step ticketPrims) demoIdentity demoVerified"
    using is_begin [OF demo_begun] is_proof [OF demo_proved] by (blast intro: steps_step steps_single)
  from identity_admission_genuine [OF demoIdentity_new this c, of "time_Unix 1003"] c
  show ?thesis by blast
qed

end
