(* ===== verification/Service_Admission.thy ===== *)
theory Service_Admission
  imports Identity_Admission "HOL-Library.Char_ord"
begin

text \<open>
  Managed service admission (service_admission.go): the grant validator, the pending, verified and
  failed tables, and the bounded set of channel-scoped deny rules that a revocation installs. It
  implements the same admission contract as identity tickets; the lemmas on revocation say that an
  installed rule holds in every later state until it expires.
\<close>

subsection \<open>Data\<close>

abbreviation (input) serviceGrantMaxBytes :: nat where "serviceGrantMaxBytes \<equiv> 768"
abbreviation (input) maxPendingServiceAdmissions :: nat where "maxPendingServiceAdmissions \<equiv> 1024"
abbreviation (input) maxServiceAdmissionDenyRules :: nat where "maxServiceAdmissionDenyRules \<equiv> 1024"
abbreviation (input) maximumServiceGrantLifetime :: int where "maximumServiceGrantLifetime \<equiv> 3600"
abbreviation (input) minimumServiceGrantLifetime :: int where "minimumServiceGrantLifetime \<equiv> 60"
abbreviation (input) maximumServiceAdmissionGraceSecs :: u16 where
  "maximumServiceAdmissionGraceSecs \<equiv> 1800"
abbreviation (input) serviceDenyAdmissionRequired :: u8 where "serviceDenyAdmissionRequired \<equiv> 0"
abbreviation (input) serviceDenyInvalidGrant :: u8 where "serviceDenyInvalidGrant \<equiv> 1"
abbreviation (input) serviceDenyGrantExpired :: u8 where "serviceDenyGrantExpired \<equiv> 2"
abbreviation (input) serviceDenyScopeMismatch :: u8 where "serviceDenyScopeMismatch \<equiv> 3"
abbreviation (input) serviceDenyPermissionDenied :: u8 where "serviceDenyPermissionDenied \<equiv> 4"
abbreviation (input) serviceDenyInvalidProof :: u8 where "serviceDenyInvalidProof \<equiv> 5"
abbreviation (input) serviceDenyDisabled :: u8 where "serviceDenyDisabled \<equiv> 6"
abbreviation (input) serviceDenyRevoked :: u8 where "serviceDenyRevoked \<equiv> 7"

definition serviceChallengeTTL :: duration where
  "serviceChallengeTTL = 30 * Second"

datatype serviceAdmissionMode = serviceAdmissionOff | serviceAdmissionEnabled

record serviceAdmissionKey =
  sak_channelID :: u32
  sak_senderID :: u32
  sak_sessionID :: u32
  sak_address :: "endpointKey option"

record serviceAdmission =
  sa_serviceID :: string
  sa_role :: string
  sa_permissions :: u8
  sa_priority :: u8
  sa_grantExpires :: gotime
  sa_grace :: duration
  sa_grantHash :: bytes
  sa_grantIDHash :: bytes

record serviceAdmissionRevocationTarget =
  rt_channelID :: u32
  rt_serviceID :: string
  rt_grantIDHash :: "bytes option"

record serviceAdmissionDenyRule =
  dn_channelID :: u32
  dn_serviceID :: string
  dn_grantIDHash :: bytes
  dn_hasGrantIDHash :: bool

record serviceAdmissionDenyRuleEntry =
  de_rule :: serviceAdmissionDenyRule
  de_expiresAt :: gotime

record servicePendingAdmission =
  spa_admission :: serviceAdmission
  spa_publicKey :: bytes
  spa_challenge :: bytes
  spa_expiresAt :: gotime

record serviceAdmissionFailure =
  saf_reason :: u8
  saf_expiresAt :: gotime

record serviceAdmissionState =
  sas_mode :: serviceAdmissionMode
  sas_issuer :: string
  sas_audience :: string
  sas_keys :: "(string, bytes) gomap"
  sas_pending :: "(serviceAdmissionKey, servicePendingAdmission) gomap"
  sas_verified :: "(serviceAdmissionKey, serviceAdmission) gomap"
  sas_failed :: "(serviceAdmissionKey, serviceAdmissionFailure) gomap"
  sas_denied :: "(serviceAdmissionDenyRule, gotime) gomap"

definition zeroServiceAdmission :: serviceAdmission where
  "zeroServiceAdmission = \<lparr>sa_serviceID = [], sa_role = [], sa_permissions = 0, sa_priority = 0,
     sa_grantExpires = 0, sa_grace = 0, sa_grantHash = replicate 32 0, sa_grantIDHash = replicate 32 0\<rparr>"

text \<open>\<^verbatim>\<open>serviceAdmissionRevocationTarget.matches\<close> and \<^verbatim>\<open>serviceAdmissionDenyRule.matches\<close>.\<close>

definition target_matches ::
  "serviceAdmissionRevocationTarget \<Rightarrow> u32 \<Rightarrow> serviceAdmission \<Rightarrow> bool" where
  "target_matches target channelID admission =
     (if rt_channelID target \<noteq> channelID then False
      else if rt_serviceID target \<noteq> [] \<and> rt_serviceID target \<noteq> sa_serviceID admission then False
      else case rt_grantIDHash target of None \<Rightarrow> True | Some h \<Rightarrow> h = sa_grantIDHash admission)"

definition target_denyRule :: "serviceAdmissionRevocationTarget \<Rightarrow> serviceAdmissionDenyRule" where
  "target_denyRule target =
     (let rule = \<lparr>dn_channelID = rt_channelID target, dn_serviceID = rt_serviceID target,
                  dn_grantIDHash = replicate 32 0, dn_hasGrantIDHash = False\<rparr>
      in case rt_grantIDHash target of None \<Rightarrow> rule
         | Some h \<Rightarrow> rule\<lparr>dn_grantIDHash := h, dn_hasGrantIDHash := True\<rparr>)"

definition rule_matches :: "serviceAdmissionDenyRule \<Rightarrow> u32 \<Rightarrow> serviceAdmission \<Rightarrow> bool" where
  "rule_matches rule channelID admission =
     (if dn_channelID rule \<noteq> channelID then False
      else if dn_serviceID rule \<noteq> [] \<and> dn_serviceID rule \<noteq> sa_serviceID admission then False
      else \<not> dn_hasGrantIDHash rule \<or> dn_grantIDHash rule = sa_grantIDHash admission)"

lemma rule_matches_target: "rule_matches (target_denyRule target) = target_matches target"
  by (auto simp: fun_eq_iff rule_matches_def target_denyRule_def target_matches_def Let_def
      split: option.splits)

definition alnum :: "char \<Rightarrow> bool" where
  "alnum c \<longleftrightarrow> CHR ''A'' \<le> c \<and> c \<le> CHR ''Z'' \<or> CHR ''a'' \<le> c \<and> c \<le> CHR ''z'' \<or>
     CHR ''0'' \<le> c \<and> c \<le> CHR ''9''"

text \<open>\<^verbatim>\<open>managedServiceIDPattern\<close> and \<^verbatim>\<open>serviceGrantIDPattern\<close>.\<close>

definition managedServiceIDMatch :: "string \<Rightarrow> bool" where
  "managedServiceIDMatch s \<longleftrightarrow>
     (case s of [] \<Rightarrow> False
      | c # cs \<Rightarrow> alnum c \<and> list_all (\<lambda>x. alnum x \<or> x \<in> set ''._-'') cs \<and> length cs \<le> 127)"

definition serviceGrantIDMatch :: "string \<Rightarrow> bool" where
  "serviceGrantIDMatch s \<longleftrightarrow>
     list_all (\<lambda>x. alnum x \<or> x \<in> set ''_-'') s \<and> 16 \<le> length s \<and> length s \<le> 128"

definition newServiceAdmissionState ::
  "serviceAdmissionMode \<Rightarrow> string \<Rightarrow> string \<Rightarrow> (string, bytes) gomap \<Rightarrow>
   admissionConfigError + serviceAdmissionState option" where
  "newServiceAdmissionState mode issuer audience keys =
     (if mode = serviceAdmissionOff then Inr None
      else if blankText issuer \<or> blankText audience then Inl MissingIssuerOrAudience
      else if keys = [] then Inl MissingSigningKey
      else Inr (Some \<lparr>sas_mode = mode, sas_issuer = issuer, sas_audience = audience, sas_keys = keys,
                     sas_pending = [], sas_verified = [], sas_failed = [], sas_denied = []\<rparr>))"

definition serviceKeyForPacket ::
  "parsedPacket \<Rightarrow> udpaddr option \<Rightarrow> u32 \<Rightarrow> serviceAdmissionKey" where
  "serviceKeyForPacket pkt addr sessionID =
     \<lparr>sak_channelID = h_ChannelId (pk_Header pkt), sak_senderID = h_SenderId (pk_Header pkt),
      sak_sessionID = sessionID, sak_address = peerMapKey addr\<rparr>"

definition expiryDeadline :: "serviceAdmission \<Rightarrow> gotime" where
  "expiryDeadline admission =
     (if sa_permissions admission = identityPermissionListen \<and> 0 < sa_grace admission
      then sa_grantExpires admission + sa_grace admission else sa_grantExpires admission)"

definition grantCurrent :: "serviceAdmission \<Rightarrow> gotime \<Rightarrow> bool" where
  "grantCurrent admission now \<longleftrightarrow> now < sa_grantExpires admission"

definition membershipCurrent :: "serviceAdmission \<Rightarrow> gotime \<Rightarrow> bool" where
  "membershipCurrent admission now \<longleftrightarrow> now < expiryDeadline admission"

subsection \<open>Grants\<close>

text \<open>The checks of \<^verbatim>\<open>validateGrant\<close> on the decoded claims, after the signature.\<close>

definition validateGrantClaims ::
  "prims \<Rightarrow> serviceAdmissionState \<Rightarrow> serviceGrantClaims \<Rightarrow> string \<Rightarrow> bytes \<Rightarrow> u32 \<Rightarrow> u32 \<Rightarrow> gotime \<Rightarrow>
   u8 + serviceAdmission" where
  "validateGrantClaims pr a claims grant publicKey channelID senderID now =
     (let lifetime = sgc_ExpiresAt claims - sgc_IssuedAt claims;
          graceSeconds = (case sgc_GraceSeconds claims of None \<Rightarrow> 0 | Some g \<Rightarrow> g) in
      if sgc_IssuedAt claims < 0 \<or> sgc_ExpiresAt claims \<le> sgc_IssuedAt claims \<or>
         lifetime < minimumServiceGrantLifetime \<or> maximumServiceGrantLifetime < lifetime \<or>
         \<not> now < time_Unix (sgc_ExpiresAt claims) \<or>
         now + 30 * Second < time_Unix (sgc_IssuedAt claims)
      then Inl serviceDenyGrantExpired
      else if sgc_Issuer claims \<noteq> sas_issuer a \<or> sgc_Audience claims \<noteq> sas_audience a \<or>
         sgc_ChannelID claims \<noteq> channelID \<or> sgc_SenderID claims \<noteq> senderID \<or> sgc_SenderID claims = 0
      then Inl serviceDenyScopeMismatch
      else if \<not> managedServiceIDMatch (sgc_ServiceID claims) \<or> \<not> serviceGrantIDMatch (sgc_GrantID claims)
      then Inl serviceDenyInvalidGrant
      else if sgc_Permissions claims \<noteq> 1 \<and> sgc_Permissions claims \<noteq> 3 \<and> sgc_Permissions claims \<noteq> 7 \<or>
         sgc_Permissions claims AND identityPermissionListen = 0
      then Inl serviceDenyPermissionDenied
      else if sgc_Permissions claims = 7 \<and> (sgc_Priority claims = None \<or> sgc_Priority claims = Some 0)
      then Inl serviceDenyPermissionDenied
      else if sgc_Permissions claims \<noteq> 7 \<and> sgc_Priority claims \<noteq> None
      then Inl serviceDenyPermissionDenied
      else if (sgc_Role claims = ''recorder'' \<or> sgc_Role claims = ''observer'') \<and> sgc_Permissions claims \<noteq> 1
      then Inl serviceDenyPermissionDenied
      else if sgc_Role claims \<noteq> ''recorder'' \<and> sgc_Role claims \<noteq> ''observer'' \<and>
         sgc_Role claims \<noteq> ''automation''
      then Inl serviceDenyPermissionDenied
      else if maximumServiceAdmissionGraceSecs < graceSeconds \<or>
         sgc_Permissions claims \<noteq> 1 \<and> graceSeconds \<noteq> 0
      then Inl serviceDenyPermissionDenied
      else if sgc_JWKThumbprint claims = [] \<or>
         sgc_JWKThumbprint claims \<noteq> b64Encode (sha256 pr publicKey)
      then Inl serviceDenyScopeMismatch
      else Inr
        \<lparr>sa_serviceID = sgc_ServiceID claims, sa_role = sgc_Role claims,
         sa_permissions = sgc_Permissions claims,
         sa_priority = (case sgc_Priority claims of None \<Rightarrow> 0 | Some p \<Rightarrow> p),
         sa_grantExpires = time_Unix (sgc_ExpiresAt claims), sa_grace = uint graceSeconds * Second,
         sa_grantHash = sha256 pr (bytes_of grant),
         sa_grantIDHash = sha256 pr (bytes_of (sgc_GrantID claims))\<rparr>)"

text \<open>
  The lifetime is an int64 difference; where it could wrap (a negative issue time or an expiry
  below it) the first test has already failed.
\<close>

definition validateGrant ::
  "prims \<Rightarrow> serviceAdmissionState \<Rightarrow> string \<Rightarrow> bytes \<Rightarrow> u32 \<Rightarrow> u32 \<Rightarrow> gotime \<Rightarrow>
   u8 + serviceAdmission" where
  "validateGrant pr a grant publicKey channelID senderID now =
     (if grant = [] \<or> serviceGrantMaxBytes < length grant \<or> length publicKey \<noteq> publicKeySize
      then Inl serviceDenyInvalidGrant
      else if \<exists>value\<in>set (bytes_of grant). 0x7f < value then Inl serviceDenyInvalidGrant
      else case splitOn (CHR ''.'') grant of
        [seg0, seg1, seg2] \<Rightarrow>
          (case (strictBase64URL seg0, strictBase64URL seg1, strictBase64URL seg2) of
             (Some headerRaw, Some payloadRaw, Some signature) \<Rightarrow>
               if length signature \<noteq> signatureSize then Inl serviceDenyInvalidGrant
               else (case (jsonServiceHeader pr headerRaw, jsonServiceClaims pr payloadRaw) of
                  (Some header, Some claims) \<Rightarrow>
                    let issuerKey = (case map_of (sas_keys a) (sgh_KeyID header) of
                                       None \<Rightarrow> [] | Some k \<Rightarrow> k) in
                    if sgh_Algorithm header \<noteq> ''EdDSA'' \<or>
                       sgh_Type header \<noteq> ''incomudon-service-admission+jwt'' \<or>
                       length issuerKey \<noteq> publicKeySize \<or>
                       \<not> ed25519Verify pr issuerKey (bytes_of (seg0 @ ''.'' @ seg1)) signature
                    then Inl serviceDenyInvalidGrant
                    else validateGrantClaims pr a claims grant publicKey channelID senderID now
                | _ \<Rightarrow> Inl serviceDenyInvalidGrant)
           | _ \<Rightarrow> Inl serviceDenyInvalidGrant)
      | _ \<Rightarrow> Inl serviceDenyInvalidGrant)"

subsection \<open>The tables\<close>

definition service_cleanupLocked :: "gotime \<Rightarrow> serviceAdmissionState \<Rightarrow> serviceAdmissionState" where
  "service_cleanupLocked now a =
     a\<lparr>sas_pending := prune (\<lambda>p. now < spa_expiresAt p) (sas_pending a),
       sas_verified := prune (\<lambda>v. grantCurrent v now) (sas_verified a),
       sas_failed := prune (\<lambda>f. now < saf_expiresAt f) (sas_failed a),
       sas_denied := prune (\<lambda>expiry. now < expiry) (sas_denied a)\<rparr>"

definition service_fail ::
  "serviceAdmissionKey \<Rightarrow> u8 \<Rightarrow> gotime \<Rightarrow> serviceAdmissionState \<Rightarrow> serviceAdmissionState" where
  "service_fail key reason now a =
     a\<lparr>sas_failed := AList.update key
         \<lparr>saf_reason = reason, saf_expiresAt = now + serviceChallengeTTL\<rparr> (sas_failed a)\<rparr>"

definition activeDenyRules ::
  "serviceAdmissionState option \<Rightarrow> gotime \<Rightarrow>
   serviceAdmissionDenyRuleEntry list \<times> serviceAdmissionState option" where
  "activeDenyRules st now =
     (case st of None \<Rightarrow> ([], None)
      | Some a \<Rightarrow> let a1 = service_cleanupLocked now a in
          (map (\<lambda>(rule, expiresAt). \<lparr>de_rule = rule, de_expiresAt = expiresAt\<rparr>) (sas_denied a1), Some a1))"

definition deniedLocked :: "serviceAdmissionState \<Rightarrow> u32 \<Rightarrow> serviceAdmission \<Rightarrow> bool" where
  "deniedLocked a channelID admission \<longleftrightarrow>
     (\<exists>(rule, expiry)\<in>set (sas_denied a). rule_matches rule channelID admission)"

definition admissionAllowedForMembership ::
  "serviceAdmissionState option \<Rightarrow> u32 \<Rightarrow> serviceAdmission \<Rightarrow> gotime \<Rightarrow>
   bool \<times> serviceAdmissionState option" where
  "admissionAllowedForMembership st channelID admission now =
     (case st of None \<Rightarrow> (False, None)
      | Some a \<Rightarrow> let a1 = service_cleanupLocked now a in
          (grantCurrent admission now \<and> \<not> deniedLocked a1 channelID admission, Some a1))"

definition installRevocation ::
  "serviceAdmissionState option \<Rightarrow> serviceAdmissionRevocationTarget \<Rightarrow> gotime \<Rightarrow> gotime \<Rightarrow>
   bool \<times> serviceAdmissionState option" where
  "installRevocation st target denyUntil now =
     (case st of None \<Rightarrow> (False, None)
      | Some a \<Rightarrow>
        if \<not> now < denyUntil \<or> rt_serviceID target = [] \<and> rt_grantIDHash target = None then (False, st)
        else let
          rule = target_denyRule target;
          a1 = service_cleanupLocked now a;
          existing = map_of (sas_denied a1) rule
        in if existing = None \<and> maxServiceAdmissionDenyRules \<le> length (sas_denied a1)
           then (False, Some a1)
           else let
             expiresAt = (case existing of None \<Rightarrow> denyUntil
                          | Some e \<Rightarrow> if denyUntil < e then e else denyUntil);
             keep = (\<lambda>k admission. \<not> target_matches target (sak_channelID k) admission)
           in (True, Some (a1\<lparr>
                 sas_denied := AList.update rule expiresAt (sas_denied a1),
                 sas_pending := filter (\<lambda>(k, p). keep k (spa_admission p)) (sas_pending a1),
                 sas_verified := filter (\<lambda>(k, v). keep k v) (sas_verified a1)\<rparr>)))"

definition service_beginLocked ::
  "bytes option \<Rightarrow> serviceAdmissionKey \<Rightarrow> bytes \<Rightarrow> u8 + serviceAdmission \<Rightarrow> gotime \<Rightarrow>
   serviceAdmissionState \<Rightarrow> (u8 + bytes) \<times> serviceAdmissionState" where
  "service_beginLocked draw key publicKey validated now a =
     (let a1 = service_cleanupLocked now a;
          checked = (case validated of
                       Inl reason \<Rightarrow> Inl reason
                     | Inr admission \<Rightarrow>
                         if deniedLocked a1 (sak_channelID key) admission then Inl serviceDenyRevoked
                         else Inr admission)
      in case checked of
        Inl denyReason \<Rightarrow> (Inl denyReason, service_fail key denyReason now a1)
      | Inr admission \<Rightarrow>
        if maxPendingServiceAdmissions \<le> length (sas_pending a1)
        then (Inl serviceDenyInvalidGrant, service_fail key serviceDenyInvalidGrant now a1)
        else (case draw of
            None \<Rightarrow> (Inl serviceDenyInvalidGrant, a1)
          | Some challenge \<Rightarrow>
            let challengeExpiry =
                  (if sa_grantExpires admission < now + serviceChallengeTTL
                   then sa_grantExpires admission else now + serviceChallengeTTL);
                pend = \<lparr>spa_admission = admission, spa_publicKey = publicKey,
                        spa_challenge = challenge, spa_expiresAt = challengeExpiry\<rparr>
            in (Inr (PutUint32 (of_int (Unix_of challengeExpiry)) @ challenge),
                a1\<lparr>sas_pending := AList.update key pend (sas_pending a1),
                   sas_failed := AList.delete key (sas_failed a1)\<rparr>)))"

definition service_begin ::
  "prims \<Rightarrow> bytes option \<Rightarrow> serviceAdmissionState option \<Rightarrow> parsedPacket \<Rightarrow> udpaddr option \<Rightarrow>
   controlAuthMeta \<Rightarrow> gotime \<Rightarrow> (u8 + bytes) \<times> serviceAdmissionState option" where
  "service_begin pr draw st pkt addr meta now =
     (case st of None \<Rightarrow> (Inl serviceDenyDisabled, None)
      | Some a \<Rightarrow>
        if length (pk_Payload pkt) < 2 + publicKeySize then (Inl serviceDenyDisabled, st)
        else let grantLength = unat (Uint16 (take 2 (pk_Payload pkt))) in
        if grantLength < 1 \<or> serviceGrantMaxBytes < grantLength \<or>
           length (pk_Payload pkt) \<noteq> 2 + grantLength + publicKeySize
        then (Inl serviceDenyInvalidGrant, st)
        else let
          grant = string_of (slice 2 (2 + grantLength) (pk_Payload pkt));
          publicKey = drop (2 + grantLength) (pk_Payload pkt);
          validated = validateGrant pr a grant publicKey (h_ChannelId (pk_Header pkt))
                        (h_SenderId (pk_Header pkt)) now;
          key = serviceKeyForPacket pkt addr (meta_sessionID meta);
          (result, a') = service_beginLocked draw key publicKey validated now a
        in (result, Some a'))"

definition serviceProofMessage :: "prims \<Rightarrow> bytes \<Rightarrow> u32 \<Rightarrow> u32 \<Rightarrow> bytes \<Rightarrow> bytes" where
  "serviceProofMessage pr challenge channelID senderID grantHash =
     sha256 pr (bytes_of ''incomudon-managed-service-admission-v1'' @ [0] @ challenge @
                PutUint32 channelID @ PutUint32 senderID @ grantHash)"

definition service_proof ::
  "prims \<Rightarrow> serviceAdmissionState option \<Rightarrow> parsedPacket \<Rightarrow> udpaddr option \<Rightarrow> controlAuthMeta \<Rightarrow>
   gotime \<Rightarrow> u8 \<times> serviceAdmissionState option" where
  "service_proof pr st pkt addr meta now =
     (case st of None \<Rightarrow> (serviceDenyInvalidProof, None)
      | Some a \<Rightarrow>
        if length (pk_Payload pkt) \<noteq> signatureSize then (serviceDenyInvalidProof, st)
        else let
          key = serviceKeyForPacket pkt addr (meta_sessionID meta);
          a1 = service_cleanupLocked now a
        in case map_of (sas_pending a1) key of
             None \<Rightarrow> (serviceDenyInvalidProof,
                      Some (service_fail key serviceDenyInvalidProof now a1))
           | Some pend \<Rightarrow>
             if \<not> now < spa_expiresAt pend
             then (serviceDenyInvalidProof,
                   Some (service_fail key serviceDenyInvalidProof now a1))
             else let
               a2 = a1\<lparr>sas_pending := AList.delete key (sas_pending a1)\<rparr>;
               message = serviceProofMessage pr (spa_challenge pend) (h_ChannelId (pk_Header pkt))
                           (h_SenderId (pk_Header pkt)) (sa_grantHash (spa_admission pend))
             in if deniedLocked a1 (sak_channelID key) (spa_admission pend)
                then (serviceDenyRevoked, Some (service_fail key serviceDenyRevoked now a2))
                else if \<not> ed25519Verify pr (spa_publicKey pend) message (pk_Payload pkt)
                then (serviceDenyInvalidProof,
                      Some (service_fail key serviceDenyInvalidProof now a2))
                else (0, Some (a2\<lparr>sas_failed := AList.delete key (sas_failed a2),
                                 sas_verified := AList.update key (spa_admission pend)
                                   (sas_verified a2)\<rparr>)))"

definition service_takeVerifiedAdmission ::
  "serviceAdmissionState option \<Rightarrow> parsedPacket \<Rightarrow> udpaddr option \<Rightarrow> controlAuthMeta \<Rightarrow> gotime \<Rightarrow>
   serviceAdmission option \<times> serviceAdmissionState option" where
  "service_takeVerifiedAdmission st pkt addr meta now =
     (case st of None \<Rightarrow> (None, None)
      | Some a \<Rightarrow>
        let key = serviceKeyForPacket pkt addr (meta_sessionID meta);
            a1 = service_cleanupLocked now a;
            a2 = a1\<lparr>sas_verified := AList.delete key (sas_verified a1)\<rparr>
        in case map_of (sas_verified a1) key of
             None \<Rightarrow> (None, Some a2)
           | Some admission \<Rightarrow>
             if \<not> grantCurrent admission now \<or> deniedLocked a1 (sak_channelID key) admission
             then (None, Some a2) else (Some admission, Some a2))"

definition service_admissionForJoin ::
  "serviceAdmissionState option \<Rightarrow> parsedPacket \<Rightarrow> udpaddr option \<Rightarrow> controlAuthMeta \<Rightarrow> gotime \<Rightarrow>
   (serviceAdmission \<times> bool \<times> u8) \<times> serviceAdmissionState option" where
  "service_admissionForJoin st pkt addr meta now =
     (case st of None \<Rightarrow> ((zeroServiceAdmission, True, 0), None)
      | Some a \<Rightarrow>
        let key = serviceKeyForPacket pkt addr (meta_sessionID meta);
            a1 = service_cleanupLocked now a;
            rest =
              (case map_of (sas_failed a1) key of
                 Some failure \<Rightarrow> (zeroServiceAdmission, False, saf_reason failure)
               | None \<Rightarrow>
                 if map_of (sas_pending a1) key \<noteq> None
                 then (zeroServiceAdmission, False, serviceDenyInvalidProof)
                 else (zeroServiceAdmission, True, 0))
        in case map_of (sas_verified a1) key of
             Some admission \<Rightarrow>
               if grantCurrent admission now \<and> \<not> deniedLocked a1 (sak_channelID key) admission
               then ((admission, True, 0),
                     Some (a1\<lparr>sas_verified := AList.delete key (sas_verified a1)\<rparr>))
               else (rest, Some a1)
           | None \<Rightarrow> (rest, Some a1))"

subsection \<open>What a valid grant says\<close>

lemma validateGrantClaims_ok:
  assumes "validateGrantClaims pr a claims grant pk ch sid now = Inr adm"
  shows "sgc_Issuer claims = sas_issuer a \<and> sgc_Audience claims = sas_audience a \<and>
    sgc_ChannelID claims = ch \<and> sgc_SenderID claims = sid \<and> sid \<noteq> 0 \<and>
    sgc_JWKThumbprint claims = b64Encode (sha256 pr pk) \<and>
    sgc_ExpiresAt claims \<le> sgc_IssuedAt claims + 3600 \<and>
    time_Unix (sgc_IssuedAt claims) \<le> now + 30 * Second \<and>
    sa_grantExpires adm = time_Unix (sgc_ExpiresAt claims) \<and> grantCurrent adm now"
  using assms
  by (auto simp: validateGrantClaims_def grantCurrent_def Let_def split: if_split_asm)

lemma validateGrantClaims_rights:
  assumes "validateGrantClaims pr a claims grant pk ch sid now = Inr adm"
  shows "sa_permissions adm \<in> {1, 3, 7} \<and> (sa_permissions adm = 7 \<longleftrightarrow> sa_priority adm \<noteq> 0) \<and>
    (sa_role adm \<in> {''recorder'', ''observer''} \<longrightarrow> sa_permissions adm = 1) \<and>
    0 \<le> sa_grace adm \<and> sa_grace adm \<le> 1800 * Second \<and>
    (sa_permissions adm \<noteq> 1 \<longrightarrow> sa_grace adm = 0)"
proof -
  have "uint g \<le> 1800" if "\<not> 1800 < g" for g :: u16
    using that by (simp add: word_less_alt)
  then have "uint g * Second \<le> 1800 * Second" if "\<not> 1800 < g" for g :: u16
    using that by (intro mult_right_mono) (simp_all add: less_imp_le)
  with assms show ?thesis
    by (auto simp: validateGrantClaims_def Let_def Second_def split: if_split_asm option.split_asm)
qed

lemma validateGrant_split:
  assumes "validateGrant pr a grant pk ch sid now = Inr adm"
  shows "\<exists>seg0 seg1 signature payload claims kid issuerKey.
    grant = seg0 @ ''.'' @ seg1 @ ''.'' @ b64Encode signature \<and>
    map_of (sas_keys a) kid = Some issuerKey \<and>
    ed25519Verify pr issuerKey (bytes_of (seg0 @ ''.'' @ seg1)) signature \<and>
    seg1 = b64Encode payload \<and> jsonServiceClaims pr payload = Some claims \<and>
    validateGrantClaims pr a claims grant pk ch sid now = Inr adm"
proof -
  from assms obtain seg0 seg1 seg2 headerRaw payloadRaw signature header claims where
    segs: "splitOn (CHR ''.'') grant = [seg0, seg1, seg2]"
    and raw: "strictBase64URL seg0 = Some headerRaw" "strictBase64URL seg1 = Some payloadRaw"
      "strictBase64URL seg2 = Some signature"
    and json: "jsonServiceHeader pr headerRaw = Some header"
      "jsonServiceClaims pr payloadRaw = Some claims"
    by (auto simp: validateGrant_def Let_def split: if_splits list.splits option.splits)
  from assms segs raw json obtain issuerKey where
    "map_of (sas_keys a) (sgh_KeyID header) = Some issuerKey"
    "ed25519Verify pr issuerKey (bytes_of (seg0 @ ''.'' @ seg1)) signature"
    "validateGrantClaims pr a claims grant pk ch sid now = Inr adm"
    by (auto simp: validateGrant_def Let_def split: if_splits option.splits)
  moreover have "grant = seg0 @ ''.'' @ seg1 @ ''.'' @ seg2"
    using splitOn_join [OF segs] by simp
  ultimately show ?thesis
    using json(2) strictBase64URL_Some [OF raw(2)] strictBase64URL_Some [OF raw(3)] by metis
qed

text \<open>Conversely, a well-formed signed grant is judged by its claims alone.\<close>

lemma validateGrant_signed:
  assumes "h \<noteq> []" "p \<noteq> []" "length signature = signatureSize" "length pk = publicKeySize"
    and grant: "grant = b64Encode h @ ''.'' @ b64Encode p @ ''.'' @ b64Encode signature"
    and "length grant \<le> serviceGrantMaxBytes"
    and "jsonServiceHeader pr h = Some header" "jsonServiceClaims pr p = Some claims"
    and "sgh_Algorithm header = ''EdDSA''" "sgh_Type header = ''incomudon-service-admission+jwt''"
    and "map_of (sas_keys a) (sgh_KeyID header) = Some issuerKey" "length issuerKey = publicKeySize"
    and "ed25519Verify pr issuerKey (bytes_of (b64Encode h @ ''.'' @ b64Encode p)) signature"
  shows "validateGrant pr a grant pk ch sid now =
    validateGrantClaims pr a claims grant pk ch sid now"
proof -
  have "signature \<noteq> []" using assms(3) by auto
  then show ?thesis
    using assms unfolding validateGrant_def grant splitOn_segments segments_ascii
    by (simp add: strictBase64URL_Encode)
qed

text \<open>
  C28. A service grant is accepted only if a configured issuer key signed it and it names this
  issuer, audience, channel, non-zero sender and key thumbprint. The membership it can carry is
  bounded: the grant ends at most 3630 seconds after the check and the grace adds at most 1800
  seconds, and only for a listen-only grant; recorders and observers are listen-only, and only
  permission 7 has a priority.
\<close>

theorem grant_sound:
  assumes "validateGrant pr a grant pk ch sid now = Inr adm"
  shows "(\<exists>seg0 seg1 signature payload claims kid issuerKey.
    grant = seg0 @ ''.'' @ seg1 @ ''.'' @ b64Encode signature \<and>
    map_of (sas_keys a) kid = Some issuerKey \<and>
    ed25519Verify pr issuerKey (bytes_of (seg0 @ ''.'' @ seg1)) signature \<and>
    seg1 = b64Encode payload \<and> jsonServiceClaims pr payload = Some claims \<and>
    sgc_Issuer claims = sas_issuer a \<and> sgc_Audience claims = sas_audience a \<and>
    sgc_ChannelID claims = ch \<and> sgc_SenderID claims = sid \<and>
    sgc_JWKThumbprint claims = b64Encode (sha256 pr pk)) \<and> sid \<noteq> 0 \<and>
    now < sa_grantExpires adm \<and> expiryDeadline adm \<le> now + 5430 * Second \<and>
    (sa_permissions adm \<noteq> 1 \<longrightarrow> expiryDeadline adm \<le> now + 3630 * Second) \<and>
    sa_permissions adm \<in> {1, 3, 7} \<and> (sa_permissions adm = 7 \<longleftrightarrow> sa_priority adm \<noteq> 0) \<and>
    (sa_role adm \<in> {''recorder'', ''observer''} \<longrightarrow> sa_permissions adm = 1)"
proof -
  from validateGrant_split [OF assms] obtain seg0 seg1 signature payload claims kid issuerKey where
    grant: "grant = seg0 @ ''.'' @ seg1 @ ''.'' @ b64Encode signature"
      "map_of (sas_keys a) kid = Some issuerKey"
      "ed25519Verify pr issuerKey (bytes_of (seg0 @ ''.'' @ seg1)) signature"
      "seg1 = b64Encode payload" "jsonServiceClaims pr payload = Some claims"
    and ok: "validateGrantClaims pr a claims grant pk ch sid now = Inr adm"
    by blast
  note facts = validateGrantClaims_ok [OF ok] and rights = validateGrantClaims_rights [OF ok]
  have "sa_grantExpires adm \<le> now + 30 * Second + 3600 * Second"
    using facts time_Unix_lifetime [of "sgc_ExpiresAt claims" "sgc_IssuedAt claims" 3600
        "now + 30 * Second"] by simp
  then have "sa_grantExpires adm \<le> now + 3630 * Second" by simp
  with rights have deadline: "expiryDeadline adm \<le> now + 5430 * Second"
    "sa_permissions adm \<noteq> 1 \<longrightarrow> expiryDeadline adm \<le> now + 3630 * Second"
    by (auto simp: expiryDeadline_def Second_def)
  have current: "now < sa_grantExpires adm" using facts by (simp add: grantCurrent_def)
  from grant facts have "\<exists>seg0 seg1 signature payload claims kid issuerKey.
    grant = seg0 @ ''.'' @ seg1 @ ''.'' @ b64Encode signature \<and>
    map_of (sas_keys a) kid = Some issuerKey \<and>
    ed25519Verify pr issuerKey (bytes_of (seg0 @ ''.'' @ seg1)) signature \<and>
    seg1 = b64Encode payload \<and> jsonServiceClaims pr payload = Some claims \<and>
    sgc_Issuer claims = sas_issuer a \<and> sgc_Audience claims = sas_audience a \<and>
    sgc_ChannelID claims = ch \<and> sgc_SenderID claims = sid \<and>
    sgc_JWKThumbprint claims = b64Encode (sha256 pr pk)" by blast
  with deadline current rights facts show ?thesis by blast
qed

text \<open>A concrete issuer and the grant of a recorder.\<close>

definition demoGrantClaims :: serviceGrantClaims where
  "demoGrantClaims = \<lparr>sgc_Issuer = ''iss'', sgc_Audience = ''aud'', sgc_ServiceID = ''rec1'',
     sgc_GrantID = ''grant-0123456789'', sgc_IssuedAt = 990, sgc_ExpiresAt = 2000, sgc_ChannelID = 5,
     sgc_SenderID = 11, sgc_Role = ''recorder'', sgc_Permissions = 1, sgc_Priority = None,
     sgc_GraceSeconds = Some 60, sgc_JWKThumbprint = b64Encode (replicate 32 3)\<rparr>"

definition grantPrims :: prims where
  "grantPrims = ticketPrims\<lparr>
     jsonServiceHeader := \<lambda>bs. if bs = [1] then Some \<lparr>sgh_Algorithm = ''EdDSA'', sgh_KeyID = ''k1'',
        sgh_Type = ''incomudon-service-admission+jwt''\<rparr> else None,
     jsonServiceClaims := \<lambda>bs. if bs = [2] then Some demoGrantClaims else None\<rparr>"

definition demoService :: serviceAdmissionState where
  "demoService = \<lparr>sas_mode = serviceAdmissionEnabled, sas_issuer = ''iss'', sas_audience = ''aud'',
     sas_keys = [(''k1'', replicate 32 8)], sas_pending = [], sas_verified = [], sas_failed = [],
     sas_denied = []\<rparr>"

definition demoGrant :: serviceAdmission where
  "demoGrant = \<lparr>sa_serviceID = ''rec1'', sa_role = ''recorder'', sa_permissions = 1, sa_priority = 0,
     sa_grantExpires = time_Unix 2000, sa_grace = 60 * Second, sa_grantHash = replicate 32 3,
     sa_grantIDHash = replicate 32 3\<rparr>"

lemma demoService_new:
  "newServiceAdmissionState serviceAdmissionEnabled ''iss'' ''aud'' [(''k1'', replicate 32 8)] =
     Inr (Some demoService)"
  by code_simp

lemma demoGrant_ids: "managedServiceIDMatch ''rec1'' \<and> serviceGrantIDMatch ''grant-0123456789''"
  by code_simp

lemma demoGrant_valid:
  "validateGrant grantPrims demoService demoTicket (replicate 32 4) 5 11 (time_Unix 1000) =
     Inr demoGrant"
proof -
  have text_len: "length demoTicket \<le> 768"
    by (simp add: demoTicket_def length_b64Encode)
  have thumb: "b64Encode (replicate 32 3) \<noteq> []"
    using length_b64Encode [of "replicate 32 3"] by force
  have times: "time_Unix 1000 < time_Unix 2000" "\<not> time_Unix 1000 + 30 * Second < time_Unix 990"
    by (simp_all add: time_Unix_def Second_def)
  have "validateGrant grantPrims demoService demoTicket (replicate 32 4) 5 11 (time_Unix 1000) =
    validateGrantClaims grantPrims demoService demoGrantClaims demoTicket (replicate 32 4) 5 11
      (time_Unix 1000)"
    by (rule validateGrant_signed [where h = "[1]" and p = "[2]" and signature = "replicate 64 8"
          and issuerKey = "replicate 32 8" and header = "\<lparr>sgh_Algorithm = ''EdDSA'', sgh_KeyID = ''k1'',
            sgh_Type = ''incomudon-service-admission+jwt''\<rparr>", OF _ _ _ _ demoTicket_def text_len])
      (simp_all add: grantPrims_def ticketPrims_def demoService_def)
  then show ?thesis
    using thumb times demoGrant_ids
    by (simp add: validateGrantClaims_def demoGrantClaims_def grantPrims_def ticketPrims_def
        demoService_def demoGrant_def Let_def)
qed

theorem grant_sound_witness:
  "time_Unix 1000 < sa_grantExpires demoGrant \<and> expiryDeadline demoGrant \<le> time_Unix 1000 + 5430 * Second \<and>
   sa_role demoGrant = ''recorder'' \<and> sa_permissions demoGrant = 1"
  using grant_sound [OF demoGrant_valid] by (simp add: demoGrant_def)

subsection \<open>The flow from BEGIN to JOIN\<close>

text \<open>What can happen to the state at time \<open>now\<close>.\<close>

inductive service_step ::
  "prims \<Rightarrow> gotime \<Rightarrow> serviceAdmissionState \<Rightarrow> serviceAdmissionState \<Rightarrow> bool" for pr now where
  ss_begin: "service_begin pr draw (Some a) pkt addr meta now = (r, Some b) \<Longrightarrow> service_step pr now a b"
| ss_proof: "service_proof pr (Some a) pkt addr meta now = (q, Some b) \<Longrightarrow> service_step pr now a b"
| ss_take: "service_takeVerifiedAdmission (Some a) pkt addr meta now = (v, Some b) \<Longrightarrow> service_step pr now a b"
| ss_join: "service_admissionForJoin (Some a) pkt addr meta now = (j, Some b) \<Longrightarrow> service_step pr now a b"
| ss_member: "admissionAllowedForMembership (Some a) ch adm now = (ok, Some b) \<Longrightarrow> service_step pr now a b"
| ss_rules: "activeDenyRules (Some a) now = (rules, Some b) \<Longrightarrow> service_step pr now a b"
| ss_revoke: "installRevocation (Some a) target until now = (ok, Some b) \<Longrightarrow> service_step pr now a b"

definition service_genuine ::
  "prims \<Rightarrow> serviceAdmissionState \<Rightarrow> serviceAdmissionKey \<Rightarrow> servicePendingAdmission \<Rightarrow> bool" where
  "service_genuine pr a k p \<longleftrightarrow>
     (\<exists>grant now. validateGrant pr a grant (spa_publicKey p) (sak_channelID k) (sak_senderID k) now
        = Inr (spa_admission p))"

definition service_proven :: "prims \<Rightarrow> serviceAdmissionKey \<Rightarrow> servicePendingAdmission \<Rightarrow> bool" where
  "service_proven pr k p \<longleftrightarrow>
     (\<exists>signature. ed25519Verify pr (spa_publicKey p)
        (serviceProofMessage pr (spa_challenge p) (sak_channelID k) (sak_senderID k)
           (sa_grantHash (spa_admission p))) signature)"

definition service_joined ::
  "parsedPacket \<Rightarrow> udpaddr option \<Rightarrow> controlAuthMeta \<Rightarrow> gotime \<Rightarrow> serviceAdmissionState \<Rightarrow>
   serviceAdmission option \<times> serviceAdmissionState" where
  "service_joined pkt addr meta now a =
     (case service_admissionForJoin (Some a) pkt addr meta now of
        ((adm, ok, reason), b) \<Rightarrow>
          (if ok \<and> adm \<noteq> zeroServiceAdmission then Some adm else None, the b))"

lemma validateGrant_config:
  assumes "sas_issuer b = sas_issuer a" "sas_audience b = sas_audience a" "sas_keys b = sas_keys a"
  shows "validateGrant pr b = validateGrant pr a"
proof -
  have "validateGrantClaims pr b = validateGrantClaims pr a"
    by (intro ext) (unfold validateGrantClaims_def assms, rule refl)
  then show ?thesis
    by (intro ext) (unfold validateGrant_def assms, simp only:)
qed

lemma service_begin_cases:
  assumes "service_begin pr draw (Some a) pkt addr meta now = (r, Some b)"
  shows "b = a \<or>
    (\<exists>grant pk. service_beginLocked draw (serviceKeyForPacket pkt addr (meta_sessionID meta)) pk
      (validateGrant pr a grant pk (h_ChannelId (pk_Header pkt)) (h_SenderId (pk_Header pkt)) now)
      now a = (r, b))" (is "_ \<or> (\<exists>grant pk. ?locked grant pk = _)")
proof -
  let ?n = "unat (Uint16 (take 2 (pk_Payload pkt)))"
  let ?X = "?locked (string_of (slice 2 (2 + ?n) (pk_Payload pkt))) (drop (2 + ?n) (pk_Payload pkt))"
  obtain r' b' where X: "?X = (r', b')" by (rule prod.exhaust)
  from assms have "b = a \<or> (r, Some b) = (r', Some b')"
    unfolding service_begin_def Let_def option.case X prod.case
    by (auto simp only: option.inject prod.inject split: if_split_asm)
  then have "b = a \<or> ?X = (r, b)" unfolding X by auto
  then show ?thesis by blast
qed

text \<open>Every operation but a revocation only prunes the deny rules; the configuration never changes.\<close>

definition service_cfg :: "serviceAdmissionState \<Rightarrow> string \<times> string \<times> (string, bytes) gomap" where
  "service_cfg a = (sas_issuer a, sas_audience a, sas_keys a)"

lemma cleanup_tables:
  "set (sas_pending (service_cleanupLocked now a)) \<subseteq> set (sas_pending a)"
  "set (sas_verified (service_cleanupLocked now a)) \<subseteq> set (sas_verified a)"
  "service_cfg (service_cleanupLocked now a) = service_cfg a"
  "sas_denied (service_cleanupLocked now a) = prune (\<lambda>e. now < e) (sas_denied a)"
  by (auto simp: service_cleanupLocked_def set_prune service_cfg_def)

lemma service_beginLocked_tables:
  assumes "service_beginLocked draw key pk validated now a = (r, b)"
  shows "service_cfg b = service_cfg a \<and> set (sas_verified b) \<subseteq> set (sas_verified a) \<and>
    sas_denied b = prune (\<lambda>e. now < e) (sas_denied a) \<and>
    (\<forall>(k, p)\<in>set (sas_pending b). (k, p) \<in> set (sas_pending a) \<or>
       k = key \<and> spa_publicKey p = pk \<and> validated = Inr (spa_admission p) \<and>
       \<not> deniedLocked b (sak_channelID key) (spa_admission p))"
proof -
  let ?c = "service_cleanupLocked now a"
  have frame: "service_cfg b = service_cfg a \<and> sas_verified b = sas_verified ?c \<and>
      sas_denied b = sas_denied ?c"
    using assms cleanup_tables(3) [of now a]
    by (auto simp: service_beginLocked_def service_fail_def service_cfg_def Let_def
        split: sum.split_asm if_split_asm option.split_asm)
  then have same: "deniedLocked b = deniedLocked ?c" by (simp add: fun_eq_iff deniedLocked_def)
  have "set (sas_pending b) \<subseteq> set (sas_pending a) \<or>
    (\<exists>p. set (sas_pending b) \<subseteq> insert (key, p) (set (sas_pending a)) \<and>
       spa_publicKey p = pk \<and> validated = Inr (spa_admission p) \<and>
       \<not> deniedLocked ?c (sak_channelID key) (spa_admission p))"
  proof (cases "sas_pending b = sas_pending ?c")
    case False
    with assms obtain p where "sas_pending b = AList.update key p (sas_pending ?c)"
      "spa_publicKey p = pk" "validated = Inr (spa_admission p)"
      "\<not> deniedLocked ?c (sak_channelID key) (spa_admission p)"
      by (fastforce simp: service_beginLocked_def service_fail_def Let_def
          split: sum.split_asm if_split_asm option.split_asm)
    with cleanup_tables(1) [of now a] set_update_subset [of key p "sas_pending ?c"] show ?thesis
      by (intro disjI2 exI [of _ p]) auto
  qed (use cleanup_tables in simp)
  with frame same cleanup_tables [of now a] show ?thesis by (fastforce dest: subsetD)
qed

lemma service_proof_tables:
  assumes "service_proof pr (Some a) pkt addr meta now = (q, Some b)"
  shows "service_cfg b = service_cfg a \<and> set (sas_pending b) \<subseteq> set (sas_pending a) \<and>
    (sas_denied b = sas_denied a \<or> sas_denied b = prune (\<lambda>e. now < e) (sas_denied a)) \<and>
    (\<forall>(k, v)\<in>set (sas_verified b). (k, v) \<in> set (sas_verified a) \<or>
       (\<exists>p. (k, p) \<in> set (sas_pending a) \<and> service_proven pr k p \<and> spa_admission p = v))"
proof -
  let ?key = "serviceKeyForPacket pkt addr (meta_sessionID meta)"
  let ?c = "service_cleanupLocked now a"
  note old = cleanup_tables [of now a]
  have frame: "service_cfg b = service_cfg a \<and>
      (sas_denied b = sas_denied a \<or> sas_denied b = prune (\<lambda>e. now < e) (sas_denied a))"
    using assms old(3,4)
    by (auto simp: service_proof_def service_fail_def service_cfg_def Let_def
        split: if_split_asm option.split_asm)
  have pend: "set (sas_pending b) \<subseteq> set (sas_pending a)"
    using assms old(1)
    by (auto simp: service_proof_def service_fail_def Let_def set_delete
        split: if_split_asm option.split_asm)
  consider "set (sas_verified b) \<subseteq> set (sas_verified a)"
    | p where "sas_verified b = AList.update ?key (spa_admission p) (sas_verified ?c)"
      "map_of (sas_pending ?c) ?key = Some p" "service_proven pr ?key p"
    using assms old(2)
    by (fastforce simp: service_proof_def service_fail_def Let_def service_proven_def
        serviceKeyForPacket_def split: if_split_asm option.split_asm)
  then show ?thesis
  proof cases
    case 2
    have "(?key, p) \<in> set (sas_pending a)" using map_of_SomeD [OF 2(2)] old(1) by blast
    moreover have "set (sas_verified b) \<subseteq> insert (?key, spa_admission p) (set (sas_verified a))"
      using 2(1) set_update_subset [of ?key "spa_admission p" "sas_verified ?c"] old(2) by auto
    ultimately show ?thesis using frame pend 2(3) by blast
  qed (use frame pend in blast)
qed

text \<open>An operation that only takes entries out.\<close>

definition shrinks :: "gotime \<Rightarrow> serviceAdmissionState \<Rightarrow> serviceAdmissionState \<Rightarrow> bool" where
  "shrinks now a b \<longleftrightarrow> service_cfg b = service_cfg a \<and> set (sas_pending b) \<subseteq> set (sas_pending a) \<and>
     set (sas_verified b) \<subseteq> set (sas_verified a) \<and>
     sas_denied b = prune (\<lambda>e. now < e) (sas_denied a)"

lemma shrinks_cleanup: "shrinks now a (service_cleanupLocked now a)"
  using cleanup_tables [of now a] by (simp add: shrinks_def)

lemma shrinks_delete_verified:
  "shrinks now a (service_cleanupLocked now a
     \<lparr>sas_verified := AList.delete k (sas_verified (service_cleanupLocked now a))\<rparr>)"
  using cleanup_tables [of now a] by (auto simp: shrinks_def service_cfg_def set_delete)

lemma service_shrinking:
  "service_takeVerifiedAdmission (Some a) pkt addr meta now = (v, Some b) \<Longrightarrow> shrinks now a b"
  "service_admissionForJoin (Some a) pkt addr meta now = (j, Some b) \<Longrightarrow> shrinks now a b"
  "admissionAllowedForMembership (Some a) ch adm now = (ok, Some b) \<Longrightarrow> shrinks now a b"
  "activeDenyRules (Some a) now = (rules, Some b) \<Longrightarrow> shrinks now a b"
  by (auto simp: service_takeVerifiedAdmission_def service_admissionForJoin_def
      admissionAllowedForMembership_def activeDenyRules_def Let_def shrinks_cleanup
      shrinks_delete_verified split: if_split_asm option.split_asm)

text \<open>The new expiry of a deny rule: never earlier than the one it had.\<close>

lemma installRevocation_tables:
  assumes "installRevocation (Some a) target until now = (ok, Some b)"
  shows "b = a \<and> \<not> ok \<or> shrinks now a b \<and> \<not> ok \<or>
    ok \<and> now < until \<and> service_cfg b = service_cfg a \<and>
    sas_pending b = filter (\<lambda>(k, p). \<not> target_matches target (sak_channelID k) (spa_admission p))
      (sas_pending (service_cleanupLocked now a)) \<and>
    sas_verified b = filter (\<lambda>(k, v). \<not> target_matches target (sak_channelID k) v)
      (sas_verified (service_cleanupLocked now a)) \<and>
    (\<exists>e. sas_denied b = AList.update (target_denyRule target) e (prune (\<lambda>e. now < e) (sas_denied a)) \<and>
       until \<le> e \<and>
       (case map_of (prune (\<lambda>e. now < e) (sas_denied a)) (target_denyRule target) of
          None \<Rightarrow> length (prune (\<lambda>e. now < e) (sas_denied a)) < maxServiceAdmissionDenyRules
        | Some e0 \<Rightarrow> e0 \<le> e))"
  using assms cleanup_tables(3,4) [of now a] shrinks_cleanup [of now a]
  by (auto simp: installRevocation_def service_cfg_def Let_def split: if_split_asm option.split_asm)

lemma service_step_tables:
  assumes "service_step pr now a b"
  shows "service_cfg b = service_cfg a \<and>
    (\<forall>(k, p)\<in>set (sas_pending b). (k, p) \<in> set (sas_pending a) \<or>
       service_genuine pr a k p \<and> \<not> deniedLocked b (sak_channelID k) (spa_admission p)) \<and>
    (\<forall>(k, v)\<in>set (sas_verified b). (k, v) \<in> set (sas_verified a) \<or>
       (\<exists>p. (k, p) \<in> set (sas_pending a) \<and> service_proven pr k p \<and> spa_admission p = v))"
  using assms
proof cases
  case (ss_begin draw pkt addr meta r)
  let ?key = "serviceKeyForPacket pkt addr (meta_sessionID meta)"
  from service_begin_cases [OF ss_begin] show ?thesis
  proof (elim disjE exE)
    fix grant pk
    assume locked: "service_beginLocked draw ?key pk (validateGrant pr a grant pk
      (h_ChannelId (pk_Header pkt)) (h_SenderId (pk_Header pkt)) now) now a = (r, b)"
    have "service_genuine pr a ?key p"
      if "spa_publicKey p = pk" "validateGrant pr a grant pk (h_ChannelId (pk_Header pkt))
        (h_SenderId (pk_Header pkt)) now = Inr (spa_admission p)" for p
      using that by (auto simp: service_genuine_def serviceKeyForPacket_def)
    with service_beginLocked_tables [OF locked] show ?thesis by blast
  qed auto
next
  case ss_proof
  from service_proof_tables [OF this] show ?thesis by blast
next
  case (ss_revoke target until ok)
  have "set (sas_pending b) \<subseteq> set (sas_pending a) \<and> set (sas_verified b) \<subseteq> set (sas_verified a) \<and>
      service_cfg b = service_cfg a"
    using installRevocation_tables [OF ss_revoke] cleanup_tables [of now a]
    by (auto simp: shrinks_def)
  then show ?thesis by blast
qed (auto dest!: service_shrinking simp: shrinks_def)

lemma service_genuine_step:
  assumes "service_step pr now s t"
  shows "service_genuine pr t = service_genuine pr s"
proof -
  have "validateGrant pr t = validateGrant pr s"
    using service_step_tables [OF assms] by (intro validateGrant_config) (simp_all add: service_cfg_def)
  then show ?thesis by (intro ext) (simp only: service_genuine_def)
qed

lemma service_joined_Some:
  assumes "service_joined pkt addr meta now a = (Some adm, b)"
  shows "(serviceKeyForPacket pkt addr (meta_sessionID meta), adm) \<in> set (sas_verified a) \<and>
    grantCurrent adm now \<and>
    (serviceKeyForPacket pkt addr (meta_sessionID meta), v) \<notin> set (sas_verified b)"
  using assms
  by (auto simp: service_joined_def service_admissionForJoin_def service_cleanupLocked_def Let_def
      set_delete set_prune split: if_split_asm option.split_asm dest!: map_of_SomeD)

interpretation service_flow: admission_store "\<lambda>a b. \<exists>now. service_step pr now a b"
  "\<lambda>a. set (sas_pending a)" "\<lambda>a. set (sas_verified a)" spa_admission
  "service_genuine pr" "service_proven pr"
  "\<lambda>(pkt, addr, meta). serviceKeyForPacket pkt addr (meta_sessionID meta)"
  "\<lambda>now (pkt, addr, meta) a. service_joined pkt addr meta now a"
  grantCurrent
proof unfold_locales
  fix s t k p v now a b and q :: "parsedPacket \<times> udpaddr option \<times> controlAuthMeta"
  show "\<exists>now. service_step pr now s t \<Longrightarrow> service_genuine pr t = service_genuine pr s"
    using service_genuine_step by blast
  show "\<exists>now. service_step pr now s t \<Longrightarrow> (k, p) \<in> set (sas_pending t) \<Longrightarrow>
      (k, p) \<in> set (sas_pending s) \<or> service_genuine pr s k p"
    using service_step_tables by blast
  show "\<exists>now. service_step pr now s t \<Longrightarrow> (k, v) \<in> set (sas_verified t) \<Longrightarrow>
      (k, v) \<in> set (sas_verified s) \<or>
      (\<exists>p. (k, p) \<in> set (sas_pending s) \<and> service_proven pr k p \<and> spa_admission p = v)"
    using service_step_tables by blast
  show "(case q of (pkt, addr, meta) \<Rightarrow> \<lambda>a. service_joined pkt addr meta now a) s = (Some a, t) \<Longrightarrow>
      ((case q of (pkt, addr, meta) \<Rightarrow> serviceKeyForPacket pkt addr (meta_sessionID meta)), a)
        \<in> set (sas_verified s) \<and> grantCurrent a now"
    using service_joined_Some by (auto split: prod.splits)
  show "(case q of (pkt, addr, meta) \<Rightarrow> \<lambda>a. service_joined pkt addr meta now a) s = (Some a, t) \<Longrightarrow>
      ((case q of (pkt, addr, meta) \<Rightarrow> serviceKeyForPacket pkt addr (meta_sessionID meta)), b)
        \<notin> set (sas_verified t)"
    using service_joined_Some by (auto split: prod.splits)
qed

text \<open>
  C25. Managed services get in only through the front door: whatever the order of begin, proof,
  revocation and JOIN, the service admission a JOIN takes comes from a grant that validated for that
  channel and sender and from the key that signed the challenge, its grant is current, and the same
  session cannot take it twice.
\<close>

theorem service_admission_genuine:
  assumes new: "newServiceAdmissionState mode issuer audience keys = Inr (Some a)"
    and run: "steps (\<lambda>x y. \<exists>t. service_step pr t x y) a b"
    and join: "service_joined pkt addr meta now b = (Some adm, c)"
  shows "(\<exists>grant pk t challenge signature.
      validateGrant pr a grant pk (h_ChannelId (pk_Header pkt)) (h_SenderId (pk_Header pkt)) t = Inr adm \<and>
      ed25519Verify pr pk (serviceProofMessage pr challenge (h_ChannelId (pk_Header pkt))
        (h_SenderId (pk_Header pkt)) (sa_grantHash adm)) signature) \<and>
    grantCurrent adm now \<and> fst (service_joined pkt addr meta now' c) = None"
proof -
  have empty: "set (sas_pending a) = {}" "set (sas_verified a) = {}"
    using new by (auto simp: newServiceAdmissionState_def split: if_splits)
  let ?q = "(pkt, addr, meta)"
  have taken: "(case ?q of (pkt, addr, meta) \<Rightarrow> \<lambda>a. service_joined pkt addr meta now a) b = (Some adm, c)"
    using join by simp
  from service_flow.take_genuine [OF run empty taken]
  obtain p where "service_genuine pr a (serviceKeyForPacket pkt addr (meta_sessionID meta)) p"
    "service_proven pr (serviceKeyForPacket pkt addr (meta_sessionID meta)) p"
    "spa_admission p = adm" "grantCurrent adm now"
    by auto
  moreover have "fst (service_joined pkt addr meta now' c) = None"
    using service_flow.take_once [OF taken, of ?q now'] by simp
  ultimately show ?thesis
    by (auto simp: service_genuine_def service_proven_def serviceKeyForPacket_def)
qed

lemma demo_service_begun:
  "service_begin grantPrims (Some (replicate 32 6)) (Some demoService) demoBegin (Some demoAddr)
     demoMeta (time_Unix 1000) =
   (Inr (PutUint32 1030 @ replicate 32 6),
    Some (demoService\<lparr>sas_pending := [(serviceKeyForPacket demoHello (Some demoAddr) 77,
      \<lparr>spa_admission = demoGrant, spa_publicKey = replicate 32 4, spa_challenge = replicate 32 6,
       spa_expiresAt = time_Unix 1030\<rparr>)]\<rparr>))"
proof -
  have expiry: "\<not> time_Unix 2000 < time_Unix 1030"
    "time_Unix 1000 + serviceChallengeTTL = time_Unix 1030"
    by (simp_all add: time_Unix_def serviceChallengeTTL_def Second_def)
  show ?thesis
    by (simp add: service_begin_def demoBegin_parts demoGrant_valid)
      (simp add: service_beginLocked_def service_cleanupLocked_def prune_def demoService_def
        demoGrant_def expiry serviceKeyForPacket_def Let_def demoBegin_parts deniedLocked_def)
qed

definition demoServiceVerified :: serviceAdmissionState where
  "demoServiceVerified = demoService\<lparr>sas_verified :=
     [(serviceKeyForPacket demoHello (Some demoAddr) 77, demoGrant)]\<rparr>"

lemma demo_service_proved:
  "service_proof grantPrims (Some (demoService\<lparr>sas_pending :=
      [(serviceKeyForPacket demoHello (Some demoAddr) 77,
       \<lparr>spa_admission = demoGrant, spa_publicKey = replicate 32 4, spa_challenge = replicate 32 6,
        spa_expiresAt = time_Unix 1030\<rparr>)]\<rparr>)) demoProof (Some demoAddr) demoMeta (time_Unix 1001) =
   (0, Some demoServiceVerified)"
proof -
  have "time_Unix 1001 < time_Unix 1030" by (simp add: time_Unix_after_iff)
  then show ?thesis
    by (simp add: service_proof_def service_cleanupLocked_def prune_def demoProof_def demoHello_def
        demoMeta_def serviceKeyForPacket_def demoService_def demoServiceVerified_def grantPrims_def
        ticketPrims_def deniedLocked_def Let_def)
qed

lemma demo_service_joined:
  "\<exists>c. service_joined demoHello (Some demoAddr) demoMeta (time_Unix 1002) demoServiceVerified =
     (Some demoGrant, c)"
proof -
  have "time_Unix 1002 < time_Unix 2000" by (simp add: time_Unix_after_iff)
  then show ?thesis
    by (simp add: service_joined_def service_admissionForJoin_def service_cleanupLocked_def prune_def
        demoMeta_def demoService_def demoServiceVerified_def demoGrant_def zeroServiceAdmission_def
        grantCurrent_def deniedLocked_def Let_def)
qed

lemma demo_service_run:
  "steps (\<lambda>x y. \<exists>t. service_step grantPrims t x y) demoService demoServiceVerified"
  using ss_begin [OF demo_service_begun] ss_proof [OF demo_service_proved]
  by (intro steps_step [OF steps_single]) blast+

theorem service_admission_genuine_witness:
  "\<exists>c. service_joined demoHello (Some demoAddr) demoMeta (time_Unix 1002) demoServiceVerified =
      (Some demoGrant, c) \<and>
    fst (service_joined demoHello (Some demoAddr) demoMeta (time_Unix 1003) c) = None"
proof -
  obtain c where c: "service_joined demoHello (Some demoAddr) demoMeta (time_Unix 1002)
      demoServiceVerified = (Some demoGrant, c)" using demo_service_joined by blast
  from service_admission_genuine [OF demoService_new demo_service_run c, of "time_Unix 1003"] c
  show ?thesis by blast
qed

subsection \<open>Revocation\<close>

lemma service_step_denied:
  assumes "service_step pr now a b"
  shows "sas_denied b = sas_denied a \<or> sas_denied b = prune (\<lambda>e. now < e) (sas_denied a) \<or>
    (\<exists>rule e. sas_denied b = AList.update rule e (prune (\<lambda>e. now < e) (sas_denied a)) \<and> now < e \<and>
       (case map_of (prune (\<lambda>e. now < e) (sas_denied a)) rule of
          None \<Rightarrow> length (prune (\<lambda>e. now < e) (sas_denied a)) < maxServiceAdmissionDenyRules
        | Some e0 \<Rightarrow> e0 \<le> e))"
  using assms
proof cases
  case (ss_begin draw pkt addr meta r)
  from service_begin_cases [OF this] show ?thesis
    using service_beginLocked_tables by blast
next
  case ss_proof
  from service_proof_tables [OF this] show ?thesis by blast
next
  case (ss_revoke target until ok)
  from installRevocation_tables [OF this] show ?thesis
    by (elim disjE conjE exE) (simp add: shrinks_def, simp add: shrinks_def, force)
qed (auto dest!: service_shrinking simp: shrinks_def)

text \<open>The deny rules form a map of at most 1024 rules.\<close>

definition deny_inv :: "serviceAdmissionState \<Rightarrow> bool" where
  "deny_inv a \<longleftrightarrow> gomap_wf (sas_denied a) \<and> length (sas_denied a) \<le> maxServiceAdmissionDenyRules"

lemma deny_inv_prune:
  assumes "deny_inv a" "sas_denied b = prune P (sas_denied a)"
  shows "deny_inv b"
  using assms order_trans [OF length_prune, of "sas_denied a" 1024 P] by (auto simp: deny_inv_def)

lemma deny_inv_step: "deny_inv a \<Longrightarrow> service_step pr now a b \<Longrightarrow> deny_inv b"
proof -
  assume inv: "deny_inv a" and step: "service_step pr now a b"
  let ?p = "prune (\<lambda>e. now < e) (sas_denied a)"
  have p: "gomap_wf ?p" "length ?p \<le> 1024"
    using inv order_trans [OF length_prune, of "sas_denied a" 1024] by (auto simp: deny_inv_def)
  have upd: "length (AList.update rule e ?p) \<le> 1024"
    if "case map_of ?p rule of None \<Rightarrow> length ?p < 1024 | Some e0 \<Rightarrow> e0 \<le> e" for rule e
    using that p(2) length_update_mem [OF map_of_in_keys, of ?p rule] length_update_bound [of ?p 1024]
    by (cases "map_of ?p rule") auto
  from service_step_denied [OF step] show ?thesis
    using inv p upd by (auto simp: deny_inv_def)
qed

text \<open>A rule, once there, keeps an expiry at least as late for as long as the clock is below it.\<close>

lemma rule_kept_step:
  assumes wf: "gomap_wf (sas_denied a)" and rule: "map_of (sas_denied a) rule = Some e"
    and step: "service_step pr now a b" and now: "now < e"
  shows "\<exists>e'\<ge>e. map_of (sas_denied b) rule = Some e'"
proof -
  have kept: "map_of (prune (\<lambda>e. now < e) (sas_denied a)) rule = Some e"
    by (rule map_of_prune_keep [OF wf rule]) (rule now)
  from service_step_denied [OF step] show ?thesis
  proof (elim disjE exE conjE)
    fix rule' e'
    assume b: "sas_denied b = AList.update rule' e' (prune (\<lambda>e. now < e) (sas_denied a))"
      and old: "case map_of (prune (\<lambda>e. now < e) (sas_denied a)) rule' of
        None \<Rightarrow> length (prune (\<lambda>e. now < e) (sas_denied a)) < 1024 | Some e0 \<Rightarrow> e0 \<le> e'"
    show ?thesis
    proof (cases "rule' = rule")
      case True
      with b old kept show ?thesis by (simp del: map_of_eq_Some_iff)
    next
      case False
      with b kept show ?thesis by (simp del: map_of_eq_Some_iff)
    qed
  qed (use rule kept in auto)
qed

text \<open>
  The state after a revocation of \<open>target\<close> until \<open>until\<close>: the rule is installed, and nothing it
  matches is pending or verified.
\<close>

definition revoked :: "serviceAdmissionRevocationTarget \<Rightarrow> gotime \<Rightarrow> serviceAdmissionState \<Rightarrow> bool" where
  "revoked target until a \<longleftrightarrow> gomap_wf (sas_denied a) \<and>
     (\<exists>e\<ge>until. map_of (sas_denied a) (target_denyRule target) = Some e) \<and>
     (\<forall>(k, p)\<in>set (sas_pending a). \<not> target_matches target (sak_channelID k) (spa_admission p)) \<and>
     (\<forall>(k, v)\<in>set (sas_verified a). \<not> target_matches target (sak_channelID k) v)"

lemma revoked_denies: "revoked target until a \<Longrightarrow> target_matches target ch adm \<Longrightarrow> deniedLocked a ch adm"
  by (force simp: revoked_def deniedLocked_def rule_matches_target dest: map_of_SomeD)

lemma revoked_step:
  assumes a: "revoked target until a" and step: "service_step pr now a b" and now: "now < until"
  shows "revoked target until b"
proof -
  from a obtain e where e: "until \<le> e" "map_of (sas_denied a) (target_denyRule target) = Some e"
    and wf: "gomap_wf (sas_denied a)" by (auto simp: revoked_def)
  from rule_kept_step [OF wf e(2) step] e(1) now
  have rule: "\<exists>e'\<ge>until. map_of (sas_denied b) (target_denyRule target) = Some e'" by fastforce
  then have denies: "deniedLocked b ch adm" if "target_matches target ch adm" for ch adm
    using that by (force simp: deniedLocked_def rule_matches_target dest: map_of_SomeD)
  have "gomap_wf (sas_denied b)" using service_step_denied [OF step] wf by auto
  moreover have "\<forall>(k, p)\<in>set (sas_pending b). \<not> target_matches target (sak_channelID k) (spa_admission p)"
    using service_step_tables [OF step] a denies by (fastforce simp: revoked_def)
  moreover have "\<forall>(k, v)\<in>set (sas_verified b). \<not> target_matches target (sak_channelID k) v"
    using service_step_tables [OF step] a by (fastforce simp: revoked_def)
  ultimately show ?thesis using rule by (simp add: revoked_def)
qed

interpretation revoked_machine: invariant_machine
  "\<lambda>a b. \<exists>now<until. service_step pr now a b" "revoked target until"
  by unfold_locales (auto intro: revoked_step)

interpretation deny_machine: invariant_machine "\<lambda>a b. \<exists>now. service_step pr now a b" deny_inv
  by unfold_locales (auto intro: deny_inv_step)

lemma revoked_install:
  assumes "gomap_wf (sas_denied a)" "installRevocation (Some a) target until now = (True, Some b)"
  shows "revoked target until b"
  using installRevocation_tables [OF assms(2)] assms(1)
  by (auto simp: revoked_def simp del: map_of_eq_Some_iff)

text \<open>
  C26. A revocation that reports success takes effect at once and stays in effect: until its
  \<open>denyUntil\<close>, through any sequence of begins, proofs, JOINs and further revocations, no admission
  the target matches is pending or verified, no JOIN obtains one, and attaching one to a peer is
  refused.
\<close>

theorem service_revocation_holds:
  assumes new: "newServiceAdmissionState mode issuer audience keys = Inr (Some a0)"
    and before: "steps (\<lambda>x y. \<exists>t. service_step pr t x y) a0 a"
    and install: "installRevocation (Some a) target until now = (True, Some b)"
    and after: "steps (\<lambda>x y. \<exists>t<until. service_step pr t x y) b c"
    and matches: "target_matches target (h_ChannelId (pk_Header pkt)) adm" and t: "t < until"
  shows "(\<forall>k p. (k, p) \<in> set (sas_pending c) \<longrightarrow> \<not> target_matches target (sak_channelID k) (spa_admission p)) \<and>
    (\<forall>d. service_joined pkt addr meta t c \<noteq> (Some adm, d)) \<and>
    \<not> fst (admissionAllowedForMembership (Some c) (h_ChannelId (pk_Header pkt)) adm t)"
proof -
  have "deny_inv a0" using new by (auto simp: newServiceAdmissionState_def deny_inv_def split: if_splits)
  from deny_machine.inv_steps [OF before this] have "gomap_wf (sas_denied a)" by (simp add: deny_inv_def)
  from revoked_machine.inv_steps [OF after revoked_install [OF this install]]
  have c: "revoked target until c" .
  have "service_step pr t c (service_cleanupLocked t c)"
    by (rule ss_rules) (simp add: activeDenyRules_def Let_def)
  from revoked_denies [OF revoked_step [OF c this t] matches]
  have "\<not> fst (admissionAllowedForMembership (Some c) (h_ChannelId (pk_Header pkt)) adm t)"
    by (simp add: admissionAllowedForMembership_def Let_def)
  moreover have "service_joined pkt addr meta t c \<noteq> (Some adm, d)" for d
    using service_joined_Some [of pkt addr meta t c adm d] c matches
    by (fastforce simp: revoked_def serviceKeyForPacket_def)
  ultimately show ?thesis using c by (fastforce simp: revoked_def)
qed

text \<open>The recorder revoked for a thousand seconds.\<close>

definition demoTarget :: serviceAdmissionRevocationTarget where
  "demoTarget = \<lparr>rt_channelID = 5, rt_serviceID = ''rec1'', rt_grantIDHash = None\<rparr>"

definition demoRevoked :: serviceAdmissionState where
  "demoRevoked = demoService\<lparr>sas_denied := [(target_denyRule demoTarget, time_Unix 3000)]\<rparr>"

lemma demo_revoked:
  "installRevocation (Some demoServiceVerified) demoTarget (time_Unix 3000) (time_Unix 1001) =
     (True, Some demoRevoked)"
proof -
  have "time_Unix 1001 < time_Unix 3000" "time_Unix 1001 < time_Unix 2000"
    by (simp_all add: time_Unix_after_iff)
  then show ?thesis
    by (simp add: installRevocation_def service_cleanupLocked_def prune_def demoServiceVerified_def
        demoService_def demoRevoked_def demoTarget_def target_matches_def serviceKeyForPacket_def
        demoHello_def demoGrant_def grantCurrent_def Let_def)
qed

theorem service_revocation_holds_witness:
  "installRevocation (Some demoServiceVerified) demoTarget (time_Unix 3000) (time_Unix 1001) =
     (True, Some demoRevoked) \<and> target_matches demoTarget 5 demoGrant \<and>
   \<not> fst (admissionAllowedForMembership (Some demoRevoked) 5 demoGrant (time_Unix 1002))"
proof -
  have m: "target_matches demoTarget (h_ChannelId (pk_Header demoHello)) demoGrant"
    by (simp add: target_matches_def demoTarget_def demoGrant_def demoHello_def)
  have "time_Unix 1002 < time_Unix 3000" by (simp add: time_Unix_after_iff)
  from service_revocation_holds [OF demoService_new demo_service_run demo_revoked steps_refl m this]
    demo_revoked m
  show ?thesis by (simp add: demoHello_def)
qed

text \<open>
  The deny rules stay within their bound: in every reachable state there are at most 1024, and
  a rule already present is never shortened, not even by a revocation with an earlier end.
\<close>

theorem deny_rules_bounded:
  assumes new: "newServiceAdmissionState mode issuer audience keys = Inr (Some a)"
    and run: "steps (\<lambda>x y. \<exists>t. service_step pr t x y) a b"
    and step: "service_step pr now b c" and rule: "map_of (sas_denied b) r = Some e" and now: "now < e"
  shows "length (sas_denied c) \<le> 1024 \<and> (\<exists>e'\<ge>e. map_of (sas_denied c) r = Some e')"
proof -
  have "deny_inv a" using new by (auto simp: newServiceAdmissionState_def deny_inv_def split: if_splits)
  from deny_machine.inv_steps [OF run this] have b: "deny_inv b" .
  then have wf: "gomap_wf (sas_denied b)" by (simp add: deny_inv_def)
  from deny_inv_step [OF b step] rule_kept_step [OF wf rule step now] show ?thesis
    by (simp add: deny_inv_def)
qed

theorem deny_rules_bounded_witness:
  "\<exists>e'\<ge>time_Unix 3000. map_of (sas_denied demoRevoked) (target_denyRule demoTarget) = Some e' \<and>
     time_Unix 1003 < e'"
proof -
  have run: "steps (\<lambda>x y. \<exists>t. service_step grantPrims t x y) demoService demoRevoked"
    by (rule steps_step [OF demo_service_run]) (rule exI, rule ss_revoke [OF demo_revoked])
  have now: "time_Unix 1003 < time_Unix 3000" by (simp add: time_Unix_after_iff)
  have step: "service_step grantPrims (time_Unix 1003) demoRevoked demoRevoked"
    using now by (intro ss_rules)
      (simp add: activeDenyRules_def service_cleanupLocked_def prune_def demoRevoked_def demoService_def)
  have rule: "map_of (sas_denied demoRevoked) (target_denyRule demoTarget) = Some (time_Unix 3000)"
    by (simp add: demoRevoked_def)
  from deny_rules_bounded [OF demoService_new run step rule now] obtain e' where
    "time_Unix 3000 \<le> e'" "map_of (sas_denied demoRevoked) (target_denyRule demoTarget) = Some e'"
    by blast
  with now show ?thesis by (intro exI [of _ e']) (simp only: order_less_le_trans simp_thms)
qed

end
