(* ===== verification/Diagnostics.thy ===== *)
theory Diagnostics
  imports Relay_Prelude
begin

text \<open>
  The Floor Interrupt counters of relay_diagnostics.go. A counter never passes the largest integer
  a JSON number carries exactly; an observation that would do so starts a new epoch first. Drawing
  the epoch identifier can fail, and then the process panics (\<open>None\<close>).
\<close>

abbreviation (input) relayDiagnosticsCounterMaximum :: u64 where
  "relayDiagnosticsCounterMaximum \<equiv> 9007199254740991"

record relayFloorInterruptCounters =
  fc_PTTRequestsTotal :: u64
  fc_GrantsTotal :: u64
  fc_DenialsTotal :: u64
  fc_PreemptionsTotal :: u64
  fc_UnauthorizedRejectionsTotal :: u64

record relayFloorInterruptCounterDelta =
  fd_pttRequests :: u64
  fd_grants :: u64
  fd_denials :: u64
  fd_preemptions :: u64
  fd_unauthorizedRejections :: u64

record relayDiagnosticsState =
  rd_counterEpoch :: string
  rd_floorInterrupt :: relayFloorInterruptCounters

definition zeroCounters :: relayFloorInterruptCounters where
  "zeroCounters = \<lparr>fc_PTTRequestsTotal = 0, fc_GrantsTotal = 0, fc_DenialsTotal = 0,
     fc_PreemptionsTotal = 0, fc_UnauthorizedRejectionsTotal = 0\<rparr>"

definition newRelayDiagnosticsState :: "string option \<Rightarrow> relayDiagnosticsState option" where
  "newRelayDiagnosticsState epoch =
     map_option (\<lambda>e. \<lparr>rd_counterEpoch = e, rd_floorInterrupt = zeroCounters\<rparr>) epoch"

definition canAdd :: "relayFloorInterruptCounters \<Rightarrow> relayFloorInterruptCounterDelta \<Rightarrow> bool" where
  "canAdd c delta \<longleftrightarrow>
     fd_pttRequests delta \<le> relayDiagnosticsCounterMaximum - fc_PTTRequestsTotal c \<and>
     fd_grants delta \<le> relayDiagnosticsCounterMaximum - fc_GrantsTotal c \<and>
     fd_denials delta \<le> relayDiagnosticsCounterMaximum - fc_DenialsTotal c \<and>
     fd_preemptions delta \<le> relayDiagnosticsCounterMaximum - fc_PreemptionsTotal c \<and>
     fd_unauthorizedRejections delta \<le>
       relayDiagnosticsCounterMaximum - fc_UnauthorizedRejectionsTotal c"

definition addCounters ::
  "relayFloorInterruptCounters \<Rightarrow> relayFloorInterruptCounterDelta \<Rightarrow> relayFloorInterruptCounters" where
  "addCounters c delta =
     \<lparr>fc_PTTRequestsTotal = fc_PTTRequestsTotal c + fd_pttRequests delta,
      fc_GrantsTotal = fc_GrantsTotal c + fd_grants delta,
      fc_DenialsTotal = fc_DenialsTotal c + fd_denials delta,
      fc_PreemptionsTotal = fc_PreemptionsTotal c + fd_preemptions delta,
      fc_UnauthorizedRejectionsTotal =
        fc_UnauthorizedRejectionsTotal c + fd_unauthorizedRejections delta\<rparr>"

definition observeFloorInterrupt ::
  "string option \<Rightarrow> relayFloorInterruptCounterDelta \<Rightarrow> relayDiagnosticsState \<Rightarrow>
   relayDiagnosticsState option" where
  "observeFloorInterrupt epoch delta d =
     (if canAdd (rd_floorInterrupt d) delta
      then Some (d\<lparr>rd_floorInterrupt := addCounters (rd_floorInterrupt d) delta\<rparr>)
      else case epoch of
        None \<Rightarrow> None
      | Some e \<Rightarrow> Some \<lparr>rd_counterEpoch = e, rd_floorInterrupt = addCounters zeroCounters delta\<rparr>)"

definition diagnostics_snapshot ::
  "relayDiagnosticsState \<Rightarrow> string \<times> relayFloorInterruptCounters" where
  "diagnostics_snapshot d = (rd_counterEpoch d, rd_floorInterrupt d)"

definition diagnostics_snapshotEpochOnly ::
  "relayDiagnosticsState \<Rightarrow> string \<times> relayFloorInterruptCounters" where
  "diagnostics_snapshotEpochOnly d = (rd_counterEpoch d, zeroCounters)"

subsection \<open>Bounds\<close>

definition counters_bounded :: "relayFloorInterruptCounters \<Rightarrow> bool" where
  "counters_bounded c \<longleftrightarrow>
     fc_PTTRequestsTotal c \<le> relayDiagnosticsCounterMaximum \<and>
     fc_GrantsTotal c \<le> relayDiagnosticsCounterMaximum \<and>
     fc_DenialsTotal c \<le> relayDiagnosticsCounterMaximum \<and>
     fc_PreemptionsTotal c \<le> relayDiagnosticsCounterMaximum \<and>
     fc_UnauthorizedRejectionsTotal c \<le> relayDiagnosticsCounterMaximum"

definition unit_delta :: "relayFloorInterruptCounterDelta \<Rightarrow> bool" where
  "unit_delta d \<longleftrightarrow> fd_pttRequests d \<le> 1 \<and> fd_grants d \<le> 1 \<and> fd_denials d \<le> 1 \<and>
     fd_preemptions d \<le> 1 \<and> fd_unauthorizedRejections d \<le> 1"

lemma add_within:
  fixes c d m :: u64
  assumes "c \<le> m" "d \<le> m - c"
  shows "c + d \<le> m \<and> unat (c + d) = unat c + unat d"
proof -
  have "unat d \<le> unat m - unat c"
    using assms by (simp add: word_le_nat_alt unat_sub)
  moreover have "unat c \<le> unat m" using assms(1) by (simp add: word_le_nat_alt)
  ultimately have sum: "unat c + unat d \<le> unat m" by linarith
  then have "unat c + unat d < 2 ^ 64" using unat_less_exp [of m] by simp
  then have "unat (c + d) = unat c + unat d" by (simp add: unat_word_ariths)
  with sum show ?thesis by (simp add: word_le_nat_alt)
qed

lemma addCounters_bounded:
  "counters_bounded c \<Longrightarrow> canAdd c delta \<Longrightarrow> counters_bounded (addCounters c delta)"
  by (simp add: counters_bounded_def canAdd_def addCounters_def add_within)

lemma unit_delta_fits: "unit_delta delta \<Longrightarrow> counters_bounded (addCounters zeroCounters delta)"
proof -
  have one: "x \<le> 9007199254740991" if "x \<le> 1" for x :: u64
    using that by (rule order_trans) simp
  show "unit_delta delta \<Longrightarrow> counters_bounded (addCounters zeroCounters delta)"
    by (simp add: counters_bounded_def addCounters_def zeroCounters_def unit_delta_def one)
qed

text \<open>
  The Floor Interrupt counters stay JSON-safe: whatever a single request adds, no counter
  exceeds 9007199254740991 after it. Either every counter grows by exactly its delta within the
  same epoch, with no wrap-around, or a fresh epoch starts from the delta alone; and an observation
  fails only if a new epoch is needed and no identifier can be drawn.
\<close>

theorem diagnostics_bounded:
  assumes "counters_bounded (rd_floorInterrupt d)" and "unit_delta delta"
  shows "(case observeFloorInterrupt epoch delta d of
      None \<Rightarrow> epoch = None \<and> \<not> canAdd (rd_floorInterrupt d) delta
    | Some d' \<Rightarrow> counters_bounded (rd_floorInterrupt d') \<and>
        (if canAdd (rd_floorInterrupt d) delta
         then rd_counterEpoch d' = rd_counterEpoch d \<and>
           unat (fc_PTTRequestsTotal (rd_floorInterrupt d')) =
             unat (fc_PTTRequestsTotal (rd_floorInterrupt d)) + unat (fd_pttRequests delta) \<and>
           unat (fc_PreemptionsTotal (rd_floorInterrupt d')) =
             unat (fc_PreemptionsTotal (rd_floorInterrupt d)) + unat (fd_preemptions delta)
         else epoch = Some (rd_counterEpoch d') \<and>
           rd_floorInterrupt d' = addCounters zeroCounters delta))"
proof (cases "canAdd (rd_floorInterrupt d) delta")
  case True
  with addCounters_bounded [OF assms(1) True] assms(1) show ?thesis
    by (simp add: observeFloorInterrupt_def)
      (simp add: addCounters_def counters_bounded_def canAdd_def
        add_within [of _ relayDiagnosticsCounterMaximum])
next
  case False
  with unit_delta_fits [OF assms(2)] show ?thesis
    by (simp add: observeFloorInterrupt_def split: option.split)
qed

definition fullCounters :: relayDiagnosticsState where
  "fullCounters = \<lparr>rd_counterEpoch = ''e1'', rd_floorInterrupt =
     zeroCounters\<lparr>fc_PTTRequestsTotal := relayDiagnosticsCounterMaximum\<rparr>\<rparr>"

definition oneRequest :: relayFloorInterruptCounterDelta where
  "oneRequest = \<lparr>fd_pttRequests = 1, fd_grants = 1, fd_denials = 0, fd_preemptions = 0,
     fd_unauthorizedRejections = 0\<rparr>"

theorem diagnostics_bounded_witness:
  "\<exists>d'. observeFloorInterrupt (Some ''e2'') oneRequest fullCounters = Some d' \<and>
     counters_bounded (rd_floorInterrupt d') \<and> rd_counterEpoch d' = ''e2'' \<and>
     rd_floorInterrupt d' = addCounters zeroCounters oneRequest"
proof -
  have "counters_bounded (rd_floorInterrupt fullCounters)" "unit_delta oneRequest"
    "\<not> canAdd (rd_floorInterrupt fullCounters) oneRequest"
    by (simp_all add: counters_bounded_def fullCounters_def zeroCounters_def unit_delta_def
        oneRequest_def canAdd_def)
  with diagnostics_bounded [of fullCounters oneRequest "Some ''e2''"] show ?thesis
    by (cases "observeFloorInterrupt (Some ''e2'') oneRequest fullCounters") auto
qed

end
