(* ===== verification/Relay_State.thy ===== *)
theory Relay_State
  imports Service_Admission Diagnostics
begin

text \<open>
  The state of the Relay (main.go: \<^verbatim>\<open>peer\<close>, \<^verbatim>\<open>codecConfigState\<close>, \<^verbatim>\<open>channel\<close>, \<^verbatim>\<open>server\<close>), its
  construction and configuration, and everything that sends: sequence numbers, the per-peer choice
  between clear and authenticated control packets, unicast and broadcast. The socket is an outbox
  that grows by the datagrams written; a send error is only logged by the code. The calls into the
  management plane and the private control link (lifecycle events, audit records) are recorded in
  three further lists. Each critical section is one definition that maps the server before it to the
  server after it.
\<close>

subsection \<open>Records\<close>

definition defaultMembershipLease :: duration where "defaultMembershipLease = 30 * Second"
definition defaultKeepaliveInterval :: duration where "defaultKeepaliveInterval = 10 * Second"
definition minimumMembershipLease :: duration where "minimumMembershipLease = 15 * Second"
definition maximumMembershipLease :: duration where "maximumMembershipLease = 300 * Second"
definition minimumKeepaliveInterval :: duration where "minimumKeepaliveInterval = Second"

record peer =
  p_senderId :: u32
  p_addr :: "udpaddr option"
  p_lastSeen :: gotime
  p_authenticated :: bool
  p_controlSessionID :: u32
  p_controlKeyID :: u32
  p_controlHighest :: u32
  p_controlSeenWindow :: u64
  p_identityAdmission :: "identityAdmission option"
  p_serviceAdmission :: "serviceAdmission option"
  p_membershipLease :: duration
  p_keepaliveInterval :: duration
  p_membershipDeadline :: gotime

text \<open>\<^verbatim>\<open>&peer{addr: addr}\<close>.\<close>

definition newPeer :: "udpaddr option \<Rightarrow> peer" where
  "newPeer addr = \<lparr>p_senderId = 0, p_addr = addr, p_lastSeen = 0, p_authenticated = False,
     p_controlSessionID = 0, p_controlKeyID = 0, p_controlHighest = 0, p_controlSeenWindow = 0,
     p_identityAdmission = None, p_serviceAdmission = None, p_membershipLease = 0,
     p_keepaliveInterval = 0, p_membershipDeadline = 0\<rparr>"

record codecConfigState =
  cc_payload :: bytes
  cc_mediaNonceBase :: bytes
  cc_mediaKeyID :: u32
  cc_controlKeyID :: u32

definition zeroCodecConfig :: codecConfigState where
  "zeroCodecConfig = \<lparr>cc_payload = [], cc_mediaNonceBase = zeroBase, cc_mediaKeyID = 0,
     cc_controlKeyID = 0\<rparr>"

record channel =
  ch_peers :: "(endpointKey option, peer) gomap"
  ch_activeTalkers :: "(u32, gotime) gomap"
  ch_codecConfigs :: "(u32, bytes) gomap"
  ch_mediaCodecConfigs :: "(u32, codecConfigState) gomap"

definition newChannel :: channel where
  "newChannel = \<lparr>ch_peers = [], ch_activeTalkers = [], ch_codecConfigs = [],
     ch_mediaCodecConfigs = []\<rparr>"

text \<open>One call of \<^verbatim>\<open>publishManagementEvent\<close> and one of \<^verbatim>\<open>publishFloorInterruptAudit\<close>.\<close>

record relayEvent =
  ev_type :: string
  ev_channelID :: u32
  ev_senderID :: u32
  ev_serviceID :: "string option"
  ev_reason :: "string option"

record floorAudit =
  fa_actorType :: string
  fa_actorID :: string
  fa_channelID :: u32
  fa_requesterPriority :: u8
  fa_result :: string
  fa_replaced :: "(u32 \<times> u8) option"

record server =
  s_channels :: "(u32, channel) gomap"
  s_noCrypto :: bool
  s_sizeWindowStart :: gotime
  s_sizeWindowMax :: int
  s_sizeWindowMaxType :: u8
  s_sizeWindowMaxCh :: u32
  s_sizeWindowMaxSender :: u32
  s_sizeWindowOverWarn :: int
  s_lastWarnLog :: gotime
  s_talkMax :: duration
  s_multiTalk :: bool
  s_maxActiveTalkers :: int
  s_controlAuth :: "controlAuthState option"
  s_identityAdmission :: "identityAdmissionState option"
  s_serviceAdmission :: "serviceAdmissionState option"
  s_management :: bool
  s_privateControl :: bool
  s_diagnostics :: relayDiagnosticsState
  s_floorInterrupt :: bool
  s_membershipLease :: duration
  s_keepaliveInterval :: duration
  s_outboundSeq :: u16
  s_outbox :: "(udpaddr option \<times> bytes) list"
  s_events :: "relayEvent list"
  s_audits :: "floorAudit list"
  s_managementAudits :: "(string \<times> u32) list"

subsection \<open>Construction and configuration\<close>

definition newServer ::
  "gotime \<Rightarrow> relayDiagnosticsState \<Rightarrow> bool \<Rightarrow> duration \<Rightarrow> bool \<Rightarrow> int \<Rightarrow> server" where
  "newServer now diagnostics noCrypto talkMax multiTalk maxActiveTalkers =
     (let low = (if maxActiveTalkers < 1 then 1 else maxActiveTalkers);
          limit = (if maxActiveTalkersV1 < low then maxActiveTalkersV1 else low)
      in \<lparr>s_channels = [], s_noCrypto = noCrypto, s_sizeWindowStart = now, s_sizeWindowMax = 0,
          s_sizeWindowMaxType = 0, s_sizeWindowMaxCh = 0, s_sizeWindowMaxSender = 0,
          s_sizeWindowOverWarn = 0, s_lastWarnLog = 0, s_talkMax = talkMax, s_multiTalk = multiTalk,
          s_maxActiveTalkers = limit, s_controlAuth = None, s_identityAdmission = None,
          s_serviceAdmission = None, s_management = False, s_privateControl = False, s_diagnostics = diagnostics,
          s_floorInterrupt = False, s_membershipLease = defaultMembershipLease,
          s_keepaliveInterval = defaultKeepaliveInterval, s_outboundSeq = 0, s_outbox = [],
          s_events = [], s_audits = [], s_managementAudits = []\<rparr>)"

definition configureControlAuth :: "controlAuthState option \<Rightarrow> server \<Rightarrow> server" where
  "configureControlAuth state s = s\<lparr>s_controlAuth := state\<rparr>"

definition configureIdentityAdmission :: "identityAdmissionState option \<Rightarrow> bool \<Rightarrow> server \<Rightarrow> server" where
  "configureIdentityAdmission state floorInterrupt s =
     s\<lparr>s_identityAdmission := state, s_floorInterrupt := floorInterrupt\<rparr>"

definition configureServiceAdmission :: "serviceAdmissionState option \<Rightarrow> server \<Rightarrow> server" where
  "configureServiceAdmission state s = s\<lparr>s_serviceAdmission := state\<rparr>"

text \<open>Both durations are positive where \<^verbatim>\<open>%\<close> and \<^verbatim>\<open>/\<close> are reached with effect, so Euclidean division agrees.\<close>

definition validMembershipTiming :: "duration \<Rightarrow> duration \<Rightarrow> bool" where
  "validMembershipTiming lease keepalive =
     (if lease < minimumMembershipLease \<or> maximumMembershipLease < lease \<or> lease mod Second \<noteq> 0 \<or>
         keepalive < minimumKeepaliveInterval \<or> keepalive mod Second \<noteq> 0
      then False else keepalive \<le> lease div 3)"

definition configureMembershipTiming :: "duration \<Rightarrow> duration \<Rightarrow> server \<Rightarrow> server option" where
  "configureMembershipTiming lease keepalive s =
     (if \<not> validMembershipTiming lease keepalive then None
      else Some (s\<lparr>s_membershipLease := lease, s_keepaliveInterval := keepalive\<rparr>))"

definition nextRelaySequence :: "server \<Rightarrow> u16 \<times> server" where
  "nextRelaySequence s = (s_outboundSeq s, s\<lparr>s_outboundSeq := s_outboundSeq s + 1\<rparr>)"

definition controlAuthRequired :: "server \<Rightarrow> u32 \<Rightarrow> bool" where
  "controlAuthRequired s channelID = controlAuth_requires (s_controlAuth s) channelID"

definition requiresAESGCMV2MediaProfile :: "server \<Rightarrow> bool" where
  "requiresAESGCMV2MediaProfile s =
     (case s_controlAuth s of None \<Rightarrow> False | Some a \<Rightarrow> ca_policy a = controlAuthPolicy.controlAuthRequired)"

subsection \<open>Channels and peers\<close>

definition chan :: "server \<Rightarrow> u32 \<Rightarrow> channel option" where
  "chan s channelId = map_of (s_channels s) channelId"

definition setChan :: "u32 \<Rightarrow> channel \<Rightarrow> server \<Rightarrow> server" where
  "setChan channelId ch s = s\<lparr>s_channels := AList.update channelId ch (s_channels s)\<rparr>"

text \<open>A channel whose last peer is gone is deleted.\<close>

definition setOrDropChan :: "u32 \<Rightarrow> channel \<Rightarrow> server \<Rightarrow> server" where
  "setOrDropChan channelId ch s =
     (if ch_peers ch = [] then s\<lparr>s_channels := AList.delete channelId (s_channels s)\<rparr>
      else setChan channelId ch s)"

definition peerAt :: "channel \<Rightarrow> udpaddr option \<Rightarrow> peer option" where
  "peerAt ch addr = map_of (ch_peers ch) (peerMapKey addr)"

definition setPeer :: "udpaddr option \<Rightarrow> peer \<Rightarrow> channel \<Rightarrow> channel" where
  "setPeer addr p ch = ch\<lparr>ch_peers := AList.update (peerMapKey addr) p (ch_peers ch)\<rparr>"

definition getOrCreateChannel :: "u32 \<Rightarrow> server \<Rightarrow> channel \<times> server" where
  "getOrCreateChannel channelId s =
     (case chan s channelId of
        Some ch \<Rightarrow> (ch, s)
      | None \<Rightarrow> (newChannel, setChan channelId newChannel s))"

definition sortedActiveTalkers :: "channel option \<Rightarrow> u32 list" where
  "sortedActiveTalkers ch =
     (case ch of None \<Rightarrow> [] | Some c \<Rightarrow> sort (map fst (ch_activeTalkers c)))"

definition firstActiveTalker :: "channel option \<Rightarrow> u32" where
  "firstActiveTalker ch = (case sortedActiveTalkers ch of [] \<Rightarrow> 0 | t # _ \<Rightarrow> t)"

lemma chan_setChan [simp]: "chan (setChan c ch s) = (chan s)(c \<mapsto> ch)"
  by (simp add: chan_def setChan_def fun_eq_iff)

lemma chan_setOrDropChan [simp]:
  "chan (setOrDropChan c ch s) = (chan s)(c := if ch_peers ch = [] then None else Some ch)"
  by (simp add: chan_def setOrDropChan_def setChan_def fun_eq_iff)

text \<open>The fields outside the channel table.\<close>

lemma setChan_frame [simp, relay_frame]:
  "s_noCrypto (setChan c ch s) = s_noCrypto s" "s_talkMax (setChan c ch s) = s_talkMax s"
  "s_multiTalk (setChan c ch s) = s_multiTalk s"
  "s_maxActiveTalkers (setChan c ch s) = s_maxActiveTalkers s"
  "s_controlAuth (setChan c ch s) = s_controlAuth s"
  "s_identityAdmission (setChan c ch s) = s_identityAdmission s"
  "s_serviceAdmission (setChan c ch s) = s_serviceAdmission s"
  "s_membershipLease (setChan c ch s) = s_membershipLease s"
  "s_keepaliveInterval (setChan c ch s) = s_keepaliveInterval s"
  "s_floorInterrupt (setChan c ch s) = s_floorInterrupt s"
  "s_diagnostics (setChan c ch s) = s_diagnostics s"
  "s_outbox (setChan c ch s) = s_outbox s"
  "s_events (setChan c ch s) = s_events s"
  by (simp_all add: setChan_def)

lemma setOrDropChan_frame [simp, relay_frame]:
  "s_multiTalk (setOrDropChan c ch s) = s_multiTalk s"
  "s_talkMax (setOrDropChan c ch s) = s_talkMax s"
  "s_maxActiveTalkers (setOrDropChan c ch s) = s_maxActiveTalkers s"
  "s_controlAuth (setOrDropChan c ch s) = s_controlAuth s"
  "s_identityAdmission (setOrDropChan c ch s) = s_identityAdmission s"
  "s_serviceAdmission (setOrDropChan c ch s) = s_serviceAdmission s"
  "s_membershipLease (setOrDropChan c ch s) = s_membershipLease s"
  "s_outbox (setOrDropChan c ch s) = s_outbox s"
  by (simp_all add: setOrDropChan_def setChan_def)

lemma controlAuthRequired_setChan [simp]:
  "controlAuthRequired (setChan c ch s) = controlAuthRequired s"
  by (simp add: controlAuthRequired_def fun_eq_iff)

lemma peerAt_setPeer [simp]:
  "peerAt (setPeer a p ch) b = (if peerMapKey b = peerMapKey a then Some p else peerAt ch b)"
  by (simp add: peerAt_def setPeer_def)

lemma setPeer_frame [simp, relay_frame]:
  "ch_activeTalkers (setPeer a p ch) = ch_activeTalkers ch"
  "ch_codecConfigs (setPeer a p ch) = ch_codecConfigs ch"
  "ch_mediaCodecConfigs (setPeer a p ch) = ch_mediaCodecConfigs ch"
  by (simp_all add: setPeer_def)

subsection \<open>Sending\<close>

definition WriteToUDP :: "bytes \<Rightarrow> udpaddr option \<Rightarrow> server \<Rightarrow> server" where
  "WriteToUDP packet addr s = s\<lparr>s_outbox := s_outbox s @ [(addr, packet)]\<rparr>"

definition publishManagementEvent ::
  "string \<Rightarrow> u32 \<Rightarrow> u32 \<Rightarrow> string option \<Rightarrow> string option \<Rightarrow> server \<Rightarrow> server" where
  "publishManagementEvent eventType channelID senderID serviceID reason s =
     s\<lparr>s_events := s_events s @ [\<lparr>ev_type = eventType, ev_channelID = channelID,
         ev_senderID = senderID, ev_serviceID = serviceID, ev_reason = reason\<rparr>]\<rparr>"

text \<open>A successful entry of the Relay in the management plane's audit log, if there is one.\<close>

definition appendManagementAudit :: "string \<Rightarrow> u32 \<Rightarrow> server \<Rightarrow> server" where
  "appendManagementAudit action channelID s =
     (if s_management s then s\<lparr>s_managementAudits := s_managementAudits s @ [(action, channelID)]\<rparr> else s)"

text \<open>The authenticated packet for one key, with the nonce and the sequence number it takes; nil is [].\<close>

definition authenticatedPacket ::
  "prims \<Rightarrow> u8 \<Rightarrow> u32 \<Rightarrow> u32 \<Rightarrow> bytes \<Rightarrow> u32 \<Rightarrow> server \<Rightarrow> bytes \<times> server" where
  "authenticatedPacket pr packetType channelID senderID payload keyID s =
     (case s_controlAuth s of
        None \<Rightarrow> ([], s)
      | Some a \<Rightarrow>
        let key = controlAuth_key (s_controlAuth s) channelID keyID in
        if length key \<noteq> 32 then ([], s)
        else (case nextRelayNonce a of
            (None, a') \<Rightarrow> ([], s\<lparr>s_controlAuth := Some a'\<rparr>)
          | (Some nonce, a') \<Rightarrow>
              let (sequence, s1) = nextRelaySequence (s\<lparr>s_controlAuth := Some a'\<rparr>)
              in (buildAuthenticatedControlPacketWithSeq pr packetType channelID senderID payload keyID
                    key nonce sequence, s1)))"

definition sendAuthenticatedControl ::
  "prims \<Rightarrow> udpaddr option \<Rightarrow> u32 \<Rightarrow> u32 \<Rightarrow> u32 \<Rightarrow> u8 \<Rightarrow> bytes \<Rightarrow> server \<Rightarrow> server" where
  "sendAuthenticatedControl pr addr channelID senderID keyID packetType payload s =
     (if s_controlAuth s = None \<or> addr = None then s
      else let (packet, s1) = authenticatedPacket pr packetType channelID senderID payload keyID s
           in if packet = [] then s1 else WriteToUDP packet addr s1)"

definition sendAuthenticatedChallenge ::
  "prims \<Rightarrow> udpaddr option \<Rightarrow> u32 \<Rightarrow> u32 \<Rightarrow> u32 \<Rightarrow> bytes \<Rightarrow> server \<Rightarrow> server" where
  "sendAuthenticatedChallenge pr addr channelID senderID keyID payload s =
     sendAuthenticatedControl pr addr channelID senderID keyID pktAuthChallenge payload s"

definition relayControlForPeer ::
  "prims \<Rightarrow> u32 \<Rightarrow> peer option \<Rightarrow> u8 \<Rightarrow> u32 \<Rightarrow> bytes \<Rightarrow> server \<Rightarrow> bytes \<times> server" where
  "relayControlForPeer pr channelID target packetType senderID payload s =
     (if \<not> controlAuthRequired s channelID
      then let (sequence, s1) = nextRelaySequence s
           in (buildRelayControlPacket packetType channelID senderID payload (s_noCrypto s) sequence, s1)
      else case target of
        None \<Rightarrow> ([], s)
      | Some p \<Rightarrow>
          if \<not> p_authenticated p then ([], s)
          else authenticatedPacket pr packetType channelID senderID payload (p_controlKeyID p) s)"

definition relayCodecConfigForPeer ::
  "prims \<Rightarrow> u32 \<Rightarrow> peer option \<Rightarrow> u32 \<Rightarrow> codecConfigState \<Rightarrow> server \<Rightarrow> bytes \<times> server" where
  "relayCodecConfigForPeer pr channelID target senderID config s =
     (if \<not> controlAuthRequired s channelID
      then let (sequence, s1) = nextRelaySequence s
           in (buildRelayControlPacket pktCodecConfig channelID senderID (cc_payload config)
                 (s_noCrypto s) sequence, s1)
      else case target of
        None \<Rightarrow> ([], s)
      | Some p \<Rightarrow>
          if \<not> p_authenticated p \<or> cc_controlKeyID config = 0 then ([], s)
          else authenticatedPacket pr pktCodecConfig channelID senderID (cc_payload config)
                 (cc_controlKeyID config) s)"

text \<open>The loop that builds one packet per peer and writes the non-empty ones.\<close>

fun sendEach :: "(peer option \<Rightarrow> server \<Rightarrow> bytes \<times> server) \<Rightarrow> peer list \<Rightarrow> server \<Rightarrow> server" where
  "sendEach build [] s = s"
| "sendEach build (p # ps) s =
     (let (packet, s1) = build (Some p) s
      in sendEach build ps (if packet = [] then s1 else WriteToUDP packet (p_addr p) s1))"

definition peersOf :: "channel option \<Rightarrow> peer list" where
  "peersOf ch = (case ch of None \<Rightarrow> [] | Some c \<Rightarrow> map snd (ch_peers c))"

definition sendRelayCodecConfig :: "prims \<Rightarrow> u32 \<Rightarrow> u32 \<Rightarrow> codecConfigState \<Rightarrow> server \<Rightarrow> server" where
  "sendRelayCodecConfig pr channelID senderID config s =
     sendEach (\<lambda>p. relayCodecConfigForPeer pr channelID p senderID config) (peersOf (chan s channelID)) s"

definition sendRelayCodecConfigTo ::
  "prims \<Rightarrow> u32 \<Rightarrow> u32 \<Rightarrow> u32 \<Rightarrow> codecConfigState \<Rightarrow> server \<Rightarrow> server" where
  "sendRelayCodecConfigTo pr channelID targetSenderID senderID config s =
     sendEach (\<lambda>p. relayCodecConfigForPeer pr channelID p senderID config)
       (filter (\<lambda>p. p_senderId p = targetSenderID) (peersOf (chan s channelID))) s"

definition sendRelayControlTo ::
  "prims \<Rightarrow> u32 \<Rightarrow> u32 \<Rightarrow> u8 \<Rightarrow> u32 \<Rightarrow> bytes \<Rightarrow> server \<Rightarrow> server" where
  "sendRelayControlTo pr channelID targetSenderID packetType senderID payload s =
     sendEach (\<lambda>p. relayControlForPeer pr channelID p packetType senderID payload)
       (filter (\<lambda>p. p_senderId p = targetSenderID) (peersOf (chan s channelID))) s"

definition broadcastRelayControl ::
  "prims \<Rightarrow> u32 \<Rightarrow> u8 \<Rightarrow> u32 \<Rightarrow> bytes \<Rightarrow> server \<Rightarrow> server" where
  "broadcastRelayControl pr channelID packetType senderID payload s =
     sendEach (\<lambda>p. relayControlForPeer pr channelID p packetType senderID payload)
       (peersOf (chan s channelID)) s"

text \<open>Raw datagrams to all peers, to all but one endpoint, or to the endpoints of a sender.\<close>

definition broadcast :: "u32 \<Rightarrow> bytes \<Rightarrow> server \<Rightarrow> server" where
  "broadcast channelId data s =
     foldl (\<lambda>s p. WriteToUDP data (p_addr p) s) s (peersOf (chan s channelId))"

definition broadcastExceptAddr :: "u32 \<Rightarrow> udpaddr option \<Rightarrow> bytes \<Rightarrow> server \<Rightarrow> server" where
  "broadcastExceptAddr channelId excludeAddr data s =
     (case chan s channelId of
        None \<Rightarrow> s
      | Some ch \<Rightarrow>
          foldl (\<lambda>s p. WriteToUDP data (p_addr p) s) s
            (map snd (filter (\<lambda>(key, p). \<not> (peerMapKey excludeAddr \<noteq> None \<and> key = peerMapKey excludeAddr))
               (ch_peers ch))))"

definition sendTo :: "u32 \<Rightarrow> u32 \<Rightarrow> bytes \<Rightarrow> server \<Rightarrow> server" where
  "sendTo channelId senderId data s =
     foldl (\<lambda>s p. WriteToUDP data (p_addr p) s) s
       (filter (\<lambda>p. p_senderId p = senderId) (peersOf (chan s channelId)))"

definition sendPong :: "prims \<Rightarrow> udpaddr option \<Rightarrow> u32 \<Rightarrow> u32 \<Rightarrow> bytes \<Rightarrow> server \<Rightarrow> server" where
  "sendPong pr addr channelId senderId nonce s =
     (if addr = None \<or> length nonce \<noteq> 8 then s
      else if \<not> controlAuthRequired s channelId
      then let (sequence, s1) = nextRelaySequence s
           in WriteToUDP (buildRelayControlPacket pktPong channelId senderId nonce (s_noCrypto s) sequence)
                addr s1
      else let target = (case chan s channelId of None \<Rightarrow> None | Some ch \<Rightarrow> peerAt ch addr);
               (packet, s1) = relayControlForPeer pr channelId target pktPong senderId nonce s
           in if packet = [] then s1 else WriteToUDP packet addr s1)"

subsection \<open>What sending leaves alone\<close>

text \<open>
  Two servers agree on their core when they differ at most in what a send touches: the nonce
  domain, the sequence number, the outbox and the two records of published calls.
\<close>

definition auth_view :: "controlAuthState option \<Rightarrow> (controlAuthPolicy \<times> controlKeyStore \<times> bytes \<times>
    (authChallengeKey, gotime) gomap \<times> (provisionalReplayKey, provisionalReplayState) gomap) option" where
  "auth_view = map_option (\<lambda>a. (ca_policy a, ca_keys a, ca_cookieSecret a, ca_challenges a, ca_provisional a))"

definition core_eq :: "server \<Rightarrow> server \<Rightarrow> bool" where
  "core_eq s t \<longleftrightarrow> s_channels t = s_channels s \<and> s_noCrypto t = s_noCrypto s \<and>
     s_talkMax t = s_talkMax s \<and> s_multiTalk t = s_multiTalk s \<and>
     s_maxActiveTalkers t = s_maxActiveTalkers s \<and> auth_view (s_controlAuth t) = auth_view (s_controlAuth s) \<and>
     s_identityAdmission t = s_identityAdmission s \<and> s_serviceAdmission t = s_serviceAdmission s \<and>
     s_management t = s_management s \<and> s_privateControl t = s_privateControl s \<and> s_diagnostics t = s_diagnostics s \<and>
     s_floorInterrupt t = s_floorInterrupt s \<and> s_membershipLease t = s_membershipLease s \<and>
     s_keepaliveInterval t = s_keepaliveInterval s"

lemma core_eq_refl [simp, relay_frame]: "core_eq s s"
  by (simp add: core_eq_def)

lemma core_eq_trans: "core_eq s t \<Longrightarrow> core_eq t u \<Longrightarrow> core_eq s u"
  by (simp add: core_eq_def)

lemma core_eq_chan: "core_eq s t \<Longrightarrow> chan t = chan s"
  by (simp add: core_eq_def chan_def fun_eq_iff)

lemma controlAuthRequired_view:
  "auth_view (s_controlAuth t) = auth_view (s_controlAuth s) \<Longrightarrow> controlAuthRequired t = controlAuthRequired s"
  by (cases "s_controlAuth s"; cases "s_controlAuth t")
    (simp_all add: fun_eq_iff controlAuthRequired_def controlAuth_requires_def auth_view_def
      split: controlAuthPolicy.split)

lemma nextRelayNonce_view: "nextRelayNonce a = (r, a') \<Longrightarrow> auth_view (Some a') = auth_view (Some a)"
proof -
  have loop: "newRelayInstanceIDLoop n a = (q, b) \<Longrightarrow> auth_view (Some b) = auth_view (Some a)" for n q a b
    by (induction n arbitrary: a) (fastforce simp: auth_view_def Let_def split: option.splits if_splits)+
  assume "nextRelayNonce a = (r, a')"
  then show ?thesis
    using loop [of 32 a]
    by (auto simp: nextRelayNonce_def newRelayInstanceIDLocked_def auth_view_def Let_def
        split: if_splits option.splits prod.splits)
qed

lemma pending_inv_view: "auth_view (Some a) = auth_view (Some b) \<Longrightarrow> pending_inv a = pending_inv b"
  by (simp add: auth_view_def pending_inv_def)

lemma core_eq_Write [simp, relay_frame]: "core_eq s (WriteToUDP d a t) = core_eq s t"
  by (simp add: core_eq_def WriteToUDP_def)

lemma core_eq_publish [simp, relay_frame]: "core_eq s (publishManagementEvent e c i v r t) = core_eq s t"
  by (simp add: core_eq_def publishManagementEvent_def)

lemma core_eq_appendManagementAudit [simp, relay_frame]:
  "core_eq s (appendManagementAudit a c t) = core_eq s t"
  by (simp add: core_eq_def appendManagementAudit_def)

lemma core_eq_authenticatedPacket: "core_eq s (snd (authenticatedPacket pr t c i p k s))"
proof (cases "s_controlAuth s")
  case (Some a)
  obtain r a' where n: "nextRelayNonce a = (r, a')" by fastforce
  from nextRelayNonce_view [OF n] show ?thesis
    by (cases r) (simp_all add: authenticatedPacket_def Some n core_eq_def nextRelaySequence_def Let_def)
qed (simp add: authenticatedPacket_def)

lemma core_eq_sequence: "core_eq s (snd (nextRelaySequence s))"
  by (simp add: nextRelaySequence_def core_eq_def)

lemma core_eq_sendAuthenticatedControl [simp, relay_frame]:
  "core_eq s (sendAuthenticatedControl pr a c i k t p s)"
  using core_eq_authenticatedPacket [of s pr t c i p k]
  by (simp add: sendAuthenticatedControl_def split_beta)

lemma core_eq_sendAuthenticatedChallenge [simp, relay_frame]:
  "core_eq s (sendAuthenticatedChallenge pr a c i k p s)"
  by (simp add: sendAuthenticatedChallenge_def)

lemma core_eq_relayControlForPeer: "core_eq s (snd (relayControlForPeer pr c p t i q s))"
  using core_eq_authenticatedPacket core_eq_sequence
  by (simp add: relayControlForPeer_def Let_def split_beta split: option.split)

lemma core_eq_relayCodecConfigForPeer: "core_eq s (snd (relayCodecConfigForPeer pr c p i q s))"
  using core_eq_authenticatedPacket core_eq_sequence
  by (simp add: relayCodecConfigForPeer_def Let_def split_beta split: option.split)

lemma core_eq_sendEach:
  assumes "\<And>p s. core_eq s (snd (build p s))"
  shows "core_eq s (sendEach build ps s)"
proof (induction ps arbitrary: s)
  case (Cons p ps)
  show ?case
    using core_eq_trans [OF assms [of s "Some p"]] Cons.IH
      core_eq_trans [of s "WriteToUDP (fst (build (Some p) s)) (p_addr p) (snd (build (Some p) s))"] assms
    by (simp add: split_beta)
qed simp

lemma core_eq_sends [simp, relay_frame]:
  "core_eq s (broadcastRelayControl pr c t i p s)"
  "core_eq s (sendRelayControlTo pr c w t i p s)"
  "core_eq s (sendRelayCodecConfig pr c i k s)"
  "core_eq s (sendRelayCodecConfigTo pr c w i k s)"
  unfolding broadcastRelayControl_def sendRelayControlTo_def sendRelayCodecConfig_def
    sendRelayCodecConfigTo_def
  by (rule core_eq_sendEach, rule core_eq_relayControlForPeer core_eq_relayCodecConfigForPeer)+

lemma core_eq_foldl_Write: "core_eq s (foldl (\<lambda>s p. WriteToUDP d (p_addr p) s) t ps) = core_eq s t"
  by (induction ps arbitrary: t) simp_all

lemma core_eq_raw [simp, relay_frame]:
  "core_eq s (broadcast c d s)" "core_eq s (broadcastExceptAddr c a d s)" "core_eq s (sendTo c i d s)"
  by (simp_all add: broadcast_def broadcastExceptAddr_def sendTo_def core_eq_foldl_Write
      split: option.split)

lemma core_eq_sendPong [simp, relay_frame]: "core_eq s (sendPong pr a c i n s)"
  using core_eq_sequence [of s] core_eq_relayControlForPeer [of s]
  by (simp add: sendPong_def Let_def split_beta)

lemma chan_sends [simp, relay_frame]:
  "chan (WriteToUDP d a s) = chan s" "chan (publishManagementEvent e c i v r s) = chan s"
  "chan (appendManagementAudit x c s) = chan s" "chan (broadcastRelayControl pr c t i p s) = chan s"
  "chan (sendRelayControlTo pr c w t i p s) = chan s" "chan (sendRelayCodecConfig pr c i k s) = chan s"
  "chan (sendRelayCodecConfigTo pr c w i k s) = chan s"
  "chan (sendAuthenticatedControl pr a c i q t p s) = chan s"
  "chan (sendAuthenticatedChallenge pr a c i q p s) = chan s" "chan (broadcastExceptAddr c a d s) = chan s"
  "chan (sendPong pr a c i n s) = chan s"
  by (rule core_eq_chan, simp)+

end
