(* ===== verification/Membership.thy ===== *)
theory Membership
  imports Relay_State
begin

text \<open>
  Who is in a channel (main.go and control_auth.go): registration by JOIN, the replay window of an
  authenticated peer, admissions attached to a peer, the membership lease with its deadline, its
  expiry by lease, ticket or grant, removal on LEAVE, and the checks a control or media packet of
  a member has to pass. Readings of the clock are arguments.
\<close>

subsection \<open>Registration\<close>

definition upsertPeer :: "gotime \<Rightarrow> u32 \<Rightarrow> udpaddr option \<Rightarrow> channel \<Rightarrow> channel" where
  "upsertPeer now senderId addr ch =
     (if peerMapKey addr = None then ch
      else let p = (case peerAt ch addr of None \<Rightarrow> newPeer addr | Some p \<Rightarrow> p)
           in setPeer addr (p\<lparr>p_senderId := senderId, p_addr := addr, p_lastSeen := now\<rparr>) ch)"

definition upsertAuthenticatedPeerWithReplay ::
  "gotime \<Rightarrow> u32 \<Rightarrow> u32 \<Rightarrow> udpaddr option \<Rightarrow> controlAuthMeta \<Rightarrow> provisionalReplayState \<Rightarrow>
   server \<Rightarrow> server" where
  "upsertAuthenticatedPeerWithReplay now channelID senderID addr meta replay s =
     (let (ch, s1) = getOrCreateChannel channelID s in
      if peerMapKey addr = None then s1
      else let p = (case peerAt ch addr of None \<Rightarrow> newPeer addr | Some p \<Rightarrow> p)
           in setChan channelID (setPeer addr
                (p\<lparr>p_senderId := senderID, p_addr := addr, p_lastSeen := now, p_authenticated := True,
                   p_controlSessionID := meta_sessionID meta, p_controlKeyID := meta_keyID meta,
                   p_controlHighest := prs_highest replay, p_controlSeenWindow := prs_seen replay\<rparr>) ch) s1)"

definition upsertAuthenticatedPeer ::
  "gotime \<Rightarrow> u32 \<Rightarrow> u32 \<Rightarrow> udpaddr option \<Rightarrow> controlAuthMeta \<Rightarrow> server \<Rightarrow> server" where
  "upsertAuthenticatedPeer now channelID senderID addr meta s =
     upsertAuthenticatedPeerWithReplay now channelID senderID addr meta
       \<lparr>prs_highest = meta_counter meta, prs_seen = 1, prs_expiresAt = 0\<rparr> s"

text \<open>The peer registered at this endpoint under this sender, if any.\<close>

definition boundPeer :: "server \<Rightarrow> u32 \<Rightarrow> u32 \<Rightarrow> udpaddr option \<Rightarrow> (channel \<times> peer) option" where
  "boundPeer s channelId senderId addr =
     (case chan s channelId of
        None \<Rightarrow> None
      | Some ch \<Rightarrow>
          if addr = None then None
          else (case peerAt ch addr of
              None \<Rightarrow> None
            | Some p \<Rightarrow> if p_senderId p \<noteq> senderId then None else Some (ch, p)))"

definition setPeerIdentityAdmission ::
  "u32 \<Rightarrow> u32 \<Rightarrow> udpaddr option \<Rightarrow> identityAdmission \<Rightarrow> server \<Rightarrow> bool \<times> server" where
  "setPeerIdentityAdmission channelID senderID addr admission s =
     (case boundPeer s channelID senderID addr of
        None \<Rightarrow> (False, s)
      | Some (ch, p) \<Rightarrow>
          if p_serviceAdmission p \<noteq> None then (False, s)
          else (True, setChan channelID (setPeer addr (p\<lparr>p_identityAdmission := Some admission\<rparr>) ch) s))"

definition setPeerServiceAdmission ::
  "gotime \<Rightarrow> u32 \<Rightarrow> u32 \<Rightarrow> udpaddr option \<Rightarrow> serviceAdmission \<Rightarrow> server \<Rightarrow> bool \<times> server" where
  "setPeerServiceAdmission now channelID senderID addr admission s =
     (if addr = None \<or> s_serviceAdmission s = None then (False, s)
      else let (allowed, sv) = admissionAllowedForMembership (s_serviceAdmission s) channelID admission now;
               s1 = s\<lparr>s_serviceAdmission := sv\<rparr>
      in if \<not> allowed then (False, s1)
         else (case boundPeer s1 channelID senderID addr of
             None \<Rightarrow> (False, s1)
           | Some (ch, p) \<Rightarrow>
               if p_identityAdmission p \<noteq> None then (False, s1)
               else (True, setChan channelID
                       (setPeer addr (p\<lparr>p_serviceAdmission := Some admission\<rparr>) ch) s1)))"

subsection \<open>Liveness and replay\<close>

text \<open>
  The fallback scan of \<^verbatim>\<open>touchKnownPeer\<close> compares endpoints instead of keys; it takes the first
  match of the map's iteration.
\<close>

definition touchKnownPeer ::
  "gotime \<Rightarrow> u32 \<Rightarrow> u32 \<Rightarrow> udpaddr option \<Rightarrow> server \<Rightarrow> bool \<times> server" where
  "touchKnownPeer now channelId senderId addr s =
     (if senderId = 0 \<or> addr = None then (False, s)
      else case chan s channelId of
        None \<Rightarrow> (False, s)
      | Some ch \<Rightarrow>
          let found = (case peerAt ch addr of
                Some p \<Rightarrow> Some (peerMapKey addr, p)
              | None \<Rightarrow> List.find (\<lambda>(k, p). sameUDPEndpoint (p_addr p) addr) (ch_peers ch))
          in (case found of
                None \<Rightarrow> (False, s)
              | Some (k, p) \<Rightarrow>
                  if p_senderId p \<noteq> senderId then (False, s)
                  else (True, setChan channelId
                    (ch\<lparr>ch_peers := AList.update k (p\<lparr>p_lastSeen := now\<rparr>) (ch_peers ch)\<rparr>) s)))"

definition acceptUnauthenticatedPeerControl ::
  "gotime \<Rightarrow> u32 \<Rightarrow> u32 \<Rightarrow> udpaddr option \<Rightarrow> server \<Rightarrow> bool \<times> server" where
  "acceptUnauthenticatedPeerControl now channelId senderId addr s =
     (if senderId = 0 then (False, s)
      else case boundPeer s channelId senderId addr of
        None \<Rightarrow> (False, s)
      | Some (ch, p) \<Rightarrow> (True, setChan channelId (setPeer addr (p\<lparr>p_lastSeen := now\<rparr>) ch) s))"

definition acceptAuthenticatedPeerControl ::
  "gotime \<Rightarrow> parsedPacket \<Rightarrow> udpaddr option \<Rightarrow> controlAuthMeta \<Rightarrow> server \<Rightarrow> bool \<times> server" where
  "acceptAuthenticatedPeerControl now pkt addr meta s =
     (let channelId = h_ChannelId (pk_Header pkt) in
      case boundPeer s channelId (h_SenderId (pk_Header pkt)) addr of
        None \<Rightarrow> (False, s)
      | Some (ch, p) \<Rightarrow>
          if \<not> p_authenticated p \<or> p_controlKeyID p \<noteq> meta_keyID meta \<or>
             p_controlSessionID p \<noteq> meta_sessionID meta
          then (False, s)
          else (case acceptReplayCounter (p_controlHighest p) (p_controlSeenWindow p) (meta_counter meta) of
              (ok, h, w) \<Rightarrow>
                if \<not> ok then (False, s)
                else (True, setChan channelId (setPeer addr
                  (p\<lparr>p_controlHighest := h, p_controlSeenWindow := w, p_lastSeen := now\<rparr>) ch) s)))"

definition isAuthenticatedPeer :: "server \<Rightarrow> u32 \<Rightarrow> u32 \<Rightarrow> udpaddr option \<Rightarrow> bool" where
  "isAuthenticatedPeer s channelID senderID addr =
     (case boundPeer s channelID senderID addr of None \<Rightarrow> False | Some (ch, p) \<Rightarrow> p_authenticated p)"

subsection \<open>The lease\<close>

definition startMembership ::
  "gotime \<Rightarrow> u32 \<Rightarrow> u32 \<Rightarrow> udpaddr option \<Rightarrow> server \<Rightarrow> bool \<times> server" where
  "startMembership now channelId senderId addr s =
     (if senderId = 0 then (False, s)
      else case boundPeer s channelId senderId addr of
        None \<Rightarrow> (False, s)
      | Some (ch, p) \<Rightarrow>
          (True, setChan channelId (setPeer addr
             (p\<lparr>p_membershipLease := s_membershipLease s, p_keepaliveInterval := s_keepaliveInterval s,
                p_membershipDeadline := now + s_membershipLease s, p_lastSeen := now\<rparr>) ch) s))"

definition refreshMembership ::
  "gotime \<Rightarrow> u32 \<Rightarrow> u32 \<Rightarrow> udpaddr option \<Rightarrow> server \<Rightarrow> bool \<times> server" where
  "refreshMembership now channelId senderId addr s =
     (if senderId = 0 then (False, s)
      else case boundPeer s channelId senderId addr of
        None \<Rightarrow> (False, s)
      | Some (ch, p) \<Rightarrow>
          if IsZero (p_membershipDeadline p) \<or> \<not> now < p_membershipDeadline p then (False, s)
          else (True, setChan channelId (setPeer addr
                 (p\<lparr>p_membershipDeadline := now + p_membershipLease p, p_lastSeen := now\<rparr>) ch) s))"

definition membershipTimingForPeer :: "server \<Rightarrow> u32 \<Rightarrow> u32 \<Rightarrow> duration \<times> duration" where
  "membershipTimingForPeer s channelId senderId =
     (case List.find (\<lambda>p. p_senderId p = senderId \<and> 0 < p_membershipLease p \<and> 0 < p_keepaliveInterval p)
             (peersOf (chan s channelId)) of
        Some p \<Rightarrow> (p_membershipLease p, p_keepaliveInterval p)
      | None \<Rightarrow> (s_membershipLease s, s_keepaliveInterval s))"

text \<open>\<open>Some reason\<close> when the membership has ended.\<close>

definition membershipExpired :: "peer \<Rightarrow> gotime \<Rightarrow> u8 option" where
  "membershipExpired p now =
     (let normalExpired = (\<not> IsZero (p_membershipDeadline p) \<and> \<not> now < p_membershipDeadline p);
          identityExpired = (case p_identityAdmission p of None \<Rightarrow> False | Some a \<Rightarrow> \<not> now < ia_expiresAt a);
          serviceExpired = (case p_serviceAdmission p of None \<Rightarrow> False | Some a \<Rightarrow> \<not> now < expiryDeadline a)
      in if \<not> normalExpired \<and> \<not> identityExpired \<and> \<not> serviceExpired then None
         else if identityExpired \<and> (\<not> normalExpired \<or> IsZero (p_membershipDeadline p) \<or>
              (case p_identityAdmission p of None \<Rightarrow> False
               | Some a \<Rightarrow> ia_expiresAt a < p_membershipDeadline p))
         then Some talkReleaseIdentityExpired
         else if serviceExpired \<and> (\<not> normalExpired \<or> IsZero (p_membershipDeadline p) \<or>
              (case p_serviceAdmission p of None \<Rightarrow> False
               | Some a \<Rightarrow> expiryDeadline a < p_membershipDeadline p))
         then Some talkReleaseServiceExpired
         else Some talkReleaseMembershipTimeout)"

record membershipExpiry =
  me_senderId :: u32
  me_reason :: u8
  me_active :: bool

text \<open>What goes with a peer: its entry, the codec state of its sender and the sender's floor.\<close>

definition dropPeer :: "endpointKey option \<Rightarrow> u32 \<Rightarrow> channel \<Rightarrow> channel" where
  "dropPeer key senderId ch =
     ch\<lparr>ch_peers := AList.delete key (ch_peers ch),
        ch_codecConfigs := AList.delete senderId (ch_codecConfigs ch),
        ch_mediaCodecConfigs := AList.delete senderId (ch_mediaCodecConfigs ch),
        ch_activeTalkers := AList.delete senderId (ch_activeTalkers ch)\<rparr>"

text \<open>The loop over the peers of a channel, shared by the per-packet expiry and the periodic clean-up.\<close>

fun expirePeers ::
  "gotime \<Rightarrow> (endpointKey option \<times> peer) list \<Rightarrow> channel \<Rightarrow> membershipExpiry list \<times> channel" where
  "expirePeers now [] ch = ([], ch)"
| "expirePeers now ((key, p) # rest) ch =
     (case membershipExpired p now of
        None \<Rightarrow> expirePeers now rest ch
      | Some reason \<Rightarrow>
          let active = (map_of (ch_activeTalkers ch) (p_senderId p) \<noteq> None);
              (released, ch') = expirePeers now rest (dropPeer key (p_senderId p) ch)
          in (\<lparr>me_senderId = p_senderId p, me_reason = reason, me_active = active\<rparr> # released, ch'))"

definition expireMembershipIfNeeded :: "gotime \<Rightarrow> u32 \<Rightarrow> server \<Rightarrow> membershipExpiry list \<times> server" where
  "expireMembershipIfNeeded now channelId s =
     (case chan s channelId of
        None \<Rightarrow> ([], s)
      | Some ch \<Rightarrow>
          let (released, ch') = expirePeers now (ch_peers ch) ch
          in (sort_key me_senderId released, setOrDropChan channelId ch' s))"

definition emitMembershipExpiry :: "prims \<Rightarrow> u32 \<Rightarrow> membershipExpiry \<Rightarrow> server \<Rightarrow> server" where
  "emitMembershipExpiry pr channelId expiry s =
     (let s1 = (if me_active expiry
                then publishManagementEvent ''talk_ended'' channelId (me_senderId expiry) None
                       (Some (talkReleaseReasonName (me_reason expiry)))
                       (broadcastRelayControl pr channelId pktTalkRelease (me_senderId expiry)
                          (talkReleasePayload (me_senderId expiry) (me_reason expiry)) s)
                else s)
      in publishManagementEvent ''participant_left'' channelId (me_senderId expiry) None
           (Some (talkReleaseReasonName (me_reason expiry))) s1)"

definition emitMembershipExpirations :: "prims \<Rightarrow> gotime \<Rightarrow> u32 \<Rightarrow> server \<Rightarrow> server" where
  "emitMembershipExpirations pr now channelId s =
     (let (expired, s1) = expireMembershipIfNeeded now channelId s
      in foldl (\<lambda>s e. emitMembershipExpiry pr channelId e s) s1 expired)"

subsection \<open>Leaving\<close>

definition removePeer :: "u32 \<Rightarrow> u32 \<Rightarrow> udpaddr option \<Rightarrow> server \<Rightarrow> server" where
  "removePeer channelId senderId addr s =
     (case chan s channelId of
        None \<Rightarrow> s
      | Some ch \<Rightarrow>
          let direct = (case peerAt ch addr of
                Some p \<Rightarrow> if peerMapKey addr \<noteq> None \<and> (senderId = 0 \<or> p_senderId p = senderId)
                          then Some (peerMapKey addr) else None
              | None \<Rightarrow> None);
              victim = (case direct of
                Some k \<Rightarrow> Some k
              | None \<Rightarrow> if senderId = 0 then None
                        else map_option fst (List.find (\<lambda>(k, p). p_senderId p = senderId) (ch_peers ch)));
              ch' = (case victim of
                None \<Rightarrow> ch
              | Some k \<Rightarrow>
                  let ch1 = ch\<lparr>ch_peers := AList.delete k (ch_peers ch)\<rparr>
                  in if senderId = 0 then ch1
                     else ch1\<lparr>ch_codecConfigs := AList.delete senderId (ch_codecConfigs ch1),
                              ch_mediaCodecConfigs := AList.delete senderId (ch_mediaCodecConfigs ch1)\<rparr>)
          in setOrDropChan channelId ch' s)"

subsection \<open>Rights\<close>

definition peerAllowsTalk :: "gotime \<Rightarrow> server \<Rightarrow> u32 \<Rightarrow> u32 \<Rightarrow> udpaddr option \<Rightarrow> bool" where
  "peerAllowsTalk now s channelId senderId addr =
     (case boundPeer s channelId senderId addr of
        None \<Rightarrow> False
      | Some (ch, p) \<Rightarrow>
          let required = identity_isRequired (s_identityAdmission s) in
          (case p_identityAdmission p of
             Some a \<Rightarrow> admissionAllowsTalk (Some a) now required
           | None \<Rightarrow>
             (case p_serviceAdmission p of
                Some a \<Rightarrow> membershipCurrent a now \<and> sa_permissions a AND identityPermissionTalk \<noteq> 0
              | None \<Rightarrow> \<not> required)))"

definition peerHasIdentityAdmission :: "server \<Rightarrow> u32 \<Rightarrow> u32 \<Rightarrow> udpaddr option \<Rightarrow> bool" where
  "peerHasIdentityAdmission s channelID senderID addr =
     (case boundPeer s channelID senderID addr of
        None \<Rightarrow> False | Some (ch, p) \<Rightarrow> p_identityAdmission p \<noteq> None)"

definition isActiveTalkerEndpoint :: "server \<Rightarrow> u32 \<Rightarrow> u32 \<Rightarrow> udpaddr option \<Rightarrow> bool" where
  "isActiveTalkerEndpoint s channelId senderId addr =
     (if senderId = 0 then False
      else case boundPeer s channelId senderId addr of
        None \<Rightarrow> False | Some (ch, p) \<Rightarrow> map_of (ch_activeTalkers ch) senderId \<noteq> None)"

definition isTalker :: "server \<Rightarrow> u32 \<Rightarrow> u32 \<Rightarrow> bool" where
  "isTalker s channelId senderId =
     (case chan s channelId of None \<Rightarrow> False | Some ch \<Rightarrow> map_of (ch_activeTalkers ch) senderId \<noteq> None)"

text \<open>
  The admission of a JOIN: the two flows are asked in turn, each under its own lock, and at most one
  admission comes out. \<open>Inl\<close> the deny packet type and reason.
\<close>

definition resolveJoinAdmission ::
  "gotime \<Rightarrow> parsedPacket \<Rightarrow> udpaddr option \<Rightarrow> controlAuthMeta \<Rightarrow> server \<Rightarrow>
   (u8 \<times> u8 + identityAdmission \<times> serviceAdmission) \<times> server" where
  "resolveJoinAdmission now pkt addr meta s =
     (let ((identity, identityAllowed, identityReason), ia) =
            identity_admissionForJoin (s_identityAdmission s) pkt addr meta now;
          ((service, serviceAllowed, serviceReason), sv) =
            service_admissionForJoin (s_serviceAdmission s) pkt addr meta now;
          s1 = s\<lparr>s_identityAdmission := ia, s_serviceAdmission := sv\<rparr>;
          serviceCurrent = (\<not> IsZero (sa_grantExpires service));
          identityCurrent = (\<not> IsZero (ia_expiresAt identity))
      in if \<not> serviceAllowed then (Inl (pktServiceDeny, serviceReason), s1)
         else if \<not> identityAllowed \<and>
            \<not> (identityReason = identityDenyAdmissionRequired \<and> serviceCurrent)
         then (Inl (pktIdentityDeny, identityReason), s1)
         else if identityCurrent \<and> serviceCurrent
         then (Inl (pktIdentityDeny, identityDenyScopeMismatch), s1)
         else if identity_isRequired ia \<and> \<not> identityCurrent \<and> \<not> serviceCurrent
         then (Inl (pktIdentityDeny, identityDenyAdmissionRequired), s1)
         else (Inr (identity, service), s1))"

subsection \<open>Codec configuration and media\<close>

definition cacheCodecConfig ::
  "u32 \<Rightarrow> u32 \<Rightarrow> bytes \<Rightarrow> u32 \<Rightarrow> bool \<Rightarrow> server \<Rightarrow> codecConfigState option \<times> server" where
  "cacheCodecConfig channelId senderId payload controlKeyID authenticated s =
     (if length payload \<noteq> 19 then (None, s)
      else let announcedBase = slice 7 19 payload in
      if announcedBase \<noteq> zeroBase \<and>
         (\<not> authenticated \<or> controlKeyID = 0 \<or> \<not> controlAuthRequired s channelId)
      then (None, s)
      else if announcedBase = zeroBase \<and> requiresAESGCMV2MediaProfile s then (None, s)
      else if announcedBase = zeroBase \<and> controlAuthRequired s channelId \<and>
         (\<not> authenticated \<or> controlKeyID = 0)
      then (None, s)
      else case chan s channelId of
        None \<Rightarrow> (None, s)
      | Some ch \<Rightarrow>
          let state = \<lparr>cc_payload = payload, cc_mediaNonceBase = announcedBase, cc_mediaKeyID = 2,
                       cc_controlKeyID = controlKeyID\<rparr>
          in (Some state, setChan channelId
                (ch\<lparr>ch_codecConfigs := AList.update senderId payload (ch_codecConfigs ch),
                    ch_mediaCodecConfigs := AList.update senderId state (ch_mediaCodecConfigs ch)\<rparr>) s))"

definition isCompatibilityMediaPacket :: "server \<Rightarrow> parsedPacket \<Rightarrow> bool" where
  "isCompatibilityMediaPacket s pkt =
     (if h_Flags (pk_Header pkt) AND (packetFlagAESGCMV2HeaderAAD OR packetFlagControlAuthV1) \<noteq> 0
      then False
      else if h_HeaderLen (pk_Header pkt) = 16 then s_noCrypto s \<and> pk_Tag pkt = []
      else if h_HeaderLen (pk_Header pkt) = 28
      then sec_KeyID (pk_Sec pkt) = 1 \<and> length (pk_Tag pkt) = authTagSize
      else False)"

definition mediaMatchesCodecConfig :: "server \<Rightarrow> parsedPacket \<Rightarrow> bool" where
  "mediaMatchesCodecConfig s pkt =
     (case chan s (h_ChannelId (pk_Header pkt)) of
        None \<Rightarrow> False
      | Some ch \<Rightarrow>
          (case map_of (ch_mediaCodecConfigs ch) (h_SenderId (pk_Header pkt)) of
             None \<Rightarrow> False
           | Some config \<Rightarrow>
               if cc_mediaNonceBase config = zeroBase then isCompatibilityMediaPacket s pkt
               else h_HeaderLen (pk_Header pkt) = 36 \<and>
                 h_Flags (pk_Header pkt) AND packetFlagAESGCMV2HeaderAAD \<noteq> 0 \<and>
                 sec_KeyID (pk_Sec pkt) = 2 \<and> cc_mediaKeyID config = sec_KeyID (pk_Sec pkt) \<and>
                 cc_mediaNonceBase config = sec_MediaNonceBase (pk_Sec pkt)))"

definition handleMediaPacket ::
  "gotime \<Rightarrow> gotime \<Rightarrow> parsedPacket \<Rightarrow> udpaddr option \<Rightarrow> server \<Rightarrow> server" where
  "handleMediaPacket now1 now2 pkt addr s =
     (let c = h_ChannelId (pk_Header pkt); i = h_SenderId (pk_Header pkt) in
      if \<not> isActiveTalkerEndpoint s c i addr then s
      else if \<not> peerAllowsTalk now1 s c i addr then s
      else if h_Flags (pk_Header pkt) AND packetFlagAESGCMV2HeaderAAD \<noteq> 0 \<and> \<not> controlAuthRequired s c then s
      else if controlAuthRequired s c \<and>
         (\<not> isAuthenticatedPeer s c i addr \<or> \<not> mediaMatchesCodecConfig s pkt) then s
      else let (ok, s1) = refreshMembership now2 c i addr s
           in if \<not> ok then s1 else broadcastExceptAddr c addr (pk_Raw pkt) s1)"

end
