(* ===== verification/Floor.thy ===== *)
theory Floor
  imports Membership
begin

text \<open>
  The floor of a channel (main.go): who may talk, PTT_ON with its limit of simultaneous talkers,
  PTT_REQUEST with the Floor Interrupt selection, PTT_OFF, release on leave, the talk timeout, and
  what a joining client is told (server configuration and current talkers).
\<close>

subsection \<open>Priorities\<close>

fun activeTalkerPriorityIn :: "peer list \<Rightarrow> u32 \<Rightarrow> gotime \<Rightarrow> u8" where
  "activeTalkerPriorityIn [] senderId now = 0"
| "activeTalkerPriorityIn (p # ps) senderId now =
     (if p_senderId p \<noteq> senderId then activeTalkerPriorityIn ps senderId now
      else case p_identityAdmission p of
        Some a \<Rightarrow>
          if now < ia_expiresAt a then ia_priority a
          else (case p_serviceAdmission p of
              Some v \<Rightarrow> if membershipCurrent v now then sa_priority v
                        else activeTalkerPriorityIn ps senderId now
            | None \<Rightarrow> activeTalkerPriorityIn ps senderId now)
      | None \<Rightarrow>
          (case p_serviceAdmission p of
              Some v \<Rightarrow> if membershipCurrent v now then sa_priority v
                        else activeTalkerPriorityIn ps senderId now
            | None \<Rightarrow> activeTalkerPriorityIn ps senderId now))"

definition activeTalkerPriority :: "channel \<Rightarrow> u32 \<Rightarrow> gotime \<Rightarrow> u8" where
  "activeTalkerPriority ch senderId now = activeTalkerPriorityIn (map snd (ch_peers ch)) senderId now"

definition peerAllowsInterrupt :: "peer option \<Rightarrow> gotime \<Rightarrow> bool" where
  "peerAllowsInterrupt peer now =
     (case peer of None \<Rightarrow> False
      | Some p \<Rightarrow>
          (case p_identityAdmission p of
             Some a \<Rightarrow> admissionAllowsInterrupt (Some a) now
           | None \<Rightarrow>
             (case p_serviceAdmission p of
                Some v \<Rightarrow> membershipCurrent v now \<and> sa_permissions v AND identityPermissionTalk \<noteq> 0 \<and>
                  sa_permissions v AND identityPermissionInterrupt \<noteq> 0 \<and> sa_priority v \<noteq> 0
              | None \<Rightarrow> False)))"

definition peerInterruptPriority :: "peer option \<Rightarrow> gotime \<Rightarrow> u8" where
  "peerInterruptPriority peer now =
     (if \<not> peerAllowsInterrupt peer now then 0
      else case peer of None \<Rightarrow> 0
        | Some p \<Rightarrow>
            (case p_identityAdmission p of
               Some a \<Rightarrow> ia_priority a
             | None \<Rightarrow> (case p_serviceAdmission p of Some v \<Rightarrow> sa_priority v | None \<Rightarrow> 0)))"

definition peerAdmissionPriority :: "peer option \<Rightarrow> gotime \<Rightarrow> u8" where
  "peerAdmissionPriority peer now =
     (case peer of None \<Rightarrow> 0
      | Some p \<Rightarrow>
          (case p_identityAdmission p of
             Some a \<Rightarrow>
               if now < ia_expiresAt a then ia_priority a
               else (case p_serviceAdmission p of
                   Some v \<Rightarrow> if membershipCurrent v now then sa_priority v else 0 | None \<Rightarrow> 0)
           | None \<Rightarrow>
               (case p_serviceAdmission p of
                   Some v \<Rightarrow> if membershipCurrent v now then sa_priority v else 0 | None \<Rightarrow> 0)))"

definition peerAdmissionAuditActor :: "peer option \<Rightarrow> (string \<times> string) option" where
  "peerAdmissionAuditActor peer =
     (case peer of None \<Rightarrow> None
      | Some p \<Rightarrow>
          (case p_identityAdmission p of
             Some a \<Rightarrow> Some (''identity'', b64Encode (ia_actorIDHash a))
           | None \<Rightarrow>
             (case p_serviceAdmission p of
                Some v \<Rightarrow> Some (''service'', sa_serviceID v) | None \<Rightarrow> None)))"

definition publishFloorInterruptAudit ::
  "peer option \<Rightarrow> u32 \<Rightarrow> u8 \<Rightarrow> string \<Rightarrow> (u32 \<times> u8) option \<Rightarrow> server \<Rightarrow> server" where
  "publishFloorInterruptAudit requester channelID requesterPriority result replaced s =
     (if \<not> s_privateControl s then s
      else case peerAdmissionAuditActor requester of
        None \<Rightarrow> s
      | Some (actorType, actorID) \<Rightarrow>
          s\<lparr>s_audits := s_audits s @ [\<lparr>fa_actorType = actorType, fa_actorID = actorID,
              fa_channelID = channelID, fa_requesterPriority = requesterPriority,
              fa_result = result, fa_replaced = replaced\<rparr>]\<rparr>)"

text \<open>\<open>None\<close> when the process panics for want of an epoch identifier.\<close>

definition observeFloorInterruptDiagnostics ::
  "string option \<Rightarrow> relayFloorInterruptCounterDelta \<Rightarrow> server \<Rightarrow> server option" where
  "observeFloorInterruptDiagnostics epoch delta s =
     (if \<not> s_floorInterrupt s then Some s
      else map_option (\<lambda>d. s\<lparr>s_diagnostics := d\<rparr>) (observeFloorInterrupt epoch delta (s_diagnostics s)))"

definition relayDiagnosticsSnapshot :: "server \<Rightarrow> string \<times> relayFloorInterruptCounters" where
  "relayDiagnosticsSnapshot s =
     (if \<not> s_floorInterrupt s then diagnostics_snapshotEpochOnly (s_diagnostics s)
      else diagnostics_snapshot (s_diagnostics s))"

definition delta :: "u64 \<Rightarrow> u64 \<Rightarrow> u64 \<Rightarrow> u64 \<Rightarrow> relayFloorInterruptCounterDelta" where
  "delta grants denials preemptions unauthorized =
     \<lparr>fd_pttRequests = 1, fd_grants = grants, fd_denials = denials, fd_preemptions = preemptions,
      fd_unauthorizedRejections = unauthorized\<rparr>"

subsection \<open>PTT\<close>

definition denyPttRequest :: "prims \<Rightarrow> u32 \<Rightarrow> u32 \<Rightarrow> server \<Rightarrow> server" where
  "denyPttRequest pr channelId senderId s =
     (let current = firstActiveTalker (chan s channelId)
      in sendRelayControlTo pr channelId senderId pktTalkDeny current (talkPayload current) s)"

definition talkLimit :: "server \<Rightarrow> int" where
  "talkLimit s =
     (let limit = (if s_multiTalk s then s_maxActiveTalkers s else 1) in if limit < 1 then 1 else limit)"

definition grantFloor :: "u32 \<Rightarrow> u32 \<Rightarrow> gotime \<Rightarrow> channel \<Rightarrow> server \<Rightarrow> server" where
  "grantFloor channelId senderId now ch s =
     setChan channelId (ch\<lparr>ch_activeTalkers := AList.update senderId now (ch_activeTalkers ch)\<rparr>) s"

text \<open>The scan of the active talkers for the one to replace; 0 stands for none yet.\<close>

fun selectVictim :: "channel \<Rightarrow> gotime \<Rightarrow> (u32 \<times> gotime) list \<Rightarrow> u32 \<times> u8 \<Rightarrow> u32 \<times> u8" where
  "selectVictim ch now [] best = best"
| "selectVictim ch now ((activeSenderID, t) # rest) (victim, victimPriority) =
     (let priority = activeTalkerPriority ch activeSenderID now in
      if victim = 0 \<or> priority < victimPriority \<or> priority = victimPriority \<and> activeSenderID < victim
      then selectVictim ch now rest (activeSenderID, priority)
      else selectVictim ch now rest (victim, victimPriority))"

text \<open>
  What the critical section of \<^verbatim>\<open>handlePttRequest\<close> decides for a requester: refuse it as not
  authorised, confirm the floor it has, grant free room, refuse for lack of priority, or replace a
  talker.
\<close>

datatype floorDecision =
    FloorUnauthorised | FloorHeld | FloorGranted | FloorDenied | FloorPreempt u32 u8

definition pttDecision :: "gotime \<Rightarrow> int \<Rightarrow> channel \<Rightarrow> u32 \<Rightarrow> peer option \<Rightarrow> floorDecision" where
  "pttDecision now limit ch senderId requester =
     (if (case requester of None \<Rightarrow> True
          | Some p \<Rightarrow> p_senderId p \<noteq> senderId \<or> IsZero (p_membershipDeadline p) \<or>
              \<not> now < p_membershipDeadline p \<or> \<not> peerAllowsInterrupt requester now)
      then FloorUnauthorised
      else if map_of (ch_activeTalkers ch) senderId \<noteq> None then FloorHeld
      else if int (length (ch_activeTalkers ch)) < limit then FloorGranted
      else let (victim, victimPriority) = selectVictim ch now (ch_activeTalkers ch) (0, 0xff) in
        if victim = 0 \<or> peerInterruptPriority requester now \<le> victimPriority then FloorDenied
        else FloorPreempt victim victimPriority)"

text \<open>
  The first component of the result says whether the request was authorised; \<open>None\<close> is a panic.
  \<open>requester\<close> is nil when the channel or the address is, and then no audit record is published.
\<close>

definition handlePttRequest ::
  "prims \<Rightarrow> gotime \<Rightarrow> string option \<Rightarrow> u32 \<Rightarrow> u32 \<Rightarrow> udpaddr option \<Rightarrow> server \<Rightarrow>
   (bool \<times> server) option" where
  "handlePttRequest pr now epoch channelId senderId addr s =
     (if \<not> s_floorInterrupt s \<or> s_identityAdmission s = None \<or>
         \<not> identity_isRequired (s_identityAdmission s) \<or> \<not> controlAuthRequired s channelId
      then Some (False, denyPttRequest pr channelId senderId s)
      else
      let ch = (case chan s channelId of None \<Rightarrow> newChannel | Some ch \<Rightarrow> ch);
          requester = (if chan s channelId = None \<or> addr = None then None else peerAt ch addr);
          requesterPriority = peerInterruptPriority requester now;
          observe = observeFloorInterruptDiagnostics epoch;
          audit = publishFloorInterruptAudit requester channelId
      in case pttDecision now (talkLimit s) ch senderId requester of
        FloorUnauthorised \<Rightarrow>
          map_option (\<lambda>s1. (False, audit (peerAdmissionPriority requester now) ''denied'' None
                                    (denyPttRequest pr channelId senderId s1)))
            (observe (delta 0 0 0 1) s)
      | FloorHeld \<Rightarrow>
          map_option (\<lambda>s1. (True, audit requesterPriority ''success'' None
                                   (sendRelayControlTo pr channelId senderId pktTalkGrant senderId
                                      (talkPayload senderId) s1)))
            (observe (delta 1 0 0 0) s)
      | FloorGranted \<Rightarrow>
          map_option (\<lambda>s1. (True, audit requesterPriority ''success'' None
                                   (publishManagementEvent ''talk_started'' channelId senderId None None
                                     (broadcastRelayControl pr channelId pktTalkGrant senderId
                                        (talkPayload senderId) s1))))
            (observe (delta 1 0 0 0) (grantFloor channelId senderId now ch s))
      | FloorDenied \<Rightarrow>
          let current = firstActiveTalker (Some ch) in
          map_option (\<lambda>s1. (True, audit requesterPriority ''denied'' None
                                   (sendRelayControlTo pr channelId senderId pktTalkDeny current
                                      (talkPayload current) s1)))
            (observe (delta 0 1 0 0) s)
      | FloorPreempt victim victimPriority \<Rightarrow>
          map_option
            (\<lambda>s1.
              let s2 = broadcastRelayControl pr channelId pktTalkRelease victim
                         (talkReleasePayload victim talkReleasePreempted) s1;
                  s3 = broadcastRelayControl pr channelId pktTalkGrant senderId (talkPayload senderId) s2;
                  s4 = publishManagementEvent ''talk_ended'' channelId victim None (Some ''PREEMPTED'') s3;
                  s5 = publishManagementEvent ''talk_started'' channelId senderId None None s4
              in (True, audit requesterPriority ''success'' (Some (victim, victimPriority)) s5))
            (observe (delta 1 0 1 0)
               (grantFloor channelId senderId now
                  (ch\<lparr>ch_activeTalkers := AList.delete victim (ch_activeTalkers ch)\<rparr>) s)))"

definition handlePttOn :: "prims \<Rightarrow> gotime \<Rightarrow> u32 \<Rightarrow> u32 \<Rightarrow> server \<Rightarrow> server" where
  "handlePttOn pr now channelId senderId s =
     (case chan s channelId of
        None \<Rightarrow> s
      | Some ch \<Rightarrow>
          if map_of (ch_activeTalkers ch) senderId \<noteq> None
          then sendRelayControlTo pr channelId senderId pktTalkGrant senderId (talkPayload senderId) s
          else if int (length (ch_activeTalkers ch)) < talkLimit s
          then publishManagementEvent ''talk_started'' channelId senderId None None
                 (broadcastRelayControl pr channelId pktTalkGrant senderId (talkPayload senderId)
                    (grantFloor channelId senderId now ch s))
          else let current = firstActiveTalker (Some ch)
               in sendRelayControlTo pr channelId senderId pktTalkDeny current (talkPayload current) s)"

text \<open>Release of one talker with a reason; \<^verbatim>\<open>handlePttOff\<close> is the case CLIENT_PTT_OFF.\<close>

definition releaseTalkIfNeeded :: "prims \<Rightarrow> u32 \<Rightarrow> u32 \<Rightarrow> u8 \<Rightarrow> server \<Rightarrow> server" where
  "releaseTalkIfNeeded pr channelId senderId reason s =
     (case chan s channelId of
        None \<Rightarrow> s
      | Some ch \<Rightarrow>
          if map_of (ch_activeTalkers ch) senderId = None then s
          else publishManagementEvent ''talk_ended'' channelId senderId None
                 (Some (talkReleaseReasonName reason))
                 (broadcastRelayControl pr channelId pktTalkRelease senderId
                    (talkReleasePayload senderId reason)
                    (setChan channelId
                       (ch\<lparr>ch_activeTalkers := AList.delete senderId (ch_activeTalkers ch)\<rparr>) s)))"

definition handlePttOff :: "prims \<Rightarrow> u32 \<Rightarrow> u32 \<Rightarrow> server \<Rightarrow> server" where
  "handlePttOff pr channelId senderId s =
     (case chan s channelId of
        None \<Rightarrow> s
      | Some ch \<Rightarrow>
          if map_of (ch_activeTalkers ch) senderId = None then s
          else publishManagementEvent ''talk_ended'' channelId senderId None (Some ''CLIENT_PTT_OFF'')
                 (broadcastRelayControl pr channelId pktTalkRelease senderId
                    (talkReleasePayload senderId talkReleaseClientPttOff)
                    (setChan channelId
                       (ch\<lparr>ch_activeTalkers := AList.delete senderId (ch_activeTalkers ch)\<rparr>) s)))"

subsection \<open>Talk timeout\<close>

text \<open>One pass over the active talkers: who is released, and what remains.\<close>

fun expireTalkers ::
  "gotime \<Rightarrow> duration \<Rightarrow> (u32 \<times> gotime) list \<Rightarrow> u32 list \<times> (u32 \<times> gotime) list" where
  "expireTalkers now talkMax [] = ([], [])"
| "expireTalkers now talkMax ((senderID, startedAt) # rest) =
     (let (released, kept) = expireTalkers now talkMax rest in
      if IsZero startedAt then (released, (senderID, now) # kept)
      else if time_Sub now startedAt < talkMax then (released, (senderID, startedAt) # kept)
      else (senderID # released, kept))"

definition expireTalkIfNeeded :: "gotime \<Rightarrow> u32 \<Rightarrow> server \<Rightarrow> u32 list \<times> server" where
  "expireTalkIfNeeded now channelId s =
     (if s_talkMax s \<le> 0 then ([], s)
      else case chan s channelId of
        None \<Rightarrow> ([], s)
      | Some ch \<Rightarrow>
          let (released, kept) = expireTalkers now (s_talkMax s) (ch_activeTalkers ch)
          in (sort released, setChan channelId (ch\<lparr>ch_activeTalkers := kept\<rparr>) s))"

definition emitTalkTimeouts :: "prims \<Rightarrow> u32 \<Rightarrow> u32 list \<Rightarrow> server \<Rightarrow> server" where
  "emitTalkTimeouts pr channelId talkers s =
     foldl (\<lambda>s t. publishManagementEvent ''talk_ended'' channelId t None (Some ''SERVER_TALK_TIMEOUT'')
        (broadcastRelayControl pr channelId pktTalkRelease t
           (talkReleasePayload t talkReleaseServerTimeout) s)) s talkers"

subsection \<open>What a joining client is told\<close>

definition durationToSecondsClamped :: "duration \<Rightarrow> u16" where
  "durationToSecondsClamped d =
     (if d \<le> 0 then 0
      else let sec = d div Second;
               sec1 = (if sec \<le> 0 then 1 else sec);
               sec2 = (if maxTalkMaximumSecondsV1 < sec1 then maxTalkMaximumSecondsV1 else sec1)
           in of_int sec2)"

definition validMaximumTalkSeconds :: "int \<Rightarrow> bool" where
  "validMaximumTalkSeconds seconds \<longleftrightarrow> 0 \<le> seconds \<and> seconds \<le> maxTalkMaximumSecondsV1"

definition serverConfigPayload :: "server \<Rightarrow> u32 \<Rightarrow> u32 \<Rightarrow> bytes" where
  "serverConfigPayload s channelId senderId =
     (let (lease, keepalive) = membershipTimingForPeer s channelId senderId;
          limit = (if s_multiTalk s
                   then let low = (if s_maxActiveTalkers s < 1 then 1 else s_maxActiveTalkers s)
                        in if maxActiveTalkersV1 < low then maxActiveTalkersV1 else low
                   else 1)
      in PutUint16 (durationToSecondsClamped (s_talkMax s)) @
         [if s_multiTalk s then 1 else 0, of_int limit] @
         PutUint16 (durationToSecondsClamped lease) @ PutUint16 (durationToSecondsClamped keepalive))"

definition sendServerConfig :: "prims \<Rightarrow> u32 \<Rightarrow> u32 \<Rightarrow> server \<Rightarrow> server" where
  "sendServerConfig pr channelId senderId s =
     sendRelayControlTo pr channelId senderId pktServerCfg 0 (serverConfigPayload s channelId senderId) s"

record talkerSyncState =
  ts_talkerID :: u32
  ts_codec :: codecConfigState

definition talkerSyncStates :: "channel \<Rightarrow> talkerSyncState list" where
  "talkerSyncStates ch =
     map (\<lambda>talkerID.
        let codec = (case map_of (ch_mediaCodecConfigs ch) talkerID of None \<Rightarrow> zeroCodecConfig | Some c \<Rightarrow> c)
        in \<lparr>ts_talkerID = talkerID,
            ts_codec = (if cc_payload codec = []
              then codec\<lparr>cc_payload := (case map_of (ch_codecConfigs ch) talkerID of None \<Rightarrow> [] | Some b \<Rightarrow> b)\<rparr>
              else codec)\<rparr>)
       (sortedActiveTalkers (Some ch))"

definition sendCurrentTalkState :: "prims \<Rightarrow> u32 \<Rightarrow> u32 \<Rightarrow> server \<Rightarrow> server" where
  "sendCurrentTalkState pr channelId senderId s =
     (case chan s channelId of
        None \<Rightarrow> s
      | Some ch \<Rightarrow>
          foldl (\<lambda>s st.
            let s1 = (if length (cc_payload (ts_codec st)) = 19
                      then sendRelayCodecConfigTo pr channelId senderId (ts_talkerID st) (ts_codec st) s
                      else s)
            in sendRelayControlTo pr channelId senderId pktTalkGrant (ts_talkerID st)
                 (talkPayload (ts_talkerID st)) s1) s (talkerSyncStates ch))"

end
