(* ===== verification/Relay_Handler.thy ===== *)
theory Relay_Handler
  imports Floor
begin

text \<open>
  The packet handler, the receive loop, the periodic clean-up and the revocation of a managed
  service (main.go, management.go), composed from the critical sections as the code composes them.
  An environment gives one reading of the clock per call of \<^verbatim>\<open>time.Now\<close>, in no assumed order, and
  the results of the random source. The handler returns \<open>None\<close> when the process panics.
\<close>

record relayEnv =
  clk :: "nat \<Rightarrow> gotime"
  challengeDraw :: "bytes option"
  epochDraw :: "string option"

subsection \<open>Before membership\<close>

definition handleAuthHello :: "prims \<Rightarrow> relayEnv \<Rightarrow> parsedPacket \<Rightarrow> udpaddr option \<Rightarrow> server \<Rightarrow> server" where
  "handleAuthHello pr env pkt addr s =
     (let c = h_ChannelId (pk_Header pkt); i = h_SenderId (pk_Header pkt) in
      if \<not> controlAuthRequired s c then s
      else case verifyIncomingControl pr (s_controlAuth s) pkt of
        (meta, ok) \<Rightarrow>
          if \<not> ok \<or> pk_Payload pkt \<noteq> [] then s
          else (case s_controlAuth s of
              None \<Rightarrow> s
            | Some a \<Rightarrow>
                (case createChallenge pr (clk env 1) (clk env 2) a pkt addr meta of
                   (None, a') \<Rightarrow> s\<lparr>s_controlAuth := Some a'\<rparr>
                 | (Some challenge, a') \<Rightarrow>
                     sendAuthenticatedChallenge pr addr c i (meta_keyID meta) challenge
                       (s\<lparr>s_controlAuth := Some a'\<rparr>))))"

definition handlePing :: "prims \<Rightarrow> relayEnv \<Rightarrow> parsedPacket \<Rightarrow> udpaddr option \<Rightarrow> server \<Rightarrow> server" where
  "handlePing pr env pkt addr s =
     (let c = h_ChannelId (pk_Header pkt); i = h_SenderId (pk_Header pkt);
          (ok, s1) =
            (if controlAuthRequired s c
             then case verifyIncomingControl pr (s_controlAuth s) pkt of
                    (meta, verified) \<Rightarrow>
                      if \<not> verified then (False, s)
                      else acceptAuthenticatedPeerControl (clk env 1) pkt addr meta s
             else (True, s))
      in if \<not> ok then s1
         else if length (pk_Payload pkt) \<noteq> 8 then s1
         else (case touchKnownPeer (clk env 2) c i addr s1 of
             (known, s2) \<Rightarrow> if \<not> known then s2 else sendPong pr addr c i (pk_Payload pkt) s2))"

text \<open>The replay check of an admission packet: the peer's window after JOIN, the provisional one before.\<close>

definition acceptAdmissionControl ::
  "relayEnv \<Rightarrow> parsedPacket \<Rightarrow> udpaddr option \<Rightarrow> controlAuthMeta \<Rightarrow> bool \<Rightarrow> server \<Rightarrow> bool \<times> server" where
  "acceptAdmissionControl env pkt addr meta existingPeer s =
     (if existingPeer then acceptAuthenticatedPeerControl (clk env 1) pkt addr meta s
      else case s_controlAuth s of
        None \<Rightarrow> (False, s)
      | Some a \<Rightarrow>
          (case acceptPreJoinControl (clk env 2) a pkt addr meta of
             (ok, a') \<Rightarrow> (ok, s\<lparr>s_controlAuth := Some a'\<rparr>)))"

definition handleIdentityPacket :: "prims \<Rightarrow> relayEnv \<Rightarrow> parsedPacket \<Rightarrow> udpaddr option \<Rightarrow> server \<Rightarrow> server" where
  "handleIdentityPacket pr env pkt addr s =
     (let c = h_ChannelId (pk_Header pkt); i = h_SenderId (pk_Header pkt) in
      if \<not> controlAuthRequired s c then s
      else case verifyIncomingControl pr (s_controlAuth s) pkt of
        (meta, verified) \<Rightarrow>
          if \<not> verified then s
          else
          let existingPeer = isAuthenticatedPeer s c i addr;
              (ok, s1) = acceptAdmissionControl env pkt addr meta existingPeer s;
              deny = (\<lambda>reason. sendAuthenticatedControl pr addr c i (meta_keyID meta) pktIdentityDeny [reason]);
              now = clk env 3
          in if \<not> ok then s1
             else if h_Type (pk_Header pkt) = pktIdentityBegin
             then (case identity_begin pr (challengeDraw env) (s_identityAdmission s1) pkt addr meta now of
                 (Inl reason, ia) \<Rightarrow> deny reason (s1\<lparr>s_identityAdmission := ia\<rparr>)
               | (Inr challenge, ia) \<Rightarrow>
                   sendAuthenticatedControl pr addr c i (meta_keyID meta) pktIdentityChallenge challenge
                     (s1\<lparr>s_identityAdmission := ia\<rparr>))
             else (case identity_proof pr (s_identityAdmission s1) pkt addr meta now of
                 (reason, ia) \<Rightarrow>
                   let s2 = s1\<lparr>s_identityAdmission := ia\<rparr> in
                   if reason \<noteq> 0 then deny reason s2
                   else if \<not> existingPeer then s2
                   else (case identity_takeVerifiedAdmission ia pkt addr meta now of
                       (found, ia') \<Rightarrow>
                         let s3 = s2\<lparr>s_identityAdmission := ia'\<rparr> in
                         (case found of
                            None \<Rightarrow> deny identityDenyInvalidProof s3
                          | Some admission \<Rightarrow>
                              (case setPeerIdentityAdmission c i addr admission s3 of
                                 (attached, s4) \<Rightarrow>
                                   if attached then s4 else deny identityDenyInvalidProof s4)))))"

definition handleServicePacket :: "prims \<Rightarrow> relayEnv \<Rightarrow> parsedPacket \<Rightarrow> udpaddr option \<Rightarrow> server \<Rightarrow> server" where
  "handleServicePacket pr env pkt addr s =
     (let c = h_ChannelId (pk_Header pkt); i = h_SenderId (pk_Header pkt) in
      if \<not> controlAuthRequired s c then s
      else case verifyIncomingControl pr (s_controlAuth s) pkt of
        (meta, verified) \<Rightarrow>
          if \<not> verified then s
          else
          let existingPeer = isAuthenticatedPeer s c i addr;
              (ok, s1) = acceptAdmissionControl env pkt addr meta existingPeer s;
              deny = (\<lambda>reason. sendAuthenticatedControl pr addr c i (meta_keyID meta) pktServiceDeny [reason]);
              now = clk env 3
          in if \<not> ok then s1
             else if h_Type (pk_Header pkt) = pktServiceBegin
             then (case service_begin pr (challengeDraw env) (s_serviceAdmission s1) pkt addr meta now of
                 (Inl reason, sv) \<Rightarrow> deny reason (s1\<lparr>s_serviceAdmission := sv\<rparr>)
               | (Inr challenge, sv) \<Rightarrow>
                   sendAuthenticatedControl pr addr c i (meta_keyID meta) pktServiceChallenge challenge
                     (s1\<lparr>s_serviceAdmission := sv\<rparr>))
             else (case service_proof pr (s_serviceAdmission s1) pkt addr meta now of
                 (reason, sv) \<Rightarrow>
                   let s2 = s1\<lparr>s_serviceAdmission := sv\<rparr> in
                   if reason \<noteq> 0 then deny reason s2
                   else if \<not> existingPeer then s2
                   else (case service_takeVerifiedAdmission sv pkt addr meta now of
                       (found, sv') \<Rightarrow>
                         let s3 = s2\<lparr>s_serviceAdmission := sv'\<rparr> in
                         if peerHasIdentityAdmission s2 c i addr
                         then deny serviceDenyScopeMismatch s3
                         else (case found of
                            None \<Rightarrow> deny serviceDenyInvalidProof s3
                          | Some admission \<Rightarrow>
                              (case setPeerServiceAdmission (clk env 4) c i addr admission s3 of
                                 (attached, s4) \<Rightarrow>
                                   if attached
                                   then publishManagementEvent ''service_admission_issued'' c i
                                          (Some (sa_serviceID admission)) None s4
                                   else deny serviceDenyInvalidProof s4)))))"

subsection \<open>JOIN and the membership gate\<close>

text \<open>
  The JOIN of an authenticated channel. The code does not test the result of the verification but
  the challenge: an unverified packet has session 0, for which no challenge exists. \<open>None\<close> when the
  handler stops, otherwise the service ID to announce, if any.
\<close>

definition joinAuthenticated ::
  "prims \<Rightarrow> relayEnv \<Rightarrow> parsedPacket \<Rightarrow> udpaddr option \<Rightarrow> server \<Rightarrow> string option option \<times> server" where
  "joinAuthenticated pr env pkt addr s =
     (let c = h_ChannelId (pk_Header pkt); i = h_SenderId (pk_Header pkt);
          (meta, _) = verifyIncomingControl pr (s_controlAuth s) pkt
      in case s_controlAuth s of
        None \<Rightarrow> (None, s)
      | Some a \<Rightarrow>
        (case consumeJoinChallenge pr (clk env 1) (clk env 2) (clk env 3) a pkt addr meta of
           (None, a') \<Rightarrow> (None, s\<lparr>s_controlAuth := Some a'\<rparr>)
         | (Some replay, a') \<Rightarrow>
           (case resolveJoinAdmission (clk env 4) pkt addr meta (s\<lparr>s_controlAuth := Some a'\<rparr>) of
              (Inl (denyPacketType, denyReason), s1) \<Rightarrow>
                (None, sendAuthenticatedControl pr addr c i (meta_keyID meta) denyPacketType [denyReason] s1)
            | (Inr (identity, service), s1) \<Rightarrow>
              let s2 = upsertAuthenticatedPeerWithReplay (clk env 5) c i addr meta replay s1;
                  (okI, s3) = (if IsZero (ia_expiresAt identity) then (True, s2)
                               else setPeerIdentityAdmission c i addr identity s2)
              in if \<not> okI then (None, s3)
                 else
                 let (okS, s4) = (if IsZero (sa_grantExpires service) then (True, s3)
                                  else setPeerServiceAdmission (clk env 6) c i addr service s3);
                     joinedServiceID = (if IsZero (sa_grantExpires service) then None
                                        else Some (sa_serviceID service))
                 in if \<not> okS then (None, s4)
                    else (case startMembership (clk env 7) c i addr s4 of
                        (started, s5) \<Rightarrow>
                          if \<not> started then (None, s5)
                          else (Some joinedServiceID,
                                case joinedServiceID of None \<Rightarrow> s5
                                | Some sid \<Rightarrow> publishManagementEvent ''service_admission_issued'' c i
                                                (Some sid) None s5)))))"

definition joinPlain ::
  "relayEnv \<Rightarrow> parsedPacket \<Rightarrow> udpaddr option \<Rightarrow> server \<Rightarrow> string option option \<times> server" where
  "joinPlain env pkt addr s =
     (let c = h_ChannelId (pk_Header pkt); i = h_SenderId (pk_Header pkt) in
      if pk_Payload pkt \<noteq> [] then (None, s)
      else let (ch, s1) = getOrCreateChannel c s;
               s2 = setChan c (upsertPeer (clk env 5) i addr ch) s1
           in (case startMembership (clk env 7) c i addr s2 of
                 (started, s3) \<Rightarrow> (if started then Some None else None, s3)))"

text \<open>Who gets past the gate to the switch at the end of the handler.\<close>

definition controlGate ::
  "prims \<Rightarrow> relayEnv \<Rightarrow> parsedPacket \<Rightarrow> udpaddr option \<Rightarrow> server \<Rightarrow> string option option \<times> server" where
  "controlGate pr env pkt addr s =
     (let c = h_ChannelId (pk_Header pkt); i = h_SenderId (pk_Header pkt) in
      if h_Type (pk_Header pkt) = pktJoin \<and> controlAuthRequired s c then joinAuthenticated pr env pkt addr s
      else if h_Type (pk_Header pkt) = pktJoin then joinPlain env pkt addr s
      else if controlAuthRequired s c
      then (case verifyIncomingControl pr (s_controlAuth s) pkt of
          (meta, verified) \<Rightarrow>
            if \<not> verified then (None, s)
            else (case acceptAuthenticatedPeerControl (clk env 1) pkt addr meta s of
                (ok, s1) \<Rightarrow> (if ok then Some None else None, s1)))
      else (case acceptUnauthenticatedPeerControl (clk env 1) c i addr s of
          (ok, s1) \<Rightarrow> (if ok then Some None else None, s1)))"

subsection \<open>The switch\<close>

definition handleJoined :: "prims \<Rightarrow> u32 \<Rightarrow> u32 \<Rightarrow> string option \<Rightarrow> server \<Rightarrow> server" where
  "handleJoined pr c i joinedServiceID s =
     sendCurrentTalkState pr c i (sendServerConfig pr c i
       (publishManagementEvent ''participant_joined'' c i joinedServiceID None s))"

definition handleLeave :: "prims \<Rightarrow> u32 \<Rightarrow> u32 \<Rightarrow> udpaddr option \<Rightarrow> server \<Rightarrow> server" where
  "handleLeave pr c i addr s =
     publishManagementEvent ''participant_left'' c i None (Some ''CLIENT_LEAVE'')
       (removePeer c i addr (releaseTalkIfNeeded pr c i talkReleaseClientLeave s))"

definition handleCodecConfig ::
  "prims \<Rightarrow> relayEnv \<Rightarrow> bool \<Rightarrow> parsedPacket \<Rightarrow> udpaddr option \<Rightarrow> server \<Rightarrow> server" where
  "handleCodecConfig pr env requiresAuth pkt addr s =
     (let c = h_ChannelId (pk_Header pkt); i = h_SenderId (pk_Header pkt);
          controlKeyID = (if requiresAuth then sec_KeyID (pk_Sec pkt) else 0)
      in case cacheCodecConfig c i (pk_Payload pkt) controlKeyID requiresAuth s of
           (None, s1) \<Rightarrow> s1
         | (Some config, s1) \<Rightarrow>
             sendRelayCodecConfig pr c i config (snd (refreshMembership (clk env 10) c i addr s1)))"

definition dispatchControl ::
  "prims \<Rightarrow> relayEnv \<Rightarrow> bool \<Rightarrow> parsedPacket \<Rightarrow> udpaddr option \<Rightarrow> string option \<Rightarrow> server \<Rightarrow>
   server option" where
  "dispatchControl pr env requiresAuth pkt addr joinedServiceID s =
     (let c = h_ChannelId (pk_Header pkt); i = h_SenderId (pk_Header pkt);
          t = h_Type (pk_Header pkt); empty = (pk_Payload pkt = []) in
      if t = pktJoin then Some (handleJoined pr c i joinedServiceID s)
      else if t = pktLeave then Some (if \<not> empty then s else handleLeave pr c i addr s)
      else if t = pktKeepalive
      then Some (if \<not> empty then s else snd (refreshMembership (clk env 10) c i addr s))
      else if t = pktPttOn
      then Some (if \<not> empty then s
                 else if \<not> peerAllowsTalk (clk env 9) s c i addr then s
                 else handlePttOn pr (clk env 11) c i (snd (refreshMembership (clk env 10) c i addr s)))
      else if t = pktPttRequest
      then (if pk_Payload pkt \<noteq> [1] then Some s
            else map_option
              (\<lambda>(authorised, s1). if authorised then snd (refreshMembership (clk env 10) c i addr s1) else s1)
              (handlePttRequest pr (clk env 9) (epochDraw env) c i addr s))
      else if t = pktPttOff
      then Some (if \<not> empty then s
                 else handlePttOff pr c i (snd (refreshMembership (clk env 10) c i addr s)))
      else if t = pktCodecConfig then Some (handleCodecConfig pr env requiresAuth pkt addr s)
      else Some s)"

definition handlePacket ::
  "prims \<Rightarrow> relayEnv \<Rightarrow> parsedPacket \<Rightarrow> udpaddr option \<Rightarrow> server \<Rightarrow> server option" where
  "handlePacket pr env pkt addr s =
     (let c = h_ChannelId (pk_Header pkt); t = h_Type (pk_Header pkt) in
      if h_Version (pk_Header pkt) \<noteq> protocolVersion \<or> h_SenderId (pk_Header pkt) = 0 then Some s
      else
      let s0 = emitMembershipExpirations pr (clk env 0) c s;
          requiresAuth = controlAuthRequired s0 c in
      if t = pktAudio \<or> t = pktFec then Some (handleMediaPacket (clk env 1) (clk env 2) pkt addr s0)
      else if t = pktAuthHello then Some (handleAuthHello pr env pkt addr s0)
      else if t = pktPing then Some (handlePing pr env pkt addr s0)
      else if (t = pktIdentityBegin \<or> t = pktIdentityProof) \<and> s_identityAdmission s0 \<noteq> None
      then Some (handleIdentityPacket pr env pkt addr s0)
      else if (t = pktServiceBegin \<or> t = pktServiceProof) \<and> s_serviceAdmission s0 \<noteq> None
      then Some (handleServicePacket pr env pkt addr s0)
      else (case controlGate pr env pkt addr s0 of
          (None, s1) \<Rightarrow> Some s1
        | (Some joinedServiceID, s1) \<Rightarrow>
            let (released, s2) = expireTalkIfNeeded (clk env 8) c s1
            in dispatchControl pr env requiresAuth pkt addr joinedServiceID
                 (emitTalkTimeouts pr c released s2)))"

subsection \<open>The receive loop\<close>

definition observePacketSize :: "gotime \<Rightarrow> parsedPacket \<Rightarrow> int \<Rightarrow> server \<Rightarrow> server" where
  "observePacketSize now pkt n s =
     (let s1 = (if IsZero (s_sizeWindowStart s) then s\<lparr>s_sizeWindowStart := now\<rparr> else s);
          s2 = (if s_sizeWindowMax s1 < n
                then s1\<lparr>s_sizeWindowMax := n, s_sizeWindowMaxType := h_Type (pk_Header pkt),
                        s_sizeWindowMaxCh := h_ChannelId (pk_Header pkt),
                        s_sizeWindowMaxSender := h_SenderId (pk_Header pkt)\<rparr>
                else s1);
          isRealtimeMedia = (h_Type (pk_Header pkt) = pktAudio \<or> h_Type (pk_Header pkt) = pktFec);
          s3 = (if isRealtimeMedia \<and> udpNearLimitBytes < n
                then let w = s2\<lparr>s_sizeWindowOverWarn := s_sizeWindowOverWarn s2 + 1\<rparr>
                     in if 3 * Second \<le> time_Sub now (s_lastWarnLog w) then w\<lparr>s_lastWarnLog := now\<rparr> else w
                else s2)
      in if 30 * Second \<le> time_Sub now (s_sizeWindowStart s3)
         then s3\<lparr>s_sizeWindowStart := now, s_sizeWindowMax := 0, s_sizeWindowMaxType := 0,
                 s_sizeWindowMaxCh := 0, s_sizeWindowMaxSender := 0, s_sizeWindowOverWarn := 0\<rparr>
         else s3)"

definition directoryCarrierMagic :: bytes where
  "directoryCarrierMagic = bytes_of ''IDP3''"

text \<open>
  One round of \<^verbatim>\<open>run\<close> for a datagram that was read: dropped, handed to the Directory (whose queue
  takes the rest of the datagram), or handled as a Version 1 packet. \<open>mediaPortDirectory\<close> says that
  the Directory is configured on the media port.
\<close>

datatype datagramFate = DatagramDropped | DirectoryDatagram bytes | RelayDatagram

definition receiveDatagram ::
  "prims \<Rightarrow> relayEnv \<Rightarrow> bool \<Rightarrow> gotime \<Rightarrow> bytes \<Rightarrow> udpaddr option \<Rightarrow> server \<Rightarrow>
   datagramFate \<times> server option" where
  "receiveDatagram pr env mediaPortDirectory sizeNow data addr s =
     (if \<not> acceptsUDPDatagramSize (int (length data)) then (DatagramDropped, Some s)
      else if length directoryCarrierMagic \<le> length data \<and> take 4 data = directoryCarrierMagic
      then (if mediaPortDirectory \<and> 5 \<le> length data \<and> data ! 4 = 1
            then (DirectoryDatagram (drop 5 data), Some s) else (DatagramDropped, Some s))
      else case parsePacket data (s_noCrypto s) of
        None \<Rightarrow> (DatagramDropped, Some s)
      | Some pkt \<Rightarrow>
          (RelayDatagram,
           handlePacket pr env pkt addr (observePacketSize sizeNow pkt (int (length data)) s)))"

subsection \<open>Periodic clean-up\<close>

record releaseEvent =
  re_channelID :: u32
  re_talkerID :: u32
  re_reason :: u8

record departureEvent =
  dp_channelID :: u32
  dp_senderID :: u32
  dp_reason :: u8

text \<open>
  One channel in one tick: expired peers first, then talkers over the limit. Releases carry the
  membership reason when the talker went with its peer, SERVER_TALK_TIMEOUT otherwise.
\<close>

definition cleanupChannel ::
  "gotime \<Rightarrow> duration \<Rightarrow> u32 \<Rightarrow> channel \<Rightarrow> releaseEvent list \<times> departureEvent list \<times> channel" where
  "cleanupChannel now talkMax channelId ch =
     (let (expired, ch1) = expirePeers now (ch_peers ch) ch;
          departures = map (\<lambda>e. \<lparr>dp_channelID = channelId, dp_senderID = me_senderId e,
                                  dp_reason = me_reason e\<rparr>) expired;
          membershipReleases = map (\<lambda>e. \<lparr>re_channelID = channelId, re_talkerID = me_senderId e,
                                         re_reason = me_reason e\<rparr>) (filter me_active expired);
          (timedOut, kept) = (if 0 < talkMax then expireTalkers now talkMax (ch_activeTalkers ch1)
                              else ([], ch_activeTalkers ch1));
          talkReleases = map (\<lambda>t. \<lparr>re_channelID = channelId, re_talkerID = t,
                                   re_reason = talkReleaseServerTimeout\<rparr>) timedOut
      in (membershipReleases @ talkReleases, departures, ch1\<lparr>ch_activeTalkers := kept\<rparr>))"

fun cleanupChannels ::
  "gotime \<Rightarrow> duration \<Rightarrow> (u32 \<times> channel) list \<Rightarrow>
   releaseEvent list \<times> departureEvent list \<times> (u32 \<times> channel) list" where
  "cleanupChannels now talkMax [] = ([], [], [])"
| "cleanupChannels now talkMax ((channelId, ch) # rest) =
     (let (rel, dep, ch') = cleanupChannel now talkMax channelId ch;
          (rels, deps, chs) = cleanupChannels now talkMax rest
      in (rel @ rels, dep @ deps, if ch_peers ch' = [] then chs else (channelId, ch') # chs))"

definition cleanupTick :: "prims \<Rightarrow> gotime \<Rightarrow> server \<Rightarrow> server" where
  "cleanupTick pr now s =
     (let (releases, departures, chs) = cleanupChannels now (s_talkMax s) (s_channels s);
          s1 = s\<lparr>s_channels := chs\<rparr>;
          s2 = foldl (\<lambda>s r. publishManagementEvent ''talk_ended'' (re_channelID r) (re_talkerID r) None
                  (Some (talkReleaseReasonName (re_reason r)))
                  (broadcastRelayControl pr (re_channelID r) pktTalkRelease (re_talkerID r)
                     (talkReleasePayload (re_talkerID r) (re_reason r)) s)) s1
                (sort_key re_channelID (sort_key re_talkerID releases))
      in foldl (\<lambda>s d. publishManagementEvent ''participant_left'' (dp_channelID d) (dp_senderID d) None
                  (Some (talkReleaseReasonName (dp_reason d))) s) s2
                (sort_key dp_channelID (sort_key dp_senderID departures)))"

text \<open>The period of the ticker.\<close>

definition cleanupInterval :: "duration \<Rightarrow> server \<Rightarrow> duration" where
  "cleanupInterval timeout s =
     (let half = (if 0 \<le> timeout then timeout div 2 else - ((- timeout) div 2));
          i1 = (if half \<le> 0 then Second else half);
          i2 = (if Second < i1 then Second else i1)
      in if 0 < s_talkMax s \<and> Second div 10 < i2 then Second div 10 else i2)"

subsection \<open>Revocation\<close>

record managedServiceRevocationResult =
  rr_affectedMemberships :: u32
  rr_talkReleases :: u32

record revokedPeer =
  rp_senderID :: u32
  rp_serviceID :: string
  rp_active :: bool
  rp_peer :: peer

fun revokePeers ::
  "serviceAdmissionRevocationTarget \<Rightarrow> (endpointKey option \<times> peer) list \<Rightarrow> channel \<Rightarrow>
   revokedPeer list \<times> channel" where
  "revokePeers target [] ch = ([], ch)"
| "revokePeers target ((key, p) # rest) ch =
     (case p_serviceAdmission p of
        None \<Rightarrow> revokePeers target rest ch
      | Some adm \<Rightarrow>
          if \<not> target_matches target (rt_channelID target) adm then revokePeers target rest ch
          else
          let active = (map_of (ch_activeTalkers ch) (p_senderId p) \<noteq> None);
              (revoked, ch') = revokePeers target rest (dropPeer key (p_senderId p) ch)
          in (\<lparr>rp_senderID = p_senderId p, rp_serviceID = sa_serviceID adm, rp_active = active,
               rp_peer = p\<rparr> # revoked, ch'))"

definition emitRevocation :: "prims \<Rightarrow> u32 \<Rightarrow> revokedPeer \<Rightarrow> server \<Rightarrow> server" where
  "emitRevocation pr channelID rp s =
     (let reason = ''SERVICE_ADMISSION_REVOKED'';
          payload = talkReleasePayload (rp_senderID rp) talkReleaseServiceRevoked;
          s0 = appendManagementAudit ''service_admission_revoked'' channelID s;
          s1 = (if rp_active rp
                then
                  let b = broadcastRelayControl pr channelID pktTalkRelease (rp_senderID rp) payload s0;
                      (packet, d) = relayControlForPeer pr channelID (Some (rp_peer rp)) pktTalkRelease
                                      (rp_senderID rp) payload b;
                      w = (if packet = [] then d else WriteToUDP packet (p_addr (rp_peer rp)) d)
                  in publishManagementEvent ''talk_ended'' channelID (rp_senderID rp)
                       (Some (rp_serviceID rp)) (Some reason) w
                else s0)
      in publishManagementEvent ''service_admission_revoked'' channelID (rp_senderID rp)
           (Some (rp_serviceID rp)) (Some reason)
           (publishManagementEvent ''participant_left'' channelID (rp_senderID rp)
              (Some (rp_serviceID rp)) (Some reason) s1))"

definition revokeManagedServiceAdmission ::
  "prims \<Rightarrow> serviceAdmissionRevocationTarget \<Rightarrow> gotime \<Rightarrow> gotime \<Rightarrow> server \<Rightarrow>
   managedServiceRevocationResult option \<times> server" where
  "revokeManagedServiceAdmission pr target denyUntil now s =
     (if s_serviceAdmission s = None then (None, s)
      else case installRevocation (s_serviceAdmission s) target denyUntil now of
        (False, sv) \<Rightarrow> (None, s\<lparr>s_serviceAdmission := sv\<rparr>)
      | (True, sv) \<Rightarrow>
          let s1 = s\<lparr>s_serviceAdmission := sv\<rparr>;
              (revoked, s2) = (case chan s1 (rt_channelID target) of
                  None \<Rightarrow> ([], s1)
                | Some ch \<Rightarrow>
                    let (r, ch') = revokePeers target (ch_peers ch) ch
                    in (r, setOrDropChan (rt_channelID target) ch' s1));
              s3 = foldl (\<lambda>s rp. emitRevocation pr (rt_channelID target) rp s) s2 revoked
          in (Some \<lparr>rr_affectedMemberships = of_nat (length revoked),
                    rr_talkReleases = of_nat (length (filter rp_active revoked))\<rparr>, s3))"

end
