(* ===== verification/Relay_Invariant.thy ===== *)
theory Relay_Invariant
  imports Relay_Handler
begin

text \<open>
  The invariant of the Relay and that every critical section keeps it: the tables are maps, no
  channel is empty, a peer is stored under the key of its own endpoint with a non-zero sender and at
  most one kind of admission, and no channel has more talkers than the limit. The pending control
  sessions and the deny rules stay within their bounds. Because each critical section keeps the
  invariant for arbitrary arguments, it also holds for every interleaving of the packet loop, the
  clean-up ticker and the revocations of the private control link.
\<close>

subsection \<open>The invariant\<close>

definition peer_ok :: "endpointKey option \<Rightarrow> peer \<Rightarrow> bool" where
  "peer_ok k p \<longleftrightarrow> k \<noteq> None \<and> k = peerMapKey (p_addr p) \<and> p_senderId p \<noteq> 0 \<and>
     (p_identityAdmission p = None \<or> p_serviceAdmission p = None)"

definition channel_wf :: "int \<Rightarrow> channel \<Rightarrow> bool" where
  "channel_wf limit ch \<longleftrightarrow>
     gomap_wf (ch_peers ch) \<and> gomap_wf (ch_activeTalkers ch) \<and> gomap_wf (ch_codecConfigs ch) \<and>
     gomap_wf (ch_mediaCodecConfigs ch) \<and> (\<forall>(k, p)\<in>set (ch_peers ch). peer_ok k p) \<and>
     (\<forall>(i, t)\<in>set (ch_activeTalkers ch). i \<noteq> 0) \<and> int (length (ch_activeTalkers ch)) \<le> limit"

definition subsystems_ok :: "server \<Rightarrow> bool" where
  "subsystems_ok s \<longleftrightarrow>
     (case s_controlAuth s of None \<Rightarrow> True | Some a \<Rightarrow> pending_inv a) \<and>
     (case s_serviceAdmission s of None \<Rightarrow> True | Some v \<Rightarrow> deny_inv v)"

definition relay_inv :: "server \<Rightarrow> bool" where
  "relay_inv s \<longleftrightarrow> gomap_wf (s_channels s) \<and> 1 \<le> s_maxActiveTalkers s \<and>
     s_maxActiveTalkers s \<le> maxActiveTalkersV1 \<and> subsystems_ok s \<and>
     (\<forall>c ch. chan s c = Some ch \<longrightarrow> channel_wf (talkLimit s) ch \<and> ch_peers ch \<noteq> [])"

subsection \<open>Channels\<close>

lemma talkLimit_setChan [simp]: "talkLimit (setChan c ch s) = talkLimit s"
  by (simp add: talkLimit_def)

lemma talkLimit_setOrDropChan [simp]: "talkLimit (setOrDropChan c ch s) = talkLimit s"
  by (simp add: talkLimit_def)

lemma subsystem_frame [simp, relay_frame]:
  "chan (s\<lparr>s_serviceAdmission := sv\<rparr>) = chan s" "talkLimit (s\<lparr>s_serviceAdmission := sv\<rparr>) = talkLimit s"
  "chan (s\<lparr>s_identityAdmission := ia\<rparr>) = chan s" "talkLimit (s\<lparr>s_identityAdmission := ia\<rparr>) = talkLimit s"
  "chan (s\<lparr>s_controlAuth := ca\<rparr>) = chan s" "talkLimit (s\<lparr>s_controlAuth := ca\<rparr>) = talkLimit s"
  "chan (s\<lparr>s_diagnostics := d\<rparr>) = chan s" "talkLimit (s\<lparr>s_diagnostics := d\<rparr>) = talkLimit s"
  by (simp_all add: chan_def talkLimit_def fun_eq_iff)

lemma talkLimit_bounds: "relay_inv s \<Longrightarrow> 1 \<le> talkLimit s \<and> talkLimit s \<le> 16"
  by (simp add: relay_inv_def talkLimit_def)

lemma channel_wf_new: "0 \<le> limit \<Longrightarrow> channel_wf limit newChannel"
  by (simp add: channel_wf_def newChannel_def)

lemma channel_wf_setPeer:
  "channel_wf limit ch \<Longrightarrow> peer_ok (peerMapKey addr) p \<Longrightarrow> channel_wf limit (setPeer addr p ch)"
  by (auto simp: channel_wf_def setPeer_def set_update_wf)

lemma channel_wf_peer: "channel_wf limit ch \<Longrightarrow> map_of (ch_peers ch) k = Some p \<Longrightarrow> peer_ok k p"
  by (auto simp: channel_wf_def)

lemma channel_wf_dropPeer:
  assumes "channel_wf limit ch"
  shows "channel_wf limit (dropPeer k i ch)"
proof -
  have "length (AList.delete i (ch_activeTalkers ch)) \<le> length (ch_activeTalkers ch)"
    by (rule length_delete_le)
  with assms show ?thesis
    by (auto simp: channel_wf_def dropPeer_def set_delete)
qed

lemma channel_wf_talkers:
  assumes "channel_wf limit ch" "gomap_wf ts" "\<forall>(i, t)\<in>set ts. i \<noteq> 0" "int (length ts) \<le> limit"
  shows "channel_wf limit (ch\<lparr>ch_activeTalkers := ts\<rparr>)"
  using assms by (simp add: channel_wf_def)

lemma channel_wf_release:
  assumes "channel_wf limit ch"
  shows "channel_wf limit (ch\<lparr>ch_activeTalkers := AList.delete i (ch_activeTalkers ch)\<rparr>)"
proof -
  have "length (AList.delete i (ch_activeTalkers ch)) \<le> length (ch_activeTalkers ch)"
    by (rule length_delete_le)
  with assms show ?thesis
    by (intro channel_wf_talkers) (auto simp: channel_wf_def set_delete)
qed

lemma channel_wf_grant:
  assumes wf: "channel_wf limit ch" and i: "i \<noteq> 0" and room: "int (length (ch_activeTalkers ch)) < limit"
  shows "channel_wf limit (ch\<lparr>ch_activeTalkers := AList.update i t (ch_activeTalkers ch)\<rparr>)"
proof -
  have "length (AList.update i t (ch_activeTalkers ch)) \<le> Suc (length (ch_activeTalkers ch))"
    by (rule length_update_le)
  with assms show ?thesis
    by (intro channel_wf_talkers) (auto simp: channel_wf_def set_update_wf)
qed

subsection \<open>Servers\<close>

lemma pending_view:
  "auth_view x = auth_view y \<Longrightarrow> (case x of None \<Rightarrow> True | Some a \<Rightarrow> pending_inv a) =
     (case y of None \<Rightarrow> True | Some a \<Rightarrow> pending_inv a)"
  by (cases x; cases y) (simp_all add: auth_view_def pending_inv_def)

lemma relay_inv_core: "core_eq s t \<Longrightarrow> s_channels t = s_channels s \<and> (relay_inv t \<longleftrightarrow> relay_inv s)"
proof -
  assume core: "core_eq s t"
  have "subsystems_ok t = subsystems_ok s"
    using core pending_view [of "s_controlAuth t" "s_controlAuth s"]
    by (simp add: subsystems_ok_def core_eq_def)
  moreover have "talkLimit t = talkLimit s" "chan t = chan s"
    using core core_eq_chan [OF core] by (simp_all add: core_eq_def talkLimit_def)
  ultimately show ?thesis using core by (simp add: relay_inv_def core_eq_def)
qed

lemma relay_inv_sent: "core_eq s t \<Longrightarrow> relay_inv s \<Longrightarrow> relay_inv t"
  by (simp add: relay_inv_core)

lemma subsystems_setChan [simp]: "subsystems_ok (setChan c ch s) = subsystems_ok s"
  by (simp add: subsystems_ok_def)

lemma subsystems_setOrDropChan [simp]: "subsystems_ok (setOrDropChan c ch s) = subsystems_ok s"
  by (simp add: subsystems_ok_def)

lemma gomap_wf_setChan: "gomap_wf (s_channels s) \<Longrightarrow> gomap_wf (s_channels (setChan c ch s))"
  by (simp add: setChan_def)

lemma gomap_wf_setOrDropChan: "gomap_wf (s_channels s) \<Longrightarrow> gomap_wf (s_channels (setOrDropChan c ch s))"
  by (simp add: setOrDropChan_def setChan_def)

lemma relay_inv_setChan:
  "relay_inv s \<Longrightarrow> channel_wf (talkLimit s) ch \<Longrightarrow> ch_peers ch \<noteq> [] \<Longrightarrow> relay_inv (setChan c ch s)"
  by (auto simp: relay_inv_def gomap_wf_setChan)

lemma relay_inv_setOrDropChan:
  "relay_inv s \<Longrightarrow> channel_wf (talkLimit s) ch \<Longrightarrow> relay_inv (setOrDropChan c ch s)"
  by (auto simp: relay_inv_def gomap_wf_setOrDropChan split: if_splits)

lemma relay_inv_chan:
  "relay_inv s \<Longrightarrow> chan s c = Some ch \<Longrightarrow> channel_wf (talkLimit s) ch \<and> ch_peers ch \<noteq> []"
  by (simp add: relay_inv_def)

lemma update_nonempty [simp]: "AList.update k v m \<noteq> []"
  by (cases m) auto

lemma setPeer_nonempty [simp]: "ch_peers (setPeer a p ch) \<noteq> []"
  by (simp add: setPeer_def)

text \<open>An update of one peer that keeps its endpoint, sender and exclusive admission.\<close>

lemma boundPeer_Some:
  assumes "boundPeer s c i addr = Some (ch, p)"
  shows "chan s c = Some ch \<and> addr \<noteq> None \<and> peerAt ch addr = Some p \<and> p_senderId p = i"
  using assms by (auto simp: boundPeer_def split: option.splits if_splits)

lemma relay_inv_bound:
  assumes "relay_inv s" "boundPeer s c i addr = Some (ch, p)"
  shows "channel_wf (talkLimit s) ch" "peer_ok (peerMapKey addr) p"
proof -
  note bound = boundPeer_Some [OF assms(2)]
  then show wf: "channel_wf (talkLimit s) ch" using relay_inv_chan [OF assms(1)] by blast
  show "peer_ok (peerMapKey addr) p"
    by (rule channel_wf_peer [OF wf]) (use bound in \<open>simp only: peerAt_def\<close>)
qed

lemma relay_inv_setPeer:
  assumes "relay_inv s" "boundPeer s c i addr = Some (ch, p)"
    and "p_addr q = p_addr p" "p_senderId q = p_senderId p"
    and "p_identityAdmission q = None \<or> p_serviceAdmission q = None"
  shows "relay_inv (setChan c (setPeer addr q ch) s)"
  using relay_inv_bound [OF assms(1,2)] assms
  by (intro relay_inv_setChan channel_wf_setPeer) (auto simp: peer_ok_def)

subsection \<open>Membership operations\<close>

lemma relay_inv_acceptUnauthenticated:
  "relay_inv s \<Longrightarrow> relay_inv (snd (acceptUnauthenticatedPeerControl now c i addr s))"
  using relay_inv_bound(2) [of s c i addr]
  by (auto simp: acceptUnauthenticatedPeerControl_def peer_ok_def
      intro!: relay_inv_setPeer split: option.split)

lemma relay_inv_acceptAuthenticated:
  "relay_inv s \<Longrightarrow> relay_inv (snd (acceptAuthenticatedPeerControl now pkt addr meta s))"
  using relay_inv_bound(2) [of s "h_ChannelId (pk_Header pkt)" "h_SenderId (pk_Header pkt)" addr]
  by (auto simp: acceptAuthenticatedPeerControl_def peer_ok_def Let_def
      intro!: relay_inv_setPeer split: option.split prod.split)

lemma relay_inv_startMembership: "relay_inv s \<Longrightarrow> relay_inv (snd (startMembership now c i addr s))"
  using relay_inv_bound(2) [of s c i addr]
  by (auto simp: startMembership_def peer_ok_def intro!: relay_inv_setPeer split: option.split)

lemma relay_inv_refreshMembership: "relay_inv s \<Longrightarrow> relay_inv (snd (refreshMembership now c i addr s))"
  using relay_inv_bound(2) [of s c i addr]
  by (auto simp: refreshMembership_def peer_ok_def intro!: relay_inv_setPeer split: option.split)

lemma relay_inv_setPeerIdentity:
  "relay_inv s \<Longrightarrow> relay_inv (snd (setPeerIdentityAdmission c i addr adm s))"
  by (auto simp: setPeerIdentityAdmission_def intro!: relay_inv_setPeer split: option.split)

lemma relay_inv_service:
  assumes "relay_inv s" "case sv of None \<Rightarrow> True | Some v \<Rightarrow> deny_inv v"
  shows "relay_inv (s\<lparr>s_serviceAdmission := sv\<rparr>)"
  using assms by (simp add: relay_inv_def subsystems_ok_def)

lemma relay_inv_auth:
  assumes "relay_inv s" "case ca of None \<Rightarrow> True | Some a \<Rightarrow> pending_inv a"
  shows "relay_inv (s\<lparr>s_controlAuth := ca\<rparr>)"
  using assms by (simp add: relay_inv_def subsystems_ok_def)

lemma relay_inv_identity: "relay_inv s \<Longrightarrow> relay_inv (s\<lparr>s_identityAdmission := ia\<rparr>)"
  by (simp add: relay_inv_def subsystems_ok_def)

lemma relay_inv_subsystems:
  assumes "relay_inv s"
  shows "s_controlAuth s = Some a \<Longrightarrow> pending_inv a" "s_serviceAdmission s = Some v \<Longrightarrow> deny_inv v"
  using assms by (auto simp: relay_inv_def subsystems_ok_def)

lemma relay_inv_setPeerService:
  assumes inv: "relay_inv s"
  shows "relay_inv (snd (setPeerServiceAdmission now c i addr adm s))"
proof (cases "s_serviceAdmission s")
  case None
  with inv show ?thesis by (simp add: setPeerServiceAdmission_def)
next
  case (Some v)
  obtain ok v' where mem: "admissionAllowedForMembership (Some v) c adm now = (ok, Some v')"
    by (simp add: admissionAllowedForMembership_def Let_def)
  have "service_step pr now v v'" for pr by (rule ss_member [OF mem])
  with relay_inv_subsystems(2) [OF inv Some] have "deny_inv v'" by (rule deny_inv_step)
  with inv have inv1: "relay_inv (s\<lparr>s_serviceAdmission := Some v'\<rparr>)"
    by (intro relay_inv_service) simp_all
  then show ?thesis
    using inv by (auto simp: setPeerServiceAdmission_def Some mem Let_def
        intro!: relay_inv_setPeer split: option.split)
qed

lemma find_in_set: "List.find P xs = Some x \<Longrightarrow> x \<in> set xs \<and> P x"
  by (induction xs) (auto split: if_splits)

lemma relay_inv_touch:
  assumes inv: "relay_inv s"
  shows "relay_inv (snd (touchKnownPeer now c i addr s))"
proof -
  have upd: "relay_inv (setChan c (ch\<lparr>ch_peers := AList.update k (p\<lparr>p_lastSeen := now\<rparr>) (ch_peers ch)\<rparr>) s)"
    if "chan s c = Some ch" "(k, p) \<in> set (ch_peers ch)" for ch k p
    using relay_inv_chan [OF inv that(1)] that(2) inv
    by (intro relay_inv_setChan) (auto simp: channel_wf_def set_update_wf peer_ok_def)
  show ?thesis
    using inv upd
    by (auto simp: touchKnownPeer_def Let_def peerAt_def dest!: find_in_set map_of_SomeD
        split: option.split)
qed

subsection \<open>JOIN\<close>

text \<open>The record a JOIN starts from: the one at the endpoint, or a fresh one.\<close>

lemma existing_peer_exclusive:
  assumes "channel_wf limit ch"
  shows "let p = (case peerAt ch addr of None \<Rightarrow> newPeer addr | Some p \<Rightarrow> p)
    in p_identityAdmission p = None \<or> p_serviceAdmission p = None"
  using channel_wf_peer [OF assms]
  by (auto simp: peerAt_def newPeer_def peer_ok_def split: option.split)

lemma getOrCreate_wf:
  assumes "relay_inv s" "getOrCreateChannel c s = (ch, s1)"
  shows "channel_wf (talkLimit s) ch \<and> chan s1 c = Some ch \<and>
    (s1 = s \<or> s1 = setChan c newChannel s \<and> ch = newChannel)"
proof (cases "chan s c")
  case None
  have "0 \<le> talkLimit s" using talkLimit_bounds [OF assms(1)] by simp
  with None assms(2) show ?thesis by (auto simp: getOrCreateChannel_def channel_wf_new)
next
  case (Some ch')
  with assms relay_inv_chan [OF assms(1) Some] show ?thesis by (simp add: getOrCreateChannel_def)
qed

lemma update_twice: "AList.update k v (AList.update k v' m) = AList.update k v m"
  by (induction m) auto

lemma setChan_setChan: "setChan c ch (setChan c ch' s) = setChan c ch s"
  by (simp add: setChan_def update_twice)

lemma relay_inv_upsertAuthenticated:
  assumes inv: "relay_inv s" and "i \<noteq> 0" "addr \<noteq> None"
  shows "relay_inv (upsertAuthenticatedPeerWithReplay now c i addr meta replay s)"
proof -
  obtain ch s1 where get: "getOrCreateChannel c s = (ch, s1)" by fastforce
  note g = getOrCreate_wf [OF inv get]
  have "setChan c x s1 = setChan c x s" for x
    using g setChan_setChan by auto
  with g assms existing_peer_exclusive [of "talkLimit s" ch addr] show ?thesis
    by (auto simp: upsertAuthenticatedPeerWithReplay_def get Let_def peer_ok_def
        intro!: relay_inv_setChan channel_wf_setPeer)
qed

lemma channel_wf_upsertPeer:
  assumes "channel_wf limit ch" "i \<noteq> 0" "addr \<noteq> None"
  shows "channel_wf limit (upsertPeer now i addr ch) \<and> ch_peers (upsertPeer now i addr ch) \<noteq> []"
  using assms existing_peer_exclusive [of limit ch addr]
  by (auto simp: upsertPeer_def Let_def peer_ok_def intro!: channel_wf_setPeer)

lemma relay_inv_upsertPeer:
  assumes inv: "relay_inv s" and get: "getOrCreateChannel c s = (ch, s1)" and "i \<noteq> 0" "addr \<noteq> None"
  shows "relay_inv (setChan c (upsertPeer now i addr ch) s1)"
proof -
  note g = getOrCreate_wf [OF inv get]
  have "setChan c x s1 = setChan c x s" for x
    using g setChan_setChan by auto
  with channel_wf_upsertPeer [of "talkLimit s" ch i addr now] g assms show ?thesis
    by (simp add: relay_inv_setChan)
qed

subsection \<open>Expiry, departure and the floor\<close>

lemma channel_wf_expirePeers:
  "channel_wf limit ch \<Longrightarrow> expirePeers now ps ch = (r, ch') \<Longrightarrow> channel_wf limit ch'"
proof (induction ps arbitrary: ch r)
  case (Cons kp ps)
  obtain k p where kp: "kp = (k, p)" by (cases kp)
  show ?case
  proof (cases "membershipExpired p now")
    case None
    with Cons kp show ?thesis by simp
  next
    case (Some reason)
    with Cons.prems(2) kp obtain r' where "expirePeers now ps (dropPeer k (p_senderId p) ch) = (r', ch')"
      by (auto simp: Let_def split: prod.splits)
    with Cons.IH [OF channel_wf_dropPeer [OF Cons.prems(1)]] show ?thesis by blast
  qed
qed simp

lemma relay_inv_expireMembership: "relay_inv s \<Longrightarrow> relay_inv (snd (expireMembershipIfNeeded now c s))"
proof (cases "chan s c")
  case (Some ch)
  assume inv: "relay_inv s"
  obtain r ch' where e: "expirePeers now (ch_peers ch) ch = (r, ch')" by fastforce
  have "channel_wf (talkLimit s) ch'"
    using channel_wf_expirePeers [OF _ e] relay_inv_chan [OF inv Some] by blast
  with inv show ?thesis
    by (simp add: expireMembershipIfNeeded_def Some e relay_inv_setOrDropChan)
qed (simp add: expireMembershipIfNeeded_def)

lemma core_eq_emitMembershipExpiry: "core_eq s (emitMembershipExpiry pr c e s)"
  by (simp add: emitMembershipExpiry_def Let_def)

lemma core_eq_foldl:
  assumes "\<And>s x. core_eq s (f s x)"
  shows "core_eq s (foldl f s xs)"
proof (induction xs arbitrary: s)
  case (Cons x xs)
  from core_eq_trans [OF assms [of s x] Cons.IH] show ?case by simp
qed simp

lemma core_eq_emitMembershipExpirations:
  "core_eq (snd (expireMembershipIfNeeded now c s)) (emitMembershipExpirations pr now c s)"
  by (simp add: emitMembershipExpirations_def split_beta core_eq_foldl core_eq_emitMembershipExpiry)

lemma relay_inv_emitMembershipExpirations:
  "relay_inv s \<Longrightarrow> relay_inv (emitMembershipExpirations pr now c s)"
  by (rule relay_inv_sent [OF core_eq_emitMembershipExpirations relay_inv_expireMembership])

lemma relay_inv_removePeer: "relay_inv s \<Longrightarrow> relay_inv (removePeer c i addr s)"
proof (cases "chan s c")
  case (Some ch)
  assume inv: "relay_inv s"
  have wf: "channel_wf (talkLimit s) ch" using relay_inv_chan [OF inv Some] by simp
  have peers: "channel_wf (talkLimit s) (ch\<lparr>ch_peers := AList.delete k (ch_peers ch)\<rparr>)"
    "channel_wf (talkLimit s) (ch\<lparr>ch_peers := AList.delete k (ch_peers ch),
      ch_codecConfigs := AList.delete i (ch_codecConfigs ch),
      ch_mediaCodecConfigs := AList.delete i (ch_mediaCodecConfigs ch)\<rparr>)" for k
    using wf by (auto simp: channel_wf_def set_delete)
  show ?thesis
    using inv wf peers
    by (auto simp: removePeer_def Some Let_def intro!: relay_inv_setOrDropChan split: option.split)
qed (simp add: removePeer_def)

lemma relay_inv_grantFloor:
  assumes "relay_inv s" "channel_wf (talkLimit s) ch" "ch_peers ch \<noteq> []" "i \<noteq> 0"
    and "int (length (ch_activeTalkers ch)) < talkLimit s"
  shows "relay_inv (grantFloor c i now ch s)"
  using assms by (auto simp: grantFloor_def intro!: relay_inv_setChan channel_wf_grant)

lemma relay_inv_publish [simp]: "relay_inv (publishManagementEvent e c i v r s) = relay_inv s"
  using relay_inv_core [of s "publishManagementEvent e c i v r s"] by simp

lemma relay_inv_sends [simp]:
  "relay_inv (broadcastRelayControl pr c t i p s) = relay_inv s"
  "relay_inv (sendRelayControlTo pr c w t i p s) = relay_inv s"
  "relay_inv (sendRelayCodecConfig pr c i k s) = relay_inv s"
  "relay_inv (sendRelayCodecConfigTo pr c w i k s) = relay_inv s"
  "relay_inv (sendAuthenticatedControl pr a c i q t p s) = relay_inv s"
  "relay_inv (sendAuthenticatedChallenge pr a c i q p s) = relay_inv s"
  "relay_inv (sendPong pr a c i p s) = relay_inv s"
  "relay_inv (broadcastExceptAddr c a p s) = relay_inv s"
  by (rule relay_inv_core [THEN conjunct2], simp)+

lemma relay_inv_handlePttOn: "relay_inv s \<Longrightarrow> i \<noteq> 0 \<Longrightarrow> relay_inv (handlePttOn pr now c i s)"
  using relay_inv_chan [of s c]
  by (auto simp: handlePttOn_def Let_def intro!: relay_inv_grantFloor split: option.split)

lemma relay_inv_release:
  "relay_inv s \<Longrightarrow> chan s c = Some ch \<Longrightarrow>
   relay_inv (setChan c (ch\<lparr>ch_activeTalkers := AList.delete i (ch_activeTalkers ch)\<rparr>) s)"
  using relay_inv_chan [of s c ch] by (auto intro!: relay_inv_setChan channel_wf_release)

lemma relay_inv_handlePttOff: "relay_inv s \<Longrightarrow> relay_inv (handlePttOff pr c i s)"
  by (auto simp: handlePttOff_def relay_inv_release split: option.split)

lemma relay_inv_releaseTalk: "relay_inv s \<Longrightarrow> relay_inv (releaseTalkIfNeeded pr c i r s)"
  by (auto simp: releaseTalkIfNeeded_def relay_inv_release split: option.split)

lemma expireTalkers_kept:
  "expireTalkers now m ts = (rel, kept) \<Longrightarrow> (\<forall>(i, t)\<in>set kept. i \<in> fst ` set ts) \<and> length kept \<le> length ts \<and>
   (gomap_wf ts \<longrightarrow> gomap_wf kept)"
proof (induction ts arbitrary: rel kept)
  case (Cons a ts)
  obtain i t where a: "a = (i, t)" by (cases a)
  obtain r k where rk: "expireTalkers now m ts = (r, k)" by fastforce
  from Cons.IH [OF rk] Cons.prems show ?case
    by (auto simp: a rk Let_def split: if_splits) fastforce+
qed simp

lemma channel_wf_expireTalkers:
  assumes "channel_wf limit ch" "expireTalkers now m (ch_activeTalkers ch) = (rel, kept)"
  shows "channel_wf limit (ch\<lparr>ch_activeTalkers := kept\<rparr>)"
  using assms expireTalkers_kept [OF assms(2)]
  by (intro channel_wf_talkers) (force simp: channel_wf_def)+

lemma relay_inv_expireTalk: "relay_inv s \<Longrightarrow> relay_inv (snd (expireTalkIfNeeded now c s))"
proof (cases "chan s c")
  case (Some ch)
  assume inv: "relay_inv s"
  obtain r kept where e: "expireTalkers now (s_talkMax s) (ch_activeTalkers ch) = (r, kept)" by fastforce
  from channel_wf_expireTalkers [OF _ e] relay_inv_chan [OF inv Some] inv show ?thesis
    by (simp add: expireTalkIfNeeded_def Some e relay_inv_setChan)
qed (simp add: expireTalkIfNeeded_def)

lemma relay_inv_emitTalkTimeouts [simp]: "relay_inv (emitTalkTimeouts pr c ts s) = relay_inv s"
  unfolding emitTalkTimeouts_def
  by (rule relay_inv_core [THEN conjunct2], rule core_eq_foldl) simp

lemma relay_inv_audit [simp]: "relay_inv (publishFloorInterruptAudit r c q w v s) = relay_inv s"
proof -
  have "core_eq s (publishFloorInterruptAudit r c q w v s)"
    by (simp add: publishFloorInterruptAudit_def core_eq_def split: option.split)
  then show ?thesis by (rule relay_inv_core [THEN conjunct2])
qed

lemma relay_inv_observe:
  assumes "observeFloorInterruptDiagnostics e d s = Some t"
  shows "relay_inv t = relay_inv s" "chan t = chan s" "talkLimit t = talkLimit s"
proof -
  have "t = s \<or> (\<exists>x. t = s\<lparr>s_diagnostics := x\<rparr>)"
    using assms by (auto simp: observeFloorInterruptDiagnostics_def split: if_splits)
  then show "relay_inv t = relay_inv s" "chan t = chan s" "talkLimit t = talkLimit s"
    by (auto simp: relay_inv_def subsystems_ok_def)
qed

lemma relay_inv_denyPtt [simp]: "relay_inv (denyPttRequest pr c i s) = relay_inv s"
  by (simp add: denyPttRequest_def Let_def)

lemma selectVictim_mem:
  "selectVictim ch now ts (v, q) = (w, r) \<Longrightarrow> w = v \<or> w \<in> fst ` set ts"
  by (induction ts arbitrary: v q) (auto simp: Let_def split: if_splits)

lemma length_delete_mem: "k \<in> fst ` set m \<Longrightarrow> length (AList.delete k m) < length m"
  by (auto simp: AList.delete_eq intro!: length_filter_less)

text \<open>
  Taking the floor over from a talker: the victim goes, the requester comes, the count stays
  within the limit.
\<close>

lemma relay_inv_preempt:
  assumes inv: "relay_inv s" and ch: "chan s c = Some ch" and i: "i \<noteq> 0"
    and victim: "selectVictim ch now (ch_activeTalkers ch) (0, 0xff) = (v, q)" "v \<noteq> 0"
  shows "relay_inv (grantFloor c i now (ch\<lparr>ch_activeTalkers := AList.delete v (ch_activeTalkers ch)\<rparr>) s)"
proof -
  note wf = relay_inv_chan [OF inv ch]
  have "v \<in> fst ` set (ch_activeTalkers ch)"
    using selectVictim_mem [OF victim(1)] victim(2) by simp
  then have "length (AList.delete v (ch_activeTalkers ch)) < length (ch_activeTalkers ch)"
    by (rule length_delete_mem)
  with wf have "int (length (AList.delete v (ch_activeTalkers ch))) < talkLimit s"
    by (simp add: channel_wf_def)
  with inv wf i show ?thesis
    by (intro relay_inv_grantFloor) (simp_all add: channel_wf_release)
qed

lemma pttDecision_present:
  "pttDecision now limit ch i requester \<noteq> FloorUnauthorised \<Longrightarrow> requester \<noteq> None"
  by (auto simp: pttDecision_def split: option.splits)

lemma pttDecision_room:
  "pttDecision now limit ch i requester = FloorGranted \<Longrightarrow> int (length (ch_activeTalkers ch)) < limit"
  by (auto simp: pttDecision_def Let_def split: if_split_asm prod.splits)

lemma pttDecision_preempt:
  assumes "pttDecision now limit ch i requester = FloorPreempt v q"
  shows "selectVictim ch now (ch_activeTalkers ch) (0, 0xff) = (v, q) \<and> v \<noteq> 0 \<and>
    q < peerInterruptPriority requester now \<and> map_of (ch_activeTalkers ch) i = None \<and>
    limit \<le> int (length (ch_activeTalkers ch))"
  using assms by (auto simp: pttDecision_def Let_def not_le split: if_split_asm prod.split_asm)

text \<open>A request that panics aside, the floor after it is the one the decision names.\<close>

definition floorAfter :: "floorDecision \<Rightarrow> u32 \<Rightarrow> u32 \<Rightarrow> gotime \<Rightarrow> channel \<Rightarrow> server \<Rightarrow> server" where
  "floorAfter d c i now ch s =
     (case d of
        FloorGranted \<Rightarrow> grantFloor c i now ch s
      | FloorPreempt v q \<Rightarrow>
          grantFloor c i now (ch\<lparr>ch_activeTalkers := AList.delete v (ch_activeTalkers ch)\<rparr>) s
      | _ \<Rightarrow> s)"

lemma core_eq_audit [simp]: "core_eq s (publishFloorInterruptAudit r c q w v t) = core_eq s t"
  by (simp add: publishFloorInterruptAudit_def core_eq_def split: option.split)

lemma core_eq_broadcast_twice:
  "core_eq s (broadcastRelayControl pr c t i p (broadcastRelayControl pr c' t' i' p' s))"
  by (rule core_eq_trans [OF core_eq_sends(1) core_eq_sends(1)])

lemma core_eq_denyPtt [simp]: "core_eq s (denyPttRequest pr c i s)"
  by (simp add: denyPttRequest_def Let_def)

lemma handlePttRequest_floor:
  assumes run: "handlePttRequest pr now e c i addr s = Some (ok, t)"
    and guard: "s_floorInterrupt s" "identity_isRequired (s_identityAdmission s)" "controlAuthRequired s c"
  defines "ch \<equiv> (case chan s c of None \<Rightarrow> newChannel | Some ch \<Rightarrow> ch)"
  defines "requester \<equiv> (if chan s c = None \<or> addr = None then None else peerAt ch addr)"
  defines "d \<equiv> pttDecision now (talkLimit s) ch i requester"
  shows "(\<exists>u dl. observeFloorInterruptDiagnostics e dl (floorAfter d c i now ch s) = Some u \<and> core_eq u t) \<and>
    (ok \<longleftrightarrow> d \<noteq> FloorUnauthorised)"
proof -
  have "s_identityAdmission s \<noteq> None" using guard(2) by (auto simp: identity_isRequired_def split: option.splits)
  then show ?thesis
    using run guard
    unfolding handlePttRequest_def Let_def ch_def [symmetric] requester_def [symmetric] d_def [symmetric]
    by (cases d; clarsimp simp: floorAfter_def)
      (rule exI, rule conjI, rule exI, assumption, simp add: core_eq_broadcast_twice)+
qed

lemma handlePttRequest_refused:
  assumes "\<not> (s_floorInterrupt s \<and> identity_isRequired (s_identityAdmission s) \<and> controlAuthRequired s c)"
  shows "handlePttRequest pr now e c i addr s = Some (False, denyPttRequest pr c i s)"
  using assms by (auto simp: handlePttRequest_def)

lemma relay_inv_floorAfter:
  fixes c :: u32 and addr :: "udpaddr option"
  assumes inv: "relay_inv s" and i: "i \<noteq> 0"
  defines "ch \<equiv> (case chan s c of None \<Rightarrow> newChannel | Some ch \<Rightarrow> ch)"
  defines "requester \<equiv> (if chan s c = None \<or> addr = None then None else peerAt ch addr)"
  shows "relay_inv (floorAfter (pttDecision now (talkLimit s) ch i requester) c i now ch s)"
proof (cases "chan s c")
  case None
  then have "pttDecision now (talkLimit s) ch i requester = FloorUnauthorised"
    using pttDecision_present [of now "talkLimit s" ch i requester] by (simp add: requester_def) blast
  with inv show ?thesis by (simp add: floorAfter_def)
next
  case (Some ch')
  then have ch: "chan s c = Some ch" by (simp add: ch_def)
  note wf = relay_inv_chan [OF inv ch]
  show ?thesis
  proof (cases "pttDecision now (talkLimit s) ch i requester")
    case FloorGranted
    from inv wf i pttDecision_room [OF this] FloorGranted show ?thesis
      by (simp add: floorAfter_def relay_inv_grantFloor)
  next
    case (FloorPreempt v q)
    note p = pttDecision_preempt [OF this]
    have "relay_inv (grantFloor c i now (ch\<lparr>ch_activeTalkers := AList.delete v (ch_activeTalkers ch)\<rparr>) s)"
      by (rule relay_inv_preempt [OF inv ch i]) (use p in blast)+
    with FloorPreempt show ?thesis by (simp add: floorAfter_def)
  qed (use inv in \<open>simp_all add: floorAfter_def\<close>)
qed

lemma relay_inv_handlePttRequest:
  assumes inv: "relay_inv s" and i: "i \<noteq> 0"
    and run: "handlePttRequest pr now e c i addr s = Some (ok, t)"
  shows "relay_inv t"
proof (cases "s_floorInterrupt s \<and> identity_isRequired (s_identityAdmission s) \<and> controlAuthRequired s c")
  case False
  with run inv show ?thesis by (auto simp: handlePttRequest_refused)
next
  case True
  from handlePttRequest_floor [OF run] True obtain u dl where
    "observeFloorInterruptDiagnostics e dl (floorAfter (pttDecision now (talkLimit s)
       (case chan s c of None \<Rightarrow> newChannel | Some ch \<Rightarrow> ch) i
       (if chan s c = None \<or> addr = None then None
        else peerAt (case chan s c of None \<Rightarrow> newChannel | Some ch \<Rightarrow> ch) addr)) c i now
       (case chan s c of None \<Rightarrow> newChannel | Some ch \<Rightarrow> ch) s) = Some u" and "core_eq u t" by blast
  with relay_inv_observe(1) [OF this(1)] relay_inv_floorAfter [OF inv i] relay_inv_sent
  show ?thesis by blast
qed

subsection \<open>The admission tables inside the server\<close>

lemma relay_inv_auth_step:
  assumes "relay_inv s" "s_controlAuth s = Some a" "auth_step pr a a'"
  shows "relay_inv (s\<lparr>s_controlAuth := Some a'\<rparr>)"
  using auth_machine.inv_step [OF relay_inv_subsystems(1) [OF assms(1,2)] assms(3)] assms(1)
  by (intro relay_inv_auth) simp_all

lemma relay_inv_service_step:
  assumes "relay_inv s" "s_serviceAdmission s = Some v" "service_step pr now v v'"
  shows "relay_inv (s\<lparr>s_serviceAdmission := Some v'\<rparr>)"
  using deny_inv_step [OF relay_inv_subsystems(2) [OF assms(1,2)] assms(3)] assms(1)
  by (intro relay_inv_service) simp_all

lemma service_ops_Some:
  "snd (service_begin pr d (Some a) pkt addr meta now) \<noteq> None"
  "snd (service_proof pr (Some a) pkt addr meta now) \<noteq> None"
  "snd (service_takeVerifiedAdmission (Some a) pkt addr meta now) \<noteq> None"
  "snd (service_admissionForJoin (Some a) pkt addr meta now) \<noteq> None"
  "snd (installRevocation (Some a) target until now) \<noteq> None"
proof -
  show "snd (service_begin pr d (Some a) pkt addr meta now) \<noteq> None"
    unfolding service_begin_def Let_def split_beta option.case
    by (auto simp only: snd_conv option.simps split: if_split)
  show "snd (service_proof pr (Some a) pkt addr meta now) \<noteq> None"
    unfolding service_proof_def Let_def by (simp split: option.split)
  show "snd (service_takeVerifiedAdmission (Some a) pkt addr meta now) \<noteq> None"
    unfolding service_takeVerifiedAdmission_def Let_def by (simp split: option.split)
  show "snd (service_admissionForJoin (Some a) pkt addr meta now) \<noteq> None"
    unfolding service_admissionForJoin_def Let_def by (simp split: option.split)
  show "snd (installRevocation (Some a) target until now) \<noteq> None"
    unfolding installRevocation_def Let_def by simp
qed

lemma relay_inv_service_result:
  assumes inv: "relay_inv s"
    and none: "s_serviceAdmission s = None \<Longrightarrow> sv = None"
    and some: "\<And>v. s_serviceAdmission s = Some v \<Longrightarrow> \<exists>v'. sv = Some v' \<and> service_step pr now v v'"
  shows "relay_inv (s\<lparr>s_serviceAdmission := sv\<rparr>)"
proof (cases "s_serviceAdmission s")
  case None
  then have "sv = None" by (rule none)
  with relay_inv_service [OF inv, of None] show ?thesis by simp
next
  case (Some v)
  from some [OF Some] relay_inv_service_step [OF inv Some] show ?thesis by blast
qed

text \<open>What each operation on the service table leaves is a state the machine can step to.\<close>

lemma relay_inv_service_begin:
  assumes inv: "relay_inv s"
    and run: "service_begin pr d (s_serviceAdmission s) pkt addr meta now = (r, sv)"
  shows "relay_inv (s\<lparr>s_serviceAdmission := sv\<rparr>)"
proof (rule relay_inv_service_result [OF inv, where pr = pr and now = now])
  show "s_serviceAdmission s = None \<Longrightarrow> sv = None" using run by (simp add: service_begin_def)
  show "\<exists>v'. sv = Some v' \<and> service_step pr now v v'" if "s_serviceAdmission s = Some v" for v
    using run that service_ops_Some(1) [of pr d v pkt addr meta now] by (auto intro: ss_begin)
qed

lemma relay_inv_service_proof:
  assumes inv: "relay_inv s"
    and run: "service_proof pr (s_serviceAdmission s) pkt addr meta now = (r, sv)"
  shows "relay_inv (s\<lparr>s_serviceAdmission := sv\<rparr>)"
proof (rule relay_inv_service_result [OF inv, where pr = pr and now = now])
  show "s_serviceAdmission s = None \<Longrightarrow> sv = None" using run by (simp add: service_proof_def)
  show "\<exists>v'. sv = Some v' \<and> service_step pr now v v'" if "s_serviceAdmission s = Some v" for v
    using run that service_ops_Some(2) [of pr v pkt addr meta now] by (auto intro: ss_proof)
qed

lemma relay_inv_service_take:
  assumes inv: "relay_inv s"
    and run: "service_takeVerifiedAdmission (s_serviceAdmission s) pkt addr meta now = (r, sv)"
  shows "relay_inv (s\<lparr>s_serviceAdmission := sv\<rparr>)"
proof (rule relay_inv_service_result [OF inv, where pr = demoPrims and now = now])
  show "s_serviceAdmission s = None \<Longrightarrow> sv = None" using run by (simp add: service_takeVerifiedAdmission_def)
  show "\<exists>v'. sv = Some v' \<and> service_step demoPrims now v v'" if "s_serviceAdmission s = Some v" for v
    using run that service_ops_Some(3) [of v pkt addr meta now] by (auto intro: ss_take)
qed

lemma relay_inv_service_join:
  assumes inv: "relay_inv s"
    and run: "service_admissionForJoin (s_serviceAdmission s) pkt addr meta now = (r, sv)"
  shows "relay_inv (s\<lparr>s_serviceAdmission := sv\<rparr>)"
proof (rule relay_inv_service_result [OF inv, where pr = demoPrims and now = now])
  show "s_serviceAdmission s = None \<Longrightarrow> sv = None" using run by (simp add: service_admissionForJoin_def)
  show "\<exists>v'. sv = Some v' \<and> service_step demoPrims now v v'" if "s_serviceAdmission s = Some v" for v
    using run that service_ops_Some(4) [of v pkt addr meta now] by (auto intro: ss_join)
qed

lemma relay_inv_service_install:
  assumes inv: "relay_inv s"
    and run: "installRevocation (s_serviceAdmission s) target until now = (r, sv)"
  shows "relay_inv (s\<lparr>s_serviceAdmission := sv\<rparr>)"
proof (rule relay_inv_service_result [OF inv, where pr = demoPrims and now = now])
  show "s_serviceAdmission s = None \<Longrightarrow> sv = None" using run by (simp add: installRevocation_def)
  show "\<exists>v'. sv = Some v' \<and> service_step demoPrims now v v'" if "s_serviceAdmission s = Some v" for v
    using run that service_ops_Some(5) [of v target until now] by (auto intro: ss_revoke)
qed

subsection \<open>The handlers\<close>

lemma relay_inv_createChallenge:
  assumes "relay_inv s" "s_controlAuth s = Some a" "createChallenge pr t1 t2 a pkt addr meta = (r, a')"
  shows "relay_inv (s\<lparr>s_controlAuth := Some a'\<rparr>)"
  using relay_inv_auth_step [OF assms(1,2) auth_hello [of pr a t1 t2 pkt addr meta]] assms(3) by simp

lemma relay_inv_consume:
  assumes "relay_inv s" "s_controlAuth s = Some a"
    "consumeJoinChallenge pr t1 t2 t3 a pkt addr meta = (r, a')"
  shows "relay_inv (s\<lparr>s_controlAuth := Some a'\<rparr>)"
  using relay_inv_auth_step [OF assms(1,2) auth_join [of pr a t1 t2 t3 pkt addr meta]] assms(3) by simp

lemma relay_inv_acceptAdmission:
  assumes "relay_inv s" "acceptAdmissionControl env pkt addr meta e s = (ok, t)"
  shows "relay_inv t"
proof (cases e)
  case True
  with assms relay_inv_acceptAuthenticated [OF assms(1), of "clk env 1" pkt addr meta] show ?thesis
    by (simp add: acceptAdmissionControl_def)
next
  case False
  show ?thesis
  proof (cases "s_controlAuth s")
    case (Some a)
    with False assms(2) have "t = s\<lparr>s_controlAuth := Some (snd (acceptPreJoinControl (clk env 2) a pkt addr meta))\<rparr>"
      by (auto simp: acceptAdmissionControl_def split: prod.splits)
    with relay_inv_auth_step [OF assms(1) Some auth_prejoin] show ?thesis by simp
  qed (use False assms in \<open>simp add: acceptAdmissionControl_def\<close>)
qed

lemma relay_inv_handleAuthHello: "relay_inv s \<Longrightarrow> relay_inv (handleAuthHello pr env pkt addr s)"
  using relay_inv_createChallenge [of s]
  by (auto simp: handleAuthHello_def Let_def split: prod.split option.split)

lemma relay_inv_handlePing: "relay_inv s \<Longrightarrow> relay_inv (handlePing pr env pkt addr s)"
proof -
  assume inv: "relay_inv s"
  have acc: "relay_inv (snd (acceptAuthenticatedPeerControl t pkt addr meta s))" for t meta
    by (rule relay_inv_acceptAuthenticated [OF inv])
  have touch: "relay_inv u \<Longrightarrow> relay_inv (snd (touchKnownPeer t c i addr u))" for t c i u
    by (rule relay_inv_touch)
  show ?thesis
    unfolding handlePing_def Let_def split_beta
    using inv acc touch by simp
qed

lemma relay_inv_handleIdentityPacket: "relay_inv s \<Longrightarrow> relay_inv (handleIdentityPacket pr env pkt addr s)"
proof -
  assume inv: "relay_inv s"
  have acc: "relay_inv (snd (acceptAdmissionControl env pkt addr meta e s))" for meta e
    using relay_inv_acceptAdmission [OF inv] by (metis prod.collapse)
  show ?thesis
    unfolding handleIdentityPacket_def Let_def split_beta
    using inv acc
    by (simp add: relay_inv_identity relay_inv_setPeerIdentity split: sum.split option.split)
qed

lemma relay_inv_handleServicePacket: "relay_inv s \<Longrightarrow> relay_inv (handleServicePacket pr env pkt addr s)"
proof -
  assume inv: "relay_inv s"
  have acc: "relay_inv (snd (acceptAdmissionControl env pkt addr meta e s))" for meta e
    using relay_inv_acceptAdmission [OF inv] by (metis prod.collapse)
  have ops: "relay_inv u \<Longrightarrow>
      relay_inv (u\<lparr>s_serviceAdmission := snd (service_begin pr d (s_serviceAdmission u) pkt addr meta t)\<rparr>)"
    "relay_inv u \<Longrightarrow>
      relay_inv (u\<lparr>s_serviceAdmission := snd (service_proof pr (s_serviceAdmission u) pkt addr meta t)\<rparr>)"
    "relay_inv u \<Longrightarrow> relay_inv (u\<lparr>s_serviceAdmission :=
        snd (service_takeVerifiedAdmission (s_serviceAdmission u) pkt addr meta t)\<rparr>)"
    for u d meta t
    using relay_inv_service_begin relay_inv_service_proof relay_inv_service_take
    by (metis prod.collapse)+
  have ops2: "relay_inv u \<Longrightarrow> relay_inv (u\<lparr>s_serviceAdmission := snd (service_takeVerifiedAdmission
        (snd (service_proof pr (s_serviceAdmission u) pkt addr meta t)) pkt addr meta t)\<rparr>)" for u meta t
    using ops(3) [OF ops(2)] by simp
  show ?thesis
    unfolding handleServicePacket_def Let_def split_beta
    using inv acc ops ops2
    by (simp add: relay_inv_setPeerService split: sum.split option.split)
qed

lemma resolveJoin_inv: "relay_inv s \<Longrightarrow> relay_inv (snd (resolveJoinAdmission now pkt addr meta s))"
proof -
  assume inv: "relay_inv s"
  let ?ia = "snd (identity_admissionForJoin (s_identityAdmission s) pkt addr meta now)"
  let ?sv = "snd (service_admissionForJoin (s_serviceAdmission s) pkt addr meta now)"
  have "relay_inv (s\<lparr>s_identityAdmission := ?ia\<rparr>)" by (rule relay_inv_identity [OF inv])
  then have "relay_inv (s\<lparr>s_identityAdmission := ?ia, s_serviceAdmission := ?sv\<rparr>)"
    by (rule relay_inv_service_join [of _ pkt addr meta now "fst (service_admissionForJoin
          (s_serviceAdmission s) pkt addr meta now)"]) simp
  then show ?thesis unfolding resolveJoinAdmission_def Let_def split_beta by simp
qed

lemma relay_inv_joinAuthenticated:
  assumes inv: "relay_inv s" and i: "h_SenderId (pk_Header pkt) \<noteq> 0"
  shows "relay_inv (snd (joinAuthenticated pr env pkt addr s))"
proof (cases "s_controlAuth s")
  case (Some a)
  obtain meta ok where v: "verifyIncomingControl pr (s_controlAuth s) pkt = (meta, ok)" by fastforce
  obtain r a' where consume: "consumeJoinChallenge pr (clk env 1) (clk env 2) (clk env 3) a pkt addr meta = (r, a')"
    by fastforce
  have inv1: "relay_inv (s\<lparr>s_controlAuth := Some a'\<rparr>)" by (rule relay_inv_consume [OF inv Some consume])
  show ?thesis
  proof (cases r)
    case None
    with inv1 show ?thesis
      unfolding joinAuthenticated_def Let_def v prod.case
      unfolding \<open>s_controlAuth s = Some a\<close> option.case consume prod.case
      by simp
  next
    case (Some replay)
    then have addr: "addr \<noteq> None"
      using consume unfolding consumeJoinChallenge_def by (cases addr) simp_all
    obtain q s1 where res: "resolveJoinAdmission (clk env 4) pkt addr meta (s\<lparr>s_controlAuth := Some a'\<rparr>) = (q, s1)"
      by fastforce
    have inv2: "relay_inv s1" using resolveJoin_inv [OF inv1, of "clk env 4" pkt addr meta] res by simp
    have inv3: "relay_inv (upsertAuthenticatedPeerWithReplay t c (h_SenderId (pk_Header pkt)) addr meta replay s1)" for t c
      by (rule relay_inv_upsertAuthenticated [OF inv2 i addr])
    note run = joinAuthenticated_def [of pr env pkt addr s, unfolded Let_def v prod.case,
        unfolded \<open>s_controlAuth s = Some a\<close> option.case consume \<open>r = Some replay\<close> prod.case, unfolded option.case res]
    show ?thesis
    proof (cases q)
      case (Inl d)
      obtain x y where d: "d = (x, y)" by fastforce
      from inv2 show ?thesis unfolding run Inl d sum.case prod.case option.case by simp
    next
      case (Inr adm)
      obtain identity service where adm: "adm = (identity, service)" by fastforce
      show ?thesis
        unfolding run Inr adm sum.case prod.case option.case split_beta
        using inv2 inv3
        by (simp add: relay_inv_setPeerIdentity relay_inv_setPeerService
            relay_inv_startMembership split: option.split)
    qed
  qed
qed (use inv in \<open>simp add: joinAuthenticated_def split_beta\<close>)

lemma relay_inv_joinPlain:
  assumes "relay_inv s" "h_SenderId (pk_Header pkt) \<noteq> 0" "addr \<noteq> None"
  shows "relay_inv (snd (joinPlain env pkt addr s))"
proof -
  obtain ch s1 where get: "getOrCreateChannel (h_ChannelId (pk_Header pkt)) s = (ch, s1)" by fastforce
  from relay_inv_upsertPeer [OF assms(1) get assms(2,3), of "clk env 5"] assms(1) show ?thesis
    by (simp add: joinPlain_def Let_def get split_beta relay_inv_startMembership)
qed

lemma relay_inv_controlGate:
  assumes "relay_inv s" "h_SenderId (pk_Header pkt) \<noteq> 0" "addr \<noteq> None"
  shows "relay_inv (snd (controlGate pr env pkt addr s))"
  using assms
  by (simp add: controlGate_def Let_def split_beta relay_inv_joinAuthenticated relay_inv_joinPlain
      relay_inv_acceptAuthenticated relay_inv_acceptUnauthenticated)

lemma relay_inv_handleMedia: "relay_inv s \<Longrightarrow> relay_inv (handleMediaPacket t1 t2 pkt addr s)"
  by (simp add: handleMediaPacket_def Let_def split_beta relay_inv_refreshMembership)

lemma relay_inv_cacheCodec: "relay_inv s \<Longrightarrow> relay_inv (snd (cacheCodecConfig c i p k a s))"
  using relay_inv_chan [of s c]
  by (auto simp: cacheCodecConfig_def Let_def channel_wf_def intro!: relay_inv_setChan
      split: option.split)

lemma relay_inv_handleJoined [simp]: "relay_inv (handleJoined pr c i j s) = relay_inv s"
proof -
  have step: "core_eq s (sendRelayControlTo pr c i t z w (if b then sendRelayCodecConfigTo pr c i x y s else s))"
    for s b x y t z w
    using core_eq_trans [OF core_eq_sends(4) core_eq_sends(2)] by simp
  have "core_eq u (sendCurrentTalkState pr c i u)" for u
    unfolding sendCurrentTalkState_def Let_def
    by (cases "chan u c") (use core_eq_foldl [OF step] in auto)
  from relay_inv_core [OF this] show ?thesis
    unfolding handleJoined_def sendServerConfig_def by simp
qed

lemma relay_inv_dispatch:
  assumes inv: "relay_inv s" and i: "h_SenderId (pk_Header pkt) \<noteq> 0"
    and run: "dispatchControl pr env q pkt addr j s = Some t"
  shows "relay_inv t"
proof -
  note ops = relay_inv_refreshMembership relay_inv_handlePttOn relay_inv_handlePttOff relay_inv_removePeer
    relay_inv_releaseTalk
  have codec: "relay_inv (handleCodecConfig pr env q pkt addr s)"
    using relay_inv_cacheCodec [OF inv] ops(1)
    unfolding handleCodecConfig_def Let_def split_beta by (simp split: option.split)
  have leave: "relay_inv (handleLeave pr c k addr s)" for c k
    using inv ops by (simp add: handleLeave_def)
  have request: "relay_inv u" if "handlePttRequest pr a b c (h_SenderId (pk_Header pkt)) addr s = Some (ok, u)"
    for a b c ok u
    by (rule relay_inv_handlePttRequest [OF inv i that])
  show ?thesis
    using run inv i ops codec leave
    unfolding dispatchControl_def Let_def
    by (auto dest: request split: if_split_asm)
qed

lemma relay_inv_handlePacket:
  assumes inv: "relay_inv s" and addr: "addr \<noteq> None"
    and run: "handlePacket pr env pkt addr s = Some t"
  shows "relay_inv t"
proof (cases "h_Version (pk_Header pkt) \<noteq> protocolVersion \<or> h_SenderId (pk_Header pkt) = 0")
  case True
  with run inv show ?thesis by (simp add: handlePacket_def)
next
  case False
  let ?c = "h_ChannelId (pk_Header pkt)"
  let ?s0 = "emitMembershipExpirations pr (clk env 0) ?c s"
  have inv0: "relay_inv ?s0" by (rule relay_inv_emitMembershipExpirations [OF inv])
  obtain g s1 where gate: "controlGate pr env pkt addr ?s0 = (g, s1)" by fastforce
  have inv1: "relay_inv s1"
    using relay_inv_controlGate [OF inv0 _ addr, of pkt pr env] False gate by simp
  have inv2: "relay_inv (emitTalkTimeouts pr ?c rel (snd (expireTalkIfNeeded t ?c s1)))" for t rel
    using relay_inv_expireTalk [OF inv1] by simp
  show ?thesis
    using run False inv1 relay_inv_handleMedia [OF inv0] relay_inv_handleAuthHello [OF inv0]
      relay_inv_handlePing [OF inv0] relay_inv_handleIdentityPacket [OF inv0]
      relay_inv_handleServicePacket [OF inv0] relay_inv_dispatch [OF inv2]
    unfolding handlePacket_def Let_def gate split_beta
    by (auto split: if_split_asm option.split_asm)
qed

end
