(* ===== verification/Relay_Machine.thy ===== *)
theory Relay_Machine
  imports Relay_Invariant
begin

text \<open>
  The Relay as a machine. A section is one critical section of the code, or one send, with arbitrary
  arguments; every schedule of the packet loop, the clean-up ticker and the private control link is
  a sequence of sections. The invariant of the Relay is an invariant of that machine, hence of every
  interleaving, and of the composed handlers as well.
\<close>

subsection \<open>Clean-up, revocation and the receive loop\<close>

lemma channel_wf_cleanupChannel:
  assumes wf: "channel_wf limit ch" and run: "cleanupChannel now m c ch = (rel, dep, ch')"
  shows "channel_wf limit ch'"
proof -
  obtain expired ch1 where e: "expirePeers now (ch_peers ch) ch = (expired, ch1)" by fastforce
  obtain timedOut kept where k: "expireTalkers now m (ch_activeTalkers ch1) = (timedOut, kept)" by fastforce
  have wf1: "channel_wf limit ch1" by (rule channel_wf_expirePeers [OF wf e])
  with channel_wf_expireTalkers [OF wf1 k] run show ?thesis
    by (auto simp: cleanupChannel_def e k Let_def split: if_split_asm)
qed

lemma cleanupChannels_keys:
  "cleanupChannels now m cs = (rel, dep, cs') \<Longrightarrow> fst ` set cs' \<subseteq> fst ` set cs"
proof (induction cs arbitrary: rel dep cs')
  case (Cons x cs)
  obtain c ch where x: "x = (c, ch)" by (cases x)
  obtain r d ch' where h: "cleanupChannel now m c ch = (r, d, ch')" by (metis prod_cases3)
  obtain rs ds cs1 where t: "cleanupChannels now m cs = (rs, ds, cs1)" by (metis prod_cases3)
  have "cs' = (if ch_peers ch' = [] then cs1 else (c, ch') # cs1)"
    using Cons.prems by (simp add: x h t)
  with Cons.IH [OF t] show ?case by (simp add: x) blast
qed simp

text \<open>The clean-up of the channel table, channel by channel.\<close>

lemma cleanupChannels_map:
  assumes "gomap_wf cs" "cleanupChannels now m cs = (rel, dep, cs')"
  shows "gomap_wf cs' \<and> (\<forall>c. map_of cs' c =
    (case map_of cs c of None \<Rightarrow> None
     | Some ch \<Rightarrow> (let ch' = snd (snd (cleanupChannel now m c ch)) in
         if ch_peers ch' = [] then None else Some ch')))"
  using assms
proof (induction cs arbitrary: rel dep cs')
  case (Cons x cs)
  obtain c ch where x: "x = (c, ch)" by (cases x)
  obtain r d ch' where h: "cleanupChannel now m c ch = (r, d, ch')" by (metis prod_cases3)
  obtain rs ds cs1 where t: "cleanupChannels now m cs = (rs, ds, cs1)" by (metis prod_cases3)
  have wf: "gomap_wf cs" and fresh: "c \<notin> fst ` set cs" using Cons.prems(1) x by auto
  note IH = Cons.IH [OF wf t]
  have "c \<notin> fst ` set cs1" using cleanupChannels_keys [OF t] fresh by blast
  moreover have "map_of cs c = None" using fresh by (simp add: map_of_eq_None_iff)
  moreover have "cs' = (if ch_peers ch' = [] then cs1 else (c, ch') # cs1)"
    using Cons.prems(2) by (simp add: x h t)
  ultimately show ?case using IH by (auto simp: x h Let_def)
qed simp

lemma core_eq_cleanup:
  assumes "cleanupChannels now (s_talkMax s) (s_channels s) = (rel, dep, cs)"
  shows "core_eq (s\<lparr>s_channels := cs\<rparr>) (cleanupTick pr now s)"
  unfolding cleanupTick_def Let_def assms prod.case
  by (rule core_eq_trans; rule core_eq_foldl) simp_all

lemma relay_inv_channels:
  assumes "relay_inv s" "gomap_wf cs"
    "\<And>c ch. map_of cs c = Some ch \<Longrightarrow> channel_wf (talkLimit s) ch \<and> ch_peers ch \<noteq> []"
  shows "relay_inv (s\<lparr>s_channels := cs\<rparr>)"
proof -
  have "talkLimit (s\<lparr>s_channels := cs\<rparr>) = talkLimit s" by (simp add: talkLimit_def)
  with assms show ?thesis by (simp add: relay_inv_def subsystems_ok_def chan_def)
qed

lemma relay_inv_cleanupTick: "relay_inv s \<Longrightarrow> relay_inv (cleanupTick pr now s)"
proof -
  assume inv: "relay_inv s"
  obtain rel dep cs where t: "cleanupChannels now (s_talkMax s) (s_channels s) = (rel, dep, cs)"
    by (metis prod_cases3)
  have "gomap_wf (s_channels s)" using inv by (simp add: relay_inv_def)
  note cs = cleanupChannels_map [OF this t]
  have "relay_inv (s\<lparr>s_channels := cs\<rparr>)"
  proof (rule relay_inv_channels [OF inv])
    show "gomap_wf cs" using cs by blast
    fix c ch' assume "map_of cs c = Some ch'"
    then obtain ch where "chan s c = Some ch" and ch': "ch' = snd (snd (cleanupChannel now (s_talkMax s) c ch))"
      and ne: "ch_peers ch' \<noteq> []"
      using cs by (auto simp: chan_def Let_def split: option.split_asm if_split_asm)
    then show "channel_wf (talkLimit s) ch' \<and> ch_peers ch' \<noteq> []"
      using channel_wf_cleanupChannel [of "talkLimit s" ch now "s_talkMax s" c] relay_inv_chan [OF inv]
      by (metis prod.collapse)
  qed
  then show ?thesis by (rule relay_inv_sent [OF core_eq_cleanup [OF t]])
qed

lemma channel_wf_revokePeers:
  "channel_wf limit ch \<Longrightarrow> revokePeers target ps ch = (r, ch') \<Longrightarrow> channel_wf limit ch'"
proof (induction ps arbitrary: ch r)
  case (Cons kp ps)
  obtain k p where kp: "kp = (k, p)" by (cases kp)
  show ?case
    using Cons.prems Cons.IH channel_wf_dropPeer [OF Cons.prems(1)]
    by (auto simp: kp Let_def split: option.split_asm if_split_asm prod.split_asm)
qed simp

lemma core_eq_emitRevocation: "core_eq s (emitRevocation pr c rp s)"
proof -
  have twice: "core_eq s (snd (relayControlForPeer pr c p t i q (broadcastRelayControl pr c t' i' q' u)))"
    if "core_eq s u" for u p t i q t' i' q'
    using core_eq_trans [OF core_eq_trans [OF that core_eq_sends(1)] core_eq_relayControlForPeer] .
  show ?thesis
    by (simp add: emitRevocation_def Let_def split_beta twice)
qed

lemma relay_inv_revoke:
  assumes inv: "relay_inv s" and run: "revokeManagedServiceAdmission pr target until now s = (r, t)"
  shows "relay_inv t"
proof (cases "s_serviceAdmission s = None")
  case True
  with inv run show ?thesis by (simp add: revokeManagedServiceAdmission_def)
next
  case False
  obtain ok sv where i: "installRevocation (s_serviceAdmission s) target until now = (ok, sv)" by fastforce
  have inv1: "relay_inv (s\<lparr>s_serviceAdmission := sv\<rparr>)" by (rule relay_inv_service_install [OF inv i])
  have each: "relay_inv (foldl (\<lambda>s rp. emitRevocation pr c rp s) u xs)" if "relay_inv u" for c xs u
    by (rule relay_inv_sent [OF core_eq_foldl [OF core_eq_emitRevocation] that])
  have drop: "relay_inv (setOrDropChan c (snd (revokePeers target (ch_peers ch) ch)) (s\<lparr>s_serviceAdmission := sv\<rparr>))"
    if "chan s c = Some ch" for c ch
    using relay_inv_chan [OF inv that] channel_wf_revokePeers [of "talkLimit s" ch target "ch_peers ch"]
    by (intro relay_inv_setOrDropChan [OF inv1]) (metis prod.collapse subsystem_frame(2))
  show ?thesis
    using run False inv1 each drop
    by (cases ok; cases "chan s (rt_channelID target)")
      (auto simp: revokeManagedServiceAdmission_def i Let_def split_beta)
qed

lemma relay_inv_observePacketSize [simp]: "relay_inv (observePacketSize now pkt n s) = relay_inv s"
proof -
  have "core_eq s (observePacketSize now pkt n s)"
    by (simp add: observePacketSize_def Let_def core_eq_def)
  then show ?thesis by (rule relay_inv_core [THEN conjunct2])
qed

lemma relay_inv_receive:
  assumes "relay_inv s" "receiveDatagram pr env mp now data (Some addr) s = (fate, Some t)"
  shows "relay_inv t"
  using assms relay_inv_handlePacket [of "observePacketSize now pkt (int (length data)) s" "Some addr" for pkt]
  by (auto simp: receiveDatagram_def split: if_split_asm option.split_asm)

subsection \<open>Sections\<close>

text \<open>
  One critical section under the server's mutex or under the mutex of an admission table, or one
  send. The sender of a packet that reaches a section is not 0 and its address is not nil, which the
  handler checks first; everything else is arbitrary.
\<close>

inductive relay_section :: "prims \<Rightarrow> server \<Rightarrow> server \<Rightarrow> bool" for pr where
  sec_send: "core_eq s t \<Longrightarrow> relay_section pr s t"
| sec_upsertPeer: "i \<noteq> 0 \<Longrightarrow> addr \<noteq> None \<Longrightarrow> getOrCreateChannel c s = (ch, s1) \<Longrightarrow>
    relay_section pr s (setChan c (upsertPeer now i addr ch) s1)"
| sec_upsertAuthenticated: "i \<noteq> 0 \<Longrightarrow> addr \<noteq> None \<Longrightarrow>
    relay_section pr s (upsertAuthenticatedPeerWithReplay now c i addr meta replay s)"
| sec_identityAdmission: "relay_section pr s (snd (setPeerIdentityAdmission c i addr ia s))"
| sec_serviceAdmission: "relay_section pr s (snd (setPeerServiceAdmission now c i addr sa s))"
| sec_touch: "relay_section pr s (snd (touchKnownPeer now c i addr s))"
| sec_acceptPlain: "relay_section pr s (snd (acceptUnauthenticatedPeerControl now c i addr s))"
| sec_acceptAuthenticated: "relay_section pr s (snd (acceptAuthenticatedPeerControl now pkt addr meta s))"
| sec_start: "relay_section pr s (snd (startMembership now c i addr s))"
| sec_refresh: "relay_section pr s (snd (refreshMembership now c i addr s))"
| sec_expireMembership: "relay_section pr s (snd (expireMembershipIfNeeded now c s))"
| sec_remove: "relay_section pr s (removePeer c i addr s)"
| sec_codec: "relay_section pr s (snd (cacheCodecConfig c i payload k authenticated s))"
| sec_pttOn: "i \<noteq> 0 \<Longrightarrow> relay_section pr s (handlePttOn pr now c i s)"
| sec_pttRequest: "i \<noteq> 0 \<Longrightarrow> handlePttRequest pr now epoch c i addr s = Some (ok, t) \<Longrightarrow> relay_section pr s t"
| sec_pttOff: "relay_section pr s (handlePttOff pr c i s)"
| sec_release: "relay_section pr s (releaseTalkIfNeeded pr c i reason s)"
| sec_expireTalk: "relay_section pr s (snd (expireTalkIfNeeded now c s))"
| sec_cleanup: "relay_section pr s (cleanupTick pr now s)"
| sec_auth: "s_controlAuth s = Some a \<Longrightarrow> auth_step pr a a' \<Longrightarrow>
    relay_section pr s (s\<lparr>s_controlAuth := Some a'\<rparr>)"
| sec_identity: "relay_section pr s (s\<lparr>s_identityAdmission := ia\<rparr>)"
| sec_service: "s_serviceAdmission s = Some v \<Longrightarrow> service_step pr now v v' \<Longrightarrow>
    relay_section pr s (s\<lparr>s_serviceAdmission := Some v'\<rparr>)"
| sec_revokePeers: "chan s (rt_channelID target) = Some ch \<Longrightarrow> revokePeers target (ch_peers ch) ch = (r, ch') \<Longrightarrow>
    relay_section pr s (setOrDropChan (rt_channelID target) ch' s)"

lemma relay_inv_section:
  assumes "relay_inv s" "relay_section pr s t"
  shows "relay_inv t"
  using assms(2,1)
proof cases
  case (sec_revokePeers target ch r ch')
  then show ?thesis
    using assms(1) relay_inv_chan [OF assms(1)] channel_wf_revokePeers [OF _ sec_revokePeers(3)]
    by (auto intro: relay_inv_setOrDropChan)
qed (auto intro: relay_inv_sent relay_inv_upsertPeer relay_inv_upsertAuthenticated relay_inv_setPeerIdentity
    relay_inv_setPeerService relay_inv_touch relay_inv_acceptUnauthenticated relay_inv_acceptAuthenticated
    relay_inv_startMembership relay_inv_refreshMembership relay_inv_expireMembership relay_inv_removePeer
    relay_inv_cacheCodec relay_inv_handlePttOn relay_inv_handlePttRequest relay_inv_handlePttOff
    relay_inv_releaseTalk relay_inv_expireTalk relay_inv_cleanupTick relay_inv_auth_step
    relay_inv_identity relay_inv_service_step)

interpretation section_machine: invariant_machine "relay_section pr" relay_inv
  for pr by unfold_locales (rule relay_inv_section)

text \<open>One event of the process handled without interruption.\<close>

inductive relay_event :: "prims \<Rightarrow> server \<Rightarrow> server \<Rightarrow> bool" for pr where
  ev_datagram: "receiveDatagram pr env mp now data (Some addr) s = (fate, Some t) \<Longrightarrow> relay_event pr s t"
| ev_cleanup: "relay_event pr s (cleanupTick pr now s)"
| ev_revoke: "revokeManagedServiceAdmission pr target until now s = (r, t) \<Longrightarrow> relay_event pr s t"

interpretation event_machine: invariant_machine "relay_event pr" relay_inv
  for pr
proof unfold_locales
  fix s t assume "relay_inv s" "relay_event pr s t"
  from this(2,1) show "relay_inv t"
    by cases (auto intro: relay_inv_receive relay_inv_cleanupTick relay_inv_revoke)
qed

subsection \<open>From the start of the process\<close>

text \<open>The server as the command line sets it up: admission tables that are empty or valid.\<close>

definition configured ::
  "gotime \<Rightarrow> relayDiagnosticsState \<Rightarrow> bool \<Rightarrow> duration \<Rightarrow> bool \<Rightarrow> int \<Rightarrow> controlAuthState option \<Rightarrow>
   identityAdmissionState option \<Rightarrow> bool \<Rightarrow> serviceAdmissionState option \<Rightarrow> server" where
  "configured now d noCrypto talkMax multiTalk maxTalkers ca ia interrupt sv =
     configureServiceAdmission sv (configureIdentityAdmission ia interrupt
       (configureControlAuth ca (newServer now d noCrypto talkMax multiTalk maxTalkers)))"

lemma relay_inv_configured:
  assumes "case ca of None \<Rightarrow> True | Some a \<Rightarrow> pending_inv a"
    "case sv of None \<Rightarrow> True | Some v \<Rightarrow> deny_inv v"
  shows "relay_inv (configured now d nc tm mt mx ca ia fi sv)"
  using assms
  by (simp add: configured_def configureServiceAdmission_def configureIdentityAdmission_def
      configureControlAuth_def newServer_def relay_inv_def subsystems_ok_def chan_def)

lemma relay_inv_timing: "relay_inv s \<Longrightarrow> relay_inv (s\<lparr>s_membershipLease := l, s_keepaliveInterval := k\<rparr>)"
proof -
  assume inv: "relay_inv s"
  have "talkLimit (s\<lparr>s_membershipLease := l, s_keepaliveInterval := k\<rparr>) = talkLimit s"
    by (simp add: talkLimit_def)
  with inv show ?thesis by (simp add: relay_inv_def subsystems_ok_def chan_def)
qed

subsection \<open>Settings never change\<close>

definition settings :: "server \<Rightarrow> bool \<times> int \<times> duration \<times> duration" where
  "settings s = (s_multiTalk s, s_maxActiveTalkers s, s_talkMax s, s_membershipLease s)"

lemma settings_core: "core_eq s t \<Longrightarrow> settings t = settings s"
  by (simp add: settings_def core_eq_def)

lemma settings_setChan [simp]:
  "settings (setChan c ch s) = settings s" "settings (setOrDropChan c ch s) = settings s"
  by (simp_all add: settings_def)

lemma settings_tables [simp]:
  "settings (s\<lparr>s_controlAuth := x\<rparr>) = settings s" "settings (s\<lparr>s_identityAdmission := y\<rparr>) = settings s"
  "settings (s\<lparr>s_serviceAdmission := z\<rparr>) = settings s" "settings (s\<lparr>s_diagnostics := w\<rparr>) = settings s"
  "settings (s\<lparr>s_channels := cs\<rparr>) = settings s"
  by (simp_all add: settings_def)

lemma settings_sends [simp]:
  "settings (publishManagementEvent e c i v r s) = settings s"
  "settings (broadcastRelayControl pr c t i p s) = settings s"
  "settings (sendRelayControlTo pr c w t i p s) = settings s"
  by (rule settings_core, simp)+

lemma settings_getOrCreate: "getOrCreateChannel c s = (ch, s1) \<Longrightarrow> settings s1 = settings s"
  by (auto simp: getOrCreateChannel_def split: option.split_asm)

lemma settings_upsertAuthenticated:
  "settings (upsertAuthenticatedPeerWithReplay now c i addr meta replay s) = settings s"
  using settings_getOrCreate
  by (simp add: upsertAuthenticatedPeerWithReplay_def Let_def split: prod.split)

lemma settings_setPeerService: "settings (snd (setPeerServiceAdmission now c i addr sa s)) = settings s"
  by (simp add: setPeerServiceAdmission_def Let_def split: prod.split option.split)

lemma settings_touch: "settings (snd (touchKnownPeer now c i addr s)) = settings s"
  by (simp add: touchKnownPeer_def Let_def split: prod.split option.split)

lemma settings_acceptAuthenticated: "settings (snd (acceptAuthenticatedPeerControl now pkt addr meta s)) = settings s"
  by (simp add: acceptAuthenticatedPeerControl_def Let_def split: prod.split option.split)

lemma settings_peer_ops:
  "settings (snd (setPeerIdentityAdmission c i addr ia s)) = settings s"
  "settings (snd (acceptUnauthenticatedPeerControl now c i addr s)) = settings s"
  "settings (snd (startMembership now c i addr s)) = settings s"
  "settings (snd (refreshMembership now c i addr s)) = settings s"
  by (simp_all add: setPeerIdentityAdmission_def acceptUnauthenticatedPeerControl_def
      startMembership_def refreshMembership_def split: option.split)

lemma settings_channel_ops:
  "settings (snd (expireMembershipIfNeeded now c s)) = settings s"
  "settings (removePeer c i addr s) = settings s"
  "settings (snd (expireTalkIfNeeded now c s)) = settings s"
  "settings (snd (cacheCodecConfig c i p k b s)) = settings s"
  by (simp_all add: expireMembershipIfNeeded_def removePeer_def expireTalkIfNeeded_def
      cacheCodecConfig_def Let_def split_beta split: option.split)

lemma settings_floor_ops:
  "settings (handlePttOn pr now c i s) = settings s" "settings (handlePttOff pr c i s) = settings s"
  "settings (releaseTalkIfNeeded pr c i reason s) = settings s"
  by (simp_all add: handlePttOn_def handlePttOff_def releaseTalkIfNeeded_def grantFloor_def Let_def
      split: option.split)

lemma settings_floorAfter: "settings (floorAfter d c i now ch s) = settings s"
  by (simp add: floorAfter_def grantFloor_def split: floorDecision.split)

lemma settings_pttRequest:
  assumes run: "handlePttRequest pr now e c i addr s = Some (ok, t)"
  shows "settings t = settings s"
proof (cases "s_floorInterrupt s \<and> identity_isRequired (s_identityAdmission s) \<and> controlAuthRequired s c")
  case False
  with run have "t = denyPttRequest pr c i s" by (auto simp: handlePttRequest_refused)
  then show ?thesis using settings_core [OF core_eq_denyPtt] by simp
next
  case True
  from handlePttRequest_floor [OF run] True obtain d ch u dl where
    u: "observeFloorInterruptDiagnostics e dl (floorAfter d c i now ch s) = Some u" and "core_eq u t" by blast
  moreover have "settings u = settings (floorAfter d c i now ch s)"
    using u by (auto simp: observeFloorInterruptDiagnostics_def split: if_split_asm)
  ultimately show ?thesis using settings_core settings_floorAfter by simp
qed

lemma settings_cleanup: "settings (cleanupTick pr now s) = settings s"
proof -
  obtain rel dep cs where "cleanupChannels now (s_talkMax s) (s_channels s) = (rel, dep, cs)"
    by (metis prod_cases3)
  from settings_core [OF core_eq_cleanup [OF this]] show ?thesis by simp
qed

lemma settings_section: "relay_section pr s t \<Longrightarrow> settings t = settings s"
  by (induction rule: relay_section.induct)
    (simp_all add: settings_core settings_getOrCreate settings_upsertAuthenticated settings_setPeerService
      settings_touch settings_acceptAuthenticated settings_peer_ops settings_channel_ops settings_floor_ops
      settings_pttRequest settings_cleanup)

interpretation settings_machine: invariant_machine "relay_section pr" "\<lambda>s. settings s = x"
  for pr x by unfold_locales (simp add: settings_section)

text \<open>
  C1. From the start of the process and whatever the order in which the packet loop, the clean-up
  ticker and the revocations of the private control link enter their critical sections, with
  whatever packets, addresses and clock readings: no channel ever has more simultaneous talkers than
  configured (one without multi-talk, never more than 16), an empty channel does not exist, every
  peer is stored once, under the key of its own endpoint and with a non-zero sender, and no peer
  holds a human and a service admission at once.
\<close>

theorem relay_safe:
  assumes auth: "newControlAuthState policy keys secret entropy = Inr a"
    and service: "newServiceAdmissionState mode issuer audience skeys = Inr sv"
    and timing: "configureMembershipTiming lease keepalive
      (configured now d noCrypto talkMax multiTalk maxTalkers (Some a) ia interrupt sv) = Some s0"
    and run: "steps (relay_section pr) s0 s" and ch: "chan s c = Some ch"
  shows "int (length (ch_activeTalkers ch)) \<le> (if multiTalk then max 1 (min 16 maxTalkers) else 1) \<and>
    ch_peers ch \<noteq> [] \<and> distinct (map fst (ch_peers ch)) \<and>
    (\<forall>(k, p)\<in>set (ch_peers ch). k \<noteq> None \<and> k = peerMapKey (p_addr p) \<and> p_senderId p \<noteq> 0 \<and>
       (p_identityAdmission p = None \<or> p_serviceAdmission p = None))"
proof -
  let ?b = "configured now d noCrypto talkMax multiTalk maxTalkers (Some a) ia interrupt sv"
  have "case sv of None \<Rightarrow> True | Some v \<Rightarrow> deny_inv v"
    using service by (auto simp: newServiceAdmissionState_def deny_inv_def split: if_splits)
  then have "relay_inv ?b" using pending_inv_new [OF auth] by (intro relay_inv_configured) simp_all
  moreover have s0: "s0 = ?b\<lparr>s_membershipLease := lease, s_keepaliveInterval := keepalive\<rparr>"
    using timing by (simp add: configureMembershipTiming_def split: if_split_asm)
  ultimately have "relay_inv s0" by (simp add: relay_inv_timing)
  from section_machine.inv_steps [OF run this] ch have wf: "channel_wf (talkLimit s) ch" "ch_peers ch \<noteq> []"
    by (simp_all add: relay_inv_def)
  have "settings s = settings s0" by (rule settings_machine.inv_steps [OF run refl])
  then have "talkLimit s = (if multiTalk then max 1 (min 16 maxTalkers) else 1)"
    by (simp add: settings_def s0 talkLimit_def configured_def configureServiceAdmission_def
        configureIdentityAdmission_def configureControlAuth_def newServer_def Let_def)
  with wf show ?thesis by (auto simp: channel_wf_def peer_ok_def)
qed

text \<open>A Relay with control authentication on which a client joins and talks.\<close>

definition demoRelay :: server where
  "demoRelay = configured (time_Unix 1000) fullCounters False 0 False 4 (Some demoAuth) None False None"

lemma demoRelay_chan: "s_channels demoRelay = []" "s_multiTalk demoRelay = False" "s_controlAuth demoRelay = Some demoAuth"
  by (simp_all add: demoRelay_def configured_def configureServiceAdmission_def configureIdentityAdmission_def
      configureControlAuth_def newServer_def Let_def)

lemma demoRelay_timing:
  "configureMembershipTiming defaultMembershipLease defaultKeepaliveInterval demoRelay = Some demoRelay"
proof -
  have "validMembershipTiming defaultMembershipLease defaultKeepaliveInterval"
    by (simp add: validMembershipTiming_def defaultMembershipLease_def defaultKeepaliveInterval_def
        minimumMembershipLease_def maximumMembershipLease_def minimumKeepaliveInterval_def Second_def)
  then show ?thesis
    by (simp add: configureMembershipTiming_def demoRelay_def configured_def configureServiceAdmission_def
        configureIdentityAdmission_def configureControlAuth_def newServer_def Let_def)
qed

theorem relay_safe_witness:
  "\<exists>s ch. steps (relay_section demoPrims) demoRelay s \<and> chan s 5 = Some ch \<and>
     map fst (ch_activeTalkers ch) = [11] \<and> ch_peers ch \<noteq> [] \<and> distinct (map fst (ch_peers ch))"
proof -
  let ?ch1 = "upsertPeer (time_Unix 1000) 11 (Some demoAddr) newChannel"
  let ?s1 = "setChan 5 ?ch1 (setChan 5 newChannel demoRelay)"
  let ?s2 = "handlePttOn demoPrims (time_Unix 1001) 5 11 ?s1"
  let ?ch2 = "?ch1\<lparr>ch_activeTalkers := [(11, time_Unix 1001)]\<rparr>"
  have "relay_section demoPrims demoRelay ?s1"
    by (rule sec_upsertPeer) (simp_all add: getOrCreateChannel_def chan_def demoRelay_chan)
  from steps_step [OF steps_single [of "relay_section demoPrims", OF this] sec_pttOn [of 11 demoPrims]]
  have run: "steps (relay_section demoPrims) demoRelay ?s2" by simp
  have empty: "ch_activeTalkers ?ch1 = []"
    by (simp add: upsertPeer_def Let_def setPeer_def newChannel_def)
  have lim: "talkLimit ?s1 = 1" by (simp add: talkLimit_def demoRelay_chan Let_def)
  have ch: "chan ?s2 5 = Some ?ch2"
    using lim by (simp add: handlePttOn_def empty grantFloor_def)
  have service: "newServiceAdmissionState serviceAdmissionOff [] [] [] = Inr None"
    by (simp add: newServiceAdmissionState_def)
  from relay_safe [OF demoAuth_new service demoRelay_timing [unfolded demoRelay_def]
      run [unfolded demoRelay_def] ch [unfolded demoRelay_def]] run ch
  show ?thesis by (intro exI [of _ ?s2] exI [of _ ?ch2]) simp
qed

end
