(* ===== verification/Membership_Lease.thy ===== *)
theory Membership_Lease
  imports Relay_Machine "HOL-Library.Multiset"
begin

text \<open>
  What the lease of a member amounts to: which peers an expiry pass removes and why, what a PING can
  and cannot do, that keepalives in time hold a membership, and that a clean-up tick leaves
  no member past its deadline.
\<close>

subsection \<open>One pass over the peers\<close>

definition expired_peers :: "gotime \<Rightarrow> (endpointKey option \<times> peer) list \<Rightarrow> (endpointKey option \<times> peer) list" where
  "expired_peers now ps = filter (\<lambda>(k, p). membershipExpired p now \<noteq> None) ps"

definition senders :: "(endpointKey option \<times> peer) list \<Rightarrow> u32 set" where
  "senders ps = (\<lambda>(k, p). p_senderId p) ` set ps"

lemma expired_peers_Cons [simp]:
  "expired_peers now ((k, p) # ps) =
     (if membershipExpired p now = None then expired_peers now ps else (k, p) # expired_peers now ps)"
  "expired_peers now [] = []"
  by (simp_all add: expired_peers_def)

lemma senders_Cons [simp]: "senders ((k, p) # ps) = insert (p_senderId p) (senders ps)" "senders [] = {}"
  by (simp_all add: senders_def)

text \<open>What a pass removes from a channel: peers by key, floor and codec state by sender.\<close>

definition dropKeys :: "'k set \<Rightarrow> ('k, 'v) gomap \<Rightarrow> ('k, 'v) gomap" where
  "dropKeys K m = filter (\<lambda>x. fst x \<notin> K) m"

lemma dropKeys_empty [simp]: "dropKeys {} m = m"
  by (simp add: dropKeys_def)

lemma dropKeys_delete: "dropKeys K (AList.delete k m) = dropKeys (insert k K) m"
  by (simp add: dropKeys_def AList.delete_eq filter_filter split_beta conj_commute eq_commute)

lemma map_of_dropKeys: "map_of (dropKeys K m) k = (if k \<in> K then None else map_of m k)"
  by (induction m) (auto simp: dropKeys_def)

definition without :: "(endpointKey option \<times> peer) list \<Rightarrow> channel \<Rightarrow> channel" where
  "without gone ch =
     ch\<lparr>ch_peers := dropKeys (fst ` set gone) (ch_peers ch),
        ch_codecConfigs := dropKeys (senders gone) (ch_codecConfigs ch),
        ch_mediaCodecConfigs := dropKeys (senders gone) (ch_mediaCodecConfigs ch),
        ch_activeTalkers := dropKeys (senders gone) (ch_activeTalkers ch)\<rparr>"

lemma without_Nil [simp]: "without [] ch = ch"
  by (simp add: without_def)

lemma without_dropPeer: "without gone (dropPeer k (p_senderId p) ch) = without ((k, p) # gone) ch"
  by (simp add: without_def dropPeer_def dropKeys_delete)

lemma expirePeers_without:
  "expirePeers now ps ch = (rel, ch') \<Longrightarrow> ch' = without (expired_peers now ps) ch"
proof (induction ps arbitrary: ch rel)
  case (Cons x ps)
  obtain k p where x: "x = (k, p)" by (cases x)
  show ?case
  proof (cases "membershipExpired p now")
    case (Some r)
    with Cons.prems obtain rel' where "expirePeers now ps (dropPeer k (p_senderId p) ch) = (rel', ch')"
      by (auto simp: x Let_def split: prod.split_asm)
    from Cons.IH [OF this] Some show ?thesis by (simp add: x without_dropPeer)
  qed (use Cons x in auto)
qed simp

text \<open>Without duplicate keys the peers that stay are those that are not expired.\<close>

lemma dropKeys_filter:
  assumes "gomap_wf ps"
  shows "dropKeys (fst ` set (filter (\<lambda>(k, p). Q p) ps)) ps = filter (\<lambda>(k, p). \<not> Q p) ps"
  unfolding dropKeys_def
proof (rule filter_cong)
  fix x assume x: "x \<in> set ps"
  obtain k p where kp: "x = (k, p)" by (cases x)
  have uniq: "q = p" if "(k, q) \<in> set ps" for q
    by (rule eq_key_imp_eq_value [OF assms that]) (use x kp in simp)
  have "fst x \<in> fst ` set (filter (\<lambda>(k, p). Q p) ps) \<longleftrightarrow> (\<exists>q. (k, q) \<in> set ps \<and> Q q)"
    by (force simp: kp)
  also have "\<dots> \<longleftrightarrow> Q p" using x kp uniq by blast
  finally have "fst x \<in> fst ` set (filter (\<lambda>(k, p). Q p) ps) \<longleftrightarrow> Q p" .
  then show "(fst x \<notin> fst ` set (filter (\<lambda>(k, p). Q p) ps)) = (case x of (k, p) \<Rightarrow> \<not> Q p)"
    by (simp add: kp)
qed simp

lemma expirePeers_peers:
  assumes "gomap_wf (ch_peers ch)" "expirePeers now (ch_peers ch) ch = (rel, ch')"
  shows "ch_peers ch' = filter (\<lambda>(k, p). membershipExpired p now = None) (ch_peers ch)"
  using expirePeers_without [OF assms(2)] dropKeys_filter [OF assms(1), of "\<lambda>p. membershipExpired p now \<noteq> None"]
  by (simp add: without_def expired_peers_def)

text \<open>What a pass reports: every expired peer with its reason, a release once per talker.\<close>

lemma expirePeers_reported:
  "expirePeers now ps ch = (rel, ch') \<Longrightarrow>
   map (\<lambda>e. (me_senderId e, Some (me_reason e))) rel =
     map (\<lambda>(k, p). (p_senderId p, membershipExpired p now)) (expired_peers now ps)"
proof (induction ps arbitrary: ch rel)
  case (Cons x ps)
  obtain k p where x: "x = (k, p)" by (cases x)
  show ?case
  proof (cases "membershipExpired p now")
    case (Some r)
    obtain rel' c' where run: "expirePeers now ps (dropPeer k (p_senderId p) ch) = (rel', c')" by fastforce
    with Cons.prems Some have "c' = ch'" by (simp add: x Let_def)
    with Cons.IH [of _ rel'] run Cons.prems Some show ?thesis by (auto simp: x Let_def)
  qed (use Cons x in auto)
qed simp

lemma expirePeers_active:
  "expirePeers now ps ch = (rel, ch') \<Longrightarrow>
   distinct (map me_senderId (filter me_active rel)) \<and>
   set (map me_senderId (filter me_active rel)) =
     fst ` set (ch_activeTalkers ch) \<inter> senders (expired_peers now ps)"
proof (induction ps arbitrary: ch rel)
  case (Cons x ps)
  obtain k p where x: "x = (k, p)" by (cases x)
  show ?case
  proof (cases "membershipExpired p now")
    case (Some r)
    let ?d = "dropPeer k (p_senderId p) ch"
    obtain rel' c' where run: "expirePeers now ps ?d = (rel', c')" by fastforce
    with Cons.prems Some have c': "c' = ch'" and rel: "rel = \<lparr>me_senderId = p_senderId p, me_reason = r,
        me_active = (map_of (ch_activeTalkers ch) (p_senderId p) \<noteq> None)\<rparr> # rel'"
      by (auto simp: x Let_def)
    have talkers: "fst ` set (ch_activeTalkers ?d) = fst ` set (ch_activeTalkers ch) - {p_senderId p}"
      by (auto simp: dropPeer_def set_delete)
    show ?thesis
      using Cons.IH [OF run [unfolded c']] talkers Some
      by (auto simp: rel x map_of_eq_None_iff)
  qed (use Cons x in auto)
qed simp

definition peersIn :: "server \<Rightarrow> u32 \<Rightarrow> (endpointKey option \<times> peer) list" where
  "peersIn s c = (case chan s c of None \<Rightarrow> [] | Some ch \<Rightarrow> ch_peers ch)"

definition talkersIn :: "server \<Rightarrow> u32 \<Rightarrow> u32 set" where
  "talkersIn s c = (case chan s c of None \<Rightarrow> {} | Some ch \<Rightarrow> fst ` set (ch_activeTalkers ch))"

lemma sort_key_keeps: "mset (sort_key f xs) = mset xs" "sorted (map f (sort_key f xs))"
  by (simp_all add: sorted_sort_key)

lemma fst_dropKeys: "fst ` set (dropKeys K m) = fst ` set m - K"
  by (auto simp: dropKeys_def)

text \<open>
  C12. The expiry pass before a packet is exact: of the channel's peers precisely those past their
  lease, ticket or grant are removed and the rest are untouched, other channels are untouched, the
  channel disappears when nobody is left, every expired peer is reported with its reason in the
  order of senders, and a floor release is reported exactly once for each active talker that went.
\<close>

theorem expireMembership_exact:
  assumes inv: "relay_inv s" and run: "expireMembershipIfNeeded now c s = (released, t)"
  shows "(\<forall>d. d \<noteq> c \<longrightarrow> chan t d = chan s d) \<and>
    peersIn t c = filter (\<lambda>(k, p). membershipExpired p now = None) (peersIn s c) \<and>
    (chan t c = None \<longleftrightarrow> peersIn t c = []) \<and>
    image_mset (\<lambda>e. (me_senderId e, Some (me_reason e))) (mset released) =
      image_mset (\<lambda>(k, p). (p_senderId p, membershipExpired p now)) (mset (expired_peers now (peersIn s c))) \<and>
    sorted (map me_senderId released) \<and> distinct (map me_senderId (filter me_active released)) \<and>
    set (map me_senderId (filter me_active released)) = talkersIn s c \<inter> senders (expired_peers now (peersIn s c)) \<and>
    (peersIn t c \<noteq> [] \<longrightarrow> talkersIn t c = talkersIn s c - senders (expired_peers now (peersIn s c)))"
proof (cases "chan s c")
  case None
  with run show ?thesis by (simp add: expireMembershipIfNeeded_def peersIn_def talkersIn_def)
next
  case (Some ch)
  obtain rel ch' where e: "expirePeers now (ch_peers ch) ch = (rel, ch')" by fastforce
  have wf: "gomap_wf (ch_peers ch)" using relay_inv_chan [OF inv Some] by (simp add: channel_wf_def)
  have t: "released = sort_key me_senderId rel" "t = setOrDropChan c ch' s"
    using run by (simp_all add: expireMembershipIfNeeded_def Some e)
  have "image_mset (\<lambda>e. (me_senderId e, Some (me_reason e))) (mset released) =
      image_mset (\<lambda>(k, p). (p_senderId p, membershipExpired p now)) (mset (expired_peers now (ch_peers ch)))"
    using arg_cong [OF expirePeers_reported [OF e], of mset] by (simp add: t)
  moreover have "mset (map me_senderId (filter me_active released)) = mset (map me_senderId (filter me_active rel))"
    by (simp add: t)
  then have "distinct (map me_senderId (filter me_active released)) = distinct (map me_senderId (filter me_active rel))"
    "set (map me_senderId (filter me_active released)) = set (map me_senderId (filter me_active rel))"
    by (rule mset_eq_imp_distinct_iff, rule mset_eq_setD)
  moreover have "ch_activeTalkers ch' = dropKeys (senders (expired_peers now (ch_peers ch))) (ch_activeTalkers ch)"
    using expirePeers_without [OF e] by (simp add: without_def)
  ultimately show ?thesis
    using expirePeers_peers [OF wf e] expirePeers_active [OF e] sort_key_keeps(2) [of me_senderId rel]
    by (simp add: peersIn_def talkersIn_def Some t fst_dropKeys)
qed

text \<open>A member that talks, on a lease until second 1030.\<close>

definition demoPeer :: peer where
  "demoPeer = (newPeer (Some demoAddr))\<lparr>p_senderId := 11, p_authenticated := True, p_controlSessionID := 77,
     p_controlKeyID := 1, p_membershipLease := defaultMembershipLease,
     p_keepaliveInterval := defaultKeepaliveInterval, p_membershipDeadline := time_Unix 1030\<rparr>"

definition demoChannel :: channel where
  "demoChannel = (setPeer (Some demoAddr) demoPeer newChannel)\<lparr>ch_activeTalkers := [(11, time_Unix 1001)]\<rparr>"

definition demoJoined :: server where
  "demoJoined = setChan 5 demoChannel demoRelay"

lemma demoRelay_inv: "relay_inv demoRelay"
  unfolding demoRelay_def by (rule relay_inv_configured) (simp_all add: pending_inv_new [OF demoAuth_new])

lemma demoChannel_fields:
  "ch_peers demoChannel = [(peerMapKey (Some demoAddr), demoPeer)]"
  "ch_activeTalkers demoChannel = [(11, time_Unix 1001)]"
  "p_senderId demoPeer = 11" "p_identityAdmission demoPeer = None" "p_serviceAdmission demoPeer = None"
  "p_addr demoPeer = Some demoAddr" "p_membershipDeadline demoPeer = time_Unix 1030"
  by (simp_all add: demoChannel_def setPeer_def newChannel_def demoPeer_def newPeer_def)

lemma demoChannel_wf: "channel_wf 1 demoChannel"
  by (simp add: channel_wf_def demoChannel_fields peer_ok_def peerMapKey_def)
    (simp add: demoChannel_def setPeer_def newChannel_def)

lemma demoJoined_inv: "relay_inv demoJoined"
  unfolding demoJoined_def
  by (rule relay_inv_setChan [OF demoRelay_inv])
    (simp_all add: demoChannel_fields talkLimit_def demoRelay_chan demoChannel_wf)

lemma chan_demoJoined: "chan demoJoined 5 = Some demoChannel"
  by (simp add: demoJoined_def)

lemma demoPeer_expired:
  "membershipExpired demoPeer (time_Unix 1030) = Some talkReleaseMembershipTimeout"
  by (simp add: membershipExpired_def demoChannel_fields Let_def IsZero_def time_Unix_def unixEpoch_def Second_def)

theorem expireMembership_exact_witness:
  "\<exists>released t. expireMembershipIfNeeded (time_Unix 1030) 5 demoJoined = (released, t) \<and>
     chan t 5 = None \<and> set (map me_senderId (filter me_active released)) = {11}"
proof -
  obtain released t where run: "expireMembershipIfNeeded (time_Unix 1030) 5 demoJoined = (released, t)"
    by fastforce
  have "peersIn demoJoined 5 = [(peerMapKey (Some demoAddr), demoPeer)]" "talkersIn demoJoined 5 = {11}"
    by (simp_all add: peersIn_def talkersIn_def chan_demoJoined demoChannel_fields)
  with expireMembership_exact [OF demoJoined_inv run] run show ?thesis
    by (simp add: demoPeer_expired demoChannel_fields)
qed

end
