(* ===== verification/Membership_Life.thy ===== *)
theory Membership_Life
  imports Membership_Lease
begin

text \<open>
  The life of a membership: PING leaves it alone, keepalives in time hold it, a clean-up tick ends
  it at its deadline, and the reason given is the cause that came first.
\<close>

subsection \<open>PING\<close>

text \<open>What a membership consists of, apart from the time last seen and the replay window.\<close>

definition standing :: "peer \<Rightarrow> peer" where
  "standing p = p\<lparr>p_lastSeen := 0, p_controlHighest := 0, p_controlSeenWindow := 0\<rparr>"

definition standings :: "server \<Rightarrow> u32 \<Rightarrow> channel option" where
  "standings s c = map_option (\<lambda>ch. ch\<lparr>ch_peers := map (\<lambda>(k, p). (k, standing p)) (ch_peers ch)\<rparr>) (chan s c)"

lemma standing_update:
  "map_of m k = Some p \<Longrightarrow> standing q = standing p \<Longrightarrow>
   map (\<lambda>(k, p). (k, standing p)) (AList.update k q m) = map (\<lambda>(k, p). (k, standing p)) m"
  by (induction m) auto

lemma standings_setPeer:
  assumes "chan s c = Some ch" "map_of (ch_peers ch) k = Some p" "standing q = standing p"
  shows "standings (setChan c (ch\<lparr>ch_peers := AList.update k q (ch_peers ch)\<rparr>) s) = standings s"
  using assms standing_update [OF assms(2,3)] by (auto simp: standings_def fun_eq_iff)

lemma standings_touch:
  assumes inv: "relay_inv s"
  shows "standings (snd (touchKnownPeer now c i addr s)) = standings s"
proof (cases "chan s c")
  case (Some ch)
  have wf: "gomap_wf (ch_peers ch)" using relay_inv_chan [OF inv Some] by (simp add: channel_wf_def)
  have upd: "standings (setChan c (ch\<lparr>ch_peers := AList.update k (p\<lparr>p_lastSeen := now\<rparr>) (ch_peers ch)\<rparr>) s) = standings s"
    if "map_of (ch_peers ch) k = Some p" for k p
    by (rule standings_setPeer [OF Some that]) (simp add: standing_def)
  have found: "map_of (ch_peers ch) k = Some p"
    if "List.find (\<lambda>(k, p). sameUDPEndpoint (p_addr p) addr) (ch_peers ch) = Some (k, p)" for k p
    using find_in_set [OF that] wf by simp
  show ?thesis
    using upd found
    by (auto simp: touchKnownPeer_def Some Let_def peerAt_def split: option.split)
qed (simp add: touchKnownPeer_def)

lemma standings_accept: "standings (snd (acceptAuthenticatedPeerControl now pkt addr meta s)) = standings s"
proof -
  have "standings (setChan c (setPeer addr (p\<lparr>p_controlHighest := h, p_controlSeenWindow := w, p_lastSeen := now\<rparr>) ch) s)
      = standings s" if "boundPeer s c i addr = Some (ch, p)" for c i ch p h w
    using boundPeer_Some [OF that]
    by (simp only: setPeer_def, intro standings_setPeer) (simp_all add: peerAt_def standing_def)
  then show ?thesis
    by (simp add: acceptAuthenticatedPeerControl_def Let_def split: option.split prod.split)
qed

lemma standings_sendPong [simp]: "standings (sendPong pr a c i n s) = standings s"
  by (simp add: standings_def fun_eq_iff)

text \<open>
  A PING proves liveness and nothing else: whatever its sender, payload and authentication, it
  creates no channel and no peer, rebinds no sender, extends no lease, attaches no admission and
  leaves the floor and the codec state alone.
\<close>

theorem ping_inert:
  assumes "relay_inv s"
  shows "standings (handlePing pr env pkt addr s) = standings s"
proof -
  let ?a = "\<lambda>meta. acceptAuthenticatedPeerControl (clk env 1) pkt addr meta s"
  have acc: "relay_inv (snd (?a meta))" "standings (snd (?a meta)) = standings s" for meta
    by (rule relay_inv_acceptAuthenticated [OF assms], rule standings_accept)
  have touch: "standings (snd (touchKnownPeer t c i addr u)) = standings u" if "relay_inv u" for t c i u
    by (rule standings_touch [OF that])
  show ?thesis
    unfolding handlePing_def Let_def split_beta
    using assms acc touch by simp
qed

definition demoEnv :: relayEnv where
  "demoEnv = \<lparr>clk = (\<lambda>_. time_Unix 1010), challengeDraw = None, epochDraw = Some ''e2''\<rparr>"

definition demoPacket :: "u8 \<Rightarrow> bytes \<Rightarrow> parsedPacket" where
  "demoPacket t payload = demoHello\<lparr>pk_Header := (pk_Header demoHello)\<lparr>h_Type := t\<rparr>, pk_Payload := payload\<rparr>"

theorem ping_inert_witness:
  "standings (handlePing demoPrims demoEnv (demoPacket pktPing (replicate 8 7)) (Some demoAddr) demoJoined) 5 =
     standings demoJoined 5 \<and> standings demoJoined 5 \<noteq> None"
  using ping_inert [OF demoJoined_inv, of demoPrims demoEnv "demoPacket pktPing (replicate 8 7)" "Some demoAddr"]
  by (simp add: standings_def chan_demoJoined)

subsection \<open>Keepalives\<close>

text \<open>Each activity comes before the lease granted by the one before it runs out.\<close>

fun in_time :: "duration \<Rightarrow> gotime \<Rightarrow> gotime list \<Rightarrow> bool" where
  "in_time lease t [] = True"
| "in_time lease t (u # us) = (u < t + lease \<and> in_time lease u us)"

definition keepalives :: "u32 \<Rightarrow> u32 \<Rightarrow> udpaddr option \<Rightarrow> gotime list \<Rightarrow> server \<Rightarrow> server" where
  "keepalives c i addr ts s = foldl (\<lambda>s t. snd (refreshMembership t c i addr s)) s ts"

lemma boundPeer_setPeer:
  assumes "boundPeer s c i addr = Some (ch, p)" "p_senderId q = p_senderId p"
  shows "boundPeer (setChan c (setPeer addr q ch) s) c i addr = Some (setPeer addr q ch, q)"
  using boundPeer_Some [OF assms(1)] assms(2) by (auto simp: boundPeer_def)

lemma refresh_bound:
  assumes "boundPeer s c i addr = Some (ch, p)" "i \<noteq> 0" "p_membershipDeadline p \<noteq> 0" "t < p_membershipDeadline p"
  shows "\<exists>ch'. boundPeer (snd (refreshMembership t c i addr s)) c i addr =
    Some (ch', p\<lparr>p_membershipDeadline := t + p_membershipLease p, p_lastSeen := t\<rparr>)"
  using assms boundPeer_setPeer [OF assms(1)] by (simp add: refreshMembership_def IsZero_def)

lemma keepalives_bound:
  assumes "boundPeer s c i addr = Some (ch, p)" "i \<noteq> 0" "p_membershipDeadline p = t + p_membershipLease p"
    and "in_time (p_membershipLease p) t ts" "\<forall>u\<in>set (t # ts). u + p_membershipLease p \<noteq> 0"
  shows "\<exists>ch' q. boundPeer (keepalives c i addr ts s) c i addr = Some (ch', q) \<and>
    p_membershipDeadline q = last (t # ts) + p_membershipLease p \<and>
    p_identityAdmission q = p_identityAdmission p \<and> p_serviceAdmission q = p_serviceAdmission p"
  using assms
proof (induction ts arbitrary: s ch p t)
  case (Cons u us)
  let ?q = "p\<lparr>p_membershipDeadline := u + p_membershipLease p, p_lastSeen := u\<rparr>"
  obtain ch' where b: "boundPeer (snd (refreshMembership u c i addr s)) c i addr = Some (ch', ?q)"
    using refresh_bound [OF Cons.prems(1,2), of u] Cons.prems(3-5) by auto
  from Cons.IH [OF b, of u] Cons.prems show ?case by (simp add: keepalives_def)
qed (simp add: keepalives_def)

text \<open>
  A member that keeps in touch stays: from the start of its lease, through any number of
  refreshes each of which comes before the lease given by the previous one runs out, the peer stays
  bound to its endpoint and sender with a deadline one lease after the last refresh, and if it
  carries no ticket or grant it is not expired at any time before that deadline.
\<close>

theorem keepalives_hold:
  assumes "startMembership t0 c i addr s = (True, s0)" and "boundPeer s c i addr = Some (ch, p)"
    and "p_identityAdmission p = None" "p_serviceAdmission p = None"
    and "in_time (s_membershipLease s) t0 ts" "\<forall>u\<in>set (t0 # ts). 0 < u" "0 < s_membershipLease s"
    and "now < last (t0 # ts) + s_membershipLease s"
  shows "\<exists>ch' q. boundPeer (keepalives c i addr ts s0) c i addr = Some (ch', q) \<and>
    p_membershipDeadline q = last (t0 # ts) + s_membershipLease s \<and> membershipExpired q now = None"
proof -
  let ?q = "p\<lparr>p_membershipLease := s_membershipLease s, p_keepaliveInterval := s_keepaliveInterval s,
      p_membershipDeadline := t0 + s_membershipLease s, p_lastSeen := t0\<rparr>"
  have i: "i \<noteq> 0" and s0: "s0 = setChan c (setPeer addr ?q ch) s"
    using assms(1,2) by (auto simp: startMembership_def split: if_split_asm)
  have "boundPeer s0 c i addr = Some (setPeer addr ?q ch, ?q)"
    unfolding s0 by (rule boundPeer_setPeer [OF assms(2)]) simp
  moreover have "\<forall>u\<in>set (t0 # ts). u + s_membershipLease s \<noteq> 0" using assms(6,7) by force
  ultimately obtain ch' q where "boundPeer (keepalives c i addr ts s0) c i addr = Some (ch', q)"
    "p_membershipDeadline q = last (t0 # ts) + s_membershipLease s"
    "p_identityAdmission q = None" "p_serviceAdmission q = None"
    using keepalives_bound [of s0 c i addr "setPeer addr ?q ch" ?q t0 ts] i assms(3-5) by auto
  with assms(8) show ?thesis by (auto simp: membershipExpired_def Let_def)
qed

lemma boundPeer_demoJoined: "boundPeer demoJoined 5 11 (Some demoAddr) = Some (demoChannel, demoPeer)"
  by (simp add: boundPeer_def chan_demoJoined peerAt_def demoChannel_fields)

theorem keepalives_hold_witness:
  "\<exists>s0 ch q. startMembership (time_Unix 1000) 5 11 (Some demoAddr) demoJoined = (True, s0) \<and>
     boundPeer (keepalives 5 11 (Some demoAddr) [time_Unix 1010, time_Unix 1025] s0) 5 11 (Some demoAddr) = Some (ch, q) \<and>
     membershipExpired q (time_Unix 1054) = None"
proof -
  obtain s0 where start: "startMembership (time_Unix 1000) 5 11 (Some demoAddr) demoJoined = (True, s0)"
    by (simp add: startMembership_def boundPeer_demoJoined)
  have lease: "s_membershipLease demoJoined = defaultMembershipLease"
    by (simp add: demoJoined_def demoRelay_def configured_def configureServiceAdmission_def
        configureIdentityAdmission_def configureControlAuth_def newServer_def Let_def)
  have times: "in_time defaultMembershipLease (time_Unix 1000) [time_Unix 1010, time_Unix 1025]"
    "\<forall>u\<in>set [time_Unix 1000, time_Unix 1010, time_Unix 1025]. 0 < u" "0 < defaultMembershipLease"
    "time_Unix 1054 < last [time_Unix 1000, time_Unix 1010, time_Unix 1025] + defaultMembershipLease"
    by (simp_all add: time_Unix_def unixEpoch_def Second_def defaultMembershipLease_def)
  from keepalives_hold [OF start boundPeer_demoJoined demoChannel_fields(4,5), unfolded lease, OF times] start
  show ?thesis by blast
qed

subsection \<open>The reason of an expiry\<close>

definition expiry_causes :: "peer \<Rightarrow> (u8 \<times> gotime) set" where
  "expiry_causes p =
     (if IsZero (p_membershipDeadline p) then {} else {(talkReleaseMembershipTimeout, p_membershipDeadline p)}) \<union>
     (case p_identityAdmission p of None \<Rightarrow> {} | Some a \<Rightarrow> {(talkReleaseIdentityExpired, ia_expiresAt a)}) \<union>
     (case p_serviceAdmission p of None \<Rightarrow> {} | Some a \<Rightarrow> {(talkReleaseServiceExpired, expiryDeadline a)})"

text \<open>
  A membership ends at the earliest of its lease, its ticket and its grant, no earlier and no
  later, and the reason that clients and the management plane are told is the cause that came first.
\<close>

theorem expiry_reason_first:
  assumes "peer_ok k p"
  shows "(membershipExpired p now = None \<longleftrightarrow> (\<forall>(r, d)\<in>expiry_causes p. now < d)) \<and>
    (\<forall>r. membershipExpired p now = Some r \<longrightarrow>
       (\<exists>d\<le>now. (r, d) \<in> expiry_causes p \<and> (\<forall>(r', d')\<in>expiry_causes p. d \<le> d')))"
  using assms
  by (cases "p_identityAdmission p"; cases "p_serviceAdmission p")
    (auto simp: peer_ok_def membershipExpired_def expiry_causes_def Let_def)

definition ticketPeer :: peer where
  "ticketPeer = demoPeer\<lparr>p_identityAdmission := Some \<lparr>ia_permissions = 3, ia_priority = 1,
     ia_expiresAt = time_Unix 1020, ia_ticketHash = [], ia_actorIDHash = []\<rparr>\<rparr>"

theorem expiry_reason_first_witness:
  "peer_ok (peerMapKey (Some demoAddr)) ticketPeer \<and>
   membershipExpired ticketPeer (time_Unix 1030) = Some talkReleaseIdentityExpired \<and>
   (\<exists>d. (talkReleaseIdentityExpired, d) \<in> expiry_causes ticketPeer \<and> d \<le> time_Unix 1030)"
proof -
  have ok: "peer_ok (peerMapKey (Some demoAddr)) ticketPeer"
    by (simp add: peer_ok_def ticketPeer_def demoChannel_fields)
  have r: "membershipExpired ticketPeer (time_Unix 1030) = Some talkReleaseIdentityExpired"
    by (simp add: membershipExpired_def ticketPeer_def demoChannel_fields Let_def IsZero_def time_Unix_def
        unixEpoch_def Second_def)
  from expiry_reason_first [OF ok, of "time_Unix 1030"] r ok show ?thesis by blast
qed

end
