(* ===== verification/Floor_Control.thy ===== *)
theory Floor_Control
  imports Membership_Life
begin

text \<open>
  What the floor promises: PTT_ON never takes the floor from anyone, a Floor Interrupt replaces the
  least talker and only with a strictly higher priority, the talk timeout releases exactly the
  talkers over their time, and a client is told settings within the ranges of the protocol.
\<close>

subsection \<open>The talker a Floor Interrupt replaces\<close>

definition rank :: "channel \<Rightarrow> gotime \<Rightarrow> u32 \<Rightarrow> u8 \<times> u32" where
  "rank ch now i = (activeTalkerPriority ch i now, i)"

text \<open>The order of candidates: lower priority first, then the lower sender.\<close>

definition least_first :: "u8 \<times> u32 \<Rightarrow> u8 \<times> u32 \<Rightarrow> bool" where
  "least_first x y \<longleftrightarrow> fst x < fst y \<or> fst x = fst y \<and> snd x \<le> snd y"

lemma least_first_refl [simp]: "least_first x x"
  by (simp add: least_first_def)

lemma least_first_trans: "least_first x y \<Longrightarrow> least_first y z \<Longrightarrow> least_first x z"
  by (auto simp: least_first_def)

text \<open>The scan keeps the least candidate seen so far.\<close>

lemma selectVictim_min:
  assumes "selectVictim ch now ts (v, q) = (w, r)" "\<forall>(i, t)\<in>set ts. i \<noteq> 0"
    and "v \<noteq> 0 \<Longrightarrow> q = activeTalkerPriority ch v now"
  shows "(w \<noteq> 0 \<longrightarrow> r = activeTalkerPriority ch w now) \<and> (v \<noteq> 0 \<longrightarrow> w \<noteq> 0 \<and> least_first (rank ch now w) (rank ch now v)) \<and>
    (\<forall>(i, t)\<in>set ts. w \<noteq> 0 \<and> least_first (rank ch now w) (rank ch now i))"
  using assms
proof (induction ts arbitrary: v q)
  case (Cons x ts)
  obtain i t where x: "x = (i, t)" by (cases x)
  let ?p = "activeTalkerPriority ch i now"
  have i: "i \<noteq> 0" using Cons.prems(2) x by simp
  show ?case
  proof (cases "v = 0 \<or> ?p < q \<or> ?p = q \<and> i < v")
    case True
    with Cons.prems(1) have "selectVictim ch now ts (i, ?p) = (w, r)" by (simp add: x Let_def)
    from Cons.IH [OF this] Cons.prems(2) i
    have IH: "(w \<noteq> 0 \<longrightarrow> r = activeTalkerPriority ch w now) \<and> w \<noteq> 0 \<and> least_first (rank ch now w) (rank ch now i) \<and>
      (\<forall>(i, t)\<in>set ts. w \<noteq> 0 \<and> least_first (rank ch now w) (rank ch now i))" by simp
    moreover have "least_first (rank ch now i) (rank ch now v)" if "v \<noteq> 0"
      using True Cons.prems(3) that by (auto simp: rank_def least_first_def)
    ultimately show ?thesis
      using least_first_trans [of "rank ch now w" "rank ch now i" "rank ch now v"] x by auto
  next
    case False
    with Cons.prems(1) have "selectVictim ch now ts (v, q) = (w, r)" by (auto simp: x Let_def)
    from Cons.IH [OF this] Cons.prems(2,3) False
    have IH: "(w \<noteq> 0 \<longrightarrow> r = activeTalkerPriority ch w now) \<and> w \<noteq> 0 \<and> least_first (rank ch now w) (rank ch now v) \<and>
      (\<forall>(i, t)\<in>set ts. w \<noteq> 0 \<and> least_first (rank ch now w) (rank ch now i))" by simp
    moreover have "least_first (rank ch now v) (rank ch now i)"
      using False Cons.prems(3) by (auto simp: rank_def least_first_def)
    ultimately show ?thesis
      using least_first_trans [of "rank ch now w" "rank ch now v" "rank ch now i"] x by auto
  qed
qed simp

lemma selectVictim_least:
  assumes "selectVictim ch now ts (0, q) = (w, r)" "\<forall>(i, t)\<in>set ts. i \<noteq> 0" "w \<noteq> 0"
  shows "w \<in> fst ` set ts \<and> r = activeTalkerPriority ch w now \<and>
    (\<forall>i\<in>fst ` set ts. least_first (rank ch now w) (rank ch now i))"
proof -
  have "(w \<noteq> 0 \<longrightarrow> r = activeTalkerPriority ch w now) \<and>
      (\<forall>(i, t)\<in>set ts. w \<noteq> 0 \<and> least_first (rank ch now w) (rank ch now i))"
    using selectVictim_min [OF assms(1,2)] by simp
  with selectVictim_mem [OF assms(1)] assms(3) show ?thesis by auto
qed

text \<open>Who may interrupt: a live member with the right, on a Relay configured for it.\<close>

definition mayInterrupt :: "server \<Rightarrow> u32 \<Rightarrow> u32 \<Rightarrow> udpaddr option \<Rightarrow> gotime \<Rightarrow> peer \<Rightarrow> bool" where
  "mayInterrupt s c i addr now p \<longleftrightarrow>
     s_floorInterrupt s \<and> identity_isRequired (s_identityAdmission s) \<and> controlAuthRequired s c \<and>
     (\<exists>ch. boundPeer s c i addr = Some (ch, p)) \<and> p_membershipDeadline p \<noteq> 0 \<and>
     now < p_membershipDeadline p \<and> peerAllowsInterrupt (Some p) now"

lemma pttDecision_authorised:
  assumes "pttDecision now limit ch i requester \<noteq> FloorUnauthorised"
  shows "\<exists>p. requester = Some p \<and> p_senderId p = i \<and> p_membershipDeadline p \<noteq> 0 \<and>
    now < p_membershipDeadline p \<and> peerAllowsInterrupt (Some p) now"
  using assms by (auto simp: pttDecision_def IsZero_def split: option.split_asm if_split_asm)

lemma talkers_floorAfter:
  assumes "chan s c = Some ch"
  shows "(\<forall>d. d \<noteq> c \<longrightarrow> chan (floorAfter x c i now ch s) d = chan s d) \<and>
    peersIn (floorAfter x c i now ch s) c = ch_peers ch \<and>
    talkersIn (floorAfter x c i now ch s) c = (case x of
        FloorGranted \<Rightarrow> insert i (talkersIn s c)
      | FloorPreempt v q \<Rightarrow> insert i (talkersIn s c - {v})
      | _ \<Rightarrow> talkersIn s c)"
proof -
  have upd: "fst ` set (AList.update i now ts) = insert i (fst ` set ts)" for ts :: "(u32 \<times> gotime) list"
    by (simp add: dom_update flip: dom_map_of_conv_image_fst)
  show ?thesis
    using assms by (cases x) (auto simp: floorAfter_def grantFloor_def peersIn_def talkersIn_def upd set_delete)
qed

text \<open>
  C6. PTT_REQUEST changes the floor of its own channel only, and only for a member with the
  interrupt right, a live lease and a Relay on which Floor Interrupt is enabled. If there is room the
  requester joins the talkers; otherwise exactly one talker goes, the one with the lowest priority
  and, among those, the lowest sender, and only if its priority is strictly below the requester's.
  The members themselves are never changed.
\<close>

theorem floor_interrupt_exact:
  assumes inv: "relay_inv s" and run: "handlePttRequest pr now e c i addr s = Some (ok, t)"
  shows "(\<forall>d. d \<noteq> c \<longrightarrow> chan t d = chan s d) \<and> peersIn t c = peersIn s c \<and>
    (talkersIn t c \<noteq> talkersIn s c \<longrightarrow>
      (\<exists>p ch. mayInterrupt s c i addr now p \<and> chan s c = Some ch \<and>
         (int (length (ch_activeTalkers ch)) < talkLimit s \<and> talkersIn t c = insert i (talkersIn s c) \<or>
          talkLimit s \<le> int (length (ch_activeTalkers ch)) \<and>
          (\<exists>v\<in>talkersIn s c. (\<forall>w\<in>talkersIn s c. least_first (rank ch now v) (rank ch now w)) \<and>
             activeTalkerPriority ch v now < peerInterruptPriority (Some p) now \<and>
             talkersIn t c = insert i (talkersIn s c - {v})))))"
proof (cases "s_floorInterrupt s \<and> identity_isRequired (s_identityAdmission s) \<and> controlAuthRequired s c")
  case False
  with run have "core_eq s t" by (auto simp: handlePttRequest_refused)
  then show ?thesis using core_eq_chan by (simp add: peersIn_def talkersIn_def)
next
  case True
  define ch where "ch = (case chan s c of None \<Rightarrow> newChannel | Some ch \<Rightarrow> ch)"
  define requester where "requester = (if chan s c = None \<or> addr = None then None else peerAt ch addr)"
  define x where "x = pttDecision now (talkLimit s) ch i requester"
  from handlePttRequest_floor [OF run] True obtain u dl where
    "observeFloorInterruptDiagnostics e dl (floorAfter x c i now ch s) = Some u" "core_eq u t"
    unfolding x_def requester_def ch_def by blast
  then have chan_t: "chan t = chan (floorAfter x c i now ch s)"
    using relay_inv_observe(2) core_eq_chan by metis
  show ?thesis
  proof (cases "x = FloorUnauthorised")
    case True
    then show ?thesis using chan_t by (simp add: floorAfter_def peersIn_def talkersIn_def)
  next
    case False
    then obtain p where p: "requester = Some p" "p_senderId p = i" "p_membershipDeadline p \<noteq> 0"
      "now < p_membershipDeadline p" "peerAllowsInterrupt (Some p) now"
      using pttDecision_authorised [of now "talkLimit s" ch i requester] unfolding x_def by blast
    then have ch: "chan s c = Some ch" and "boundPeer s c i addr = Some (ch, p)"
      by (auto simp: requester_def ch_def boundPeer_def split: if_split_asm option.split_asm)
    with p True have may: "mayInterrupt s c i addr now p" by (simp add: mayInterrupt_def)
    have nz: "\<forall>(i, t)\<in>set (ch_activeTalkers ch). i \<noteq> 0"
      using relay_inv_chan [OF inv ch] by (simp add: channel_wf_def)
    have t: "(\<forall>d. d \<noteq> c \<longrightarrow> chan t d = chan s d)" "peersIn t c = peersIn s c"
      "talkersIn t c = talkersIn (floorAfter x c i now ch s) c"
      using talkers_floorAfter [OF ch, of x i now] chan_t ch by (simp_all add: peersIn_def talkersIn_def)
    have talk: "talkersIn s c = fst ` set (ch_activeTalkers ch)" by (simp add: talkersIn_def ch)
    show ?thesis
    proof (cases x)
      case FloorGranted
      with may ch pttDecision_room [of now "talkLimit s" ch i requester] t talkers_floorAfter [OF ch, of x i now]
      show ?thesis by (auto simp: x_def)
    next
      case (FloorPreempt v q)
      note d = pttDecision_preempt [OF FloorPreempt [unfolded x_def]]
      from selectVictim_least [OF _ nz, of ch now "0xff" v q] d
      have "v \<in> talkersIn s c" "q = activeTalkerPriority ch v now"
        "\<forall>w\<in>talkersIn s c. least_first (rank ch now v) (rank ch now w)" by (simp_all add: talk)
      moreover have "talkersIn t c = insert i (talkersIn s c - {v})"
        using t(3) talkers_floorAfter [OF ch, of x i now] FloorPreempt by simp
      ultimately show ?thesis using may ch d t(1,2) p(1) by blast
    qed (use t talkers_floorAfter [OF ch, of x i now] in \<open>simp_all add: peersIn_def\<close>)
  qed
qed

lemma observe_total: "e \<noteq> None \<Longrightarrow> observeFloorInterruptDiagnostics e dl s \<noteq> None"
  by (auto simp: observeFloorInterruptDiagnostics_def observeFloorInterrupt_def)

lemma handlePttRequest_total: "e \<noteq> None \<Longrightarrow> handlePttRequest pr now e c i addr s \<noteq> None"
  using observe_total [of e] unfolding handlePttRequest_def Let_def
  by (simp del: not_None_eq split: floorDecision.split)

text \<open>A channel whose only talker has no priority, and a requester with priority 5.\<close>

definition chiefAddr :: udpaddr where
  "chiefAddr = \<lparr>a_IP = [192, 0, 2, 2], a_Port = 50001, a_Zone = []\<rparr>"

definition chief :: peer where
  "chief = ticketPeer\<lparr>p_senderId := 12, p_addr := Some chiefAddr, p_identityAdmission :=
     Some \<lparr>ia_permissions = 7, ia_priority = 5, ia_expiresAt = time_Unix 1020, ia_ticketHash = [], ia_actorIDHash = []\<rparr>\<rparr>"

definition chiefRelay :: server where
  "chiefRelay = (setChan 5 (setPeer (Some chiefAddr) chief demoChannel) demoJoined)
     \<lparr>s_floorInterrupt := True, s_identityAdmission := Some \<lparr>ias_mode = identityAdmissionRequired,
        ias_issuer = ''iss'', ias_audience = ''aud'', ias_keys = [], ias_pending = [], ias_verified = [],
        ias_failed = []\<rparr>\<rparr>"

lemma chiefRelay_simps:
  "chan chiefRelay 5 = Some (setPeer (Some chiefAddr) chief demoChannel)" "talkLimit chiefRelay = 1"
  "identity_isRequired (s_identityAdmission chiefRelay)" "s_floorInterrupt chiefRelay"
  "Relay_State.controlAuthRequired chiefRelay 5"
proof -
  have "s_controlAuth chiefRelay = Some demoAuth" by (simp add: chiefRelay_def demoJoined_def demoRelay_chan)
  then show "Relay_State.controlAuthRequired chiefRelay 5"
    by (simp add: Relay_State.controlAuthRequired_def controlAuth_requires_def demoAuth_def)
  show "chan chiefRelay 5 = Some (setPeer (Some chiefAddr) chief demoChannel)"
    by (simp add: chiefRelay_def chan_def setChan_def)
  show "talkLimit chiefRelay = 1" by (simp add: talkLimit_def chiefRelay_def demoJoined_def demoRelay_chan Let_def)
  show "identity_isRequired (s_identityAdmission chiefRelay)" "s_floorInterrupt chiefRelay"
    by (simp_all add: chiefRelay_def identity_isRequired_def)
qed

lemma chief_fields:
  "peer_ok (peerMapKey (Some chiefAddr)) chief" "p_senderId chief = 12" "p_membershipDeadline chief = time_Unix 1030"
  "peerInterruptPriority (Some chief) (time_Unix 1010) = 5" "peerAllowsInterrupt (Some chief) (time_Unix 1010)"
  by (simp_all add: chief_def ticketPeer_def demoChannel_fields peer_ok_def peerInterruptPriority_def
      peerAllowsInterrupt_def admissionAllowsInterrupt_def time_Unix_def unixEpoch_def Second_def)

lemma chief_channel:
  "peerAt (setPeer (Some chiefAddr) chief demoChannel) (Some chiefAddr) = Some chief"
  "ch_activeTalkers (setPeer (Some chiefAddr) chief demoChannel) = [(11, time_Unix 1001)]"
  "activeTalkerPriority (setPeer (Some chiefAddr) chief demoChannel) 11 now = 0"
  by (simp_all add: demoChannel_fields activeTalkerPriority_def setPeer_def demoAddr_def chiefAddr_def
      chief_fields peerAt_def Let_def)

lemma relay_inv_interrupt: "relay_inv s \<Longrightarrow> relay_inv (s\<lparr>s_floorInterrupt := b\<rparr>)"
proof -
  have "talkLimit (s\<lparr>s_floorInterrupt := b\<rparr>) = talkLimit s" by (simp add: talkLimit_def)
  then show "relay_inv s \<Longrightarrow> relay_inv (s\<lparr>s_floorInterrupt := b\<rparr>)"
    by (simp add: relay_inv_def subsystems_ok_def chan_def)
qed

lemma chiefRelay_inv: "relay_inv chiefRelay"
proof -
  have "relay_inv (setChan 5 (setPeer (Some chiefAddr) chief demoChannel) demoJoined)"
  proof (rule relay_inv_setChan [OF demoJoined_inv])
    have "talkLimit demoJoined = 1" by (simp add: talkLimit_def demoJoined_def demoRelay_chan Let_def)
    then show "channel_wf (talkLimit demoJoined) (setPeer (Some chiefAddr) chief demoChannel)"
      using channel_wf_setPeer [OF demoChannel_wf chief_fields(1)] by simp
  qed simp
  then show ?thesis unfolding chiefRelay_def by (intro relay_inv_identity relay_inv_interrupt)
qed

theorem floor_interrupt_exact_witness:
  "\<exists>ok t. handlePttRequest demoPrims (time_Unix 1010) (Some ''e2'') 5 12 (Some chiefAddr) chiefRelay = Some (ok, t) \<and>
     talkersIn chiefRelay 5 = {11} \<and> talkersIn t 5 = {12} \<and> peersIn t 5 = peersIn chiefRelay 5 \<and>
     (\<exists>p. mayInterrupt chiefRelay 5 12 (Some chiefAddr) (time_Unix 1010) p)"
proof -
  let ?ch = "setPeer (Some chiefAddr) chief demoChannel"
  obtain ok t where run: "handlePttRequest demoPrims (time_Unix 1010) (Some ''e2'') 5 12 (Some chiefAddr)
      chiefRelay = Some (ok, t)"
    using handlePttRequest_total [of "Some ''e2''" demoPrims "time_Unix 1010" 5 12 "Some chiefAddr" chiefRelay] by auto
  have live: "time_Unix 1010 < time_Unix 1030" "\<not> IsZero (time_Unix 1030)"
    by (simp_all add: time_Unix_def unixEpoch_def Second_def IsZero_def)
  have x: "pttDecision (time_Unix 1010) 1 ?ch 12 (Some chief) = FloorPreempt 11 0"
    using live by (simp add: pttDecision_def chief_channel chief_fields Let_def demoChannel_fields)
  from handlePttRequest_floor [OF run] chiefRelay_simps x obtain u dl where
    u: "observeFloorInterruptDiagnostics (Some ''e2'') dl (floorAfter (FloorPreempt 11 0) 5 12 (time_Unix 1010) ?ch chiefRelay) = Some u"
      "core_eq u t"
    by (auto simp: chief_channel)
  have "chan t = chan (floorAfter (FloorPreempt 11 0) 5 12 (time_Unix 1010) ?ch chiefRelay)"
    using relay_inv_observe(2) [OF u(1)] core_eq_chan [OF u(2)] by simp
  then have "talkersIn t 5 = {12}" "talkersIn chiefRelay 5 = {11}"
    using talkers_floorAfter [OF chiefRelay_simps(1), of "FloorPreempt 11 0" 12 "time_Unix 1010"]
    by (simp_all add: talkersIn_def chiefRelay_simps demoChannel_fields)
  with floor_interrupt_exact [OF chiefRelay_inv run] run show ?thesis by auto
qed

subsection \<open>PTT_ON and PTT_OFF\<close>

lemma fst_update: "fst ` set (AList.update k v m) = insert k (fst ` set m)"
  by (simp add: dom_update flip: dom_map_of_conv_image_fst)

text \<open>
  PTT_ON takes free room and nothing else: the sender becomes a talker of the channel exactly if
  it already was one or fewer than the limit talk, nobody else gains or loses the floor, and a
  following PTT_OFF of the same sender restores the talkers there were without it.
\<close>

theorem ptt_on_off_exact:
  assumes ch: "chan s c = Some ch"
  shows "talkersIn (handlePttOn pr now c i s) c =
      (if i \<in> talkersIn s c \<or> int (length (ch_activeTalkers ch)) < talkLimit s
       then insert i (talkersIn s c) else talkersIn s c) \<and>
    talkersIn (handlePttOff pr c i (handlePttOn pr now c i s)) c = talkersIn s c - {i} \<and>
    (\<forall>d. d \<noteq> c \<longrightarrow> chan (handlePttOff pr c i (handlePttOn pr now c i s)) d = chan s d) \<and>
    peersIn (handlePttOff pr c i (handlePttOn pr now c i s)) c = ch_peers ch"
proof -
  have on: "\<exists>ts. chan (handlePttOn pr now c i s) = (chan s)(c \<mapsto> ch\<lparr>ch_activeTalkers := ts\<rparr>) \<and>
    fst ` set ts = (if i \<in> talkersIn s c \<or> int (length (ch_activeTalkers ch)) < talkLimit s
       then insert i (talkersIn s c) else talkersIn s c)"
  proof (cases "map_of (ch_activeTalkers ch) i = None \<and> int (length (ch_activeTalkers ch)) < talkLimit s")
    case True
    then show ?thesis
      by (intro exI [of _ "AList.update i now (ch_activeTalkers ch)"])
        (simp add: handlePttOn_def ch grantFloor_def talkersIn_def fst_update)
  next
    case False
    then have "chan (handlePttOn pr now c i s) = chan s" by (auto simp: handlePttOn_def ch Let_def)
    with False ch show ?thesis
      by (intro exI [of _ "ch_activeTalkers ch"])
        (auto simp: talkersIn_def map_of_eq_None_iff fun_upd_idem)
  qed
  then obtain ts where on: "chan (handlePttOn pr now c i s) = (chan s)(c \<mapsto> ch\<lparr>ch_activeTalkers := ts\<rparr>)"
    and ts: "fst ` set ts = (if i \<in> talkersIn s c \<or> int (length (ch_activeTalkers ch)) < talkLimit s
       then insert i (talkersIn s c) else talkersIn s c)" by blast
  have off: "chan (handlePttOff pr c i (handlePttOn pr now c i s)) =
      (chan s)(c \<mapsto> ch\<lparr>ch_activeTalkers := AList.delete i ts\<rparr>)"
  proof (cases "map_of ts i")
    case None
    then have "AList.delete i ts = ts" by (simp add: delete_id map_of_eq_None_iff)
    with None on show ?thesis by (simp add: handlePttOff_def)
  next
    case (Some t)
    with on show ?thesis by (simp add: handlePttOff_def)
  qed
  have "fst ` set (AList.delete i ts) = fst ` set ts - {i}" by (auto simp: set_delete)
  with ts off on show ?thesis by (auto simp: talkersIn_def peersIn_def ch split: if_split_asm)
qed

theorem ptt_on_off_exact_witness:
  "chan demoJoined 5 = Some demoChannel \<and>
   talkersIn (handlePttOn demoPrims (time_Unix 1010) 5 12 demoJoined) 5 = {11} \<and>
   talkersIn (handlePttOff demoPrims 5 11 (handlePttOn demoPrims (time_Unix 1010) 5 11 demoJoined)) 5 = {}"
proof -
  have "talkLimit demoJoined = 1" "talkersIn demoJoined 5 = {11}"
    by (simp_all add: talkLimit_def demoJoined_def demoRelay_chan Let_def talkersIn_def demoChannel_fields)
  with ptt_on_off_exact [OF chan_demoJoined, of demoPrims "time_Unix 1010" 12]
    ptt_on_off_exact [OF chan_demoJoined, of demoPrims "time_Unix 1010" 11]
  show ?thesis by (simp add: chan_demoJoined demoChannel_fields)
qed

subsection \<open>Talk timeout\<close>

definition overTime :: "gotime \<Rightarrow> duration \<Rightarrow> gotime \<Rightarrow> bool" where
  "overTime now talkMax startedAt \<longleftrightarrow> \<not> IsZero startedAt \<and> talkMax \<le> time_Sub now startedAt"

lemma expireTalkers_eq:
  "expireTalkers now m ts =
     (map fst (filter (\<lambda>(i, st). overTime now m st) ts),
      map (\<lambda>(i, st). (i, if IsZero st then now else st)) (filter (\<lambda>(i, st). \<not> overTime now m st) ts))"
  by (induction ts) (auto simp: overTime_def)

lemma kept_talkers:
  assumes "gomap_wf ts"
  shows "fst ` set (map (\<lambda>(i, st). (i, g st)) (filter (\<lambda>(i, st). \<not> P st) ts)) =
    fst ` set ts - fst ` set (filter (\<lambda>(i, st). P st) ts)"
  using assms
proof (induction ts)
  case (Cons x ts)
  obtain i st where x: "x = (i, st)" by (cases x)
  have "fst ` set (filter (\<lambda>(i, st). P st) ts) \<subseteq> fst ` set ts" "i \<notin> fst ` set ts"
    using Cons.prems x by auto
  then have "i \<notin> fst ` set (filter (\<lambda>(i, st). P st) ts)" by blast
  with Cons show ?case by (simp add: x insert_Diff_if)
qed simp

text \<open>
  The talk timeout is exact: with a limit configured, precisely the talkers whose time since
  they got the floor has reached it are released, in the order of their senders, everyone else
  keeps the floor with the start it had, and members are untouched.
\<close>

theorem talk_timeout_exact:
  assumes inv: "relay_inv s" and ch: "chan s c = Some ch" and lim: "0 < s_talkMax s"
    and run: "expireTalkIfNeeded now c s = (released, t)"
  shows "sorted released \<and> set released = {i. \<exists>st. map_of (ch_activeTalkers ch) i = Some st \<and>
        st \<noteq> 0 \<and> s_talkMax s \<le> time_Sub now st} \<and>
    talkersIn t c = talkersIn s c - set released \<and> peersIn t c = peersIn s c \<and>
    (\<forall>d. d \<noteq> c \<longrightarrow> chan t d = chan s d)"
proof -
  have wf: "gomap_wf (ch_activeTalkers ch)" using relay_inv_chan [OF inv ch] by (simp add: channel_wf_def)
  let ?rel = "map fst (filter (\<lambda>(i, st). overTime now (s_talkMax s) st) (ch_activeTalkers ch))"
  have rel: "released = sort ?rel"
    using run lim by (simp add: expireTalkIfNeeded_def ch expireTalkers_eq)
  have t: "t = setChan c (ch\<lparr>ch_activeTalkers := map (\<lambda>(i, st). (i, if IsZero st then now else st))
      (filter (\<lambda>(i, st). \<not> overTime now (s_talkMax s) st) (ch_activeTalkers ch))\<rparr>) s"
    using run lim by (simp add: expireTalkIfNeeded_def ch expireTalkers_eq)
  have "set released = {i. \<exists>st. map_of (ch_activeTalkers ch) i = Some st \<and> st \<noteq> 0 \<and> s_talkMax s \<le> time_Sub now st}"
    using wf by (force simp: rel overTime_def IsZero_def)
  moreover have "talkersIn t c = talkersIn s c - set released"
    using kept_talkers [OF wf, of "\<lambda>st. if IsZero st then now else st" "overTime now (s_talkMax s)"]
    by (simp add: talkersIn_def t ch rel)
  ultimately show ?thesis by (simp add: rel t peersIn_def ch)
qed

definition limitedRelay :: server where
  "limitedRelay = demoJoined\<lparr>s_talkMax := 5 * Second\<rparr>"

lemma relay_inv_talkMax: "relay_inv s \<Longrightarrow> relay_inv (s\<lparr>s_talkMax := m\<rparr>)"
proof -
  have "talkLimit (s\<lparr>s_talkMax := m\<rparr>) = talkLimit s" by (simp add: talkLimit_def)
  then show "relay_inv s \<Longrightarrow> relay_inv (s\<lparr>s_talkMax := m\<rparr>)"
    by (simp add: relay_inv_def subsystems_ok_def chan_def)
qed

theorem talk_timeout_exact_witness:
  "\<exists>released t. expireTalkIfNeeded (time_Unix 1006) 5 limitedRelay = (released, t) \<and>
     set released = {11} \<and> talkersIn t 5 = {} \<and> peersIn t 5 = ch_peers demoChannel"
proof -
  obtain released t where run: "expireTalkIfNeeded (time_Unix 1006) 5 limitedRelay = (released, t)" by fastforce
  have ch: "chan limitedRelay 5 = Some demoChannel" using chan_demoJoined by (simp add: limitedRelay_def chan_def)
  have over: "{i. \<exists>st. map_of (ch_activeTalkers demoChannel) i = Some st \<and> st \<noteq> 0 \<and>
      s_talkMax limitedRelay \<le> time_Sub (time_Unix 1006) st} = {11}"
    by (auto simp: demoChannel_fields limitedRelay_def time_Sub_def time_Unix_def unixEpoch_def Second_def)
  have inv: "relay_inv limitedRelay" unfolding limitedRelay_def by (rule relay_inv_talkMax [OF demoJoined_inv])
  have "0 < s_talkMax limitedRelay" by (simp add: limitedRelay_def)
  from talk_timeout_exact [OF inv ch this run] over run show ?thesis
    by (simp add: talkersIn_def peersIn_def ch demoChannel_fields)
qed

subsection \<open>What a client is told\<close>

lemma durationToSecondsClamped_exact:
  assumes "0 \<le> d" "d \<le> 65535 * Second" "d mod Second = 0"
  shows "int (unat (durationToSecondsClamped d)) * Second = d"
proof -
  define q where "q = d div Second"
  have d: "d = q * Second" using assms(3) by (auto simp: q_def)
  then have q: "0 \<le> q" "q \<le> 65535" using assms(1,2) by (simp_all add: Second_def)
  have "durationToSecondsClamped d = of_int q"
    using q by (auto simp: durationToSecondsClamped_def d Second_def Let_def)
  moreover have "int (unat (of_int q :: u16)) = q"
    using q by (simp add: unsigned_of_int take_bit_int_eq_self)
  ultimately show ?thesis by (simp add: d)
qed

lemma length_serverConfig: "length (serverConfigPayload s c i) = 8"
  by (simp add: serverConfigPayload_def split_beta Let_def)

text \<open>
  The SERVER_CONFIG a joining client receives tells the truth: eight bytes that decode to
  exactly the configured talk limit in seconds, the multi-talk flag, the number of simultaneous
  talkers the Relay enforces, and the lease and keepalive interval of the membership.
\<close>

theorem server_config_faithful:
  assumes inv: "relay_inv s" and timing: "membershipTimingForPeer s c i = (lease, keepalive)"
    and valid: "validMembershipTiming lease keepalive"
    and talk: "validMaximumTalkSeconds seconds" "s_talkMax s = seconds * Second"
  shows "let b = serverConfigPayload s c i in length b = 8 \<and>
    int (unat (Uint16 (take 2 b))) = seconds \<and> (b ! 2 = 1 \<longleftrightarrow> s_multiTalk s) \<and> b ! 2 \<le> 1 \<and>
    int (unat (b ! 3)) = talkLimit s \<and>
    int (unat (Uint16 (slice 4 6 b))) * Second = lease \<and> int (unat (Uint16 (slice 6 8 b))) * Second = keepalive"
proof -
  define limit where "limit = (if s_multiTalk s
      then let low = (if s_maxActiveTalkers s < 1 then 1 else s_maxActiveTalkers s)
           in if maxActiveTalkersV1 < low then maxActiveTalkersV1 else low else 1)"
  define A where "A = PutUint16 (durationToSecondsClamped (s_talkMax s))"
  define L where "L = PutUint16 (durationToSecondsClamped lease)"
  define K where "K = PutUint16 (durationToSecondsClamped keepalive)"
  have b: "serverConfigPayload s c i = A @ [if s_multiTalk s then 1 else 0, of_int limit] @ L @ K"
    by (simp add: serverConfigPayload_def timing limit_def A_def L_def K_def Let_def)
  have len: "length A = 2" "length L = 2" "length K = 2" by (simp_all add: A_def L_def K_def)
  have parts: "take 2 (serverConfigPayload s c i) = A" "serverConfigPayload s c i ! 2 = (if s_multiTalk s then 1 else 0)"
    "serverConfigPayload s c i ! 3 = of_int limit" "slice 4 6 (serverConfigPayload s c i) = L"
    "slice 6 8 (serverConfigPayload s c i) = K"
    using len by (simp_all add: b nth_append slice_def)
  have "limit = talkLimit s" "1 \<le> limit" "limit \<le> 16"
    using inv by (auto simp: limit_def talkLimit_def relay_inv_def Let_def)
  then have limit: "int (unat (of_int limit :: u8)) = talkLimit s"
    by (simp add: unsigned_of_int take_bit_int_eq_self)
  have lk: "0 \<le> lease \<and> lease \<le> 65535 * Second \<and> lease mod Second = 0"
    "0 \<le> keepalive \<and> keepalive \<le> 65535 * Second \<and> keepalive mod Second = 0"
    using valid by (auto simp: validMembershipTiming_def minimumMembershipLease_def maximumMembershipLease_def
        minimumKeepaliveInterval_def Second_def split: if_split_asm)
  have "int (unat (durationToSecondsClamped (seconds * Second))) * Second = seconds * Second"
    using talk(1) by (intro durationToSecondsClamped_exact) (simp_all add: validMaximumTalkSeconds_def Second_def)
  then have "int (unat (durationToSecondsClamped (s_talkMax s))) = seconds" by (simp add: talk(2) Second_def)
  with parts limit durationToSecondsClamped_exact [of lease] durationToSecondsClamped_exact [of keepalive] lk
  show ?thesis by (simp add: Let_def length_serverConfig A_def L_def K_def)
qed

lemma demoTiming: "membershipTimingForPeer demoJoined 5 11 = (defaultMembershipLease, defaultKeepaliveInterval)"
  by (simp add: membershipTimingForPeer_def chan_demoJoined peersOf_def demoChannel_fields demoPeer_def newPeer_def
      defaultMembershipLease_def defaultKeepaliveInterval_def)

theorem server_config_faithful_witness:
  "int (unat (Uint16 (slice 4 6 (serverConfigPayload demoJoined 5 11)))) * Second = defaultMembershipLease \<and>
   int (unat (serverConfigPayload demoJoined 5 11 ! 3)) = 1"
proof -
  have valid: "validMembershipTiming defaultMembershipLease defaultKeepaliveInterval"
    by (simp add: validMembershipTiming_def defaultMembershipLease_def defaultKeepaliveInterval_def
        minimumMembershipLease_def maximumMembershipLease_def minimumKeepaliveInterval_def Second_def)
  have talk: "validMaximumTalkSeconds 0" "s_talkMax demoJoined = 0 * Second"
    by (simp_all add: validMaximumTalkSeconds_def demoJoined_def demoRelay_def configured_def
        configureServiceAdmission_def configureIdentityAdmission_def configureControlAuth_def newServer_def Let_def)
  have "talkLimit demoJoined = 1" by (simp add: talkLimit_def demoJoined_def demoRelay_chan Let_def)
  with server_config_faithful [OF demoJoined_inv demoTiming valid talk] show ?thesis by (simp add: Let_def)
qed

subsection \<open>The clean-up tick\<close>

text \<open>
  A clean-up tick leaves nothing overdue: in every channel precisely the members that are not
  expired remain, a channel without members is gone, nobody keeps the floor whose membership ended,
  and with a talk limit configured every remaining talker is within it; nobody gains the floor.
\<close>

theorem cleanup_exact:
  assumes inv: "relay_inv s"
  shows "peersIn (cleanupTick pr now s) c = filter (\<lambda>(k, p). membershipExpired p now = None) (peersIn s c) \<and>
    (chan (cleanupTick pr now s) c = None \<longleftrightarrow> peersIn (cleanupTick pr now s) c = []) \<and>
    talkersIn (cleanupTick pr now s) c \<subseteq> talkersIn s c - senders (expired_peers now (peersIn s c)) \<and>
    (\<forall>ch. chan (cleanupTick pr now s) c = Some ch \<longrightarrow> 0 < s_talkMax s \<longrightarrow>
       (\<forall>(i, st)\<in>set (ch_activeTalkers ch). st = now \<or> time_Sub now st < s_talkMax s))"
proof -
  obtain rel dep cs where t: "cleanupChannels now (s_talkMax s) (s_channels s) = (rel, dep, cs)"
    by (metis prod_cases3)
  have "gomap_wf (s_channels s)" using inv by (simp add: relay_inv_def)
  note cs = cleanupChannels_map [OF this t, THEN conjunct2, rule_format, of c]
  have chan_t: "chan (cleanupTick pr now s) c = map_of cs c"
    using core_eq_chan [OF core_eq_cleanup [OF t]] by (simp add: chan_def fun_eq_iff)
  show ?thesis
  proof (cases "chan s c")
    case None
    with cs chan_t show ?thesis by (simp add: peersIn_def talkersIn_def chan_def)
  next
    case (Some ch)
    obtain expired ch1 where e: "expirePeers now (ch_peers ch) ch = (expired, ch1)" by fastforce
    have wf: "gomap_wf (ch_peers ch)" using relay_inv_chan [OF inv Some] by (simp add: channel_wf_def)
    note peers = expirePeers_peers [OF wf e]
    have talkers: "fst ` set (ch_activeTalkers ch1) = talkersIn s c - senders (expired_peers now (ch_peers ch))"
      using expirePeers_without [OF e] by (simp add: without_def fst_dropKeys talkersIn_def Some)
    define kept where "kept = snd (expireTalkers now (s_talkMax s) (ch_activeTalkers ch1))"
    have "fst ` set kept \<subseteq> fst ` set (ch_activeTalkers ch1)"
      by (force simp: kept_def expireTalkers_eq)
    moreover have "\<forall>(i, st)\<in>set kept. st = now \<or> time_Sub now st < s_talkMax s"
      by (auto simp: kept_def expireTalkers_eq overTime_def)
    moreover have "snd (snd (cleanupChannel now (s_talkMax s) c ch)) =
        ch1\<lparr>ch_activeTalkers := if 0 < s_talkMax s then kept else ch_activeTalkers ch1\<rparr>"
      by (simp add: cleanupChannel_def e Let_def split_beta kept_def)
    ultimately show ?thesis
      using cs chan_t Some peers talkers
      by (auto simp: peersIn_def talkersIn_def chan_def Let_def split: if_split_asm)
  qed
qed

theorem cleanup_exact_witness:
  "chan (cleanupTick demoPrims (time_Unix 1030) demoJoined) 5 = None \<and> chan demoJoined 5 \<noteq> None"
  using cleanup_exact [OF demoJoined_inv, of demoPrims "time_Unix 1030" 5]
  by (simp add: peersIn_def chan_demoJoined demoChannel_fields demoPeer_expired)

end
