(* ===== verification/Relay_Safety.thy ===== *)
theory Relay_Safety
  imports Floor_Control
begin

text \<open>
  What a datagram can do to the Relay: what is dropped before it is parsed, what an unauthenticated
  packet or an outsider achieves, who receives media, what JOIN requires, and what a revocation
  leaves behind.
\<close>

subsection \<open>Unverified packets\<close>

lemma verifyIncoming_view:
  assumes "auth_view a = auth_view b"
  shows "verifyIncomingControl pr a pkt = verifyIncomingControl pr b pkt"
  using assms
  by (cases a; cases b) (auto simp: auth_view_def verifyIncomingControl_def controlAuth_key_def)

lemma expirations_frame:
  assumes t_def: "t = emitMembershipExpirations pr now c s"
  shows "auth_view (s_controlAuth t) = auth_view (s_controlAuth s)" "Relay_State.controlAuthRequired t = Relay_State.controlAuthRequired s"
    "verifyIncomingControl pr' (s_controlAuth t) pkt = verifyIncomingControl pr' (s_controlAuth s) pkt"
    "chan t = chan (snd (expireMembershipIfNeeded now c s))"
proof -
  let ?u = "snd (expireMembershipIfNeeded now c s)"
  have core: "core_eq ?u t" unfolding t_def by (rule core_eq_emitMembershipExpirations)
  have "s_controlAuth ?u = s_controlAuth s"
    by (simp add: expireMembershipIfNeeded_def split_beta split: option.split)
  then show v: "auth_view (s_controlAuth t) = auth_view (s_controlAuth s)"
    using core by (simp add: core_eq_def)
  show "Relay_State.controlAuthRequired t = Relay_State.controlAuthRequired s" by (rule controlAuthRequired_view [OF v])
  show "verifyIncomingControl pr' (s_controlAuth t) pkt = verifyIncomingControl pr' (s_controlAuth s) pkt"
    by (rule verifyIncoming_view [OF v])
  show "chan t = chan ?u" by (rule core_eq_chan [OF core])
qed

lemma unverified_join_inert:
  assumes "verifyIncomingControl pr (s_controlAuth s) pkt = (meta, False)"
  shows "joinAuthenticated pr env pkt addr s = (None, s)"
proof (cases "s_controlAuth s")
  case (Some a)
  with unverified_join_refused [OF assms, of "clk env 1" "clk env 2" "clk env 3" a addr] assms
  show ?thesis by (simp add: joinAuthenticated_def Let_def)
qed (simp add: joinAuthenticated_def split_beta)


lemma demoPacket_unverified:
  "verifyIncomingControl demoPrims (s_controlAuth demoJoined) (demoPacket t payload) = (zeroMeta, False)"
  by (simp add: verifyIncomingControl_def verifyControlAuthPacket_def demoPacket_def demoHello_def
      zeroSecurityHeader_def Let_def split: option.split)


subsection \<open>Outsiders\<close>

lemma outsider_unknown:
  assumes inv: "relay_inv s" and out: "boundPeer s c i addr = None"
  shows "touchKnownPeer now c i addr s = (False, s)"
proof (cases "i = 0 \<or> addr = None")
  case False
  show ?thesis
  proof (cases "chan s c")
    case (Some ch)
    have "List.find (\<lambda>(k, p). sameUDPEndpoint (p_addr p) addr) (ch_peers ch) = None" if none: "peerAt ch addr = None"
    proof -
      have "\<not> sameUDPEndpoint (p_addr p) addr" if "(k, p) \<in> set (ch_peers ch)" for k p
      proof -
        have "peer_ok k p" using relay_inv_chan [OF inv Some] that by (auto simp: channel_wf_def)
        moreover have "peerMapKey addr \<notin> fst ` set (ch_peers ch)"
          using none by (simp add: peerAt_def map_of_eq_None_iff)
        ultimately show ?thesis using that by (force simp: peer_ok_def sameUDPEndpoint_key)
      qed
      then show ?thesis by (force simp: find_None_iff)
    qed
    with out False Some show ?thesis
      by (auto simp: touchKnownPeer_def boundPeer_def Let_def split: option.split_asm if_split_asm)
  qed (simp add: touchKnownPeer_def)
qed (auto simp: touchKnownPeer_def)

text \<open>
  C32. An outsider of an open channel achieves nothing but a JOIN: without authentication, a packet
  of any other type whose endpoint is not registered in the channel under its sender changes
  nothing and causes no reply, apart from the expiry pass that precedes every packet.
\<close>

theorem outsider_inert:
  assumes inv: "relay_inv s" and plain: "\<not> controlAuthRequired s c"
    and pkt: "h_ChannelId (pk_Header pkt) = c" "h_SenderId (pk_Header pkt) = i" "i \<noteq> 0"
      "h_Version (pk_Header pkt) = protocolVersion" "h_Type (pk_Header pkt) \<noteq> pktJoin"
    and out: "boundPeer s c i addr = None"
  shows "handlePacket pr env pkt addr s = Some (emitMembershipExpirations pr (clk env 0) c s)"
proof -
  define s0 where "s0 = emitMembershipExpirations pr (clk env 0) c s"
  have inv0: "relay_inv s0" unfolding s0_def by (rule relay_inv_emitMembershipExpirations [OF inv])
  have plain0: "\<not> controlAuthRequired s0 c" using plain by (simp add: expirations_frame [OF s0_def])
  have out0: "boundPeer s0 c i addr = None"
  proof (cases "chan s c")
    case None
    then show ?thesis
      by (simp add: boundPeer_def expirations_frame [OF s0_def] expireMembershipIfNeeded_def)
  next
    case (Some ch)
    obtain rel ch' where e: "expirePeers (clk env 0) (ch_peers ch) ch = (rel, ch')" by fastforce
    have wf: "gomap_wf (ch_peers ch)" using relay_inv_chan [OF inv Some] by (simp add: channel_wf_def)
    have "peerAt ch' addr = Some p \<Longrightarrow> peerAt ch addr = Some p" for p
      using expirePeers_peers [OF wf e] wf
      by (simp add: peerAt_def map_of_filter_wf [OF wf] split: option.split_asm if_split_asm)
    with out Some show ?thesis
      by (auto simp: boundPeer_def expirations_frame [OF s0_def] expireMembershipIfNeeded_def e
          split: option.split option.split_asm if_split_asm)
  qed
  have "handleAuthHello pr env pkt addr s0 = s0" "handlePing pr env pkt addr s0 = s0"
    "handleIdentityPacket pr env pkt addr s0 = s0" "handleServicePacket pr env pkt addr s0 = s0"
    using plain0 pkt outsider_unknown [OF inv0 out0]
    by (simp_all add: handleAuthHello_def handlePing_def handleIdentityPacket_def handleServicePacket_def)
  moreover have "handleMediaPacket n1 n2 pkt addr s0 = s0" for n1 n2
    using out0 pkt by (simp add: handleMediaPacket_def isActiveTalkerEndpoint_def)
  moreover have "controlGate pr env pkt addr s0 = (None, s0)"
    using plain0 pkt out0 by (simp add: controlGate_def acceptUnauthenticatedPeerControl_def)
  ultimately show ?thesis
    using pkt by (simp add: handlePacket_def Let_def flip: s0_def)
qed

text \<open>The Relay of the examples without control authentication.\<close>

definition openRelay :: server where
  "openRelay = demoJoined\<lparr>s_controlAuth := None\<rparr>"

lemma openRelay_simps:
  "relay_inv openRelay" "\<not> controlAuthRequired openRelay c" "chan openRelay 5 = Some demoChannel"
  "boundPeer openRelay 5 11 (Some demoAddr) = Some (demoChannel, demoPeer)"
  "boundPeer openRelay 5 i (Some chiefAddr) = None"
proof -
  show "relay_inv openRelay" unfolding openRelay_def by (rule relay_inv_auth [OF demoJoined_inv]) simp
  show "\<not> controlAuthRequired openRelay c"
    by (simp add: openRelay_def Relay_State.controlAuthRequired_def controlAuth_requires_def)
  show ch: "chan openRelay 5 = Some demoChannel" by (simp add: openRelay_def chan_demoJoined)
  show "boundPeer openRelay 5 11 (Some demoAddr) = Some (demoChannel, demoPeer)"
    "boundPeer openRelay 5 i (Some chiefAddr) = None"
    by (simp_all add: boundPeer_def ch peerAt_def demoChannel_fields demoAddr_def chiefAddr_def)
qed

theorem outsider_inert_witness:
  "handlePacket demoPrims demoEnv (demoPacket pktPttOn []) (Some chiefAddr) openRelay =
     Some (emitMembershipExpirations demoPrims (time_Unix 1010) 5 openRelay)"
  using outsider_inert [OF openRelay_simps(1,2), where pkt = "demoPacket pktPttOn []" and i = 11
      and addr = "Some chiefAddr" and env = demoEnv and pr = demoPrims] openRelay_simps(5)
  by (simp add: demoPacket_def demoHello_def demoEnv_def)

subsection \<open>Media\<close>

lemma filter_update_other:
  "filter (\<lambda>(k, v). k \<noteq> key) (AList.update key q m) = filter (\<lambda>(k, v). k \<noteq> key) m"
  by (induction m) auto

lemma outbox_foldl_Write:
  "s_outbox (foldl (\<lambda>s p. WriteToUDP d (p_addr p) s) s ps) = s_outbox s @ map (\<lambda>p. (p_addr p, d)) ps"
  by (induction ps arbitrary: s) (simp_all add: WriteToUDP_def)

text \<open>Who may have media relayed: the active talker at its own endpoint, with the right to talk.\<close>

definition mayForward :: "server \<Rightarrow> gotime \<Rightarrow> gotime \<Rightarrow> parsedPacket \<Rightarrow> udpaddr option \<Rightarrow> channel \<Rightarrow> peer \<Rightarrow> bool" where
  "mayForward s now1 now2 pkt addr ch p \<longleftrightarrow>
     boundPeer s (h_ChannelId (pk_Header pkt)) (h_SenderId (pk_Header pkt)) addr = Some (ch, p) \<and>
     h_SenderId (pk_Header pkt) \<noteq> 0 \<and> h_SenderId (pk_Header pkt) \<in> fst ` set (ch_activeTalkers ch) \<and>
     peerAllowsTalk now1 s (h_ChannelId (pk_Header pkt)) (h_SenderId (pk_Header pkt)) addr \<and>
     p_membershipDeadline p \<noteq> 0 \<and> now2 < p_membershipDeadline p \<and>
     (if controlAuthRequired s (h_ChannelId (pk_Header pkt))
      then p_authenticated p \<and> mediaMatchesCodecConfig s pkt
      else h_Flags (pk_Header pkt) AND packetFlagAESGCMV2HeaderAAD = 0)"

text \<open>
  C4. Media is relayed for active talkers only, unchanged, and to everybody else: a media packet is
  sent on exactly if its endpoint is the member that holds the floor under its sender, may talk, has
  a live lease and, on an authenticated channel, is authenticated and sends in the format it
  announced; then every other member of the channel gets one copy of the very bytes received and the
  sender's endpoint none.
\<close>

theorem media_forward_exact:
  "s_outbox (handleMediaPacket now1 now2 pkt addr s) = s_outbox s @
     (case boundPeer s (h_ChannelId (pk_Header pkt)) (h_SenderId (pk_Header pkt)) addr of
        None \<Rightarrow> []
      | Some (ch, p) \<Rightarrow>
          if mayForward s now1 now2 pkt addr ch p
          then map (\<lambda>(k, q). (p_addr q, pk_Raw pkt)) (filter (\<lambda>(k, q). k \<noteq> peerMapKey addr) (ch_peers ch))
          else [])"
proof -
  let ?c = "h_ChannelId (pk_Header pkt)" and ?i = "h_SenderId (pk_Header pkt)"
  show ?thesis
  proof (cases "boundPeer s ?c ?i addr")
    case None
    then show ?thesis by (simp add: handleMediaPacket_def isActiveTalkerEndpoint_def Let_def)
  next
    case (Some chp)
    obtain ch p where b: "boundPeer s ?c ?i addr = Some (ch, p)" using Some by (cases chp) simp
    note bp = boundPeer_Some [OF b]
    let ?q = "p\<lparr>p_membershipDeadline := now2 + p_membershipLease p, p_lastSeen := now2\<rparr>"
    have send: "s_outbox (broadcastExceptAddr ?c addr (pk_Raw pkt) (setChan ?c (setPeer addr ?q ch) s)) =
        s_outbox s @ map (\<lambda>(k, q). (p_addr q, pk_Raw pkt)) (filter (\<lambda>(k, q). k \<noteq> peerMapKey addr) (ch_peers ch))"
      using bp filter_update_other [of "peerMapKey addr" ?q "ch_peers ch"]
      by (auto simp: broadcastExceptAddr_def outbox_foldl_Write setPeer_def split_beta)
    show ?thesis
      using send
      by (auto simp: handleMediaPacket_def isActiveTalkerEndpoint_def isAuthenticatedPeer_def refreshMembership_def
          mayForward_def b Let_def IsZero_def map_of_eq_None_iff)
  qed
qed

subsection \<open>Receiving\<close>

lemma dispatch_total: "epochDraw env \<noteq> None \<Longrightarrow> dispatchControl pr env q pkt addr j s \<noteq> None"
  using handlePttRequest_total [of "epochDraw env"] unfolding dispatchControl_def Let_def
  by (simp del: not_None_eq)

lemma handlePacket_total:
  assumes "epochDraw env \<noteq> None"
  shows "handlePacket pr env pkt addr s \<noteq> None"
proof -
  let ?s0 = "emitMembershipExpirations pr (clk env 0) (h_ChannelId (pk_Header pkt)) s"
  obtain g s1 where gate: "controlGate pr env pkt addr ?s0 = (g, s1)" by fastforce
  show ?thesis
    using dispatch_total [OF assms] unfolding handlePacket_def Let_def gate split_beta
    by (cases g) (simp_all del: not_None_eq)
qed



subsection \<open>Revocation\<close>

definition revoked_by :: "serviceAdmissionRevocationTarget \<Rightarrow> peer \<Rightarrow> bool" where
  "revoked_by target p =
     (case p_serviceAdmission p of None \<Rightarrow> False | Some a \<Rightarrow> target_matches target (rt_channelID target) a)"

lemma revokePeers_without:
  "revokePeers target ps ch = (r, ch') \<Longrightarrow>
   ch' = without (filter (\<lambda>(k, p). revoked_by target p) ps) ch \<and>
   map rp_senderID r = map (\<lambda>(k, p). p_senderId p) (filter (\<lambda>(k, p). revoked_by target p) ps)"
proof (induction ps arbitrary: ch r)
  case (Cons x ps)
  obtain k p where x: "x = (k, p)" by (cases x)
  show ?case
  proof (cases "revoked_by target p")
    case True
    then obtain a where a: "p_serviceAdmission p = Some a" "target_matches target (rt_channelID target) a"
      by (auto simp: revoked_by_def split: option.split_asm)
    with Cons.prems obtain r' where "revokePeers target ps (dropPeer k (p_senderId p) ch) = (r', ch')"
      and "map rp_senderID r = p_senderId p # map rp_senderID r'"
      by (auto simp: x Let_def split: prod.split_asm)
    with Cons.IH [OF this(1)] True show ?thesis by (simp add: x without_dropPeer)
  next
    case False
    then have "revokePeers target ps ch = (r, ch')"
      using Cons.prems by (auto simp: x revoked_by_def split: option.split_asm)
    from Cons.IH [OF this] False show ?thesis by (simp add: x)
  qed
qed simp

text \<open>
  C29. A successful revocation is complete: of the target channel precisely the members whose service
  admission it matches are removed, with their floor, every other member and channel is untouched,
  the number reported is the number of members removed, and the deny rule is in force, so that by the
  revocation property of the admission table none of them can come back before it ends.
\<close>

theorem revocation_complete:
  assumes inv: "relay_inv s" and svc: "s_serviceAdmission s = Some a"
    and run: "revokeManagedServiceAdmission pr target until now s = (Some result, t)"
  shows "(\<exists>b. installRevocation (Some a) target until now = (True, Some b) \<and> s_serviceAdmission t = Some b) \<and>
    peersIn t (rt_channelID target) = filter (\<lambda>(k, p). \<not> revoked_by target p) (peersIn s (rt_channelID target)) \<and>
    talkersIn t (rt_channelID target) \<subseteq> talkersIn s (rt_channelID target) -
      senders (filter (\<lambda>(k, p). revoked_by target p) (peersIn s (rt_channelID target))) \<and>
    (\<forall>d. d \<noteq> rt_channelID target \<longrightarrow> chan t d = chan s d) \<and>
    rr_affectedMemberships result =
      of_nat (length (filter (\<lambda>(k, p). revoked_by target p) (peersIn s (rt_channelID target))))"
proof -
  let ?c = "rt_channelID target"
  obtain ok sv where i: "installRevocation (Some a) target until now = (ok, sv)" by fastforce
  have ok: "ok" using run svc i by (cases ok) (simp_all add: revokeManagedServiceAdmission_def)
  obtain b where b: "sv = Some b" using service_ops_Some(5) [of a target until now] i by auto
  let ?s1 = "s\<lparr>s_serviceAdmission := sv\<rparr>"
  define rs where "rs = (case chan s ?c of None \<Rightarrow> ([], ?s1)
      | Some ch \<Rightarrow> let (r, ch') = revokePeers target (ch_peers ch) ch in (r, setOrDropChan ?c ch' ?s1))"
  have t: "t = foldl (\<lambda>s rp. emitRevocation pr ?c rp s) (snd rs) (fst rs)"
    and res: "rr_affectedMemberships result = of_nat (length (fst rs))"
    using run svc i ok by (auto simp: revokeManagedServiceAdmission_def rs_def split_beta Let_def)
  have core: "core_eq (snd rs) t" unfolding t by (rule core_eq_foldl) (rule core_eq_emitRevocation)
  have chan_t: "chan t = chan (snd rs)" by (rule core_eq_chan [OF core])
  have sv_t: "s_serviceAdmission t = Some b"
    using core b by (auto simp: core_eq_def rs_def split_beta split: option.split)
  show ?thesis
  proof (cases "chan s ?c")
    case None
    with i ok b sv_t chan_t res show ?thesis
      by (simp add: rs_def peersIn_def talkersIn_def)
  next
    case (Some ch)
    obtain r ch' where r: "revokePeers target (ch_peers ch) ch = (r, ch')" by fastforce
    note w = revokePeers_without [OF r]
    have wf: "gomap_wf (ch_peers ch)" using relay_inv_chan [OF inv Some] by (simp add: channel_wf_def)
    have peers: "ch_peers ch' = filter (\<lambda>(k, p). \<not> revoked_by target p) (ch_peers ch)"
      using w dropKeys_filter [OF wf, of "revoked_by target"] by (simp add: without_def)
    have talkers: "fst ` set (ch_activeTalkers ch') =
        talkersIn s ?c - senders (filter (\<lambda>(k, p). revoked_by target p) (ch_peers ch))"
      using w by (simp add: without_def fst_dropKeys talkersIn_def Some)
    have len: "length r = length (filter (\<lambda>(k, p). revoked_by target p) (ch_peers ch))"
      using arg_cong [OF conjunct2 [OF w], of length] by simp
    have "rs = (r, setOrDropChan ?c ch' ?s1)" by (simp add: rs_def Some r)
    with i ok b sv_t chan_t res peers talkers len show ?thesis
      by (simp add: peersIn_def talkersIn_def Some)
  qed
qed

text \<open>The recorder as a member, and its revocation.\<close>

definition recorder :: peer where
  "recorder = demoPeer\<lparr>p_serviceAdmission := Some demoGrant\<rparr>"

definition recorderRelay :: server where
  "recorderRelay = (setChan 5 (setPeer (Some demoAddr) recorder demoChannel) demoRelay)
     \<lparr>s_serviceAdmission := Some demoServiceVerified\<rparr>"

lemma recorderRelay_simps:
  "relay_inv recorderRelay" "s_serviceAdmission recorderRelay = Some demoServiceVerified"
  "peersIn recorderRelay 5 = [(peerMapKey (Some demoAddr), recorder)]" "revoked_by demoTarget recorder"
proof -
  have rec: "peer_ok (peerMapKey (Some demoAddr)) recorder" by (simp add: peer_ok_def recorder_def demoChannel_fields)
  have "talkLimit demoRelay = 1" by (simp add: talkLimit_def demoRelay_chan Let_def)
  then have "relay_inv (setChan 5 (setPeer (Some demoAddr) recorder demoChannel) demoRelay)"
    using channel_wf_setPeer [OF demoChannel_wf rec] by (intro relay_inv_setChan [OF demoRelay_inv]) simp_all
  then show "relay_inv recorderRelay"
    unfolding recorderRelay_def
    by (rule relay_inv_service) (simp add: deny_inv_def demoServiceVerified_def demoService_def)
  show "s_serviceAdmission recorderRelay = Some demoServiceVerified" by (simp add: recorderRelay_def)
  show "peersIn recorderRelay 5 = [(peerMapKey (Some demoAddr), recorder)]"
    by (simp add: recorderRelay_def peersIn_def setPeer_def demoChannel_fields)
  show "revoked_by demoTarget recorder"
    by (simp add: revoked_by_def recorder_def target_matches_def demoTarget_def demoGrant_def)
qed

theorem revocation_complete_witness:
  "\<exists>result t. revokeManagedServiceAdmission demoPrims demoTarget (time_Unix 3000) (time_Unix 1001) recorderRelay =
     (Some result, t) \<and> peersIn t 5 = [] \<and> rr_affectedMemberships result = 1 \<and>
     s_serviceAdmission t = Some demoRevoked"
proof -
  obtain result t where run: "revokeManagedServiceAdmission demoPrims demoTarget (time_Unix 3000) (time_Unix 1001)
      recorderRelay = (Some result, t)"
    using demo_revoked by (simp add: revokeManagedServiceAdmission_def recorderRelay_simps split_beta Let_def)
  have "rt_channelID demoTarget = 5" by (simp add: demoTarget_def)
  with revocation_complete [OF recorderRelay_simps(1,2) run] recorderRelay_simps run demo_revoked
  show ?thesis by auto
qed

subsection \<open>JOIN\<close>

lemma resolveJoin_one:
  assumes "resolveJoinAdmission now pkt addr meta s = (Inr (identity, service), s1)"
  shows "\<not> (ia_expiresAt identity \<noteq> 0 \<and> sa_grantExpires service \<noteq> 0)"
    "identity_isRequired (s_identityAdmission s1) \<Longrightarrow> ia_expiresAt identity \<noteq> 0 \<or> sa_grantExpires service \<noteq> 0"
  using assms
  by (auto simp: resolveJoinAdmission_def Let_def IsZero_def split: prod.split_asm if_split_asm)

lemma identity_mode_join:
  "identity_isRequired (snd (identity_admissionForJoin a pkt addr meta now)) = identity_isRequired a"
  by (auto simp: identity_admissionForJoin_def identity_isRequired_def identity_cleanupLocked_def Let_def
      split: option.split prod.split)

lemma resolveJoin_frame:
  assumes "resolveJoinAdmission now pkt addr meta s = (q, s1)"
  shows "identity_isRequired (s_identityAdmission s1) = identity_isRequired (s_identityAdmission s)"
    "chan s1 = chan s" "settings s1 = settings s"
proof -
  have s1: "s1 = s\<lparr>s_identityAdmission := snd (identity_admissionForJoin (s_identityAdmission s) pkt addr meta now),
      s_serviceAdmission := snd (service_admissionForJoin (s_serviceAdmission s) pkt addr meta now)\<rparr>"
    using assms unfolding resolveJoinAdmission_def Let_def split_beta by (simp split: if_split_asm)
  show "identity_isRequired (s_identityAdmission s1) = identity_isRequired (s_identityAdmission s)"
    by (simp add: s1 identity_mode_join)
  show "chan s1 = chan s" "settings s1 = settings s" by (simp_all add: s1)
qed

text \<open>The registered peer through the four steps of a JOIN.\<close>

lemma upsert_bound:
  assumes "addr \<noteq> None"
  shows "\<exists>ch p. boundPeer (upsertAuthenticatedPeerWithReplay now c i addr meta replay s) c i addr = Some (ch, p) \<and>
    p_authenticated p \<and> p_controlKeyID p = meta_keyID meta \<and> p_controlSessionID p = meta_sessionID meta"
  using assms by (auto simp: upsertAuthenticatedPeerWithReplay_def boundPeer_def Let_def split: prod.split)

lemma setIdentity_bound:
  assumes "setPeerIdentityAdmission c i addr adm s = (True, t)" "boundPeer s c i addr = Some (ch, p)"
  shows "\<exists>ch'. boundPeer t c i addr = Some (ch', p\<lparr>p_identityAdmission := Some adm\<rparr>)"
  using assms boundPeer_setPeer [OF assms(2)]
  by (auto simp: setPeerIdentityAdmission_def split: if_split_asm)

lemma setService_bound:
  assumes "setPeerServiceAdmission now c i addr adm s = (True, t)" "boundPeer s c i addr = Some (ch, p)"
  shows "\<exists>ch'. boundPeer t c i addr = Some (ch', p\<lparr>p_serviceAdmission := Some adm\<rparr>)"
proof -
  have b: "boundPeer (s\<lparr>s_serviceAdmission := v\<rparr>) c i addr = Some (ch, p)" for v
    using assms(2) by (simp add: boundPeer_def)
  show ?thesis
    using assms(1) b boundPeer_setPeer [OF b]
    by (auto simp: setPeerServiceAdmission_def Let_def split: if_split_asm prod.split_asm)
qed

lemma start_bound:
  assumes "startMembership now c i addr s = (True, t)" "boundPeer s c i addr = Some (ch, p)"
  shows "\<exists>ch'. boundPeer t c i addr = Some (ch', p\<lparr>p_membershipLease := s_membershipLease s,
    p_keepaliveInterval := s_keepaliveInterval s, p_membershipDeadline := now + s_membershipLease s, p_lastSeen := now\<rparr>)"
  using assms boundPeer_setPeer [OF assms(2)] by (auto simp: startMembership_def split: if_split_asm)

text \<open>A JOIN that succeeds went through every step.\<close>

lemma joinAuthenticated_steps:
  assumes run: "joinAuthenticated pr env pkt addr s = (Some j, t)"
  defines "c \<equiv> h_ChannelId (pk_Header pkt)" and "i \<equiv> h_SenderId (pk_Header pkt)"
  obtains meta a replay a' identity service s1 s3 s4 s5 where
    "verifyIncomingControl pr (s_controlAuth s) pkt = (meta, True)" "s_controlAuth s = Some a"
    "consumeJoinChallenge pr (clk env 1) (clk env 2) (clk env 3) a pkt addr meta = (Some replay, a')"
    "resolveJoinAdmission (clk env 4) pkt addr meta (s\<lparr>s_controlAuth := Some a'\<rparr>) = (Inr (identity, service), s1)"
    "(if IsZero (ia_expiresAt identity) then (True, upsertAuthenticatedPeerWithReplay (clk env 5) c i addr meta replay s1)
      else setPeerIdentityAdmission c i addr identity
        (upsertAuthenticatedPeerWithReplay (clk env 5) c i addr meta replay s1)) = (True, s3)"
    "(if IsZero (sa_grantExpires service) then (True, s3)
      else setPeerServiceAdmission (clk env 6) c i addr service s3) = (True, s4)"
    "startMembership (clk env 7) c i addr s4 = (True, s5)" "chan t = chan s5"
proof -
  obtain meta ok where v: "verifyIncomingControl pr (s_controlAuth s) pkt = (meta, ok)" by fastforce
  have ok: "ok" using run unverified_join_inert [of pr s pkt meta env addr] v by (cases ok) simp_all
  have "joinAuthenticated pr env pkt addr s = (None, s)" if "s_controlAuth s = None"
    using that by (simp add: joinAuthenticated_def split_beta)
  with run obtain a where a: "s_controlAuth s = Some a" by (cases "s_controlAuth s") simp_all
  obtain x a' where con: "consumeJoinChallenge pr (clk env 1) (clk env 2) (clk env 3) a pkt addr meta = (x, a')" by fastforce
  note def1 = run [unfolded joinAuthenticated_def Let_def v prod.case, unfolded a option.case con prod.case]
  obtain replay where x: "x = Some replay" using def1 by (cases x) simp_all
  obtain q s1 where res: "resolveJoinAdmission (clk env 4) pkt addr meta (s\<lparr>s_controlAuth := Some a'\<rparr>) = (q, s1)" by fastforce
  note def2 = def1 [unfolded x option.case res prod.case]
  obtain identity service where q: "q = Inr (identity, service)"
    using def2 by (cases q) (auto split: prod.split_asm)
  note def3 = def2 [unfolded q sum.case prod.case, folded c_def i_def]
  obtain ok3 s3 where s3: "(if IsZero (ia_expiresAt identity) then (True, upsertAuthenticatedPeerWithReplay (clk env 5) c i addr meta replay s1)
      else setPeerIdentityAdmission c i addr identity
        (upsertAuthenticatedPeerWithReplay (clk env 5) c i addr meta replay s1)) = (ok3, s3)" by fastforce
  note def4 = def3 [unfolded s3 prod.case]
  have ok3: "ok3" using def4 by (cases ok3) simp_all
  obtain ok4 s4 where s4: "(if IsZero (sa_grantExpires service) then (True, s3)
      else setPeerServiceAdmission (clk env 6) c i addr service s3) = (ok4, s4)" by fastforce
  note def5 = def4 [unfolded s4 prod.case]
  have ok4: "ok4" using def5 ok3 by (cases ok4) simp_all
  obtain ok5 s5 where s5: "startMembership (clk env 7) c i addr s4 = (ok5, s5)" by fastforce
  note def6 = def5 [unfolded s5 prod.case]
  have ok5: "ok5" using def6 ok3 ok4 by (cases ok5) simp_all
  have "chan t = chan s5" using def6 ok3 ok4 ok5 by (auto split: option.split_asm)
  with that [OF v [unfolded eqTrueI [OF ok]] a con [unfolded x] res [unfolded q] s3 [unfolded eqTrueI [OF ok3]]
      s4 [unfolded eqTrueI [OF ok4]] s5 [unfolded eqTrueI [OF ok5]]]
  show thesis .
qed

text \<open>
  C2. JOIN on an authenticated channel: when it succeeds the packet verified under a configured key
  and answered an outstanding challenge, the endpoint is registered under the sender with the key and
  session of the packet and a lease that starts now, and in required mode the member carries exactly
  one admission, human or service.
\<close>

theorem join_sound:
  assumes inv: "relay_inv s" and i: "h_SenderId (pk_Header pkt) \<noteq> 0"
    and run: "joinAuthenticated pr env pkt addr s = (Some j, t)"
  shows "\<exists>meta a replay a' ch p. verifyIncomingControl pr (s_controlAuth s) pkt = (meta, True) \<and>
    s_controlAuth s = Some a \<and>
    consumeJoinChallenge pr (clk env 1) (clk env 2) (clk env 3) a pkt addr meta = (Some replay, a') \<and>
    boundPeer t (h_ChannelId (pk_Header pkt)) (h_SenderId (pk_Header pkt)) addr = Some (ch, p) \<and>
    p_authenticated p \<and> p_controlKeyID p = meta_keyID meta \<and> p_controlSessionID p = meta_sessionID meta \<and>
    p_membershipDeadline p = clk env 7 + s_membershipLease s \<and>
    (identity_isRequired (s_identityAdmission s) \<longrightarrow> (p_identityAdmission p \<noteq> None) \<noteq> (p_serviceAdmission p \<noteq> None))"
proof -
  let ?c = "h_ChannelId (pk_Header pkt)" and ?i = "h_SenderId (pk_Header pkt)"
  obtain meta a replay a' identity service s1 s3 s4 s5 where
    v: "verifyIncomingControl pr (s_controlAuth s) pkt = (meta, True)" and a: "s_controlAuth s = Some a"
    and con: "consumeJoinChallenge pr (clk env 1) (clk env 2) (clk env 3) a pkt addr meta = (Some replay, a')"
    and res: "resolveJoinAdmission (clk env 4) pkt addr meta (s\<lparr>s_controlAuth := Some a'\<rparr>) = (Inr (identity, service), s1)"
    and s3: "(if IsZero (ia_expiresAt identity) then (True, upsertAuthenticatedPeerWithReplay (clk env 5) ?c ?i addr meta replay s1)
      else setPeerIdentityAdmission ?c ?i addr identity
        (upsertAuthenticatedPeerWithReplay (clk env 5) ?c ?i addr meta replay s1)) = (True, s3)"
    and s4: "(if IsZero (sa_grantExpires service) then (True, s3)
      else setPeerServiceAdmission (clk env 6) ?c ?i addr service s3) = (True, s4)"
    and s5: "startMembership (clk env 7) ?c ?i addr s4 = (True, s5)" and t: "chan t = chan s5"
    by (rule joinAuthenticated_steps [OF run])
  let ?s2 = "upsertAuthenticatedPeerWithReplay (clk env 5) ?c ?i addr meta replay s1"
  have addr: "addr \<noteq> None" using con unfolding consumeJoinChallenge_def by (cases addr) simp_all
  obtain ch2 p2 where b2: "boundPeer ?s2 ?c ?i addr = Some (ch2, p2)" "p_authenticated p2"
    "p_controlKeyID p2 = meta_keyID meta" "p_controlSessionID p2 = meta_sessionID meta"
    using upsert_bound [OF addr] by metis
  obtain ch3 p3 where b3: "boundPeer s3 ?c ?i addr = Some (ch3, p3)" "p_authenticated p3"
    "p_controlKeyID p3 = meta_keyID meta" "p_controlSessionID p3 = meta_sessionID meta"
    "ia_expiresAt identity \<noteq> 0 \<Longrightarrow> p_identityAdmission p3 \<noteq> None"
    using s3 b2 setIdentity_bound [OF _ b2(1), of identity s3]
    by (cases "IsZero (ia_expiresAt identity)") (auto simp: IsZero_def)
  obtain ch4 p4 where b4: "boundPeer s4 ?c ?i addr = Some (ch4, p4)" "p_authenticated p4"
    "p_controlKeyID p4 = meta_keyID meta" "p_controlSessionID p4 = meta_sessionID meta"
    "ia_expiresAt identity \<noteq> 0 \<Longrightarrow> p_identityAdmission p4 \<noteq> None"
    "sa_grantExpires service \<noteq> 0 \<Longrightarrow> p_serviceAdmission p4 \<noteq> None"
    using s4 b3 setService_bound [OF _ b3(1), of "clk env 6" service s4]
    by (cases "IsZero (sa_grantExpires service)") (auto simp: IsZero_def)
  obtain ch5 where b5: "boundPeer s5 ?c ?i addr = Some (ch5, p4\<lparr>p_membershipLease := s_membershipLease s4,
      p_keepaliveInterval := s_keepaliveInterval s4, p_membershipDeadline := clk env 7 + s_membershipLease s4,
      p_lastSeen := clk env 7\<rparr>)" using start_bound [OF s5 b4(1)] by blast
  have "settings s4 = settings s"
    using s3 s4 settings_peer_ops(1) [of ?c ?i addr identity ?s2] settings_setPeerService [of "clk env 6" ?c ?i addr service s3]
      settings_upsertAuthenticated [of "clk env 5" ?c ?i addr meta replay s1] resolveJoin_frame(3) [OF res]
    by (simp split: if_split_asm)
  then have lease: "s_membershipLease s4 = s_membershipLease s" by (simp add: settings_def)
  have bt: "boundPeer t ?c ?i addr = boundPeer s5 ?c ?i addr" by (simp add: boundPeer_def t)
  have "relay_inv t" using relay_inv_joinAuthenticated [OF inv i, of pr env addr] run by simp
  from relay_inv_bound(2) [OF this bt [unfolded b5]]
  have one: "p_identityAdmission p4 = None \<or> p_serviceAdmission p4 = None" by (simp add: peer_ok_def)
  have "p_identityAdmission p4 \<noteq> None \<or> p_serviceAdmission p4 \<noteq> None" if "identity_isRequired (s_identityAdmission s)"
    using resolveJoin_one(2) [OF res] resolveJoin_frame(1) [OF res] that b4(5,6) by auto
  with one v a con bt b5 b4 lease show ?thesis by auto
qed

text \<open>The JOIN that answers the challenge of the example, signed with the configured key.\<close>

definition joinTag :: bytes where
  "joinTag = controlAuthTag demoPrims (replicate 32 1) (replicate 28 0)"

definition joinPacket :: "bytes \<Rightarrow> parsedPacket" where
  "joinPacket payload = demoHello\<lparr>pk_Header := (pk_Header demoHello)\<lparr>h_Type := pktJoin\<rparr>,
     pk_Sec := \<lparr>sec_ControlNonce = 330712481793, sec_MediaNonceBase = zeroBase, sec_MediaCounter = 0, sec_KeyID = 1\<rparr>,
     pk_Payload := payload, pk_Tag := joinTag, pk_Raw := replicate 28 0 @ joinTag\<rparr>"

lemma joinPacket_verified:
  assumes "ca_keys b = ca_keys demoAuth"
  shows "verifyIncomingControl demoPrims (Some b) (joinPacket payload) = (demoMeta\<lparr>meta_counter := 1\<rparr>, True)"
proof -
  have len: "length joinTag = 16" by (simp add: joinTag_def controlAuthTag_def demoPrims_hmac)
  have parts: "controlNonceParts 330712481793 = (77, 1)" by (simp add: controlNonceParts_def)
  have key: "controlAuth_key (Some b) 5 1 = replicate 32 1" by (simp add: controlAuth_key_def assms demoAuth_def)
  have "verifyControlAuthPacket demoPrims (joinPacket payload) (replicate 32 1)"
    using len by (simp add: verifyControlAuthPacket_def joinPacket_def demoHello_def flip: joinTag_def)
  then show ?thesis
    by (simp add: verifyIncomingControl_def key joinPacket_def demoHello_def parts Let_def demoMeta_def)
qed

lemma demo_join_runs:
  assumes b: "createChallenge demoPrims (time_Unix 1000) (time_Unix 1000) demoAuth demoHello (Some demoAddr) demoMeta =
    (Some payload, b)"
  defines "s \<equiv> demoRelay\<lparr>s_controlAuth := Some b\<rparr>"
  shows "\<exists>t. joinAuthenticated demoPrims demoEnv (joinPacket payload) (Some demoAddr) s = (Some None, t)"
proof -
  have keys: "ca_keys b = ca_keys demoAuth"
    using b by (auto simp: createChallenge_def Let_def cleanupPendingLocked_def split: if_split_asm)
  note v = joinPacket_verified [OF keys, of payload]
  have late: "time_Unix 1010 < time_Unix 1030" by (simp add: time_Unix_after_iff)
  obtain st c where con: "consumeJoinChallenge demoPrims (time_Unix 1010) (time_Unix 1010) (time_Unix 1010) b
      (joinPacket payload) (Some demoAddr) (demoMeta\<lparr>meta_counter := 1\<rparr>) = (Some st, c)"
    using join_challenge_once_step [OF demoPrims_hmac pending_inv_new [OF demoAuth_new] b, of "joinPacket payload"
        "demoMeta\<lparr>meta_counter := 1\<rparr>" "time_Unix 1010" "time_Unix 1010" "time_Unix 1010"]
      demoHello_challenge(1) [OF b] late
    by (auto simp: joinPacket_def)
  have none: "s_identityAdmission demoRelay = None" "s_serviceAdmission demoRelay = None"
    by (simp_all add: demoRelay_def configured_def configureServiceAdmission_def configureIdentityAdmission_def
        configureControlAuth_def newServer_def Let_def)
  obtain s1 where res: "resolveJoinAdmission (time_Unix 1010) (joinPacket payload) (Some demoAddr)
      (demoMeta\<lparr>meta_counter := 1\<rparr>) (s\<lparr>s_controlAuth := Some c\<rparr>) = (Inr (zeroIdentityAdmission, zeroServiceAdmission), s1)"
    by (simp add: resolveJoinAdmission_def s_def none identity_admissionForJoin_def service_admissionForJoin_def
        identity_isRequired_def zeroIdentityAdmission_def zeroServiceAdmission_def IsZero_def Let_def)
  have ca: "s_controlAuth s = Some b" by (simp add: s_def)
  have ch: "h_SenderId (pk_Header (joinPacket payload)) = 11" by (simp add: joinPacket_def demoHello_def)
  have zero: "IsZero (ia_expiresAt zeroIdentityAdmission)" "IsZero (sa_grantExpires zeroServiceAdmission)"
    by (simp_all add: zeroIdentityAdmission_def zeroServiceAdmission_def IsZero_def)
  have clk: "clk demoEnv n = time_Unix 1010" for n by (simp add: demoEnv_def)
  obtain ch2 p2 where "boundPeer (upsertAuthenticatedPeerWithReplay (time_Unix 1010) (h_ChannelId (pk_Header (joinPacket payload)))
      11 (Some demoAddr) (demoMeta\<lparr>meta_counter := 1\<rparr>) st s1) (h_ChannelId (pk_Header (joinPacket payload))) 11 (Some demoAddr)
      = Some (ch2, p2)"
    using upsert_bound [of "Some demoAddr"] by blast
  then show ?thesis
    unfolding joinAuthenticated_def Let_def ca v prod.case option.case clk con res sum.case
    by (simp add: ch zero startMembership_def)
qed

theorem join_sound_witness:
  "\<exists>payload b t. createChallenge demoPrims (time_Unix 1000) (time_Unix 1000) demoAuth demoHello (Some demoAddr) demoMeta =
      (Some payload, b) \<and>
    joinAuthenticated demoPrims demoEnv (joinPacket payload) (Some demoAddr) (demoRelay\<lparr>s_controlAuth := Some b\<rparr>) = (Some None, t) \<and>
    (\<exists>ch p. boundPeer t 5 11 (Some demoAddr) = Some (ch, p) \<and> p_authenticated p)"
proof -
  obtain payload b where b: "createChallenge demoPrims (time_Unix 1000) (time_Unix 1000) demoAuth
      demoHello (Some demoAddr) demoMeta = (Some payload, b)"
    using demoHello_challenge(2) by (metis option.exhaust surjective_pairing)
  obtain t where run: "joinAuthenticated demoPrims demoEnv (joinPacket payload) (Some demoAddr)
      (demoRelay\<lparr>s_controlAuth := Some b\<rparr>) = (Some None, t)" using demo_join_runs [OF b] by blast
  have "relay_inv (demoRelay\<lparr>s_controlAuth := Some b\<rparr>)"
    by (rule relay_inv_createChallenge [OF demoRelay_inv demoRelay_chan(3) b])
  from join_sound [OF this _ run] b run show ?thesis
    by (fastforce simp: joinPacket_def demoHello_def)
qed

subsection \<open>Rebinding an endpoint\<close>



end
