(* ===== verification/Private_Control.thy ===== *)
theory Private_Control
  imports Relay_Safety
begin

text \<open>
  The messages of the private control link (private_control.go): the limits, the records, their
  validation, the JSON scanner that refuses duplicate members, and length-prefixed frames. The tokens
  of \<^verbatim>\<open>encoding/json\<close> are the input of the scanner.
\<close>

subsection \<open>Limits\<close>

definition privateControlSchemaVersion :: string where
  "privateControlSchemaVersion = ''private-control-link-v1''"

abbreviation (input) privateControlMaxFrameBytes :: nat where "privateControlMaxFrameBytes \<equiv> 65536"
abbreviation (input) privateControlMaxJSONInteger :: int where "privateControlMaxJSONInteger \<equiv> 9007199254740991"
abbreviation (input) privateControlSessionQueueDepth :: nat where "privateControlSessionQueueDepth \<equiv> 256"
abbreviation (input) privateControlMaxIdempotency :: nat where "privateControlMaxIdempotency \<equiv> 1024"
abbreviation (input) privateControlMaxCommands :: nat where "privateControlMaxCommands \<equiv> 32"
abbreviation (input) privateControlMaxConnections :: nat where "privateControlMaxConnections \<equiv> 64"
abbreviation (input) privateControlMaxFailures :: u8 where "privateControlMaxFailures \<equiv> 8"
abbreviation (input) privateControlMaxFailureSources :: nat where "privateControlMaxFailureSources \<equiv> 1024"

definition privateControlIdempotencyTTL :: duration where "privateControlIdempotencyTTL = 600 * Second"
definition privateControlMaxDenyPeriod :: duration where "privateControlMaxDenyPeriod = 5400 * Second"
definition privateControlDiagnosticsMinInterval :: duration where
  "privateControlDiagnosticsMinInterval = 10 * Second"
definition privateControlFailureWindow :: duration where "privateControlFailureWindow = 60 * Second"

subsection \<open>Messages\<close>

record privateControlHello =
  hl_SchemaVersion :: string
  hl_Type :: string
  hl_MessageID :: string
  hl_ManagementServiceID :: string
  hl_WantLifecycleEvents :: "bool option"
  hl_WantAuditInputs :: "bool option"
  hl_WantDiagnostics :: "bool option"

text \<open>PING, GET_RELAY_DIAGNOSTICS, GET_RELAY_STATE_SNAPSHOT and the envelope have these three fields.\<close>

record privateControlCommandEnvelope =
  en_SchemaVersion :: string
  en_Type :: string
  en_MessageID :: string

record privateControlRevokeServiceAdmission =
  rv_SchemaVersion :: string
  rv_Type :: string
  rv_MessageID :: string
  rv_ChannelID :: u32
  rv_ServiceID :: string
  rv_GrantIDHash :: string
  rv_Reason :: string
  rv_DenyUntil :: int

record privateControlAck =
  ack_SchemaVersion :: string
  ack_Type :: string
  ack_MessageID :: string
  ack_InReplyTo :: string
  ack_Outcome :: string
  ack_DenyUntil :: int
  ack_AffectedMembershipCount :: u32
  ack_TalkReleaseCount :: u32

record privateControlSnapshotParticipant =
  sp_SenderID :: u32
  sp_State :: string

record privateControlSnapshotChannel =
  sc_ChannelID :: u32
  sc_Participants :: "privateControlSnapshotParticipant list"

datatype privateControlMessage =
    MsgHelloAck string string string string bool bool bool
  | MsgPong string string
  | MsgAck privateControlAck
  | MsgError string string string
  | MsgDiagnostics string string string string gotime relayFloorInterruptCounters
  | MsgSnapshot string string string u16 u16 "privateControlSnapshotChannel list"
  | MsgLifecycle string gotime string "u32 option" "u32 option" "string option" "string option"
      "string option" "string option"
  | MsgAudit string gotime string string string u32 string u8 "(u32 \<times> u8) option"

subsection \<open>Validation\<close>

definition validPrivateControlID :: "string \<Rightarrow> bool" where
  "validPrivateControlID value =
     (if length value \<noteq> 22 then False
      else case b64Decode value of
        None \<Rightarrow> False
      | Some decoded \<Rightarrow> length decoded = 16 \<and> b64Encode decoded = value)"

text \<open>\<open>Inl\<close> on failure; a nil hash is \<open>None\<close>.\<close>

definition decodePrivateControlGrantIDHash :: "string \<Rightarrow> unit + bytes option" where
  "decodePrivateControlGrantIDHash value =
     (if value = [] then Inr None
      else case b64Decode value of
        None \<Rightarrow> Inl ()
      | Some decoded \<Rightarrow>
          if length decoded \<noteq> 32 \<or> b64Encode decoded \<noteq> value then Inl () else Inr (Some decoded))"

definition validPrivateControlRevocation ::
  "privateControlRevokeServiceAdmission \<Rightarrow> serviceAdmissionRevocationTarget option" where
  "validPrivateControlRevocation message =
     (if rv_SchemaVersion message \<noteq> privateControlSchemaVersion \<or> rv_Type message \<noteq> ''revoke_service_admission'' \<or>
         \<not> validPrivateControlID (rv_MessageID message) \<or> rv_DenyUntil message < 1 \<or>
         privateControlMaxJSONInteger < rv_DenyUntil message \<or>
         rv_ServiceID message \<noteq> [] \<and> \<not> managedServiceIDMatch (rv_ServiceID message) \<or>
         rv_Reason message \<notin> {''acl_removed'', ''service_disabled'', ''grant_revoked''}
      then None
      else case decodePrivateControlGrantIDHash (rv_GrantIDHash message) of
        Inl _ \<Rightarrow> None
      | Inr grantIDHash \<Rightarrow>
          if rv_ServiceID message = [] \<and> grantIDHash = None then None
          else Some \<lparr>rt_channelID = rv_ChannelID message, rt_serviceID = rv_ServiceID message,
                     rt_grantIDHash = grantIDHash\<rparr>)"

definition validPrivateControlHello :: "privateControlHello \<Rightarrow> bool" where
  "validPrivateControlHello message \<longleftrightarrow>
     hl_SchemaVersion message = privateControlSchemaVersion \<and> hl_Type message = ''hello'' \<and>
     validPrivateControlID (hl_MessageID message) \<and> managedServiceIDMatch (hl_ManagementServiceID message) \<and>
     hl_WantLifecycleEvents message \<noteq> None \<and> hl_WantAuditInputs message \<noteq> None \<and> hl_WantDiagnostics message \<noteq> None"

definition validEnvelope :: "string \<Rightarrow> privateControlCommandEnvelope \<Rightarrow> bool" where
  "validEnvelope type message \<longleftrightarrow>
     en_SchemaVersion message = privateControlSchemaVersion \<and> en_Type message = type \<and>
     validPrivateControlID (en_MessageID message)"

definition validPrivateControlPing :: "privateControlCommandEnvelope \<Rightarrow> bool" where
  "validPrivateControlPing = validEnvelope ''ping''"

definition validPrivateControlGetRelayDiagnostics :: "privateControlCommandEnvelope \<Rightarrow> bool" where
  "validPrivateControlGetRelayDiagnostics = validEnvelope ''get_relay_diagnostics''"

definition validPrivateControlGetRelayStateSnapshot :: "privateControlCommandEnvelope \<Rightarrow> bool" where
  "validPrivateControlGetRelayStateSnapshot = validEnvelope ''get_relay_state_snapshot''"

subsection \<open>The scanner for duplicate members\<close>

text \<open>
  What \<^verbatim>\<open>Decoder.Token\<close> yields: delimiters, strings and other scalars, until the input ends or is
  found malformed.
\<close>

datatype jsonToken = Delim char | Str string | Scalar

datatype jsonEnd = EndOfInput | SyntaxError

datatype jsonError = JsonEOF | JsonMalformed

definition end_error :: "jsonEnd \<Rightarrow> jsonError" where
  "end_error e = (case e of EndOfInput \<Rightarrow> JsonEOF | SyntaxError \<Rightarrow> JsonMalformed)"

definition More :: "jsonToken list \<Rightarrow> jsonEnd \<Rightarrow> bool" where
  "More toks e =
     (case toks of [] \<Rightarrow> e = SyntaxError | t # _ \<Rightarrow> t \<noteq> Delim (CHR '']'') \<and> t \<noteq> Delim (CHR ''}''))"

text \<open>
  The recursive scanner and its two loops, with the tokens that are left. The fuel is the number of
  tokens: each call takes one before it recurses.
\<close>

fun scanPrivateControlJSONValue :: "nat \<Rightarrow> jsonEnd \<Rightarrow> jsonToken list \<Rightarrow> jsonError + jsonToken list"
  and scanMembers :: "nat \<Rightarrow> jsonEnd \<Rightarrow> string set \<Rightarrow> jsonToken list \<Rightarrow> jsonError + jsonToken list"
  and scanElements :: "nat \<Rightarrow> jsonEnd \<Rightarrow> jsonToken list \<Rightarrow> jsonError + jsonToken list" where
  "scanPrivateControlJSONValue 0 e toks = Inl (end_error e)"
| "scanPrivateControlJSONValue (Suc n) e toks =
     (case toks of
        [] \<Rightarrow> Inl (end_error e)
      | Delim d # rest \<Rightarrow>
          if d = CHR ''{'' then scanMembers n e {} rest
          else if d = CHR ''['' then scanElements n e rest
          else Inl JsonMalformed
      | t # rest \<Rightarrow> Inr rest)"
| "scanMembers 0 e seen toks = Inl (end_error e)"
| "scanMembers (Suc n) e seen toks =
     (if More toks e
      then case toks of
          [] \<Rightarrow> Inl (end_error e)
        | Str key # rest \<Rightarrow>
            if key \<in> seen then Inl JsonMalformed
            else (case scanPrivateControlJSONValue n e rest of
                Inl x \<Rightarrow> Inl x
              | Inr rest' \<Rightarrow> scanMembers n e (insert key seen) rest')
        | t # rest \<Rightarrow> Inl JsonMalformed
      else case toks of
          [] \<Rightarrow> Inl (end_error e)
        | t # rest \<Rightarrow> if t = Delim (CHR ''}'') then Inr rest else Inl JsonMalformed)"
| "scanElements 0 e toks = Inl (end_error e)"
| "scanElements (Suc n) e toks =
     (if More toks e
      then case scanPrivateControlJSONValue n e toks of
          Inl x \<Rightarrow> Inl x
        | Inr rest' \<Rightarrow> scanElements n e rest'
      else case toks of
          [] \<Rightarrow> Inl (end_error e)
        | t # rest \<Rightarrow> if t = Delim (CHR '']'') then Inr rest else Inl JsonMalformed)"

text \<open>One value and nothing after it.\<close>

definition validatePrivateControlJSON :: "bool \<Rightarrow> jsonToken list \<Rightarrow> jsonEnd \<Rightarrow> jsonError option" where
  "validatePrivateControlJSON utf8 toks e =
     (if \<not> utf8 then Some JsonMalformed
      else case scanPrivateControlJSONValue (2 * length toks + 1) e toks of
        Inl x \<Rightarrow> Some x
      | Inr [] \<Rightarrow> (case e of EndOfInput \<Rightarrow> None | SyntaxError \<Rightarrow> Some JsonMalformed)
      | Inr (t # rest) \<Rightarrow> Some JsonMalformed)"

end
