(* ===== verification/Private_Frames.thy ===== *)
theory Private_Frames
  imports Private_Control
begin

text \<open>
  Frames of the private control link (private_control.go): reading and writing a length-prefixed JSON
  payload, with the loop over short writes. The scanner of the payload is shown to accept exactly the
  token sequences of one JSON value in which no object names a member twice; the fuel of the scanner
  is enough for every input. The lexer of \<^verbatim>\<open>encoding/json\<close> and the writer are parameters.
\<close>

subsection \<open>Reading and writing\<close>

datatype readError = ReadEOF | ReadUnexpectedEOF | MalformedFrame | MalformedJSON jsonError

text \<open>\<^verbatim>\<open>io.ReadFull\<close> of \<open>n > 0\<close> bytes from what the peer has sent before it closes.\<close>

definition ReadFull :: "nat \<Rightarrow> bytes \<Rightarrow> readError + bytes \<times> bytes" where
  "ReadFull n stream =
     (if n \<le> length stream then Inr (take n stream, drop n stream)
      else if stream = [] then Inl ReadEOF else Inl ReadUnexpectedEOF)"

type_synonym lexer = "bytes \<Rightarrow> bool \<times> jsonToken list \<times> jsonEnd"

definition validPayload :: "lexer \<Rightarrow> bytes \<Rightarrow> jsonError option" where
  "validPayload tokenize payload = (case tokenize payload of (utf8, toks, e) \<Rightarrow> validatePrivateControlJSON utf8 toks e)"

definition readPrivateControlFrame :: "lexer \<Rightarrow> bytes \<Rightarrow> readError + bytes \<times> bytes" where
  "readPrivateControlFrame tokenize stream =
     (case ReadFull 4 stream of
        Inl err \<Rightarrow> Inl err
      | Inr (lengthBytes, stream1) \<Rightarrow>
          let len = unat (Uint32 lengthBytes) in
          if len < 2 \<or> privateControlMaxFrameBytes < len then Inl MalformedFrame
          else (case ReadFull len stream1 of
              Inl err \<Rightarrow> Inl err
            | Inr (payload, stream2) \<Rightarrow>
                (case validPayload tokenize payload of
                   Some err \<Rightarrow> Inl (MalformedJSON err)
                 | None \<Rightarrow> Inr (payload, stream2))))"

text \<open>\<^verbatim>\<open>errors.Is(err, io.EOF)\<close>, which looks through the wrapped error of the scanner.\<close>

definition readError_IsEOF :: "readError \<Rightarrow> bool" where
  "readError_IsEOF err \<longleftrightarrow> err = ReadEOF \<or> err = MalformedJSON JsonEOF"

text \<open>The result of a write and the bytes the writer took.\<close>

datatype writeResult = Written | WriteFailed | ShortWrite | WritePanic | InvalidSize | MarshalFailed

type_synonym 'w writer = "'w \<Rightarrow> bytes \<Rightarrow> (int \<times> bool) \<times> 'w"

function writePrivateControlBytes :: "'w writer \<Rightarrow> 'w \<Rightarrow> bytes \<Rightarrow> writeResult \<times> bytes \<times> 'w" where
  "writePrivateControlBytes writer w payload =
     (if payload = [] then (Written, [], w)
      else case writer w payload of
        ((written, err), w1) \<Rightarrow>
          if err then (WriteFailed, take (nat written) payload, w1)
          else if written \<le> 0 then (ShortWrite, [], w1)
          else if int (length payload) < written then (WritePanic, payload, w1)
          else (case writePrivateControlBytes writer w1 (drop (nat written) payload) of
              (r, sent, w2) \<Rightarrow> (r, take (nat written) payload @ sent, w2)))"
  by pat_completeness auto
termination
  by (relation "measure (\<lambda>(writer, w, payload). length payload)") auto

declare writePrivateControlBytes.simps [simp del]

definition writePrivateControlFrame ::
  "'w writer \<Rightarrow> bytes option \<Rightarrow> 'w \<Rightarrow> writeResult \<times> bytes \<times> 'w" where
  "writePrivateControlFrame writer marshalled w =
     (case marshalled of
        None \<Rightarrow> (MarshalFailed, [], w)
      | Some payload \<Rightarrow>
          if length payload < 2 \<or> privateControlMaxFrameBytes < length payload then (InvalidSize, [], w)
          else (case writePrivateControlBytes writer w (PutUint32 (of_nat (length payload))) of
              (r, sent, w1) \<Rightarrow>
                if r \<noteq> Written then (r, sent, w1)
                else (case writePrivateControlBytes writer w1 payload of
                    (r', sent', w2) \<Rightarrow> (r', sent @ sent', w2))))"

subsection \<open>JSON values\<close>

datatype jsonValue = JString string | JScalar | JObject "(string \<times> jsonValue) list" | JArray "jsonValue list"

fun tokensOf :: "jsonValue \<Rightarrow> jsonToken list" where
  "tokensOf (JString s) = [Str s]"
| "tokensOf JScalar = [Scalar]"
| "tokensOf (JObject ms) = Delim (CHR ''{'') # concat (map (\<lambda>(k, v). Str k # tokensOf v) ms) @ [Delim (CHR ''}'')]"
| "tokensOf (JArray vs) = Delim (CHR ''['') # concat (map tokensOf vs) @ [Delim (CHR '']'')]"

text \<open>No object, at any depth, has two members of one name.\<close>

fun no_duplicates :: "jsonValue \<Rightarrow> bool" where
  "no_duplicates (JString s) = True"
| "no_duplicates JScalar = True"
| "no_duplicates (JObject ms) \<longleftrightarrow> distinct (map fst ms) \<and> (\<forall>(k, v)\<in>set ms. no_duplicates v)"
| "no_duplicates (JArray vs) \<longleftrightarrow> (\<forall>v\<in>set vs. no_duplicates v)"

abbreviation memberTokens :: "(string \<times> jsonValue) list \<Rightarrow> jsonToken list" where
  "memberTokens ms \<equiv> concat (map (\<lambda>(k, v). Str k # tokensOf v) ms)"

lemma tokensOf_Cons: "\<exists>t ts. tokensOf v = t # ts \<and> t \<noteq> Delim (CHR '']'') \<and> t \<noteq> Delim (CHR ''}'')"
  by (cases v) auto

lemma More_value: "More (tokensOf v @ rest) e"
  using tokensOf_Cons [of v] by (auto simp: More_def)

subsubsection \<open>Every value is accepted\<close>

lemma scanElements_complete:
  assumes "\<And>v n rest. v \<in> set vs \<Longrightarrow> 2 * length (tokensOf v) \<le> n \<Longrightarrow>
      scanPrivateControlJSONValue n e (tokensOf v @ rest) = Inr rest"
    and "2 * length (concat (map tokensOf vs)) + 1 \<le> n"
  shows "scanElements n e (concat (map tokensOf vs) @ Delim (CHR '']'') # rest) = Inr rest"
  using assms
proof (induction vs arbitrary: n)
  case Nil
  then obtain m where "n = Suc m" by (cases n) auto
  then show ?case by (simp add: More_def)
next
  case (Cons v vs)
  then obtain m where n: "n = Suc m" by (cases n) auto
  have "scanPrivateControlJSONValue m e (tokensOf v @ concat (map tokensOf vs) @ Delim (CHR '']'') # rest) =
      Inr (concat (map tokensOf vs) @ Delim (CHR '']'') # rest)"
    using Cons.prems(2) n by (intro Cons.prems(1)) auto
  moreover have "scanElements m e (concat (map tokensOf vs) @ Delim (CHR '']'') # rest) = Inr rest"
    using Cons.prems tokensOf_Cons [of v] n by (intro Cons.IH) auto
  ultimately show ?case by (simp add: n More_value)
qed

lemma scanMembers_complete:
  assumes "\<And>k v n rest. (k, v) \<in> set ms \<Longrightarrow> 2 * length (tokensOf v) \<le> n \<Longrightarrow>
      scanPrivateControlJSONValue n e (tokensOf v @ rest) = Inr rest"
    and "2 * length (memberTokens ms) + 1 \<le> n" "distinct (map fst ms)" "fst ` set ms \<inter> seen = {}"
  shows "scanMembers n e seen (memberTokens ms @ Delim (CHR ''}'') # rest) = Inr rest"
  using assms
proof (induction ms arbitrary: n seen)
  case Nil
  then obtain m where "n = Suc m" by (cases n) auto
  then show ?case by (simp add: More_def)
next
  case (Cons kv ms)
  obtain k v where kv: "kv = (k, v)" by fastforce
  obtain m where n: "n = Suc m" using Cons.prems(2) by (cases n) auto
  have "scanPrivateControlJSONValue m e (tokensOf v @ memberTokens ms @ Delim (CHR ''}'') # rest) =
      Inr (memberTokens ms @ Delim (CHR ''}'') # rest)"
    using Cons.prems(2) n kv by (intro Cons.prems(1)) auto
  moreover have "scanMembers m e (insert k seen) (memberTokens ms @ Delim (CHR ''}'') # rest) = Inr rest"
    using Cons.prems n kv by (intro Cons.IH) auto
  ultimately show ?case using Cons.prems(4) by (simp add: n kv More_def)
qed

lemma scan_complete:
  "no_duplicates v \<Longrightarrow> 2 * length (tokensOf v) \<le> n \<Longrightarrow>
   scanPrivateControlJSONValue n e (tokensOf v @ rest) = Inr rest"
proof (induction v arbitrary: n rest)
  case (JObject ms)
  then obtain m where n: "n = Suc m" by (cases n) auto
  have "scanMembers m e {} (memberTokens ms @ Delim (CHR ''}'') # rest) = Inr rest"
  proof (rule scanMembers_complete)
    show "scanPrivateControlJSONValue n e (tokensOf v @ rest) = Inr rest"
      if "(k, v) \<in> set ms" "2 * length (tokensOf v) \<le> n" for k v n rest
      using JObject that by (fastforce simp: Basic_BNFs.snds.simps)
  qed (use JObject.prems n in auto)
  then show ?case by (simp add: n)
next
  case (JArray vs)
  then obtain m where n: "n = Suc m" by (cases n) auto
  have "scanElements m e (concat (map tokensOf vs) @ Delim (CHR '']'') # rest) = Inr rest"
    by (rule scanElements_complete) (use JArray n in auto)
  then show ?case by (simp add: n)
next
  case (JString s)
  then show ?case by (cases n) auto
next
  case JScalar
  then show ?case by (cases n) auto
qed

subsubsection \<open>Only such values are accepted\<close>

lemma scan_sound:
  "scanPrivateControlJSONValue n e toks = Inr rest \<Longrightarrow> \<exists>v. no_duplicates v \<and> toks = tokensOf v @ rest"
  "scanMembers n e seen toks = Inr rest \<Longrightarrow>
     \<exists>ms. no_duplicates (JObject ms) \<and> fst ` set ms \<inter> seen = {} \<and> toks = memberTokens ms @ Delim (CHR ''}'') # rest"
  "scanElements n e toks = Inr rest \<Longrightarrow>
     \<exists>vs. no_duplicates (JArray vs) \<and> toks = concat (map tokensOf vs) @ Delim (CHR '']'') # rest"
proof (induction n e toks and n e seen toks and n e toks arbitrary: rest and rest and rest
    rule: scanPrivateControlJSONValue_scanMembers_scanElements.induct)
  case (2 n e toks)
  from 2(3) obtain t ts where toks: "toks = t # ts" by (cases toks) auto
  show ?case
  proof (cases t)
    case (Delim d)
    consider "d = CHR ''{''" | "d = CHR ''[''" using 2(3) by (auto simp: toks Delim split: if_splits)
    then show ?thesis
    proof cases
      case 1
      with 2(3) have "scanMembers n e {} ts = Inr rest" by (simp add: toks Delim)
      from 2(1) [OF toks Delim 1 this] obtain ms
        where "no_duplicates (JObject ms)" "ts = memberTokens ms @ Delim (CHR ''}'') # rest" by blast
      then show ?thesis by (intro exI [of _ "JObject ms"]) (simp add: toks Delim 1)
    next
      case d: 2
      then have "d \<noteq> CHR ''{''" by simp
      with 2(3) d have "scanElements n e ts = Inr rest" by (simp add: toks Delim)
      from 2(2) [OF toks Delim \<open>d \<noteq> CHR ''{''\<close> d this] obtain vs
        where "no_duplicates (JArray vs)" "ts = concat (map tokensOf vs) @ Delim (CHR '']'') # rest" by blast
      then show ?thesis by (intro exI [of _ "JArray vs"]) (simp add: toks Delim d)
    qed
  next
    case (Str s)
    with 2(3) show ?thesis by (intro exI [of _ "JString s"]) (simp add: toks)
  next
    case Scalar
    with 2(3) show ?thesis by (intro exI [of _ JScalar]) (simp add: toks)
  qed
next
  case (4 n e seen toks)
  show ?case
  proof (cases "More toks e")
    case False
    with 4(3) have "toks = Delim (CHR ''}'') # rest" by (auto split: list.splits if_splits)
    then show ?thesis by (intro exI [of _ "[]"]) simp
  next
    case True
    with 4(3) obtain key ts r where t: "toks = Str key # ts" "key \<notin> seen"
        "scanPrivateControlJSONValue n e ts = Inr r" "scanMembers n e (insert key seen) r = Inr rest"
      by (auto split: list.splits jsonToken.splits if_splits sum.splits)
    from 4(1) [OF True t(1) refl t(2,3)] obtain v where v: "no_duplicates v" "ts = tokensOf v @ r" by blast
    from 4(2) [OF True t(1) refl t(2,3,4)] obtain ms where ms: "no_duplicates (JObject ms)"
        "fst ` set ms \<inter> insert key seen = {}" "r = memberTokens ms @ Delim (CHR ''}'') # rest" by blast
    have "key \<notin> fst ` set ms" using ms(2) by blast
    then show ?thesis using v ms t(1,2) by (intro exI [of _ "(key, v) # ms"]) auto
  qed
next
  case (6 n e toks)
  show ?case
  proof (cases "More toks e")
    case False
    with 6(3) have "toks = Delim (CHR '']'') # rest" by (auto split: list.splits if_splits)
    then show ?thesis by (intro exI [of _ "[]"]) simp
  next
    case True
    with 6(3) obtain r where t: "scanPrivateControlJSONValue n e toks = Inr r" "scanElements n e r = Inr rest"
      by (auto split: sum.splits)
    from 6(1) [OF True t(1)] obtain v where v: "no_duplicates v" "toks = tokensOf v @ r" by blast
    from 6(2) [OF True t] obtain vs where vs: "no_duplicates (JArray vs)"
        "r = concat (map tokensOf vs) @ Delim (CHR '']'') # rest" by blast
    then show ?thesis using v by (intro exI [of _ "v # vs"]) auto
  qed
qed simp_all

text \<open>
  C13. The scanner of incoming frames accepts exactly the token sequences of one JSON value, complete
  and with nothing after it, in which no object at any depth names a member twice; its fuel is enough
  for every input.
\<close>

theorem json_scanner_exact:
  "validatePrivateControlJSON utf8 toks e = None \<longleftrightarrow>
     utf8 \<and> e = EndOfInput \<and> (\<exists>v. no_duplicates v \<and> toks = tokensOf v)"
proof
  assume r: "validatePrivateControlJSON utf8 toks e = None"
  then have s: "utf8" "e = EndOfInput" "scanPrivateControlJSONValue (2 * length toks + 1) e toks = Inr []"
    by (auto simp: validatePrivateControlJSON_def split: if_splits sum.splits list.splits jsonEnd.splits)
  from scan_sound(1) [OF s(3)] s(1,2) show "utf8 \<and> e = EndOfInput \<and> (\<exists>v. no_duplicates v \<and> toks = tokensOf v)" by auto
next
  assume "utf8 \<and> e = EndOfInput \<and> (\<exists>v. no_duplicates v \<and> toks = tokensOf v)"
  then obtain v where v: "utf8" "e = EndOfInput" "no_duplicates v" "toks = tokensOf v" by blast
  from scan_complete [OF v(3), of "2 * length toks + 1" e "[]"] v
  show "validatePrivateControlJSON utf8 toks e = None" by (simp add: validatePrivateControlJSON_def)
qed

subsection \<open>Writing\<close>

text \<open>A writer that counts its calls.\<close>

definition counting :: "'w writer \<Rightarrow> ('w \<times> nat) writer" where
  "counting writer = (\<lambda>(w, calls) payload. case writer w payload of (r, w') \<Rightarrow> (r, (w', Suc calls)))"

text \<open>
  C39. The loop over short writes ends for every writer, after at most one call for each byte. What the
  writer took is a prefix of the payload, and it is the whole payload when the loop reports success.
\<close>

theorem write_loop_ends:
  "snd (snd (snd (writePrivateControlBytes (counting writer) (w, calls) payload))) \<le> calls + length payload \<and>
   (\<exists>rest. payload = fst (snd (writePrivateControlBytes (counting writer) (w, calls) payload)) @ rest \<and>
      (fst (writePrivateControlBytes (counting writer) (w, calls) payload) = Written \<longrightarrow> rest = []))"
proof (induction "length payload" arbitrary: payload w calls rule: less_induct)
  case less
  obtain n err w1 where c: "writer w payload = ((n, err), w1)" by (metis surj_pair)
  have step: "counting writer (w, calls) payload = ((n, err), (w1, Suc calls))" by (simp add: counting_def c)
  show ?case
  proof (cases "payload = [] \<or> err \<or> n \<le> 0 \<or> int (length payload) < n")
    case True
    then show ?thesis
      by (subst (1 2 3) writePrivateControlBytes.simps)
        (auto simp: step Suc_le_eq intro: exI [of _ "drop (nat n) payload"])
  next
    case False
    let ?p = "drop (nat n) payload"
    have lt: "length ?p < length payload" using False by auto
    obtain r sent w2 k where i: "writePrivateControlBytes (counting writer) (w1, Suc calls) ?p = (r, sent, (w2, k))"
      by (metis surj_pair)
    have "k \<le> Suc calls + length ?p \<and> (\<exists>rest. ?p = sent @ rest \<and> (r = Written \<longrightarrow> rest = []))"
      using less [OF lt, of w1 "Suc calls"] unfolding i fst_conv snd_conv .
    then obtain rest where
      IH: "k \<le> Suc calls + length ?p" "?p = sent @ rest" "r = Written \<longrightarrow> rest = []" by blast
    have w: "writePrivateControlBytes (counting writer) (w, calls) payload = (r, take (nat n) payload @ sent, (w2, k))"
      using False by (subst writePrivateControlBytes.simps) (simp add: step i)
    have "payload = (take (nat n) payload @ sent) @ rest" using IH(2) append_take_drop_id [of "nat n" payload] by simp
    moreover have "k \<le> calls + length payload" using IH(1) lt by simp
    ultimately show ?thesis using IH(3) by (auto simp: w)
  qed
qed

text \<open>A writer that takes two bytes at a time.\<close>

definition demoWriter :: "unit writer" where
  "demoWriter = (\<lambda>w payload. ((int (min 2 (length payload)), False), w))"

theorem write_loop_ends_witness:
  "writePrivateControlBytes (counting demoWriter) ((), 0) [1, 2, 3] = (Written, [1, 2, 3], ((), 2)) \<and>
   snd (snd (snd (writePrivateControlBytes (counting demoWriter) ((), 0) [1, 2, 3]))) \<le> 3"
proof
  show "writePrivateControlBytes (counting demoWriter) ((), 0) [1, 2, 3] = (Written, [1, 2, 3], ((), 2))"
    by (simp add: writePrivateControlBytes.simps counting_def demoWriter_def)
  show "snd (snd (snd (writePrivateControlBytes (counting demoWriter) ((), 0) [1, 2, 3]))) \<le> 3"
    using write_loop_ends [of demoWriter "()" 0 "[1, 2, 3]"] by simp
qed

text \<open>The contract of \<^verbatim>\<open>io.Writer\<close> on a connection that does not fail: some progress on every call.\<close>

definition progressing :: "'w writer \<Rightarrow> bool" where
  "progressing writer \<longleftrightarrow>
     (\<forall>w payload. payload \<noteq> [] \<longrightarrow>
        (\<exists>n w'. writer w payload = ((n, False), w') \<and> 0 < n \<and> n \<le> int (length payload)))"

lemma write_all:
  assumes "progressing writer"
  shows "\<exists>w'. writePrivateControlBytes writer w payload = (Written, payload, w')"
proof (induction "length payload" arbitrary: payload w rule: less_induct)
  case less
  show ?case
  proof (cases "payload = []")
    case True
    then show ?thesis by (simp add: writePrivateControlBytes.simps)
  next
    case False
    with assms obtain n w1 where c: "writer w payload = ((n, False), w1)" "0 < n" "n \<le> int (length payload)"
      unfolding progressing_def by blast
    have "length (drop (nat n) payload) < length payload" using c(2) False by simp
    from less [OF this, of w1] obtain w2 where
      "writePrivateControlBytes writer w1 (drop (nat n) payload) = (Written, drop (nat n) payload, w2)" by blast
    with c False show ?thesis by (subst writePrivateControlBytes.simps) simp
  qed
qed

text \<open>
  A frame that is written to a working connection is read back: whatever the sizes of the single
  writes, the reader on the other side finds the same payload and leaves what follows it, provided the
  payload is a JSON value the scanner accepts. A payload below 2 or above 65536 bytes is not sent.
\<close>

theorem frame_roundtrip:
  assumes w: "progressing writer" and json: "validPayload tokenize payload = None"
  shows "if 2 \<le> length payload \<and> length payload \<le> 65536
    then \<exists>sent w'. writePrivateControlFrame writer (Some payload) w = (Written, sent, w') \<and>
           readPrivateControlFrame tokenize (sent @ rest) = Inr (payload, rest)
    else writePrivateControlFrame writer (Some payload) w = (InvalidSize, [], w)"
proof (cases "2 \<le> length payload \<and> length payload \<le> 65536")
  case True
  let ?p = "PutUint32 (of_nat (length payload))"
  obtain w1 where h: "writePrivateControlBytes writer w ?p = (Written, ?p, w1)" using write_all [OF w] by blast
  obtain w2 where b: "writePrivateControlBytes writer w1 payload = (Written, payload, w2)" using write_all [OF w] by blast
  have len: "unat (of_nat (length payload) :: u32) = length payload"
    using True by (simp add: unat_of_nat)
  have "writePrivateControlFrame writer (Some payload) w = (Written, ?p @ payload, w2)"
    using True by (simp add: writePrivateControlFrame_def h b)
  moreover have "readPrivateControlFrame tokenize ((?p @ payload) @ rest) = Inr (payload, rest)"
    using True json len by (simp add: readPrivateControlFrame_def ReadFull_def)
  ultimately show ?thesis using True by auto
next
  case False
  then show ?thesis by (auto simp: writePrivateControlFrame_def)
qed

text \<open>The lexer on the frame \<^verbatim>\<open>[1]\<close>.\<close>

definition demoTokenize :: lexer where
  "demoTokenize payload =
     (True, if payload = bytes_of ''[1]'' then [Delim (CHR ''[''), Scalar, Delim (CHR '']'')] else [], EndOfInput)"

theorem frame_roundtrip_witness:
  "\<exists>sent w'. writePrivateControlFrame demoWriter (Some (bytes_of ''[1]'')) () = (Written, sent, w') \<and>
     readPrivateControlFrame demoTokenize (sent @ [9]) = Inr (bytes_of ''[1]'', [9])"
proof -
  have w: "progressing demoWriter" by (simp add: progressing_def demoWriter_def Suc_le_eq)
  have v: "validPayload demoTokenize (bytes_of ''[1]'') = None"
    by (simp add: validPayload_def demoTokenize_def validatePrivateControlJSON_def More_def eval_nat_numeral)
  show ?thesis using frame_roundtrip [OF w v, of "()" "[9]"] by (simp add: bytes_of_def)
qed

end
