(* ===== verification/Go_Text.thy ===== *)
theory Go_Text
  imports Primitives
begin

text \<open>
  What the loaders of configuration files take from the standard library: trimming and case folding, UTF-8, decimal
  numbers, Base64 with padding and the reader of encoding/csv. They are written out, since what a loader
  accepts depends on them. A table that is written with every field in quotation marks reads back as it was.
\<close>

subsection \<open>Texts\<close>

text \<open>\<^verbatim>\<open>strings.TrimSpace\<close>, over the encodings of the white spaces of Unicode.\<close>

fun trimWith :: "bytes list \<Rightarrow> bytes \<Rightarrow> bytes" where
  "trimWith wide [] = []"
| "trimWith wide (b # bs) =
     (if b \<in> {9, 10, 11, 12, 13, 32} then trimWith wide bs
      else if take 2 (b # bs) \<in> set wide then trimWith wide (drop 1 bs)
      else if take 3 (b # bs) \<in> set wide then trimWith wide (drop 2 bs)
      else b # bs)"

definition TrimSpace :: "string \<Rightarrow> string" where
  "TrimSpace s = string_of (rev (trimWith (map rev wideSpaces) (rev (trimWith wideSpaces (bytes_of s)))))"

text \<open>
  Equality with a lower-case ASCII text up to case. \<^verbatim>\<open>strings.EqualFold\<close> also folds the Kelvin sign and the
  long s, \<^verbatim>\<open>strings.ToLower\<close> maps the Kelvin sign and the dotted capital I to ASCII letters.
\<close>

definition lowerASCII :: "u8 \<Rightarrow> u8" where
  "lowerASCII b = (if 0x41 \<le> b \<and> b \<le> 0x5A then b + 32 else b)"

fun foldsTo :: "(u8 \<times> bytes) list \<Rightarrow> bytes \<Rightarrow> bytes \<Rightarrow> bool" where
  "foldsTo extra s [] = (s = [])"
| "foldsTo extra s (c # cs) =
     (case s of
        [] \<Rightarrow> False
      | b # bs \<Rightarrow>
          if lowerASCII b = c then foldsTo extra bs cs
          else (case map_of extra c of
              None \<Rightarrow> False
            | Some w \<Rightarrow> take (length w) s = w \<and> foldsTo extra (drop (length w) s) cs))"

definition EqualFold :: "string \<Rightarrow> string \<Rightarrow> bool" where
  "EqualFold s lower = foldsTo [(0x6B, [0xE2, 0x84, 0xAA]), (0x73, [0xC5, 0xBF])] (bytes_of s) (bytes_of lower)"

definition ToLowerIs :: "string \<Rightarrow> string \<Rightarrow> bool" where
  "ToLowerIs s lower = foldsTo [(0x6B, [0xE2, 0x84, 0xAA]), (0x69, [0xC4, 0xB0])] (bytes_of s) (bytes_of lower)"

text \<open>The number of code points of valid UTF-8.\<close>

fun utf8Count :: "bytes \<Rightarrow> nat option" where
  "utf8Count [] = Some 0"
| "utf8Count (b # bs) =
     (let cont = (\<lambda>lo hi n. n < length bs \<and> lo \<le> bs ! n \<and> bs ! n \<le> hi); any = cont 0x80 0xBF;
          next = (\<lambda>n. map_option Suc (utf8Count (drop n bs)))
      in if b < 0x80 then next 0
         else if 0xC2 \<le> b \<and> b \<le> 0xDF then (if any 0 then next 1 else None)
         else if b = 0xE0 then (if cont 0xA0 0xBF 0 \<and> any 1 then next 2 else None)
         else if b = 0xED then (if cont 0x80 0x9F 0 \<and> any 1 then next 2 else None)
         else if 0xE1 \<le> b \<and> b \<le> 0xEF then (if any 0 \<and> any 1 then next 2 else None)
         else if b = 0xF0 then (if cont 0x90 0xBF 0 \<and> any 1 \<and> any 2 then next 3 else None)
         else if 0xF1 \<le> b \<and> b \<le> 0xF3 then (if any 0 \<and> any 1 \<and> any 2 then next 3 else None)
         else if b = 0xF4 then (if cont 0x80 0x8F 0 \<and> any 1 \<and> any 2 then next 3 else None)
         else None)"

definition isDigit :: "char \<Rightarrow> bool" where
  "isDigit c \<longleftrightarrow> c \<in> set ''0123456789''"

definition digitsValue :: "string \<Rightarrow> nat" where
  "digitsValue s = foldl (\<lambda>n c. 10 * n + (of_char c - 48)) 0 s"

text \<open>\<^verbatim>\<open>strconv.ParseUint(s, 10, bits)\<close>: decimal digits only, no sign and no underscore, at least one of them.\<close>

definition ParseUint :: "nat \<Rightarrow> string \<Rightarrow> nat option" where
  "ParseUint bits s = (if s = [] \<or> \<not> list_all isDigit s \<or> 2 ^ bits \<le> digitsValue s then None else Some (digitsValue s))"

text \<open>Decimal text, as \<^verbatim>\<open>strconv\<close> and \<^verbatim>\<open>json.Marshal\<close> write it.\<close>

fun decimal :: "nat \<Rightarrow> string" where
  "decimal n = (if n < 10 then [char_of (48 + n)] else decimal (n div 10) @ [char_of (48 + n mod 10)])"

declare decimal.simps [simp del]

lemma isDigit_char: "n < 10 \<Longrightarrow> isDigit (char_of (48 + n))" for n :: nat
proof -
  have "\<forall>k\<in>set [0..<10]. isDigit (char_of (48 + k :: nat))" by code_simp
  then show "n < 10 \<Longrightarrow> isDigit (char_of (48 + n))" by simp
qed

lemma decimal_facts:
  "list_all isDigit (decimal n)" "digitsValue (decimal n) = n" "decimal n \<noteq> []"
proof (induction n rule: decimal.induct)
  case (1 n)
  {
    case 1
    show ?case using "1.IH"(1) isDigit_char [of n] isDigit_char [of "n mod 10"] by (subst decimal.simps) simp
  next
    case 2
    show ?case using "1.IH"(2) by (subst decimal.simps) (simp add: digitsValue_def)
  next
    case 3
    show ?case by (subst decimal.simps) simp
  }
qed

lemma ParseUint_decimal: "n < 2 ^ bits \<Longrightarrow> ParseUint bits (decimal n) = Some n"
  using decimal_facts [of n] by (simp add: ParseUint_def)

subsection \<open>Base64\<close>

text \<open>
  \<^verbatim>\<open>base64.StdEncoding\<close>: the alphabet ends in plus and slash, the text without line breaks is a multiple of four, and the last group
  may end in one or two padding characters.
\<close>

definition urlChar :: "char \<Rightarrow> char" where
  "urlChar c = (if c = CHR ''+'' then CHR ''-'' else if c = CHR ''/'' then CHR ''_'' else c)"

definition stripPadding :: "string \<Rightarrow> string" where
  "stripPadding s =
     (if drop (length s - 2) s = ''=='' then take (length s - 2) s
      else if drop (length s - 1) s = ''='' then take (length s - 1) s else s)"

definition stdBase64Decode :: "string \<Rightarrow> bytes option" where
  "stdBase64Decode s =
     (let plain = filter (\<lambda>c. c \<noteq> CHR 0x0D \<and> c \<noteq> CHR 0x0A) s; body = stripPadding plain in
      if length plain mod 4 \<noteq> 0 \<or> CHR ''='' \<in> set body \<or> CHR ''-'' \<in> set body \<or> CHR ''_'' \<in> set body then None
      else b64Decode (map urlChar body))"

definition stdChar :: "char \<Rightarrow> char" where
  "stdChar c = (if c = CHR ''-'' then CHR ''+'' else if c = CHR ''_'' then CHR ''/'' else c)"

definition stdBase64Encode :: "bytes \<Rightarrow> string" where
  "stdBase64Encode bs = (let s = map stdChar (b64Encode bs) in s @ replicate ((4 - length s mod 4) mod 4) (CHR ''=''))"

definition printable :: "char \<Rightarrow> bool" where
  "printable c \<longleftrightarrow> (32 :: u8) < of_char c \<and> (of_char c :: u8) < 0x80"

lemma b64_chars:
  "\<forall>c\<in>set b64Alphabet. urlChar (stdChar c) = c \<and> stdChar c \<notin> {CHR ''='', CHR ''-'', CHR ''_'', CHR 0x0D, CHR 0x0A} \<and>
     printable (stdChar c) \<and> printable c"
  by code_simp

lemma b64_text: "c \<in> set (b64Encode bs) \<Longrightarrow> c \<in> set b64Alphabet"
  using set_b64Encode by blast

lemma stdBase64_roundtrip: "stdBase64Decode (stdBase64Encode bs) = Some bs"
proof -
  define s where "s = map stdChar (b64Encode bs)"
  define k where "k = (4 - length s mod 4) mod 4"
  have s: "\<forall>c\<in>set s. c \<notin> {CHR ''='', CHR ''-'', CHR ''_'', CHR 0x0D, CHR 0x0A}"
    using b64_chars b64_text [of _ bs] by (auto simp: s_def)
  have url: "map urlChar s = b64Encode bs"
    unfolding s_def map_map comp_def using b64_chars b64_text [of _ bs] by (intro map_idI) auto
  have len: "length s mod 4 \<noteq> 1" by (simp add: s_def length_b64Encode) presburger
  then have "length s mod 4 = 0 \<or> length s mod 4 = 2 \<or> length s mod 4 = 3"
    using mod_less_divisor [of 4 "length s"] by linarith
  then have k: "k = 0 \<or> k = 1 \<or> k = 2" "(length s + k) mod 4 = 0"
    by (auto simp: k_def mod_add_left_eq [of "length s" 4, symmetric] simp del: mod_add_left_eq)
  have plain: "filter (\<lambda>c. c \<noteq> CHR 0x0D \<and> c \<noteq> CHR 0x0A) (s @ replicate k (CHR ''='')) = s @ replicate k (CHR ''='')"
    using s by (auto simp: filter_id_conv)
  have inner: "drop n s \<noteq> CHR ''='' # xs" for n xs
  proof
    assume "drop n s = CHR ''='' # xs"
    then have "CHR ''='' \<in> set (drop n s)" by simp
    with s show False by (auto dest: in_set_dropD)
  qed
  have strip: "stripPadding (s @ replicate k (CHR ''='')) = s"
    using k(1)
  proof (elim disjE)
    assume "k = 0"
    then show ?thesis using inner by (simp add: stripPadding_def)
  next
    assume k1: "k = 1"
    with k(2) have "s \<noteq> []" by auto
    then have "length (drop (length s - 1) s) = 1" by (cases s) simp_all
    then obtain c where c: "drop (length s - 1) s = [c]" by (auto simp only: length_Suc_conv One_nat_def length_0_conv)
    then have "c \<noteq> CHR ''=''" using inner [of "length s - 1" "[]"] by blast
    then show ?thesis using k1 c by (simp add: stripPadding_def)
  next
    assume "k = 2"
    then show ?thesis by (simp add: stripPadding_def numeral_2_eq_2)
  qed
  have "CHR ''='' \<notin> set s" "CHR ''-'' \<notin> set s" "CHR ''_'' \<notin> set s" using s by auto
  then show ?thesis
    using k(2) unfolding stdBase64Decode_def stdBase64Encode_def Let_def s_def [symmetric] k_def [symmetric] plain strip
    by (simp add: url b64Decode_Encode)
qed

text \<open>Printable ASCII has nothing to trim.\<close>

lemma trimWith_plain:
  assumes "\<forall>w\<in>set wide. w \<noteq> [] \<and> 0x80 \<le> List.hd w" "\<forall>b\<in>set bs. 32 < b \<and> b < 0x80"
  shows "trimWith wide bs = bs"
proof (cases bs)
  case (Cons b rest)
  have "take n bs \<notin> set wide" for n
  proof
    assume "take n bs \<in> set wide"
    with assms(1) have "take n bs \<noteq> []" "0x80 \<le> List.hd (take n bs)" by auto
    with assms(2) Cons show False by (cases n) auto
  qed
  from this [of 2] this [of 3] assms(2) Cons show ?thesis by auto
qed simp

lemma wide_spaces_wide:
  "\<forall>w\<in>set wideSpaces. w \<noteq> [] \<and> 0x80 \<le> List.hd w" "\<forall>w\<in>set (map rev wideSpaces). w \<noteq> [] \<and> 0x80 \<le> List.hd w"
  by code_simp+

lemma TrimSpace_plain: "\<forall>c\<in>set s. printable c \<Longrightarrow> TrimSpace s = s"
proof -
  assume "\<forall>c\<in>set s. printable c"
  then have "\<forall>b\<in>set (bytes_of s). 32 < b \<and> b < 0x80" by (auto simp: bytes_of_def printable_def)
  then show ?thesis
    by (simp add: TrimSpace_def trimWith_plain wide_spaces_wide string_of_bytes_of del: set_map)
qed

lemma padding_printable: "printable (CHR ''='')"
  by code_simp

subsection \<open>Comma-separated values\<close>

text \<open>
  The lines of a file as \<^verbatim>\<open>readLine\<close> yields them: each with its newline, a carriage return before it removed; a last line
  without a newline loses a carriage return at its end.
\<close>

definition dropReturn :: "string \<Rightarrow> string" where
  "dropReturn s = (if s \<noteq> [] \<and> last s = CHR 0x0D then butlast s else s)"

fun csvLines :: "string \<Rightarrow> string \<Rightarrow> string list" where
  "csvLines line [] = (if line = [] then [] else [dropReturn line])"
| "csvLines line (c # cs) =
     (if c = CHR 0x0A then (dropReturn line @ [CHR 0x0A]) # csvLines [] cs else csvLines (line @ [c]) cs)"

lemma length_rest: "dropWhile P xs \<noteq> [] \<Longrightarrow> length (drop 1 (dropWhile P xs)) < length xs"
  using length_dropWhile_le [of P xs] by (cases "dropWhile P xs") auto

text \<open>
  The fields of the record that starts with a line, and the lines after it: \<^verbatim>\<open>readRecord\<close> with neither comments, lazy quotes nor
  trimming. A quotation mark inside a field without quotes and a quoted field that does not end are errors.
\<close>

function (sequential) csvFields :: "string \<Rightarrow> string list \<Rightarrow> (string list \<times> string list) option"
  and csvQuoted :: "string \<Rightarrow> string \<Rightarrow> string list \<Rightarrow> (string list \<times> string list) option" where
  "csvFields line ls =
     (if take 1 line = [CHR 0x22] then csvQuoted [] (drop 1 line) ls
      else let field = takeWhile (\<lambda>c. c \<noteq> CHR 0x2C) line; rest = dropWhile (\<lambda>c. c \<noteq> CHR 0x2C) line in
      if rest = []
      then (let f = (if field \<noteq> [] \<and> last field = CHR 0x0A then butlast field else field)
            in if CHR 0x22 \<in> set f then None else Some ([f], ls))
      else if CHR 0x22 \<in> set field then None
      else map_option (\<lambda>(fs, ls'). (field # fs, ls')) (csvFields (drop 1 rest) ls))"
| "csvQuoted buf [] [] = None"
| "csvQuoted buf [] (l # ls) = csvQuoted buf l ls"
| "csvQuoted buf (c # cs) ls =
     (if c \<noteq> CHR 0x22 then csvQuoted (buf @ [c]) cs ls
      else if take 1 cs = [CHR 0x22] then csvQuoted (buf @ [CHR 0x22]) (drop 1 cs) ls
      else if take 1 cs = [CHR 0x2C] then map_option (\<lambda>(fs, ls'). (buf # fs, ls')) (csvFields (drop 1 cs) ls)
      else if cs = [] \<or> cs = [CHR 0x0A] then Some ([buf], ls) else None)"
  by pat_completeness auto

termination
proof (relation "measure (\<lambda>x. case x of Inl (line, ls) \<Rightarrow> Suc (2 * (length line + sum_list (map length ls) + length ls))
      | Inr (buf, line, ls) \<Rightarrow> 2 * (length line + sum_list (map length ls) + length ls))", goal_cases)
  case (3 line ls field rest)
  then show ?case using length_rest [of "\<lambda>c. c \<noteq> CHR 0x2C" line] by simp
qed auto

declare csvFields.simps [simp del]

lemma csv_lines_le:
  "csvFields line ls = Some (fs, ls') \<Longrightarrow> length ls' \<le> length ls"
  "csvQuoted buf line ls = Some (fs, ls') \<Longrightarrow> length ls' \<le> length ls"
proof (induction line ls and buf line ls arbitrary: fs ls' and fs ls' rule: csvFields_csvQuoted.induct)
  case (1 line ls)
  from 1(3) [unfolded csvFields.simps [of line ls]] show ?case
    using 1(1,2) by (fastforce simp: Let_def split: if_splits)
next
  case (3 buf l ls)
  then show ?case by fastforce
next
  case (4 buf c cs ls)
  then show ?case by (fastforce split: if_splits)
qed simp

text \<open>\<^verbatim>\<open>ReadAll\<close>: empty lines between records are skipped.\<close>

function csvRecords :: "string list \<Rightarrow> string list list option" where
  "csvRecords [] = Some []"
| "csvRecords (l # ls) =
     (if l = [] \<or> l = [CHR 0x0A] then csvRecords ls
      else case csvFields l ls of
        None \<Rightarrow> None
      | Some (fs, ls') \<Rightarrow> map_option (\<lambda>rs. fs # rs) (csvRecords ls'))"
  by pat_completeness auto

termination
  by (relation "measure length") (auto dest: csv_lines_le)

text \<open>Unless \<^verbatim>\<open>FieldsPerRecord\<close> is negative, all records have as many fields as the first.\<close>

definition csvReadAll :: "bool \<Rightarrow> string \<Rightarrow> string list list option" where
  "csvReadAll uniform content =
     (case csvRecords (csvLines [] content) of
        None \<Rightarrow> None
      | Some rs \<Rightarrow> if uniform \<and> \<not> list_all (\<lambda>r. length r = length (List.hd rs)) rs then None else Some rs)"

subsection \<open>Tables read back\<close>

definition csvEscape :: "string \<Rightarrow> string" where
  "csvEscape f = concat (map (\<lambda>c. if c = CHR 0x22 then [c, c] else [c]) f)"

fun csvRow :: "string list \<Rightarrow> string" where
  "csvRow [] = [CHR 0x0A]"
| "csvRow [f] = CHR 0x22 # csvEscape f @ [CHR 0x22, CHR 0x0A]"
| "csvRow (f # fs) = CHR 0x22 # csvEscape f @ [CHR 0x22, CHR 0x2C] @ csvRow fs"

definition csvText :: "string list list \<Rightarrow> string" where
  "csvText table = concat (map csvRow table)"

text \<open>The lines of a text without carriage returns, character by character.\<close>

fun textLines :: "string \<Rightarrow> string list" where
  "textLines [] = []"
| "textLines (c # cs) =
     (if c = CHR 0x0A then [c] # textLines cs
      else case textLines cs of [] \<Rightarrow> [[c]] | l # ls \<Rightarrow> (c # l) # ls)"

lemma textLines_Nil [simp]: "textLines t = [] \<longleftrightarrow> t = []"
  by (cases t) (auto split: list.split)

lemma dropReturn_none: "CHR 0x0D \<notin> set line \<Longrightarrow> dropReturn line = line"
  using last_in_set [of line] unfolding dropReturn_def by metis

lemma csvLines_text:
  "CHR 0x0D \<notin> set (line @ t) \<Longrightarrow> CHR 0x0A \<notin> set line \<Longrightarrow>
   csvLines line t = (if line = [] then textLines t else case textLines t of [] \<Rightarrow> [line] | l # ls \<Rightarrow> (line @ l) # ls)"
proof (induction t arbitrary: line)
  case Nil
  then show ?case by (simp add: dropReturn_none)
next
  case (Cons c t)
  have "dropReturn line = line" using Cons.prems(1) by (simp add: dropReturn_none)
  then show ?case using Cons.IH [of "[]"] Cons.IH [of "line @ [c]"] Cons.prems by (auto split: list.splits)
qed

definition lineAt :: "string \<Rightarrow> string" where "lineAt t = List.hd (textLines t)"
definition linesAfter :: "string \<Rightarrow> string list" where "linesAfter t = List.tl (textLines t)"

lemma at_Cons:
  "lineAt (CHR 0x0A # t) = [CHR 0x0A]" "linesAfter (CHR 0x0A # t) = textLines t"
  "c \<noteq> CHR 0x0A \<Longrightarrow> t \<noteq> [] \<Longrightarrow> lineAt (c # t) = c # lineAt t"
  "c \<noteq> CHR 0x0A \<Longrightarrow> t \<noteq> [] \<Longrightarrow> linesAfter (c # t) = linesAfter t"
  by (auto simp: lineAt_def linesAfter_def split: list.split)

lemma textLines_at: "t \<noteq> [] \<Longrightarrow> textLines t = lineAt t # linesAfter t"
  by (cases "textLines t") (auto simp: lineAt_def linesAfter_def)

lemma csvEscape_simps [simp]:
  "csvEscape [] = []" "csvEscape (c # f) = (if c = CHR 0x22 then c # c # csvEscape f else c # csvEscape f)"
  by (simp_all add: csvEscape_def)

lemma csvQuoted_run:
  assumes "rest \<noteq> []"
  shows "csvQuoted buf (lineAt (csvEscape f @ CHR 0x22 # rest)) (linesAfter (csvEscape f @ CHR 0x22 # rest)) =
     csvQuoted (buf @ f) (lineAt (CHR 0x22 # rest)) (linesAfter (CHR 0x22 # rest))"
proof (induction f arbitrary: buf)
  case (Cons c f)
  let ?t = "csvEscape f @ CHR 0x22 # rest"
  consider "c = CHR 0x22" | "c = CHR 0x0A" | "c \<noteq> CHR 0x22" "c \<noteq> CHR 0x0A" by blast
  then show ?case
  proof cases
    case 2
    then show ?thesis using Cons.IH [of "buf @ [c]"] textLines_at [of ?t] by (simp add: at_Cons)
  qed (use Cons.IH [of "buf @ [c]"] in \<open>simp_all add: at_Cons\<close>)
qed simp

lemma csvFields_row:
  "fs \<noteq> [] \<Longrightarrow> csvFields (lineAt (csvRow fs @ t)) (linesAfter (csvRow fs @ t)) = Some (fs, textLines t)"
proof (induction fs rule: csvRow.induct)
  case (2 f)
  then show ?case
    using csvQuoted_run [of "CHR 0x0A # t" "[]" f] by (simp add: at_Cons csvFields.simps)
next
  case (3 f g fs)
  have start: "csvRow (g # fs) \<noteq> []" by (cases fs) auto
  then show ?case
    using 3 csvQuoted_run [of "CHR 0x2C # csvRow (g # fs) @ t" "[]" f] by (simp add: at_Cons csvFields.simps [of "CHR 0x22 # _"])
qed simp

lemma csvRow_start: "fs \<noteq> [] \<Longrightarrow> \<exists>t. csvRow fs = CHR 0x22 # t"
  by (cases fs rule: csvRow.cases) auto

lemma csvRecords_text: "[] \<notin> set table \<Longrightarrow> csvRecords (textLines (csvText table)) = Some table"
proof (induction table)
  case (Cons fs table)
  let ?t = "csvText table"
  have whole: "csvText (fs # table) = csvRow fs @ ?t" by (simp add: csvText_def)
  obtain u where u: "csvRow fs = CHR 0x22 # u" using Cons.prems csvRow_start [of fs] by auto
  have "u \<noteq> []" using u Cons.prems by (cases fs rule: csvRow.cases) auto
  then have line: "lineAt (csvRow fs @ ?t) \<noteq> []" "lineAt (csvRow fs @ ?t) \<noteq> [CHR 0x0A]" by (simp_all add: u at_Cons)
  have "textLines (csvRow fs @ ?t) = lineAt (csvRow fs @ ?t) # linesAfter (csvRow fs @ ?t)" by (rule textLines_at) (simp add: u)
  moreover have "csvFields (lineAt (csvRow fs @ ?t)) (linesAfter (csvRow fs @ ?t)) = Some (fs, textLines ?t)"
    using csvFields_row [of fs ?t] Cons.prems by auto
  ultimately show ?case
    unfolding whole using line Cons by simp
qed (simp add: csvText_def)

lemma return_notin_row: "\<forall>f\<in>set fs. CHR 0x0D \<notin> set f \<Longrightarrow> CHR 0x0D \<notin> set (csvRow fs)"
  by (induction fs rule: csvRow.induct) (auto simp: csvEscape_def)

text \<open>
  A table whose rows have fields and whose fields hold no carriage return, written with all fields in quotation marks, is read back as it
  was, also when fields hold commas, quotation marks and newlines.
\<close>

lemma csvRecords_csvText:
  assumes "\<forall>row\<in>set table. row \<noteq> [] \<and> (\<forall>f\<in>set row. CHR 0x0D \<notin> set f)"
  shows "csvRecords (csvLines [] (csvText table)) = Some table"
proof -
  have "CHR 0x0D \<notin> set (csvText table)" using assms return_notin_row by (fastforce simp: csvText_def)
  then have "csvLines [] (csvText table) = textLines (csvText table)" by (simp add: csvLines_text)
  moreover have "[] \<notin> set table" using assms by auto
  ultimately show ?thesis by (simp add: csvRecords_text)
qed

lemma csvReadAll_csvText:
  assumes "\<forall>row\<in>set table. length row = n \<and> (\<forall>f\<in>set row. CHR 0x0D \<notin> set f)" "0 < n"
  shows "csvReadAll uniform (csvText table) = Some table"
proof -
  have "\<forall>row\<in>set table. row \<noteq> [] \<and> (\<forall>f\<in>set row. CHR 0x0D \<notin> set f)" using assms by auto
  moreover have "list_all (\<lambda>r. length r = length (List.hd table)) table"
    using assms(1) by (cases table) (auto simp: list_all_iff)
  ultimately show ?thesis by (simp add: csvReadAll_def csvRecords_csvText)
qed

lemma printable_no_return: "\<forall>c\<in>set s. printable c \<Longrightarrow> CHR 0x0D \<notin> set s"
proof -
  have "\<not> printable (CHR 0x0D)" by code_simp
  then show "\<forall>c\<in>set s. printable c \<Longrightarrow> CHR 0x0D \<notin> set s" by blast
qed

lemma texts_printable:
  "\<forall>c\<in>set (decimal n). printable c" "\<forall>c\<in>set (b64Encode bs). printable c" "\<forall>c\<in>set (stdBase64Encode bs). printable c"
proof -
  have "\<forall>c\<in>set ''0123456789''. printable c" by code_simp
  then show "\<forall>c\<in>set (decimal n). printable c" using decimal_facts(1) [of n] unfolding list_all_iff isDigit_def by blast
  show "\<forall>c\<in>set (b64Encode bs). printable c" using b64_chars b64_text [of _ bs] by auto
  show "\<forall>c\<in>set (stdBase64Encode bs). printable c"
    using b64_chars b64_text [of _ bs] padding_printable by (auto simp: stdBase64Encode_def Let_def)
qed

lemmas TrimSpace_text = texts_printable [THEN TrimSpace_plain]

lemmas texts_no_return = texts_printable [THEN printable_no_return]

end
