(* ===== verification/Private_Snapshot.thy ===== *)
theory Private_Snapshot
  imports Private_Control Go_Text
begin

text \<open>
  State snapshots of the private control link (private_control_snapshot.go): the entries read from the
  channel table, and their division into chunks that each fit a frame. The encoding by \<^verbatim>\<open>encoding/json\<close>
  is written out for the fields a snapshot has; its strings are identifiers and state names, which need
  no escape. Every chunk fits, no participant is lost, added or reordered, and a snapshot of the Relay's
  channels is refused only when it needs more than 64 chunks.
\<close>

subsection \<open>Encoding\<close>

definition quoted :: "string \<Rightarrow> string" where
  "quoted s = [CHR 0x22] @ s @ [CHR 0x22]"

definition field :: "string \<Rightarrow> string \<Rightarrow> string" where
  "field name encoded = quoted name @ '':'' @ encoded"

fun commaJoin :: "string list \<Rightarrow> string" where
  "commaJoin [] = []"
| "commaJoin [x] = x"
| "commaJoin (x # y # zs) = x @ '','' @ commaJoin (y # zs)"

definition jsonObject :: "string list \<Rightarrow> string" where
  "jsonObject members = ''{'' @ commaJoin members @ ''}''"

definition jsonArray :: "string list \<Rightarrow> string" where
  "jsonArray elements = ''['' @ commaJoin elements @ '']''"

definition marshalParticipant :: "privateControlSnapshotParticipant \<Rightarrow> string" where
  "marshalParticipant p =
     jsonObject [field ''sender_id'' (decimal (unat (sp_SenderID p))), field ''state'' (quoted (sp_State p))]"

definition marshalChannel :: "privateControlSnapshotChannel \<Rightarrow> string" where
  "marshalChannel c =
     jsonObject [field ''channel_id'' (decimal (unat (sc_ChannelID c))),
       field ''participants'' (jsonArray (map marshalParticipant (sc_Participants c)))]"

definition marshalSnapshot ::
  "string \<Rightarrow> string \<Rightarrow> string \<Rightarrow> u16 \<Rightarrow> u16 \<Rightarrow> privateControlSnapshotChannel list \<Rightarrow> string" where
  "marshalSnapshot messageID inReplyTo snapshotID chunkIndex chunkCount channels =
     jsonObject [field ''schema_version'' (quoted privateControlSchemaVersion),
       field ''type'' (quoted ''relay_state_snapshot''), field ''message_id'' (quoted messageID),
       field ''in_reply_to'' (quoted inReplyTo), field ''snapshot_id'' (quoted snapshotID),
       field ''chunk_index'' (decimal (unat chunkIndex)), field ''chunk_count'' (decimal (unat chunkCount)),
       field ''channels'' (jsonArray (map marshalChannel channels))]"

subsection \<open>Chunks\<close>

abbreviation (input) privateControlSnapshotMaxChunks :: nat where "privateControlSnapshotMaxChunks \<equiv> 64"
abbreviation (input) privateControlSnapshotMaxJSONBytes :: nat where
  "privateControlSnapshotMaxJSONBytes \<equiv> 64512"

definition privateControlSnapshotChannelsFit :: "privateControlSnapshotChannel list \<Rightarrow> bool" where
  "privateControlSnapshotChannelsFit channels \<longleftrightarrow>
     length (marshalSnapshot (replicate 22 (CHR ''A'')) (replicate 22 (CHR ''A'')) (replicate 22 (CHR ''A''))
       63 64 channels) \<le> privateControlSnapshotMaxJSONBytes"

text \<open>The chunks that are full and the one being filled.\<close>

type_synonym chunkState = "privateControlSnapshotChannel list list \<times> privateControlSnapshotChannel list"

definition appendChunk :: "privateControlSnapshotChannel \<Rightarrow> chunkState \<Rightarrow> chunkState option" where
  "appendChunk entry st =
     (case st of (chunks, current) \<Rightarrow>
        if privateControlSnapshotChannelsFit (current @ [entry]) then Some (chunks, current @ [entry])
        else if current = [] then None
        else if \<not> privateControlSnapshotChannelsFit [entry] then None
        else Some (chunks @ [current], [entry]))"

fun splitParticipants ::
  "u32 \<Rightarrow> privateControlSnapshotParticipant list \<Rightarrow> privateControlSnapshotParticipant list \<Rightarrow> chunkState \<Rightarrow>
   (privateControlSnapshotParticipant list \<times> chunkState) option" where
  "splitParticipants channelID [] batch st = Some (batch, st)"
| "splitParticipants channelID (participant # rest) batch st =
     (if privateControlSnapshotChannelsFit [\<lparr>sc_ChannelID = channelID, sc_Participants = batch @ [participant]\<rparr>]
      then splitParticipants channelID rest (batch @ [participant]) st
      else if batch = [] then None
      else case appendChunk \<lparr>sc_ChannelID = channelID, sc_Participants = batch\<rparr> st of
        None \<Rightarrow> None
      | Some st' \<Rightarrow> splitParticipants channelID rest [participant] st')"

fun chunkEntries :: "privateControlSnapshotChannel list \<Rightarrow> chunkState \<Rightarrow> chunkState option" where
  "chunkEntries [] st = Some st"
| "chunkEntries (entry # entries) st =
     (if sc_Participants entry = [] then
        (case appendChunk entry st of None \<Rightarrow> None | Some st' \<Rightarrow> chunkEntries entries st')
      else case splitParticipants (sc_ChannelID entry) (sc_Participants entry) [] st of
        None \<Rightarrow> None
      | Some (batch, st') \<Rightarrow>
          (case appendChunk \<lparr>sc_ChannelID = sc_ChannelID entry, sc_Participants = batch\<rparr> st' of
             None \<Rightarrow> None | Some st'' \<Rightarrow> chunkEntries entries st''))"

definition privateControlChunkSnapshotEntries ::
  "privateControlSnapshotChannel list \<Rightarrow> privateControlSnapshotChannel list list option" where
  "privateControlChunkSnapshotEntries entries =
     (case chunkEntries entries ([], []) of
        None \<Rightarrow> None
      | Some (chunks, current) \<Rightarrow>
          let chunks1 = (if current \<noteq> [] then chunks @ [current] else chunks);
              chunks2 = (if chunks1 = [] then [[]] else chunks1)
          in if privateControlSnapshotMaxChunks < length chunks2 then None else Some chunks2)"

definition snapshotEntry :: "u32 \<Rightarrow> channel \<Rightarrow> privateControlSnapshotChannel" where
  "snapshotEntry channelID ch =
     \<lparr>sc_ChannelID = channelID,
      sc_Participants = map (\<lambda>senderID. \<lparr>sp_SenderID = senderID,
          sp_State = (if map_of (ch_activeTalkers ch) senderID \<noteq> None then ''talking'' else ''idle'')\<rparr>)
        (sort (map (\<lambda>(_, p). p_senderId p) (ch_peers ch)))\<rparr>"

definition snapshotEntries :: "server \<Rightarrow> privateControlSnapshotChannel list" where
  "snapshotEntries s =
     concat (map (\<lambda>channelID. case chan s channelID of None \<Rightarrow> [] | Some ch \<Rightarrow> [snapshotEntry channelID ch])
       (sort (map fst (s_channels s))))"

definition privateControlSnapshotChunks :: "server \<Rightarrow> privateControlSnapshotChannel list list option" where
  "privateControlSnapshotChunks s = privateControlChunkSnapshotEntries (snapshotEntries s)"

subsection \<open>Sizes\<close>

lemma length_decimal: "n < 10 ^ Suc k \<Longrightarrow> length (decimal n) \<le> Suc k"
proof (induction k arbitrary: n)
  case 0
  then show ?case by (simp add: decimal.simps)
next
  case (Suc k)
  have "n div 10 < 10 ^ Suc k" using Suc.prems by (simp add: div_less_iff_less_mult)
  from Suc.IH [OF this] show ?case by (subst decimal.simps) auto
qed

lemma length_decimal_u32: "length (decimal (unat (w :: u32))) \<le> 10"
  using length_decimal [of "unat w" 9] unat_less_exp [of w] by simp

lemma length_decimal_small: "n \<le> 64 \<Longrightarrow> length (decimal n) \<le> 2"
  using length_decimal [of n 1] by simp

lemma decimal_64 [simp]: "length (decimal 63) = 2" "length (decimal 64) = 2"
  by (simp_all add: decimal.simps)

lemmas size_defs = marshalSnapshot_def marshalChannel_def marshalParticipant_def jsonObject_def jsonArray_def
  field_def quoted_def privateControlSchemaVersion_def

text \<open>What a snapshot takes beside its channels.\<close>

lemma length_snapshot:
  "length (marshalSnapshot m r i x n channels) =
     length m + length r + length i + length (decimal (unat x)) + length (decimal (unat n)) +
     length (commaJoin (map marshalChannel channels)) + length (marshalSnapshot [] [] [] 0 0 []) - 2"
  by (simp add: size_defs) (simp add: decimal.simps)

lemma header_size: "length (marshalSnapshot [] [] [] 0 0 []) \<le> 300"
  by (simp add: size_defs decimal.simps)

lemma fit_iff:
  "privateControlSnapshotChannelsFit channels \<longleftrightarrow>
     length (commaJoin (map marshalChannel channels)) + length (marshalSnapshot [] [] [] 0 0 []) + 68 \<le> 64512"
  by (simp add: privateControlSnapshotChannelsFit_def length_snapshot [where m = "replicate 22 _"])

lemma fit_Nil: "privateControlSnapshotChannelsFit []"
  using header_size by (simp add: fit_iff)

lemma length_participant: "length (sp_State p) \<le> 7 \<Longrightarrow> length (marshalParticipant p) \<le> 60"
  using length_decimal_u32 [of "sp_SenderID p"] by (simp add: size_defs)

text \<open>A channel with at most one participant always fits.\<close>

lemma fit_single:
  assumes "length (sc_Participants c) \<le> 1" "\<forall>p\<in>set (sc_Participants c). length (sp_State p) \<le> 7"
  shows "privateControlSnapshotChannelsFit [c]"
proof -
  have "length (commaJoin (map marshalParticipant (sc_Participants c))) \<le> 60"
    using assms length_participant by (cases "sc_Participants c") auto
  then have "length (marshalChannel c) \<le> 120"
    using length_decimal_u32 [of "sc_ChannelID c"] by (simp add: size_defs)
  with header_size show ?thesis by (simp add: fit_iff)
qed

text \<open>A chunk that fits with the probe's identifiers fits with real ones.\<close>

lemma fit_frame:
  assumes "privateControlSnapshotChannelsFit channels" "length m = 22" "length r = 22" "length i = 22"
    and "unat x \<le> 64" "unat n \<le> 64"
  shows "length (marshalSnapshot m r i x n channels) \<le> 64512"
  using assms length_decimal_small [of "unat x"] length_decimal_small [of "unat n"]
  unfolding fit_iff by (subst length_snapshot) simp

subsection \<open>Chunks hold the entries\<close>

text \<open>The rows of a snapshot: a channel and one of its participants, or a channel with none.\<close>

definition rows :: "privateControlSnapshotChannel \<Rightarrow> (u32 \<times> privateControlSnapshotParticipant option) list" where
  "rows c = (if sc_Participants c = [] then [(sc_ChannelID c, None)]
             else map (\<lambda>p. (sc_ChannelID c, Some p)) (sc_Participants c))"

abbreviation flat :: "privateControlSnapshotChannel list \<Rightarrow> (u32 \<times> privateControlSnapshotParticipant option) list" where
  "flat cs \<equiv> concat (map rows cs)"

definition held :: "chunkState \<Rightarrow> (u32 \<times> privateControlSnapshotParticipant option) list" where
  "held st = flat (concat (fst st) @ snd st)"

definition chunks_fit :: "chunkState \<Rightarrow> bool" where
  "chunks_fit st \<longleftrightarrow> (\<forall>c\<in>set (fst st). privateControlSnapshotChannelsFit c) \<and> privateControlSnapshotChannelsFit (snd st)"

lemma appendChunk_spec:
  assumes "appendChunk e st = Some st'"
  shows "held st' = held st @ rows e" "chunks_fit st \<Longrightarrow> chunks_fit st'"
  using assms by (auto simp: appendChunk_def held_def chunks_fit_def split: prod.splits if_splits)

lemma splitParticipants_spec:
  assumes "splitParticipants cid ps batch st = Some (batch', st')"
  shows "held st' @ map (\<lambda>p. (cid, Some p)) batch' = held st @ map (\<lambda>p. (cid, Some p)) (batch @ ps)"
    and "batch @ ps \<noteq> [] \<Longrightarrow> batch' \<noteq> []" "chunks_fit st \<Longrightarrow> chunks_fit st'"
  using assms
proof (induction cid ps batch st rule: splitParticipants.induct)
  case (2 cid p rest batch st)
  {
    case 1
    then show ?case using 2
      by (auto simp: rows_def appendChunk_spec(1) split: if_splits option.splits)
  next
    case 2
    then show ?case using "2.IH" by (auto split: if_splits option.splits)
  next
    case 3
    then show ?case using "2.IH" by (auto dest: appendChunk_spec(2) split: if_splits option.splits)
  }
qed auto

lemma chunkEntries_spec:
  assumes "chunkEntries entries st = Some st'"
  shows "held st' = held st @ flat entries" "chunks_fit st \<Longrightarrow> chunks_fit st'"
  using assms
proof (induction entries arbitrary: st)
  case (Cons e entries)
  {
    case 1
    show ?case
    proof (cases "sc_Participants e = []")
      case True
      with 1 Cons.IH(1) show ?thesis by (auto dest: appendChunk_spec(1) split: option.splits)
    next
      case False
      with 1 obtain batch st1 st2 where r:
        "splitParticipants (sc_ChannelID e) (sc_Participants e) [] st = Some (batch, st1)"
        "appendChunk \<lparr>sc_ChannelID = sc_ChannelID e, sc_Participants = batch\<rparr> st1 = Some st2"
        "chunkEntries entries st2 = Some st'"
        by (auto split: option.splits)
      have "batch \<noteq> []" using splitParticipants_spec(2) [OF r(1)] False by simp
      with splitParticipants_spec(1) [OF r(1)] appendChunk_spec(1) [OF r(2)] Cons.IH(1) [OF r(3)] False
      show ?thesis by (simp add: rows_def)
    qed
  next
    case 2
    then show ?case using Cons.IH(2)
      by (auto dest: appendChunk_spec(2) splitParticipants_spec(3) split: option.splits if_splits prod.splits)
  }
qed auto

text \<open>With states of at most seven letters, nothing is too large for a chunk of its own.\<close>

lemma appendChunk_Some:
  "privateControlSnapshotChannelsFit [e] \<Longrightarrow> appendChunk e st \<noteq> None"
  by (auto simp: appendChunk_def split: prod.split)

lemma splitParticipants_Some:
  assumes "\<forall>p\<in>set ps. length (sp_State p) \<le> 7"
    and "batch \<noteq> [] \<Longrightarrow> privateControlSnapshotChannelsFit [\<lparr>sc_ChannelID = cid, sc_Participants = batch\<rparr>]"
  shows "\<exists>batch' st'. splitParticipants cid ps batch st = Some (batch', st') \<and>
    (batch' \<noteq> [] \<longrightarrow> privateControlSnapshotChannelsFit [\<lparr>sc_ChannelID = cid, sc_Participants = batch'\<rparr>])"
  using assms
proof (induction ps arbitrary: batch st)
  case (Cons p ps)
  have one: "privateControlSnapshotChannelsFit [\<lparr>sc_ChannelID = cid, sc_Participants = [p]\<rparr>]"
    using Cons.prems by (intro fit_single) simp_all
  show ?case
  proof (cases "privateControlSnapshotChannelsFit [\<lparr>sc_ChannelID = cid, sc_Participants = batch @ [p]\<rparr>]")
    case True
    then show ?thesis using Cons.IH [of "batch @ [p]" st] Cons.prems by simp
  next
    case False
    with one have b: "batch \<noteq> []" by auto
    obtain st1 where "appendChunk \<lparr>sc_ChannelID = cid, sc_Participants = batch\<rparr> st = Some st1"
      using appendChunk_Some [OF Cons.prems(2) [OF b], of st] by blast
    with False b show ?thesis using Cons.IH [of "[p]" st1] Cons.prems one by simp
  qed
qed simp

lemma chunkEntries_Some:
  assumes "\<forall>e\<in>set entries. \<forall>p\<in>set (sc_Participants e). length (sp_State p) \<le> 7"
  shows "chunkEntries entries st \<noteq> None"
  using assms
proof (induction entries arbitrary: st)
  case (Cons e entries)
  show ?case
  proof (cases "sc_Participants e = []")
    case True
    then have "privateControlSnapshotChannelsFit [e]" by (intro fit_single) simp_all
    from appendChunk_Some [OF this, of st] obtain st1 where "appendChunk e st = Some st1" by blast
    with True Cons show ?thesis by simp
  next
    case False
    from splitParticipants_Some [of "sc_Participants e" "[]" "sc_ChannelID e" st] Cons.prems
    obtain batch st1 where r: "splitParticipants (sc_ChannelID e) (sc_Participants e) [] st = Some (batch, st1)"
      "batch \<noteq> [] \<longrightarrow> privateControlSnapshotChannelsFit [\<lparr>sc_ChannelID = sc_ChannelID e, sc_Participants = batch\<rparr>]"
      by auto
    have "batch \<noteq> []" using splitParticipants_spec(2) [OF r(1)] False by simp
    with r(2) appendChunk_Some obtain st2 where
      "appendChunk \<lparr>sc_ChannelID = sc_ChannelID e, sc_Participants = batch\<rparr> st1 = Some st2" by blast
    with False r(1) Cons show ?thesis by simp
  qed
qed simp

lemma rows_fst: "x \<in> set (rows c) \<Longrightarrow> fst x = sc_ChannelID c"
  by (auto simp: rows_def split: if_splits)

lemma sorted_flat: "sorted (map sc_ChannelID es) \<Longrightarrow> sorted (map fst (flat es))"
proof (induction es)
  case (Cons e es)
  have "sorted (map fst (rows e))" by (simp add: rows_def sorted_map sorted_wrt_iff_nth_less)
  with Cons show ?case by (fastforce simp: sorted_append dest: rows_fst)
qed simp

lemma entries_ids: "map sc_ChannelID (snapshotEntries s) = sort (map fst (s_channels s))"
proof -
  have "map sc_ChannelID (concat (map (\<lambda>c. case chan s c of None \<Rightarrow> [] | Some ch \<Rightarrow> [snapshotEntry c ch]) cs)) = cs"
    if "set cs \<subseteq> set (map fst (s_channels s))" for cs
    using that
  proof (induction cs)
    case (Cons c cs)
    then have "c \<in> fst ` set (s_channels s)" by simp
    then obtain ch where "chan s c = Some ch" unfolding chan_def by (metis domIff dom_map_of_conv_image_fst not_None_eq)
    with Cons show ?case by (simp add: snapshotEntry_def)
  qed simp
  then show ?thesis by (simp add: snapshotEntries_def)
qed

lemma entries_mem: "e \<in> set (snapshotEntries s) \<longleftrightarrow> (\<exists>c ch. chan s c = Some ch \<and> e = snapshotEntry c ch)"
proof -
  have "c \<in> fst ` set (s_channels s)" if "chan s c = Some ch" for c ch
    using that unfolding chan_def by (rule map_of_in_keys)
  then show ?thesis by (force simp: snapshotEntries_def split: option.splits)
qed

lemma entry_state: "p \<in> set (sc_Participants (snapshotEntry c ch)) \<Longrightarrow> length (sp_State p) \<le> 7"
  by (auto simp: snapshotEntry_def)

lemma entry_id [simp]: "sc_ChannelID (snapshotEntry c ch) = c"
  by (simp add: snapshotEntry_def)

lemma rows_mem: "(c, Some p) \<in> set (rows e) \<longleftrightarrow> c = sc_ChannelID e \<and> p \<in> set (sc_Participants e)"
  by (auto simp: rows_def)

lemma entry_participants:
  "q \<in> set (sc_Participants (snapshotEntry c ch)) \<longleftrightarrow>
     (\<exists>k p. (k, p) \<in> set (ch_peers ch) \<and> q = \<lparr>sp_SenderID = p_senderId p,
        sp_State = (if map_of (ch_activeTalkers ch) (p_senderId p) \<noteq> None then ''talking'' else ''idle'')\<rparr>)"
proof -
  have "set (sc_Participants (snapshotEntry c ch)) = (\<lambda>(k, p). \<lparr>sp_SenderID = p_senderId p,
      sp_State = (if map_of (ch_activeTalkers ch) (p_senderId p) \<noteq> None then ''talking'' else ''idle'')\<rparr>) `
      set (ch_peers ch)"
    by (simp add: snapshotEntry_def image_image split_beta)
  then show ?thesis by (simp only: image_iff Bex_def split_paired_Ex prod.case)
qed

lemma flat_entries_mem:
  "(c, Some p) \<in> set (flat (snapshotEntries s)) \<longleftrightarrow>
     (\<exists>ch. chan s c = Some ch \<and> p \<in> set (sc_Participants (snapshotEntry c ch)))"
proof -
  have "(c, Some p) \<in> set (flat es) \<longleftrightarrow> (\<exists>e\<in>set es. (c, Some p) \<in> set (rows e))" for es by auto
  note this [of "snapshotEntries s"]
  also have "(\<exists>e\<in>set (snapshotEntries s). (c, Some p) \<in> set (rows e)) \<longleftrightarrow>
      (\<exists>ch. chan s c = Some ch \<and> p \<in> set (sc_Participants (snapshotEntry c ch)))"
    unfolding rows_mem Bex_def entries_mem by (metis entry_id)
  finally show ?thesis .
qed

lemma chunks_of_entries:
  assumes "privateControlChunkSnapshotEntries entries = Some chunks"
  shows "flat (concat chunks) = flat entries" "\<forall>c\<in>set chunks. privateControlSnapshotChannelsFit c"
    "1 \<le> length chunks" "length chunks \<le> 64"
proof -
  obtain cs cur where r: "chunkEntries entries ([], []) = Some (cs, cur)"
    using assms by (auto simp: privateControlChunkSnapshotEntries_def split: option.splits)
  have h: "flat (concat cs @ cur) = flat entries" using chunkEntries_spec(1) [OF r] by (simp add: held_def)
  have f: "chunks_fit (cs, cur)" using chunkEntries_spec(2) [OF r] by (simp add: chunks_fit_def fit_Nil)
  have c: "chunks = (let c1 = (if cur \<noteq> [] then cs @ [cur] else cs) in if c1 = [] then [[]] else c1)"
      "length chunks \<le> 64"
    using assms r by (auto simp: privateControlChunkSnapshotEntries_def Let_def split: if_splits)
  show "flat (concat chunks) = flat entries" using h by (auto simp: c(1) Let_def)
  show "\<forall>c\<in>set chunks. privateControlSnapshotChannelsFit c" using f by (auto simp: c(1) Let_def chunks_fit_def fit_Nil)
  show "1 \<le> length chunks" by (auto simp: c(1) Let_def Suc_le_eq)
  show "length chunks \<le> 64" by (rule c(2))
qed

text \<open>
  C35. A snapshot of the Relay reports exactly its state: between 1 and 64 chunks, each within the
  size limit; together, in ascending order of channels, they list precisely the peers of the channels,
  each with the state it has. The snapshot is refused only when its chunks, each of which fits, would be
  more than 64.
\<close>

theorem snapshot_faithful:
  "case privateControlSnapshotChunks s of
     Some chunks \<Rightarrow>
       length chunks \<in> {1..64} \<and> list_all privateControlSnapshotChannelsFit chunks \<and>
       sorted (map fst (flat (concat chunks))) \<and>
       {x. x \<in> set (flat (concat chunks)) \<and> snd x \<noteq> None} =
         {(c, Some \<lparr>sp_SenderID = p_senderId p,
             sp_State = (if map_of (ch_activeTalkers ch) (p_senderId p) \<noteq> None then ''talking'' else ''idle'')\<rparr>) |
           c ch k p. chan s c = Some ch \<and> (k, p) \<in> set (ch_peers ch)}
   | None \<Rightarrow> \<exists>chunks current. chunkEntries (snapshotEntries s) ([], []) = Some (chunks, current) \<and>
       chunks_fit (chunks, current) \<and> 64 < length chunks + (if current = [] then 0 else 1)"
proof (cases "privateControlSnapshotChunks s")
  case (Some chunks)
  note c = chunks_of_entries [OF Some [unfolded privateControlSnapshotChunks_def]]
  have "sorted (map fst (flat (concat chunks)))"
    unfolding c(1) by (rule sorted_flat) (simp add: entries_ids)
  moreover have "{x. x \<in> set (flat (concat chunks)) \<and> snd x \<noteq> None} =
         {(c, Some \<lparr>sp_SenderID = p_senderId p,
             sp_State = (if map_of (ch_activeTalkers ch) (p_senderId p) \<noteq> None then ''talking'' else ''idle'')\<rparr>) |
           c ch k p. chan s c = Some ch \<and> (k, p) \<in> set (ch_peers ch)}" (is "?A = ?B")
  proof (rule set_eqI, rule iffI)
    fix x assume "x \<in> ?A"
    then obtain cid q where x: "x = (cid, Some q)" "(cid, Some q) \<in> set (flat (snapshotEntries s))"
      unfolding c(1) by (cases x) auto
    then show "x \<in> ?B" unfolding flat_entries_mem entry_participants by blast
  next
    fix x assume "x \<in> ?B"
    then obtain cid ch k p where x: "x = (cid, Some \<lparr>sp_SenderID = p_senderId p,
        sp_State = (if map_of (ch_activeTalkers ch) (p_senderId p) \<noteq> None then ''talking'' else ''idle'')\<rparr>)"
      "chan s cid = Some ch" "(k, p) \<in> set (ch_peers ch)" by blast
    then have "x \<in> set (flat (snapshotEntries s))"
      unfolding x(1) flat_entries_mem entry_participants by blast
    then show "x \<in> ?A" unfolding c(1) x(1) by (simp only: mem_Collect_eq snd_conv option.distinct simp_thms)
  qed
  ultimately show ?thesis using Some c(2-4) by (simp add: list_all_iff)
next
  case None
  obtain chunks current where r: "chunkEntries (snapshotEntries s) ([], []) = Some (chunks, current)"
    using chunkEntries_Some [of "snapshotEntries s" "([], [])"] entry_state by (fastforce simp: entries_mem)
  have "chunks_fit (chunks, current)" using chunkEntries_spec(2) [OF r] by (simp add: chunks_fit_def fit_Nil)
  moreover have "64 < length chunks + (if current = [] then 0 else 1)"
    using None r by (auto simp: privateControlSnapshotChunks_def privateControlChunkSnapshotEntries_def Let_def
        split: if_splits)
  ultimately show ?thesis using None r by simp
qed

end
