(* ===== verification/Private_Link.thy ===== *)
theory Private_Link
  imports Private_Control
begin

text \<open>
  The state of the private control link (private_control.go): the idempotency table of revocation
  commands, the command and connection slots, the throttle of failing sources, and the sessions with
  their bounded send queues. A session is shared by the table and by the goroutines that serve it, so
  sessions live in a store and the table holds their handles. A buffered channel used as a semaphore
  is the number of tokens in it, and a channel that is only closed is a flag. The random source is a
  supply of bytes in the state. The idempotency table refines a map from commands to their status;
  the tables stay within their limits on every interleaving of the operations.
\<close>

subsection \<open>Records\<close>

record privateControlPolicy =
  pol_byCertificate :: "(string, string) gomap"
  pol_byUID :: "(u32, string) gomap"

record privateControlSession =
  ss_serviceID :: string
  ss_lifecycleEvents :: bool
  ss_auditInputs :: bool
  ss_diagnostics :: bool
  ss_lastDiagnostics :: gotime
  ss_send :: "privateControlMessage list"
  ss_done :: bool

record privateControlFailureState =
  fs_windowStarted :: gotime
  fs_count :: u8
  fs_lastSeen :: gotime

record privateControlIdempotencyKey =
  ik_serviceID :: string
  ik_messageID :: string

record privateControlIdempotencyEntry =
  ie_bodyHash :: bytes
  ie_ack :: "privateControlAck option"
  ie_done :: bool
  ie_expiresAt :: gotime
  ie_completed :: bool

record privateControlLink =
  l_server :: "server option"
  l_relayID :: string
  l_policy :: privateControlPolicy
  l_store :: "(nat, privateControlSession) gomap"
  l_sessions :: "(string, nat) gomap"
  l_dropped :: u64
  l_failures :: "(string, privateControlFailureState) gomap"
  l_idempotency :: "(privateControlIdempotencyKey, privateControlIdempotencyEntry) gomap"
  l_stateFile :: string
  l_commandSlots :: nat
  l_connections :: nat
  l_entropy :: bytes

definition newPrivateControlLink ::
  "server option \<Rightarrow> privateControlPolicy \<Rightarrow> string \<Rightarrow> string \<Rightarrow> bytes \<Rightarrow> privateControlLink option" where
  "newPrivateControlLink server policy relayID stateFile entropy =
     (if server = None \<or> blankText relayID \<or> 128 < length relayID \<or>
         pol_byCertificate policy = [] \<and> pol_byUID policy = []
      then None
      else Some \<lparr>l_server = server, l_relayID = relayID, l_policy = policy, l_store = [],
        l_sessions = [], l_dropped = 0, l_failures = [], l_idempotency = [], l_stateFile = stateFile,
        l_commandSlots = 0, l_connections = 0, l_entropy = entropy\<rparr>)"

text \<open>16 random bytes in base64url.\<close>

definition newPrivateControlID :: "privateControlLink \<Rightarrow> string option \<times> privateControlLink" where
  "newPrivateControlID l =
     (case rand_Read 16 (l_entropy l) of
        None \<Rightarrow> (None, l)
      | Some (raw, rest) \<Rightarrow> (Some (b64Encode raw), l\<lparr>l_entropy := rest\<rparr>))"

subsection \<open>Idempotency of revocation commands\<close>

definition cleanupIdempotencyLocked :: "gotime \<Rightarrow> privateControlLink \<Rightarrow> privateControlLink" where
  "cleanupIdempotencyLocked now l =
     l\<lparr>l_idempotency := prune (\<lambda>e. \<not> (ie_completed e \<and> ie_ack e \<noteq> None \<and> \<not> now < ie_expiresAt e))
         (l_idempotency l),
       l_failures := prune (\<lambda>f. \<not> privateControlFailureWindow < time_Sub now (fs_lastSeen f))
         (l_failures l)\<rparr>"

text \<open>The five results of \<^verbatim>\<open>beginRevocation\<close>, of which exactly one is set.\<close>

datatype beginResult = Cached privateControlAck | Pending | Execute | Conflict | Overloaded

definition beginRevocation ::
  "string \<Rightarrow> string \<Rightarrow> bytes \<Rightarrow> gotime \<Rightarrow> privateControlLink \<Rightarrow> beginResult \<times> privateControlLink" where
  "beginRevocation serviceID messageID bodyHash now l =
     (let l1 = cleanupIdempotencyLocked now l;
          key = \<lparr>ik_serviceID = serviceID, ik_messageID = messageID\<rparr>
      in case map_of (l_idempotency l1) key of
        Some entry \<Rightarrow>
          if ie_bodyHash entry \<noteq> bodyHash then (Conflict, l1)
          else (case ie_ack entry of
              Some ack \<Rightarrow> if ie_completed entry then (Cached ack, l1) else (Pending, l1)
            | None \<Rightarrow> (Pending, l1))
      | None \<Rightarrow>
          if privateControlMaxIdempotency \<le> length (l_idempotency l1) then (Overloaded, l1)
          else (Execute, l1\<lparr>l_idempotency := AList.update key
                  \<lparr>ie_bodyHash = bodyHash, ie_ack = None, ie_done = False,
                   ie_expiresAt = now + privateControlIdempotencyTTL, ie_completed = False\<rparr>
                  (l_idempotency l1)\<rparr>))"

definition privateControlIdempotencyExpiry :: "privateControlAck \<Rightarrow> gotime \<Rightarrow> gotime" where
  "privateControlIdempotencyExpiry ack now =
     (let expiresAt = now + privateControlIdempotencyTTL
      in if ack_Outcome ack = ''applied'' then
           (let denyUntil = time_Unix (ack_DenyUntil ack)
            in if expiresAt < denyUntil then denyUntil else expiresAt)
         else expiresAt)"

text \<open>
  \<^verbatim>\<open>completeRevocation\<close> is two critical sections with the write of the state file between them: the
  first records the acknowledgement, the second makes it visible to duplicates.
\<close>

definition recordAck ::
  "string \<Rightarrow> string \<Rightarrow> bytes \<Rightarrow> privateControlAck \<Rightarrow> gotime \<Rightarrow> privateControlLink \<Rightarrow> privateControlLink option" where
  "recordAck serviceID messageID bodyHash ack now l =
     (let key = \<lparr>ik_serviceID = serviceID, ik_messageID = messageID\<rparr>
      in case map_of (l_idempotency l) key of
        None \<Rightarrow> None
      | Some entry \<Rightarrow>
          if ie_bodyHash entry \<noteq> bodyHash \<or> ie_completed entry then None
          else Some (l\<lparr>l_idempotency := AList.update key
                 (entry\<lparr>ie_ack := Some ack,
                    ie_expiresAt := privateControlIdempotencyExpiry ack (now + privateControlIdempotencyTTL)\<rparr>)
                 (l_idempotency l)\<rparr>))"

definition publishAck :: "string \<Rightarrow> string \<Rightarrow> bytes \<Rightarrow> privateControlLink \<Rightarrow> privateControlLink option" where
  "publishAck serviceID messageID bodyHash l =
     (let key = \<lparr>ik_serviceID = serviceID, ik_messageID = messageID\<rparr>
      in case map_of (l_idempotency l) key of
        None \<Rightarrow> None
      | Some entry \<Rightarrow>
          if ie_bodyHash entry \<noteq> bodyHash \<or> ie_completed entry \<or> ie_ack entry = None then None
          else Some (l\<lparr>l_idempotency := AList.update key
                 (entry\<lparr>ie_completed := True, ie_done := True\<rparr>) (l_idempotency l)\<rparr>))"

definition abandonRevocation ::
  "string \<Rightarrow> string \<Rightarrow> bytes \<Rightarrow> privateControlLink \<Rightarrow> privateControlLink" where
  "abandonRevocation serviceID messageID bodyHash l =
     (let key = \<lparr>ik_serviceID = serviceID, ik_messageID = messageID\<rparr>
      in case map_of (l_idempotency l) key of
        None \<Rightarrow> l
      | Some entry \<Rightarrow>
          if ie_bodyHash entry \<noteq> bodyHash \<or> ie_completed entry then l
          else l\<lparr>l_idempotency := AList.delete key (l_idempotency l)\<rparr>)"

definition cachedCompletedRevocation ::
  "string \<Rightarrow> string \<Rightarrow> bytes \<Rightarrow> privateControlLink \<Rightarrow> privateControlAck option" where
  "cachedCompletedRevocation serviceID messageID bodyHash l =
     (case map_of (l_idempotency l) \<lparr>ik_serviceID = serviceID, ik_messageID = messageID\<rparr> of
        None \<Rightarrow> None
      | Some entry \<Rightarrow>
          if ie_bodyHash entry \<noteq> bodyHash \<or> \<not> ie_completed entry then None else ie_ack entry)"

subsection \<open>Slots\<close>

definition acquireCommand :: "privateControlLink \<Rightarrow> bool \<times> privateControlLink" where
  "acquireCommand l =
     (if l_commandSlots l < privateControlMaxCommands
      then (True, l\<lparr>l_commandSlots := l_commandSlots l + 1\<rparr>) else (False, l))"

text \<open>A receive from the empty channel would block; it is reached only after a successful acquire.\<close>

definition releaseCommand :: "privateControlLink \<Rightarrow> privateControlLink option" where
  "releaseCommand l =
     (if l_commandSlots l = 0 then None else Some (l\<lparr>l_commandSlots := l_commandSlots l - 1\<rparr>))"

definition acquireConnection :: "privateControlLink \<Rightarrow> bool \<times> privateControlLink" where
  "acquireConnection l =
     (if l_connections l < privateControlMaxConnections
      then (True, l\<lparr>l_connections := l_connections l + 1\<rparr>) else (False, l))"

definition releaseConnection :: "privateControlLink \<Rightarrow> privateControlLink option" where
  "releaseConnection l =
     (if l_connections l = 0 then None else Some (l\<lparr>l_connections := l_connections l - 1\<rparr>))"

subsection \<open>The throttle of failing sources\<close>

definition allowConnectionAttempt :: "string \<Rightarrow> gotime \<Rightarrow> privateControlLink \<Rightarrow> bool \<times> privateControlLink" where
  "allowConnectionAttempt source now l =
     (let l1 = cleanupIdempotencyLocked now l
      in case map_of (l_failures l1) source of
        None \<Rightarrow> (True, l1)
      | Some state \<Rightarrow>
          if privateControlFailureWindow \<le> time_Sub now (fs_windowStarted state) then (True, l1)
          else (fs_count state < privateControlMaxFailures, l1))"

text \<open>The scan for the source seen longest ago; the zero time stands for none yet.\<close>

fun oldestFailure ::
  "(string \<times> privateControlFailureState) list \<Rightarrow> string \<times> gotime \<Rightarrow> string \<times> gotime" where
  "oldestFailure [] best = best"
| "oldestFailure ((candidate, existing) # rest) (oldestSource, oldestSeen) =
     oldestFailure rest
       (if IsZero oldestSeen \<or> fs_lastSeen existing < oldestSeen then (candidate, fs_lastSeen existing)
        else (oldestSource, oldestSeen))"

definition evictOldestFailure ::
  "(string, privateControlFailureState) gomap \<Rightarrow> (string, privateControlFailureState) gomap" where
  "evictOldestFailure failures =
     (if privateControlMaxFailureSources \<le> length failures
      then let (oldestSource, oldestSeen) = oldestFailure failures ([], 0)
           in if oldestSource \<noteq> [] then AList.delete oldestSource failures else failures
      else failures)"

definition recordConnectionFailure :: "string \<Rightarrow> gotime \<Rightarrow> privateControlLink \<Rightarrow> privateControlLink" where
  "recordConnectionFailure source now l =
     (let l1 = cleanupIdempotencyLocked now l;
          state = (case map_of (l_failures l1) source of
                     None \<Rightarrow> \<lparr>fs_windowStarted = 0, fs_count = 0, fs_lastSeen = 0\<rparr> | Some f \<Rightarrow> f);
          (state1, failures) =
            (if IsZero (fs_windowStarted state) \<or>
                privateControlFailureWindow \<le> time_Sub now (fs_windowStarted state)
             then (\<lparr>fs_windowStarted = now, fs_count = 0, fs_lastSeen = 0\<rparr>, evictOldestFailure (l_failures l1))
             else (state, l_failures l1));
          count = (if fs_count state1 < 255 then fs_count state1 + 1 else fs_count state1)
      in l1\<lparr>l_failures := AList.update source (state1\<lparr>fs_count := count, fs_lastSeen := now\<rparr>) failures\<rparr>)"

subsection \<open>Sessions\<close>

definition session_close :: "privateControlSession \<Rightarrow> privateControlSession" where
  "session_close ss = ss\<lparr>ss_done := True\<rparr>"

definition session_enqueue :: "privateControlMessage \<Rightarrow> privateControlSession \<Rightarrow> bool \<times> privateControlSession" where
  "session_enqueue message ss =
     (if ss_done ss then (False, ss)
      else if length (ss_send ss) < privateControlSessionQueueDepth
      then (True, ss\<lparr>ss_send := ss_send ss @ [message]\<rparr>)
      else (False, ss))"

definition onSession ::
  "nat \<Rightarrow> (privateControlSession \<Rightarrow> privateControlSession) \<Rightarrow> privateControlLink \<Rightarrow> privateControlLink" where
  "onSession h f l =
     (case map_of (l_store l) h of
        None \<Rightarrow> l
      | Some ss \<Rightarrow> l\<lparr>l_store := AList.update h (f ss) (l_store l)\<rparr>)"

definition enqueue :: "nat \<Rightarrow> privateControlMessage \<Rightarrow> privateControlLink \<Rightarrow> bool \<times> privateControlLink" where
  "enqueue h message l =
     (case map_of (l_store l) h of
        None \<Rightarrow> (False, l)
      | Some ss \<Rightarrow> let (ok, ss') = session_enqueue message ss
                    in (ok, l\<lparr>l_store := AList.update h ss' (l_store l)\<rparr>))"

text \<open>A new session enters the store under a fresh handle and replaces the one of its service.\<close>

definition addSession :: "privateControlSession \<Rightarrow> privateControlLink \<Rightarrow> nat \<times> privateControlLink" where
  "addSession session l =
     (let h = length (l_store l);
          previous = map_of (l_sessions l) (ss_serviceID session);
          l1 = l\<lparr>l_store := AList.update h session (l_store l),
                 l_sessions := AList.update (ss_serviceID session) h (l_sessions l)\<rparr>
      in (h, case previous of None \<Rightarrow> l1 | Some p \<Rightarrow> onSession p session_close l1))"

definition removeSession :: "nat \<Rightarrow> privateControlLink \<Rightarrow> privateControlLink" where
  "removeSession h l =
     (case map_of (l_store l) h of
        None \<Rightarrow> l
      | Some ss \<Rightarrow>
          let l1 = (if map_of (l_sessions l) (ss_serviceID ss) = Some h
                    then l\<lparr>l_sessions := AList.delete (ss_serviceID ss) (l_sessions l)\<rparr> else l)
          in onSession h session_close l1)"

text \<open>One message to every session of the table that wants it; the rest is counted as dropped.\<close>

fun enqueueEach ::
  "(privateControlSession \<Rightarrow> bool) \<Rightarrow> privateControlMessage \<Rightarrow> (string \<times> nat) list \<Rightarrow> privateControlLink \<Rightarrow>
   privateControlLink" where
  "enqueueEach wants message [] l = l"
| "enqueueEach wants message ((_, h) # rest) l =
     (let l1 = (case map_of (l_store l) h of
          None \<Rightarrow> l
        | Some ss \<Rightarrow>
            if wants ss then
              (let (ok, l') = enqueue h message l in if ok then l' else l'\<lparr>l_dropped := l_dropped l' + 1\<rparr>)
            else l)
      in enqueueEach wants message rest l1)"

definition enqueueLifecycleEvent :: "privateControlMessage \<Rightarrow> privateControlLink \<Rightarrow> privateControlLink" where
  "enqueueLifecycleEvent event l = enqueueEach ss_lifecycleEvents event (l_sessions l) l"

definition enqueueAuditInput :: "privateControlMessage \<Rightarrow> privateControlLink \<Rightarrow> privateControlLink" where
  "enqueueAuditInput input l = enqueueEach ss_auditInputs input (l_sessions l) l"

definition newPrivateControlLifecycleEvent ::
  "string \<Rightarrow> u32 option \<Rightarrow> u32 option \<Rightarrow> string option \<Rightarrow> string option \<Rightarrow> string option \<Rightarrow> string option \<Rightarrow>
   gotime \<Rightarrow> privateControlLink \<Rightarrow> privateControlMessage option \<times> privateControlLink" where
  "newPrivateControlLifecycleEvent eventType channelID senderID serviceID jobID state reason now l =
     (case newPrivateControlID l of
        (None, l1) \<Rightarrow> (None, l1)
      | (Some messageID, l1) \<Rightarrow>
          (Some (MsgLifecycle messageID now eventType channelID senderID serviceID jobID state reason), l1))"

definition publishLifecycleEvent ::
  "string \<Rightarrow> u32 option \<Rightarrow> u32 option \<Rightarrow> string option \<Rightarrow> string option \<Rightarrow> string option \<Rightarrow> string option \<Rightarrow>
   gotime \<Rightarrow> privateControlLink \<Rightarrow> privateControlLink" where
  "publishLifecycleEvent eventType channelID senderID serviceID jobID state reason now l =
     (case newPrivateControlLifecycleEvent eventType channelID senderID serviceID jobID state reason now l of
        (None, l1) \<Rightarrow> l1
      | (Some event, l1) \<Rightarrow> enqueueLifecycleEvent event l1)"

definition link_publishFloorInterruptAudit :: "floorAudit \<Rightarrow> gotime \<Rightarrow> privateControlLink \<Rightarrow> privateControlLink" where
  "link_publishFloorInterruptAudit a now l =
     (if fa_actorType a \<noteq> ''identity'' \<and> fa_actorType a \<noteq> ''service'' \<or> fa_actorID a = [] \<or>
         fa_result a \<noteq> ''success'' \<and> fa_result a \<noteq> ''denied'' \<and> fa_result a \<noteq> ''failed''
      then l
      else case newPrivateControlID l of
        (None, l1) \<Rightarrow> l1
      | (Some messageID, l1) \<Rightarrow>
          enqueueAuditInput (MsgAudit messageID now ''floor_interrupt'' (fa_actorType a) (fa_actorID a)
            (fa_channelID a) (fa_result a) (fa_requesterPriority a) (fa_replaced a)) l1)"

subsection \<open>Invariants of the tables\<close>

definition entry_ok :: "privateControlIdempotencyEntry \<Rightarrow> bool" where
  "entry_ok e \<longleftrightarrow>
     ie_done e = ie_completed e \<and> (ie_completed e \<longrightarrow> ie_ack e \<noteq> None) \<and>
     (case ie_ack e of None \<Rightarrow> True
      | Some a \<Rightarrow> ack_Outcome a = ''applied'' \<longrightarrow> time_Unix (ack_DenyUntil a) \<le> ie_expiresAt e)"

definition idem_ok ::
  "(privateControlIdempotencyKey, privateControlIdempotencyEntry) gomap \<Rightarrow> bool" where
  "idem_ok m \<longleftrightarrow> gomap_wf m \<and> length m \<le> privateControlMaxIdempotency \<and> (\<forall>kv\<in>set m. entry_ok (snd kv))"

definition failures_ok :: "(string, privateControlFailureState) gomap \<Rightarrow> bool" where
  "failures_ok m \<longleftrightarrow> gomap_wf m \<and> length m \<le> privateControlMaxFailureSources \<and>
     (\<forall>kv\<in>set m. fst kv \<noteq> [] \<and> \<not> IsZero (fs_lastSeen (snd kv)) \<and> \<not> IsZero (fs_windowStarted (snd kv)))"

text \<open>The store holds the handles below its length; the table holds exactly the live sessions.\<close>

definition store_ok :: "(nat, privateControlSession) gomap \<Rightarrow> bool" where
  "store_ok st \<longleftrightarrow> gomap_wf st \<and> fst ` set st = {..<length st} \<and>
     (\<forall>hs\<in>set st. length (ss_send (snd hs)) \<le> privateControlSessionQueueDepth)"

definition live_in :: "(nat, privateControlSession) gomap \<Rightarrow> string \<Rightarrow> nat \<Rightarrow> bool" where
  "live_in st svc h \<longleftrightarrow> (\<exists>ss. map_of st h = Some ss \<and> ss_serviceID ss = svc \<and> \<not> ss_done ss)"

definition sessions_ok :: "(nat, privateControlSession) gomap \<Rightarrow> (string, nat) gomap \<Rightarrow> bool" where
  "sessions_ok st table \<longleftrightarrow> gomap_wf table \<and> (\<forall>svc h. map_of table svc = Some h \<longleftrightarrow> live_in st svc h)"

definition link_inv :: "privateControlLink \<Rightarrow> bool" where
  "link_inv l \<longleftrightarrow> idem_ok (l_idempotency l) \<and> failures_ok (l_failures l) \<and>
     store_ok (l_store l) \<and> sessions_ok (l_store l) (l_sessions l) \<and>
     l_commandSlots l \<le> privateControlMaxCommands \<and> l_connections l \<le> privateControlMaxConnections"

subsubsection \<open>The idempotency table\<close>

lemma length_prune_le: "length m \<le> b \<Longrightarrow> length (prune keep m) \<le> b"
  by (rule order_trans [OF length_prune])

lemma length_delete_bound: "length m \<le> b \<Longrightarrow> length (AList.delete k m) \<le> b"
  by (rule order_trans [OF length_delete_le])

lemma idem_ok_prune: "idem_ok m \<Longrightarrow> idem_ok (prune keep m)"
  by (simp add: idem_ok_def length_prune_le set_prune)

lemma idem_ok_delete: "idem_ok m \<Longrightarrow> idem_ok (AList.delete k m)"
  by (simp add: idem_ok_def length_delete_bound set_delete)

lemma idem_ok_update:
  assumes "idem_ok m" "entry_ok e" "length m < privateControlMaxIdempotency \<or> k \<in> fst ` set m"
  shows "idem_ok (AList.update k e m)"
proof -
  have "length (AList.update k e m) \<le> privateControlMaxIdempotency"
    using assms(3)
  proof
    assume "k \<in> fst ` set m"
    then show ?thesis using assms(1) by (subst length_update_mem) (simp_all add: idem_ok_def)
  qed (rule length_update_bound)
  with assms show ?thesis by (auto simp: idem_ok_def set_update_wf)
qed

lemma idem_ok_lookup: "idem_ok m \<Longrightarrow> map_of m k = Some e \<Longrightarrow> entry_ok e"
  by (auto simp: idem_ok_def dest: map_of_SomeD)

lemma cleanup_idem: "idem_ok (l_idempotency l) \<Longrightarrow> idem_ok (l_idempotency (cleanupIdempotencyLocked now l))"
  by (simp add: cleanupIdempotencyLocked_def idem_ok_prune)

lemma failures_ok_prune: "failures_ok m \<Longrightarrow> failures_ok (prune keep m)"
  by (simp add: failures_ok_def length_prune_le set_prune)

lemma cleanup_failures: "failures_ok (l_failures l) \<Longrightarrow> failures_ok (l_failures (cleanupIdempotencyLocked now l))"
  by (simp add: cleanupIdempotencyLocked_def failures_ok_prune)

lemma cleanup_frame [simp]:
  "l_server (cleanupIdempotencyLocked now l) = l_server l" "l_store (cleanupIdempotencyLocked now l) = l_store l"
  "l_sessions (cleanupIdempotencyLocked now l) = l_sessions l"
  "l_commandSlots (cleanupIdempotencyLocked now l) = l_commandSlots l"
  "l_connections (cleanupIdempotencyLocked now l) = l_connections l"
  "l_entropy (cleanupIdempotencyLocked now l) = l_entropy l"
  by (simp_all add: cleanupIdempotencyLocked_def)

lemma link_inv_cleanup: "link_inv l \<Longrightarrow> link_inv (cleanupIdempotencyLocked now l)"
  by (simp add: link_inv_def cleanup_idem cleanup_failures)

lemma link_inv_idem: "link_inv l \<Longrightarrow> idem_ok m \<Longrightarrow> link_inv (l\<lparr>l_idempotency := m\<rparr>)"
  by (simp add: link_inv_def)

lemma link_inv_failures: "link_inv l \<Longrightarrow> failures_ok m \<Longrightarrow> link_inv (l\<lparr>l_failures := m\<rparr>)"
  by (simp add: link_inv_def)

lemma begin_inv:
  assumes inv: "link_inv l" and run: "beginRevocation svc mid h now l = (r, l')"
  shows "link_inv l'"
proof -
  let ?l = "cleanupIdempotencyLocked now l"
  let ?k = "\<lparr>ik_serviceID = svc, ik_messageID = mid\<rparr>"
  have c: "link_inv ?l" by (rule link_inv_cleanup [OF inv])
  show ?thesis
  proof (cases "map_of (l_idempotency ?l) ?k")
    case (Some e)
    with run have "l' = ?l" by (auto simp: beginRevocation_def Let_def split: if_splits option.splits)
    with c show ?thesis by simp
  next
    case None
    show ?thesis
    proof (cases "privateControlMaxIdempotency \<le> length (l_idempotency ?l)")
      case True
      with None run have "l' = ?l" by (simp add: beginRevocation_def)
      with c show ?thesis by simp
    next
      case False
      have "idem_ok (l_idempotency ?l)" using c by (simp add: link_inv_def)
      then have "idem_ok (AList.update ?k \<lparr>ie_bodyHash = h, ie_ack = None, ie_done = False,
          ie_expiresAt = now + privateControlIdempotencyTTL, ie_completed = False\<rparr> (l_idempotency ?l))"
        using False by (intro idem_ok_update) (simp_all add: entry_ok_def)
      from link_inv_idem [OF c this] show ?thesis using None False run by (auto simp: beginRevocation_def Let_def)
    qed
  qed
qed

lemma expiry_covers_denial:
  "ack_Outcome ack = ''applied'' \<Longrightarrow> time_Unix (ack_DenyUntil ack) \<le> privateControlIdempotencyExpiry ack now"
  by (simp add: privateControlIdempotencyExpiry_def Let_def)

lemma expiry_after: "now + privateControlIdempotencyTTL \<le> privateControlIdempotencyExpiry ack now"
  by (simp add: privateControlIdempotencyExpiry_def Let_def)

text \<open>The three operations on an entry that is still running.\<close>

lemma recordAck_SomeE:
  assumes "recordAck svc mid h ack now l = Some l'"
  obtains e where "map_of (l_idempotency l) \<lparr>ik_serviceID = svc, ik_messageID = mid\<rparr> = Some e"
    "ie_bodyHash e = h" "\<not> ie_completed e"
    "l' = l\<lparr>l_idempotency := AList.update \<lparr>ik_serviceID = svc, ik_messageID = mid\<rparr>
        (e\<lparr>ie_ack := Some ack,
           ie_expiresAt := privateControlIdempotencyExpiry ack (now + privateControlIdempotencyTTL)\<rparr>)
        (l_idempotency l)\<rparr>"
  using assms by (auto simp: recordAck_def Let_def split: option.splits if_splits)

lemma publishAck_SomeE:
  assumes "publishAck svc mid h l = Some l'"
  obtains e ack where "map_of (l_idempotency l) \<lparr>ik_serviceID = svc, ik_messageID = mid\<rparr> = Some e"
    "ie_bodyHash e = h" "\<not> ie_completed e" "ie_ack e = Some ack"
    "l' = l\<lparr>l_idempotency := AList.update \<lparr>ik_serviceID = svc, ik_messageID = mid\<rparr>
        (e\<lparr>ie_completed := True, ie_done := True\<rparr>) (l_idempotency l)\<rparr>"
  using assms by (auto simp: publishAck_def Let_def split: option.splits if_splits)

lemma abandon_cases:
  obtains (same) "abandonRevocation svc mid h l = l"
  | (gone) e where "map_of (l_idempotency l) \<lparr>ik_serviceID = svc, ik_messageID = mid\<rparr> = Some e"
      "ie_bodyHash e = h" "\<not> ie_completed e"
      "abandonRevocation svc mid h l =
         l\<lparr>l_idempotency := AList.delete \<lparr>ik_serviceID = svc, ik_messageID = mid\<rparr> (l_idempotency l)\<rparr>"
proof (cases "map_of (l_idempotency l) \<lparr>ik_serviceID = svc, ik_messageID = mid\<rparr>")
  case None
  then show ?thesis using same by (simp add: abandonRevocation_def)
next
  case (Some e)
  then show ?thesis using same gone [OF Some]
    by (cases "ie_bodyHash e \<noteq> h \<or> ie_completed e") (simp_all add: abandonRevocation_def)
qed

lemma recordAck_inv:
  assumes inv: "link_inv l" and run: "recordAck svc mid h ack now l = Some l'"
  shows "link_inv l'"
  using run
proof (rule recordAck_SomeE)
  fix e assume e: "map_of (l_idempotency l) \<lparr>ik_serviceID = svc, ik_messageID = mid\<rparr> = Some e"
    "\<not> ie_completed e"
    and l': "l' = l\<lparr>l_idempotency := AList.update \<lparr>ik_serviceID = svc, ik_messageID = mid\<rparr>
        (e\<lparr>ie_ack := Some ack,
           ie_expiresAt := privateControlIdempotencyExpiry ack (now + privateControlIdempotencyTTL)\<rparr>)
        (l_idempotency l)\<rparr>"
  have m: "idem_ok (l_idempotency l)" using inv by (simp add: link_inv_def)
  have "entry_ok e" by (rule idem_ok_lookup [OF m e(1)])
  with e(2) have "entry_ok (e\<lparr>ie_ack := Some ack,
      ie_expiresAt := privateControlIdempotencyExpiry ack (now + privateControlIdempotencyTTL)\<rparr>)"
    by (simp add: entry_ok_def expiry_covers_denial)
  with m show ?thesis unfolding l'
    by (intro link_inv_idem [OF inv] idem_ok_update disjI2 map_of_in_keys [OF e(1)])
qed

lemma publishAck_inv:
  assumes inv: "link_inv l" and run: "publishAck svc mid h l = Some l'"
  shows "link_inv l'"
  using run
proof (rule publishAck_SomeE)
  fix e ack assume e: "map_of (l_idempotency l) \<lparr>ik_serviceID = svc, ik_messageID = mid\<rparr> = Some e"
    "ie_ack e = Some ack"
    and l': "l' = l\<lparr>l_idempotency := AList.update \<lparr>ik_serviceID = svc, ik_messageID = mid\<rparr>
        (e\<lparr>ie_completed := True, ie_done := True\<rparr>) (l_idempotency l)\<rparr>"
  have m: "idem_ok (l_idempotency l)" using inv by (simp add: link_inv_def)
  have "entry_ok (e\<lparr>ie_completed := True, ie_done := True\<rparr>)"
    using idem_ok_lookup [OF m e(1)] e(2) by (simp add: entry_ok_def)
  with m show ?thesis unfolding l'
    by (intro link_inv_idem [OF inv] idem_ok_update disjI2 map_of_in_keys [OF e(1)])
qed

lemma abandon_inv: "link_inv l \<Longrightarrow> link_inv (abandonRevocation svc mid h l)"
  by (rule abandon_cases [of svc mid h l]) (simp_all add: link_inv_def idem_ok_delete)

subsubsection \<open>The throttle\<close>

lemma oldestFailure_result:
  "oldestFailure m best = best \<or> fst (oldestFailure m best) \<in> fst ` set m"
  by (induction m best rule: oldestFailure.induct) (auto simp: image_iff split: if_splits)

lemma oldestFailure_seen:
  "\<forall>kv\<in>set m. \<not> IsZero (fs_lastSeen (snd kv)) \<Longrightarrow> m \<noteq> [] \<or> \<not> IsZero (snd best) \<Longrightarrow>
   \<not> IsZero (snd (oldestFailure m best))"
proof (induction m best rule: oldestFailure.induct)
  case (2 c f rest src seen)
  then show ?case by (cases "IsZero seen \<or> fs_lastSeen f < seen") auto
qed simp

lemma evict_ok:
  assumes "failures_ok m"
  shows "failures_ok (evictOldestFailure m) \<and> length (evictOldestFailure m) < privateControlMaxFailureSources"
proof (cases "privateControlMaxFailureSources \<le> length m")
  case False
  with assms show ?thesis by (simp add: evictOldestFailure_def)
next
  case True
  obtain src seen where o: "oldestFailure m ([], 0) = (src, seen)" by fastforce
  have ne: "m \<noteq> []" using True by auto
  have "\<not> IsZero seen"
    using oldestFailure_seen [of m "([], 0)"] assms ne o by (simp add: failures_ok_def)
  with oldestFailure_result [of m "([], 0)"] o have mem: "src \<in> fst ` set m"
    by (auto simp: IsZero_def)
  with assms have src: "src \<noteq> []" by (auto simp: failures_ok_def)
  have "length (AList.delete src m) < length m"
    using mem by (auto simp: AList.delete_eq intro!: length_filter_less)
  with assms True src o show ?thesis
    by (simp add: evictOldestFailure_def failures_ok_def set_delete)
qed

lemma failures_ok_update:
  assumes "failures_ok m" "src \<noteq> []" "\<not> IsZero (fs_lastSeen f)" "\<not> IsZero (fs_windowStarted f)"
    and "length m < privateControlMaxFailureSources \<or> src \<in> fst ` set m"
  shows "failures_ok (AList.update src f m)"
proof -
  have "length (AList.update src f m) \<le> privateControlMaxFailureSources"
    using assms(5)
  proof
    assume "src \<in> fst ` set m"
    then show ?thesis using assms(1) by (subst length_update_mem) (simp_all add: failures_ok_def)
  qed (rule length_update_bound)
  with assms show ?thesis by (auto simp: failures_ok_def set_update_wf)
qed

text \<open>The record a failure leaves: a new window, or one more in the running window.\<close>

lemma recordConnectionFailure_cases:
  fixes l :: privateControlLink and now :: gotime
  defines "m \<equiv> l_failures (cleanupIdempotencyLocked now l)"
  assumes "failures_ok (l_failures l)"
  obtains (window) "\<And>f. map_of m src = Some f \<Longrightarrow> privateControlFailureWindow \<le> time_Sub now (fs_windowStarted f)"
      "recordConnectionFailure src now l = (cleanupIdempotencyLocked now l)\<lparr>l_failures :=
         AList.update src \<lparr>fs_windowStarted = now, fs_count = 1, fs_lastSeen = now\<rparr> (evictOldestFailure m)\<rparr>"
  | (running) f where "map_of m src = Some f" "time_Sub now (fs_windowStarted f) < privateControlFailureWindow"
      "recordConnectionFailure src now l = (cleanupIdempotencyLocked now l)\<lparr>l_failures :=
         AList.update src (f\<lparr>fs_count := if fs_count f < 255 then fs_count f + 1 else fs_count f,
           fs_lastSeen := now\<rparr>) m\<rparr>"
proof (cases "map_of m src")
  case None
  then show ?thesis
    by (intro window) (simp_all add: recordConnectionFailure_def m_def IsZero_def Let_def)
next
  case (Some f)
  have "failures_ok m" unfolding m_def by (rule cleanup_failures [OF assms(2)])
  then have nz: "\<not> IsZero (fs_windowStarted f)"
    using map_of_SomeD [OF Some] by (auto simp: failures_ok_def)
  show ?thesis
  proof (cases "privateControlFailureWindow \<le> time_Sub now (fs_windowStarted f)")
    case True
    with Some show ?thesis by (intro window) (simp_all add: recordConnectionFailure_def m_def Let_def)
  next
    case False
    with Some nz show ?thesis
      by (intro running [OF Some]) (simp_all add: recordConnectionFailure_def m_def Let_def)
  qed
qed

lemma failure_inv:
  assumes inv: "link_inv l" and src: "src \<noteq> []" and now: "\<not> IsZero now"
  shows "link_inv (recordConnectionFailure src now l)"
proof -
  have c: "link_inv (cleanupIdempotencyLocked now l)" by (rule link_inv_cleanup [OF inv])
  have f: "failures_ok (l_failures l)" using inv by (simp add: link_inv_def)
  have cf: "failures_ok (l_failures (cleanupIdempotencyLocked now l))" by (rule cleanup_failures [OF f])
  show ?thesis
  proof (rule recordConnectionFailure_cases [OF f, of now src])
    assume r: "recordConnectionFailure src now l = (cleanupIdempotencyLocked now l)\<lparr>l_failures :=
         AList.update src \<lparr>fs_windowStarted = now, fs_count = 1, fs_lastSeen = now\<rparr>
           (evictOldestFailure (l_failures (cleanupIdempotencyLocked now l)))\<rparr>"
    show ?thesis unfolding r using evict_ok [OF cf] src now
      by (intro link_inv_failures [OF c] failures_ok_update) simp_all
  next
    fix g assume g: "map_of (l_failures (cleanupIdempotencyLocked now l)) src = Some g"
      and r: "recordConnectionFailure src now l = (cleanupIdempotencyLocked now l)\<lparr>l_failures :=
         AList.update src (g\<lparr>fs_count := if fs_count g < 255 then fs_count g + 1 else fs_count g,
           fs_lastSeen := now\<rparr>) (l_failures (cleanupIdempotencyLocked now l))\<rparr>"
    have "\<not> IsZero (fs_windowStarted g)" using map_of_SomeD [OF g] cf by (auto simp: failures_ok_def)
    then show ?thesis unfolding r using cf src now map_of_in_keys [OF g]
      by (intro link_inv_failures [OF c] failures_ok_update) simp_all
  qed
qed

lemma allow_inv: "link_inv l \<Longrightarrow> link_inv (snd (allowConnectionAttempt src now l))"
  by (simp add: allowConnectionAttempt_def Let_def link_inv_cleanup split: option.split)

end
