(* ===== verification/Private_Link_Safety.thy ===== *)
theory Private_Link_Safety
  imports Private_Link
begin

text \<open>
  The private control link under every interleaving of its operations: its tables, slots and queues
  stay within their limits, the session table holds exactly the live sessions, so a management service
  has at most one; the idempotency table refines a map from commands to their status, and an answer
  that was given once is given to every duplicate until it expires.
\<close>

subsection \<open>Sessions\<close>

lemma live_in_update:
  "live_in (AList.update h ss st) svc k \<longleftrightarrow>
     (if k = h then ss_serviceID ss = svc \<and> \<not> ss_done ss else live_in st svc k)"
  by (auto simp: live_in_def)

lemma store_ok_update:
  assumes "store_ok st" "map_of st h = Some ss" "length (ss_send ss') \<le> privateControlSessionQueueDepth"
  shows "store_ok (AList.update h ss' st)"
proof -
  have h: "h \<in> fst ` set st" by (rule map_of_in_keys [OF assms(2)])
  have "fst ` set (AList.update h ss' st) = fst ` set st"
    using h dom_map_of_conv_image_fst [of "AList.update h ss' st"] dom_map_of_conv_image_fst [of st]
    by auto
  moreover have "length (AList.update h ss' st) = length st" by (rule length_update_mem [OF h])
  ultimately show ?thesis using assms(1,3) by (auto simp: store_ok_def set_update_wf)
qed

lemma store_ok_fresh:
  assumes "store_ok st" "length (ss_send ss) \<le> privateControlSessionQueueDepth"
  shows "store_ok (AList.update (length st) ss st)" "map_of st (length st) = None"
proof -
  have fresh: "length st \<notin> fst ` set st" using assms(1) by (simp add: store_ok_def)
  then show "map_of st (length st) = None" by (simp add: map_of_eq_None_iff)
  have "set (AList.update (length st) ss st) = insert (length st, ss) {kv \<in> set st. fst kv \<noteq> length st}"
    using assms(1) by (intro set_update_wf) (simp add: store_ok_def)
  also have "{kv \<in> set st. fst kv \<noteq> length st} = set st" using fresh by force
  finally show "store_ok (AList.update (length st) ss st)"
    using assms by (simp add: store_ok_def length_update_notin [OF fresh] lessThan_Suc)
qed

lemma store_ok_lookup:
  "store_ok st \<Longrightarrow> map_of st h = Some ss \<Longrightarrow> length (ss_send ss) \<le> privateControlSessionQueueDepth"
  by (auto simp: store_ok_def dest: map_of_SomeD)

lemma link_inv_store:
  "link_inv l \<Longrightarrow> store_ok st \<Longrightarrow> sessions_ok st table \<Longrightarrow>
   link_inv (l\<lparr>l_store := st, l_sessions := table\<rparr>)"
  by (simp add: link_inv_def)

lemma link_inv_store_only:
  "link_inv l \<Longrightarrow> store_ok st \<Longrightarrow> sessions_ok st (l_sessions l) \<Longrightarrow> link_inv (l\<lparr>l_store := st\<rparr>)"
  by (simp add: link_inv_def)

text \<open>Changing a session but not its service nor its liveness.\<close>

lemma sessions_ok_same:
  assumes "sessions_ok st table" "map_of st h = Some ss" "ss_serviceID ss' = ss_serviceID ss" "ss_done ss' = ss_done ss"
  shows "sessions_ok (AList.update h ss' st) table"
  using assms by (auto simp: sessions_ok_def live_in_update) (auto simp: live_in_def)

lemma enqueue_inv: "link_inv l \<Longrightarrow> link_inv (snd (enqueue h message l))"
proof -
  assume inv: "link_inv l"
  show ?thesis
  proof (cases "map_of (l_store l) h")
    case (Some ss)
    have st: "store_ok (l_store l)" "sessions_ok (l_store l) (l_sessions l)" using inv by (simp_all add: link_inv_def)
    have "length (ss_send (snd (session_enqueue message ss))) \<le> privateControlSessionQueueDepth"
      "ss_serviceID (snd (session_enqueue message ss)) = ss_serviceID ss"
      "ss_done (snd (session_enqueue message ss)) = ss_done ss"
      using store_ok_lookup [OF st(1) Some] by (simp_all add: session_enqueue_def)
    then show ?thesis
      using Some st by (simp add: enqueue_def split_beta link_inv_store_only inv store_ok_update sessions_ok_same)
  qed (simp add: enqueue_def inv)
qed

lemma dropped_inv: "link_inv l \<Longrightarrow> link_inv (l\<lparr>l_dropped := d\<rparr>)"
  by (simp add: link_inv_def)

lemma entropy_inv: "link_inv l \<Longrightarrow> link_inv (l\<lparr>l_entropy := d\<rparr>)"
  by (simp add: link_inv_def)

lemma enqueueEach_inv: "link_inv l \<Longrightarrow> link_inv (enqueueEach wants message table l)"
proof (induction table arbitrary: l)
  case (Cons kv rest)
  obtain svc h where kv: "kv = (svc, h)" by fastforce
  have e: "link_inv (snd (enqueue h message l))" by (rule enqueue_inv) (rule Cons.prems)
  then show ?case using Cons
    by (auto simp: kv Let_def split_beta dropped_inv split: option.split)
qed simp

lemma newID_inv: "link_inv l \<Longrightarrow> link_inv (snd (newPrivateControlID l))"
  by (simp add: newPrivateControlID_def entropy_inv split: option.split)

lemma lifecycle_inv: "link_inv l \<Longrightarrow> link_inv (publishLifecycleEvent ty c s v j st r now l)"
  using newID_inv [of l]
  by (cases "newPrivateControlID l")
    (simp add: publishLifecycleEvent_def newPrivateControlLifecycleEvent_def enqueueLifecycleEvent_def
      enqueueEach_inv split: option.split)

lemma audit_inv: "link_inv l \<Longrightarrow> link_inv (link_publishFloorInterruptAudit a now l)"
  using newID_inv [of l]
  by (cases "newPrivateControlID l")
    (simp add: link_publishFloorInterruptAudit_def enqueueAuditInput_def enqueueEach_inv split: option.split)

lemma close_live:
  "map_of st h = Some ss \<Longrightarrow>
   live_in (AList.update h (session_close ss) st) svc k \<longleftrightarrow> live_in st svc k \<and> k \<noteq> h"
  by (auto simp: live_in_update session_close_def)

lemma close_store:
  "store_ok st \<Longrightarrow> map_of st h = Some ss \<Longrightarrow> store_ok (AList.update h (session_close ss) st)"
  by (rule store_ok_update) (simp_all add: session_close_def store_ok_lookup)

text \<open>A new session is live and has an empty queue.\<close>

lemma addSession_inv:
  assumes inv: "link_inv l" and new: "\<not> ss_done ss" "ss_send ss = []"
  shows "link_inv (snd (addSession ss l))"
proof -
  let ?h = "length (l_store l)" and ?svc = "ss_serviceID ss"
  let ?st = "AList.update ?h ss (l_store l)" and ?tb = "AList.update ?svc ?h (l_sessions l)"
  have st: "store_ok (l_store l)" and se: "sessions_ok (l_store l) (l_sessions l)"
    using inv by (simp_all add: link_inv_def)
  have sto: "store_ok ?st" and fresh: "map_of (l_store l) ?h = None"
    using store_ok_fresh [OF st, of ss] new by simp_all
  have tab: "map_of (l_sessions l) v = Some k \<longleftrightarrow> live_in (l_store l) v k" for v k
    using se by (simp add: sessions_ok_def)
  have dead: "\<not> live_in (l_store l) v ?h" for v using fresh by (simp add: live_in_def)
  show ?thesis
  proof (cases "map_of (l_sessions l) ?svc")
    case None
    have "sessions_ok ?st ?tb"
      using se new None by (auto simp: sessions_ok_def live_in_update dead)
    with sto None show ?thesis by (simp add: addSession_def Let_def link_inv_store inv)
  next
    case (Some p)
    then have lp: "live_in (l_store l) ?svc p" by (simp add: tab)
    then obtain sp where sp: "map_of (l_store l) p = Some sp" by (auto simp: live_in_def)
    have ph: "p \<noteq> ?h" using sp fresh by auto
    have sp': "map_of ?st p = Some sp" using sp ph by simp
    have uniq: "live_in (l_store l) ?svc k \<Longrightarrow> k = p" for k using Some tab by (metis option.inject)
    have other: "live_in (l_store l) v p \<Longrightarrow> v = ?svc" for v using lp by (auto simp: live_in_def)
    have iff: "map_of ?tb v = Some k \<longleftrightarrow> live_in (AList.update p (session_close sp) ?st) v k" for v k
    proof (cases "v = ?svc")
      case True
      then show ?thesis unfolding close_live [OF sp'] live_in_update using new(1) uniq [of k] ph
        by (auto simp: session_close_def)
    next
      case False
      then have "live_in ?st v k \<longleftrightarrow> live_in (l_store l) v k" using dead by (auto simp: live_in_update)
      with False other [of v] show ?thesis unfolding close_live [OF sp'] by (auto simp: tab)
    qed
    have "sessions_ok (AList.update p (session_close sp) ?st) ?tb"
      unfolding sessions_ok_def using se iff by (simp add: sessions_ok_def)
    with close_store [OF sto sp'] Some sp' inv show ?thesis
      by (simp add: addSession_def Let_def onSession_def link_inv_def)
  qed
qed

lemma removeSession_inv:
  assumes inv: "link_inv l"
  shows "link_inv (removeSession h l)"
proof (cases "map_of (l_store l) h")
  case (Some ss)
  have st: "store_ok (l_store l)" and se: "sessions_ok (l_store l) (l_sessions l)"
    using inv by (simp_all add: link_inv_def)
  let ?st = "AList.update h (session_close ss) (l_store l)"
  have tab: "map_of (l_sessions l) v = Some k \<longleftrightarrow> live_in (l_store l) v k" for v k
    using se by (simp add: sessions_ok_def)
  have svc: "live_in (l_store l) v h \<Longrightarrow> v = ss_serviceID ss" for v using Some by (auto simp: live_in_def)
  show ?thesis
  proof (cases "map_of (l_sessions l) (ss_serviceID ss) = Some h")
    case True
    then have uniq: "live_in (l_store l) (ss_serviceID ss) k \<Longrightarrow> k = h" for k using tab by (metis option.inject)
    have "map_of (AList.delete (ss_serviceID ss) (l_sessions l)) v = Some k \<longleftrightarrow> live_in ?st v k" for v k
    proof (cases "v = ss_serviceID ss")
      case True
      with uniq show ?thesis unfolding close_live [OF Some] by auto
    next
      case False
      with svc have "live_in (l_store l) v k \<Longrightarrow> k \<noteq> h" by blast
      with False show ?thesis unfolding close_live [OF Some] by (simp add: tab) blast
    qed
    moreover have "gomap_wf (AList.delete (ss_serviceID ss) (l_sessions l))"
      using se by (simp add: sessions_ok_def)
    ultimately have "sessions_ok ?st (AList.delete (ss_serviceID ss) (l_sessions l))"
      unfolding sessions_ok_def by blast
    with close_store [OF st Some] True Some inv show ?thesis
      by (simp add: removeSession_def Let_def onSession_def link_inv_def)
  next
    case False
    then have "\<not> live_in (l_store l) v h" for v using svc tab by blast
    then have "sessions_ok ?st (l_sessions l)"
      unfolding sessions_ok_def close_live [OF Some] using se by (auto simp: sessions_ok_def)
    with close_store [OF st Some] False Some show ?thesis
      by (simp add: removeSession_def Let_def onSession_def link_inv_store_only inv)
  qed
qed (simp add: removeSession_def inv)

subsection \<open>Every interleaving\<close>

text \<open>
  One critical section of the link at the time \<open>now\<close>. A failure is recorded for the host or the
  network of a connection, which is not empty; a reading of the clock is not the zero time.
\<close>

inductive link_step :: "gotime \<Rightarrow> privateControlLink \<Rightarrow> privateControlLink \<Rightarrow> bool" for now where
  ls_begin: "beginRevocation svc mid h now l = (r, l') \<Longrightarrow> link_step now l l'"
| ls_record: "recordAck svc mid h ack now l = Some l' \<Longrightarrow> link_step now l l'"
| ls_publish: "publishAck svc mid h l = Some l' \<Longrightarrow> link_step now l l'"
| ls_abandon: "link_step now l (abandonRevocation svc mid h l)"
| ls_cleanup: "link_step now l (cleanupIdempotencyLocked now l)"
| ls_command: "acquireCommand l = (ok, l') \<Longrightarrow> link_step now l l'"
| ls_command_done: "releaseCommand l = Some l' \<Longrightarrow> link_step now l l'"
| ls_connection: "acquireConnection l = (ok, l') \<Longrightarrow> link_step now l l'"
| ls_connection_done: "releaseConnection l = Some l' \<Longrightarrow> link_step now l l'"
| ls_allow: "allowConnectionAttempt src now l = (ok, l') \<Longrightarrow> link_step now l l'"
| ls_failure: "src \<noteq> [] \<Longrightarrow> \<not> IsZero now \<Longrightarrow> link_step now l (recordConnectionFailure src now l)"
| ls_add: "\<not> ss_done ss \<Longrightarrow> ss_send ss = [] \<Longrightarrow> addSession ss l = (handle, l') \<Longrightarrow> link_step now l l'"
| ls_remove: "link_step now l (removeSession handle l)"
| ls_enqueue: "enqueue handle message l = (ok, l') \<Longrightarrow> link_step now l l'"
| ls_lifecycle: "link_step now l (publishLifecycleEvent ty c s v j st r now l)"
| ls_audit: "link_step now l (link_publishFloorInterruptAudit a now l)"
| ls_random: "newPrivateControlID l = (i, l') \<Longrightarrow> link_step now l l'"
| ls_server: "link_step now l (l\<lparr>l_server := s\<rparr>)"

lemma slots_inv:
  assumes "link_inv l"
  shows "acquireCommand l = (ok, l') \<Longrightarrow> link_inv l'" "releaseCommand l = Some l' \<Longrightarrow> link_inv l'"
    "acquireConnection l = (ok, l') \<Longrightarrow> link_inv l'" "releaseConnection l = Some l' \<Longrightarrow> link_inv l'"
  using assms
  by (auto simp: acquireCommand_def releaseCommand_def acquireConnection_def releaseConnection_def
      link_inv_def split: if_splits)

lemma link_step_inv: "link_step now l l' \<Longrightarrow> link_inv l \<Longrightarrow> link_inv l'"
proof (induction rule: link_step.induct)
  case ls_begin then show ?case by (rule begin_inv [rotated])
next
  case ls_record then show ?case by (rule recordAck_inv [rotated])
next
  case ls_publish then show ?case by (rule publishAck_inv [rotated])
next
  case ls_abandon then show ?case by (rule abandon_inv)
next
  case ls_cleanup then show ?case by (rule link_inv_cleanup)
next
  case ls_command then show ?case by (rule slots_inv(1) [rotated])
next
  case ls_command_done then show ?case by (rule slots_inv(2) [rotated])
next
  case ls_connection then show ?case by (rule slots_inv(3) [rotated])
next
  case ls_connection_done then show ?case by (rule slots_inv(4) [rotated])
next
  case (ls_allow src l ok l') then show ?case using allow_inv [of l src now] by simp
next
  case ls_failure then show ?case by (intro failure_inv)
next
  case (ls_add ss l handle l') then show ?case using addSession_inv [of l ss] by simp
next
  case ls_remove then show ?case by (rule removeSession_inv)
next
  case (ls_enqueue handle message l ok l') then show ?case using enqueue_inv [of l handle message] by simp
next
  case ls_lifecycle then show ?case by (rule lifecycle_inv)
next
  case ls_audit then show ?case by (rule audit_inv)
next
  case (ls_random l i l') then show ?case using newID_inv [of l] by simp
next
  case ls_server then show ?case by (simp add: link_inv_def)
qed

definition link_any :: "privateControlLink \<Rightarrow> privateControlLink \<Rightarrow> bool" where
  "link_any l l' \<longleftrightarrow> (\<exists>now. link_step now l l')"

interpretation link: invariant_machine link_any link_inv
  by unfold_locales (auto simp: link_any_def link_step_inv)

lemma new_link_inv: "newPrivateControlLink server policy relayID stateFile entropy = Some l \<Longrightarrow> link_inv l"
  by (auto simp: newPrivateControlLink_def link_inv_def idem_ok_def failures_ok_def store_ok_def
      sessions_ok_def live_in_def split: if_splits)

text \<open>What the invariant says of the tables and of two handles of one service.\<close>

lemma live_unique:
  assumes "sessions_ok st table" "live_in st svc h" "live_in st svc k"
  shows "h = k"
  using assms unfolding sessions_ok_def by (metis option.inject)

subsection \<open>The status of commands\<close>

text \<open>
  The abstract table: a command is fresh, running under the digest of its body, or done with an
  acknowledgement that is kept until its expiry.
\<close>

datatype status = Fresh | Running bytes | Done bytes privateControlAck gotime

type_synonym commandTable = "privateControlIdempotencyKey \<Rightarrow> status"

inductive command_step :: "gotime \<Rightarrow> commandTable \<Rightarrow> commandTable \<Rightarrow> bool" for now where
  cs_expire: "(\<And>k. g k = f k \<or> (\<exists>h a e. f k = Done h a e \<and> e \<le> now \<and> g k = Fresh)) \<Longrightarrow> command_step now f g"
| cs_start: "f k = Fresh \<Longrightarrow> command_step now f (f(k := Running h))"
| cs_finish: "f k = Running h \<Longrightarrow> ack_Outcome a = ''applied'' \<longrightarrow> time_Unix (ack_DenyUntil a) \<le> e \<Longrightarrow>
    command_step now f (f(k := Done h a e))"
| cs_give_up: "f k = Running h \<Longrightarrow> command_step now f (f(k := Fresh))"

definition entry_status :: "privateControlIdempotencyEntry \<Rightarrow> status" where
  "entry_status e =
     (case ie_ack e of
        None \<Rightarrow> Running (ie_bodyHash e)
      | Some a \<Rightarrow> if ie_completed e then Done (ie_bodyHash e) a (ie_expiresAt e) else Running (ie_bodyHash e))"

definition commands :: "privateControlLink \<Rightarrow> commandTable" where
  "commands l = (\<lambda>k. case map_of (l_idempotency l) k of None \<Rightarrow> Fresh | Some e \<Rightarrow> entry_status e)"

text \<open>
  The interface of a refinement: every step of the detailed machine is matched by steps of the abstract
  one. A run of the one is then a run of the other, and what the abstract runs keep, the detailed runs keep.
\<close>

locale simulation =
  fixes cstep :: "'t \<Rightarrow> 'c \<Rightarrow> 'c \<Rightarrow> bool" and astep :: "'t \<Rightarrow> 'a \<Rightarrow> 'a \<Rightarrow> bool"
    and inv :: "'c \<Rightarrow> bool" and abs :: "'c \<Rightarrow> 'a"
  assumes step_inv: "cstep t c d \<Longrightarrow> inv c \<Longrightarrow> inv d"
    and step_sim: "cstep t c d \<Longrightarrow> inv c \<Longrightarrow> steps (astep t) (abs c) (abs d)"
begin

lemma run_inv: "steps (\<lambda>c d. \<exists>t\<in>T. cstep t c d) c d \<Longrightarrow> inv c \<Longrightarrow> inv d"
  by (induction rule: steps.induct) (auto intro: step_inv)

lemma run_keeps:
  assumes "steps (\<lambda>c d. \<exists>t\<in>T. cstep t c d) c d" "inv c" "P (abs c)"
    and "\<And>t a b. t \<in> T \<Longrightarrow> P a \<Longrightarrow> astep t a b \<Longrightarrow> P b"
  shows "P (abs d)"
  using assms(1-3)
proof (induction rule: steps.induct)
  case (steps_step c d e)
  then obtain t where t: "t \<in> T" "cstep t d e" by blast
  have "steps (astep t) (abs d) (abs e)" using step_sim [OF t(2)] run_inv [OF steps_step.hyps(1)] steps_step.prems(1) by blast
  moreover have "P (abs d)" using steps_step by blast
  ultimately show ?case by (induction rule: steps.induct) (auto intro: assms(4) [OF t(1)])
qed

lemma run_sim:
  assumes "steps (\<lambda>c d. \<exists>t\<in>T. cstep t c d) c d" "inv c"
  shows "steps (\<lambda>a b. \<exists>t\<in>T. astep t a b) (abs c) (abs d)"
proof -
  let ?P = "\<lambda>b. steps (\<lambda>a b. \<exists>t\<in>T. astep t a b) (abs c) b"
  have "?P (abs c)" by (rule steps_refl)
  then show ?thesis
  proof (rule run_keeps [OF assms])
    fix t a b
    assume "t \<in> T" "?P a" "astep t a b"
    then show "?P b" by (blast intro: steps_step)
  qed
qed

end

lemma commands_frame: "l_idempotency l' = l_idempotency l \<Longrightarrow> commands l' = commands l"
  by (simp add: commands_def)

lemma commands_update:
  "commands (l\<lparr>l_idempotency := AList.update k e (l_idempotency l)\<rparr>) = (commands l)(k := entry_status e)"
  by (simp add: commands_def fun_eq_iff)

lemma commands_delete:
  "commands (l\<lparr>l_idempotency := AList.delete k (l_idempotency l)\<rparr>) = (commands l)(k := Fresh)"
  by (simp add: commands_def fun_eq_iff)

lemma commands_of: "map_of (l_idempotency l) k = Some e \<Longrightarrow> commands l k = entry_status e"
  by (simp add: commands_def)

lemma commands_cleanup:
  assumes "link_inv l"
  shows "commands (cleanupIdempotencyLocked now l) k =
    (case commands l k of Done h a e \<Rightarrow> if e \<le> now then Fresh else Done h a e | st \<Rightarrow> st)"
proof -
  have wf: "gomap_wf (l_idempotency l)" using assms by (simp add: link_inv_def idem_ok_def)
  show ?thesis
    by (auto simp: commands_def cleanupIdempotencyLocked_def map_of_prune [OF wf] entry_status_def
        split: option.splits)
qed

lemma cleanup_sim: "link_inv l \<Longrightarrow> command_step now (commands l) (commands (cleanupIdempotencyLocked now l))"
proof (rule cs_expire)
  fix k assume "link_inv l"
  then show "commands (cleanupIdempotencyLocked now l) k = commands l k \<or>
      (\<exists>h a e. commands l k = Done h a e \<and> e \<le> now \<and> commands (cleanupIdempotencyLocked now l) k = Fresh)"
    by (simp add: commands_cleanup split: status.split)
qed

lemma running_entry: "\<not> ie_completed e \<Longrightarrow> entry_status e = Running (ie_bodyHash e)"
  by (simp add: entry_status_def split: option.split)

text \<open>The operations that leave the table of commands alone.\<close>

lemma enqueue_idem [simp]: "l_idempotency (snd (enqueue h m l)) = l_idempotency l"
  by (simp add: enqueue_def split_beta split: option.split)

lemma enqueueEach_idem [simp]: "l_idempotency (enqueueEach wants m table l) = l_idempotency l"
proof (induction table arbitrary: l)
  case (Cons kv rest)
  then show ?case by (cases kv) (simp add: Let_def split_beta split: option.split)
qed simp

lemma newID_idem [simp]: "l_idempotency (snd (newPrivateControlID l)) = l_idempotency l"
  by (simp add: newPrivateControlID_def split: option.split)

lemma onSession_idem [simp]: "l_idempotency (onSession h f l) = l_idempotency l"
  by (simp add: onSession_def split: option.split)

lemma addSession_idem [simp]: "l_idempotency (snd (addSession ss l)) = l_idempotency l"
  by (simp add: addSession_def Let_def split: option.split)

lemma removeSession_idem [simp]: "l_idempotency (removeSession h l) = l_idempotency l"
  by (simp add: removeSession_def Let_def split: option.split)

lemma lifecycle_idem [simp]:
  "l_idempotency (publishLifecycleEvent ty c s v j st r now l) = l_idempotency l"
proof -
  obtain i l1 where i: "newPrivateControlID l = (i, l1)" by fastforce
  have "l_idempotency l1 = l_idempotency l" using newID_idem [of l] by (simp add: i)
  then show ?thesis
    by (cases i) (simp_all add: publishLifecycleEvent_def newPrivateControlLifecycleEvent_def
        enqueueLifecycleEvent_def i)
qed

lemma audit_idem [simp]: "l_idempotency (link_publishFloorInterruptAudit a now l) = l_idempotency l"
proof -
  obtain i l1 where i: "newPrivateControlID l = (i, l1)" by fastforce
  have l1: "l_idempotency l1 = l_idempotency l" using newID_idem [of l] by (simp add: i)
  show ?thesis unfolding link_publishFloorInterruptAudit_def i prod.case enqueueAuditInput_def
    by (cases i) (simp_all only: option.case if_distrib [of l_idempotency] enqueueEach_idem l1 if_cancel)
qed

lemma slot_ops_idem [simp]:
  "l_idempotency (snd (acquireCommand l)) = l_idempotency l"
  "l_idempotency (snd (acquireConnection l)) = l_idempotency l"
  by (simp_all add: acquireCommand_def acquireConnection_def)

lemma release_idem:
  "releaseCommand l = Some l' \<Longrightarrow> l_idempotency l' = l_idempotency l"
  "releaseConnection l = Some l' \<Longrightarrow> l_idempotency l' = l_idempotency l"
  by (auto simp: releaseCommand_def releaseConnection_def split: if_splits)

lemma same_table: "l_idempotency l' = l_idempotency l \<Longrightarrow> steps (command_step now) (commands l) (commands l')"
  using commands_frame [of l' l] by (simp add: steps_refl)

lemma link_step_table:
  assumes "link_step now l l'" "link_inv l"
  shows "steps (command_step now) (commands l) (commands l')"
  using assms
proof (induction rule: link_step.induct)
  case (ls_begin svc mid h l r l')
  let ?l = "cleanupIdempotencyLocked now l" and ?k = "\<lparr>ik_serviceID = svc, ik_messageID = mid\<rparr>"
  have c: "steps (command_step now) (commands l) (commands ?l)"
    by (rule steps_single) (rule cleanup_sim [OF ls_begin.prems])
  have "commands l' = commands ?l \<or> commands ?l ?k = Fresh \<and> commands l' = (commands ?l)(?k := Running h)"
    using ls_begin.hyps
    by (auto simp: beginRevocation_def Let_def commands_update running_entry commands_def
        split: option.splits if_splits)
  then show ?case
  proof
    assume n: "commands ?l ?k = Fresh \<and> commands l' = (commands ?l)(?k := Running h)"
    then have "command_step now (commands ?l) (commands l')" by (simp add: cs_start del: fun_upd_apply)
    then show ?thesis by (rule steps_step [OF c])
  qed (simp add: c)
next
  case (ls_record svc mid h ack l l')
  from ls_record.hyps have "commands l' = commands l"
    by (rule recordAck_SomeE) (auto simp: commands_update commands_of running_entry fun_eq_iff)
  then show ?case by (simp add: steps_refl)
next
  case (ls_publish svc mid h l l')
  from ls_publish.hyps show ?case
  proof (rule publishAck_SomeE)
    let ?k = "\<lparr>ik_serviceID = svc, ik_messageID = mid\<rparr>"
    fix e ack
    assume e: "map_of (l_idempotency l) ?k = Some e" "ie_bodyHash e = h" "\<not> ie_completed e" "ie_ack e = Some ack"
      and l': "l' = l\<lparr>l_idempotency := AList.update ?k (e\<lparr>ie_completed := True, ie_done := True\<rparr>) (l_idempotency l)\<rparr>"
    have "entry_ok e" by (rule idem_ok_lookup [OF _ e(1)]) (use ls_publish.prems in \<open>simp add: link_inv_def\<close>)
    then have "ack_Outcome ack = ''applied'' \<longrightarrow> time_Unix (ack_DenyUntil ack) \<le> ie_expiresAt e"
      using e(4) by (simp add: entry_ok_def)
    then have "command_step now (commands l) ((commands l)(?k := Done h ack (ie_expiresAt e)))"
      by (intro cs_finish) (use e in \<open>simp_all add: commands_of running_entry\<close>)
    moreover have "commands l' = (commands l)(?k := Done h ack (ie_expiresAt e))"
      unfolding l' commands_update using e by (simp add: entry_status_def)
    ultimately have "command_step now (commands l) (commands l')" by (simp only:)
    then show ?thesis by (intro steps_single)
  qed
next
  case (ls_abandon l svc mid h)
  show ?case
  proof (cases rule: abandon_cases [of svc mid h l])
    case (gone e)
    then have "command_step now (commands l) ((commands l)(\<lparr>ik_serviceID = svc, ik_messageID = mid\<rparr> := Fresh))"
      by (intro cs_give_up [where h = h]) (simp add: commands_of running_entry)
    then show ?thesis unfolding gone(4) commands_delete by (intro steps_single)
  qed (simp add: steps_refl)
next
  case (ls_cleanup l)
  then show ?case by (intro steps_single cleanup_sim)
next
  case (ls_allow src l ok l')
  then have "l' = cleanupIdempotencyLocked now l"
    by (auto simp: allowConnectionAttempt_def Let_def split: option.splits if_splits)
  with ls_allow.prems show ?case by (simp add: steps_single cleanup_sim)
next
  case (ls_failure src l)
  have "l_idempotency (recordConnectionFailure src now l) = l_idempotency (cleanupIdempotencyLocked now l)"
    by (simp add: recordConnectionFailure_def Let_def split_beta)
  from commands_frame [OF this] ls_failure.prems show ?case by (simp add: steps_single cleanup_sim)
next
  case (ls_add ss l handle l')
  then show ?case using addSession_idem [of ss l] by (simp add: same_table)
next
  case (ls_enqueue handle message l ok l')
  then show ?case using enqueue_idem [of handle message l] by (simp add: same_table)
next
  case (ls_random l i l')
  then show ?case using newID_idem [of l] by (simp add: same_table)
next
  case (ls_command l ok l')
  then show ?case using slot_ops_idem(1) [of l] by (simp add: same_table)
next
  case (ls_connection l ok l')
  then show ?case using slot_ops_idem(2) [of l] by (simp add: same_table)
qed (simp_all add: same_table release_idem)

interpretation commands: simulation link_step command_step link_inv commands
  by unfold_locales (rule link_step_inv, assumption+, rule link_step_table)

subsection \<open>Properties\<close>

text \<open>What a command is told, given its status after the expired answers are gone.\<close>

definition answer :: "status \<Rightarrow> bool \<Rightarrow> bytes \<Rightarrow> beginResult" where
  "answer st full h =
     (case st of
        Fresh \<Rightarrow> if full then Overloaded else Execute
      | Running g \<Rightarrow> if g = h then Pending else Conflict
      | Done g a e \<Rightarrow> if g = h then Cached a else Conflict)"

definition expired :: "gotime \<Rightarrow> status \<Rightarrow> status" where
  "expired now st = (case st of Done h a e \<Rightarrow> if e \<le> now then Fresh else st | _ \<Rightarrow> st)"

lemma begin_answer:
  assumes "link_inv l"
  shows "fst (beginRevocation svc mid h now l) =
    answer (expired now (commands l \<lparr>ik_serviceID = svc, ik_messageID = mid\<rparr>))
      (privateControlMaxIdempotency \<le> length (l_idempotency (cleanupIdempotencyLocked now l))) h"
proof -
  let ?l = "cleanupIdempotencyLocked now l" and ?k = "\<lparr>ik_serviceID = svc, ik_messageID = mid\<rparr>"
  have e: "expired now (commands l ?k) = commands ?l ?k"
    unfolding commands_cleanup [OF assms] expired_def by (simp split: status.split)
  show ?thesis unfolding e
    by (cases "map_of (l_idempotency ?l) ?k")
      (auto simp: beginRevocation_def Let_def commands_def entry_status_def answer_def split: option.splits)
qed

definition demoPolicy :: privateControlPolicy where
  "demoPolicy = \<lparr>pol_byCertificate = [(''c0ffee'', ''mgmt-1'')], pol_byUID = []\<rparr>"

definition demoLink :: privateControlLink where
  "demoLink = \<lparr>l_server = Some recorderRelay, l_relayID = ''relay-1'', l_policy = demoPolicy, l_store = [],
     l_sessions = [], l_dropped = 0, l_failures = [], l_idempotency = [], l_stateFile = ''state.json'',
     l_commandSlots = 0, l_connections = 0, l_entropy = map of_nat [0..<64]\<rparr>"

lemma demoLink_new:
  "newPrivateControlLink (Some recorderRelay) demoPolicy ''relay-1'' ''state.json'' (map of_nat [0..<64]) = Some demoLink"
proof -
  have "\<not> blankText ''relay-1''" by (simp add: blankText_def bytes_of_def wideSpaces_def upt_rec)
  then show ?thesis by (simp add: demoLink_def newPrivateControlLink_def demoPolicy_def)
qed

lemma demoLink_inv: "link_inv demoLink"
  by (rule new_link_inv [OF demoLink_new])

lemma demoLink_simps [simp]:
  "l_idempotency demoLink = []" "l_failures demoLink = []" "l_store demoLink = []" "l_sessions demoLink = []"
  "l_server demoLink = Some recorderRelay" "l_commandSlots demoLink = 0" "l_connections demoLink = 0"
  by (simp_all add: demoLink_def)



text \<open>
  C10. The idempotency table implements the abstract map from commands to their status: every run of
  the link is a run of the map, in which a command goes from fresh to running, from running to done or
  back, and from done to fresh only once its answer has expired; the answer to an applied revocation
  does not expire before the denial ends. What \<^verbatim>\<open>beginRevocation\<close> tells a caller is what the map says.
\<close>

theorem idempotency_refines:
  assumes inv: "link_inv l" and run: "steps (\<lambda>l l'. \<exists>t\<in>T. link_step t l l') l l'"
  shows "steps (\<lambda>f g. \<exists>t\<in>T. command_step t f g) (commands l) (commands l') \<and>
    fst (beginRevocation svc mid h now l') =
      answer (expired now (commands l' \<lparr>ik_serviceID = svc, ik_messageID = mid\<rparr>))
        (1024 \<le> length (l_idempotency (cleanupIdempotencyLocked now l'))) h"
  using commands.run_sim [OF run inv] begin_answer [OF commands.run_inv [OF run inv]] by blast

theorem idempotency_refines_witness:
  "fst (beginRevocation ''mgmt-1'' ''AAAAAAAAAAAAAAAAAAAAAA'' [] (time_Unix 1000) demoLink) = Execute"
  using idempotency_refines [OF demoLink_inv steps_refl, where T = UNIV and svc = "''mgmt-1''" and
      mid = "''AAAAAAAAAAAAAAAAAAAAAA''" and h = "[]" and now = "time_Unix 1000"]
  by (simp add: commands_def expired_def answer_def cleanupIdempotencyLocked_def prune_def)

text \<open>
  An answer that was released is final: until it expires, whatever the link does, a duplicate of
  the command is given the same acknowledgement and is never executed again, and another command under
  the same identifier is refused as a conflict.
\<close>

theorem revocation_answer_stable:
  assumes inv: "link_inv l"
    and finished: "commands l \<lparr>ik_serviceID = svc, ik_messageID = mid\<rparr> = Done h ack e"
    and run: "steps (\<lambda>l l'. \<exists>t\<in>{..<e}. link_step t l l') l l'" and now: "now < e"
  shows "fst (beginRevocation svc mid g now l') = (if g = h then Cached ack else Conflict)"
proof -
  let ?k = "\<lparr>ik_serviceID = svc, ik_messageID = mid\<rparr>"
  have "commands l' ?k = Done h ack e"
  proof (rule commands.run_keeps [OF run inv, where P = "\<lambda>f. f ?k = Done h ack e"])
    fix t :: gotime and f f'
    assume t: "t \<in> {..<e}" and f: "f ?k = Done h ack e" and "command_step t f f'"
    from this(3) show "f' ?k = Done h ack e"
    proof cases
      case cs_expire
      from this [of ?k] t f show ?thesis by auto
    qed (use f in auto)
  qed (rule finished)
  then show ?thesis
    using begin_answer [OF commands.run_inv [OF run inv], of svc mid g now] now
    by (simp add: answer_def expired_def)
qed

definition demoAck :: privateControlAck where
  "demoAck = \<lparr>ack_SchemaVersion = privateControlSchemaVersion, ack_Type = ''ack'',
     ack_MessageID = ''AQEBAQEBAQEBAQEBAQEBAQ'', ack_InReplyTo = ''AAAAAAAAAAAAAAAAAAAAAA'',
     ack_Outcome = ''applied'', ack_DenyUntil = 3000, ack_AffectedMembershipCount = 1, ack_TalkReleaseCount = 0\<rparr>"

definition demoAnswered :: privateControlLink where
  "demoAnswered = demoLink\<lparr>l_idempotency :=
     [(\<lparr>ik_serviceID = ''mgmt-1'', ik_messageID = ''AAAAAAAAAAAAAAAAAAAAAA''\<rparr>,
       \<lparr>ie_bodyHash = [1], ie_ack = Some demoAck, ie_done = True, ie_expiresAt = time_Unix 3000,
        ie_completed = True\<rparr>)]\<rparr>"

lemma demoAnswered_inv: "link_inv demoAnswered"
  unfolding demoAnswered_def
  by (rule link_inv_idem [OF demoLink_inv]) (simp add: idem_ok_def entry_ok_def demoAck_def)

theorem revocation_answer_stable_witness:
  "fst (beginRevocation ''mgmt-1'' ''AAAAAAAAAAAAAAAAAAAAAA'' [1] (time_Unix 2000)
     (cleanupIdempotencyLocked (time_Unix 1500) demoAnswered)) = Cached demoAck"
proof -
  have run: "steps (\<lambda>l l'. \<exists>t\<in>{..<time_Unix 3000}. link_step t l l') demoAnswered
      (cleanupIdempotencyLocked (time_Unix 1500) demoAnswered)"
    by (rule steps_single) (auto intro!: bexI [of _ "time_Unix 1500"] ls_cleanup simp: time_Unix_def Second_def)
  have "commands demoAnswered \<lparr>ik_serviceID = ''mgmt-1'', ik_messageID = ''AAAAAAAAAAAAAAAAAAAAAA''\<rparr> =
      Done [1] demoAck (time_Unix 3000)"
    by (simp add: commands_def demoAnswered_def entry_status_def)
  from revocation_answer_stable [OF demoAnswered_inv this run, of "time_Unix 2000" "[1]"]
  show ?thesis by (simp add: time_Unix_def Second_def)
qed

subsection \<open>The throttle\<close>

lemma window_Sub:
  "privateControlFailureWindow \<le> time_Sub t u \<longleftrightarrow> privateControlFailureWindow \<le> t - u"
  "privateControlFailureWindow < time_Sub t u \<longleftrightarrow> privateControlFailureWindow < t - u"
  by (auto simp: time_Sub_def privateControlFailureWindow_def Second_def)

definition failuresAt :: "string \<Rightarrow> gotime list \<Rightarrow> privateControlLink \<Rightarrow> privateControlLink" where
  "failuresAt src ts l = foldl (\<lambda>l t. recordConnectionFailure src t l) l ts"

lemma failuresAt_snoc: "failuresAt src (ts @ [t]) l = recordConnectionFailure src t (failuresAt src ts l)"
  by (simp add: failuresAt_def)

lemma cleanup_keeps_failure:
  assumes "failures_ok (l_failures l)" "map_of (l_failures l) src = Some f" "now - fs_lastSeen f \<le> privateControlFailureWindow"
  shows "map_of (l_failures (cleanupIdempotencyLocked now l)) src = Some f"
proof -
  have "gomap_wf (l_failures l)" using assms(1) by (simp add: failures_ok_def)
  then show ?thesis using assms(2,3) by (simp add: cleanupIdempotencyLocked_def map_of_prune window_Sub)
qed

lemma failure_next:
  assumes ok: "failures_ok (l_failures l)" and f: "map_of (l_failures l) src = Some f"
    and t: "fs_windowStarted f \<le> fs_lastSeen f" "t - fs_windowStarted f < privateControlFailureWindow"
  shows "map_of (l_failures (recordConnectionFailure src t l)) src =
    Some (f\<lparr>fs_count := if fs_count f < 255 then fs_count f + 1 else fs_count f, fs_lastSeen := t\<rparr>)"
proof -
  have c: "map_of (l_failures (cleanupIdempotencyLocked t l)) src = Some f"
    using t by (intro cleanup_keeps_failure [OF ok f]) simp
  show ?thesis
    using ok
  proof (cases rule: recordConnectionFailure_cases [where now = t and src = src])
    case window
    from window(1) [OF c] t(2) show ?thesis by (simp add: window_Sub)
  next
    case (running g)
    with c show ?thesis by simp
  qed
qed

lemma count_next: "(if of_nat (min 255 n) < (255 :: u8) then of_nat (min 255 n) + 1 else of_nat (min 255 n)) =
    (of_nat (min 255 (Suc n)) :: u8)"
proof (cases "n < 255")
  case True
  then have "of_nat n < (255 :: u8)" "min 255 n = n" "min 255 (Suc n) = Suc n"
    by (simp_all add: word_less_nat_alt unat_of_nat)
  then show ?thesis by simp
qed (simp add: min_def)

lemma sorted_hd_last: "sorted ts \<Longrightarrow> ts \<noteq> [] \<Longrightarrow> hd ts \<le> last ts"
  by (cases ts) auto

lemma failuresAt_record:
  assumes ok: "link_inv l" and src: "src \<noteq> []" and new: "map_of (l_failures l) src = None"
    and ts: "ts \<noteq> []" "sorted ts" "0 \<notin> set ts" "last ts - hd ts < privateControlFailureWindow"
  shows "link_inv (failuresAt src ts l) \<and> map_of (l_failures (failuresAt src ts l)) src =
    Some \<lparr>fs_windowStarted = hd ts, fs_count = of_nat (min 255 (length ts)), fs_lastSeen = last ts\<rparr>"
  using ts
proof (induction ts rule: rev_induct)
  case (snoc t ts)
  have nz: "\<not> IsZero t" using snoc.prems by (simp add: IsZero_def)
  show ?case
  proof (cases "ts = []")
    case True
    have f: "failures_ok (l_failures l)" "gomap_wf (l_failures l)" using ok by (simp_all add: link_inv_def failures_ok_def)
    then have none: "map_of (l_failures (cleanupIdempotencyLocked t l)) src = None"
      using new by (simp add: cleanupIdempotencyLocked_def map_of_prune)
    have "map_of (l_failures (recordConnectionFailure src t l)) src =
        Some \<lparr>fs_windowStarted = t, fs_count = 1, fs_lastSeen = t\<rparr>"
      using f(1) by (cases rule: recordConnectionFailure_cases [where now = t and src = src]) (simp_all add: none)
    with True failure_inv [OF ok src nz] show ?thesis by (simp add: failuresAt_def)
  next
    case False
    have le: "last ts \<le> t" "hd ts \<le> last ts"
      using snoc.prems(2) False by (auto simp: sorted_append sorted_hd_last)
    have "last ts - hd ts < privateControlFailureWindow" using snoc.prems(4) False le by simp
    with snoc False have IH: "link_inv (failuresAt src ts l)" "map_of (l_failures (failuresAt src ts l)) src =
        Some \<lparr>fs_windowStarted = hd ts, fs_count = of_nat (min 255 (length ts)), fs_lastSeen = last ts\<rparr>"
      by (auto simp: sorted_append)
    have "failures_ok (l_failures (failuresAt src ts l))" using IH(1) by (simp add: link_inv_def)
    from failure_next [OF this IH(2), of t]
    have "map_of (l_failures (recordConnectionFailure src t (failuresAt src ts l))) src =
        Some \<lparr>fs_windowStarted = hd ts, fs_count = of_nat (min 255 (Suc (length ts))), fs_lastSeen = t\<rparr>"
      unfolding count_next [symmetric] using le snoc.prems(4) False by (simp cong: if_cong)
    with failure_inv [OF IH(1) src nz] False show ?thesis unfolding failuresAt_snoc by simp
  qed
qed simp

text \<open>
  The throttle counts exactly: a source with no record that fails at the times \<open>ts\<close>, all within one
  minute of the first, may connect again as long as it failed fewer than eight times or a minute has
  passed since the first failure, and not otherwise. Counting saturates, so more failures never let it in.
\<close>

theorem throttle_exact:
  assumes ok: "link_inv l" and src: "src \<noteq> []" and new: "map_of (l_failures l) src = None"
    and ts: "ts \<noteq> []" "sorted ts" "0 \<notin> set ts" "last ts - hd ts < 60 * Second" and now: "last ts \<le> now"
  shows "fst (allowConnectionAttempt src now (failuresAt src ts l)) \<longleftrightarrow>
    length ts < 8 \<or> 60 * Second \<le> now - hd ts"
proof -
  let ?l = "failuresAt src ts l"
  have w: "privateControlFailureWindow = 60 * Second" by (simp add: privateControlFailureWindow_def)
  have inv: "link_inv ?l" and f: "map_of (l_failures ?l) src =
      Some \<lparr>fs_windowStarted = hd ts, fs_count = of_nat (min 255 (length ts)), fs_lastSeen = last ts\<rparr>" (is "_ = Some ?f")
    using failuresAt_record [OF ok src new] ts by (simp_all add: w)
  have fok: "failures_ok (l_failures ?l)" using inv by (simp add: link_inv_def)
  have le: "hd ts \<le> last ts" using ts(1,2) by (simp add: sorted_hd_last)
  have "(of_nat (min 255 (length ts)) :: u8) < 8 \<longleftrightarrow> length ts < 8"
    by (simp add: word_less_nat_alt unat_of_nat) linarith
  moreover have "map_of (l_failures (cleanupIdempotencyLocked now ?l)) src = Some ?f" if "now - hd ts < 60 * Second"
    using that le by (intro cleanup_keeps_failure [OF fok f]) (simp add: w)
  moreover have "map_of (l_failures (cleanupIdempotencyLocked now ?l)) src \<in> {None, Some ?f}"
    using f fok by (simp add: cleanupIdempotencyLocked_def map_of_prune failures_ok_def)
  ultimately show ?thesis
    by (cases "now - hd ts < 60 * Second") (auto simp: allowConnectionAttempt_def Let_def window_Sub [unfolded w] w)
qed

theorem throttle_exact_witness:
  "\<not> fst (allowConnectionAttempt ''192.0.2.7'' (time_Unix 1030)
       (failuresAt ''192.0.2.7'' (map (\<lambda>i. time_Unix (1000 + int i)) [0..<8]) demoLink))"
  using throttle_exact [OF demoLink_inv, of "''192.0.2.7''" "map (\<lambda>i. time_Unix (1000 + int i)) [0..<8]" "time_Unix 1030"]
  by (simp add: upt_rec time_Unix_def Second_def unixEpoch_def)

end
