(* ===== verification/Private_State.thy ===== *)
theory Private_State
  imports Private_Link_Safety
begin

text \<open>
  The durable state of the private control link (private_control_state.go): deny rules and answered
  commands, written by replacing the state file and read back at start-up. The file system is a map
  from paths to contents; which of its calls fail is a parameter, and the states a crash could leave
  behind are recorded. The encoding of the state by \<^verbatim>\<open>encoding/json\<close> is a parameter.
\<close>

subsection \<open>Records\<close>

definition privateControlStateSchemaVersion :: string where
  "privateControlStateSchemaVersion = ''private-control-link-state-v1''"

record privateControlPersistentRule =
  pru_ChannelID :: u32
  pru_ServiceID :: string
  pru_GrantIDHash :: string
  pru_DenyUntil :: int

record privateControlPersistentIdempotency =
  pid_ManagementServiceID :: string
  pid_MessageID :: string
  pid_BodySHA256 :: string
  pid_Ack :: privateControlAck
  pid_ExpiresAt :: int

record privateControlPersistentState =
  pst_SchemaVersion :: string
  pst_Rules :: "privateControlPersistentRule list"
  pst_Idempotency :: "privateControlPersistentIdempotency list"

definition validPrivateControlAck :: "privateControlAck \<Rightarrow> bool" where
  "validPrivateControlAck ack \<longleftrightarrow>
     ack_SchemaVersion ack = privateControlSchemaVersion \<and> ack_Type ack = ''ack'' \<and>
     validPrivateControlID (ack_MessageID ack) \<and> validPrivateControlID (ack_InReplyTo ack) \<and>
     (ack_Outcome ack = ''applied'' \<or> ack_Outcome ack = ''already_expired'') \<and>
     1 \<le> ack_DenyUntil ack \<and> ack_DenyUntil ack \<le> privateControlMaxJSONInteger \<and>
     (ack_Outcome ack \<noteq> ''already_expired'' \<or> ack_AffectedMembershipCount ack = 0 \<and> ack_TalkReleaseCount ack = 0)"

definition persistentRuleTarget :: "privateControlPersistentRule \<Rightarrow> serviceAdmissionRevocationTarget option" where
  "persistentRuleTarget rule =
     (if pru_DenyUntil rule < 1 \<or> privateControlMaxJSONInteger < pru_DenyUntil rule \<or>
         pru_ServiceID rule \<noteq> [] \<and> \<not> managedServiceIDMatch (pru_ServiceID rule)
      then None
      else case decodePrivateControlGrantIDHash (pru_GrantIDHash rule) of
        Inl _ \<Rightarrow> None
      | Inr grantIDHash \<Rightarrow>
          if pru_ServiceID rule = [] \<and> grantIDHash = None then None
          else Some \<lparr>rt_channelID = pru_ChannelID rule, rt_serviceID = pru_ServiceID rule,
                     rt_grantIDHash = grantIDHash\<rparr>)"

definition privateControlPersistentRuleFromEntry :: "serviceAdmissionDenyRuleEntry \<Rightarrow> privateControlPersistentRule" where
  "privateControlPersistentRuleFromEntry entry =
     \<lparr>pru_ChannelID = dn_channelID (de_rule entry), pru_ServiceID = dn_serviceID (de_rule entry),
      pru_GrantIDHash = (if dn_hasGrantIDHash (de_rule entry) then b64Encode (dn_grantIDHash (de_rule entry)) else []),
      pru_DenyUntil = Unix_of (de_expiresAt entry)\<rparr>"

definition decodePersistentBodyHash :: "string \<Rightarrow> bytes option" where
  "decodePersistentBodyHash value =
     (case b64Decode value of
        None \<Rightarrow> None
      | Some decoded \<Rightarrow> if length decoded \<noteq> 32 \<or> b64Encode decoded \<noteq> value then None else Some decoded)"

subsection \<open>The state file\<close>

text \<open>
  The calls that may fail, and the file system as the contents of its files. A failing write may leave
  any prefix behind.
\<close>

datatype fileCall = MkdirAll | CreateTemp | Chmod | Write | Sync | Close | Rename | SyncDirectory

type_synonym files = "(string, bytes) gomap"

record fileFaults =
  ff_fails :: "fileCall \<Rightarrow> bool"
  ff_partial :: nat
  ff_temporary :: string

text \<open>
  The result, the files at the end, and the files after each call in between. The removal of the
  temporary file is deferred to every return after its creation; after the rename it finds nothing.
\<close>

definition writePrivateControlPersistentState ::
  "fileFaults \<Rightarrow> string \<Rightarrow> bytes option \<Rightarrow> files \<Rightarrow> bool \<times> files \<times> files list" where
  "writePrivateControlPersistentState io path encoded fs =
     (let tmp = ff_temporary io; fails = ff_fails io in
      if blankText path then (False, fs, [])
      else case encoded of
        None \<Rightarrow> (False, fs, [])
      | Some data \<Rightarrow>
          if fails MkdirAll then (False, fs, [])
          else if fails CreateTemp then (False, fs, [])
          else let
            fs1 = AList.update tmp [] fs;
            fs2 = AList.update tmp (if fails Write then take (ff_partial io) data else data) fs1;
            fs3 = AList.delete tmp (AList.update path data fs2)
          in if fails Chmod then (False, AList.delete tmp fs1, [fs1])
             else if fails Write \<or> fails Sync \<or> fails Close \<or> fails Rename
             then (False, AList.delete tmp fs2, [fs1, fs2])
             else (\<not> fails SyncDirectory, fs3, [fs1, fs2, fs3]))"

text \<open>The decoder gives the state and whether the input ends after it.\<close>

datatype loadError = FileNotDecoded | TrailingValues | UnsupportedVersion | FileNotRead

definition loadPrivateControlPersistentState ::
  "(bytes \<Rightarrow> (privateControlPersistentState \<times> bool) option) \<Rightarrow> bool \<Rightarrow> string \<Rightarrow> files \<Rightarrow>
   loadError + privateControlPersistentState" where
  "loadPrivateControlPersistentState decode readable path fs =
     (case map_of fs path of
        None \<Rightarrow> Inr \<lparr>pst_SchemaVersion = privateControlStateSchemaVersion, pst_Rules = [], pst_Idempotency = []\<rparr>
      | Some data \<Rightarrow>
          if \<not> readable then Inl FileNotRead
          else (case decode data of
              None \<Rightarrow> Inl FileNotDecoded
            | Some (state, atEnd) \<Rightarrow>
                if \<not> atEnd then Inl TrailingValues
                else if pst_SchemaVersion state \<noteq> privateControlStateSchemaVersion then Inl UnsupportedVersion
                else Inr state))"

subsection \<open>Saving\<close>

definition persistentIdempotency ::
  "gotime \<Rightarrow> (privateControlIdempotencyKey \<times> privateControlIdempotencyEntry) \<Rightarrow> privateControlPersistentIdempotency list" where
  "persistentIdempotency now kv =
     (case kv of (key, entry) \<Rightarrow>
        (case ie_ack entry of
           None \<Rightarrow> []
         | Some ack \<Rightarrow>
             if \<not> now < ie_expiresAt entry then []
             else [\<lparr>pid_ManagementServiceID = ik_serviceID key, pid_MessageID = ik_messageID key,
                    pid_BodySHA256 = b64Encode (ie_bodyHash entry), pid_Ack = ack,
                    pid_ExpiresAt = Unix_of (ie_expiresAt entry)\<rparr>]))"

definition persistentStateSnapshot ::
  "gotime \<Rightarrow> privateControlLink \<Rightarrow> privateControlPersistentState option \<times> privateControlLink" where
  "persistentStateSnapshot now l =
     (case l_server l of
        None \<Rightarrow> (None, l)
      | Some s \<Rightarrow>
          if s_serviceAdmission s = None then (None, l)
          else let
            (active, sv) = activeDenyRules (s_serviceAdmission s) now;
            l1 = cleanupIdempotencyLocked now (l\<lparr>l_server := Some (s\<lparr>s_serviceAdmission := sv\<rparr>)\<rparr>)
          in (Some \<lparr>pst_SchemaVersion = privateControlStateSchemaVersion,
                    pst_Rules = map privateControlPersistentRuleFromEntry active,
                    pst_Idempotency = concat (map (persistentIdempotency now) (l_idempotency l1))\<rparr>, l1))"

definition persistState ::
  "(privateControlPersistentState \<Rightarrow> bytes option) \<Rightarrow> fileFaults \<Rightarrow> gotime \<Rightarrow> privateControlLink \<Rightarrow> files \<Rightarrow>
   bool \<times> privateControlLink \<times> files \<times> files list" where
  "persistState encode io now l fs =
     (case persistentStateSnapshot now l of
        (None, l1) \<Rightarrow> (False, l1, fs, [])
      | (Some state, l1) \<Rightarrow>
          (case writePrivateControlPersistentState io (l_stateFile l1) (encode state) fs of
             (ok, fs', between) \<Rightarrow> (ok, l1, fs', between)))"

text \<open>The whole of \<^verbatim>\<open>completeRevocation\<close>.\<close>

definition completeRevocation ::
  "(privateControlPersistentState \<Rightarrow> bytes option) \<Rightarrow> fileFaults \<Rightarrow> string \<Rightarrow> string \<Rightarrow> bytes \<Rightarrow>
   privateControlAck \<Rightarrow> gotime \<Rightarrow> privateControlLink \<Rightarrow> files \<Rightarrow> bool \<times> privateControlLink \<times> files" where
  "completeRevocation encode io serviceID messageID bodyHash ack now l fs =
     (case recordAck serviceID messageID bodyHash ack now l of
        None \<Rightarrow> (False, l, fs)
      | Some l1 \<Rightarrow>
          (case persistState encode io now l1 fs of
             (ok, l2, fs', between) \<Rightarrow>
               if \<not> ok then (False, abandonRevocation serviceID messageID bodyHash l2, fs')
               else (case publishAck serviceID messageID bodyHash l2 of
                   None \<Rightarrow> (False, l2, fs')
                 | Some l3 \<Rightarrow> (True, l3, fs'))))"

subsection \<open>Restoring\<close>

datatype restoreError =
    NoStateFile | NotLoaded loadError | NeedsServiceAdmission | InvalidRule | RuleNotInstalled
  | InvalidEntry | InvalidDigest | DuplicateEntry

fun restoreRules ::
  "gotime \<Rightarrow> privateControlPersistentRule list \<Rightarrow> serviceAdmissionState option \<Rightarrow>
   restoreError + serviceAdmissionState option" where
  "restoreRules now [] sv = Inr sv"
| "restoreRules now (rule # rest) sv =
     (case persistentRuleTarget rule of
        None \<Rightarrow> Inl InvalidRule
      | Some target \<Rightarrow>
          let denyUntil = time_Unix (pru_DenyUntil rule) in
          if \<not> now < denyUntil then restoreRules now rest sv
          else (case installRevocation sv target denyUntil now of
              (False, sv') \<Rightarrow> Inl RuleNotInstalled
            | (True, sv') \<Rightarrow> restoreRules now rest sv'))"

fun restoreIdempotency ::
  "gotime \<Rightarrow> privateControlPersistentIdempotency list \<Rightarrow>
   (privateControlIdempotencyKey, privateControlIdempotencyEntry) gomap \<Rightarrow>
   restoreError + (privateControlIdempotencyKey, privateControlIdempotencyEntry) gomap" where
  "restoreIdempotency now [] table = Inr table"
| "restoreIdempotency now (persisted # rest) table =
     (if \<not> managedServiceIDMatch (pid_ManagementServiceID persisted) \<or> \<not> validPrivateControlID (pid_MessageID persisted) \<or>
         \<not> validPrivateControlAck (pid_Ack persisted) \<or> ack_InReplyTo (pid_Ack persisted) \<noteq> pid_MessageID persisted \<or>
         pid_ExpiresAt persisted \<le> Unix_of now
      then Inl InvalidEntry
      else case decodePersistentBodyHash (pid_BodySHA256 persisted) of
        None \<Rightarrow> Inl InvalidDigest
      | Some bodyHash \<Rightarrow>
          let key = \<lparr>ik_serviceID = pid_ManagementServiceID persisted, ik_messageID = pid_MessageID persisted\<rparr> in
          if map_of table key \<noteq> None then Inl DuplicateEntry
          else restoreIdempotency now rest (AList.update key
                 \<lparr>ie_bodyHash = bodyHash, ie_ack = Some (pid_Ack persisted), ie_done = True,
                  ie_expiresAt = time_Unix (pid_ExpiresAt persisted), ie_completed = True\<rparr> table))"

definition restorePersistentState ::
  "(bytes \<Rightarrow> (privateControlPersistentState \<times> bool) option) \<Rightarrow> bool \<Rightarrow> gotime \<Rightarrow> files \<Rightarrow> privateControlLink \<Rightarrow>
   restoreError + privateControlLink" where
  "restorePersistentState decode readable now fs l =
     (if blankText (l_stateFile l) then Inl NoStateFile
      else case loadPrivateControlPersistentState decode readable (l_stateFile l) fs of
        Inl err \<Rightarrow> Inl (NotLoaded err)
      | Inr state \<Rightarrow>
          let admission = (case l_server l of None \<Rightarrow> None | Some s \<Rightarrow> s_serviceAdmission s) in
          if pst_Rules state \<noteq> [] \<and> admission = None then Inl NeedsServiceAdmission
          else (case restoreRules now (pst_Rules state) admission of
              Inl err \<Rightarrow> Inl err
            | Inr sv \<Rightarrow>
                (case restoreIdempotency now (pst_Idempotency state) (l_idempotency l) of
                   Inl err \<Rightarrow> Inl err
                 | Inr table \<Rightarrow>
                     Inr (l\<lparr>l_server := map_option (\<lambda>s. s\<lparr>s_serviceAdmission := sv\<rparr>) (l_server l),
                            l_idempotency := table\<rparr>))))"

end
