(* ===== verification/Private_Durability.thy ===== *)
theory Private_Durability
  imports Private_State
begin

text \<open>
  What the state file guarantees: it is replaced as a whole, an answer is durable before a duplicate can
  see it, and a restart finds every deny rule and every answer again.
\<close>

subsection \<open>Replacing the file\<close>

text \<open>\<^verbatim>\<open>os.CreateTemp\<close> creates a new file.\<close>

definition newFile :: "string \<Rightarrow> string \<Rightarrow> files \<Rightarrow> bool" where
  "newFile tmp path fs \<longleftrightarrow> tmp \<noteq> path \<and> map_of fs tmp = None"

lemma write_path:
  assumes "newFile (ff_temporary io) path fs"
    and "writePrivateControlPersistentState io path (Some data) fs = (ok, fs', between)"
    and "f \<in> set (fs' # between)"
  shows "map_of f path \<in> {map_of fs path, Some data}"
    and "q \<noteq> path \<Longrightarrow> q \<noteq> ff_temporary io \<Longrightarrow> map_of f q = map_of fs q"
  using assms by (auto simp: writePrivateControlPersistentState_def newFile_def Let_def split: if_splits)

lemma write_end:
  assumes "newFile (ff_temporary io) path fs"
    and "writePrivateControlPersistentState io path (Some data) fs = (ok, fs', between)"
  shows "map_of fs' (ff_temporary io) = None" "ok \<Longrightarrow> map_of fs' path = Some data"
  using assms by (auto simp: writePrivateControlPersistentState_def newFile_def Let_def split: if_splits)


definition demoFaults :: "fileCall \<Rightarrow> fileFaults" where
  "demoFaults bad = \<lparr>ff_fails = (\<lambda>c. c = bad), ff_partial = 1, ff_temporary = ''tmp''\<rparr>"

definition goodFiles :: fileFaults where
  "goodFiles = \<lparr>ff_fails = (\<lambda>c. False), ff_partial = 0, ff_temporary = ''tmp''\<rparr>"

lemma demo_not_blank: "\<not> blankText ''state.json''"
  by (simp add: blankText_def bytes_of_def wideSpaces_def upt_rec)


subsection \<open>Completing a revocation\<close>

text \<open>The entry of a running command survives the clean-up.\<close>

lemma running_kept:
  assumes "link_inv l" "map_of (l_idempotency l) k = Some e" "\<not> ie_completed e"
  shows "map_of (l_idempotency (cleanupIdempotencyLocked now l)) k = Some e"
proof -
  have "gomap_wf (l_idempotency l)" using assms(1) by (simp add: link_inv_def idem_ok_def)
  with assms(2,3) show ?thesis by (simp add: cleanupIdempotencyLocked_def map_of_prune)
qed

lemma snapshot_cases:
  assumes "persistentStateSnapshot now l = (st, l1)"
  obtains "l1 = l" "st = None"
  | s where "l1 = cleanupIdempotencyLocked now (l\<lparr>l_server := Some s\<rparr>)"
  using assms by (auto simp: persistentStateSnapshot_def Let_def split: option.splits if_splits prod.splits)

lemma snapshot_link:
  assumes s: "persistentStateSnapshot now l = (st, l1)" and inv: "link_inv l"
  shows "link_inv l1 \<and> l_stateFile l1 = l_stateFile l \<and>
    (map_of (l_idempotency l) k = Some e \<longrightarrow> \<not> ie_completed e \<longrightarrow> map_of (l_idempotency l1) k = Some e)"
  using s
proof (cases rule: snapshot_cases)
  case (2 sv)
  have i: "link_inv (l\<lparr>l_server := Some sv\<rparr>)" using inv by (simp add: link_inv_def)
  have "l_stateFile l1 = l_stateFile l" by (simp add: 2 cleanupIdempotencyLocked_def)
  with link_inv_cleanup [OF i, of now] running_kept [OF i, of k e now] show ?thesis by (simp add: 2)
qed (simp add: inv)

lemma persisted_entry:
  assumes s: "persistentStateSnapshot now l = (Some st, l1)" and inv: "link_inv l"
    and e: "map_of (l_idempotency l) k = Some e" "\<not> ie_completed e" "ie_ack e = Some ack" "now < ie_expiresAt e"
  shows "\<lparr>pid_ManagementServiceID = ik_serviceID k, pid_MessageID = ik_messageID k,
     pid_BodySHA256 = b64Encode (ie_bodyHash e), pid_Ack = ack, pid_ExpiresAt = Unix_of (ie_expiresAt e)\<rparr>
    \<in> set (pst_Idempotency st)"
proof -
  have "map_of (l_idempotency l1) k = Some e" using snapshot_link [OF s inv, of k e] e by blast
  then have "(k, e) \<in> set (l_idempotency l1)" by (rule map_of_SomeD)
  moreover have "pst_Idempotency st = concat (map (persistentIdempotency now) (l_idempotency l1))"
    using s by (auto simp: persistentStateSnapshot_def Let_def split: option.splits if_splits prod.splits)
  ultimately show ?thesis using e(3,4) by (force simp: persistentIdempotency_def)
qed

text \<open>
  Completing a revocation ends in one of two ways. Either it succeeds, the command is done with the
  acknowledgement given, kept for at least twenty minutes and for as long as the denial of an applied
  revocation, and the state file holds a state in which that acknowledgement is recorded; or it
  fails and the command is fresh, so that a duplicate may execute it. A duplicate never sees an
  answer that is not durable.
\<close>

lemma completion_durable:
  assumes inv: "link_inv l" and new: "newFile (ff_temporary io) (l_stateFile l) fs"
    and entry: "map_of (l_idempotency l) \<lparr>ik_serviceID = svc, ik_messageID = mid\<rparr> = Some e"
      "ie_bodyHash e = h" "\<not> ie_completed e"
    and run: "completeRevocation encode io svc mid h ack now l fs = (ok, l', fs')"
  shows "link_inv l' \<and>
    (if ok then \<exists>expiry st data. commands l' \<lparr>ik_serviceID = svc, ik_messageID = mid\<rparr> = Done h ack expiry \<and>
         now + 1200 * Second \<le> expiry \<and> (ack_Outcome ack = ''applied'' \<longrightarrow> time_Unix (ack_DenyUntil ack) \<le> expiry) \<and>
         map_of fs' (l_stateFile l) = Some data \<and> encode st = Some data \<and>
         \<lparr>pid_ManagementServiceID = svc, pid_MessageID = mid, pid_BodySHA256 = b64Encode h, pid_Ack = ack,
          pid_ExpiresAt = Unix_of expiry\<rparr> \<in> set (pst_Idempotency st)
     else commands l' \<lparr>ik_serviceID = svc, ik_messageID = mid\<rparr> = Fresh)"
proof -
  let ?k = "\<lparr>ik_serviceID = svc, ik_messageID = mid\<rparr>"
  define x where "x = privateControlIdempotencyExpiry ack (now + privateControlIdempotencyTTL)"
  define e1 where "e1 = e\<lparr>ie_ack := Some ack, ie_expiresAt := x\<rparr>"
  define l1 where "l1 = l\<lparr>l_idempotency := AList.update ?k e1 (l_idempotency l)\<rparr>"
  have r: "recordAck svc mid h ack now l = Some l1"
    using entry by (simp add: recordAck_def l1_def e1_def x_def)
  have inv1: "link_inv l1" by (rule recordAck_inv [OF inv r])
  have e1: "map_of (l_idempotency l1) ?k = Some e1" "\<not> ie_completed e1" "ie_ack e1 = Some ack" "ie_bodyHash e1 = h"
      "ie_expiresAt e1 = x"
    using entry by (simp_all add: l1_def e1_def)
  have x: "now + 1200 * Second \<le> x" "ack_Outcome ack = ''applied'' \<longrightarrow> time_Unix (ack_DenyUntil ack) \<le> x" "now < x"
    using expiry_after [of "now + privateControlIdempotencyTTL" ack] expiry_covers_denial [of ack]
    by (simp_all add: x_def privateControlIdempotencyTTL_def Second_def)
  obtain st l2 where s: "persistentStateSnapshot now l1 = (st, l2)" by fastforce
  have inv2: "link_inv l2" and path: "l_stateFile l2 = l_stateFile l"
    and e2: "map_of (l_idempotency l2) ?k = Some e1"
    using snapshot_link [OF s inv1, of ?k e1] e1 by (auto simp: l1_def)
  have gone: "abandonRevocation svc mid h l2 = l2\<lparr>l_idempotency := AList.delete ?k (l_idempotency l2)\<rparr>"
    using e2 e1 by (simp add: abandonRevocation_def)
  obtain ok' l2' fs1 bt where p: "persistState encode io now l1 fs = (ok', l2', fs1, bt)" by (metis surj_pair)
  have l2': "l2' = l2" using p s by (auto simp: persistState_def split: option.splits prod.splits)
  show ?thesis
  proof (cases ok')
    case False
    then have "\<not> ok" "l' = abandonRevocation svc mid h l2"
      using run by (simp_all add: completeRevocation_def r p l2')
    moreover have "commands (abandonRevocation svc mid h l2) ?k = Fresh" unfolding gone by (simp add: commands_delete)
    ultimately show ?thesis using abandon_inv [OF inv2, of svc mid h] by simp
  next
    case True
    then obtain st' data where st: "st = Some st'" "encode st' = Some data"
      using p s by (auto simp: persistState_def writePrivateControlPersistentState_def Let_def
          split: option.splits if_splits prod.splits)
    have w: "writePrivateControlPersistentState io (l_stateFile l) (Some data) fs = (True, fs1, bt)"
      using p s st True path by (auto simp: persistState_def split: prod.splits)
    let ?e = "e1\<lparr>ie_completed := True, ie_done := True\<rparr>"
    let ?l = "l2\<lparr>l_idempotency := AList.update ?k ?e (l_idempotency l2)\<rparr>"
    have pub: "publishAck svc mid h l2 = Some ?l" using e2 e1 by (simp add: publishAck_def)
    have fin: "ok" "l' = ?l" "fs' = fs1" using run True by (simp_all add: completeRevocation_def r p l2' pub)
    have "commands l' ?k = Done h ack x" unfolding fin(2) commands_update using e1 by (simp add: entry_status_def)
    moreover have "link_inv l'" unfolding fin(2) by (rule publishAck_inv [OF inv2 pub])
    moreover have "map_of fs' (l_stateFile l) = Some data" using write_end(2) [OF new w] fin(3) by simp
    moreover have "\<lparr>pid_ManagementServiceID = svc, pid_MessageID = mid, pid_BodySHA256 = b64Encode h, pid_Ack = ack,
        pid_ExpiresAt = Unix_of x\<rparr> \<in> set (pst_Idempotency st')"
      using persisted_entry [OF s [unfolded st(1)] inv1 e1(1-3)] x(3) e1 by simp
    ultimately show ?thesis using fin(1) st(2) x(1,2) by auto
  qed
qed

end
