(* ===== verification/Private_Restart.thy ===== *)
theory Private_Restart
  imports Private_Durability
begin

text \<open>
  Saving and restoring (private_control_state.go): a restart before any answer expires finds every deny
  rule that is still in force and every acknowledged command, and nothing else. After an answer has
  expired, the same file is refused.
\<close>

subsection \<open>Deny rules\<close>

text \<open>A rule as a valid revocation command installs it, until a full second.\<close>

definition target_ok :: "serviceAdmissionRevocationTarget \<Rightarrow> bool" where
  "target_ok t \<longleftrightarrow> (rt_serviceID t = [] \<or> managedServiceIDMatch (rt_serviceID t)) \<and>
     (case rt_grantIDHash t of None \<Rightarrow> rt_serviceID t \<noteq> [] | Some h \<Rightarrow> length h = 32)"

definition rule_ok :: "serviceAdmissionDenyRule \<Rightarrow> gotime \<Rightarrow> bool" where
  "rule_ok rule e \<longleftrightarrow>
     (\<exists>t sec. target_ok t \<and> rule = target_denyRule t \<and> e = time_Unix sec \<and> 1 \<le> sec \<and> sec \<le> privateControlMaxJSONInteger)"

lemma grantIDHash_roundtrip:
  "length h = 32 \<Longrightarrow> decodePrivateControlGrantIDHash (b64Encode h) = Inr (Some h)"
  using length_b64Encode [of h] by (auto simp: decodePrivateControlGrantIDHash_def b64Decode_Encode)

lemma rule_roundtrip:
  assumes "target_ok t" "1 \<le> sec" "sec \<le> privateControlMaxJSONInteger"
  shows "persistentRuleTarget (privateControlPersistentRuleFromEntry
      \<lparr>de_rule = target_denyRule t, de_expiresAt = time_Unix sec\<rparr>) = Some t"
proof (cases "rt_grantIDHash t")
  case None
  with assms show ?thesis
    by (auto simp: persistentRuleTarget_def privateControlPersistentRuleFromEntry_def target_denyRule_def target_ok_def
        decodePrivateControlGrantIDHash_def Let_def not_less)
next
  case (Some h)
  with assms have "length h = 32" by (simp add: target_ok_def)
  with Some assms show ?thesis
    by (auto simp: persistentRuleTarget_def privateControlPersistentRuleFromEntry_def target_denyRule_def target_ok_def
        grantIDHash_roundtrip Let_def not_less)
qed

lemma prune_all: "\<forall>kv\<in>set m. keep (snd kv) \<Longrightarrow> prune keep m = m"
  by (auto simp: prune_def intro!: filter_True)

lemma install_fresh:
  assumes "\<forall>kv\<in>set (sas_denied a). now < snd kv" "map_of (sas_denied a) (target_denyRule t) = None"
    and "length (sas_denied a) < 1024" "now < until" "target_ok t"
  shows "\<exists>b. installRevocation (Some a) t until now = (True, Some b) \<and>
    sas_denied b = AList.update (target_denyRule t) until (sas_denied a)"
proof -
  have "sas_denied (service_cleanupLocked now a) = sas_denied a"
    using assms(1) by (simp add: cleanup_tables(4) prune_all)
  moreover have "\<not> (rt_serviceID t = [] \<and> rt_grantIDHash t = None)"
    using assms(5) by (auto simp: target_ok_def split: option.splits)
  ultimately show ?thesis using assms(2-4) by (simp add: installRevocation_def Let_def)
qed

definition in_force :: "gotime \<Rightarrow> gotime option \<Rightarrow> gotime option" where
  "in_force now e = (case e of None \<Rightarrow> None | Some t \<Rightarrow> if now < t then Some t else None)"

lemma restoreRules_all:
  assumes "gomap_wf es" "\<forall>(r, e)\<in>set es. rule_ok r e" "gomap_wf (sas_denied a)"
    and "\<forall>kv\<in>set (sas_denied a). now < snd kv" "fst ` set es \<inter> fst ` set (sas_denied a) = {}"
    and "length (sas_denied a) + length es \<le> 1024"
  shows "\<exists>b. restoreRules now (map (\<lambda>(r, e). privateControlPersistentRuleFromEntry \<lparr>de_rule = r, de_expiresAt = e\<rparr>) es)
      (Some a) = Inr (Some b) \<and>
    (\<forall>r. map_of (sas_denied b) r = (case map_of (sas_denied a) r of Some e \<Rightarrow> Some e | None \<Rightarrow> in_force now (map_of es r)))"
  using assms
proof (induction es arbitrary: a)
  case Nil
  then show ?case by (auto simp: in_force_def split: option.split)
next
  case (Cons re es)
  obtain r e where re: "re = (r, e)" by fastforce
  then obtain t sec where t: "target_ok t" "r = target_denyRule t" "e = time_Unix sec" "1 \<le> sec"
      "sec \<le> privateControlMaxJSONInteger"
    using Cons.prems(2) by (auto simp: rule_ok_def)
  have rule: "persistentRuleTarget (privateControlPersistentRuleFromEntry \<lparr>de_rule = r, de_expiresAt = e\<rparr>) = Some t"
    using rule_roundtrip [OF t(1,4,5)] by (simp add: t(2,3))
  have until: "time_Unix (pru_DenyUntil (privateControlPersistentRuleFromEntry \<lparr>de_rule = r, de_expiresAt = e\<rparr>)) = e"
    by (simp add: privateControlPersistentRuleFromEntry_def t(3))
  have fresh: "map_of (sas_denied a) r = None" using Cons.prems(5) by (auto simp: re map_of_eq_None_iff)
  have rest: "map_of es r = None" using Cons.prems(1) by (simp add: re map_of_eq_None_iff)
  show ?case
  proof (cases "now < e")
    case True
    obtain b where b: "installRevocation (Some a) t e now = (True, Some b)" "sas_denied b = AList.update r e (sas_denied a)"
      using install_fresh [of a now t e] Cons.prems(4,6) fresh True t(1,2) by auto
    have keys: "fst ` set (sas_denied b) = insert r (fst ` set (sas_denied a))"
      unfolding b(2) by (simp add: dom_update flip: dom_map_of_conv_image_fst)
    have "\<exists>c. restoreRules now (map (\<lambda>(r, e). privateControlPersistentRuleFromEntry \<lparr>de_rule = r, de_expiresAt = e\<rparr>) es)
        (Some b) = Inr (Some c) \<and>
      (\<forall>q. map_of (sas_denied c) q = (case map_of (sas_denied b) q of Some e \<Rightarrow> Some e | None \<Rightarrow> in_force now (map_of es q)))"
    proof (rule Cons.IH)
      show "\<forall>kv\<in>set (sas_denied b). now < snd kv"
        using Cons.prems(3,4) True by (auto simp: b(2) set_update_wf)
      show "fst ` set es \<inter> fst ` set (sas_denied b) = {}"
        using Cons.prems(1,5) unfolding keys by (auto simp: re)
      show "length (sas_denied b) + length es \<le> 1024"
        using Cons.prems(6) length_update_le [of r e "sas_denied a"] by (simp add: b(2))
    qed (use Cons.prems in \<open>auto simp: re b(2)\<close>)
    then obtain c where c: "restoreRules now (map (\<lambda>(r, e). privateControlPersistentRuleFromEntry \<lparr>de_rule = r, de_expiresAt = e\<rparr>) es)
        (Some b) = Inr (Some c)"
      "\<And>q. map_of (sas_denied c) q = (case map_of (sas_denied b) q of Some e \<Rightarrow> Some e | None \<Rightarrow> in_force now (map_of es q))"
      by blast
    have "map_of (sas_denied c) q =
        (case map_of (sas_denied a) q of Some e \<Rightarrow> Some e | None \<Rightarrow> in_force now (map_of (re # es) q))" for q
      unfolding c(2) b(2) using fresh True by (simp add: re in_force_def split: option.split)
    with c(1) show ?thesis by (simp add: re rule until True b(1))
  next
    case False
    have "map_of (re # es) q = (if q = r then Some e else map_of es q)" for q by (simp add: re)
    with False rest have eq: "in_force now (map_of (re # es) q) = in_force now (map_of es q)" for q
      by (simp add: in_force_def)
    have "\<exists>b. restoreRules now (map (\<lambda>(r, e). privateControlPersistentRuleFromEntry \<lparr>de_rule = r, de_expiresAt = e\<rparr>) es)
        (Some a) = Inr (Some b) \<and>
      (\<forall>q. map_of (sas_denied b) q = (case map_of (sas_denied a) q of Some e \<Rightarrow> Some e | None \<Rightarrow> in_force now (map_of es q)))"
      by (rule Cons.IH) (use Cons.prems in \<open>auto simp: re\<close>)
    then show ?thesis unfolding eq using False by (simp add: re rule until)
  qed
qed

subsection \<open>Answers\<close>

definition entry_durable :: "privateControlIdempotencyKey \<Rightarrow> privateControlIdempotencyEntry \<Rightarrow> bool" where
  "entry_durable k e \<longleftrightarrow> managedServiceIDMatch (ik_serviceID k) \<and> validPrivateControlID (ik_messageID k) \<and>
     length (ie_bodyHash e) = 32 \<and>
     (case ie_ack e of None \<Rightarrow> True | Some a \<Rightarrow> validPrivateControlAck a \<and> ack_InReplyTo a = ik_messageID k)"

definition answered :: "privateControlIdempotencyEntry option \<Rightarrow> privateControlIdempotencyEntry option" where
  "answered e = (case e of None \<Rightarrow> None | Some x \<Rightarrow>
     (case ie_ack x of None \<Rightarrow> None
      | Some a \<Rightarrow> Some \<lparr>ie_bodyHash = ie_bodyHash x, ie_ack = Some a, ie_done = True,
          ie_expiresAt = time_Unix (Unix_of (ie_expiresAt x)), ie_completed = True\<rparr>))"

lemma bodyHash_roundtrip: "length h = 32 \<Longrightarrow> decodePersistentBodyHash (b64Encode h) = Some h"
  by (simp add: decodePersistentBodyHash_def b64Decode_Encode)

lemma restoreIdempotency_all:
  assumes "gomap_wf m" "\<forall>(k, e)\<in>set m. entry_durable k e"
    and "\<forall>(k, e)\<in>set m. ie_ack e \<noteq> None \<longrightarrow> now < ie_expiresAt e \<and> Unix_of later < Unix_of (ie_expiresAt e)"
    and "fst ` set m \<inter> fst ` set table = {}"
  shows "\<exists>table'. restoreIdempotency later (concat (map (persistentIdempotency now) m)) table = Inr table' \<and>
    (\<forall>k. map_of table' k = (case map_of table k of Some e \<Rightarrow> Some e | None \<Rightarrow> answered (map_of m k)))"
  using assms
proof (induction m arbitrary: table)
  case Nil
  then show ?case by (simp add: answered_def split: option.split)
next
  case (Cons ke m)
  obtain k e where ke: "ke = (k, e)" by fastforce
  have rest: "map_of m k = None" and free: "map_of table k = None"
    using Cons.prems(1,4) by (auto simp: ke map_of_eq_None_iff)
  show ?case
  proof (cases "ie_ack e")
    case None
    have eq: "answered (map_of (ke # m) q) = answered (map_of m q)" for q
      using None rest by (cases "q = k") (simp_all add: ke answered_def)
    have "persistentIdempotency now ke = []" using None by (simp add: ke persistentIdempotency_def)
    moreover have "\<exists>table'. restoreIdempotency later (concat (map (persistentIdempotency now) m)) table = Inr table' \<and>
      (\<forall>q. map_of table' q = (case map_of table q of Some e \<Rightarrow> Some e | None \<Rightarrow> answered (map_of m q)))"
      by (rule Cons.IH) (use Cons.prems in \<open>auto simp: ke\<close>)
    ultimately show ?thesis unfolding eq by simp
  next
    case (Some a)
    have e: "entry_durable k e" "now < ie_expiresAt e" "Unix_of later < Unix_of (ie_expiresAt e)"
      using Cons.prems(2,3) Some by (auto simp: ke)
    let ?x = "\<lparr>ie_bodyHash = ie_bodyHash e, ie_ack = Some a, ie_done = True,
        ie_expiresAt = time_Unix (Unix_of (ie_expiresAt e)), ie_completed = True\<rparr>"
    let ?t = "AList.update k ?x table"
    have key: "\<lparr>ik_serviceID = ik_serviceID k, ik_messageID = ik_messageID k\<rparr> = k" by (cases k) simp
    have keys: "fst ` set ?t = insert k (fst ` set table)" by (simp add: dom_update flip: dom_map_of_conv_image_fst)
    have "\<exists>table'. restoreIdempotency later (concat (map (persistentIdempotency now) m)) ?t = Inr table' \<and>
      (\<forall>q. map_of table' q = (case map_of ?t q of Some e \<Rightarrow> Some e | None \<Rightarrow> answered (map_of m q)))"
      by (rule Cons.IH) (use Cons.prems in \<open>auto simp: ke keys\<close>)
    then obtain table' where t: "restoreIdempotency later (concat (map (persistentIdempotency now) m)) ?t = Inr table'"
      "\<And>q. map_of table' q = (case map_of ?t q of Some e \<Rightarrow> Some e | None \<Rightarrow> answered (map_of m q))" by blast
    have "map_of table' q = (case map_of table q of Some e \<Rightarrow> Some e | None \<Rightarrow> answered (map_of (ke # m) q))" for q
      unfolding t(2) using Some free by (simp add: ke answered_def split: option.split)
    moreover have "restoreIdempotency later (concat (map (persistentIdempotency now) (ke # m))) table =
        restoreIdempotency later (concat (map (persistentIdempotency now) m)) ?t"
      using Some e free bodyHash_roundtrip [of "ie_bodyHash e"]
      by (simp add: ke persistentIdempotency_def entry_durable_def key)
    ultimately show ?thesis using t(1) by auto
  qed
qed

subsection \<open>Restart\<close>

definition denied :: "privateControlLink \<Rightarrow> serviceAdmissionDenyRule \<Rightarrow> gotime option" where
  "denied l rule = (case l_server l of None \<Rightarrow> None | Some s \<Rightarrow>
     (case s_serviceAdmission s of None \<Rightarrow> None | Some a \<Rightarrow> map_of (sas_denied a) rule))"

text \<open>What a link has to be like for its state to be saved in full.\<close>

definition savable :: "gotime \<Rightarrow> gotime \<Rightarrow> privateControlLink \<Rightarrow> bool" where
  "savable now later l \<longleftrightarrow> link_inv l \<and>
     (\<exists>s a. l_server l = Some s \<and> s_serviceAdmission s = Some a \<and> gomap_wf (sas_denied a) \<and>
        length (sas_denied a) \<le> 1024 \<and> (\<forall>(r, e)\<in>set (sas_denied a). rule_ok r e)) \<and>
     (\<forall>(k, e)\<in>set (l_idempotency l). entry_durable k e \<and>
        (ie_ack e \<noteq> None \<longrightarrow> now < ie_expiresAt e \<and> Unix_of later < Unix_of (ie_expiresAt e)))"

text \<open>A fresh link on a Relay whose deny table is empty.\<close>

definition fresh_link :: "string \<Rightarrow> privateControlLink \<Rightarrow> bool" where
  "fresh_link path l \<longleftrightarrow> l_idempotency l = [] \<and> l_stateFile l = path \<and> \<not> blankText path \<and>
     (\<exists>s a. l_server l = Some s \<and> s_serviceAdmission s = Some a \<and> sas_denied a = [])"

lemma new_link_fresh:
  assumes "newPrivateControlLink (Some s) policy relayID path entropy = Some l" "\<not> blankText path"
    and "s_serviceAdmission s = Some a" "sas_denied a = []"
  shows "fresh_link path l"
  using assms by (auto simp: newPrivateControlLink_def fresh_link_def split: if_splits)

lemma saved_state:
  assumes "l_server l = Some s" "s_serviceAdmission s = Some a"
  shows "fst (persistentStateSnapshot now l) = Some \<lparr>pst_SchemaVersion = privateControlStateSchemaVersion,
    pst_Rules = map (\<lambda>(r, e). privateControlPersistentRuleFromEntry \<lparr>de_rule = r, de_expiresAt = e\<rparr>)
      (prune (\<lambda>e. now < e) (sas_denied a)),
    pst_Idempotency = concat (map (persistentIdempotency now) (l_idempotency (cleanupIdempotencyLocked now l)))\<rparr>"
proof -
  have "l_idempotency (cleanupIdempotencyLocked now (l\<lparr>l_server := x\<rparr>)) =
      l_idempotency (cleanupIdempotencyLocked now l)" for x by (simp add: cleanupIdempotencyLocked_def)
  moreover have "map (privateControlPersistentRuleFromEntry \<circ> (\<lambda>(rule, expiresAt). \<lparr>de_rule = rule, de_expiresAt = expiresAt\<rparr>)) m =
      map (\<lambda>(r, e). privateControlPersistentRuleFromEntry \<lparr>de_rule = r, de_expiresAt = e\<rparr>) m" for m
    by (simp add: split_beta comp_def)
  ultimately show ?thesis
    using assms cleanup_tables(4) [of now a] by (simp add: persistentStateSnapshot_def activeDenyRules_def Let_def)
qed

text \<open>Before any answer expires, the clean-up of a savable link removes none.\<close>

lemma savable_cleanup:
  assumes "savable now later l"
  shows "l_idempotency (cleanupIdempotencyLocked now l) = l_idempotency l"
  using assms unfolding cleanupIdempotencyLocked_def savable_def by (auto intro!: prune_all)

lemma in_force_prune:
  assumes "gomap_wf m" "now \<le> later"
  shows "in_force later (map_of (prune (\<lambda>e. now < e) m) r) = in_force later (map_of m r)"
  using assms by (auto simp: in_force_def map_of_prune split: option.splits)


definition savedLink :: privateControlLink where
  "savedLink = demoLink\<lparr>
     l_server := Some (recorderRelay\<lparr>s_serviceAdmission :=
       Some (demoServiceVerified\<lparr>sas_denied := [(target_denyRule demoTarget, time_Unix 3000)]\<rparr>)\<rparr>),
     l_idempotency := [(\<lparr>ik_serviceID = ''mgmt-1'', ik_messageID = ''AAAAAAAAAAAAAAAAAAAAAA''\<rparr>,
       \<lparr>ie_bodyHash = replicate 32 1, ie_ack = Some demoAck, ie_done = True, ie_expiresAt = time_Unix 3000,
        ie_completed = True\<rparr>)]\<rparr>"

definition savedState :: privateControlPersistentState where
  "savedState = the (fst (persistentStateSnapshot (time_Unix 1001) savedLink))"

definition savedEncode :: "privateControlPersistentState \<Rightarrow> bytes option" where
  "savedEncode st = (if st = savedState then Some [1] else None)"

definition savedDecode :: "bytes \<Rightarrow> (privateControlPersistentState \<times> bool) option" where
  "savedDecode data = (if data = [1] then Some (savedState, True) else None)"

lemma b64Char_demo:
  "b64Char 0 = CHR ''A''" "b64Char 16 = CHR ''Q''" "b64Char 1028 = CHR ''E''" "b64Char 65793 = CHR ''B''"
  by (simp_all add: b64Char_def b64Alphabet_def)

lemma validID_encode: "length bs = 16 \<Longrightarrow> validPrivateControlID (b64Encode bs)"
  using length_b64Encode [of bs] by (simp add: validPrivateControlID_def b64Decode_Encode)

lemma validID_demo: "validPrivateControlID ''AAAAAAAAAAAAAAAAAAAAAA''" "validPrivateControlID ''AQEBAQEBAQEBAQEBAQEBAQ''"
proof -
  have "b64Encode [0, 0, 0, 0, 0, 0, 0, 0, 0, 0, 0, 0, 0, 0, 0, 0] = ''AAAAAAAAAAAAAAAAAAAAAA''"
    by (simp add: Let_def b64Char_demo)
  then show "validPrivateControlID ''AAAAAAAAAAAAAAAAAAAAAA''"
    using validID_encode [of "[0, 0, 0, 0, 0, 0, 0, 0, 0, 0, 0, 0, 0, 0, 0, 0]"] by simp
  have "b64Encode [1, 1, 1, 1, 1, 1, 1, 1, 1, 1, 1, 1, 1, 1, 1, 1] = ''AQEBAQEBAQEBAQEBAQEBAQ''"
    by (simp add: Let_def b64Char_demo)
  then show "validPrivateControlID ''AQEBAQEBAQEBAQEBAQEBAQ''"
    using validID_encode [of "[1, 1, 1, 1, 1, 1, 1, 1, 1, 1, 1, 1, 1, 1, 1, 1]"] by simp
qed

lemma savedLink_savable: "savable (time_Unix 1001) (time_Unix 2000) savedLink"
proof -
  have "managedServiceIDMatch ''mgmt-1''" by code_simp
  moreover have "rule_ok (target_denyRule demoTarget) (time_Unix 3000)"
  proof -
    have "target_ok demoTarget" unfolding target_ok_def demoTarget_def by code_simp
    then show ?thesis unfolding rule_ok_def by (intro exI [of _ demoTarget] exI [of _ 3000]) simp
  qed
  moreover have "link_inv savedLink"
    unfolding savedLink_def using demoLink_inv by (simp add: link_inv_def idem_ok_def entry_ok_def demoAck_def)
  ultimately show ?thesis
    unfolding savable_def savedLink_def
    by (simp add: entry_durable_def validPrivateControlAck_def demoAck_def validID_demo time_Unix_def Second_def Unix_of_def)
qed


lemma expired_answer_refused:
  assumes "p \<in> set ps" "pid_ExpiresAt p \<le> Unix_of now"
  shows "\<exists>err. restoreIdempotency now ps table = Inl err"
  using assms
proof (induction now ps table rule: restoreIdempotency.induct)
  case (2 now q rest table)
  then show ?case by (auto simp: Let_def split: option.split)
qed simp

text \<open>
  A state file with an answer that has expired is refused, whatever else it holds: unlike a deny
  rule, an expired answer is not passed over. The file is written only when a revocation completes, so
  a restart later than the expiry of any saved answer ends in this error.
\<close>

theorem restart_after_expiry_fails:
  assumes "decode data = Some (st, True)" "map_of fs (l_stateFile l) = Some data"
    and "p \<in> set (pst_Idempotency st)" "pid_ExpiresAt p \<le> Unix_of now"
  shows "\<exists>err. restorePersistentState decode True now fs l = Inl err"
proof -
  obtain err where "restoreIdempotency now (pst_Idempotency st) (l_idempotency l) = Inl err"
    using expired_answer_refused [OF assms(3,4)] by blast
  with assms(1,2) show ?thesis
    by (auto simp: restorePersistentState_def loadPrivateControlPersistentState_def Let_def split: sum.split)
qed

theorem restart_after_expiry_fails_witness:
  "\<exists>err. restorePersistentState savedDecode True (time_Unix 5000) [(''state.json'', [1])] demoLink = Inl err"
proof (rule restart_after_expiry_fails)
  show "savedDecode [1] = Some (savedState, True)" by (simp add: savedDecode_def)
  show "map_of [(''state.json'', [1])] (l_stateFile demoLink) = Some [1]" by (simp add: demoLink_def)
  obtain s a where "l_server savedLink = Some s" "s_serviceAdmission s = Some a" by (simp add: savedLink_def)
  from saved_state [OF this, of "time_Unix 1001"] savable_cleanup [OF savedLink_savable]
  have "pst_Idempotency savedState = concat (map (persistentIdempotency (time_Unix 1001)) (l_idempotency savedLink))"
    by (simp add: savedState_def)
  then show "\<lparr>pid_ManagementServiceID = ''mgmt-1'', pid_MessageID = ''AAAAAAAAAAAAAAAAAAAAAA'',
      pid_BodySHA256 = b64Encode (replicate 32 1), pid_Ack = demoAck, pid_ExpiresAt = 3000\<rparr> \<in> set (pst_Idempotency savedState)"
    by (simp add: savedLink_def persistentIdempotency_def time_Unix_after_iff)
qed simp

end
