(* ===== verification/Private_Service.thy ===== *)
theory Private_Service
  imports Private_Frames Private_Snapshot Private_Restart
begin

text \<open>
  The commands of the private control link (private_control.go, private_control_snapshot.go): the
  revocation command with its digest and its idempotency, the diagnostics and snapshot requests, and
  the life of a connection from the hello frame to its end. The decoders of \<^verbatim>\<open>encoding/json\<close> for the
  message structs are parameters, as is what other goroutines do to the link while this one waits.
\<close>

subsection \<open>Environment\<close>

record privateControlCodec =
  jc_tokenize :: lexer
  jc_hello :: "bytes \<Rightarrow> privateControlHello option"
  jc_selector :: "bytes \<Rightarrow> privateControlCommandEnvelope option"
  jc_envelope :: "bytes \<Rightarrow> privateControlCommandEnvelope option"
  jc_revoke :: "bytes \<Rightarrow> privateControlRevokeServiceAdmission option"
  jc_encode :: "privateControlPersistentState \<Rightarrow> bytes option"

text \<open>
  What one message meets: the readings of the clock, the files, and the wait for another goroutine,
  which tells whether the signal came in time and what became of the link.
\<close>

record privateControlTurn =
  tn_begin :: gotime
  tn_now :: gotime
  tn_clock :: "nat \<Rightarrow> gotime"
  tn_io :: fileFaults
  tn_wait :: "privateControlLink \<Rightarrow> bool \<times> privateControlLink"
  tn_failure :: gotime

text \<open>The scan for duplicates comes before the strict decoder.\<close>

definition decodePrivateControlJSON :: "privateControlCodec \<Rightarrow> (bytes \<Rightarrow> 'm option) \<Rightarrow> bytes \<Rightarrow> 'm option" where
  "decodePrivateControlJSON jc decode raw =
     (if validPayload (jc_tokenize jc) raw \<noteq> None then None else decode raw)"

definition decodePrivateControlSelector ::
  "privateControlCodec \<Rightarrow> bytes \<Rightarrow> privateControlCommandEnvelope option" where
  "decodePrivateControlSelector jc raw =
     (case jc_selector jc raw of
        None \<Rightarrow> None
      | Some selector \<Rightarrow>
          if en_SchemaVersion selector \<noteq> privateControlSchemaVersion \<or> \<not> validPrivateControlID (en_MessageID selector) \<or>
             en_Type selector = []
          then None else Some selector)"

definition newPrivateControlError ::
  "string \<Rightarrow> string \<Rightarrow> privateControlLink \<Rightarrow> privateControlMessage option \<times> privateControlLink" where
  "newPrivateControlError inReplyTo code l =
     (case newPrivateControlID l of
        (None, l1) \<Rightarrow> (None, l1)
      | (Some messageID, l1) \<Rightarrow> (Some (MsgError messageID inReplyTo code), l1))"

subsection \<open>The digest of a revocation\<close>

text \<open>
  The canonical encoding of a valid command: its strings are base64url, service identifiers and
  reason names, which need no escape; empty optional fields are left out.
\<close>

definition optionalField :: "string \<Rightarrow> string \<Rightarrow> string list" where
  "optionalField name value = (if value = [] then [] else [field name (quoted value)])"

definition marshalRevocation :: "privateControlRevokeServiceAdmission \<Rightarrow> string" where
  "marshalRevocation m =
     jsonObject ([field ''schema_version'' (quoted (rv_SchemaVersion m)), field ''type'' (quoted (rv_Type m)),
        field ''message_id'' (quoted (rv_MessageID m)), field ''channel_id'' (decimal (unat (rv_ChannelID m)))] @
       optionalField ''service_id'' (rv_ServiceID m) @ optionalField ''grant_id_hash'' (rv_GrantIDHash m) @
       [field ''reason'' (quoted (rv_Reason m)), field ''deny_until'' (decimal (nat (rv_DenyUntil m)))])"

definition privateControlRevocationDigest :: "prims \<Rightarrow> privateControlRevokeServiceAdmission \<Rightarrow> bytes" where
  "privateControlRevocationDigest pr m = sha256 pr (bytes_of (marshalRevocation m))"

subsection \<open>Revocation\<close>

text \<open>The lifecycle events the Relay published in the meantime, in order.\<close>

fun deliverEvents :: "(nat \<Rightarrow> gotime) \<Rightarrow> relayEvent list \<Rightarrow> privateControlLink \<Rightarrow> privateControlLink" where
  "deliverEvents clock [] l = l"
| "deliverEvents clock (e # es) l =
     deliverEvents (\<lambda>i. clock (Suc i)) es
       (publishLifecycleEvent (ev_type e) (Some (ev_channelID e)) (Some (ev_senderID e)) (ev_serviceID e) None None
          (ev_reason e) (clock 0) l)"

text \<open>The Relay's part of a revocation, with its events on the link.\<close>

definition applyRevocation ::
  "prims \<Rightarrow> (nat \<Rightarrow> gotime) \<Rightarrow> serviceAdmissionRevocationTarget \<Rightarrow> gotime \<Rightarrow> gotime \<Rightarrow> server \<Rightarrow>
   privateControlLink \<Rightarrow> managedServiceRevocationResult option \<times> privateControlLink" where
  "applyRevocation pr clock target denyUntil now s l =
     (case revokeManagedServiceAdmission pr target denyUntil now s of
        (result, s1) \<Rightarrow>
          (result, deliverEvents clock (drop (length (s_events s)) (s_events s1)) (l\<lparr>l_server := Some s1\<rparr>)))"

text \<open>A response, whether the connection is closed, and the link and the files afterwards.\<close>

type_synonym outcome = "privateControlMessage option \<times> bool \<times> privateControlLink \<times> files"

definition respondError :: "string \<Rightarrow> string \<Rightarrow> privateControlLink \<Rightarrow> files \<Rightarrow> outcome" where
  "respondError messageID code l fs =
     (case newPrivateControlError messageID code l of
        (None, l1) \<Rightarrow> (None, True, l1, fs)
      | (Some m, l1) \<Rightarrow> (Some m, False, l1, fs))"

definition released :: "outcome \<Rightarrow> outcome" where
  "released out = (case out of (r, c, l, fs) \<Rightarrow>
     (r, c, case releaseCommand l of None \<Rightarrow> l | Some l' \<Rightarrow> l', fs))"

text \<open>The part of the handler that runs with a command slot, for a command that is to be executed.\<close>

definition executeRevocation ::
  "prims \<Rightarrow> privateControlCodec \<Rightarrow> privateControlTurn \<Rightarrow> string \<Rightarrow> string \<Rightarrow> bytes \<Rightarrow>
   privateControlRevokeServiceAdmission \<Rightarrow> serviceAdmissionRevocationTarget \<Rightarrow> privateControlLink \<Rightarrow> files \<Rightarrow> outcome" where
  "executeRevocation pr jc tn serviceID messageID bodyHash command target l fs =
     (let giveUp = abandonRevocation serviceID messageID bodyHash;
          now = tn_now tn; denyUntil = time_Unix (rv_DenyUntil command)
      in case l_server l of
        None \<Rightarrow> respondError messageID ''unauthorized'' (giveUp l) fs
      | Some s \<Rightarrow>
        if (case s_serviceAdmission s of None \<Rightarrow> True | Some a \<Rightarrow> sas_mode a = serviceAdmissionOff)
        then respondError messageID ''unauthorized'' (giveUp l) fs
        else if now + privateControlMaxDenyPeriod < denyUntil
        then respondError messageID ''invalid_revocation_deadline'' (giveUp l) fs
        else (case newPrivateControlID l of
            (None, l1) \<Rightarrow> (None, True, giveUp l1, fs)
          | (Some ackID, l1) \<Rightarrow>
              let ack0 = \<lparr>ack_SchemaVersion = privateControlSchemaVersion, ack_Type = ''ack'', ack_MessageID = ackID,
                    ack_InReplyTo = messageID, ack_Outcome = [], ack_DenyUntil = rv_DenyUntil command,
                    ack_AffectedMembershipCount = 0, ack_TalkReleaseCount = 0\<rparr>;
                  (ack, l2) =
                    (if \<not> now < denyUntil then (Some (ack0\<lparr>ack_Outcome := ''already_expired''\<rparr>), l1)
                     else (case applyRevocation pr (tn_clock tn) target denyUntil now s l1 of
                         (None, l') \<Rightarrow> (None, l')
                       | (Some result, l') \<Rightarrow>
                           (Some (ack0\<lparr>ack_Outcome := ''applied'',
                              ack_AffectedMembershipCount := rr_affectedMemberships result,
                              ack_TalkReleaseCount := rr_talkReleases result\<rparr>), l')))
              in (case ack of
                  None \<Rightarrow> respondError messageID ''overloaded'' (giveUp l2) fs
                | Some a \<Rightarrow>
                    (case completeRevocation (jc_encode jc) (tn_io tn) serviceID messageID bodyHash a now l2 fs of
                       (False, l3, fs') \<Rightarrow> respondError messageID ''overloaded'' l3 fs'
                     | (True, l3, fs') \<Rightarrow> (Some (MsgAck a), False, l3, fs')))))"

definition handleRevocation ::
  "prims \<Rightarrow> privateControlCodec \<Rightarrow> privateControlTurn \<Rightarrow> string \<Rightarrow> bytes \<Rightarrow> privateControlCommandEnvelope \<Rightarrow>
   privateControlLink \<Rightarrow> files \<Rightarrow> outcome" where
  "handleRevocation pr jc tn serviceID raw selector l fs =
     (case decodePrivateControlJSON jc (jc_revoke jc) raw of
        None \<Rightarrow> (None, True, l, fs)
      | Some command \<Rightarrow>
        (case validPrivateControlRevocation command of
           None \<Rightarrow> (None, True, l, fs)
         | Some target \<Rightarrow>
           let bodyHash = privateControlRevocationDigest pr command; messageID = en_MessageID selector in
           (case beginRevocation serviceID messageID bodyHash (tn_begin tn) l of
              (Conflict, l1) \<Rightarrow> (None, True, l1, fs)
            | (Cached ack, l1) \<Rightarrow> (Some (MsgAck ack), False, l1, fs)
            | (Overloaded, l1) \<Rightarrow> respondError messageID ''overloaded'' l1 fs
            | (Pending, l1) \<Rightarrow>
                (case tn_wait tn l1 of
                   (signalled, l2) \<Rightarrow>
                     (case (if signalled then cachedCompletedRevocation serviceID messageID bodyHash l2 else None) of
                        Some ack \<Rightarrow> (Some (MsgAck ack), False, l2, fs)
                      | None \<Rightarrow> respondError messageID ''overloaded'' l2 fs))
            | (Execute, l1) \<Rightarrow>
                (case acquireCommand l1 of
                   (False, l2) \<Rightarrow>
                     respondError messageID ''overloaded'' (abandonRevocation serviceID messageID bodyHash l2) fs
                 | (True, l2) \<Rightarrow>
                     released (executeRevocation pr jc tn serviceID messageID bodyHash command target l2 fs)))))"

subsection \<open>Diagnostics and snapshots\<close>

definition handleRelayDiagnostics ::
  "privateControlCodec \<Rightarrow> privateControlTurn \<Rightarrow> nat \<Rightarrow> bytes \<Rightarrow> privateControlCommandEnvelope \<Rightarrow>
   privateControlLink \<Rightarrow> privateControlMessage option \<times> bool \<times> privateControlLink" where
  "handleRelayDiagnostics jc tn h raw selector l =
     (case (decodePrivateControlJSON jc (jc_envelope jc) raw, map_of (l_store l) h) of
        (Some request, Some session) \<Rightarrow>
          (let reply = (\<lambda>code l. case newPrivateControlError (en_MessageID selector) code l of
                 (None, l1) \<Rightarrow> (None, True, l1) | (Some m, l1) \<Rightarrow> (Some m, False, l1));
               now = tn_now tn
           in if \<not> validPrivateControlGetRelayDiagnostics request then (None, True, l)
              else if \<not> ss_diagnostics session then reply ''unsupported_message'' l
              else if \<not> IsZero (ss_lastDiagnostics session) \<and>
                time_Sub now (ss_lastDiagnostics session) < privateControlDiagnosticsMinInterval
              then reply ''overloaded'' l
              else case l_server l of
                None \<Rightarrow> reply ''internal_error'' l
              | Some s \<Rightarrow>
                  (case newPrivateControlID l of
                     (None, l1) \<Rightarrow> reply ''internal_error'' l1
                   | (Some messageID, l1) \<Rightarrow>
                       let (counterEpoch, counters) = relayDiagnosticsSnapshot s in
                       (Some (MsgDiagnostics messageID (en_MessageID request) (l_relayID l) counterEpoch now counters), False,
                        onSession h (\<lambda>ss. ss\<lparr>ss_lastDiagnostics := now\<rparr>) l1)))
      | _ \<Rightarrow> (None, True, l))"

text \<open>The loop that sends the chunks of one snapshot.\<close>

fun sendChunks ::
  "nat \<Rightarrow> string \<Rightarrow> string \<Rightarrow> nat \<Rightarrow> nat \<Rightarrow> privateControlSnapshotChannel list list \<Rightarrow> privateControlLink \<Rightarrow>
   bool \<times> privateControlLink" where
  "sendChunks h inReplyTo snapshotID chunkCount index [] l = (True, l)"
| "sendChunks h inReplyTo snapshotID chunkCount index (channels # rest) l =
     (case newPrivateControlID l of
        (None, l1) \<Rightarrow> (False, l1)
      | (Some messageID, l1) \<Rightarrow>
          (case enqueue h (MsgSnapshot messageID inReplyTo snapshotID (of_nat index) (of_nat chunkCount) channels) l1 of
             (False, l2) \<Rightarrow> (False, l2)
           | (True, l2) \<Rightarrow> sendChunks h inReplyTo snapshotID chunkCount (Suc index) rest l2))"

definition enqueueError :: "nat \<Rightarrow> string \<Rightarrow> string \<Rightarrow> privateControlLink \<Rightarrow> bool \<times> privateControlLink" where
  "enqueueError h messageID code l =
     (case newPrivateControlError messageID code l of
        (None, l1) \<Rightarrow> (False, l1)
      | (Some m, l1) \<Rightarrow> enqueue h m l1)"

definition handleRelayStateSnapshot ::
  "privateControlCodec \<Rightarrow> nat \<Rightarrow> bytes \<Rightarrow> privateControlCommandEnvelope \<Rightarrow> privateControlLink \<Rightarrow>
   bool \<times> privateControlLink" where
  "handleRelayStateSnapshot jc h raw selector l =
     (case decodePrivateControlJSON jc (jc_envelope jc) raw of
        None \<Rightarrow> (False, l)
      | Some request \<Rightarrow>
          if \<not> validPrivateControlGetRelayStateSnapshot request then (False, l)
          else (case l_server l of
              None \<Rightarrow> enqueueError h (en_MessageID selector) ''internal_error'' l
            | Some s \<Rightarrow>
                (case privateControlSnapshotChunks s of
                   None \<Rightarrow> enqueueError h (en_MessageID selector) ''overloaded'' l
                 | Some chunks \<Rightarrow>
                     (case newPrivateControlID l of
                        (None, l1) \<Rightarrow> (False, l1)
                      | (Some snapshotID, l1) \<Rightarrow>
                          sendChunks h (en_MessageID request) snapshotID (length chunks) 0 chunks l1))))"

subsection \<open>Connections\<close>

text \<open>One message of an open session: whether the loop goes on.\<close>

definition respond ::
  "nat \<Rightarrow> string \<Rightarrow> gotime \<Rightarrow> outcome \<Rightarrow> bool \<times> privateControlLink \<times> files" where
  "respond h source failed out =
     (case out of (response, closeConnection, l, fs) \<Rightarrow>
        if closeConnection then (False, recordConnectionFailure source failed l, fs)
        else (case response of
            None \<Rightarrow> (False, l, fs)
          | Some m \<Rightarrow> (case enqueue h m l of (ok, l1) \<Rightarrow> (ok, l1, fs))))"

definition handleMessage ::
  "prims \<Rightarrow> privateControlCodec \<Rightarrow> privateControlTurn \<Rightarrow> nat \<Rightarrow> string \<Rightarrow> string \<Rightarrow> bytes \<Rightarrow> privateControlLink \<Rightarrow>
   files \<Rightarrow> bool \<times> privateControlLink \<times> files" where
  "handleMessage pr jc tn h source serviceID raw l fs =
     (let failed = (\<lambda>l. (False, recordConnectionFailure source (tn_failure tn) l, fs)) in
      case decodePrivateControlSelector jc raw of
        None \<Rightarrow> failed l
      | Some selector \<Rightarrow>
        if en_Type selector = ''ping'' then
          (case decodePrivateControlJSON jc (jc_envelope jc) raw of
             None \<Rightarrow> failed l
           | Some ping \<Rightarrow>
               if \<not> validPrivateControlPing ping then failed l
               else (case newPrivateControlID l of
                   (None, l1) \<Rightarrow> (False, l1, fs)
                 | (Some pongID, l1) \<Rightarrow>
                     (case enqueue h (MsgPong pongID (en_MessageID ping)) l1 of (ok, l2) \<Rightarrow> (ok, l2, fs))))
        else if en_Type selector = ''revoke_service_admission'' then
          respond h source (tn_failure tn) (handleRevocation pr jc tn serviceID raw selector l fs)
        else if en_Type selector = ''get_relay_diagnostics'' then
          (case handleRelayDiagnostics jc tn h raw selector l of
             (response, closeConnection, l1) \<Rightarrow> respond h source (tn_failure tn) (response, closeConnection, l1, fs))
        else if en_Type selector = ''get_relay_state_snapshot'' then
          (case handleRelayStateSnapshot jc h raw selector l of (ok, l1) \<Rightarrow> (ok, l1, fs))
        else (case enqueueError h (en_MessageID selector) ''unsupported_message'' l of (ok, l1) \<Rightarrow> (ok, l1, fs)))"

text \<open>A frame that was read has taken bytes from the stream.\<close>

lemma readFrame_shorter:
  "readPrivateControlFrame tokenize stream = Inr (raw, rest) \<Longrightarrow> length rest < length stream"
  by (auto simp: readPrivateControlFrame_def ReadFull_def Let_def split: if_splits option.splits sum.splits prod.splits)

text \<open>
  The read loop of a connection; \<open>tn i\<close> is what the \<open>i\<close>-th message meets, and \<open>others i\<close> what the other
  goroutines do to the link and the files before it.
\<close>

function serveFrames ::
  "prims \<Rightarrow> privateControlCodec \<Rightarrow> (nat \<Rightarrow> privateControlTurn) \<Rightarrow>
   (nat \<Rightarrow> privateControlLink \<times> files \<Rightarrow> privateControlLink \<times> files) \<Rightarrow> nat \<Rightarrow> nat \<Rightarrow> string \<Rightarrow> string \<Rightarrow> bytes \<Rightarrow>
   privateControlLink \<Rightarrow> files \<Rightarrow> privateControlLink \<times> files" where
  "serveFrames pr jc tn others i h source serviceID stream l0 fs0 =
     (case others i (l0, fs0) of
        (l, fs) \<Rightarrow>
          (case readPrivateControlFrame (jc_tokenize jc) stream of
             Inl err \<Rightarrow>
               (if \<not> readError_IsEOF err then recordConnectionFailure source (tn_failure (tn i)) l else l, fs)
           | Inr (raw, rest) \<Rightarrow>
               (case handleMessage pr jc (tn i) h source serviceID raw l fs of
                  (ok, l1, fs1) \<Rightarrow>
                    if \<not> ok then (l1, fs1)
                    else serveFrames pr jc tn others (Suc i) h source serviceID rest l1 fs1)))"
  by pat_completeness auto
termination
  by (relation "measure (\<lambda>(pr, jc, tn, others, i, h, source, serviceID, stream, l, fs). length stream)")
    (auto dest: readFrame_shorter)

declare serveFrames.simps [simp del]

text \<open>
  What the connection brings: whether its deadlines can be set, the service the transport
  authenticated, the bytes it sends, and the clock. The messages that are written to the connection
  directly are the last component of the result.
\<close>

record privateControlConn =
  cn_source :: string
  cn_authenticated :: "string option"
  cn_stream :: bytes
  cn_deadline :: bool
  cn_clearDeadline :: bool
  cn_now :: gotime

definition newSession :: "string \<Rightarrow> privateControlHello \<Rightarrow> privateControlSession" where
  "newSession serviceID hello = \<lparr>ss_serviceID = serviceID, ss_lifecycleEvents = the (hl_WantLifecycleEvents hello),
     ss_auditInputs = the (hl_WantAuditInputs hello), ss_diagnostics = the (hl_WantDiagnostics hello),
     ss_lastDiagnostics = 0, ss_send = [], ss_done = False\<rparr>"

text \<open>The greeting: the hello acknowledgement and, if asked for, the health of the Relay.\<close>

definition greet :: "nat \<Rightarrow> privateControlHello \<Rightarrow> gotime \<Rightarrow> privateControlLink \<Rightarrow> bool \<times> privateControlLink" where
  "greet h hello now l =
     (case newPrivateControlID l of
        (None, l1) \<Rightarrow> (False, l1)
      | (Some sessionID, l1) \<Rightarrow>
          (case newPrivateControlID l1 of
             (None, l2) \<Rightarrow> (False, l2)
           | (Some ackID, l2) \<Rightarrow>
               (case enqueue h (MsgHelloAck ackID (hl_MessageID hello) sessionID (l_relayID l2)
                       (the (hl_WantLifecycleEvents hello)) (the (hl_WantAuditInputs hello))
                       (the (hl_WantDiagnostics hello))) l2 of
                  (False, l3) \<Rightarrow> (False, l3)
                | (True, l3) \<Rightarrow>
                    if the (hl_WantLifecycleEvents hello) then
                      (case newPrivateControlLifecycleEvent ''relay_health_changed'' None None None None
                              (Some ''healthy'') None now l3 of
                         (None, l4) \<Rightarrow> (False, l4)
                       | (Some health, l4) \<Rightarrow> enqueue h health l4)
                    else (True, l3))))"

definition handleConnection ::
  "prims \<Rightarrow> privateControlCodec \<Rightarrow> (nat \<Rightarrow> privateControlTurn) \<Rightarrow>
   (nat \<Rightarrow> privateControlLink \<times> files \<Rightarrow> privateControlLink \<times> files) \<Rightarrow> privateControlConn \<Rightarrow> privateControlLink \<Rightarrow> files \<Rightarrow>
   privateControlLink \<times> files \<times> privateControlMessage list" where
  "handleConnection pr jc tn others cn l fs =
     (let source = cn_source cn; now = cn_now cn; failed = (\<lambda>l. (recordConnectionFailure source now l, fs, [])) in
      case allowConnectionAttempt source now l of
        (False, l1) \<Rightarrow> (l1, fs, [])
      | (True, l1) \<Rightarrow>
        if \<not> cn_deadline cn then (l1, fs, [])
        else (case cn_authenticated cn of
          None \<Rightarrow> failed l1
        | Some serviceID \<Rightarrow>
          (case readPrivateControlFrame (jc_tokenize jc) (cn_stream cn) of
             Inl err \<Rightarrow> if \<not> readError_IsEOF err then failed l1 else (l1, fs, [])
           | Inr (rawHello, rest) \<Rightarrow>
             (case decodePrivateControlJSON jc (jc_hello jc) rawHello of
                None \<Rightarrow> failed l1
              | Some hello \<Rightarrow>
                if \<not> validPrivateControlHello hello then failed l1
                else if hl_ManagementServiceID hello \<noteq> serviceID then
                  (case newPrivateControlError (hl_MessageID hello) ''identity_mismatch'' l1 of
                     (None, l2) \<Rightarrow> (l2, fs, []) | (Some m, l2) \<Rightarrow> (l2, fs, [m]))
                else if \<not> cn_clearDeadline cn then (l1, fs, [])
                else (case addSession (newSession serviceID hello) l1 of
                    (h, l2) \<Rightarrow>
                      (case greet h hello now l2 of
                         (False, l3) \<Rightarrow> (removeSession h l3, fs, [])
                       | (True, l3) \<Rightarrow>
                           (case serveFrames pr jc tn others 0 h source serviceID rest l3 fs of
                              (l4, fs') \<Rightarrow> (removeSession h l4, fs', []))))))))"

end
