(* ===== verification/Private_Command.thy ===== *)
theory Private_Command
  imports Private_Service
begin

text \<open>
  The commands of the private control link end to end: a revocation is executed once, leaves its deny
  rule and a durable answer or leaves the command fresh, and gives its slot back; a connection that
  is not authenticated as the service it names changes nothing; a snapshot is sent as a whole, in
  frames that fit.
\<close>

subsection \<open>Frames\<close>

text \<open>What the sending of messages leaves alone.\<close>

definition core :: "privateControlLink \<Rightarrow> _" where
  "core l = (l_server l, l_idempotency l, l_failures l, l_stateFile l, l_commandSlots l, l_connections l)"

lemma core_eqI:
  "core a = core b \<Longrightarrow> l_server a = l_server b" "core a = core b \<Longrightarrow> l_idempotency a = l_idempotency b"
  "core a = core b \<Longrightarrow> l_stateFile a = l_stateFile b" "core a = core b \<Longrightarrow> l_commandSlots a = l_commandSlots b"
  by (simp_all add: core_def)

lemma core_commands: "core a = core b \<Longrightarrow> commands a = commands b"
  by (rule commands_frame) (rule core_eqI(2))

lemma core_newID [simp]: "core (snd (newPrivateControlID l)) = core l"
  by (simp add: newPrivateControlID_def core_def split: option.split)

lemma core_enqueue [simp]: "core (snd (enqueue h m l)) = core l"
  by (simp add: enqueue_def core_def split_beta split: option.split)

lemma core_dropped [simp]: "core (l\<lparr>l_dropped := d\<rparr>) = core l"
  by (simp add: core_def)

lemma core_enqueueEach [simp]: "core (enqueueEach wants m table l) = core l"
proof (induction table arbitrary: l)
  case (Cons kv rest)
  then show ?case by (cases kv) (simp add: Let_def split_beta split: option.split)
qed simp

lemma core_lifecycle [simp]: "core (publishLifecycleEvent ty c s v j st r now l) = core l"
proof -
  obtain i l1 where i: "newPrivateControlID l = (i, l1)" by fastforce
  have "core l1 = core l" using core_newID [of l] by (simp add: i)
  then show ?thesis
    by (cases i) (simp_all add: publishLifecycleEvent_def newPrivateControlLifecycleEvent_def enqueueLifecycleEvent_def i)
qed

lemma core_deliver [simp]: "core (deliverEvents clock es l) = core l"
  by (induction clock es l rule: deliverEvents.induct) simp_all

lemma deliver_inv: "link_inv l \<Longrightarrow> link_inv (deliverEvents clock es l)"
  by (induction clock es l rule: deliverEvents.induct) (simp_all add: lifecycle_inv)

lemma respondError_core:
  assumes "respondError mid code l fs = (r, c, l', fs')"
  shows "core l' = core l" "fs' = fs" "link_inv l \<Longrightarrow> link_inv l'" "r \<noteq> Some (MsgAck a)"
proof -
  obtain i l1 where i: "newPrivateControlID l = (i, l1)" by fastforce
  have c: "core l1 = core l" using core_newID [of l] by (simp add: i)
  have v: "link_inv l \<Longrightarrow> link_inv l1" using newID_inv [of l] by (simp add: i)
  have "l' = l1 \<and> fs' = fs \<and> r \<noteq> Some (MsgAck a)"
    using assms by (cases i) (auto simp: respondError_def newPrivateControlError_def i)
  with c v show "core l' = core l" "fs' = fs" "link_inv l \<Longrightarrow> link_inv l'" "r \<noteq> Some (MsgAck a)" by auto
qed

lemma abandon_frame [simp]:
  "l_commandSlots (abandonRevocation svc mid h l) = l_commandSlots l" "l_server (abandonRevocation svc mid h l) = l_server l"
  by (cases rule: abandon_cases [of svc mid h l]; simp)+

lemma abandon_fresh:
  assumes "map_of (l_idempotency l) \<lparr>ik_serviceID = svc, ik_messageID = mid\<rparr> = Some e" "ie_bodyHash e = h" "\<not> ie_completed e"
  shows "commands (abandonRevocation svc mid h l) \<lparr>ik_serviceID = svc, ik_messageID = mid\<rparr> = Fresh"
  using assms by (simp add: abandonRevocation_def commands_delete)

text \<open>Completing a command touches neither the slots nor the deny rules that are in force.\<close>

lemma snapshot_frame:
  assumes "persistentStateSnapshot now l = (st, l1)"
  shows "l_commandSlots l1 = l_commandSlots l"
    and "denied l rule = Some e \<Longrightarrow> now < e \<Longrightarrow> (\<And>s a. l_server l = Some s \<Longrightarrow> s_serviceAdmission s = Some a \<Longrightarrow>
      gomap_wf (sas_denied a)) \<Longrightarrow> denied l1 rule = Some e"
proof -
  show "l_commandSlots l1 = l_commandSlots l"
    using assms by (cases rule: snapshot_cases) simp_all
  assume d: "denied l rule = Some e" and now: "now < e"
    and wf: "\<And>s a. l_server l = Some s \<Longrightarrow> s_serviceAdmission s = Some a \<Longrightarrow> gomap_wf (sas_denied a)"
  from d obtain s a where s: "l_server l = Some s" "s_serviceAdmission s = Some a" "map_of (sas_denied a) rule = Some e"
    by (auto simp: denied_def split: option.splits)
  have "l_server l1 = Some (s\<lparr>s_serviceAdmission := Some (service_cleanupLocked now a)\<rparr>)"
    using assms s by (auto simp: persistentStateSnapshot_def activeDenyRules_def Let_def)
  then show "denied l1 rule = Some e"
    using s now wf [OF s(1,2)] by (simp add: denied_def cleanup_tables(4) map_of_prune)
qed

lemma complete_frame:
  assumes "completeRevocation encode io svc mid h ack now l fs = (ok, l', fs')"
  shows "l_commandSlots l' = l_commandSlots l"
    and "denied l rule = Some e \<Longrightarrow> now < e \<Longrightarrow> (\<And>s a. l_server l = Some s \<Longrightarrow> s_serviceAdmission s = Some a \<Longrightarrow>
      gomap_wf (sas_denied a)) \<Longrightarrow> denied l' rule = Some e"
proof -
  have "l_commandSlots l' = l_commandSlots l \<and> (denied l rule = Some e \<longrightarrow> now < e \<longrightarrow>
      (\<forall>s a. l_server l = Some s \<longrightarrow> s_serviceAdmission s = Some a \<longrightarrow> gomap_wf (sas_denied a)) \<longrightarrow> denied l' rule = Some e)"
  proof (cases "recordAck svc mid h ack now l")
    case None
    with assms show ?thesis by (simp add: completeRevocation_def)
  next
    case (Some l1)
    then have r: "l_commandSlots l1 = l_commandSlots l" "l_server l1 = l_server l"
      by (auto elim!: recordAck_SomeE)
    obtain st l2 where s: "persistentStateSnapshot now l1 = (st, l2)" by fastforce
    obtain ok' l2' fs1 bt where p: "persistState encode io now l1 fs = (ok', l2', fs1, bt)" by (metis surj_pair)
    have l2': "l2' = l2" using p s by (auto simp: persistState_def split: option.splits prod.splits)
    have c: "l_commandSlots l' = l_commandSlots l2" "l_server l' = l_server l2"
      using assms Some p l2'
      by (auto simp: completeRevocation_def split: if_splits option.splits elim!: publishAck_SomeE)
    have d: "denied l1 rule = denied l rule" by (simp add: denied_def r)
    from c(2) have "denied l' rule = denied l2 rule" by (simp add: denied_def)
    with snapshot_frame(1) [OF s] snapshot_frame(2) [OF s, of rule e] r d c show ?thesis by simp
  qed
  then show "l_commandSlots l' = l_commandSlots l"
    "denied l rule = Some e \<Longrightarrow> now < e \<Longrightarrow> (\<And>s a. l_server l = Some s \<Longrightarrow> s_serviceAdmission s = Some a \<Longrightarrow>
      gomap_wf (sas_denied a)) \<Longrightarrow> denied l' rule = Some e" by blast+
qed

subsection \<open>Revocation\<close>

definition deny_wf :: "privateControlLink \<Rightarrow> bool" where
  "deny_wf l \<longleftrightarrow> (\<forall>s a. l_server l = Some s \<longrightarrow> s_serviceAdmission s = Some a \<longrightarrow> gomap_wf (sas_denied a))"

lemma revoke_denied:
  assumes svc: "s_serviceAdmission s = Some a" and wf: "gomap_wf (sas_denied a)"
    and run: "revokeManagedServiceAdmission pr target until now s = (Some result, t)"
  shows "\<exists>b x. s_serviceAdmission t = Some b \<and> gomap_wf (sas_denied b) \<and>
    map_of (sas_denied b) (target_denyRule target) = Some x \<and> until \<le> x"
proof -
  let ?c = "rt_channelID target"
  obtain ok sv where i: "installRevocation (Some a) target until now = (ok, sv)" by fastforce
  have ok: "ok" using run svc i by (cases ok) (simp_all add: revokeManagedServiceAdmission_def)
  obtain b where b: "sv = Some b" using service_ops_Some(5) [of a target until now] i by auto
  from installRevocation_tables [OF i [unfolded b]] ok obtain x where
    x: "sas_denied b = AList.update (target_denyRule target) x (prune (\<lambda>e. now < e) (sas_denied a))" "until \<le> x" by blast
  define rs where "rs = (case chan s ?c of None \<Rightarrow> ([], s\<lparr>s_serviceAdmission := sv\<rparr>)
      | Some ch \<Rightarrow> let (r, ch') = revokePeers target (ch_peers ch) ch in (r, setOrDropChan ?c ch' (s\<lparr>s_serviceAdmission := sv\<rparr>)))"
  have "t = foldl (\<lambda>s rp. emitRevocation pr ?c rp s) (snd rs) (fst rs)"
    using run svc i ok by (auto simp: revokeManagedServiceAdmission_def rs_def split_beta Let_def)
  then have "core_eq (snd rs) t" using core_eq_foldl [OF core_eq_emitRevocation] by simp
  then have "s_serviceAdmission t = Some b"
    using b by (auto simp: core_eq_def rs_def split_beta split: option.split)
  with x wf show ?thesis by auto
qed

lemma applyRevocation_link:
  assumes "applyRevocation pr clock target until now s l = (res, l')"
  shows "link_inv l \<Longrightarrow> link_inv l'" "l_idempotency l' = l_idempotency l" "l_commandSlots l' = l_commandSlots l"
    "l_stateFile l' = l_stateFile l"
    "l_server l' = Some (snd (revokeManagedServiceAdmission pr target until now s))"
    "fst (revokeManagedServiceAdmission pr target until now s) = res"
proof -
  obtain r s1 where r: "revokeManagedServiceAdmission pr target until now s = (r, s1)" by fastforce
  let ?l = "l\<lparr>l_server := Some s1\<rparr>"
  have l': "l' = deliverEvents clock (drop (length (s_events s)) (s_events s1)) ?l" "res = r"
    using assms by (simp_all add: applyRevocation_def r)
  have c: "core l' = core ?l" by (simp add: l')
  show "link_inv l \<Longrightarrow> link_inv l'" unfolding l' by (intro deliver_inv) (simp add: link_inv_def)
  show "l_idempotency l' = l_idempotency l" "l_commandSlots l' = l_commandSlots l" "l_stateFile l' = l_stateFile l"
    "l_server l' = Some (snd (revokeManagedServiceAdmission pr target until now s))"
    "fst (revokeManagedServiceAdmission pr target until now s) = res"
    using c l'(2) by (simp_all add: core_def r)
qed

text \<open>What the execution of a command comes to.\<close>

definition revocation_result ::
  "privateControlIdempotencyKey \<Rightarrow> bytes \<Rightarrow> int \<Rightarrow> gotime \<Rightarrow> serviceAdmissionDenyRule \<Rightarrow> privateControlMessage option \<Rightarrow>
   bool \<Rightarrow> privateControlLink \<Rightarrow> bool" where
  "revocation_result k h until now rule r closing l' \<longleftrightarrow>
     (if \<exists>a. r = Some (MsgAck a)
      then \<not> closing \<and> (\<exists>a x. r = Some (MsgAck a) \<and> commands l' k = Done h a x \<and> ack_InReplyTo a = ik_messageID k \<and>
        ack_DenyUntil a = until \<and> now + 1200 * Second \<le> x \<and>
        (if now < time_Unix until
         then ack_Outcome a = ''applied'' \<and> time_Unix until \<le> x \<and> (\<exists>e. denied l' rule = Some e \<and> time_Unix until \<le> e)
         else ack_Outcome a = ''already_expired''))
      else commands l' k = Fresh)"

lemma revocation_result_cong:
  "commands a = commands b \<Longrightarrow> denied a = denied b \<Longrightarrow>
   revocation_result k h until now rule r c a = revocation_result k h until now rule r c b"
  by (simp only: revocation_result_def)

lemma give_up_result:
  assumes run: "respondError mid code (abandonRevocation svc mid h l) fs = (r, c, l', fs')" and inv: "link_inv l"
    and entry: "map_of (l_idempotency l) \<lparr>ik_serviceID = svc, ik_messageID = mid\<rparr> = Some e" "ie_bodyHash e = h" "\<not> ie_completed e"
  shows "link_inv l' \<and> l_commandSlots l' = l_commandSlots l \<and>
    revocation_result \<lparr>ik_serviceID = svc, ik_messageID = mid\<rparr> g until now rule r c l'"
proof -
  have c: "core l' = core (abandonRevocation svc mid h l)" by (rule respondError_core(1) [OF run])
  have "r \<noteq> Some (MsgAck a)" for a by (rule respondError_core(4) [OF run])
  then show ?thesis
    using respondError_core(3) [OF run abandon_inv [OF inv]] core_eqI(4) [OF c] core_commands [OF c] abandon_fresh [OF entry]
    by (auto simp: revocation_result_def)
qed

lemma complete_result:
  assumes inv: "link_inv l" and new: "newFile (ff_temporary io) (l_stateFile l) fs"
    and entry: "map_of (l_idempotency l) \<lparr>ik_serviceID = svc, ik_messageID = mid\<rparr> = Some e" "ie_bodyHash e = h" "\<not> ie_completed e"
    and run: "(case completeRevocation encode io svc mid h a now l fs of
         (False, l3, fs3) \<Rightarrow> respondError mid ''overloaded'' l3 fs3
       | (True, l3, fs3) \<Rightarrow> (Some (MsgAck a), False, l3, fs3)) = (r, c, l', fs')"
    and ack: "ack_InReplyTo a = mid" "ack_DenyUntil a = until"
      "if now < time_Unix until
       then ack_Outcome a = ''applied'' \<and> (\<exists>x. denied l rule = Some x \<and> time_Unix until \<le> x) \<and> deny_wf l
       else ack_Outcome a = ''already_expired''"
  shows "link_inv l' \<and> l_commandSlots l' = l_commandSlots l \<and>
    revocation_result \<lparr>ik_serviceID = svc, ik_messageID = mid\<rparr> h until now rule r c l'"
proof -
  obtain ok l3 fs3 where k: "completeRevocation encode io svc mid h a now l fs = (ok, l3, fs3)" by (metis surj_pair)
  note d = completion_durable [OF inv new entry k]
  show ?thesis
  proof (cases ok)
    case False
    then have e: "respondError mid ''overloaded'' l3 fs3 = (r, c, l', fs')" using run k by simp
    have co: "core l' = core l3" by (rule respondError_core(1) [OF e])
    have "r \<noteq> Some (MsgAck x)" for x by (rule respondError_core(4) [OF e])
    then have "revocation_result \<lparr>ik_serviceID = svc, ik_messageID = mid\<rparr> h until now rule r c l'"
      using d False core_commands [OF co] by (simp add: revocation_result_def)
    moreover have "l_commandSlots l' = l_commandSlots l" using core_eqI(4) [OF co] complete_frame(1) [OF k] by simp
    moreover have "link_inv l'" using respondError_core(3) [OF e] d by blast
    ultimately show ?thesis by blast
  next
    case True
    then have e: "r = Some (MsgAck a)" "\<not> c" "l' = l3" using run k by auto
    from d True obtain x where x: "commands l3 \<lparr>ik_serviceID = svc, ik_messageID = mid\<rparr> = Done h a x" "link_inv l3"
        "now + 1200 * Second \<le> x" "ack_Outcome a = ''applied'' \<Longrightarrow> time_Unix until \<le> x"
      by (auto simp: ack(2))
    have "\<exists>e. denied l3 rule = Some e \<and> time_Unix until \<le> e" if t: "now < time_Unix until"
    proof -
      from ack(3) t obtain y where y: "denied l rule = Some y" "time_Unix until \<le> y" "deny_wf l" by auto
      have "denied l3 rule = Some y"
        by (rule complete_frame(2) [OF k y(1)]) (use t y in \<open>auto simp: deny_wf_def\<close>)
      with y(2) show ?thesis by blast
    qed
    with x e ack complete_frame(1) [OF k] show ?thesis by (auto simp: revocation_result_def)
  qed
qed

lemma execute_result:
  assumes inv: "link_inv l" and wf: "deny_wf l" and new: "newFile (ff_temporary (tn_io tn)) (l_stateFile l) fs"
    and entry: "map_of (l_idempotency l) \<lparr>ik_serviceID = svc, ik_messageID = mid\<rparr> = Some e" "ie_bodyHash e = h" "\<not> ie_completed e"
    and run: "executeRevocation pr jc tn svc mid h command target l fs = (r, c, l', fs')"
  shows "link_inv l' \<and> l_commandSlots l' = l_commandSlots l \<and>
    revocation_result \<lparr>ik_serviceID = svc, ik_messageID = mid\<rparr> h (rv_DenyUntil command) (tn_now tn) (target_denyRule target) r c l'"
proof -
  let ?until = "time_Unix (rv_DenyUntil command)" and ?now = "tn_now tn"
  have up: ?thesis if "respondError mid code (abandonRevocation svc mid h l) fs = (r, c, l', fs')" for code
    by (rule give_up_result [OF that inv entry])
  obtain i l1 where i: "newPrivateControlID l = (i, l1)" by fastforce
  have c1: "core l1 = core l" using core_newID [of l] by (simp add: i)
  have inv1: "link_inv l1" using newID_inv [OF inv] by (simp add: i)
  note l1 = core_eqI [OF c1]
  show ?thesis
  proof (cases "l_server l")
    case None
    with run up show ?thesis by (simp add: executeRevocation_def Let_def)
  next
    case (Some s)
    show ?thesis
    proof (cases "(case s_serviceAdmission s of None \<Rightarrow> True | Some a \<Rightarrow> sas_mode a = serviceAdmissionOff) \<or>
        ?now + privateControlMaxDenyPeriod < ?until")
      case True
      with run up Some show ?thesis by (auto simp: executeRevocation_def Let_def split: if_splits)
    next
      case False
      then obtain a where a: "s_serviceAdmission s = Some a" by (cases "s_serviceAdmission s") auto
      show ?thesis
      proof (cases i)
        case None
        then have x: "r = None" "l' = abandonRevocation svc mid h l1"
          using run Some False i by (auto simp: executeRevocation_def Let_def)
        show ?thesis
          using abandon_inv [OF inv1, of svc mid h] abandon_fresh [of l1 svc mid e h] entry l1
          by (simp add: x revocation_result_def)
      next
        case id: (Some ackID)
        define ack0 where "ack0 = \<lparr>ack_SchemaVersion = privateControlSchemaVersion, ack_Type = ''ack'', ack_MessageID = ackID,
            ack_InReplyTo = mid, ack_Outcome = ''already_expired'', ack_DenyUntil = rv_DenyUntil command,
            ack_AffectedMembershipCount = 0, ack_TalkReleaseCount = 0\<rparr>"
        show ?thesis
        proof (cases "?now < ?until")
          case expired: False
          have e1: "map_of (l_idempotency l1) \<lparr>ik_serviceID = svc, ik_messageID = mid\<rparr> = Some e" using entry(1) l1 by simp
          have r1: "(case completeRevocation (jc_encode jc) (tn_io tn) svc mid h ack0 ?now l1 fs of
              (False, l3, fs3) \<Rightarrow> respondError mid ''overloaded'' l3 fs3
            | (True, l3, fs3) \<Rightarrow> (Some (MsgAck ack0), False, l3, fs3)) = (r, c, l', fs')"
            using run Some False i id expired unfolding executeRevocation_def Let_def ack0_def by simp
          have "link_inv l' \<and> l_commandSlots l' = l_commandSlots l1 \<and>
              revocation_result \<lparr>ik_serviceID = svc, ik_messageID = mid\<rparr> h (rv_DenyUntil command) ?now (target_denyRule target) r c l'"
            using new l1 expired by (intro complete_result [OF inv1 _ e1 entry(2,3) r1]) (auto simp: ack0_def)
          then show ?thesis by (simp add: l1)
        next
          case True
          obtain res l2 where ap: "applyRevocation pr (tn_clock tn) target ?until ?now s l1 = (res, l2)" by fastforce
          note l2 = applyRevocation_link [OF ap]
          have e2: "map_of (l_idempotency l2) \<lparr>ik_serviceID = svc, ik_messageID = mid\<rparr> = Some e"
            using entry(1) l1 l2 by simp
          have inv2: "link_inv l2" by (rule l2(1) [OF inv1])
          show ?thesis
          proof (cases res)
            case None
            then have "respondError mid ''overloaded'' (abandonRevocation svc mid h l2) fs = (r, c, l', fs')"
              using run Some False i id True ap unfolding executeRevocation_def Let_def by simp
            from give_up_result [OF this inv2 e2 entry(2,3)] show ?thesis using l1 l2 by simp
          next
            case res: (Some result)
            define ack where "ack = \<lparr>ack_SchemaVersion = privateControlSchemaVersion, ack_Type = ''ack'', ack_MessageID = ackID,
            ack_InReplyTo = mid, ack_Outcome = ''applied'', ack_DenyUntil = rv_DenyUntil command,
            ack_AffectedMembershipCount = rr_affectedMemberships result, ack_TalkReleaseCount = rr_talkReleases result\<rparr>"
            have r2: "(case completeRevocation (jc_encode jc) (tn_io tn) svc mid h ack ?now l2 fs of
                (False, l3, fs3) \<Rightarrow> respondError mid ''overloaded'' l3 fs3
              | (True, l3, fs3) \<Rightarrow> (Some (MsgAck ack), False, l3, fs3)) = (r, c, l', fs')"
              using run Some False i id True ap res unfolding executeRevocation_def Let_def ack_def by simp
            obtain t where t: "revokeManagedServiceAdmission pr target ?until ?now s = (Some result, t)"
              using l2(6) res by (cases "revokeManagedServiceAdmission pr target ?until ?now s") simp
            have "gomap_wf (sas_denied a)" using wf Some a by (simp add: deny_wf_def)
            from revoke_denied [OF a this t] obtain b x where
              b: "s_serviceAdmission t = Some b" "gomap_wf (sas_denied b)" "map_of (sas_denied b) (target_denyRule target) = Some x"
                "?until \<le> x" by blast
            then have "denied l2 (target_denyRule target) = Some x" "deny_wf l2"
              using l2(5) t by (simp_all add: denied_def deny_wf_def)
            with b(4) have "link_inv l' \<and> l_commandSlots l' = l_commandSlots l2 \<and>
                revocation_result \<lparr>ik_serviceID = svc, ik_messageID = mid\<rparr> h (rv_DenyUntil command) ?now (target_denyRule target) r c l'"
              using new l1 l2 True
              by (intro complete_result [OF inv2 _ e2 entry(2,3) r2]) (auto simp: ack_def)
            then show ?thesis by (simp add: l1 l2)
          qed
        qed
      qed
    qed
  qed
qed

lemma begin_execute:
  assumes inv: "link_inv l" and run: "beginRevocation svc mid h now l = (Execute, l1)"
  shows "\<exists>e. map_of (l_idempotency l1) \<lparr>ik_serviceID = svc, ik_messageID = mid\<rparr> = Some e \<and> ie_bodyHash e = h \<and> \<not> ie_completed e"
    "l_server l1 = l_server l" "l_stateFile l1 = l_stateFile l" "l_commandSlots l1 = l_commandSlots l"
  using run
  by (auto simp: beginRevocation_def Let_def cleanupIdempotencyLocked_def split: option.splits if_splits)

lemma begin_frame:
  assumes "beginRevocation svc mid h now l = (r, l1)"
  shows "l_server l1 = l_server l" "l_commandSlots l1 = l_commandSlots l"
  using assms by (auto simp: beginRevocation_def Let_def cleanupIdempotencyLocked_def split: option.splits if_splits)


definition demoCommand :: privateControlRevokeServiceAdmission where
  "demoCommand = \<lparr>rv_SchemaVersion = privateControlSchemaVersion, rv_Type = ''revoke_service_admission'',
     rv_MessageID = ''AAAAAAAAAAAAAAAAAAAAAA'', rv_ChannelID = 5, rv_ServiceID = ''rec1'', rv_GrantIDHash = [],
     rv_Reason = ''acl_removed'', rv_DenyUntil = 3000\<rparr>"

definition demoSelector :: "string \<Rightarrow> privateControlCommandEnvelope" where
  "demoSelector type = \<lparr>en_SchemaVersion = privateControlSchemaVersion, en_Type = type,
     en_MessageID = ''AAAAAAAAAAAAAAAAAAAAAA''\<rparr>"

definition demoCodec :: privateControlCodec where
  "demoCodec = \<lparr>jc_tokenize = (\<lambda>raw. (True, [Scalar], EndOfInput)), jc_hello = (\<lambda>raw. None),
     jc_selector = (\<lambda>raw. None), jc_envelope = (\<lambda>raw. Some (demoSelector ''get_relay_state_snapshot'')),
     jc_revoke = (\<lambda>raw. Some demoCommand), jc_encode = (\<lambda>st. Some [1, 2])\<rparr>"

definition demoTurn :: privateControlTurn where
  "demoTurn = \<lparr>tn_begin = time_Unix 1000, tn_now = time_Unix 1001, tn_clock = (\<lambda>i. time_Unix 1002), tn_io = goodFiles,
     tn_wait = (\<lambda>l. (False, l)), tn_failure = time_Unix 1003\<rparr>"

lemma demo_payload: "validPayload (jc_tokenize demoCodec) raw = None"
  by (simp add: demoCodec_def validPayload_def validatePrivateControlJSON_def eval_nat_numeral)

lemma demo_decodes: "decodePrivateControlJSON demoCodec d raw = d raw"
  by (simp add: decodePrivateControlJSON_def demo_payload)

lemma demo_valid: "validPrivateControlRevocation demoCommand = Some demoTarget"
proof -
  have "managedServiceIDMatch ''rec1''" by code_simp
  then show ?thesis
    by (simp add: validPrivateControlRevocation_def demoCommand_def validID_demo decodePrivateControlGrantIDHash_def demoTarget_def)
qed


subsection \<open>Connections\<close>

text \<open>The hello frame that opens a session for the service the transport authenticated.\<close>

definition opens_session :: "privateControlCodec \<Rightarrow> privateControlConn \<Rightarrow> bool" where
  "opens_session jc cn \<longleftrightarrow>
     (\<exists>serviceID raw rest hello. cn_authenticated cn = Some serviceID \<and>
        readPrivateControlFrame (jc_tokenize jc) (cn_stream cn) = Inr (raw, rest) \<and>
        decodePrivateControlJSON jc (jc_hello jc) raw = Some hello \<and> validPrivateControlHello hello \<and>
        hl_ManagementServiceID hello = serviceID)"

definition untouched :: "privateControlLink \<Rightarrow> privateControlLink \<Rightarrow> bool" where
  "untouched l l' \<longleftrightarrow> l_server l' = l_server l \<and> l_store l' = l_store l \<and> l_sessions l' = l_sessions l \<and>
     l_commandSlots l' = l_commandSlots l \<and> l_dropped l' = l_dropped l"

lemma untouched_cleanup: "untouched l l1 \<Longrightarrow> untouched l (cleanupIdempotencyLocked now l1)"
  by (simp add: untouched_def cleanupIdempotencyLocked_def)

lemma untouched_failure: "untouched l l1 \<Longrightarrow> untouched l (recordConnectionFailure src now l1)"
  by (simp add: untouched_def recordConnectionFailure_def Let_def split_beta cleanupIdempotencyLocked_def)

lemma untouched_newID: "untouched l l1 \<Longrightarrow> untouched l (snd (newPrivateControlID l1))"
  by (simp add: untouched_def newPrivateControlID_def split: option.split)

lemma untouched_allow: "untouched l (snd (allowConnectionAttempt src now l))"
  using untouched_cleanup [of l l now]
  by (simp add: untouched_def allowConnectionAttempt_def Let_def split: option.split)

text \<open>
  A connection whose transport did not authenticate a management service, whose first frame is not a
  valid hello, or whose hello names another service than the transport authenticated, opens no session:
  it reaches neither the Relay nor the files nor any session, and what it is told is at most one error.
  The same holds for every connection of a source that is throttled.
\<close>

theorem unauthenticated_connection_inert:
  assumes refused: "\<not> opens_session jc cn \<or> \<not> fst (allowConnectionAttempt (cn_source cn) (cn_now cn) l)"
    and run: "handleConnection pr jc tn others cn l fs = (l', fs', told)"
  shows "untouched l l' \<and> fs' = fs \<and> length told \<le> 1"
proof -
  obtain ok l1 where a: "allowConnectionAttempt (cn_source cn) (cn_now cn) l = (ok, l1)" by fastforce
  have u: "untouched l l1" using untouched_allow [of l "cn_source cn" "cn_now cn"] by (simp add: a)
  note f = untouched_failure [OF u, of "cn_source cn" "cn_now cn"]
  show ?thesis
  proof (cases "ok \<and> cn_deadline cn")
    case False
    then show ?thesis using run a u by (auto simp: handleConnection_def Let_def split: bool.splits)
  next
    case True
    with refused a have no: "\<not> opens_session jc cn" by simp
    show ?thesis
    proof (cases "cn_authenticated cn")
      case None
      then show ?thesis using run a True f by (auto simp: handleConnection_def Let_def)
    next
      case (Some serviceID)
      show ?thesis
      proof (cases "readPrivateControlFrame (jc_tokenize jc) (cn_stream cn)")
        case (Inl err)
        then show ?thesis using run a True Some u f by (auto simp: handleConnection_def Let_def split: if_splits)
      next
        case (Inr p)
        obtain raw rest where p: "p = (raw, rest)" by fastforce
        show ?thesis
        proof (cases "decodePrivateControlJSON jc (jc_hello jc) raw")
          case None
          then show ?thesis using run a True Some Inr p f by (auto simp: handleConnection_def Let_def)
        next
          case hello: (Some hello)
          then have "\<not> validPrivateControlHello hello \<or> hl_ManagementServiceID hello \<noteq> serviceID"
            using no Some Inr p by (auto simp: opens_session_def)
          moreover obtain i l2 where i: "newPrivateControlID l1 = (i, l2)" by fastforce
          moreover have "untouched l l2" using untouched_newID [OF u] by (simp add: i)
          ultimately show ?thesis
            using run a True Some Inr p hello f
            by (cases i) (auto simp: handleConnection_def newPrivateControlError_def Let_def split: if_splits)
        qed
      qed
    qed
  qed
qed

definition strangerConn :: privateControlConn where
  "strangerConn = \<lparr>cn_source = ''192.0.2.7'', cn_authenticated = None, cn_stream = [], cn_deadline = True,
     cn_clearDeadline = True, cn_now = time_Unix 1000\<rparr>"

theorem unauthenticated_connection_inert_witness:
  "\<exists>l' fs' told. handleConnection demoPrims demoCodec (\<lambda>i. demoTurn) (\<lambda>i x. x) strangerConn demoLink [] = (l', fs', told) \<and>
     untouched demoLink l' \<and> fs' = []"
proof -
  obtain l' fs' told where run:
    "handleConnection demoPrims demoCodec (\<lambda>i. demoTurn) (\<lambda>i x. x) strangerConn demoLink [] = (l', fs', told)"
    by (metis surj_pair)
  have "\<not> opens_session demoCodec strangerConn" by (simp add: opens_session_def strangerConn_def)
  with unauthenticated_connection_inert [OF _ run] run show ?thesis by blast
qed

subsection \<open>Snapshots\<close>

lemma newID_length:
  assumes "newPrivateControlID l = (Some i, l1)"
  shows "length i = 22" "l_store l1 = l_store l"
proof -
  obtain raw where "i = b64Encode raw" "length raw = 16" "l_store l1 = l_store l"
    using assms by (auto simp: newPrivateControlID_def rand_Read_def split: if_splits)
  then show "length i = 22" "l_store l1 = l_store l" by (simp_all add: length_b64Encode)
qed

lemma enqueue_True:
  assumes "enqueue h m l = (True, l')" "map_of (l_store l) h = Some ss"
  shows "\<exists>ss'. map_of (l_store l') h = Some ss' \<and> ss_send ss' = ss_send ss @ [m]"
  using assms by (auto simp: enqueue_def session_enqueue_def split: if_splits)

lemma sendChunks_messages:
  assumes "sendChunks h req snap n i chunks l = (True, l')" "map_of (l_store l) h = Some ss"
  shows "\<exists>ss' ms. map_of (l_store l') h = Some ss' \<and> ss_send ss' = ss_send ss @ ms \<and> length ms = length chunks \<and>
    (\<forall>j<length chunks. \<exists>mid. length mid = 22 \<and> ms ! j = MsgSnapshot mid req snap (of_nat (i + j)) (of_nat n) (chunks ! j))"
  using assms
proof (induction chunks arbitrary: i l ss)
  case Nil
  then show ?case by auto
next
  case (Cons c chunks)
  from Cons.prems(1) obtain mid l1 l2 where r: "newPrivateControlID l = (Some mid, l1)"
    "enqueue h (MsgSnapshot mid req snap (of_nat i) (of_nat n) c) l1 = (True, l2)"
    "sendChunks h req snap n (Suc i) chunks l2 = (True, l')"
    by (auto split: option.splits prod.splits bool.splits)
  have "map_of (l_store l1) h = Some ss" using Cons.prems(2) newID_length(2) [OF r(1)] by simp
  from enqueue_True [OF r(2) this] obtain ss2 where
    s2: "map_of (l_store l2) h = Some ss2" "ss_send ss2 = ss_send ss @ [MsgSnapshot mid req snap (of_nat i) (of_nat n) c]" by blast
  from Cons.IH [OF r(3) s2(1)] obtain ss' ms where ms: "map_of (l_store l') h = Some ss'" "ss_send ss' = ss_send ss2 @ ms"
    "length ms = length chunks"
    "\<And>j. j < length chunks \<Longrightarrow> \<exists>mid. length mid = 22 \<and> ms ! j = MsgSnapshot mid req snap (of_nat (Suc i + j)) (of_nat n) (chunks ! j)"
    by blast
  let ?ms = "MsgSnapshot mid req snap (of_nat i) (of_nat n) c # ms"
  have "\<exists>m. length m = 22 \<and> ?ms ! j = MsgSnapshot m req snap (of_nat (i + j)) (of_nat n) ((c # chunks) ! j)"
    if "j < length (c # chunks)" for j
  proof (cases j)
    case 0
    then show ?thesis using newID_length(1) [OF r(1)] by auto
  next
    case (Suc k)
    then show ?thesis using ms(4) [of k] that by simp
  qed
  then show ?case using ms s2 by (intro exI [of _ ss'] exI [of _ ?ms]) simp
qed

text \<open>
  A snapshot request that succeeds puts the whole snapshot on the queue of its session and nothing
  else: one message per chunk, numbered from 0 under one snapshot identifier and the same count, and each
  of them encodes to a frame the writer accepts.
\<close>

theorem snapshot_sent_whole:
  assumes request: "decodePrivateControlJSON jc (jc_envelope jc) raw = Some request"
    "validPrivateControlGetRelayStateSnapshot request"
    and relay: "l_server l = Some s" "privateControlSnapshotChunks s = Some chunks"
    and session: "map_of (l_store l) h = Some ss"
    and run: "handleRelayStateSnapshot jc h raw selector l = (True, l')"
  shows "\<exists>ss' ms snap. map_of (l_store l') h = Some ss' \<and> ss_send ss' = ss_send ss @ ms \<and> length ms = length chunks \<and>
    (\<forall>j<length chunks. \<exists>mid. ms ! j = MsgSnapshot mid (en_MessageID request) snap (of_nat j) (of_nat (length chunks)) (chunks ! j) \<and>
       length (marshalSnapshot mid (en_MessageID request) snap (of_nat j) (of_nat (length chunks)) (chunks ! j)) \<in> {2..65536})"
proof -
  from run request relay obtain snap l1 where r: "newPrivateControlID l = (Some snap, l1)"
    "sendChunks h (en_MessageID request) snap (length chunks) 0 chunks l1 = (True, l')"
    by (auto simp: handleRelayStateSnapshot_def split: option.splits prod.splits)
  have "map_of (l_store l1) h = Some ss" using session newID_length(2) [OF r(1)] by simp
  from sendChunks_messages [OF r(2) this] obtain ss' ms where ms: "map_of (l_store l') h = Some ss'"
    "ss_send ss' = ss_send ss @ ms" "length ms = length chunks"
    "\<And>j. j < length chunks \<Longrightarrow>
       \<exists>mid. length mid = 22 \<and> ms ! j = MsgSnapshot mid (en_MessageID request) snap (of_nat j) (of_nat (length chunks)) (chunks ! j)"
    by auto
  note c = chunks_of_entries [OF relay(2) [unfolded privateControlSnapshotChunks_def]]
  have req: "length (en_MessageID request) = 22"
    using request(2) by (auto simp: validPrivateControlGetRelayStateSnapshot_def validEnvelope_def validPrivateControlID_def split: if_splits)
  have small: "unat (of_nat k :: u16) = k" if "k \<le> 64" for k using that by (simp add: unat_of_nat)
  have size: "length (marshalSnapshot mid (en_MessageID request) snap (of_nat j) (of_nat (length chunks)) (chunks ! j)) \<in> {2..65536}"
    if "j < length chunks" "length mid = 22" for j mid
  proof -
    have "privateControlSnapshotChannelsFit (chunks ! j)" using c(2) that(1) by simp
    then have "length (marshalSnapshot mid (en_MessageID request) snap (of_nat j) (of_nat (length chunks)) (chunks ! j)) \<le> 64512"
      by (rule fit_frame) (use that c(4) req newID_length(1) [OF r(1)] small in auto)
    then show ?thesis using that(2) by (simp add: length_snapshot [of mid])
  qed
  show ?thesis using ms size by (intro exI [of _ ss'] exI [of _ ms] exI [of _ snap]) blast
qed

definition snapLink :: privateControlLink where
  "snapLink = demoLink\<lparr>l_server := Some (recorderRelay\<lparr>s_channels := []\<rparr>),
     l_store := [(0, \<lparr>ss_serviceID = ''mgmt-1'', ss_lifecycleEvents = False, ss_auditInputs = False, ss_diagnostics = False,
        ss_lastDiagnostics = 0, ss_send = [], ss_done = False\<rparr>)], l_sessions := [(''mgmt-1'', 0)]\<rparr>"

lemma snap_sent:
  "\<exists>l'. handleRelayStateSnapshot demoCodec 0 [] (demoSelector ''get_relay_state_snapshot'') snapLink = (True, l')"
proof -
  have ok: "validPrivateControlGetRelayStateSnapshot (demoSelector ''get_relay_state_snapshot'')"
    by (simp add: validPrivateControlGetRelayStateSnapshot_def validEnvelope_def demoSelector_def validID_demo)
  have dec: "decodePrivateControlJSON demoCodec (jc_envelope demoCodec) [] = Some (demoSelector ''get_relay_state_snapshot'')"
    by (simp add: demo_decodes) (simp add: demoCodec_def)
  have chunks: "privateControlSnapshotChunks (recorderRelay\<lparr>s_channels := []\<rparr>) = Some [[]]"
    by (simp add: privateControlSnapshotChunks_def privateControlChunkSnapshotEntries_def snapshotEntries_def)
  have "length (l_entropy snapLink) = 64" "l_server snapLink = Some (recorderRelay\<lparr>s_channels := []\<rparr>)"
    by (simp_all add: snapLink_def demoLink_def)
  then show ?thesis
    unfolding handleRelayStateSnapshot_def dec
    by (simp add: ok chunks newPrivateControlID_def rand_Read_def enqueue_def session_enqueue_def)
      (simp add: snapLink_def session_enqueue_def)
qed

theorem snapshot_sent_whole_witness:
  "\<exists>l' ss'. handleRelayStateSnapshot demoCodec 0 [] (demoSelector ''get_relay_state_snapshot'') snapLink = (True, l') \<and>
     map_of (l_store l') 0 = Some ss' \<and> length (ss_send ss') = 1"
proof -
  obtain l' where run: "handleRelayStateSnapshot demoCodec 0 [] (demoSelector ''get_relay_state_snapshot'') snapLink = (True, l')"
    using snap_sent by blast
  have ok: "validPrivateControlGetRelayStateSnapshot (demoSelector ''get_relay_state_snapshot'')"
    by (simp add: validPrivateControlGetRelayStateSnapshot_def validEnvelope_def demoSelector_def validID_demo)
  have dec: "decodePrivateControlJSON demoCodec (jc_envelope demoCodec) [] = Some (demoSelector ''get_relay_state_snapshot'')"
    by (simp add: demo_decodes) (simp add: demoCodec_def)
  have chunks: "privateControlSnapshotChunks (recorderRelay\<lparr>s_channels := []\<rparr>) = Some [[]]"
    by (simp add: privateControlSnapshotChunks_def privateControlChunkSnapshotEntries_def snapshotEntries_def)
  have srv: "l_server snapLink = Some (recorderRelay\<lparr>s_channels := []\<rparr>)"
    and sess: "map_of (l_store snapLink) 0 = Some \<lparr>ss_serviceID = ''mgmt-1'', ss_lifecycleEvents = False, ss_auditInputs = False,
        ss_diagnostics = False, ss_lastDiagnostics = 0, ss_send = [], ss_done = False\<rparr>"
    by (simp_all add: snapLink_def)
  from snapshot_sent_whole [OF dec ok srv chunks sess run]
  obtain ss' ms where "map_of (l_store l') 0 = Some ss'" "ss_send ss' = ms" "length ms = 1" by auto
  with run show ?thesis by blast
qed

end
