(* ===== verification/Directory_Envelope.thy ===== *)
theory Directory_Envelope
  imports Private_Snapshot
begin

text \<open>
  Directory UDP v3 on the wire (directory_v3.go): key derivation, the JSON envelope with its AES-GCM
  ciphertext, and the opening of a client's datagram. AES-GCM and the decoders of \<^verbatim>\<open>encoding/json\<close> are
  parameters; the encoding of an envelope is written out. A datagram sealed by a client opens at the
  Relay to the payload that was sealed, and what opens was sealed under the channel's key for the same
  type, channel, epoch, sequence, expiry and transport.
\<close>

subsection \<open>Constants\<close>

abbreviation (input) directoryV3Version :: u64 where "directoryV3Version \<equiv> 3"
abbreviation (input) directoryTransportDedicated :: u8 where "directoryTransportDedicated \<equiv> 0"
abbreviation (input) directoryTransportMedia :: u8 where "directoryTransportMedia \<equiv> 1"
abbreviation (input) directoryCarrierVersion :: u8 where "directoryCarrierVersion \<equiv> 1"
abbreviation (input) directoryMaxJSONInteger :: u64 where "directoryMaxJSONInteger \<equiv> 9007199254740991"

definition directoryAADPrefix :: bytes where
  "directoryAADPrefix = bytes_of ''IncomUdon Directory Envelope AAD v3'' @ [0]"

definition directoryC2RInfo :: bytes where
  "directoryC2RInfo = bytes_of ''incomudon-directory-channel-v3 client-to-relay''"

definition directoryR2CInfo :: bytes where
  "directoryR2CInfo = bytes_of ''incomudon-directory-channel-v3 relay-to-client''"

definition directoryEnvelopeInfo :: bytes where
  "directoryEnvelopeInfo = bytes_of ''incomudon-directory-envelope-v3''"

datatype directoryTransport = MediaPort | DedicatedUDP

definition transport_binding :: "directoryTransport \<Rightarrow> u8" where
  "transport_binding t = (if t = MediaPort then directoryTransportMedia else directoryTransportDedicated)"

subsection \<open>Keys\<close>

text \<open>
  The expansion loop of HKDF. Every round adds at least one byte when the hash is not empty, so the
  requested length is fuel enough; \<open>None\<close> is a loop that does not end.
\<close>

fun hkdfExpand ::
  "prims \<Rightarrow> bytes \<Rightarrow> bytes \<Rightarrow> nat \<Rightarrow> nat \<Rightarrow> u8 \<Rightarrow> bytes \<Rightarrow> bytes \<Rightarrow> bytes option" where
  "hkdfExpand pr prk info outputLength fuel counter previous output =
     (if \<not> length output < outputLength then Some output
      else case fuel of
        0 \<Rightarrow> None
      | Suc n \<Rightarrow>
          let block = hmacSHA256 pr prk (previous @ info @ [counter])
          in hkdfExpand pr prk info outputLength n (counter + 1) block (output @ take (outputLength - length output) block))"

declare hkdfExpand.simps [simp del]

definition hkdfSHA256 :: "prims \<Rightarrow> bytes \<Rightarrow> bytes option \<Rightarrow> bytes \<Rightarrow> int \<Rightarrow> bytes option" where
  "hkdfSHA256 pr ikm salt info outputLength =
     (if outputLength < 0 \<or> 255 * 32 < outputLength then None
      else let prk = hmacSHA256 pr (case salt of None \<Rightarrow> replicate 32 0 | Some s \<Rightarrow> s) ikm
        in hkdfExpand pr prk info (nat outputLength) (nat outputLength) 1 [] [])"

record directoryKeyMaterial =
  dk_channel :: bytes
  dk_c2r :: bytes
  dk_r2c :: bytes

type_synonym directoryKeyStore = "(u32, directoryKeyMaterial) gomap"

definition newDirectoryKeyMaterial :: "prims \<Rightarrow> bytes \<Rightarrow> directoryKeyMaterial option" where
  "newDirectoryKeyMaterial pr channelKey =
     (if length channelKey \<noteq> 32 then None
      else case hkdfSHA256 pr channelKey None directoryC2RInfo 32 of
        None \<Rightarrow> None
      | Some c2r \<Rightarrow>
          (case hkdfSHA256 pr channelKey None directoryR2CInfo 32 of
             None \<Rightarrow> None
           | Some r2c \<Rightarrow> Some \<lparr>dk_channel = channelKey, dk_c2r = c2r, dk_r2c = r2c\<rparr>))"

definition directoryEpochKey :: "prims \<Rightarrow> bytes \<Rightarrow> bytes \<Rightarrow> bytes option" where
  "directoryEpochKey pr directionalKey epoch = hkdfSHA256 pr directionalKey (Some epoch) directoryEnvelopeInfo 32"

subsection \<open>Messages\<close>

record directoryEnvelope =
  de_Version :: u64
  de_Type :: string
  de_ChannelID :: u32
  de_Epoch :: string
  de_Sequence :: u64
  de_ExpiresAt :: u64
  de_Ciphertext :: string

text \<open>The targets of the decoders: a missing or null field is \<open>None\<close>.\<close>

record directoryEnvelopeInput =
  dei_Version :: "u64 option"
  dei_Type :: "string option"
  dei_ChannelID :: "u32 option"
  dei_Epoch :: "string option"
  dei_Sequence :: "u64 option"
  dei_ExpiresAt :: "u64 option"
  dei_Ciphertext :: "string option"

record directoryRequestPayload =
  dq_Version :: u64
  dq_IssuedAt :: u64
  dq_ExpiresAt :: u64
  dq_RequestID :: string
  dq_Resource :: string
  dq_Cursor :: "string option"

record directoryRequestInput =
  dqi_Version :: "u64 option"
  dqi_IssuedAt :: "u64 option"
  dqi_ExpiresAt :: "u64 option"
  dqi_RequestID :: "string option"
  dqi_Resource :: "string option"
  dqi_Cursor :: "bytes option"

record directoryRegistrationPayload =
  dg_Version :: u64
  dg_IssuedAt :: u64
  dg_ExpiresAt :: u64
  dg_InstanceID :: string

record directoryRegistrationInput =
  dgi_Version :: "u64 option"
  dgi_IssuedAt :: "u64 option"
  dgi_ExpiresAt :: "u64 option"
  dgi_InstanceID :: "string option"

record directoryOpenedDatagram =
  do_envelope :: directoryEnvelope
  do_epoch :: bytes
  do_binding :: u8
  do_request :: "directoryRequestPayload option"
  do_registration :: "directoryRegistrationPayload option"

text \<open>
  The code the Directory calls and does not contain: HMAC and SHA-256, AES-GCM (key, nonce, text,
  additional data), and the strict decoders (\<^verbatim>\<open>decodeDirectoryJSON\<close> into each target, and the decoder
  of a cursor).
\<close>

record directoryPrims =
  dp_prims :: prims
  gcm_Seal :: "bytes \<Rightarrow> bytes \<Rightarrow> bytes \<Rightarrow> bytes \<Rightarrow> bytes"
  gcm_Open :: "bytes \<Rightarrow> bytes \<Rightarrow> bytes \<Rightarrow> bytes \<Rightarrow> bytes option"
  dp_envelope :: "bytes \<Rightarrow> directoryEnvelopeInput option"
  dp_request :: "bytes \<Rightarrow> directoryRequestInput option"
  dp_registration :: "bytes \<Rightarrow> directoryRegistrationInput option"
  dp_cursor :: "bytes \<Rightarrow> string option"

definition directoryNonce :: "u64 \<Rightarrow> bytes" where
  "directoryNonce sequence = directoryCarrierMagic @ PutUint64 sequence"

definition directoryAAD :: "directoryEnvelope \<Rightarrow> bytes \<Rightarrow> u8 \<Rightarrow> bytes" where
  "directoryAAD envelope epoch binding =
     directoryAADPrefix @ [ucast (de_Version envelope), binding, of_nat (length (de_Type envelope))] @
     bytes_of (de_Type envelope) @ PutUint32 (de_ChannelID envelope) @ epoch @
     PutUint64 (de_Sequence envelope) @ PutUint64 (de_ExpiresAt envelope)"

definition decodeCanonicalDirectoryID :: "string \<Rightarrow> bytes option" where
  "decodeCanonicalDirectoryID value =
     (if length value \<noteq> 22 \<or> CHR ''='' \<in> set value then None
      else case b64Decode value of
        None \<Rightarrow> None
      | Some decoded \<Rightarrow>
          if length decoded \<noteq> 16 then None
          else if b64Encode decoded \<noteq> value then None else Some decoded)"

definition isDirectoryClientType :: "string \<Rightarrow> bool" where
  "isDirectoryClientType value \<longleftrightarrow> value = ''request'' \<or> value = ''register'' \<or> value = ''heartbeat''"

definition isDirectoryRelayType :: "string \<Rightarrow> bool" where
  "isDirectoryRelayType value \<longleftrightarrow> value = ''snapshot'' \<or> value = ''participants'' \<or> value = ''error''"

definition validateDirectoryClientPayload :: "u64 \<Rightarrow> u64 \<Rightarrow> u64 \<Rightarrow> u64 \<Rightarrow> gotime \<Rightarrow> bool" where
  "validateDirectoryClientPayload version issuedAt expiresAt envelopeExpiresAt now =
     (if version \<noteq> directoryV3Version \<or> issuedAt = 0 \<or> directoryMaxJSONInteger < issuedAt \<or> expiresAt = 0 \<or>
         directoryMaxJSONInteger < expiresAt then False
      else if expiresAt \<le> issuedAt \<or> expiresAt \<noteq> envelopeExpiresAt \<or> 30 < expiresAt - issuedAt then False
      else \<not> expiresAt \<le> of_int (Unix_of now))"

subsection \<open>Opening\<close>

datatype openError = OpenSize | OpenBinding | OpenEnvelope | OpenMissing | OpenVersion | OpenType | OpenNumbers |
  OpenExpired | OpenEpoch | OpenChannel | OpenCiphertext | OpenKey | OpenAuthentication | OpenPayload |
  OpenPayloadMissing | OpenLifetime | OpenID | OpenResource | OpenCursor

definition requiredEnvelope :: "directoryEnvelopeInput \<Rightarrow> directoryEnvelope option" where
  "requiredEnvelope i =
     (case (dei_Version i, dei_Type i, dei_ChannelID i, dei_Epoch i, dei_Sequence i, dei_ExpiresAt i, dei_Ciphertext i) of
        (Some v, Some t, Some c, Some e, Some s, Some x, Some ct) \<Rightarrow>
          Some \<lparr>de_Version = v, de_Type = t, de_ChannelID = c, de_Epoch = e, de_Sequence = s, de_ExpiresAt = x,
                de_Ciphertext = ct\<rparr>
      | _ \<Rightarrow> None)"

text \<open>The checks before the key is looked up.\<close>

definition checkEnvelope :: "directoryPrims \<Rightarrow> bytes \<Rightarrow> u8 \<Rightarrow> gotime \<Rightarrow> openError + directoryEnvelope \<times> bytes" where
  "checkEnvelope dp data binding now =
     (if \<not> acceptsUDPDatagramSize (int (length data)) then Inl OpenSize
      else if binding \<noteq> directoryTransportDedicated \<and> binding \<noteq> directoryTransportMedia then Inl OpenBinding
      else case dp_envelope dp data of
        None \<Rightarrow> Inl OpenEnvelope
      | Some input \<Rightarrow>
      (case requiredEnvelope input of
        None \<Rightarrow> Inl OpenMissing
      | Some envelope \<Rightarrow>
        if de_Version envelope \<noteq> directoryV3Version then Inl OpenVersion
        else if \<not> isDirectoryClientType (de_Type envelope) then Inl OpenType
        else if de_Sequence envelope = 0 \<or> directoryMaxJSONInteger < de_Sequence envelope \<or>
                de_ExpiresAt envelope = 0 \<or> directoryMaxJSONInteger < de_ExpiresAt envelope then Inl OpenNumbers
        else if de_ExpiresAt envelope \<le> of_int (Unix_of now) then Inl OpenExpired
        else (case decodeCanonicalDirectoryID (de_Epoch envelope) of
            None \<Rightarrow> Inl OpenEpoch
          | Some epoch \<Rightarrow> Inr (envelope, epoch))))"

text \<open>The plaintext. A key of a size AES does not have is refused by \<^verbatim>\<open>aes.NewCipher\<close>.\<close>

definition decryptEnvelope ::
  "directoryPrims \<Rightarrow> directoryKeyStore \<Rightarrow> u8 \<Rightarrow> directoryEnvelope \<Rightarrow> bytes \<Rightarrow> openError + bytes" where
  "decryptEnvelope dp keys binding envelope epoch =
     (case map_of keys (de_ChannelID envelope) of
        None \<Rightarrow> Inl OpenChannel
      | Some material \<Rightarrow>
      (case b64Decode (de_Ciphertext envelope) of
        None \<Rightarrow> Inl OpenCiphertext
      | Some ciphertext \<Rightarrow>
        if length ciphertext < 16 then Inl OpenCiphertext
        else (case directoryEpochKey (dp_prims dp) (dk_c2r material) epoch of
          None \<Rightarrow> Inl OpenKey
        | Some key \<Rightarrow>
          if length key \<notin> {16, 24, 32} then Inl OpenKey
          else (case gcm_Open dp key (directoryNonce (de_Sequence envelope)) ciphertext
                       (directoryAAD envelope epoch binding) of
            None \<Rightarrow> Inl OpenAuthentication
          | Some plaintext \<Rightarrow> Inr plaintext))))"

definition openCursor :: "directoryPrims \<Rightarrow> string \<Rightarrow> bytes option \<Rightarrow> openError + string option" where
  "openCursor dp resource raw =
     (case raw of
        None \<Rightarrow> Inr None
      | Some raw' \<Rightarrow>
          if raw' = bytes_of ''null'' then Inl OpenCursor
          else (case dp_cursor dp raw' of
              None \<Rightarrow> Inl OpenCursor
            | Some cursor \<Rightarrow>
                if resource \<noteq> ''snapshot'' \<or> cursor = [] \<or> 512 < length cursor then Inl OpenCursor
                else Inr (Some cursor)))"

definition openRequest :: "directoryPrims \<Rightarrow> u64 \<Rightarrow> gotime \<Rightarrow> bytes \<Rightarrow> openError + directoryRequestPayload" where
  "openRequest dp envelopeExpiresAt now plaintext =
     (case dp_request dp plaintext of
        None \<Rightarrow> Inl OpenPayload
      | Some input \<Rightarrow>
      (case (dqi_Version input, dqi_IssuedAt input, dqi_ExpiresAt input, dqi_RequestID input, dqi_Resource input) of
        (Some version, Some issuedAt, Some expiresAt, Some requestID, Some resource) \<Rightarrow>
          if \<not> validateDirectoryClientPayload version issuedAt expiresAt envelopeExpiresAt now then Inl OpenLifetime
          else if decodeCanonicalDirectoryID requestID = None then Inl OpenID
          else if resource \<noteq> ''participants'' \<and> resource \<noteq> ''snapshot'' then Inl OpenResource
          else (case openCursor dp resource (dqi_Cursor input) of
              Inl e \<Rightarrow> Inl e
            | Inr cursor \<Rightarrow>
                Inr \<lparr>dq_Version = version, dq_IssuedAt = issuedAt, dq_ExpiresAt = expiresAt, dq_RequestID = requestID,
                     dq_Resource = resource, dq_Cursor = cursor\<rparr>)
      | _ \<Rightarrow> Inl OpenPayloadMissing))"

definition openRegistration ::
  "directoryPrims \<Rightarrow> u64 \<Rightarrow> gotime \<Rightarrow> bytes \<Rightarrow> openError + directoryRegistrationPayload" where
  "openRegistration dp envelopeExpiresAt now plaintext =
     (case dp_registration dp plaintext of
        None \<Rightarrow> Inl OpenPayload
      | Some input \<Rightarrow>
      (case (dgi_Version input, dgi_IssuedAt input, dgi_ExpiresAt input, dgi_InstanceID input) of
        (Some version, Some issuedAt, Some expiresAt, Some instanceID) \<Rightarrow>
          if \<not> validateDirectoryClientPayload version issuedAt expiresAt envelopeExpiresAt now then Inl OpenLifetime
          else if decodeCanonicalDirectoryID instanceID = None then Inl OpenID
          else Inr \<lparr>dg_Version = version, dg_IssuedAt = issuedAt, dg_ExpiresAt = expiresAt, dg_InstanceID = instanceID\<rparr>
      | _ \<Rightarrow> Inl OpenPayloadMissing))"

definition openDirectoryDatagram ::
  "directoryPrims \<Rightarrow> bytes \<Rightarrow> u8 \<Rightarrow> directoryKeyStore \<Rightarrow> gotime \<Rightarrow> openError + directoryOpenedDatagram" where
  "openDirectoryDatagram dp data binding keys now =
     (case checkEnvelope dp data binding now of
        Inl e \<Rightarrow> Inl e
      | Inr (envelope, epoch) \<Rightarrow>
      (case decryptEnvelope dp keys binding envelope epoch of
        Inl e \<Rightarrow> Inl e
      | Inr plaintext \<Rightarrow>
        if de_Type envelope = ''request'' then
          (case openRequest dp (de_ExpiresAt envelope) now plaintext of
             Inl e \<Rightarrow> Inl e
           | Inr request \<Rightarrow>
               Inr \<lparr>do_envelope = envelope, do_epoch = epoch, do_binding = binding, do_request = Some request,
                    do_registration = None\<rparr>)
        else
          (case openRegistration dp (de_ExpiresAt envelope) now plaintext of
             Inl e \<Rightarrow> Inl e
           | Inr registration \<Rightarrow>
               Inr \<lparr>do_envelope = envelope, do_epoch = epoch, do_binding = binding, do_request = None,
                    do_registration = Some registration\<rparr>)))"

subsection \<open>Sealing\<close>

text \<open>The encoding of an envelope: the type is one of six names and the other texts are base64url.\<close>

definition marshalEnvelope :: "directoryEnvelope \<Rightarrow> string" where
  "marshalEnvelope e =
     jsonObject [field ''v'' (decimal (unat (de_Version e))), field ''type'' (quoted (de_Type e)),
       field ''channelId'' (decimal (unat (de_ChannelID e))), field ''epoch'' (quoted (de_Epoch e)),
       field ''sequence'' (decimal (unat (de_Sequence e))), field ''expiresAt'' (decimal (unat (de_ExpiresAt e))),
       field ''ciphertext'' (quoted (de_Ciphertext e))]"

definition sealedEnvelope ::
  "directoryPrims \<Rightarrow> bytes \<Rightarrow> bytes \<Rightarrow> string \<Rightarrow> u32 \<Rightarrow> bytes \<Rightarrow> u64 \<Rightarrow> u64 \<Rightarrow> u8 \<Rightarrow> directoryEnvelope" where
  "sealedEnvelope dp key plaintext envelopeType channelID epoch sequence expiresAt binding =
     (let envelope = \<lparr>de_Version = directoryV3Version, de_Type = envelopeType, de_ChannelID = channelID,
            de_Epoch = b64Encode epoch, de_Sequence = sequence, de_ExpiresAt = expiresAt, de_Ciphertext = []\<rparr>
      in envelope\<lparr>de_Ciphertext := b64Encode (gcm_Seal dp key (directoryNonce sequence) plaintext
            (directoryAAD envelope epoch binding))\<rparr>)"

definition sealDirectoryEnvelope ::
  "directoryPrims \<Rightarrow> bytes \<Rightarrow> string \<Rightarrow> u32 \<Rightarrow> bytes \<Rightarrow> bytes \<Rightarrow> u64 \<Rightarrow> u64 \<Rightarrow> u8 \<Rightarrow> bytes option" where
  "sealDirectoryEnvelope dp plaintext envelopeType channelID directionalKey epoch sequence expiresAt binding =
     (if sequence = 0 \<or> directoryMaxJSONInteger < sequence \<or> expiresAt = 0 \<or> directoryMaxJSONInteger < expiresAt
      then None
      else if binding \<noteq> directoryTransportDedicated \<and> binding \<noteq> directoryTransportMedia then None
      else case directoryEpochKey (dp_prims dp) directionalKey epoch of
        None \<Rightarrow> None
      | Some key \<Rightarrow>
        if length key \<notin> {16, 24, 32} then None
        else let envelope = sealedEnvelope dp key plaintext envelopeType channelID epoch sequence expiresAt binding;
                 json = bytes_of (marshalEnvelope envelope);
                 datagram = (if binding = directoryTransportMedia
                             then directoryCarrierMagic @ [directoryCarrierVersion] @ json else json)
             in if acceptsUDPDatagramSize (int (length datagram)) then Some datagram else None)"

definition sealDirectoryDatagram ::
  "directoryPrims \<Rightarrow> bytes \<Rightarrow> string \<Rightarrow> u32 \<Rightarrow> directoryKeyMaterial \<Rightarrow> bytes \<Rightarrow> u64 \<Rightarrow> u64 \<Rightarrow> u8 \<Rightarrow> bytes option" where
  "sealDirectoryDatagram dp plaintext envelopeType channelID material epoch sequence expiresAt binding =
     (if \<not> isDirectoryRelayType envelopeType then None
      else sealDirectoryEnvelope dp plaintext envelopeType channelID (dk_r2c material) epoch sequence expiresAt binding)"

definition sealDirectoryClientDatagram ::
  "directoryPrims \<Rightarrow> bytes \<Rightarrow> string \<Rightarrow> u32 \<Rightarrow> directoryKeyMaterial \<Rightarrow> bytes \<Rightarrow> u64 \<Rightarrow> u64 \<Rightarrow> u8 \<Rightarrow> bytes option" where
  "sealDirectoryClientDatagram dp plaintext envelopeType channelID material epoch sequence expiresAt binding =
     (if \<not> isDirectoryClientType envelopeType then None
      else sealDirectoryEnvelope dp plaintext envelopeType channelID (dk_c2r material) epoch sequence expiresAt binding)"

subsection \<open>Keys have 32 bytes\<close>

lemma hkdfExpand_length:
  assumes hash: "\<And>k m. length (hmacSHA256 pr k m) = 32"
    and "length acc \<le> n" "n \<le> length acc + fuel"
  shows "\<exists>out. hkdfExpand pr prk info n fuel counter previous acc = Some out \<and> length out = n"
  using assms(2-)
proof (induction fuel arbitrary: counter previous acc)
  case 0
  then show ?case by (simp add: hkdfExpand.simps)
next
  case (Suc fuel)
  show ?case
  proof (cases "length acc < n")
    case True
    let ?block = "hmacSHA256 pr prk (previous @ info @ [counter])"
    have "length (acc @ take (n - length acc) ?block) \<le> n"
      "n \<le> length (acc @ take (n - length acc) ?block) + fuel"
      using True Suc.prems by (auto simp: hash min_def)
    from Suc.IH [OF this] show ?thesis
      using True by (subst hkdfExpand.simps) (simp add: Let_def)
  next
    case False
    with Suc.prems show ?thesis by (subst hkdfExpand.simps) simp
  qed
qed

lemma hkdfSHA256_length:
  assumes "\<And>k m. length (hmacSHA256 pr k m) = 32" "0 \<le> n" "n \<le> 8160"
  shows "\<exists>out. hkdfSHA256 pr ikm salt info n = Some out \<and> length out = nat n"
  using hkdfExpand_length [OF assms(1), of "[]" "nat n" "nat n"] assms(2,3)
  by (simp add: hkdfSHA256_def Let_def)

lemma directoryEpochKey_32:
  assumes "\<And>k m. length (hmacSHA256 pr k m) = 32"
  obtains key where "directoryEpochKey pr dk epoch = Some key" "length key = 32"
  using hkdfSHA256_length [OF assms, of 32 dk "Some epoch" directoryEnvelopeInfo]
  by (auto simp: directoryEpochKey_def)

lemma newDirectoryKeyMaterial_Some:
  assumes "\<And>k m. length (hmacSHA256 pr k m) = 32" "length key = 32"
  obtains material where "newDirectoryKeyMaterial pr key = Some material" "dk_channel material = key"
    "length (dk_c2r material) = 32" "length (dk_r2c material) = 32"
  using hkdfSHA256_length [OF assms(1), of 32 key None directoryC2RInfo]
    hkdfSHA256_length [OF assms(1), of 32 key None directoryR2CInfo] assms(2)
  by (auto simp: newDirectoryKeyMaterial_def)

subsection \<open>What a datagram's authentication covers\<close>

lemma client_type_length: "isDirectoryClientType t \<Longrightarrow> length t \<in> {7, 8, 9}"
  by (auto simp: isDirectoryClientType_def)

lemma PutUint64_inject [simp]: "PutUint64 a = PutUint64 b \<longleftrightarrow> a = b"
  by (metis Uint64_Put)

lemma bytes_of_inject [simp]: "bytes_of s = bytes_of t \<longleftrightarrow> s = t"
proof
  assume "bytes_of s = bytes_of t"
  then have "string_of (bytes_of s) = string_of (bytes_of t)" by simp
  then show "s = t" by (simp add: string_of_bytes_of)
qed simp

lemma directoryAAD_inject:
  assumes "isDirectoryClientType (de_Type e)" "isDirectoryClientType (de_Type e')"
    and "length epoch = 16" "length epoch' = 16" "directoryAAD e epoch b = directoryAAD e' epoch' b'"
  shows "de_Type e = de_Type e' \<and> de_ChannelID e = de_ChannelID e' \<and> epoch = epoch' \<and>
    de_Sequence e = de_Sequence e' \<and> de_ExpiresAt e = de_ExpiresAt e' \<and> b = b'"
proof -
  have "(of_nat (length (de_Type e)) :: u8) = of_nat (length (de_Type e'))" and b: "b = b'"
    using assms(5) by (simp_all add: directoryAAD_def)
  then have len: "length (de_Type e) = length (de_Type e')"
    using client_type_length [OF assms(1)] client_type_length [OF assms(2)] by auto
  with assms(3-5) b show ?thesis by (simp add: directoryAAD_def PutUint32_inject)
qed

lemma decodeCanonicalDirectoryID_Some:
  "decodeCanonicalDirectoryID v = Some d \<Longrightarrow> length d = 16 \<and> v = b64Encode d"
  by (auto simp: decodeCanonicalDirectoryID_def split: if_splits option.splits)

lemma decodeCanonicalDirectoryID_encode: "length d = 16 \<Longrightarrow> decodeCanonicalDirectoryID (b64Encode d) = Some d"
  using set_b64Encode [of d] b64Alphabet_facts(3)
  by (auto simp: decodeCanonicalDirectoryID_def b64Decode_Encode length_b64Encode)

lemma checkEnvelope_Inr:
  assumes "checkEnvelope dp data binding now = Inr (e, epoch)"
  shows "binding \<in> {0, 1}" "de_Version e = 3" "isDirectoryClientType (de_Type e)" "de_Sequence e \<noteq> 0"
    "of_int (Unix_of now) < de_ExpiresAt e" "length epoch = 16" "de_Epoch e = b64Encode epoch"
  using assms decodeCanonicalDirectoryID_Some [of "de_Epoch e" epoch]
  by (auto simp: checkEnvelope_def split: if_splits option.splits)

lemma decryptEnvelope_Inr:
  assumes "decryptEnvelope dp keys binding e epoch = Inr plaintext"
  obtains material ciphertext key where "map_of keys (de_ChannelID e) = Some material"
    "b64Decode (de_Ciphertext e) = Some ciphertext" "directoryEpochKey (dp_prims dp) (dk_c2r material) epoch = Some key"
    "gcm_Open dp key (directoryNonce (de_Sequence e)) ciphertext (directoryAAD e epoch binding) = Some plaintext"
  using assms by (auto simp: decryptEnvelope_def split: if_splits option.splits)

lemma openDirectoryDatagram_Inr:
  assumes "openDirectoryDatagram dp data binding keys now = Inr opened"
  obtains e epoch plaintext where "checkEnvelope dp data binding now = Inr (e, epoch)"
    "decryptEnvelope dp keys binding e epoch = Inr plaintext"
    "do_envelope opened = e" "do_epoch opened = epoch" "do_binding opened = binding"
    "de_Type e = ''request'' \<and> (\<exists>r. do_request opened = Some r \<and> do_registration opened = None \<and>
        openRequest dp (de_ExpiresAt e) now plaintext = Inr r) \<or>
     de_Type e \<noteq> ''request'' \<and> (\<exists>g. do_registration opened = Some g \<and> do_request opened = None \<and>
        openRegistration dp (de_ExpiresAt e) now plaintext = Inr g)"
  using assms
  by (auto simp: openDirectoryDatagram_def split: sum.splits prod.splits if_splits)

lemma openRequest_Inr:
  assumes "openRequest dp x now plaintext = Inr r"
  shows "decodeCanonicalDirectoryID (dq_RequestID r) \<noteq> None"
    "validateDirectoryClientPayload (dq_Version r) (dq_IssuedAt r) (dq_ExpiresAt r) x now"
    "dq_Resource r = ''participants'' \<and> dq_Cursor r = None \<or> dq_Resource r = ''snapshot''"
  using assms
  by (auto simp: openRequest_def openCursor_def split: if_splits option.splits sum.splits)

lemma openRegistration_Inr:
  assumes "openRegistration dp x now plaintext = Inr g"
  shows "decodeCanonicalDirectoryID (dg_InstanceID g) \<noteq> None"
    "validateDirectoryClientPayload (dg_Version g) (dg_IssuedAt g) (dg_ExpiresAt g) x now"
  using assms by (auto simp: openRegistration_def split: if_splits option.splits sum.splits)

text \<open>
  C23. What the Directory acts on was authenticated: a datagram that opens passed AES-GCM under the key of its
  channel and epoch, with a nonce and additional data that fix the type, the channel, the epoch, the
  sequence, the expiry and the transport it came over, so that none of them can be exchanged. It is not
  expired, its sequence is positive, and its payload is a request or a registration according to its type.
\<close>

theorem directory_open_sound:
  assumes "openDirectoryDatagram dp data binding keys now = Inr opened"
  defines "e \<equiv> do_envelope opened" and "epoch \<equiv> do_epoch opened"
  shows "(\<exists>material key ciphertext plaintext. map_of keys (de_ChannelID e) = Some material \<and>
      directoryEpochKey (dp_prims dp) (dk_c2r material) epoch = Some key \<and>
      b64Decode (de_Ciphertext e) = Some ciphertext \<and>
      gcm_Open dp key (directoryNonce (de_Sequence e)) ciphertext (directoryAAD e epoch binding) = Some plaintext) \<and>
    (\<forall>e' epoch' binding'. isDirectoryClientType (de_Type e') \<longrightarrow> length epoch' = 16 \<longrightarrow>
      directoryAAD e' epoch' binding' = directoryAAD e epoch binding \<longrightarrow>
      de_Type e' = de_Type e \<and> de_ChannelID e' = de_ChannelID e \<and> epoch' = epoch \<and> de_Sequence e' = de_Sequence e \<and>
      de_ExpiresAt e' = de_ExpiresAt e \<and> binding' = binding) \<and>
    de_Sequence e \<noteq> 0 \<and> of_int (Unix_of now) < de_ExpiresAt e \<and>
      (do_request opened \<noteq> None \<longleftrightarrow> de_Type e = ''request'') \<and>
      (do_registration opened \<noteq> None \<longleftrightarrow> de_Type e = ''register'' \<or> de_Type e = ''heartbeat'')"
proof -
  obtain plaintext where c: "checkEnvelope dp data binding now = Inr (e, epoch)"
    and d: "decryptEnvelope dp keys binding e epoch = Inr plaintext"
    and k: "do_binding opened = binding" "de_Type e = ''request'' \<and> do_request opened \<noteq> None \<and> do_registration opened = None \<or>
        de_Type e \<noteq> ''request'' \<and> do_registration opened \<noteq> None \<and> do_request opened = None"
    using openDirectoryDatagram_Inr [OF assms(1)] unfolding e_def epoch_def by (metis option.distinct(1))
  note facts = checkEnvelope_Inr [OF c]
  from decryptEnvelope_Inr [OF d] have authentic: "\<exists>material key ciphertext plaintext. map_of keys (de_ChannelID e) = Some material \<and>
      directoryEpochKey (dp_prims dp) (dk_c2r material) epoch = Some key \<and>
      b64Decode (de_Ciphertext e) = Some ciphertext \<and>
      gcm_Open dp key (directoryNonce (de_Sequence e)) ciphertext (directoryAAD e epoch binding) = Some plaintext"
    by metis
  have bound: "de_Type e' = de_Type e \<and> de_ChannelID e' = de_ChannelID e \<and> epoch' = epoch \<and> de_Sequence e' = de_Sequence e \<and>
      de_ExpiresAt e' = de_ExpiresAt e \<and> binding' = binding"
    if "isDirectoryClientType (de_Type e')" "length epoch' = 16" "directoryAAD e' epoch' binding' = directoryAAD e epoch binding"
    for e' epoch' binding'
    using directoryAAD_inject [OF that(1) facts(3) that(2) facts(6) that(3)] by simp
  have "de_Sequence e \<noteq> 0 \<and> of_int (Unix_of now) < de_ExpiresAt e \<and>
      (do_request opened \<noteq> None \<longleftrightarrow> de_Type e = ''request'') \<and>
      (do_registration opened \<noteq> None \<longleftrightarrow> de_Type e = ''register'' \<or> de_Type e = ''heartbeat'')"
    using k facts(3-5) by (auto simp: isDirectoryClientType_def)
  with authentic bound show ?thesis by blast
qed

subsection \<open>Round trip\<close>

definition presentEnvelope :: "directoryEnvelope \<Rightarrow> directoryEnvelopeInput" where
  "presentEnvelope e =
     \<lparr>dei_Version = Some (de_Version e), dei_Type = Some (de_Type e), dei_ChannelID = Some (de_ChannelID e),
      dei_Epoch = Some (de_Epoch e), dei_Sequence = Some (de_Sequence e), dei_ExpiresAt = Some (de_ExpiresAt e),
      dei_Ciphertext = Some (de_Ciphertext e)\<rparr>"

lemma requiredEnvelope_present [simp]: "requiredEnvelope (presentEnvelope e) = Some e"
  by (simp add: requiredEnvelope_def presentEnvelope_def)

lemma sealedEnvelope_simps [simp]:
  "de_Version (sealedEnvelope dp key p t c epoch n x b) = 3" "de_Type (sealedEnvelope dp key p t c epoch n x b) = t"
  "de_ChannelID (sealedEnvelope dp key p t c epoch n x b) = c"
  "de_Epoch (sealedEnvelope dp key p t c epoch n x b) = b64Encode epoch"
  "de_Sequence (sealedEnvelope dp key p t c epoch n x b) = n" "de_ExpiresAt (sealedEnvelope dp key p t c epoch n x b) = x"
  "de_Ciphertext (sealedEnvelope dp key p t c epoch n x b) = b64Encode (gcm_Seal dp key (directoryNonce n) p
     (directoryAAD (sealedEnvelope dp key p t c epoch n x b) epoch b))"
  by (simp_all add: sealedEnvelope_def Let_def directoryAAD_def)

text \<open>An envelope up to its ciphertext.\<close>

definition envelopePrefix :: "directoryEnvelope \<Rightarrow> string" where
  "envelopePrefix e =
     ''{'' @ commaJoin [field ''v'' (decimal (unat (de_Version e))), field ''type'' (quoted (de_Type e)),
       field ''channelId'' (decimal (unat (de_ChannelID e))), field ''epoch'' (quoted (de_Epoch e)),
       field ''sequence'' (decimal (unat (de_Sequence e))), field ''expiresAt'' (decimal (unat (de_ExpiresAt e))),
       quoted ''ciphertext''] @ '':'' @ [CHR 0x22]"

lemma marshalEnvelope_split: "marshalEnvelope e = envelopePrefix e @ de_Ciphertext e @ [CHR 0x22, CHR ''}'']"
  by (simp add: marshalEnvelope_def envelopePrefix_def jsonObject_def field_def quoted_def)

text \<open>A sealed datagram, taken apart.\<close>

lemma bytes_of_append [simp]: "bytes_of (s @ t) = bytes_of s @ bytes_of t"
  by (simp add: bytes_of_def)

lemma length_carrier [simp]: "length directoryCarrierMagic = 4"
  by (simp add: directoryCarrierMagic_def)

text \<open>What an envelope takes beside its ciphertext.\<close>

definition envelopeSize :: "string \<Rightarrow> u32 \<Rightarrow> u64 \<Rightarrow> u64 \<Rightarrow> u8 \<Rightarrow> nat" where
  "envelopeSize t c n x b =
     (if b = 1 then 5 else 0) + 104 + length t + length (decimal (unat c)) + length (decimal (unat n)) + length (decimal (unat x))"

lemma length_sealed:
  assumes "length epoch = 16" "\<And>k n p a. length (gcm_Seal dp k n p a) = length p + 16"
  shows "length (bytes_of (marshalEnvelope (sealedEnvelope dp key p t c epoch n x b))) + (if b = 1 then 5 else 0) =
    envelopeSize t c n x b + (4 * length p + 66) div 3"
  using assms
  by (simp add: marshalEnvelope_split envelopePrefix_def field_def quoted_def length_b64Encode envelopeSize_def decimal.simps [of 3])

lemma sealDirectoryEnvelope_iff:
  assumes hash: "\<And>k m. length (hmacSHA256 (dp_prims dp) k m) = 32" and "length epoch = 16"
    and "\<And>k n p a. length (gcm_Seal dp k n p a) = length p + 16"
  shows "sealDirectoryEnvelope dp p t c dk epoch n x b \<noteq> None \<longleftrightarrow>
    n \<noteq> 0 \<and> n \<le> 9007199254740991 \<and> x \<noteq> 0 \<and> x \<le> 9007199254740991 \<and> b \<in> {0, 1} \<and>
    envelopeSize t c n x b + (4 * length p + 66) div 3 \<le> 1200"
proof -
  obtain key where key: "directoryEpochKey (dp_prims dp) dk epoch = Some key" "length key = 32"
    using directoryEpochKey_32 [OF hash] .
  have "length (let json = bytes_of (marshalEnvelope (sealedEnvelope dp key p t c epoch n x b))
      in if b = 1 then directoryCarrierMagic @ [1] @ json else json) = envelopeSize t c n x b + (4 * length p + 66) div 3"
    using length_sealed [OF assms(2,3), of key p t c n x b] by (auto simp: Let_def)
  then show ?thesis
    using key by (auto simp: sealDirectoryEnvelope_def Let_def acceptsUDPDatagramSize_def not_less)
qed

lemma sealDirectoryEnvelope_Some:
  assumes "sealDirectoryEnvelope dp plaintext t c dk epoch n x b = Some datagram"
  obtains key body where "directoryEpochKey (dp_prims dp) dk epoch = Some key" "length key \<in> {16, 24, 32}"
    "body = bytes_of (marshalEnvelope (sealedEnvelope dp key plaintext t c epoch n x b))"
    "datagram = (if b = 1 then directoryCarrierMagic @ [1] @ body else body)"
    "length datagram \<le> 1200" "length body \<le> 1200" "b \<in> {0, 1}"
    "n \<noteq> 0" "n \<le> 9007199254740991" "x \<noteq> 0" "x \<le> 9007199254740991"
  using assms
  by (auto simp: sealDirectoryEnvelope_def Let_def acceptsUDPDatagramSize_def split: if_splits option.splits)

text \<open>
  A client's datagram opens at the Relay. What \<^verbatim>\<open>sealDirectoryClientDatagram\<close> produces under the channel's
  key, taken out of its carrier, is opened over the same transport to the sealed plaintext: the result is
  that of the payload's own validation, with the envelope's type, channel, sequence, expiry and epoch.
\<close>

theorem directory_datagram_roundtrip:
  assumes hash: "\<And>k m. length (hmacSHA256 (dp_prims dp) k m) = 32"
    and gcm: "\<And>k n p a. gcm_Open dp k n (gcm_Seal dp k n p a) a = Some p \<and> length (gcm_Seal dp k n p a) = length p + 16"
    and decoder: "\<And>ct. set ct \<subseteq> set b64Alphabet \<Longrightarrow>
      let e = \<lparr>de_Version = 3, de_Type = t, de_ChannelID = c, de_Epoch = b64Encode epoch, de_Sequence = sequence,
               de_ExpiresAt = x, de_Ciphertext = ct\<rparr>
      in dp_envelope dp (bytes_of (marshalEnvelope e)) = Some (presentEnvelope e)"
    and sealed: "sealDirectoryClientDatagram dp plaintext t c material epoch sequence x b = Some datagram"
    and keys: "map_of keys c = Some material" and "length epoch = 16" and live: "of_int (Unix_of now) < x"
  shows "\<exists>body e. datagram = (if b = 1 then directoryCarrierMagic @ [1] @ body else body) \<and>
    de_Type e = t \<and> de_ChannelID e = c \<and> de_Sequence e = sequence \<and> de_ExpiresAt e = x \<and>
    openDirectoryDatagram dp body b keys now =
      (if t = ''request''
       then map_sum id (\<lambda>r. \<lparr>do_envelope = e, do_epoch = epoch, do_binding = b, do_request = Some r, do_registration = None\<rparr>)
              (openRequest dp x now plaintext)
       else map_sum id (\<lambda>g. \<lparr>do_envelope = e, do_epoch = epoch, do_binding = b, do_request = None, do_registration = Some g\<rparr>)
              (openRegistration dp x now plaintext))"
proof -
  have client: "isDirectoryClientType t"
    and env: "sealDirectoryEnvelope dp plaintext t c (dk_c2r material) epoch sequence x b = Some datagram"
    using sealed by (auto simp: sealDirectoryClientDatagram_def split: if_splits)
  obtain key body where key: "directoryEpochKey (dp_prims dp) (dk_c2r material) epoch = Some key" "length key \<in> {16, 24, 32}"
    and body: "body = bytes_of (marshalEnvelope (sealedEnvelope dp key plaintext t c epoch sequence x b))"
      "datagram = (if b = 1 then directoryCarrierMagic @ [1] @ body else body)" "length body \<le> 1200"
    and range: "b \<in> {0, 1}" "sequence \<noteq> 0" "sequence \<le> 9007199254740991" "x \<noteq> 0" "x \<le> 9007199254740991"
    using sealDirectoryEnvelope_Some [OF env] by metis
  define e where "e = sealedEnvelope dp key plaintext t c epoch sequence x b"
  have fields: "de_Version e = 3" "de_Type e = t" "de_ChannelID e = c" "de_Epoch e = b64Encode epoch"
      "de_Sequence e = sequence" "de_ExpiresAt e = x"
    and ct: "de_Ciphertext e = b64Encode (gcm_Seal dp key (directoryNonce sequence) plaintext (directoryAAD e epoch b))"
    unfolding e_def by (simp_all only: sealedEnvelope_simps)
  have e: "e = \<lparr>de_Version = 3, de_Type = t, de_ChannelID = c, de_Epoch = b64Encode epoch, de_Sequence = sequence,
      de_ExpiresAt = x, de_Ciphertext = de_Ciphertext e\<rparr>"
    using fields by (cases e) simp
  have "dp_envelope dp body = Some (presentEnvelope e)"
    using decoder [of "de_Ciphertext e"] set_b64Encode unfolding Let_def e [symmetric] body(1) e_def [symmetric] by (simp add: ct)
  then have check: "checkEnvelope dp body b now = Inr (e, epoch)"
    using client live range body(3) assms(6) fields
    by (auto simp: checkEnvelope_def acceptsUDPDatagramSize_def decodeCanonicalDirectoryID_encode)
  have decrypt: "decryptEnvelope dp keys b e epoch = Inr plaintext"
    using keys key gcm [of key "directoryNonce sequence" plaintext "directoryAAD e epoch b"]
    by (auto simp: decryptEnvelope_def b64Decode_Encode fields ct)
  show ?thesis
    using body(2) fields check decrypt
    by (intro exI [of _ body] exI [of _ e]) (auto simp: openDirectoryDatagram_def split: sum.splits)
qed

subsection \<open>A concrete exchange\<close>

text \<open>A cipher that appends the end of the additional data, and decoders for one envelope and one request.\<close>

definition demoTag :: "bytes \<Rightarrow> bytes" where
  "demoTag aad = take 16 (rev aad @ replicate 16 0)"

definition demoRequestInput :: directoryRequestInput where
  "demoRequestInput = \<lparr>dqi_Version = Some 3, dqi_IssuedAt = Some 1700000000, dqi_ExpiresAt = Some 1700000010,
     dqi_RequestID = Some (b64Encode (replicate 16 0)), dqi_Resource = Some ''participants'', dqi_Cursor = None\<rparr>"

definition demoEpoch :: bytes where
  "demoEpoch = replicate 16 7"

definition demoEnvelope :: "string \<Rightarrow> directoryEnvelope" where
  "demoEnvelope ct = \<lparr>de_Version = 3, de_Type = ''request'', de_ChannelID = 111, de_Epoch = b64Encode demoEpoch,
     de_Sequence = 1, de_ExpiresAt = 1700000010, de_Ciphertext = ct\<rparr>"

definition demoEnvelopeDecoder :: "bytes \<Rightarrow> directoryEnvelopeInput option" where
  "demoEnvelopeDecoder data =
     (let n = length (marshalEnvelope (demoEnvelope [])) - 2 in
      Some (presentEnvelope (demoEnvelope (string_of (take (length data - n - 2) (drop n data))))))"

definition demoDirectory :: directoryPrims where
  "demoDirectory = \<lparr>dp_prims = demoPrims, gcm_Seal = (\<lambda>k n p a. p @ demoTag a),
     gcm_Open = (\<lambda>k n c a. if drop (length c - 16) c = demoTag a then Some (take (length c - 16) c) else None),
     dp_envelope = demoEnvelopeDecoder, dp_request = (\<lambda>_. Some demoRequestInput), dp_registration = (\<lambda>_. None),
     dp_cursor = (\<lambda>_. None)\<rparr>"

definition demoMaterial :: directoryKeyMaterial where
  "demoMaterial = \<lparr>dk_channel = replicate 32 1, dk_c2r = replicate 32 2, dk_r2c = replicate 32 3\<rparr>"

lemma demo_gcm:
  "gcm_Open demoDirectory k n (gcm_Seal demoDirectory k n p a) a = Some p"
  "length (gcm_Seal demoDirectory k n p a) = length p + 16"
  by (simp_all add: demoDirectory_def demoTag_def)

lemma demo_decoder: "dp_envelope demoDirectory (bytes_of (marshalEnvelope (demoEnvelope ct))) = Some (presentEnvelope (demoEnvelope ct))"
proof -
  have "envelopePrefix (demoEnvelope ct) = envelopePrefix (demoEnvelope [])"
    by (simp add: envelopePrefix_def demoEnvelope_def)
  moreover have "de_Ciphertext (demoEnvelope x) = x" for x by (simp add: demoEnvelope_def)
  ultimately show ?thesis
    by (simp add: demoDirectory_def demoEnvelopeDecoder_def Let_def marshalEnvelope_split string_of_bytes_of)
qed

lemma demo_sealed:
  "sealDirectoryClientDatagram demoDirectory [1, 2, 3] ''request'' 111 demoMaterial demoEpoch 1 1700000010 1 \<noteq> None"
proof -
  have "length (hmacSHA256 (dp_prims demoDirectory) k m) = 32" for k m
    by (simp add: demoDirectory_def demoPrims_hmac)
  note seals = sealDirectoryEnvelope_iff [OF this _ demo_gcm(2)]
  have "sealDirectoryEnvelope demoDirectory [1, 2, 3] ''request'' 111 (dk_c2r demoMaterial) demoEpoch 1 1700000010 1 \<noteq> None"
    by (subst seals) (simp_all add: demoEpoch_def envelopeSize_def decimal.simps)
  then show ?thesis by (simp add: sealDirectoryClientDatagram_def isDirectoryClientType_def)
qed

theorem directory_datagram_roundtrip_witness:
  "\<exists>body opened. sealDirectoryClientDatagram demoDirectory [1, 2, 3] ''request'' 111 demoMaterial demoEpoch 1 1700000010 1 =
      Some (directoryCarrierMagic @ [1] @ body) \<and>
    openDirectoryDatagram demoDirectory body 1 [(111, demoMaterial)] (time_Unix 1700000001) = Inr opened \<and>
    do_request opened \<noteq> None \<and> do_epoch opened = demoEpoch"
proof -
  obtain d where d: "sealDirectoryClientDatagram demoDirectory [1, 2, 3] ''request'' 111 demoMaterial demoEpoch 1 1700000010 1 = Some d"
    using demo_sealed by blast
  have hash: "length (hmacSHA256 (dp_prims demoDirectory) k m) = 32" for k m
    by (simp add: demoDirectory_def demoPrims_hmac)
  have decoder: "let e = \<lparr>de_Version = 3, de_Type = ''request'', de_ChannelID = 111, de_Epoch = b64Encode demoEpoch,
        de_Sequence = 1, de_ExpiresAt = 1700000010, de_Ciphertext = ct\<rparr>
      in dp_envelope demoDirectory (bytes_of (marshalEnvelope e)) = Some (presentEnvelope e)" for ct
    using demo_decoder [of ct] by (simp add: demoEnvelope_def)
  obtain body e where "d = directoryCarrierMagic @ [1] @ body"
    "openDirectoryDatagram demoDirectory body 1 [(111, demoMaterial)] (time_Unix 1700000001) =
       map_sum id (\<lambda>r. \<lparr>do_envelope = e, do_epoch = demoEpoch, do_binding = 1, do_request = Some r, do_registration = None\<rparr>)
         (openRequest demoDirectory 1700000010 (time_Unix 1700000001) [1, 2, 3])"
    using directory_datagram_roundtrip [OF hash conjI [OF demo_gcm] decoder d, of "[(111, demoMaterial)]" "time_Unix 1700000001"]
    by (auto simp: demoEpoch_def)
  moreover have "\<exists>r. openRequest demoDirectory 1700000010 (time_Unix 1700000001) [1, 2, 3] = Inr r"
    by (simp add: openRequest_def demoDirectory_def demoRequestInput_def validateDirectoryClientPayload_def
        decodeCanonicalDirectoryID_encode openCursor_def)
  ultimately show ?thesis using d by auto
qed

end
