(* ===== verification/Directory_Packing.thy ===== *)
theory Directory_Packing
  imports Relay_Prelude
begin

text \<open>
  The division of a Directory response into fragments (directory_v3.go): \<^verbatim>\<open>packDirectoryRows\<close>,
  \<^verbatim>\<open>packDirectorySnapshotRows\<close> and \<^verbatim>\<open>splitDirectorySnapshotPages\<close>, over any rows and any encoder. What a
  packing returns holds the rows in order, in at most 32 fragments that each fit. The interface of an
  encoder whose size does not depend on more than the digits of the count is a locale; in it the search
  for a stable count ends after at most three attempts and a response whose rows are small enough is
  never refused.
\<close>

abbreviation (input) directoryMaxFragments :: nat where "directoryMaxFragments \<equiv> 32"

datatype packError = PackEncode | PackRecord | PackChannel | PackFragments | PackUnstable

subsection \<open>Filling a fragment\<close>

text \<open>
  The inner loop of both packings: rows are added as long as the encoded fragment fits. The group is
  empty only if the first row does not fit.
\<close>

fun fillGroup :: "('r list \<Rightarrow> bytes option) \<Rightarrow> (bytes \<Rightarrow> bool) \<Rightarrow> 'r list \<Rightarrow> 'r list \<Rightarrow> packError + 'r list" where
  "fillGroup encode fits grp [] = Inr grp"
| "fillGroup encode fits grp (row # rest) =
     (case encode (grp @ [row]) of
        None \<Rightarrow> Inl PackEncode
      | Some payload \<Rightarrow>
          if \<not> fits payload then Inr grp else fillGroup encode fits (grp @ [row]) rest)"

subsection \<open>Participants\<close>

text \<open>One attempt with a guess of the fragment count.\<close>

function packAttempt ::
  "(nat \<Rightarrow> nat \<Rightarrow> 'r list \<Rightarrow> bytes option) \<Rightarrow> (nat \<Rightarrow> nat \<Rightarrow> bytes \<Rightarrow> bool) \<Rightarrow> nat \<Rightarrow> 'r list list \<Rightarrow> 'r list \<Rightarrow>
   packError + 'r list list" where
  "packAttempt encode fits guess groups rest =
     (if rest = [] then Inr groups
      else case fillGroup (encode (length groups) guess) (fits (length groups) guess) [] rest of
        Inl e \<Rightarrow> Inl e
      | Inr grp \<Rightarrow>
          if grp = [] then Inl PackRecord
          else packAttempt encode fits guess (groups @ [grp]) (drop (length grp) rest))"
  by pat_completeness auto
termination by (relation "measure (\<lambda>(encode, fits, guess, groups, rest). length rest)") auto

declare packAttempt.simps [simp del]

fun packStable ::
  "(nat \<Rightarrow> nat \<Rightarrow> 'r list \<Rightarrow> bytes option) \<Rightarrow> (nat \<Rightarrow> nat \<Rightarrow> bytes \<Rightarrow> bool) \<Rightarrow> 'r list \<Rightarrow> nat \<Rightarrow> nat \<Rightarrow>
   packError + 'r list list" where
  "packStable encode fits rs 0 guess = Inl PackUnstable"
| "packStable encode fits rs (Suc attempts) guess =
     (case packAttempt encode fits guess [] rs of
        Inl e \<Rightarrow> Inl e
      | Inr groups \<Rightarrow>
          if directoryMaxFragments < length groups then Inl PackFragments
          else if length groups = guess then Inr groups
          else packStable encode fits rs attempts (length groups))"

definition packDirectoryRows ::
  "(nat \<Rightarrow> nat \<Rightarrow> 'r list \<Rightarrow> bytes option) \<Rightarrow> (nat \<Rightarrow> nat \<Rightarrow> bytes \<Rightarrow> bool) \<Rightarrow> 'r list \<Rightarrow> packError + 'r list list" where
  "packDirectoryRows encode fits rs = (if rs = [] then Inr [[]] else packStable encode fits rs 6 1)"

subsection \<open>Snapshots\<close>

text \<open>The encoder takes the nil slice as \<open>None\<close>.\<close>

function packSnapshotGroups ::
  "(nat \<Rightarrow> nat \<Rightarrow> 'r list option \<Rightarrow> bytes option) \<Rightarrow> (nat \<Rightarrow> nat \<Rightarrow> bytes \<Rightarrow> bool) \<Rightarrow> 'r list list \<Rightarrow> 'r list \<Rightarrow>
   packError + 'r list list" where
  "packSnapshotGroups encode fits groups rest =
     (if rest = [] then Inr groups
      else let index = length groups in
        case fillGroup (\<lambda>g. encode index directoryMaxFragments (Some g)) (fits index directoryMaxFragments) [] rest of
          Inl e \<Rightarrow> Inl e
        | Inr grp \<Rightarrow>
            if grp = [] then
              (if index \<noteq> 0 then Inl PackRecord
               else (case encode 0 directoryMaxFragments None of
                   None \<Rightarrow> Inl PackChannel
                 | Some payload \<Rightarrow>
                     if \<not> fits 0 directoryMaxFragments payload then Inl PackChannel
                     else packSnapshotGroups encode fits (groups @ [[]]) rest))
            else if directoryMaxFragments < length (groups @ [grp]) then Inl PackFragments
            else packSnapshotGroups encode fits (groups @ [grp]) (drop (length grp) rest))"
  by pat_completeness auto
termination
  by (relation "measure (\<lambda>(encode, fits, groups, rest). 2 * length rest + (if groups = [] then 1 else 0))") auto

declare packSnapshotGroups.simps [simp del]

definition packDirectorySnapshotRows ::
  "(nat \<Rightarrow> nat \<Rightarrow> 'r list option \<Rightarrow> bytes option) \<Rightarrow> (nat \<Rightarrow> nat \<Rightarrow> bytes \<Rightarrow> bool) \<Rightarrow> 'r list \<Rightarrow> packError + 'r list list" where
  "packDirectorySnapshotRows encode fits rs = (if rs = [] then Inr [[]] else packSnapshotGroups encode fits [] rs)"

subsection \<open>Pages\<close>

text \<open>31 rows per page.\<close>

function splitPages :: "'r list \<Rightarrow> 'r list list" where
  "splitPages rs = (if rs = [] then [] else take (directoryMaxFragments - 1) rs # splitPages (drop (directoryMaxFragments - 1) rs))"
  by pat_completeness auto
termination by (relation "measure length") auto

declare splitPages.simps [simp del]

definition splitDirectorySnapshotPages :: "'r list \<Rightarrow> 'r list list" where
  "splitDirectorySnapshotPages rs = (if rs = [] then [[]] else splitPages rs)"

lemma splitPages_concat: "concat (splitPages rs) = rs"
  by (induction rs rule: splitPages.induct) (subst splitPages.simps, simp)

lemma splitPages_length: "length (splitPages rs) = (length rs + 30) div 31"
proof (induction rs rule: splitPages.induct)
  case (1 rs)
  show ?case
  proof (cases "rs = []")
    case False
    then have "length (splitPages rs) = Suc ((length rs - 31 + 30) div 31)"
      using "1.IH" by (subst splitPages.simps) simp
    also have "\<dots> = (length rs + 30) div 31"
    proof (cases "31 \<le> length rs")
      case True
      then have "length rs + 30 = (length rs - 31 + 30) + 31" by simp
      then show ?thesis by (metis Suc_eq_plus1 div_add_self2 zero_neq_numeral)
    next
      case short: False
      with False have "(length rs + 30) div 31 = 1" by (cases rs) auto
      with short show ?thesis by simp
    qed
    finally show ?thesis .
  qed (simp add: splitPages.simps)
qed

lemma splitPages_bound: "p \<in> set (splitPages rs) \<Longrightarrow> p \<noteq> [] \<and> length p \<le> 31"
proof (induction rs rule: splitPages.induct)
  case (1 rs)
  then show ?case by (subst (asm) (2) splitPages.simps) (auto split: if_splits)
qed

lemma pages_of_snapshot:
  "concat (splitDirectorySnapshotPages rs) = rs" "splitDirectorySnapshotPages rs \<noteq> []"
  "length (splitDirectorySnapshotPages rs) = max 1 ((length rs + 30) div 31)"
  "p \<in> set (splitDirectorySnapshotPages rs) \<Longrightarrow> length p \<le> 31"
proof -
  show "splitDirectorySnapshotPages rs \<noteq> []"
    by (auto simp: splitDirectorySnapshotPages_def splitPages.simps [of rs])
  have "1 \<le> (length rs + 30) div 31" if "rs \<noteq> []" using that by (cases rs) auto
  then show "length (splitDirectorySnapshotPages rs) = max 1 ((length rs + 30) div 31)"
    by (auto simp: splitDirectorySnapshotPages_def splitPages_length)
qed (auto simp: splitDirectorySnapshotPages_def splitPages_concat dest: splitPages_bound split: if_splits)

subsection \<open>What a packing returns\<close>

definition fitting :: "('g \<Rightarrow> bytes option) \<Rightarrow> (bytes \<Rightarrow> bool) \<Rightarrow> 'g \<Rightarrow> bool" where
  "fitting encode fits g \<longleftrightarrow> (\<exists>payload. encode g = Some payload \<and> fits payload)"

text \<open>A filled group is the longest prefix of the rows whose prefixes all fit.\<close>

lemma fillGroup_Inr:
  assumes "fillGroup encode fits g rs = Inr h"
  obtains k where "k \<le> length rs" "h = g @ take k rs" "\<And>j. 1 \<le> j \<Longrightarrow> j \<le> k \<Longrightarrow> fitting encode fits (g @ take j rs)"
    "k < length rs \<Longrightarrow> \<not> fitting encode fits (g @ take (Suc k) rs)"
  using assms
proof (induction rs arbitrary: g thesis)
  case Nil
  then show ?case by (simp add: Nil.prems(1) [of 0])
next
  case (Cons r rs)
  from Cons.prems(2) obtain payload where payload: "encode (g @ [r]) = Some payload"
    by (auto split: option.splits)
  show ?case
  proof (cases "fits payload")
    case True
    with Cons.prems(2) payload have "fillGroup encode fits (g @ [r]) rs = Inr h" by simp
    from Cons.IH [OF _ this] obtain k where k: "k \<le> length rs" "h = (g @ [r]) @ take k rs"
      "\<And>j. 1 \<le> j \<Longrightarrow> j \<le> k \<Longrightarrow> fitting encode fits ((g @ [r]) @ take j rs)"
      "k < length rs \<Longrightarrow> \<not> fitting encode fits ((g @ [r]) @ take (Suc k) rs)" by blast
    show ?thesis
    proof (rule Cons.prems(1) [of "Suc k"])
      fix j :: nat assume j: "1 \<le> j" "j \<le> Suc k"
      show "fitting encode fits (g @ take j (r # rs))"
      proof (cases "j = 1")
        case True
        with payload \<open>fits payload\<close> show ?thesis by (simp add: fitting_def)
      next
        case False
        with j k(3) [of "j - 1"] show ?thesis by (cases j) auto
      qed
    qed (use k in auto)
  next
    case False
    with Cons.prems(2) payload have "h = g" by simp
    with False payload show ?thesis by (intro Cons.prems(1) [of 0]) (auto simp: fitting_def)
  qed
qed

lemma packAttempt_Inr:
  "packAttempt encode fits c gs rs = Inr all \<Longrightarrow>
   \<exists>hs. all = gs @ hs \<and> concat hs = rs \<and>
     (\<forall>i<length hs. hs ! i \<noteq> [] \<and> fitting (encode (length gs + i) c) (fits (length gs + i) c) (hs ! i))"
proof (induction encode fits c gs rs rule: packAttempt.induct)
  case (1 encode fits c gs rs)
  show ?case
  proof (cases "rs = []")
    case True
    with "1.prems" show ?thesis by (simp add: packAttempt.simps)
  next
    case False
    with "1.prems" obtain g where g: "fillGroup (encode (length gs) c) (fits (length gs) c) [] rs = Inr g" "g \<noteq> []"
      and rest: "packAttempt encode fits c (gs @ [g]) (drop (length g) rs) = Inr all"
      by (subst (asm) packAttempt.simps) (auto split: sum.splits if_splits)
    from fillGroup_Inr [OF g(1)] obtain k where k: "k \<le> length rs" "g = take k rs"
      "\<And>j. 1 \<le> j \<Longrightarrow> j \<le> k \<Longrightarrow> fitting (encode (length gs) c) (fits (length gs) c) (take j rs)" by auto
    from g(2) k(1,2) have fit: "fitting (encode (length gs) c) (fits (length gs) c) g" and len: "length g = k"
      using k(3) [of k] by (cases k; simp)+
    from "1.IH" [OF False g(1) g(2) rest] obtain hs where hs: "all = (gs @ [g]) @ hs" "concat hs = drop (length g) rs"
      "\<forall>i<length hs. hs ! i \<noteq> [] \<and> fitting (encode (length (gs @ [g]) + i) c) (fits (length (gs @ [g]) + i) c) (hs ! i)"
      by blast
    have "concat (g # hs) = rs" using hs(2) k(2) len by simp
    moreover have "\<forall>i<length (g # hs). (g # hs) ! i \<noteq> [] \<and>
        fitting (encode (length gs + i) c) (fits (length gs + i) c) ((g # hs) ! i)"
      using hs(3) fit g(2) by (auto simp: nth_Cons split: nat.split)
    ultimately show ?thesis using hs(1) by (intro exI [of _ "g # hs"]) simp
  qed
qed

lemma packStable_Inr:
  "packStable encode fits rs n guess = Inr groups \<Longrightarrow>
   packAttempt encode fits (length groups) [] rs = Inr groups \<and> length groups \<le> 32"
proof (induction n arbitrary: guess)
  case (Suc n)
  then show ?case by (auto split: sum.splits if_splits)
qed simp

lemma packSnapshotGroups_Inr:
  "packSnapshotGroups encode fits gs rs = Inr all \<Longrightarrow> length gs \<le> 32 \<Longrightarrow>
   \<exists>hs. all = gs @ hs \<and> concat hs = rs \<and> length all \<le> 32 \<and>
     (\<forall>i<length hs. hs ! i \<noteq> [] \<and> fitting (\<lambda>g. encode (length gs + i) 32 (Some g)) (fits (length gs + i) 32) (hs ! i) \<or>
        gs = [] \<and> i = 0 \<and> hs ! i = [] \<and> fitting (encode 0 32) (fits 0 32) None)"
proof (induction encode fits gs rs rule: packSnapshotGroups.induct)
  case (1 encode fits gs rs)
  show ?case
  proof (cases "rs = []")
    case True
    with "1.prems" show ?thesis by (simp add: packSnapshotGroups.simps)
  next
    case False
    let ?enc = "\<lambda>g. encode (length gs) 32 (Some g)"
    from "1.prems"(1) False obtain g where g: "fillGroup ?enc (fits (length gs) 32) [] rs = Inr g"
      by (subst (asm) packSnapshotGroups.simps) (auto simp: Let_def split: sum.splits)
    from fillGroup_Inr [OF g] obtain k where k: "k \<le> length rs" "g = take k rs"
      "\<And>j. 1 \<le> j \<Longrightarrow> j \<le> k \<Longrightarrow> fitting ?enc (fits (length gs) 32) (take j rs)" by auto
    then have len: "length g = k" and fit: "g \<noteq> [] \<Longrightarrow> fitting ?enc (fits (length gs) 32) g"
      using k(3) [of k] by (cases k; simp)+
    show ?thesis
    proof (cases "g = []")
      case True
      with "1.prems"(1) False g obtain payload where e: "gs = []" "encode 0 32 None = Some payload" "fits 0 32 payload"
        and rest: "packSnapshotGroups encode fits [[]] rs = Inr all"
        by (subst (asm) packSnapshotGroups.simps) (auto simp: Let_def split: sum.splits if_splits option.splits)
      have "packSnapshotGroups encode fits (gs @ [[]]) rs = Inr all" using rest e(1) by simp
      from "1.IH"(1) [OF False refl g True _ e(2) _ this] e obtain hs where hs: "all = [[]] @ hs" "concat hs = rs" "length all \<le> 32"
        "\<forall>i<length hs. hs ! i \<noteq> [] \<and> fitting (\<lambda>g. encode (Suc i) 32 (Some g)) (fits (Suc i) 32) (hs ! i)"
        by auto
      show ?thesis using hs e
        by (intro exI [of _ "[] # hs"]) (auto simp: nth_Cons fitting_def split: nat.split)
    next
      case nonempty: False
      with "1.prems"(1) False g have bound: "length (gs @ [g]) \<le> 32"
        and rest: "packSnapshotGroups encode fits (gs @ [g]) (drop (length g) rs) = Inr all"
        by (subst (asm) packSnapshotGroups.simps; auto simp: Let_def split: if_splits)+
      from "1.IH"(2) [OF False refl g nonempty _ rest bound] bound obtain hs where hs: "all = (gs @ [g]) @ hs"
        "concat hs = drop (length g) rs" "length all \<le> 32"
        "\<forall>i<length hs. hs ! i \<noteq> [] \<and> fitting (\<lambda>h. encode (length (gs @ [g]) + i) 32 (Some h)) (fits (length (gs @ [g]) + i) 32) (hs ! i)"
        by auto
      have "concat (g # hs) = rs" using hs(2) k(2) len by simp
      moreover have "\<forall>i<length (g # hs). (g # hs) ! i \<noteq> [] \<and>
          fitting (\<lambda>h. encode (length gs + i) 32 (Some h)) (fits (length gs + i) 32) ((g # hs) ! i)"
        using hs(4) fit nonempty by (auto simp: nth_Cons split: nat.split)
      ultimately show ?thesis using hs(1,3) by (intro exI [of _ "g # hs"]) auto
    qed
  qed
qed

subsection \<open>Rows of bounded size\<close>

text \<open>
  The contract of an encoder, in every valid context \<open>x\<close>: a group fits if its cost is within the room of
  its fragment, the room depends only on the number of digits of the count and shrinks with it, and
  \<open>rowsPerGroup\<close> rows always fit.
\<close>

locale fragment_sizes =
  fixes valid :: "'x \<Rightarrow> bool" and encode :: "'x \<Rightarrow> nat \<Rightarrow> nat \<Rightarrow> 'r list \<Rightarrow> bytes option"
    and fits :: "'x \<Rightarrow> nat \<Rightarrow> nat \<Rightarrow> bytes \<Rightarrow> bool" and room :: "'x \<Rightarrow> nat \<Rightarrow> nat \<Rightarrow> nat" and cost :: "'r list \<Rightarrow> nat"
    and rowsPerGroup :: nat
  assumes encode_total: "valid x \<Longrightarrow> encode x i c g \<noteq> None"
    and fits_iff: "valid x \<Longrightarrow> i < 1000 \<Longrightarrow> 1 \<le> c \<Longrightarrow> c \<le> 32 \<Longrightarrow>
      fitting (encode x i c) (fits x i c) g \<longleftrightarrow> cost g \<le> room x i c"
    and cost_prefix: "cost xs \<le> cost (xs @ ys)" and cost_suffix: "cost ys \<le> cost (xs @ ys)"
    and room_anti: "valid x \<Longrightarrow> c \<le> c' \<Longrightarrow> c' \<le> 32 \<Longrightarrow> room x i c' \<le> room x i c"
    and room_digits: "valid x \<Longrightarrow> c < 10 \<longleftrightarrow> c' < 10 \<Longrightarrow> c \<le> 32 \<Longrightarrow> c' \<le> 32 \<Longrightarrow> room x i c = room x i c'"
    and cost_unit: "valid x \<Longrightarrow> i < 1000 \<Longrightarrow> c \<le> 32 \<Longrightarrow> length g \<le> rowsPerGroup \<Longrightarrow> cost g \<le> room x i c"
    and rowsPerGroup_pos: "0 < rowsPerGroup"
begin

lemma fill_total:
  assumes v: "valid x"
  shows "\<exists>h. fillGroup (encode x i c) f g rs = Inr h"
proof (induction rs arbitrary: g)
  case (Cons r rs)
  then show ?case using encode_total [OF v, of i c "g @ [r]"] by auto
qed simp

text \<open>The group an attempt fills: as long as its cost allows.\<close>

lemma fill_cost:
  assumes v: "valid x" and "i < 1000" "1 \<le> c" "c \<le> 32" "fillGroup (encode x i c) (fits x i c) [] rs = Inr g"
  obtains k where "k \<le> length rs" "g = take k rs" "cost g \<le> room x i c" "k < length rs \<Longrightarrow> \<not> cost (take (Suc k) rs) \<le> room x i c"
    "min rowsPerGroup (length rs) \<le> k"
proof -
  from fillGroup_Inr [OF assms(5)] obtain k where k: "k \<le> length rs" "g = take k rs"
    "\<And>j. 1 \<le> j \<Longrightarrow> j \<le> k \<Longrightarrow> fitting (encode x i c) (fits x i c) (take j rs)"
    "k < length rs \<Longrightarrow> \<not> fitting (encode x i c) (fits x i c) (take (Suc k) rs)" by auto
  have full: "k < length rs \<Longrightarrow> \<not> cost (take (Suc k) rs) \<le> room x i c"
    using k(4) fits_iff [OF v assms(2-4)] by simp
  moreover have "cost g \<le> room x i c"
    using k(2) k(3) [of k] fits_iff [OF v assms(2-4)] cost_unit [OF v assms(2,4), of "[]"] by (cases k) auto
  moreover have "min rowsPerGroup (length rs) \<le> k"
    using full cost_unit [OF v assms(2,4), of "take (Suc k) rs"] by force
  ultimately show ?thesis using that k(1,2) by blast
qed

lemma attempt_total:
  assumes v: "valid x"
  shows "length gs + length rs < 1000 \<Longrightarrow> 1 \<le> c \<Longrightarrow> c \<le> 32 \<Longrightarrow> length rs \<le> n * rowsPerGroup \<Longrightarrow>
   \<exists>all. packAttempt (encode x) (fits x) c gs rs = Inr all \<and> length all \<le> length gs + n"
proof (induction n arbitrary: gs rs)
  case 0
  then show ?case by (simp add: packAttempt.simps)
next
  case (Suc n)
  show ?case
  proof (cases "rs = []")
    case True
    then show ?thesis by (simp add: packAttempt.simps)
  next
    case False
    obtain g where g: "fillGroup (encode x (length gs) c) (fits x (length gs) c) [] rs = Inr g" using fill_total [OF v] by blast
    have "length gs < 1000" using Suc.prems(1) by simp
    from fill_cost [OF v this Suc.prems(2,3) g] obtain k where k: "k \<le> length rs" "g = take k rs" "min rowsPerGroup (length rs) \<le> k" .
    have "0 < k" using k(3) False rowsPerGroup_pos by (cases rs) auto
    then have nonempty: "g \<noteq> []" "length g = k" using k(1,2) False by auto
    have "length (drop k rs) \<le> n * rowsPerGroup" using k(3) Suc.prems(4) by auto
    moreover have "length (gs @ [g]) + length (drop k rs) < 1000" using Suc.prems(1) k(1) \<open>0 < k\<close> by simp
    ultimately obtain all where "packAttempt (encode x) (fits x) c (gs @ [g]) (drop k rs) = Inr all" "length all \<le> length (gs @ [g]) + n"
      using Suc.IH [of "gs @ [g]" "drop k rs"] Suc.prems(2,3) by blast
    with False g nonempty show ?thesis by (subst packAttempt.simps) auto
  qed
qed

text \<open>More room never needs more fragments.\<close>

lemma attempt_mono:
  assumes v: "valid x"
  shows "packAttempt (encode x) (fits x) c' gs' rs' = Inr all' \<Longrightarrow> packAttempt (encode x) (fits x) c gs rs = Inr all \<Longrightarrow>
   length gs = length gs' \<Longrightarrow> rs = drop d rs' \<Longrightarrow> 1 \<le> c \<Longrightarrow> c \<le> c' \<Longrightarrow> c' \<le> 32 \<Longrightarrow> length gs' + length rs' < 1000 \<Longrightarrow>
   length all \<le> length all'"
proof (induction "length rs'" arbitrary: rs' gs' gs rs d rule: less_induct)
  case less
  from packAttempt_Inr [OF less.prems(1)] have all': "length gs' \<le> length all'" by auto
  show ?case
  proof (cases "rs = []")
    case True
    with less.prems(2,3) all' show ?thesis by (simp add: packAttempt.simps)
  next
    case False
    with less.prems(4) have ne': "rs' \<noteq> []" and d: "d < length rs'" by auto
    have i: "length gs' < 1000" using less.prems(8) by simp
    from less.prems(1) ne' obtain g' where g': "fillGroup (encode x (length gs') c') (fits x (length gs') c') [] rs' = Inr g'" "g' \<noteq> []"
      "packAttempt (encode x) (fits x) c' (gs' @ [g']) (drop (length g') rs') = Inr all'"
      by (subst (asm) packAttempt.simps) (auto split: sum.splits if_splits)
    from less.prems(2) False obtain g where g: "fillGroup (encode x (length gs') c) (fits x (length gs') c) [] rs = Inr g"
      "packAttempt (encode x) (fits x) c (gs @ [g]) (drop (length g) rs) = Inr all"
      by (subst (asm) packAttempt.simps) (auto simp: less.prems(3) split: sum.splits if_splits)
    obtain k' where k': "k' \<le> length rs'" "g' = take k' rs'" "cost g' \<le> room x (length gs') c'"
      using fill_cost [OF v i _ less.prems(7) g'(1)] less.prems(5,6) by (metis le_trans)
    obtain k where k: "k \<le> length rs" "g = take k rs" "k < length rs \<Longrightarrow> \<not> cost (take (Suc k) rs) \<le> room x (length gs') c"
      using fill_cost [OF v i less.prems(5) _ g(1)] less.prems(6,7) by (metis le_trans)
    have behind: "k' \<le> d + k"
    proof (rule ccontr)
      assume far: "\<not> k' \<le> d + k"
      then have split: "take (k' - d) rs = drop d (take k' rs')" using less.prems(4) by (simp add: drop_take)
      have "k < length rs" using far k'(1) less.prems(4) by simp
      have "take (k' - d) rs = take (Suc k) rs @ drop (Suc k) (take (k' - d) rs)"
        using far by (metis Suc_diff_le append_take_drop_id diff_diff_left linorder_not_le min.absorb1 nat_le_linear
            not_less_eq_eq take_take Suc_leI less_diff_conv add.commute)
      then have "cost (take (Suc k) rs) \<le> cost (take (k' - d) rs)" using cost_prefix by metis
      also have "\<dots> \<le> cost (take k' rs')" unfolding split using cost_suffix by (metis append_take_drop_id)
      also have "\<dots> \<le> room x (length gs') c" using k'(2,3) room_anti [OF v less.prems(6,7)] by (metis le_trans)
      finally show False using k(3) \<open>k < length rs\<close> by simp
    qed
    have len: "length g = k" "length g' = k'" "0 < k'" using k(1,2) k'(1,2) g'(2) by auto
    show ?thesis
    proof (rule less.hyps [OF _ g'(3) g(2)])
      show "length (drop (length g') rs') < length rs'" using len ne' by simp
      show "drop (length g) rs = drop (d + k - k') (drop (length g') rs')"
        using behind len less.prems(4) by (simp add: add.commute)
      show "length (gs' @ [g']) + length (drop (length g') rs') < 1000" using less.prems(8) len k'(1) by simp
    qed (use less.prems in simp_all)
  qed
qed

text \<open>Two counts with the same number of digits give the same groups.\<close>

lemma attempt_digits:
  assumes v: "valid x"
  shows "c < 10 \<longleftrightarrow> c' < 10 \<Longrightarrow> 1 \<le> c \<Longrightarrow> 1 \<le> c' \<Longrightarrow> c \<le> 32 \<Longrightarrow> c' \<le> 32 \<Longrightarrow> length gs + length rs < 1000 \<Longrightarrow>
   packAttempt (encode x) (fits x) c gs rs = packAttempt (encode x) (fits x) c' gs rs"
proof (induction "length rs" arbitrary: gs rs rule: less_induct)
  case less
  have i: "length gs < 1000" using less.prems(6) by simp
  have same: "fillGroup (encode x (length gs) c) (fits x (length gs) c) g ys =
      fillGroup (encode x (length gs) c') (fits x (length gs) c') g ys" for g ys
  proof (induction ys arbitrary: g)
    case (Cons y ys)
    have "fitting (encode x (length gs) c) (fits x (length gs) c) (g @ [y]) \<longleftrightarrow>
        fitting (encode x (length gs) c') (fits x (length gs) c') (g @ [y])"
      using fits_iff [OF v i] less.prems room_digits [OF v, of c c' "length gs"] by simp
    moreover obtain p p' where "encode x (length gs) c (g @ [y]) = Some p" "encode x (length gs) c' (g @ [y]) = Some p'"
      using encode_total [OF v] by blast
    ultimately show ?case using Cons by (simp add: fitting_def)
  qed simp
  show ?case
  proof (cases "rs = []")
    case False
    obtain g where g: "fillGroup (encode x (length gs) c) (fits x (length gs) c) [] rs = Inr g" using fill_total [OF v] by blast
    from fillGroup_Inr [OF g] obtain k where k: "k \<le> length rs" "g = take k rs" by auto
    have "packAttempt (encode x) (fits x) c (gs @ [g]) (drop (length g) rs) = packAttempt (encode x) (fits x) c' (gs @ [g]) (drop (length g) rs)"
      if "g \<noteq> []"
    proof (rule less.hyps)
      show "length (drop (length g) rs) < length rs" using that k False by simp
      have "0 < k" "length g = k" using that k by auto
      then show "length (gs @ [g]) + length (drop (length g) rs) < 1000" using less.prems(6) k(1) by simp
    qed (use less.prems in simp_all)
    with False g same show ?thesis by (subst (1 2) packAttempt.simps) auto
  qed (simp add: packAttempt.simps)
qed

theorem pack_complete:
  assumes v: "valid x" and "length rs \<le> 32 * rowsPerGroup" "length rs < 1000"
  obtains groups where "packDirectoryRows (encode x) (fits x) rs = Inr groups" "length groups \<le> 32"
proof (cases "rs = []")
  case True
  then show ?thesis using that by (simp add: packDirectoryRows_def)
next
  case False
  have total: "\<exists>all. packAttempt (encode x) (fits x) c [] rs = Inr all \<and> 1 \<le> length all \<and> length all \<le> 32" if "1 \<le> c" "c \<le> 32" for c
  proof -
    obtain all where all: "packAttempt (encode x) (fits x) c [] rs = Inr all" "length all \<le> 32"
      using attempt_total [OF v, of "[]" rs c 32] assms \<open>1 \<le> c\<close> \<open>c \<le> 32\<close> by auto
    with packAttempt_Inr [OF all(1)] False show ?thesis by (cases all) auto
  qed
  obtain a where a: "packAttempt (encode x) (fits x) 1 [] rs = Inr a" "1 \<le> length a" "length a \<le> 32" using total [of 1] by auto
  obtain b where b: "packAttempt (encode x) (fits x) (length a) [] rs = Inr b" "1 \<le> length b" "length b \<le> 32"
    using total [OF a(2,3)] by auto
  have mono: "length a \<le> length b" using attempt_mono [OF v b(1) a(1), of 0] a assms(3) by simp
  have again: "packAttempt (encode x) (fits x) (length b) [] rs = Inr b" if "\<not> length a < 10"
    using attempt_digits [OF v, of "length a" "length b" "[]" rs] that mono a b assms(3) by simp
  have first: "b = a" if "length a < 10"
    using attempt_digits [OF v, of 1 "length a" "[]" rs] that a b assms(3) by simp
  have "\<exists>groups. packStable (encode x) (fits x) rs 6 1 = Inr groups \<and> length groups \<le> 32"
  proof (cases "length a = 1 \<or> length a < 10")
    case True
    then show ?thesis using a b first by (auto simp: eval_nat_numeral)
  next
    case large: False
    then show ?thesis using a b again by (auto simp: eval_nat_numeral)
  qed
  with False show ?thesis using that by (auto simp: packDirectoryRows_def)
qed

end

end
