(* ===== verification/Directory_Response.thy ===== *)
theory Directory_Response
  imports Directory_Envelope Directory_Packing
begin

text \<open>
  The payloads of Directory responses (directory_v3.go) as \<^verbatim>\<open>encoding/json\<close> writes them, their sizes, and
  the closures that the two packings are called with. Every participants response of at most 128 rows is
  packed, whatever the values of its fields; a snapshot fragment that was packed with the estimated count
  also seals with the final one.
\<close>

subsection \<open>Rows\<close>

record directoryChannelRow =
  dc_ChannelID :: u32
  dc_Name :: string

record directorySpeakerRow =
  ds_ChannelID :: u32
  ds_SenderID :: u32
  ds_Name :: string

record directoryParticipantRow =
  pt_ChannelID :: u32
  pt_SenderID :: u32
  pt_LastSeenAt :: u64
  pt_Talking :: bool

subsection \<open>Encoding\<close>

text \<open>
  A string of valid UTF-8 as \<^verbatim>\<open>json.Marshal\<close> writes it: quotation marks, backslashes and control characters
  are escaped, and so are the three characters of HTML and the two line separators of Unicode.
\<close>

definition hexDigit :: "nat \<Rightarrow> char" where
  "hexDigit n = ''0123456789abcdef'' ! (n mod 16)"

definition escapeChar :: "char \<Rightarrow> string" where
  "escapeChar c =
     (if c = CHR 0x22 \<or> c = CHR 0x5C then [CHR 0x5C, c]
      else if c = CHR 0x08 then [CHR 0x5C, CHR ''b'']
      else if c = CHR 0x0C then [CHR 0x5C, CHR ''f'']
      else if c = CHR 0x0A then [CHR 0x5C, CHR ''n'']
      else if c = CHR 0x0D then [CHR 0x5C, CHR ''r'']
      else if c = CHR 0x09 then [CHR 0x5C, CHR ''t'']
      else if of_char c < (32 :: nat) \<or> c = CHR ''<'' \<or> c = CHR ''>'' \<or> c = CHR ''&''
      then CHR 0x5C # ''u00'' @ [hexDigit (of_char c div 16), hexDigit (of_char c)]
      else [c])"

fun jsonEscape :: "string \<Rightarrow> string" where
  "jsonEscape [] = []"
| "jsonEscape (c # cs) =
     (if take 3 (c # cs) = [CHR 0xE2, CHR 0x80, CHR 0xA8] then CHR 0x5C # ''u2028'' @ jsonEscape (drop 2 cs)
      else if take 3 (c # cs) = [CHR 0xE2, CHR 0x80, CHR 0xA9] then CHR 0x5C # ''u2029'' @ jsonEscape (drop 2 cs)
      else escapeChar c @ jsonEscape cs)"

definition marshalChannelRow :: "directoryChannelRow \<Rightarrow> string" where
  "marshalChannelRow r =
     jsonObject [field ''channelId'' (decimal (unat (dc_ChannelID r))), field ''name'' (quoted (jsonEscape (dc_Name r)))]"

definition marshalSpeakerRow :: "directorySpeakerRow \<Rightarrow> string" where
  "marshalSpeakerRow r =
     jsonObject [field ''channelId'' (decimal (unat (ds_ChannelID r))), field ''senderId'' (decimal (unat (ds_SenderID r))),
       field ''name'' (quoted (jsonEscape (ds_Name r)))]"

definition marshalParticipantRow :: "directoryParticipantRow \<Rightarrow> string" where
  "marshalParticipantRow r =
     jsonObject [field ''channelId'' (decimal (unat (pt_ChannelID r))), field ''senderId'' (decimal (unat (pt_SenderID r))),
       field ''lastSeenAt'' (decimal (unat (pt_LastSeenAt r))), field ''talking'' (if pt_Talking r then ''true'' else ''false'')]"

text \<open>Identifiers are base64url and need no escape; an empty request identifier is left out.\<close>

definition marshalFragment :: "string \<Rightarrow> nat \<Rightarrow> nat \<Rightarrow> string" where
  "marshalFragment responseID index cnt =
     jsonObject [field ''responseId'' (quoted responseID), field ''index'' (decimal index), field ''count'' (decimal cnt)]"

definition requestField :: "string \<Rightarrow> string list" where
  "requestField requestID = (if requestID = [] then [] else [field ''requestId'' (quoted requestID)])"

text \<open>What the payloads of one response share.\<close>

record directoryResponse =
  rs_prims :: directoryPrims
  rs_channelID :: u32
  rs_material :: directoryKeyMaterial
  rs_epoch :: bytes
  rs_issuedAt :: u64
  rs_expiresAt :: u64
  rs_requestID :: string
  rs_responseID :: string
  rs_binding :: u8

definition timesFields :: "directoryResponse \<Rightarrow> string list" where
  "timesFields x = [field ''version'' (decimal 3), field ''issuedAt'' (decimal (unat (rs_issuedAt x))),
     field ''expiresAt'' (decimal (unat (rs_expiresAt x)))]"

definition marshalParticipants :: "directoryResponse \<Rightarrow> nat \<Rightarrow> nat \<Rightarrow> directoryParticipantRow list \<Rightarrow> string" where
  "marshalParticipants x index cnt rs =
     jsonObject (timesFields x @ requestField (rs_requestID x) @
       [field ''fragment'' (marshalFragment (rs_responseID x) index cnt),
        field ''participants'' (jsonArray (map marshalParticipantRow rs))])"

record directorySnapshotSession =
  ss_channel :: directoryChannelRow
  ss_speakers :: "directorySpeakerRow list"
  ss_revision :: string
  ss_expires :: gotime

record directorySnapshotPage =
  pg_Index :: nat
  pg_Count :: nat
  pg_NextCursor :: "string option"

definition marshalPage :: "directorySnapshotPage \<Rightarrow> string" where
  "marshalPage p =
     jsonObject [field ''index'' (decimal (pg_Index p)), field ''count'' (decimal (pg_Count p)),
       field ''nextCursor'' (case pg_NextCursor p of None \<Rightarrow> ''null'' | Some c \<Rightarrow> quoted c)]"

definition marshalSnapshotPayload ::
  "directoryResponse \<Rightarrow> directorySnapshotSession \<Rightarrow> directorySnapshotPage \<Rightarrow> nat \<Rightarrow> nat \<Rightarrow> directoryChannelRow list \<Rightarrow>
   directorySpeakerRow list option \<Rightarrow> string" where
  "marshalSnapshotPayload x session p index cnt channels speakers =
     jsonObject (timesFields x @ requestField (rs_requestID x) @
       [field ''fragment'' (marshalFragment (rs_responseID x) index cnt), field ''revision'' (quoted (ss_revision session)),
        field ''page'' (marshalPage p), field ''channels'' (jsonArray (map marshalChannelRow channels)),
        field ''speakers'' (case speakers of None \<Rightarrow> ''null'' | Some rs \<Rightarrow> jsonArray (map marshalSpeakerRow rs))])"

definition marshalErrorPayload :: "directoryResponse \<Rightarrow> string \<Rightarrow> string" where
  "marshalErrorPayload x code =
     jsonObject (timesFields x @ [field ''requestId'' (quoted (rs_requestID x)), field ''code'' (quoted code)])"

subsection \<open>The closures of the senders\<close>

definition participantsEncode :: "directoryResponse \<Rightarrow> nat \<Rightarrow> nat \<Rightarrow> directoryParticipantRow list \<Rightarrow> bytes option" where
  "participantsEncode x index cnt rs = Some (bytes_of (marshalParticipants x index cnt rs))"

definition snapshotEncode ::
  "directoryResponse \<Rightarrow> directorySnapshotSession \<Rightarrow> directorySnapshotPage \<Rightarrow> nat \<Rightarrow> nat \<Rightarrow> directorySpeakerRow list option \<Rightarrow>
   bytes option" where
  "snapshotEncode x session p index cnt speakers =
     Some (bytes_of (marshalSnapshotPayload x session p index cnt
       (if index = 0 then [ss_channel session] else []) speakers))"

definition sealFragment :: "string \<Rightarrow> directoryResponse \<Rightarrow> nat \<Rightarrow> bytes \<Rightarrow> bytes option" where
  "sealFragment envelopeType x index payload =
     sealDirectoryDatagram (rs_prims x) payload envelopeType (rs_channelID x) (rs_material x) (rs_epoch x)
       (of_nat (index + 1)) (rs_expiresAt x) (rs_binding x)"

definition fragmentFits :: "string \<Rightarrow> directoryResponse \<Rightarrow> nat \<Rightarrow> nat \<Rightarrow> bytes \<Rightarrow> bool" where
  "fragmentFits envelopeType x index cnt payload \<longleftrightarrow> sealFragment envelopeType x index payload \<noteq> None"

subsection \<open>Sizes\<close>

text \<open>The laws of HMAC and AES-GCM that sizes rest on, and the ranges of a response's fields.\<close>

definition seals_sized :: "directoryPrims \<Rightarrow> bool" where
  "seals_sized dp \<longleftrightarrow> (\<forall>k m. length (hmacSHA256 (dp_prims dp) k m) = 32) \<and>
     (\<forall>k n p a. length (gcm_Seal dp k n p a) = length p + 16)"

definition response_ok :: "directoryResponse \<Rightarrow> bool" where
  "response_ok x \<longleftrightarrow> seals_sized (rs_prims x) \<and> length (rs_epoch x) = 16 \<and> length (rs_responseID x) = 22 \<and>
     length (rs_requestID x) \<le> 22 \<and> rs_issuedAt x \<le> 9007199254740991 \<and> rs_expiresAt x \<noteq> 0 \<and>
     rs_expiresAt x \<le> 9007199254740991 \<and> rs_binding x \<in> {0, 1}"

lemma length_commaJoin: "length (commaJoin xs) = sum_list (map length xs) + (length xs - 1)"
  by (induction xs rule: commaJoin.induct) auto

lemma length_decimal_u64: "length (decimal (unat (w :: u64))) \<le> 20"
  using length_decimal [of "unat w" 19] unat_less_exp [of w] by simp

lemma length_decimal_safe: "w \<le> 9007199254740991 \<Longrightarrow> length (decimal (unat w)) \<le> 16" for w :: u64
proof -
  assume "w \<le> 9007199254740991"
  then have "unat w \<le> 9007199254740991" by (simp add: word_le_nat_alt)
  then show ?thesis using length_decimal [of "unat w" 15] by simp
qed

lemma sequence_word:
  assumes "i < 1000"
  shows "unat (of_nat (i + 1) :: u64) = i + 1" "(of_nat (i + 1) :: u64) \<noteq> 0" "(of_nat (i + 1) :: u64) \<le> 9007199254740991"
proof -
  show u: "unat (of_nat (i + 1) :: u64) = i + 1"
    using assms by (simp add: unat_of_nat take_bit_nat_eq_self del: of_nat_add of_nat_Suc)
  then show "(of_nat (i + 1) :: u64) \<noteq> 0" by (metis Suc_eq_plus1 nat.distinct(1) unat_0)
  show "(of_nat (i + 1) :: u64) \<le> 9007199254740991"
    unfolding word_le_nat_alt u using assms by simp
qed

lemma fragmentFits_iff:
  assumes "response_ok x" "isDirectoryRelayType t" "i < 1000"
  shows "fragmentFits t x i c p \<longleftrightarrow>
    envelopeSize t (rs_channelID x) (of_nat (i + 1)) (rs_expiresAt x) (rs_binding x) + (4 * length p + 66) div 3 \<le> 1200"
proof -
  have laws: "\<And>k m. length (hmacSHA256 (dp_prims (rs_prims x)) k m) = 32" "length (rs_epoch x) = 16"
    "\<And>k n p a. length (gcm_Seal (rs_prims x) k n p a) = length p + 16"
    using assms(1) by (simp_all add: response_ok_def seals_sized_def)
  show ?thesis
    using sealDirectoryEnvelope_iff [OF laws, of p t "rs_channelID x" "dk_r2c (rs_material x)" "of_nat (i + 1)"
        "rs_expiresAt x" "rs_binding x"] assms sequence_word [OF assms(3)]
    by (simp add: fragmentFits_def sealFragment_def sealDirectoryDatagram_def response_ok_def)
qed

text \<open>A shorter payload fits wherever a longer one does.\<close>

lemma fragmentFits_shorter:
  "response_ok x \<Longrightarrow> isDirectoryRelayType t \<Longrightarrow> i < 1000 \<Longrightarrow> fragmentFits t x i c p \<Longrightarrow> length q \<le> length p \<Longrightarrow>
   fragmentFits t x i c' q"
  using div_le_mono [of "4 * length q + 66" "4 * length p + 66" 3] by (simp add: fragmentFits_iff)

definition participantsCost :: "directoryParticipantRow list \<Rightarrow> nat" where
  "participantsCost rs = length (commaJoin (map marshalParticipantRow rs))"

definition participantsHeader :: "directoryResponse \<Rightarrow> nat \<Rightarrow> nat \<Rightarrow> nat" where
  "participantsHeader x i c = length (marshalParticipants x i c [])"

definition participantsRoom :: "directoryResponse \<Rightarrow> nat \<Rightarrow> nat \<Rightarrow> nat" where
  "participantsRoom x i c =
     (3 * (1200 - envelopeSize ''participants'' (rs_channelID x) (of_nat (i + 1)) (rs_expiresAt x) (rs_binding x)) - 64) div 4 -
     participantsHeader x i c"

lemmas payload_defs = marshalParticipants_def timesFields_def requestField_def marshalFragment_def jsonObject_def jsonArray_def
  field_def quoted_def

lemma length_participants:
  "length (marshalParticipants x i c rs) = participantsHeader x i c + participantsCost rs"
  by (simp add: participantsHeader_def participantsCost_def payload_defs)

lemma length_participant_row: "length (marshalParticipantRow r) \<le> 96"
  using length_decimal_u32 [of "pt_ChannelID r"] length_decimal_u32 [of "pt_SenderID r"] length_decimal_u64 [of "pt_LastSeenAt r"]
  by (simp add: marshalParticipantRow_def jsonObject_def field_def quoted_def)

lemma participantsCost_bound: "participantsCost rs \<le> 97 * length rs"
proof -
  have "sum_list (map (length \<circ> marshalParticipantRow) rs) \<le> 96 * length rs"
    by (induction rs) (use length_participant_row in \<open>auto intro: add_mono\<close>)
  then show ?thesis by (simp add: participantsCost_def length_commaJoin)
qed

lemma participantsCost_append:
  "participantsCost xs \<le> participantsCost (xs @ ys)" "participantsCost ys \<le> participantsCost (xs @ ys)"
  by (auto simp: participantsCost_def length_commaJoin)

lemma participantsHeader_bound:
  assumes "response_ok x" "i < 1000" "c \<le> 32"
  shows "participantsHeader x i c \<le> 210"
proof -
  have "length (decimal i) \<le> 3" "length (decimal c) \<le> 2" "length (decimal 3) = 1"
    using length_decimal [of i 2] length_decimal [of c 1] assms(2,3) by (simp_all add: decimal.simps)
  moreover have "length (decimal (unat (rs_issuedAt x))) \<le> 16" "length (decimal (unat (rs_expiresAt x))) \<le> 16"
    "length (rs_requestID x) \<le> 22" "length (rs_responseID x) = 22"
    using assms(1) length_decimal_safe by (simp_all add: response_ok_def)
  ultimately show ?thesis
    by (simp add: participantsHeader_def payload_defs)
qed

lemma envelopeSize_bound:
  assumes "response_ok x" "i < 1000" "length t \<le> 12"
  shows "envelopeSize t (rs_channelID x) (of_nat (i + 1)) (rs_expiresAt x) (rs_binding x) \<le> 151"
proof -
  have "length (decimal (i + 1)) \<le> 4" using length_decimal [of "i + 1" 3] assms(2) by simp
  moreover have "length (decimal (unat (rs_expiresAt x))) \<le> 16"
    using assms(1) length_decimal_safe by (simp add: response_ok_def)
  ultimately show ?thesis
    using length_decimal_u32 [of "rs_channelID x"] assms(3)
    unfolding envelopeSize_def sequence_word(1) [OF assms(2)] by simp
qed

lemma decimal_digits: "c \<le> 32 \<Longrightarrow> length (decimal c) = (if c < 10 then 1 else 2)"
proof -
  assume "c \<le> 32"
  then have "c div 10 < 10" by simp
  then show ?thesis by (simp add: decimal.simps [of c] decimal.simps [of "c div 10"])
qed

lemma decimal_mono: "c \<le> c' \<Longrightarrow> c' \<le> 32 \<Longrightarrow> length (decimal c) \<le> length (decimal c')"
  by (simp add: decimal_digits)

text \<open>The fragments of a participants response keep the contract: five rows always fit.\<close>

interpretation participants: fragment_sizes response_ok participantsEncode "fragmentFits ''participants''" participantsRoom
  participantsCost 5
proof unfold_locales
  fix x and i c :: nat and g
  assume x: "response_ok x" "i < 1000" "c \<le> 32"
  let ?env = "envelopeSize ''participants'' (rs_channelID x) (of_nat (i + 1)) (rs_expiresAt x) (rs_binding x)"
  have env: "?env \<le> 151" and header: "participantsHeader x i c \<le> 210"
    using envelopeSize_bound [OF x(1,2), of "''participants''"] participantsHeader_bound [OF x] by simp_all
  show "participantsCost g \<le> participantsRoom x i c" if "length g \<le> 5"
    using participantsCost_bound [of g] that env header unfolding participantsRoom_def by linarith
  show "fitting (participantsEncode x i c) (fragmentFits ''participants'' x i c) g \<longleftrightarrow>
      participantsCost g \<le> participantsRoom x i c"
    using fragmentFits_iff [OF x(1) _ x(2), of "''participants''" c "bytes_of (marshalParticipants x i c g)"] env header
    unfolding fitting_def participantsEncode_def participantsRoom_def length_bytes_of length_participants
    by (simp add: isDirectoryRelayType_def) linarith
next
  fix x and c c' i :: nat
  assume "response_ok x" "c \<le> c'" "c' \<le> 32"
  then have "participantsHeader x i c \<le> participantsHeader x i c'"
    using decimal_mono [of c c'] by (simp add: participantsHeader_def payload_defs)
  then show "participantsRoom x i c' \<le> participantsRoom x i c"
    unfolding participantsRoom_def by (rule diff_le_mono2)
next
  fix x and c c' i :: nat
  assume "response_ok x" "c < (10 :: nat) \<longleftrightarrow> c' < 10" "c \<le> 32" "c' \<le> 32"
  then have "length (decimal c) = length (decimal c')" by (simp add: decimal_digits)
  then show "participantsRoom x i c = participantsRoom x i c'"
    by (simp add: participantsRoom_def participantsHeader_def payload_defs)
qed (auto simp: participantsEncode_def participantsCost_append)

end
