(* ===== verification/Directory_Config.thy ===== *)
theory Directory_Config
  imports Directory_Response Go_Text
begin

text \<open>
  The configuration of the Directory (directory_v3.go): the key store and the metadata loaded from CSV
  rows, the check that both name the same channels, and the speakers and the revision of a channel. The
  file system, the CSV reader and the permission check of a secret file are parameters. What is loaded
  is well-formed and within its limits, so that a snapshot never has more than 256 pages.
\<close>

abbreviation (input) directoryMaxChannels :: nat where "directoryMaxChannels \<equiv> 256"
abbreviation (input) directoryMaxSpeakers :: nat where "directoryMaxSpeakers \<equiv> 4096"
abbreviation (input) directoryMaxSnapshotPages :: nat where "directoryMaxSnapshotPages \<equiv> 256"

datatype configError = ConfigConnection | ConfigTransport | ConfigParticipants | ConfigTiming | ConfigPath | ConfigPermissions |
  ConfigRead | ConfigEmpty | ConfigLimit | ConfigColumns | ConfigNumber | ConfigName | ConfigKey | ConfigDuplicate |
  ConfigUnknownChannel | ConfigMismatch

subsection \<open>Texts\<close>

definition parseDirectoryTransport :: "string \<Rightarrow> directoryTransport option" where
  "parseDirectoryTransport value =
     (let v = TrimSpace value in
      if v = [] \<or> ToLowerIs v ''media-port'' then Some MediaPort
      else if ToLowerIs v ''dedicated-udp'' then Some DedicatedUDP else None)"

definition validDirectoryName :: "string \<Rightarrow> bool" where
  "validDirectoryName value \<longleftrightarrow>
     value \<noteq> [] \<and> (case utf8Count (bytes_of value) of None \<Rightarrow> False | Some n \<Rightarrow> n \<le> 128)"

definition parseDirectoryU32 :: "string \<Rightarrow> bool \<Rightarrow> u32 option" where
  "parseDirectoryU32 value nonzero =
     (let v = TrimSpace value in
      if v = [] \<or> take 1 v = ''+'' \<or> take 1 v = ''-'' \<or> CHR ''x'' \<in> set v \<or> CHR ''X'' \<in> set v then None
      else if \<not> list_all isDigit v \<or> 2 ^ 32 \<le> digitsValue v then None
      else if nonzero \<and> digitsValue v = 0 then None
      else Some (of_nat (digitsValue v)))"

definition isDirectoryHeader :: "string list \<Rightarrow> string list \<Rightarrow> bool" where
  "isDirectoryHeader row expected \<longleftrightarrow>
     length row = length expected \<and> list_all2 (\<lambda>cell name. EqualFold (TrimSpace cell) name) row expected"

definition dropHeader :: "string list list \<Rightarrow> string list \<Rightarrow> string list list" where
  "dropHeader table expected =
     (case table of row # rest \<Rightarrow> if isDirectoryHeader row expected then rest else table | [] \<Rightarrow> [])"

subsection \<open>Keys\<close>

fun loadKeyRows :: "prims \<Rightarrow> string list list \<Rightarrow> directoryKeyStore \<Rightarrow> configError + directoryKeyStore" where
  "loadKeyRows pr [] keys = Inr keys"
| "loadKeyRows pr (row # rest) keys =
     (case row of
        [idText, keyText] \<Rightarrow>
          (case parseDirectoryU32 idText False of
             None \<Rightarrow> Inl ConfigNumber
           | Some channelID \<Rightarrow>
               let encoded = TrimSpace keyText in
               (case b64Decode encoded of
                  None \<Rightarrow> Inl ConfigKey
                | Some decoded \<Rightarrow>
                    if length decoded \<noteq> 32 \<or> b64Encode decoded \<noteq> encoded then Inl ConfigKey
                    else if list_all (\<lambda>b. b = 0) decoded then Inl ConfigKey
                    else if map_of keys channelID \<noteq> None then Inl ConfigDuplicate
                    else (case newDirectoryKeyMaterial pr decoded of
                        None \<Rightarrow> Inl ConfigKey
                      | Some material \<Rightarrow> loadKeyRows pr rest (AList.update channelID material keys))))
      | _ \<Rightarrow> Inl ConfigColumns)"

text \<open>\<open>readCSV\<close> is \<^verbatim>\<open>readDirectoryCSV\<close>, and \<open>permitted\<close> the permission check of the key file.\<close>

definition loadDirectoryKeyStore ::
  "prims \<Rightarrow> (string \<Rightarrow> string list list option) \<Rightarrow> bool \<Rightarrow> string \<Rightarrow> configError + directoryKeyStore" where
  "loadDirectoryKeyStore pr readCSV permitted path =
     (if blankText path then Inl ConfigPath
      else if \<not> permitted then Inl ConfigPermissions
      else case readCSV path of
        None \<Rightarrow> Inl ConfigRead
      | Some table \<Rightarrow>
          if table = [] then Inl ConfigEmpty
          else let table' = dropHeader table [''channel_id'', ''directory_channel_key_base64url''] in
            if table' = [] then Inl ConfigEmpty else loadKeyRows pr table' [])"

subsection \<open>Metadata\<close>

record directoryMetadata =
  md_channels :: "(u32, directoryChannelRow) gomap"
  md_speakers :: "(u32, (u32, directorySpeakerRow) gomap) gomap"
  md_fallback :: "(u32, directorySpeakerRow) gomap"

fun loadChannelRows :: "string list list \<Rightarrow> directoryMetadata \<Rightarrow> configError + directoryMetadata" where
  "loadChannelRows [] m = Inr m"
| "loadChannelRows (row # rest) m =
     (case row of
        [idText, name] \<Rightarrow>
          (case parseDirectoryU32 idText False of
             None \<Rightarrow> Inl ConfigNumber
           | Some channelID \<Rightarrow>
               if \<not> validDirectoryName name then Inl ConfigName
               else if map_of (md_channels m) channelID \<noteq> None then Inl ConfigDuplicate
               else loadChannelRows rest
                 (m\<lparr>md_channels := AList.update channelID \<lparr>dc_ChannelID = channelID, dc_Name = name\<rparr> (md_channels m)\<rparr>))
      | _ \<Rightarrow> Inl ConfigColumns)"

definition speakersOf :: "directoryMetadata \<Rightarrow> u32 \<Rightarrow> (u32, directorySpeakerRow) gomap" where
  "speakersOf m channelID = (case map_of (md_speakers m) channelID of None \<Rightarrow> [] | Some t \<Rightarrow> t)"

fun loadSpeakerRows :: "string list list \<Rightarrow> directoryMetadata \<Rightarrow> configError + directoryMetadata" where
  "loadSpeakerRows [] m = Inr m"
| "loadSpeakerRows (row # rest) m =
     (case row of
        [idText, senderText, name] \<Rightarrow>
          (case parseDirectoryU32 senderText True of
             None \<Rightarrow> Inl ConfigNumber
           | Some senderID \<Rightarrow>
               if \<not> validDirectoryName name then Inl ConfigName
               else if EqualFold (TrimSpace idText) ''all'' then
                 (if map_of (md_fallback m) senderID \<noteq> None then Inl ConfigDuplicate
                  else loadSpeakerRows rest
                    (m\<lparr>md_fallback := AList.update senderID \<lparr>ds_ChannelID = 0, ds_SenderID = senderID, ds_Name = name\<rparr>
                         (md_fallback m)\<rparr>))
               else (case parseDirectoryU32 idText False of
                   None \<Rightarrow> Inl ConfigNumber
                 | Some channelID \<Rightarrow>
                     if map_of (md_channels m) channelID = None then Inl ConfigUnknownChannel
                     else if map_of (speakersOf m channelID) senderID \<noteq> None then Inl ConfigDuplicate
                     else loadSpeakerRows rest
                       (m\<lparr>md_speakers := AList.update channelID
                            (AList.update senderID \<lparr>ds_ChannelID = channelID, ds_SenderID = senderID, ds_Name = name\<rparr>
                               (speakersOf m channelID)) (md_speakers m)\<rparr>)))
      | _ \<Rightarrow> Inl ConfigColumns)"

definition loadDirectoryMetadata ::
  "(string \<Rightarrow> string list list option) \<Rightarrow> string \<Rightarrow> string \<Rightarrow> configError + directoryMetadata" where
  "loadDirectoryMetadata readCSV channelsPath speakersPath =
     (if blankText channelsPath \<or> blankText speakersPath then Inl ConfigPath
      else case readCSV channelsPath of
        None \<Rightarrow> Inl ConfigRead
      | Some table \<Rightarrow>
          let channelsRows = dropHeader table [''channel_id'', ''name''] in
          if channelsRows = [] then Inl ConfigEmpty
          else if directoryMaxChannels < length channelsRows then Inl ConfigLimit
          else (case loadChannelRows channelsRows \<lparr>md_channels = [], md_speakers = [], md_fallback = []\<rparr> of
              Inl e \<Rightarrow> Inl e
            | Inr m \<Rightarrow>
                (case readCSV speakersPath of
                   None \<Rightarrow> Inl ConfigRead
                 | Some table' \<Rightarrow>
                     let speakerRows = dropHeader table' [''channel_id'', ''sender_id'', ''name''] in
                     if directoryMaxSpeakers < length speakerRows then Inl ConfigLimit
                     else loadSpeakerRows speakerRows m)))"

text \<open>A channel's own entry replaces the fallback of the same sender.\<close>

definition resolvedSpeakers :: "directoryMetadata \<Rightarrow> u32 \<Rightarrow> directorySpeakerRow list" where
  "resolvedSpeakers m channelID =
     (let fallback = map (\<lambda>(senderID, row). (senderID, row\<lparr>ds_ChannelID := channelID\<rparr>)) (md_fallback m);
          resolved = foldl (\<lambda>t (senderID, row). AList.update senderID row t) fallback (speakersOf m channelID)
      in sort_key ds_SenderID (map snd resolved))"

definition hexString :: "bytes \<Rightarrow> string" where
  "hexString bs = concat (map (\<lambda>b. [hexDigit (unat b div 16), hexDigit (unat b)]) bs)"

definition metadataRevision :: "prims \<Rightarrow> directoryMetadata \<Rightarrow> u32 \<Rightarrow> string option" where
  "metadataRevision pr m channelID =
     (case map_of (md_channels m) channelID of
        None \<Rightarrow> None
      | Some channel \<Rightarrow>
          Some (hexString (sha256 pr (bytes_of (jsonObject [field ''channel'' (marshalChannelRow channel),
            field ''speakers'' (jsonArray (map marshalSpeakerRow (resolvedSpeakers m channelID)))])))))"

subsection \<open>What is loaded\<close>

definition channels_wf :: "(u32, directoryChannelRow) gomap \<Rightarrow> bool" where
  "channels_wf t \<longleftrightarrow> gomap_wf t \<and> (\<forall>(c, r)\<in>set t. dc_ChannelID r = c \<and> validDirectoryName (dc_Name r))"

definition speakers_wf :: "u32 \<Rightarrow> (u32, directorySpeakerRow) gomap \<Rightarrow> bool" where
  "speakers_wf c t \<longleftrightarrow> gomap_wf t \<and>
     (\<forall>(n, r)\<in>set t. ds_ChannelID r = c \<and> ds_SenderID r = n \<and> n \<noteq> 0 \<and> validDirectoryName (ds_Name r))"

definition speakerRowsOf :: "directoryMetadata \<Rightarrow> nat" where
  "speakerRowsOf m = length (md_fallback m) + sum_list (map (\<lambda>(c, t). length t) (md_speakers m))"

definition metadata_wf :: "directoryMetadata \<Rightarrow> bool" where
  "metadata_wf m \<longleftrightarrow> channels_wf (md_channels m) \<and> gomap_wf (md_speakers m) \<and> speakers_wf 0 (md_fallback m) \<and>
     (\<forall>(c, t)\<in>set (md_speakers m). map_of (md_channels m) c \<noteq> None \<and> speakers_wf c t)"

lemma length_dropHeader: "length (dropHeader table expected) \<le> length table"
  by (auto simp: dropHeader_def split: list.splits)

lemma speakers_wf_update:
  assumes "speakers_wf c t" "n \<noteq> 0" "validDirectoryName name"
  shows "speakers_wf c (AList.update n \<lparr>ds_ChannelID = c, ds_SenderID = n, ds_Name = name\<rparr> t)"
  using assms by (auto simp: speakers_wf_def set_update_wf)

lemma speakers_wf_speakersOf: "metadata_wf m \<Longrightarrow> speakers_wf c (speakersOf m c)"
  by (auto simp: metadata_wf_def speakersOf_def speakers_wf_def split: option.split dest!: map_of_SomeD)

lemma sum_lengths_update:
  assumes "gomap_wf t"
  shows "sum_list (map (\<lambda>(c, v). length v) (AList.update k w t)) + (case map_of t k of None \<Rightarrow> 0 | Some v \<Rightarrow> length v) =
    sum_list (map (\<lambda>(c, v). length v) t) + length w"
  using assms
proof (induction t)
  case (Cons kv t)
  then show ?case by (cases kv) (auto simp: map_of_eq_None_iff [THEN iffD2] split: option.splits)
qed simp

lemma loadChannelRows_wf:
  "loadChannelRows rs m = Inr m' \<Longrightarrow> metadata_wf m \<Longrightarrow>
   metadata_wf m' \<and> md_speakers m' = md_speakers m \<and> md_fallback m' = md_fallback m \<and>
   length (md_channels m') = length (md_channels m) + length rs"
proof (induction rs arbitrary: m)
  case (Cons row rest)
  from Cons.prems(1) obtain idText name channelID where row: "row = [idText, name]" "parseDirectoryU32 idText False = Some channelID"
      "validDirectoryName name" "map_of (md_channels m) channelID = None"
    and rest: "loadChannelRows rest (m\<lparr>md_channels := AList.update channelID \<lparr>dc_ChannelID = channelID, dc_Name = name\<rparr>
        (md_channels m)\<rparr>) = Inr m'"
    by (auto split: list.splits option.splits if_splits)
  have "channels_wf (AList.update channelID \<lparr>dc_ChannelID = channelID, dc_Name = name\<rparr> (md_channels m))"
    using Cons.prems(2) row(3) by (auto simp: metadata_wf_def channels_wf_def set_update_wf)
  then have "metadata_wf (m\<lparr>md_channels := AList.update channelID \<lparr>dc_ChannelID = channelID, dc_Name = name\<rparr> (md_channels m)\<rparr>)"
    using Cons.prems(2) by (auto simp: metadata_wf_def)
  moreover have "channelID \<notin> fst ` set (md_channels m)" using row(4) by (simp add: map_of_eq_None_iff)
  ultimately show ?case
    using Cons.IH [OF rest] by (auto simp: length_update_notin)
qed simp

lemma parseDirectoryU32_nonzero: "parseDirectoryU32 s True = Some n \<Longrightarrow> n \<noteq> 0"
proof -
  assume "parseDirectoryU32 s True = Some n"
  then obtain v where v: "n = of_nat (digitsValue v)" "digitsValue v \<noteq> 0" "digitsValue v < 2 ^ 32"
    by (auto simp: parseDirectoryU32_def Let_def split: if_splits)
  then have "unat n = digitsValue v" by (simp add: unat_of_nat take_bit_nat_eq_self)
  with v(2) show "n \<noteq> 0" by auto
qed

lemma loadSpeakerRows_wf:
  "loadSpeakerRows rs m = Inr m' \<Longrightarrow> metadata_wf m \<Longrightarrow>
   metadata_wf m' \<and> md_channels m' = md_channels m \<and> speakerRowsOf m' = speakerRowsOf m + length rs"
proof (induction rs arbitrary: m)
  case (Cons row rest)
  from Cons.prems(1) obtain idText senderText name n where row: "row = [idText, senderText, name]"
      "parseDirectoryU32 senderText True = Some n" "validDirectoryName name"
    by (auto split: list.splits option.splits if_splits)
  note n = parseDirectoryU32_nonzero [OF row(2)]
  show ?case
  proof (cases "EqualFold (TrimSpace idText) ''all''")
    case True
    let ?m = "m\<lparr>md_fallback := AList.update n \<lparr>ds_ChannelID = 0, ds_SenderID = n, ds_Name = name\<rparr> (md_fallback m)\<rparr>"
    have new: "map_of (md_fallback m) n = None" and rest: "loadSpeakerRows rest ?m = Inr m'"
      using Cons.prems(1) row True by (auto split: if_splits)
    have "metadata_wf ?m" using Cons.prems(2) n row(3) speakers_wf_update by (simp add: metadata_wf_def)
    moreover have "speakerRowsOf ?m = Suc (speakerRowsOf m)"
      using new by (simp add: speakerRowsOf_def length_update_notin map_of_eq_None_iff)
    ultimately show ?thesis using Cons.IH [OF rest] by simp
  next
    case False
    with Cons.prems(1) row obtain c where c: "parseDirectoryU32 idText False = Some c" "map_of (md_channels m) c \<noteq> None"
      "map_of (speakersOf m c) n = None"
      by (auto split: if_splits option.splits)
    let ?t = "AList.update n \<lparr>ds_ChannelID = c, ds_SenderID = n, ds_Name = name\<rparr> (speakersOf m c)"
    let ?m = "m\<lparr>md_speakers := AList.update c ?t (md_speakers m)\<rparr>"
    have rest: "loadSpeakerRows rest ?m = Inr m'" using Cons.prems(1) row False c by simp
    have "speakers_wf c ?t" by (rule speakers_wf_update [OF speakers_wf_speakersOf [OF Cons.prems(2)] n row(3)])
    then have wf: "metadata_wf ?m" using Cons.prems(2) c(2) by (auto simp: metadata_wf_def set_update_wf)
    have own: "(case map_of (md_speakers m) c of None \<Rightarrow> 0 | Some v \<Rightarrow> length v) = length (speakersOf m c)"
      by (simp add: speakersOf_def split: option.split)
    have "length ?t = Suc (length (speakersOf m c))"
      using c(3) by (simp add: length_update_notin map_of_eq_None_iff)
    then have "speakerRowsOf ?m = Suc (speakerRowsOf m)"
      using sum_lengths_update [of "md_speakers m" c ?t] Cons.prems(2) own
      by (simp add: speakerRowsOf_def metadata_wf_def)
    with Cons.IH [OF rest wf] show ?thesis by simp
  qed
qed simp

lemma loadDirectoryMetadata_wf:
  assumes "loadDirectoryMetadata readCSV channelsPath speakersPath = Inr m"
  shows "metadata_wf m" "md_channels m \<noteq> []" "length (md_channels m) \<le> 256" "speakerRowsOf m \<le> 4096"
proof -
  let ?empty = "\<lparr>md_channels = [], md_speakers = [], md_fallback = []\<rparr>"
  obtain cs ss m0 where m0: "loadChannelRows cs ?empty = Inr m0" "cs \<noteq> []" "length cs \<le> 256"
    and m: "loadSpeakerRows ss m0 = Inr m" "length ss \<le> 4096"
    using assms by (auto simp: loadDirectoryMetadata_def Let_def not_less split: if_splits option.splits sum.splits)
  have "metadata_wf ?empty" by (simp add: metadata_wf_def channels_wf_def speakers_wf_def)
  note channels = loadChannelRows_wf [OF m0(1) this]
  note speakers = loadSpeakerRows_wf [OF m(1)]
  show "metadata_wf m" "length (md_channels m) \<le> 256" using channels speakers m0(3) by auto
  show "speakerRowsOf m \<le> 4096" using channels speakers m(2) by (auto simp: speakerRowsOf_def)
  show "md_channels m \<noteq> []" using channels speakers m0(2) by fastforce
qed

text \<open>Every key in the store was derived from a channel key of 32 bytes that are not all zero.\<close>

definition keys_wf :: "prims \<Rightarrow> directoryKeyStore \<Rightarrow> bool" where
  "keys_wf pr keys \<longleftrightarrow> gomap_wf keys \<and>
     (\<forall>(c, k)\<in>set keys. length (dk_channel k) = 32 \<and> (\<exists>b\<in>set (dk_channel k). b \<noteq> 0) \<and>
        newDirectoryKeyMaterial pr (dk_channel k) = Some k)"

lemma newDirectoryKeyMaterial_channel: "newDirectoryKeyMaterial pr key = Some k \<Longrightarrow> dk_channel k = key \<and> length key = 32"
  by (auto simp: newDirectoryKeyMaterial_def split: if_splits option.splits)

lemma loadKeyRows_wf: "loadKeyRows pr rs keys = Inr keys' \<Longrightarrow> keys_wf pr keys \<Longrightarrow> keys_wf pr keys'"
proof (induction rs arbitrary: keys)
  case (Cons row rest)
  from Cons.prems(1) obtain c decoded k where k: "newDirectoryKeyMaterial pr decoded = Some k" "\<not> list_all (\<lambda>b. b = 0) decoded"
    and rest: "loadKeyRows pr rest (AList.update c k keys) = Inr keys'"
    by (auto simp: Let_def split: list.splits option.splits if_splits)
  have "keys_wf pr (AList.update c k keys)"
    using Cons.prems(2) k newDirectoryKeyMaterial_channel [OF k(1)]
    by (auto simp: keys_wf_def set_update_wf list_all_iff)
  from Cons.IH [OF rest this] show ?case .
qed simp

lemma loadDirectoryKeyStore_wf: "loadDirectoryKeyStore pr readCSV permitted path = Inr keys \<Longrightarrow> keys_wf pr keys"
  using loadKeyRows_wf [of pr _ "[]" keys]
  by (auto simp: loadDirectoryKeyStore_def Let_def keys_wf_def split: if_splits option.splits)

subsection \<open>The speakers of a channel\<close>

lemma foldl_update:
  "gomap_wf t \<Longrightarrow> gomap_wf u \<Longrightarrow>
   gomap_wf (foldl (\<lambda>t (k, v). AList.update k v t) t u) \<and>
   map_of (foldl (\<lambda>t (k, v). AList.update k v t) t u) = map_of t ++ map_of u \<and>
   length (foldl (\<lambda>t (k, v). AList.update k v t) t u) \<le> length t + length u"
proof (induction u arbitrary: t)
  case (Cons kv u)
  obtain k v where kv: "kv = (k, v)" by (cases kv)
  have "map_of u k = None" using Cons.prems(2) kv by (simp add: map_of_eq_None_iff)
  then have eq: "(map_of t)(k \<mapsto> v) ++ map_of u = map_of t ++ (map_of u)(k \<mapsto> v)"
    by (auto simp: map_add_def fun_eq_iff split: option.splits)
  have wf: "gomap_wf (AList.update k v t)" "gomap_wf u" using Cons.prems kv by auto
  note IH = Cons.IH [OF wf]
  show ?case
  proof (intro conjI)
    show "map_of (foldl (\<lambda>t (k, v). AList.update k v t) t (kv # u)) = map_of t ++ map_of (kv # u)"
      using IH eq by (simp only: kv foldl_Cons case_prod_conv map_of_update map_of.simps fst_conv snd_conv)
  qed (use IH kv length_update_le [of k v t] in auto)
qed simp

lemma resolvedSpeakers_rows:
  assumes "metadata_wf m"
  shows "sorted_wrt (<) (map ds_SenderID (resolvedSpeakers m c))"
    and "r \<in> set (resolvedSpeakers m c) \<longleftrightarrow>
      map_of (speakersOf m c) (ds_SenderID r) = Some r \<or>
      map_of (speakersOf m c) (ds_SenderID r) = None \<and>
        (\<exists>r0. map_of (md_fallback m) (ds_SenderID r) = Some r0 \<and> r = r0\<lparr>ds_ChannelID := c\<rparr>)"
    and "length (resolvedSpeakers m c) \<le> speakerRowsOf m"
proof -
  define fb where "fb = map (\<lambda>(n, r). (n, r\<lparr>ds_ChannelID := c\<rparr>)) (md_fallback m)"
  define all where "all = foldl (\<lambda>t (n, r). AList.update n r t) fb (speakersOf m c)"
  have own: "speakers_wf c (speakersOf m c)" by (rule speakers_wf_speakersOf [OF assms])
  have fb_wf: "speakers_wf c fb"
    using assms unfolding fb_def metadata_wf_def speakers_wf_def
    by (auto simp: comp_def case_prod_unfold)
  have keys: "gomap_wf fb" "gomap_wf (speakersOf m c)" using own fb_wf by (simp_all add: speakers_wf_def)
  note all = foldl_update [OF keys, folded all_def]
  have mem: "(n, r) \<in> set all \<longleftrightarrow> map_of (speakersOf m c) n = Some r \<or> map_of (speakersOf m c) n = None \<and> map_of fb n = Some r" for n r
    using all by (auto simp: map_of_eq_Some_iff [symmetric] map_add_Some_iff)
  have sender: "ds_SenderID r = n" if "(n, r) \<in> set all" for n r
    using that own fb_wf keys unfolding mem speakers_wf_def by (auto dest!: map_of_SomeD)
  have senders: "map ds_SenderID (map snd all) = map fst all"
    using sender by (auto simp: comp_def)
  have res: "resolvedSpeakers m c = sort_key ds_SenderID (map snd all)"
    by (simp add: resolvedSpeakers_def Let_def all_def fb_def)
  have "mset (map ds_SenderID (resolvedSpeakers m c)) = mset (map ds_SenderID (map snd all))"
    unfolding res by (simp only: mset_map mset_sort)
  from mset_eq_imp_distinct_iff [OF this] have "distinct (map ds_SenderID (resolvedSpeakers m c))"
    using all unfolding senders by blast
  moreover have "sorted (map ds_SenderID (resolvedSpeakers m c))" unfolding res by simp
  ultimately show "sorted_wrt (<) (map ds_SenderID (resolvedSpeakers m c))" by (simp add: strict_sorted_iff)
  have fb_map: "map_of fb n = map_option (\<lambda>r. r\<lparr>ds_ChannelID := c\<rparr>) (map_of (md_fallback m) n)" for n
    unfolding fb_def by (induction "md_fallback m") (auto simp: map_of_map)
  have "r \<in> set (resolvedSpeakers m c) \<longleftrightarrow> (ds_SenderID r, r) \<in> set all"
    unfolding res using sender by force
  then show "r \<in> set (resolvedSpeakers m c) \<longleftrightarrow>
      map_of (speakersOf m c) (ds_SenderID r) = Some r \<or>
      map_of (speakersOf m c) (ds_SenderID r) = None \<and>
        (\<exists>r0. map_of (md_fallback m) (ds_SenderID r) = Some r0 \<and> r = r0\<lparr>ds_ChannelID := c\<rparr>)"
    unfolding mem fb_map by auto
  have "length (speakersOf m c) \<le> sum_list (map (\<lambda>(c, t). length t) (md_speakers m))"
  proof (cases "map_of (md_speakers m) c")
    case (Some t)
    then have "length t \<in> set (map (\<lambda>(c, t). length t) (md_speakers m))" by (force dest: map_of_SomeD)
    then show ?thesis using Some by (simp add: speakersOf_def member_le_sum_list del: set_map)
  qed (simp add: speakersOf_def)
  then show "length (resolvedSpeakers m c) \<le> speakerRowsOf m"
    unfolding res speakerRowsOf_def using all by (simp add: fb_def)
qed

text \<open>
  The speakers of a channel, exactly: in strictly ascending order of their sender numbers, one row for every
  sender that the channel or the fallback names, the channel's own row where there is one and otherwise
  the fallback's with the channel's number.
\<close>

theorem resolvedSpeakers_exact:
  assumes "metadata_wf m"
  shows "sorted_wrt (<) (map ds_SenderID (resolvedSpeakers m c))"
    and "r \<in> set (resolvedSpeakers m c) \<longleftrightarrow>
      map_of (speakersOf m c) (ds_SenderID r) = Some r \<or>
      map_of (speakersOf m c) (ds_SenderID r) = None \<and>
        (\<exists>r0. map_of (md_fallback m) (ds_SenderID r) = Some r0 \<and> r = r0\<lparr>ds_ChannelID := c\<rparr>)"
    and "length (resolvedSpeakers m c) \<le> speakerRowsOf m"
  using resolvedSpeakers_rows [OF assms] by blast+

end
