(* ===== verification/Directory_Service.thy ===== *)
theory Directory_Service
  imports Directory_Config
begin

text \<open>
  The Directory service (directory_v3.go): its tables, the bounded queue of datagrams, the commit of an
  authenticated datagram, the rate budgets, and the participants and snapshot responses with their paging
  cursors. A reading of the clock is an argument named after the place that takes it; the random source
  is a supply of bytes and the socket an outbox. \<^verbatim>\<open>directoryParticipants\<close> of main.go supplies the rows.
\<close>

subsection \<open>State\<close>

abbreviation (input) directoryMaxParticipants :: nat where "directoryMaxParticipants \<equiv> 128"
abbreviation (input) directoryMaxReplayDomains :: nat where "directoryMaxReplayDomains \<equiv> 1024"
abbreviation (input) directoryMaxRegistrations :: nat where "directoryMaxRegistrations \<equiv> 64"

definition directoryRegistrationTTL :: duration where "directoryRegistrationTTL = 90 * Second"
definition directoryDefaultPublishInterval :: duration where "directoryDefaultPublishInterval = 30 * Second"
definition directoryDefaultFreshnessTTL :: duration where "directoryDefaultFreshnessTTL = 90 * Second"
definition directoryMaxFreshnessTTL :: duration where "directoryMaxFreshnessTTL = 90 * Second"

record directoryReplayKey =
  rk_ChannelID :: u32
  rk_Epoch :: bytes

record directoryReplayRecord =
  rp_state :: directoryReplayState
  rp_expires :: gotime

record directoryRegistrationKey =
  gk_channelID :: u32
  gk_instanceID :: bytes

record directoryRegistration =
  rg_addr :: "udpaddr option"
  rg_binding :: u8
  rg_deadline :: gotime

record directoryInboundJob =
  jb_data :: bytes
  jb_addr :: "udpaddr option"
  jb_binding :: u8

record directoryRateState =
  rt_window :: gotime
  rt_count :: nat

definition zeroRate :: directoryRateState where
  "zeroRate = \<lparr>rt_window = 0, rt_count = 0\<rparr>"

record directorySnapshotCursor =
  cu_session :: directorySnapshotSession
  cu_page :: nat

text \<open>\<^verbatim>\<open>addr.IP.String()\<close>, the key of a source, is the canonical address.\<close>

record directoryV3 =
  d_keys :: directoryKeyStore
  d_metadata :: directoryMetadata
  d_transport :: directoryTransport
  d_publishEvery :: duration
  d_freshnessTTL :: duration
  d_jobs :: "directoryInboundJob list"
  d_registrations :: "(directoryRegistrationKey, directoryRegistration) gomap"
  d_replay :: "(directoryReplayKey, directoryReplayRecord) gomap"
  d_cursors :: "(string, directorySnapshotCursor) gomap"
  d_preauth :: "(bytes, directoryRateState) gomap"
  d_responseRate :: directoryRateState
  d_entropy :: bytes
  d_outbox :: "(bytes \<times> udpaddr) list"

record directoryV3Config =
  dcf_Enabled :: bool
  dcf_Transport :: string
  dcf_KeyFile :: string
  dcf_ChannelsCSV :: string
  dcf_SpeakersCSV :: string
  dcf_hasConn :: bool
  dcf_PublishInterval :: duration
  dcf_FreshnessTTL :: duration
  dcf_hasParticipants :: bool
  dcf_permitted :: bool

definition newDirectoryV3 ::
  "prims \<Rightarrow> (string \<Rightarrow> string list list option) \<Rightarrow> bytes \<Rightarrow> directoryV3Config \<Rightarrow> configError + directoryV3 option" where
  "newDirectoryV3 pr readCSV entropy config =
     (if \<not> dcf_Enabled config then Inr None
      else if \<not> dcf_hasConn config then Inl ConfigConnection
      else case parseDirectoryTransport (dcf_Transport config) of
        None \<Rightarrow> Inl ConfigTransport
      | Some transport \<Rightarrow>
        if \<not> dcf_hasParticipants config then Inl ConfigParticipants
        else let publishInterval = (if dcf_PublishInterval config = 0 then directoryDefaultPublishInterval
                                    else dcf_PublishInterval config);
                 freshnessTTL = (if dcf_FreshnessTTL config = 0 then directoryDefaultFreshnessTTL
                                 else dcf_FreshnessTTL config)
        in if publishInterval < Second \<or> freshnessTTL < Second \<or> directoryMaxFreshnessTTL < freshnessTTL
           then Inl ConfigTiming
        else (case loadDirectoryKeyStore pr readCSV (dcf_permitted config) (dcf_KeyFile config) of
          Inl e \<Rightarrow> Inl e
        | Inr keys \<Rightarrow>
        (case loadDirectoryMetadata readCSV (dcf_ChannelsCSV config) (dcf_SpeakersCSV config) of
          Inl e \<Rightarrow> Inl e
        | Inr metadata \<Rightarrow>
          if \<not> list_all (\<lambda>(channelID, _). map_of (md_channels metadata) channelID \<noteq> None) keys then Inl ConfigMismatch
          else if \<not> list_all (\<lambda>(channelID, _). map_of keys channelID \<noteq> None) (md_channels metadata) then Inl ConfigMismatch
          else Inr (Some \<lparr>d_keys = keys, d_metadata = metadata, d_transport = transport, d_publishEvery = publishInterval,
                 d_freshnessTTL = freshnessTTL, d_jobs = [], d_registrations = [], d_replay = [], d_cursors = [],
                 d_preauth = [], d_responseRate = zeroRate, d_entropy = entropy, d_outbox = []\<rparr>))))"

subsection \<open>Budgets and the queue\<close>

definition allowPreauthentication :: "gotime \<Rightarrow> udpaddr \<Rightarrow> directoryV3 \<Rightarrow> bool \<times> directoryV3" where
  "allowPreauthentication now addr d =
     (let key = canonicalIP (a_IP addr); found = map_of (d_preauth d) key in
      if found = None \<and> 1024 \<le> length (d_preauth d) then (False, d)
      else let state = (case found of None \<Rightarrow> zeroRate | Some st \<Rightarrow> st);
               state1 = (if IsZero (rt_window state) \<or> Second \<le> time_Sub now (rt_window state)
                         then \<lparr>rt_window = now, rt_count = 0\<rparr> else state)
           in if 16 \<le> rt_count state1 then (False, d\<lparr>d_preauth := AList.update key state1 (d_preauth d)\<rparr>)
              else (True, d\<lparr>d_preauth := AList.update key (state1\<lparr>rt_count := rt_count state1 + 1\<rparr>) (d_preauth d)\<rparr>))"

text \<open>The channel of jobs holds 32 of them; a full one drops the datagram.\<close>

definition directory_enqueue :: "gotime \<Rightarrow> bytes \<Rightarrow> udpaddr option \<Rightarrow> u8 \<Rightarrow> directoryV3 \<Rightarrow> directoryV3" where
  "directory_enqueue now data addr binding d =
     (case addr of
        None \<Rightarrow> d
      | Some a \<Rightarrow>
          (case allowPreauthentication now a d of
             (False, d1) \<Rightarrow> d1
           | (True, d1) \<Rightarrow>
               if length (d_jobs d1) < 32
               then d1\<lparr>d_jobs := d_jobs d1 @ [\<lparr>jb_data = data, jb_addr = cloneUDPAddr addr, jb_binding = binding\<rparr>]\<rparr>
               else d1))"

definition consumeResponseBudget :: "gotime \<Rightarrow> nat \<Rightarrow> directoryV3 \<Rightarrow> bool \<times> directoryV3" where
  "consumeResponseBudget now packetCount d =
     (if packetCount < 1 then (False, d)
      else let rate = (if IsZero (rt_window (d_responseRate d)) \<or> Second \<le> time_Sub now (rt_window (d_responseRate d))
                       then \<lparr>rt_window = now, rt_count = 0\<rparr> else d_responseRate d)
        in if 64 < rt_count rate + packetCount then (False, d\<lparr>d_responseRate := rate\<rparr>)
           else (True, d\<lparr>d_responseRate := rate\<lparr>rt_count := rt_count rate + packetCount\<rparr>\<rparr>))"

definition purgeLocked :: "gotime \<Rightarrow> directoryV3 \<Rightarrow> directoryV3" where
  "purgeLocked now d =
     d\<lparr>d_registrations := prune (\<lambda>r. now < rg_deadline r) (d_registrations d),
       d_cursors := prune (\<lambda>c. now < ss_expires (cu_session c)) (d_cursors d),
       d_replay := prune (\<lambda>r. now < rp_expires r) (d_replay d),
       d_preauth := prune (\<lambda>st. \<not> 2 * Second \<le> time_Sub now (rt_window st)) (d_preauth d)\<rparr>"

subsection \<open>Commit\<close>

definition directoryReplayKeyFor :: "directoryOpenedDatagram \<Rightarrow> directoryReplayKey" where
  "directoryReplayKeyFor opened = \<lparr>rk_ChannelID = de_ChannelID (do_envelope opened), rk_Epoch = do_epoch opened\<rparr>"

definition registrationKeyFor :: "directoryOpenedDatagram \<Rightarrow> directoryRegistrationKey option" where
  "registrationKeyFor opened =
     (case do_registration opened of
        None \<Rightarrow> None
      | Some g \<Rightarrow>
          Some \<lparr>gk_channelID = de_ChannelID (do_envelope opened),
                gk_instanceID = (case decodeCanonicalDirectoryID (dg_InstanceID g) of None \<Rightarrow> replicate 16 0 | Some i \<Rightarrow> i)\<rparr>)"

text \<open>The replay check: whether the sequence is fresh, and the window afterwards.\<close>

definition acceptSequence :: "directoryOpenedDatagram \<Rightarrow> directoryV3 \<Rightarrow> directoryV3 option" where
  "acceptSequence opened d =
     (let key = directoryReplayKeyFor opened; found = map_of (d_replay d) key in
      if found = None \<and> directoryMaxReplayDomains \<le> length (d_replay d) then None
      else let replay = (case found of None \<Rightarrow> \<lparr>rp_state = zeroDirectoryReplayState, rp_expires = 0\<rparr> | Some r \<Rightarrow> r)
        in (case directoryReplayAccept (rp_state replay) (de_Sequence (do_envelope opened)) of
            (False, _) \<Rightarrow> None
          | (True, state) \<Rightarrow>
              let payloadExpiry = time_Unix (sint (de_ExpiresAt (do_envelope opened)))
              in Some (d\<lparr>d_replay := AList.update key
                   \<lparr>rp_state = state,
                    rp_expires = (if rp_expires replay < payloadExpiry then payloadExpiry else rp_expires replay)\<rparr>
                   (d_replay d)\<rparr>)))"

definition commitRegister :: "gotime \<Rightarrow> directoryOpenedDatagram \<Rightarrow> udpaddr option \<Rightarrow> directoryV3 \<Rightarrow> directoryV3" where
  "commitRegister now opened addr d =
     (case registrationKeyFor opened of
        None \<Rightarrow> d
      | Some key \<Rightarrow>
          if map_of (d_registrations d) key = None \<and> directoryMaxRegistrations \<le> length (d_registrations d) then d
          else d\<lparr>d_registrations := AList.update key
                 \<lparr>rg_addr = cloneUDPAddr addr, rg_binding = do_binding opened, rg_deadline = now + directoryRegistrationTTL\<rparr>
                 (d_registrations d)\<rparr>)"

definition commitHeartbeat :: "gotime \<Rightarrow> directoryOpenedDatagram \<Rightarrow> udpaddr option \<Rightarrow> directoryV3 \<Rightarrow> directoryV3" where
  "commitHeartbeat now opened addr d =
     (case registrationKeyFor opened of
        None \<Rightarrow> d
      | Some key \<Rightarrow>
          (case map_of (d_registrations d) key of
             None \<Rightarrow> d
           | Some registration \<Rightarrow>
               if rg_binding registration \<noteq> do_binding opened \<or> \<not> sameUDPEndpoint (rg_addr registration) addr then d
               else d\<lparr>d_registrations := AList.update key
                      (registration\<lparr>rg_deadline := now + directoryRegistrationTTL\<rparr>) (d_registrations d)\<rparr>))"

definition commitInbound ::
  "gotime \<Rightarrow> directoryOpenedDatagram \<Rightarrow> udpaddr option \<Rightarrow> directoryV3 \<Rightarrow> directoryRequestPayload option \<times> directoryV3" where
  "commitInbound now opened addr d =
     (let d1 = purgeLocked now d in
      case acceptSequence opened d1 of
        None \<Rightarrow> (None, d1)
      | Some d2 \<Rightarrow>
          if de_Type (do_envelope opened) = ''request'' then (do_request opened, d2)
          else if de_Type (do_envelope opened) = ''register'' then (None, commitRegister now opened addr d2)
          else if de_Type (do_envelope opened) = ''heartbeat'' then (None, commitHeartbeat now opened addr d2)
          else (None, d2))"

subsection \<open>Sending\<close>

text \<open>The places that read the clock while a datagram is handled.\<close>

datatype clockReading = AtOpen | AtCommit | AtPurge | AtSession | AtStore | AtIssue | AtError | AtBudget

type_synonym directoryClock = "clockReading \<Rightarrow> gotime"

definition randomID :: "directoryV3 \<Rightarrow> bytes option \<times> directoryV3" where
  "randomID d =
     (case rand_Read 16 (d_entropy d) of
        None \<Rightarrow> (None, d)
      | Some (value, rest) \<Rightarrow> (Some value, d\<lparr>d_entropy := rest\<rparr>))"

definition randomIDText :: "directoryV3 \<Rightarrow> string option \<times> directoryV3" where
  "randomIDText d = (case randomID d of (None, d1) \<Rightarrow> (None, d1) | (Some value, d1) \<Rightarrow> (Some (b64Encode value), d1))"

definition sendDatagrams :: "gotime \<Rightarrow> bytes list \<Rightarrow> udpaddr option \<Rightarrow> directoryV3 \<Rightarrow> directoryV3" where
  "sendDatagrams now datagrams addr d =
     (if datagrams = [] then d
      else case addr of
        None \<Rightarrow> d
      | Some a \<Rightarrow>
          (case consumeResponseBudget now (length datagrams) d of
             (False, d1) \<Rightarrow> d1
           | (True, d1) \<Rightarrow> d1\<lparr>d_outbox := d_outbox d1 @ map (\<lambda>datagram. (datagram, a)) datagrams\<rparr>))"

definition newResponse ::
  "directoryPrims \<Rightarrow> u32 \<Rightarrow> directoryKeyMaterial \<Rightarrow> bytes \<Rightarrow> gotime \<Rightarrow> duration \<Rightarrow> string \<Rightarrow> string \<Rightarrow> u8 \<Rightarrow> directoryResponse" where
  "newResponse dp channelID material epoch now freshnessTTL requestID responseID binding =
     \<lparr>rs_prims = dp, rs_channelID = channelID, rs_material = material, rs_epoch = epoch,
      rs_issuedAt = of_int (Unix_of now), rs_expiresAt = of_int (Unix_of (now + freshnessTTL)), rs_requestID = requestID,
      rs_responseID = responseID, rs_binding = binding\<rparr>"

definition sendError ::
  "directoryPrims \<Rightarrow> directoryClock \<Rightarrow> u32 \<Rightarrow> string \<Rightarrow> string \<Rightarrow> udpaddr option \<Rightarrow> u8 \<Rightarrow> directoryV3 \<Rightarrow> directoryV3" where
  "sendError dp clock channelID requestID code addr binding d =
     (if requestID = [] \<or> code \<noteq> ''RESPONSE_TOO_LARGE'' \<and> code \<noteq> ''INVALID_CURSOR'' \<and> code \<noteq> ''PAGING_SESSION_EXPIRED''
      then d
      else case map_of (d_keys d) channelID of
        None \<Rightarrow> d
      | Some material \<Rightarrow>
          (case randomID d of
             (None, d1) \<Rightarrow> d1
           | (Some epoch, d1) \<Rightarrow>
               let x = newResponse dp channelID material epoch (clock AtError) (d_freshnessTTL d) requestID [] binding in
               (case sealFragment ''error'' x 0 (bytes_of (marshalErrorPayload x code)) of
                  None \<Rightarrow> d1
                | Some datagram \<Rightarrow> sendDatagrams (clock AtBudget) [datagram] addr d1)))"

text \<open>The second pass over the groups, which encodes them with the final count and seals them.\<close>

datatype sealError = EncodeFailed | SealFailed

fun sealGroups :: "(nat \<Rightarrow> 'r list \<Rightarrow> bytes option) \<Rightarrow> (nat \<Rightarrow> bytes \<Rightarrow> bytes option) \<Rightarrow> nat \<Rightarrow> 'r list list \<Rightarrow>
   sealError + bytes list" where
  "sealGroups encode seal index [] = Inr []"
| "sealGroups encode seal index (g # gs) =
     (case encode index g of
        None \<Rightarrow> Inl EncodeFailed
      | Some payload \<Rightarrow>
          (case seal index payload of
             None \<Rightarrow> Inl SealFailed
           | Some datagram \<Rightarrow> map_sum id (\<lambda>ds. datagram # ds) (sealGroups encode seal (Suc index) gs)))"

definition sendParticipants ::
  "directoryPrims \<Rightarrow> directoryClock \<Rightarrow> u32 \<Rightarrow> string \<Rightarrow> directoryParticipantRow list \<Rightarrow> udpaddr option \<Rightarrow> u8 \<Rightarrow>
   directoryV3 \<Rightarrow> directoryV3" where
  "sendParticipants dp clock channelID requestID rs addr binding d =
     (let tooLarge = sendError dp clock channelID requestID ''RESPONSE_TOO_LARGE'' addr binding in
      if directoryMaxParticipants < length rs then tooLarge d
      else case map_of (d_keys d) channelID of
        None \<Rightarrow> d
      | Some material \<Rightarrow>
          (case randomID d of
             (None, d1) \<Rightarrow> d1
           | (Some epoch, d1) \<Rightarrow>
          (case randomIDText d1 of
             (None, d2) \<Rightarrow> d2
           | (Some responseID, d2) \<Rightarrow>
               let x = newResponse dp channelID material epoch (clock AtIssue) (d_freshnessTTL d) requestID responseID binding in
               (case packDirectoryRows (participantsEncode x) (fragmentFits ''participants'' x) rs of
                  Inl _ \<Rightarrow> tooLarge d2
                | Inr groups \<Rightarrow>
                    (case sealGroups (\<lambda>index. participantsEncode x index (length groups)) (sealFragment ''participants'' x) 0 groups of
                       Inl EncodeFailed \<Rightarrow> d2
                     | Inl SealFailed \<Rightarrow> tooLarge d2
                     | Inr datagrams \<Rightarrow> sendDatagrams (clock AtBudget) datagrams addr d2)))))"

subsection \<open>Snapshots\<close>

fun storeCursorLoop :: "nat \<Rightarrow> directorySnapshotCursor \<Rightarrow> directoryV3 \<Rightarrow> string option \<times> directoryV3" where
  "storeCursorLoop 0 entry d = (None, d)"
| "storeCursorLoop (Suc attempts) entry d =
     (case randomIDText d of
        (None, d1) \<Rightarrow> (None, d1)
      | (Some cursor, d1) \<Rightarrow>
          if map_of (d_cursors d1) cursor = None
          then (Some cursor, d1\<lparr>d_cursors := AList.update cursor entry (d_cursors d1)\<rparr>)
          else storeCursorLoop attempts entry d1)"

definition storeSnapshotCursor ::
  "gotime \<Rightarrow> directorySnapshotSession \<Rightarrow> nat \<Rightarrow> directoryV3 \<Rightarrow> string option \<times> directoryV3" where
  "storeSnapshotCursor now session page d =
     storeCursorLoop 4 \<lparr>cu_session = session, cu_page = page\<rparr> (purgeLocked now d)"

text \<open>The cursor to the next page, if there is one; \<open>None\<close> when it cannot be stored.\<close>

definition nextPageCursor ::
  "gotime \<Rightarrow> directorySnapshotSession \<Rightarrow> nat \<Rightarrow> nat \<Rightarrow> directoryV3 \<Rightarrow> string option option \<times> directoryV3" where
  "nextPageCursor now session pageIndex pageCount d =
     (if pageIndex + 1 < pageCount
      then (case storeSnapshotCursor now session (pageIndex + 1) d of
          (None, d1) \<Rightarrow> (None, d1)
        | (Some cursor, d1) \<Rightarrow> (Some (Some cursor), d1))
      else (Some None, d))"

definition sendSnapshotPage ::
  "directoryPrims \<Rightarrow> directoryClock \<Rightarrow> u32 \<Rightarrow> string \<Rightarrow> directorySnapshotSession \<Rightarrow> nat \<Rightarrow> udpaddr option \<Rightarrow> u8 \<Rightarrow>
   directoryV3 \<Rightarrow> directoryV3" where
  "sendSnapshotPage dp clock channelID requestID session pageIndex addr binding d =
     (let pages = splitDirectorySnapshotPages (ss_speakers session) in
      if length pages \<le> pageIndex then sendError dp clock channelID requestID ''INVALID_CURSOR'' addr binding d
      else case map_of (d_keys d) channelID of
        None \<Rightarrow> d
      | Some material \<Rightarrow>
      (case nextPageCursor (clock AtStore) session pageIndex (length pages) d of
        (None, d1) \<Rightarrow> d1
      | (Some nextCursor, d1) \<Rightarrow>
      (case randomID d1 of
        (None, d2) \<Rightarrow> d2
      | (Some epoch, d2) \<Rightarrow>
      (case randomIDText d2 of
        (None, d3) \<Rightarrow> d3
      | (Some responseID, d3) \<Rightarrow>
          let x = newResponse dp channelID material epoch (clock AtIssue) (d_freshnessTTL d) requestID responseID binding;
              page = \<lparr>pg_Index = pageIndex, pg_Count = length pages, pg_NextCursor = nextCursor\<rparr>;
              tooLarge = sendError dp clock channelID requestID ''RESPONSE_TOO_LARGE'' addr binding
          in (case packDirectorySnapshotRows (snapshotEncode x session page) (fragmentFits ''snapshot'' x) (pages ! pageIndex) of
                Inl _ \<Rightarrow> tooLarge d3
              | Inr groups \<Rightarrow>
                  (case sealGroups (\<lambda>index g. snapshotEncode x session page index (length groups) (Some g))
                          (sealFragment ''snapshot'' x) 0 groups of
                     Inl EncodeFailed \<Rightarrow> d3
                   | Inl SealFailed \<Rightarrow> tooLarge d3
                   | Inr datagrams \<Rightarrow> sendDatagrams (clock AtBudget) datagrams addr d3))))))"

text \<open>A cursor is taken out of the table before it is used.\<close>

definition takeCursor :: "gotime \<Rightarrow> string \<Rightarrow> directoryV3 \<Rightarrow> directorySnapshotCursor option \<times> directoryV3" where
  "takeCursor now cursor d =
     (let d1 = purgeLocked now d in
      (map_of (d_cursors d1) cursor, d1\<lparr>d_cursors := AList.delete cursor (d_cursors d1)\<rparr>))"

definition sendSnapshotCursor ::
  "directoryPrims \<Rightarrow> directoryClock \<Rightarrow> u32 \<Rightarrow> string \<Rightarrow> string \<Rightarrow> udpaddr option \<Rightarrow> u8 \<Rightarrow> directoryV3 \<Rightarrow> directoryV3" where
  "sendSnapshotCursor dp clock channelID requestID cursor addr binding d =
     (case takeCursor (clock AtPurge) cursor d of
        (None, d1) \<Rightarrow> sendError dp clock channelID requestID ''INVALID_CURSOR'' addr binding d1
      | (Some entry, d1) \<Rightarrow>
          if \<not> clock AtSession < ss_expires (cu_session entry)
          then sendError dp clock channelID requestID ''PAGING_SESSION_EXPIRED'' addr binding d1
          else sendSnapshotPage dp clock channelID requestID (cu_session entry) (cu_page entry) addr binding d1)"

definition sendSnapshot ::
  "directoryPrims \<Rightarrow> directoryClock \<Rightarrow> u32 \<Rightarrow> directoryRequestPayload \<Rightarrow> udpaddr option \<Rightarrow> u8 \<Rightarrow> directoryV3 \<Rightarrow> directoryV3" where
  "sendSnapshot dp clock channelID request addr binding d =
     (case dq_Cursor request of
        Some cursor \<Rightarrow> sendSnapshotCursor dp clock channelID (dq_RequestID request) cursor addr binding d
      | None \<Rightarrow>
          let tooLarge = sendError dp clock channelID (dq_RequestID request) ''RESPONSE_TOO_LARGE'' addr binding;
              speakers = resolvedSpeakers (d_metadata d) channelID
          in (case (map_of (md_channels (d_metadata d)) channelID, metadataRevision (dp_prims dp) (d_metadata d) channelID) of
                (Some channel, Some revision) \<Rightarrow>
                  if directoryMaxSnapshotPages < length (splitDirectorySnapshotPages speakers) then tooLarge d
                  else sendSnapshotPage dp clock channelID (dq_RequestID request)
                    \<lparr>ss_channel = channel, ss_speakers = speakers, ss_revision = revision,
                     ss_expires = clock AtSession + 30 * Second\<rparr> 0 addr binding d
              | _ \<Rightarrow> tooLarge d))"

subsection \<open>Requests, publications and the worker\<close>

definition serveRequest ::
  "directoryPrims \<Rightarrow> directoryClock \<Rightarrow> (u32 \<Rightarrow> directoryParticipantRow list) \<Rightarrow> u32 \<Rightarrow> directoryRequestPayload \<Rightarrow>
   udpaddr option \<Rightarrow> directoryV3 \<Rightarrow> directoryV3" where
  "serveRequest dp clock participants channelID request addr d =
     (if dq_Resource request = ''participants'' then
        (if dq_Cursor request \<noteq> None then d
         else sendParticipants dp clock channelID (dq_RequestID request) (participants channelID) addr
           (transport_binding (d_transport d)) d)
      else sendSnapshot dp clock channelID request addr (transport_binding (d_transport d)) d)"

definition directory_handle ::
  "directoryPrims \<Rightarrow> directoryClock \<Rightarrow> (u32 \<Rightarrow> directoryParticipantRow list) \<Rightarrow> directoryInboundJob \<Rightarrow> directoryV3 \<Rightarrow> directoryV3" where
  "directory_handle dp clock participants job d =
     (case openDirectoryDatagram dp (jb_data job) (jb_binding job) (d_keys d) (clock AtOpen) of
        Inl _ \<Rightarrow> d
      | Inr opened \<Rightarrow>
          (case commitInbound (clock AtCommit) opened (jb_addr job) d of
             (None, d1) \<Rightarrow> d1
           | (Some request, d1) \<Rightarrow>
               serveRequest dp clock participants (de_ChannelID (do_envelope opened)) request (jb_addr job) d1))"

text \<open>The worker takes the oldest job.\<close>

definition directory_worker ::
  "directoryPrims \<Rightarrow> directoryClock \<Rightarrow> (u32 \<Rightarrow> directoryParticipantRow list) \<Rightarrow> directoryV3 \<Rightarrow> directoryV3" where
  "directory_worker dp clock participants d =
     (case d_jobs d of
        [] \<Rightarrow> d
      | job # rest \<Rightarrow> directory_handle dp clock participants job (d\<lparr>d_jobs := rest\<rparr>))"

fun publishTargets ::
  "directoryPrims \<Rightarrow> u32 \<Rightarrow> directoryParticipantRow list \<Rightarrow> directoryRegistration list \<Rightarrow> (nat \<Rightarrow> directoryClock) \<Rightarrow>
   directoryV3 \<Rightarrow> directoryV3" where
  "publishTargets dp channelID rs [] clocks d = d"
| "publishTargets dp channelID rs (target # targets) clocks d =
     publishTargets dp channelID rs targets (\<lambda>i. clocks (Suc i))
       (sendParticipants dp (clocks 0) channelID [] rs (rg_addr target) (rg_binding target) d)"

definition groupRegistrations ::
  "(directoryRegistrationKey, directoryRegistration) gomap \<Rightarrow> (u32, directoryRegistration list) gomap" where
  "groupRegistrations regs =
     foldl (\<lambda>m (key, registration). AList.update (gk_channelID key)
        ((case map_of m (gk_channelID key) of None \<Rightarrow> [] | Some ts \<Rightarrow> ts) @ [registration]) m) [] regs"

fun publishChannels ::
  "directoryPrims \<Rightarrow> (u32 \<Rightarrow> directoryParticipantRow list) \<Rightarrow> (u32, directoryRegistration list) gomap \<Rightarrow> (nat \<Rightarrow> directoryClock) \<Rightarrow>
   directoryV3 \<Rightarrow> directoryV3" where
  "publishChannels dp participants [] clocks d = d"
| "publishChannels dp participants ((channelID, targets) # rest) clocks d =
     publishChannels dp participants rest (\<lambda>i. clocks (length targets + i))
       (publishTargets dp channelID (participants channelID) targets clocks d)"

definition publishParticipants ::
  "directoryPrims \<Rightarrow> gotime \<Rightarrow> (nat \<Rightarrow> directoryClock) \<Rightarrow> (u32 \<Rightarrow> directoryParticipantRow list) \<Rightarrow> directoryV3 \<Rightarrow> directoryV3" where
  "publishParticipants dp now clocks participants d =
     (let d1 = purgeLocked now d in publishChannels dp participants (groupRegistrations (d_registrations d1)) clocks d1)"

text \<open>\<^verbatim>\<open>server.directoryParticipants\<close>: the current members of a channel in order of their sender numbers.\<close>

definition participantRow :: "u32 \<Rightarrow> channel \<Rightarrow> peer \<Rightarrow> directoryParticipantRow" where
  "participantRow channelID ch p =
     \<lparr>pt_ChannelID = channelID, pt_SenderID = p_senderId p, pt_LastSeenAt = of_int (Unix_of (p_lastSeen p)),
      pt_Talking = (map_of (ch_activeTalkers ch) (p_senderId p) \<noteq> None)\<rparr>"

definition directoryParticipants :: "gotime \<Rightarrow> u32 \<Rightarrow> server \<Rightarrow> directoryParticipantRow list" where
  "directoryParticipants now channelID s =
     (case chan s channelID of
        None \<Rightarrow> []
      | Some ch \<Rightarrow>
          sort_key pt_SenderID (map (\<lambda>(_, p). participantRow channelID ch p)
            (filter (\<lambda>(_, p). p_senderId p \<noteq> 0 \<and> \<not> (\<not> IsZero (p_membershipDeadline p) \<and> \<not> now < p_membershipDeadline p) \<and>
               \<not> Unix_of (p_lastSeen p) < 1) (ch_peers ch))))"

end
