(* ===== verification/Directory_Safety.thy ===== *)
theory Directory_Safety
  imports Directory_Service
begin

text \<open>
  The Directory as a state machine: every critical section of its goroutines (the receive loop, two
  workers, the publisher and the cleaner) is a step at some time, and each operation is a run of such
  steps. In every reachable state the tables keep their bounds; no datagram that is still unexpired is
  committed twice; a registration is only ever refreshed by its own endpoint; the replies in a window are
  at most 64.
\<close>

subsection \<open>Sections\<close>

inductive dir_section :: "gotime \<Rightarrow> directoryV3 \<Rightarrow> directoryV3 \<Rightarrow> bool" for now :: gotime where
  sec_enqueue: "dir_section now d (directory_enqueue now data addr binding d)"
| sec_dequeue: "d_jobs d = job # rest \<Longrightarrow> dir_section now d (d\<lparr>d_jobs := rest\<rparr>)"
| sec_commit: "dir_section now d (snd (commitInbound now opened addr d))"
| sec_purge: "dir_section now d (purgeLocked now d)"
| sec_take: "dir_section now d (snd (takeCursor now cursor d))"
| sec_store: "page < length (splitDirectorySnapshotPages (ss_speakers session)) \<Longrightarrow>
    dir_section now d (snd (storeSnapshotCursor now session page d))"
| sec_draw: "dir_section now d (snd (randomID d))"
| sec_send: "dir_section now d (sendDatagrams now datagrams addr d)"

text \<open>A step no later than \<open>T\<close>, and a run of such steps.\<close>

definition until :: "gotime \<Rightarrow> directoryV3 \<Rightarrow> directoryV3 \<Rightarrow> bool" where
  "until T d d' \<longleftrightarrow> (\<exists>now\<le>T. dir_section now d d')"

definition dir_step :: "directoryV3 \<Rightarrow> directoryV3 \<Rightarrow> bool" where
  "dir_step d d' \<longleftrightarrow> (\<exists>now. dir_section now d d')"

lemma steps_trans: "steps step s t \<Longrightarrow> steps step t u \<Longrightarrow> steps step s u"
  by (rotate_tac, induction rule: steps.induct) (auto intro: steps_step)

lemma until_one: "dir_section now d d' \<Longrightarrow> now \<le> T \<Longrightarrow> steps (until T) d d'"
  by (rule steps_single) (auto simp: until_def)

lemma until_dir_step: "steps (until T) d d' \<Longrightarrow> steps dir_step d d'"
  by (induction rule: steps.induct) (auto simp: until_def dir_step_def intro: steps_refl steps_step)

subsection \<open>Operations are runs of sections\<close>

lemma run_randomID: "randomID d = (r, d') \<Longrightarrow> 0 \<le> T \<Longrightarrow> steps (until T) d d'"
  using sec_draw [of 0 d] until_one [of 0 d d' T] by simp

lemma run_randomIDText: "randomIDText d = (r, d') \<Longrightarrow> 0 \<le> T \<Longrightarrow> steps (until T) d d'"
  by (auto simp: randomIDText_def split: prod.splits option.splits intro: run_randomID)

lemma run_sendDatagrams: "now \<le> T \<Longrightarrow> steps (until T) d (sendDatagrams now datagrams addr d)"
  by (rule until_one [OF sec_send])

definition clock_until :: "gotime \<Rightarrow> directoryClock \<Rightarrow> bool" where
  "clock_until T clock \<longleftrightarrow> 0 \<le> T \<and> (\<forall>r. clock r \<le> T)"

lemma clock_untilD: "clock_until T clock \<Longrightarrow> clock r \<le> T" "clock_until T clock \<Longrightarrow> 0 \<le> T"
  by (auto simp: clock_until_def)

lemma run_sendError:
  assumes "clock_until T clock"
  shows "steps (until T) d (sendError dp clock channelID requestID code addr binding d)"
  using clock_untilD [OF assms]
  by (auto simp: sendError_def Let_def split: option.split prod.split
      intro: steps_refl steps_trans [OF run_randomID run_sendDatagrams] run_randomID)

lemma run_sendParticipants:
  assumes "clock_until T clock"
  shows "steps (until T) d (sendParticipants dp clock channelID requestID rs addr binding d)"
proof -
  note T = clock_untilD [OF assms]
  show ?thesis
  proof (cases "map_of (d_keys d) channelID")
    case None
    then show ?thesis using run_sendError [OF assms] by (auto simp: sendParticipants_def Let_def intro: steps_refl)
  next
    case (Some material)
    obtain e d1 where d1: "randomID d = (e, d1)" by fastforce
    obtain i d2 where d2: "randomIDText d1 = (i, d2)" by fastforce
    have r1: "steps (until T) d d1" by (rule run_randomID [OF d1 T(2)])
    have r2: "steps (until T) d d2" by (rule steps_trans [OF r1 run_randomIDText [OF d2 T(2)]])
    note go = steps_trans [OF r2 run_sendError [OF assms]] steps_trans [OF r2 run_sendDatagrams [OF T(1)]]
    show ?thesis
      using Some d1 d2 r1 r2 run_sendError [OF assms]
      by (auto simp: sendParticipants_def Let_def split: option.split sum.split sealError.split intro: go)
  qed
qed

lemma run_nextPageCursor:
  assumes "nextPageCursor now session page (length (splitDirectorySnapshotPages (ss_speakers session))) d = (r, d')" "now \<le> T"
  shows "steps (until T) d d'"
proof (cases "page + 1 < length (splitDirectorySnapshotPages (ss_speakers session))")
  case True
  obtain r' d1 where "storeSnapshotCursor now session (page + 1) d = (r', d1)" by fastforce
  with True assms have "d' = snd (storeSnapshotCursor now session (page + 1) d)"
    by (auto simp: nextPageCursor_def split: option.splits)
  with sec_store [OF True, of now d] assms(2) show ?thesis using until_one by simp
next
  case False
  with assms show ?thesis by (auto simp: nextPageCursor_def intro: steps_refl)
qed

lemma run_sendSnapshotPage:
  assumes "clock_until T clock"
  shows "steps (until T) d (sendSnapshotPage dp clock channelID requestID session page addr binding d)"
proof -
  note T = clock_untilD [OF assms]
  let ?pages = "splitDirectorySnapshotPages (ss_speakers session)"
  obtain n d1 where d1: "nextPageCursor (clock AtStore) session page (length ?pages) d = (n, d1)" by fastforce
  obtain e d2 where d2: "randomID d1 = (e, d2)" by fastforce
  obtain i d3 where d3: "randomIDText d2 = (i, d3)" by fastforce
  have r1: "steps (until T) d d1" by (rule run_nextPageCursor [OF d1 T(1)])
  have r2: "steps (until T) d d2" by (rule steps_trans [OF r1 run_randomID [OF d2 T(2)]])
  have r3: "steps (until T) d d3" by (rule steps_trans [OF r2 run_randomIDText [OF d3 T(2)]])
  note go = steps_trans [OF r3 run_sendError [OF assms]] steps_trans [OF r3 run_sendDatagrams [OF T(1)]]
  show ?thesis
    using d1 d2 d3 r1 r2 r3 run_sendError [OF assms]
    by (auto simp: sendSnapshotPage_def Let_def split: option.split sum.split sealError.split intro: go steps_refl)
qed

lemma run_sendSnapshot:
  assumes "clock_until T clock"
  shows "steps (until T) d (sendSnapshot dp clock channelID request addr binding d)"
proof (cases "dq_Cursor request")
  case None
  then show ?thesis
    using run_sendError [OF assms] run_sendSnapshotPage [OF assms]
    by (auto simp: sendSnapshot_def Let_def split: option.split)
next
  case (Some cursor)
  obtain entry d1 where d1: "takeCursor (clock AtPurge) cursor d = (entry, d1)" by fastforce
  have "steps (until T) d d1"
    using until_one [OF sec_take clock_untilD(1) [OF assms], of d AtPurge cursor] d1 by simp
  note go = steps_trans [OF this run_sendError [OF assms]] steps_trans [OF this run_sendSnapshotPage [OF assms]]
  show ?thesis
    using d1 by (auto simp: sendSnapshot_def sendSnapshotCursor_def Some split: option.split intro: go)
qed

lemma run_handle:
  assumes "clock_until T clock"
  shows "steps (until T) d (directory_handle dp clock participants job d)"
proof (cases "openDirectoryDatagram dp (jb_data job) (jb_binding job) (d_keys d) (clock AtOpen)")
  case (Inr opened)
  obtain r d1 where d1: "commitInbound (clock AtCommit) opened (jb_addr job) d = (r, d1)" by fastforce
  have run: "steps (until T) d d1"
    using until_one [OF sec_commit clock_untilD(1) [OF assms], of d AtCommit opened "jb_addr job"] d1 by simp
  note go = steps_trans [OF run run_sendParticipants [OF assms]] steps_trans [OF run run_sendSnapshot [OF assms]]
  show ?thesis
    using Inr d1 run by (auto simp: directory_handle_def serveRequest_def split: option.split intro: go)
qed (simp add: directory_handle_def steps_refl)

lemma run_worker:
  assumes "clock_until T clock"
  shows "steps (until T) d (directory_worker dp clock participants d)"
proof (cases "d_jobs d")
  case (Cons job rest)
  have "steps (until T) d (d\<lparr>d_jobs := rest\<rparr>)"
    by (rule until_one [OF sec_dequeue [OF Cons] clock_untilD(2) [OF assms]])
  from steps_trans [OF this run_handle [OF assms]] show ?thesis by (simp add: directory_worker_def Cons)
qed (simp add: directory_worker_def steps_refl)

lemma run_publishTargets:
  "(\<And>i. clock_until T (clocks i)) \<Longrightarrow> steps (until T) d (publishTargets dp channelID rs targets clocks d)"
proof (induction targets arbitrary: clocks d)
  case (Cons target targets)
  have "clock_until T (clocks (Suc i))" for i by (rule Cons.prems)
  from steps_trans [OF run_sendParticipants [OF Cons.prems] Cons.IH [of "\<lambda>i. clocks (Suc i)", OF this]]
  show ?case by simp
qed (simp add: steps_refl)

lemma run_publishChannels:
  "(\<And>i. clock_until T (clocks i)) \<Longrightarrow> steps (until T) d (publishChannels dp participants grouped clocks d)"
proof (induction grouped arbitrary: clocks d)
  case (Cons g grouped)
  obtain c targets where g: "g = (c, targets)" by (cases g)
  have "clock_until T (clocks (length targets + i))" for i by (rule Cons.prems)
  from steps_trans [OF run_publishTargets [of T clocks, OF Cons.prems] Cons.IH [of "\<lambda>i. clocks (length targets + i)", OF this]]
  show ?case by (simp add: g)
qed (simp add: steps_refl)

lemma run_publish:
  assumes "\<And>i. clock_until T (clocks i)" "now \<le> T"
  shows "steps (until T) d (publishParticipants dp now clocks participants d)"
  unfolding publishParticipants_def Let_def
  by (rule steps_trans [OF until_one [OF sec_purge assms(2)] run_publishChannels [OF assms(1)]])

subsection \<open>Invariant\<close>

definition dir_inv :: "directoryV3 \<Rightarrow> bool" where
  "dir_inv d \<longleftrightarrow> length (d_jobs d) \<le> 32 \<and>
     gomap_wf (d_registrations d) \<and> length (d_registrations d) \<le> 64 \<and>
     gomap_wf (d_replay d) \<and> length (d_replay d) \<le> 1024 \<and>
     gomap_wf (d_preauth d) \<and> length (d_preauth d) \<le> 1024 \<and> (\<forall>(k, st)\<in>set (d_preauth d). rt_count st \<le> 16) \<and>
     rt_count (d_responseRate d) \<le> 64 \<and>
     gomap_wf (d_cursors d) \<and>
     (\<forall>(k, e)\<in>set (d_cursors d). cu_page e < length (splitDirectorySnapshotPages (ss_speakers (cu_session e))))"

text \<open>What no operation changes.\<close>

definition dir_config :: "directoryV3 \<Rightarrow> directoryKeyStore \<times> directoryMetadata \<times> directoryTransport \<times> duration \<times> duration" where
  "dir_config d = (d_keys d, d_metadata d, d_transport d, d_publishEvery d, d_freshnessTTL d)"

lemma length_prune_bound: "length m \<le> b \<Longrightarrow> length (prune keep m) \<le> b"
  using length_prune le_trans by blast

lemma length_update_limit: "length m \<le> b \<Longrightarrow> map_of m k \<noteq> None \<or> length m < b \<Longrightarrow> length (AList.update k v m) \<le> b"
  by (cases "map_of m k") (auto simp: length_update_bound length_update_mem map_of_in_keys)

lemma inv_purge: "dir_inv d \<Longrightarrow> dir_inv (purgeLocked now d)"
  by (auto simp: dir_inv_def purgeLocked_def length_prune_bound set_prune)

lemma inv_preauth:
  assumes "dir_inv d" "allowPreauthentication now addr d = (ok, d')"
  shows "dir_inv d' \<and> d_jobs d' = d_jobs d"
proof -
  have bound: "length (AList.update (canonicalIP (a_IP addr)) v (d_preauth d)) \<le> 1024"
    if "\<not> (map_of (d_preauth d) (canonicalIP (a_IP addr)) = None \<and> 1024 \<le> length (d_preauth d))" for v
    by (rule length_update_limit) (use assms(1) that in \<open>auto simp: dir_inv_def\<close>)
  have counts: "\<forall>(k, st)\<in>set (AList.update key v (d_preauth d)). rt_count st \<le> 16" if "rt_count v \<le> 16" for key v
    using assms(1) that by (auto simp: dir_inv_def set_update_wf)
  have old: "rt_count st \<le> 16" if "map_of (d_preauth d) key = Some st" for key st
    using assms(1) map_of_SomeD [OF that] by (auto simp: dir_inv_def)
  show ?thesis
  proof (cases "map_of (d_preauth d) (canonicalIP (a_IP addr)) = None \<and> 1024 \<le> length (d_preauth d)")
    case True
    with assms show ?thesis by (auto simp: allowPreauthentication_def Let_def)
  next
    case False
    from assms(2) obtain v where "d' = d\<lparr>d_preauth := AList.update (canonicalIP (a_IP addr)) v (d_preauth d)\<rparr>" "rt_count v \<le> 16"
      using old False
      by (auto simp: allowPreauthentication_def Let_def zeroRate_def split: if_splits option.splits)
    with assms(1) bound [OF False] counts show ?thesis by (simp add: dir_inv_def)
  qed
qed

lemma inv_enqueue:
  assumes "dir_inv d"
  shows "dir_inv (directory_enqueue now data addr binding d)"
proof (cases addr)
  case (Some a)
  obtain ok d1 where d1: "allowPreauthentication now a d = (ok, d1)" by fastforce
  have "dir_inv d1" using inv_preauth [OF assms d1] by simp
  with d1 Some show ?thesis by (cases ok) (simp_all add: directory_enqueue_def dir_inv_def)
qed (simp add: directory_enqueue_def assms)

lemma acceptSequence_Some:
  assumes "acceptSequence opened d = Some d'"
  obtains r where "d' = d\<lparr>d_replay := AList.update (directoryReplayKeyFor opened) r (d_replay d)\<rparr>"
    "map_of (d_replay d) (directoryReplayKeyFor opened) \<noteq> None \<or> length (d_replay d) < 1024"
  using assms by (auto simp: acceptSequence_def Let_def not_le split: if_splits option.splits prod.splits bool.splits)

lemma inv_acceptSequence: "dir_inv d \<Longrightarrow> acceptSequence opened d = Some d' \<Longrightarrow> dir_inv d'"
  by (erule acceptSequence_Some) (auto simp: dir_inv_def length_update_limit)

lemma inv_register: "dir_inv d \<Longrightarrow> dir_inv (commitRegister now opened addr d)"
  by (auto simp: commitRegister_def dir_inv_def not_le intro!: length_update_limit split: option.split)

lemma inv_heartbeat: "dir_inv d \<Longrightarrow> dir_inv (commitHeartbeat now opened addr d)"
  by (auto simp: commitHeartbeat_def dir_inv_def intro!: length_update_limit split: option.split)

lemma inv_commit: "dir_inv d \<Longrightarrow> dir_inv (snd (commitInbound now opened addr d))"
  using inv_acceptSequence [OF inv_purge] inv_purge [of d now]
  by (auto simp: commitInbound_def Let_def inv_register inv_heartbeat split: option.split)

lemma inv_randomID: "dir_inv d \<Longrightarrow> randomID d = (r, d') \<Longrightarrow> dir_inv d'"
  by (auto simp: randomID_def dir_inv_def split: option.splits prod.splits)

lemma inv_randomIDText: "dir_inv d \<Longrightarrow> randomIDText d = (r, d') \<Longrightarrow> dir_inv d'"
  by (auto simp: randomIDText_def split: prod.splits option.splits intro: inv_randomID)

lemma inv_storeLoop:
  "dir_inv d \<Longrightarrow> cu_page entry < length (splitDirectorySnapshotPages (ss_speakers (cu_session entry))) \<Longrightarrow>
   dir_inv (snd (storeCursorLoop n entry d))"
proof (induction n arbitrary: d)
  case (Suc n)
  obtain c d1 where d1: "randomIDText d = (c, d1)" by fastforce
  have "dir_inv d1" by (rule inv_randomIDText [OF Suc.prems(1) d1])
  with Suc.IH [OF this Suc.prems(2)] d1 Suc.prems(2) show ?case
    by (auto simp: dir_inv_def set_update_wf split: option.split)
qed simp

lemma inv_store:
  "dir_inv d \<Longrightarrow> page < length (splitDirectorySnapshotPages (ss_speakers session)) \<Longrightarrow>
   dir_inv (snd (storeSnapshotCursor now session page d))"
  unfolding storeSnapshotCursor_def by (rule inv_storeLoop [OF inv_purge]) simp_all

lemma inv_take: "dir_inv d \<Longrightarrow> dir_inv (snd (takeCursor now cursor d))"
  using inv_purge [of d now] by (auto simp: takeCursor_def Let_def dir_inv_def set_delete)

lemma inv_send: "dir_inv d \<Longrightarrow> dir_inv (sendDatagrams now datagrams addr d)"
  by (auto simp: sendDatagrams_def consumeResponseBudget_def Let_def dir_inv_def split: option.split)

lemma inv_section: "dir_inv d \<Longrightarrow> dir_section now d d' \<Longrightarrow> dir_inv d'"
proof (erule dir_section.cases)
  fix e job rest
  assume "dir_inv d" "d = e" "d' = e\<lparr>d_jobs := rest\<rparr>" "d_jobs e = job # rest"
  then show "dir_inv d'" by (auto simp: dir_inv_def)
next
  fix e
  assume "dir_inv d" "d = e" "d' = snd (randomID e)"
  then show "dir_inv d'" using inv_randomID [of e "fst (randomID e)" "snd (randomID e)"] by simp
qed (simp_all add: inv_enqueue inv_commit inv_purge inv_take inv_store inv_send)

interpretation directory_machine: invariant_machine dir_step dir_inv
  by unfold_locales (auto simp: dir_step_def intro: inv_section)

lemma inv_newDirectory: "newDirectoryV3 pr readCSV entropy config = Inr (Some d) \<Longrightarrow> dir_inv d"
  by (auto simp: newDirectoryV3_def Let_def dir_inv_def zeroRate_def split: if_splits option.splits sum.splits)

subsection \<open>Configuration\<close>

lemma config_randomID: "dir_config (snd (randomID d)) = dir_config d"
  by (auto simp: randomID_def dir_config_def split: option.splits prod.splits)

lemma config_purge: "dir_config (purgeLocked now d) = dir_config d"
  by (simp add: purgeLocked_def dir_config_def)

lemma config_storeLoop: "dir_config (snd (storeCursorLoop n entry d)) = dir_config d"
proof (induction n arbitrary: d)
  case (Suc n)
  obtain c d1 where d1: "randomIDText d = (c, d1)" by fastforce
  have "dir_config d1 = dir_config d"
    using d1 config_randomID [of d] by (auto simp: randomIDText_def split: prod.splits option.splits)
  with Suc.IH [of d1] d1 show ?case by (auto simp: dir_config_def split: option.split)
qed simp

lemma config_enqueue: "dir_config (directory_enqueue now data addr binding d) = dir_config d"
proof (cases addr)
  case (Some a)
  obtain ok d1 where d1: "allowPreauthentication now a d = (ok, d1)" by fastforce
  then have "dir_config d1 = dir_config d"
    by (auto simp: allowPreauthentication_def Let_def dir_config_def split: if_splits)
  with d1 Some show ?thesis by (cases ok) (simp_all add: directory_enqueue_def dir_config_def)
qed (simp add: directory_enqueue_def)

lemma config_commit: "dir_config (snd (commitInbound now opened addr d)) = dir_config d"
proof (cases "acceptSequence opened (purgeLocked now d)")
  case None
  then show ?thesis by (simp add: commitInbound_def Let_def config_purge)
next
  case (Some d1)
  then have "dir_config d1 = dir_config d"
    using config_purge [of now d] by (auto elim!: acceptSequence_Some simp: dir_config_def)
  with Some show ?thesis
    by (auto simp: commitInbound_def Let_def commitRegister_def commitHeartbeat_def dir_config_def split: option.split)
qed

lemma config_take: "dir_config (snd (takeCursor now cursor d)) = dir_config d"
  using config_purge [of now d] by (simp add: takeCursor_def Let_def dir_config_def)

lemma config_send: "dir_config (sendDatagrams now datagrams addr d) = dir_config d"
  by (auto simp: sendDatagrams_def consumeResponseBudget_def Let_def dir_config_def split: option.split)

lemma config_section: "dir_section now d d' \<Longrightarrow> dir_config d' = dir_config d"
proof (erule dir_section.cases)
  fix e job rest
  assume "d = e" "d' = e\<lparr>d_jobs := rest\<rparr>"
  then show "dir_config d' = dir_config d" by (simp add: dir_config_def)
qed (simp_all add: config_enqueue config_commit config_purge config_take config_send config_randomID
    storeSnapshotCursor_def config_storeLoop)

lemma config_steps: "steps dir_step d d' \<Longrightarrow> dir_config d' = dir_config d"
  by (induction rule: steps.induct) (auto simp: dir_step_def config_section)

lemma newDirectory_config:
  assumes "newDirectoryV3 pr readCSV entropy config = Inr (Some d)"
  shows "keys_wf pr (d_keys d)" "metadata_wf (d_metadata d)" "dom (map_of (d_keys d)) = dom (map_of (md_channels (d_metadata d)))"
    "speakerRowsOf (d_metadata d) \<le> 4096" "Second \<le> d_freshnessTTL d" "d_freshnessTTL d \<le> 90 * Second"
proof -
  obtain keys metadata ttl where load: "loadDirectoryKeyStore pr readCSV (dcf_permitted config) (dcf_KeyFile config) = Inr keys"
      "loadDirectoryMetadata readCSV (dcf_ChannelsCSV config) (dcf_SpeakersCSV config) = Inr metadata"
    and d: "d_keys d = keys" "d_metadata d = metadata" "d_freshnessTTL d = ttl"
    and same: "list_all (\<lambda>(c, _). map_of (md_channels metadata) c \<noteq> None) keys"
      "list_all (\<lambda>(c, _). map_of keys c \<noteq> None) (md_channels metadata)"
    and ttl: "Second \<le> ttl" "ttl \<le> 90 * Second"
    using assms
    by (auto simp: newDirectoryV3_def Let_def directoryMaxFreshnessTTL_def not_less split: if_splits option.splits sum.splits)
  show "keys_wf pr (d_keys d)" using loadDirectoryKeyStore_wf [OF load(1)] d by simp
  show "metadata_wf (d_metadata d)" "speakerRowsOf (d_metadata d) \<le> 4096"
    using loadDirectoryMetadata_wf [OF load(2)] d by simp_all
  show "Second \<le> d_freshnessTTL d" "d_freshnessTTL d \<le> 90 * Second" using ttl d by simp_all
  show "dom (map_of (d_keys d)) = dom (map_of (md_channels (d_metadata d)))"
    unfolding d using same by (fastforce simp: list_all_iff dom_map_of_conv_image_fst dest: map_of_in_keys)
qed

text \<open>
  C11. In every state the Directory can reach from its configuration, whatever datagrams arrive and however its
  goroutines interleave, at most 32 jobs, 64 registrations, 1024 replay domains and 1024 sources are held,
  no source has more than 16 datagrams and the responses no more than 64 in their window, every stored
  cursor points at an existing page, the channels with a key are exactly those with metadata, and a
  snapshot of any channel has at most 133 pages, so that it is never refused for its number of pages.
\<close>

theorem directory_safe:
  assumes "newDirectoryV3 pr readCSV entropy config = Inr (Some d0)" "steps dir_step d0 d"
  shows "length (d_jobs d) \<le> 32 \<and> length (d_registrations d) \<le> 64 \<and> length (d_replay d) \<le> 1024 \<and>
      length (d_preauth d) \<le> 1024 \<and> (\<forall>source st. map_of (d_preauth d) source = Some st \<longrightarrow> rt_count st \<le> 16) \<and>
      rt_count (d_responseRate d) \<le> 64 \<and>
      (\<forall>cursor e. map_of (d_cursors d) cursor = Some e \<longrightarrow>
         cu_page e < length (splitDirectorySnapshotPages (ss_speakers (cu_session e)))) \<and>
      (\<forall>c. map_of (d_keys d) c \<noteq> None \<longleftrightarrow> map_of (md_channels (d_metadata d)) c \<noteq> None) \<and>
      (\<forall>c. length (splitDirectorySnapshotPages (resolvedSpeakers (d_metadata d) c)) \<le> 133)"
proof -
  have inv: "dir_inv d" using directory_machine.inv_steps [OF assms(2)] inv_newDirectory [OF assms(1)] by blast
  then have limits: "length (d_jobs d) \<le> 32 \<and> length (d_registrations d) \<le> 64 \<and> length (d_replay d) \<le> 1024 \<and>
      length (d_preauth d) \<le> 1024 \<and> (\<forall>source st. map_of (d_preauth d) source = Some st \<longrightarrow> rt_count st \<le> 16) \<and>
      rt_count (d_responseRate d) \<le> 64"
    by (auto simp: dir_inv_def dest!: map_of_SomeD)
  have cursors: "cu_page e < length (splitDirectorySnapshotPages (ss_speakers (cu_session e)))" if "map_of (d_cursors d) cursor = Some e" for cursor e
    using inv map_of_SomeD [OF that] by (auto simp: dir_inv_def)
  have same: "d_keys d = d_keys d0" "d_metadata d = d_metadata d0"
    using config_steps [OF assms(2)] by (simp_all add: dir_config_def)
  note config = newDirectory_config [OF assms(1), folded same]
  have keys: "map_of (d_keys d) c \<noteq> None \<longleftrightarrow> map_of (md_channels (d_metadata d)) c \<noteq> None" for c
    using config(3) by (auto simp: dom_def)
  have "length (resolvedSpeakers (d_metadata d) c) \<le> 4096" for c
    using resolvedSpeakers_rows(3) [OF config(2), of c] config(4) by simp
  then have "(length (resolvedSpeakers (d_metadata d) c) + 30) div 31 \<le> (4096 + 30) div 31" for c by (intro div_le_mono) simp
  then have "length (splitDirectorySnapshotPages (resolvedSpeakers (d_metadata d) c)) \<le> 133" for c
    by (simp add: pages_of_snapshot(3))
  with limits cursors keys show ?thesis by blast
qed

subsection \<open>Replay\<close>

text \<open>A sequence that is spent in a record which lives beyond \<open>T\<close>.\<close>

definition guarded :: "gotime \<Rightarrow> directoryReplayKey \<Rightarrow> u64 \<Rightarrow> directoryV3 \<Rightarrow> bool" where
  "guarded T k n d \<longleftrightarrow> (\<exists>r. map_of (d_replay d) k = Some r \<and> T < rp_expires r \<and> n \<in> directory_spent (rp_state r))"

lemma guarded_purge: "gomap_wf (d_replay d) \<Longrightarrow> now \<le> T \<Longrightarrow> guarded T k n d \<Longrightarrow> guarded T k n (purgeLocked now d)"
  by (auto simp: guarded_def purgeLocked_def map_of_prune)

lemma guarded_same: "d_replay d' = d_replay d \<Longrightarrow> guarded T k n d' \<longleftrightarrow> guarded T k n d"
  by (simp add: guarded_def)

text \<open>The replay table after a sequence was accepted.\<close>

definition recordAt :: "directoryReplayKey \<Rightarrow> directoryV3 \<Rightarrow> directoryReplayRecord" where
  "recordAt k d = (case map_of (d_replay d) k of
      None \<Rightarrow> \<lparr>rp_state = zeroDirectoryReplayState, rp_expires = 0\<rparr> | Some r \<Rightarrow> r)"

lemma recordAt_Some: "map_of (d_replay d) k = Some r \<Longrightarrow> recordAt k d = r"
  by (simp add: recordAt_def)

lemma acceptSequence_window:
  assumes "acceptSequence opened d = Some d'"
  defines "r \<equiv> recordAt (directoryReplayKeyFor opened) d"
  shows "\<exists>r'. d' = d\<lparr>d_replay := AList.update (directoryReplayKeyFor opened) r' (d_replay d)\<rparr> \<and> rp_expires r \<le> rp_expires r' \<and>
      time_Unix (sint (de_ExpiresAt (do_envelope opened))) \<le> rp_expires r' \<and>
      insert (de_Sequence (do_envelope opened)) (directory_spent (rp_state r)) \<subseteq> directory_spent (rp_state r') \<and>
      de_Sequence (do_envelope opened) \<notin> directory_spent (rp_state r)"
proof -
  let ?n = "de_Sequence (do_envelope opened)"
  obtain st where st: "directoryReplayAccept (rp_state r) ?n = (True, st)"
    and d': "d' = d\<lparr>d_replay := AList.update (directoryReplayKeyFor opened) \<lparr>rp_state = st, rp_expires =
      max (rp_expires r) (time_Unix (sint (de_ExpiresAt (do_envelope opened))))\<rparr> (d_replay d)\<rparr>"
    using assms(1) unfolding r_def recordAt_def
    by (auto simp: acceptSequence_def Let_def max_def split: if_splits option.splits prod.splits bool.splits)
  have "?n \<notin> directory_spent (rp_state r)" using directory_window.accept_iff [of "rp_state r" ?n] st by simp
  moreover from directory_window.spent_accept [OF this] st
  have "insert ?n (directory_spent (rp_state r)) \<subseteq> directory_spent st" by simp
  ultimately show ?thesis unfolding d' by (intro exI [of _ "\<lparr>rp_state = st, rp_expires =
      max (rp_expires r) (time_Unix (sint (de_ExpiresAt (do_envelope opened))))\<rparr>"]) auto
qed

lemma guarded_accept: "guarded T k n d \<Longrightarrow> acceptSequence opened d = Some d' \<Longrightarrow> guarded T k n d'"
proof -
  assume "guarded T k n d" and a: "acceptSequence opened d = Some d'"
  then obtain r where r: "map_of (d_replay d) k = Some r" "T < rp_expires r" "n \<in> directory_spent (rp_state r)"
    by (auto simp: guarded_def)
  from acceptSequence_window [OF a] obtain r' where r': "d' = d\<lparr>d_replay := AList.update (directoryReplayKeyFor opened) r' (d_replay d)\<rparr>"
    and kept: "directoryReplayKeyFor opened = k \<Longrightarrow> rp_expires r \<le> rp_expires r' \<and> directory_spent (rp_state r) \<subseteq> directory_spent (rp_state r')"
    using recordAt_Some [OF r(1)] by blast
  show "guarded T k n d'"
    using r r' kept by (cases "directoryReplayKeyFor opened = k") (auto simp: guarded_def)
qed

lemma replay_registers:
  "d_replay (commitRegister now opened addr d) = d_replay d" "d_replay (commitHeartbeat now opened addr d) = d_replay d"
  by (auto simp: commitRegister_def commitHeartbeat_def split: option.split)

lemma commit_replay:
  "d_replay (snd (commitInbound now opened addr d)) =
     d_replay (case acceptSequence opened (purgeLocked now d) of None \<Rightarrow> purgeLocked now d | Some d2 \<Rightarrow> d2)"
  by (auto simp: commitInbound_def Let_def replay_registers split: option.split)

lemma replay_randomIDText: "randomIDText d = (r, d') \<Longrightarrow> d_replay d' = d_replay d"
  by (auto simp: randomIDText_def randomID_def split: prod.splits option.splits)

lemma replay_storeLoop: "d_replay (snd (storeCursorLoop n entry d)) = d_replay d"
proof (induction n arbitrary: d)
  case (Suc n)
  obtain c d1 where d1: "randomIDText d = (c, d1)" by fastforce
  with replay_randomIDText [OF d1] Suc.IH [of d1] show ?case by (auto split: option.split)
qed simp

lemma replay_enqueue: "d_replay (directory_enqueue now data addr binding d) = d_replay d"
proof (cases addr)
  case (Some a)
  obtain ok d1 where d1: "allowPreauthentication now a d = (ok, d1)" by fastforce
  then have "d_replay d1 = d_replay d" by (auto simp: allowPreauthentication_def Let_def split: if_splits)
  with d1 Some show ?thesis by (cases ok) (simp_all add: directory_enqueue_def)
qed (simp add: directory_enqueue_def)

lemma replay_others:
  "d_replay (snd (takeCursor now cursor d)) = d_replay (purgeLocked now d)"
  "d_replay (snd (storeSnapshotCursor now session page d)) = d_replay (purgeLocked now d)"
  "d_replay (snd (randomID d)) = d_replay d" "d_replay (sendDatagrams now datagrams addr d) = d_replay d"
  "d_replay (d\<lparr>d_jobs := js\<rparr>) = d_replay d"
  by (auto simp: takeCursor_def Let_def storeSnapshotCursor_def replay_storeLoop randomID_def sendDatagrams_def
      consumeResponseBudget_def split: option.split prod.split)

lemma guarded_section:
  assumes "dir_section now d d'" "now \<le> T" "dir_inv d" "guarded T k n d"
  shows "guarded T k n d'"
proof -
  have purge: "guarded T k n (purgeLocked now d)"
    by (rule guarded_purge) (use assms in \<open>auto simp: dir_inv_def\<close>)
  from assms(1) show ?thesis
  proof cases
    case (sec_commit opened addr)
    then show ?thesis
      using purge guarded_accept [OF purge]
      by (auto simp: commit_replay guarded_same [OF commit_replay] split: option.split)
  qed (use assms(4) purge in \<open>simp_all add: guarded_same [OF replay_enqueue] guarded_same [OF replay_others(1)]
      guarded_same [OF replay_others(2)] guarded_same [OF replay_others(3)] guarded_same [OF replay_others(4)]
      guarded_same [OF replay_others(5)]\<close>)
qed

lemma guarded_steps: "steps (until T) d d' \<Longrightarrow> dir_inv d \<Longrightarrow> guarded T k n d \<Longrightarrow> guarded T k n d'"
proof (induction rule: steps.induct)
  case (steps_step d e f)
  have "dir_inv e" using directory_machine.inv_steps [OF until_dir_step [OF steps_step.hyps(1)]] steps_step.prems(1) .
  with steps_step guarded_section show ?case by (auto simp: until_def)
qed simp

text \<open>
  C5. No datagram acts twice while it is unexpired. When a datagram has been committed, then after any further
  activity of the Directory up to a time before its expiry, a datagram with the same channel, epoch and
  sequence is refused: it yields no request and changes nothing beyond the purge of what has expired.
\<close>

theorem directory_no_replay:
  assumes "dir_inv d" "acceptSequence opened (purgeLocked now d) \<noteq> None"
    and "steps (until T) (snd (commitInbound now opened addr d)) d2"
    and "T < time_Unix (sint (de_ExpiresAt (do_envelope opened)))"
    and "directoryReplayKeyFor again = directoryReplayKeyFor opened" "de_Sequence (do_envelope again) = de_Sequence (do_envelope opened)"
    and "now2 \<le> T"
  shows "commitInbound now2 again addr2 d2 = (None, purgeLocked now2 d2)"
proof -
  obtain d1 where d1: "acceptSequence opened (purgeLocked now d) = Some d1" using assms(2) by blast
  let ?n = "de_Sequence (do_envelope opened)" and ?k = "directoryReplayKeyFor opened"
  from acceptSequence_window [OF d1] obtain r' where r': "d1 = (purgeLocked now d)\<lparr>d_replay :=
      AList.update ?k r' (d_replay (purgeLocked now d))\<rparr>"
    "time_Unix (sint (de_ExpiresAt (do_envelope opened))) \<le> rp_expires r'" "?n \<in> directory_spent (rp_state r')" by blast
  then have "guarded T ?k ?n d1" using assms(4) by (simp add: guarded_def)
  moreover have "d_replay (snd (commitInbound now opened addr d)) = d_replay d1" using d1 by (simp add: commit_replay)
  ultimately have "guarded T ?k ?n (snd (commitInbound now opened addr d))" by (simp only: guarded_def)
  from guarded_steps [OF assms(3) inv_commit [OF assms(1)] this] have g: "guarded T ?k ?n d2" .
  have "dir_inv d2"
    using directory_machine.inv_steps [OF until_dir_step [OF assms(3)] inv_commit [OF assms(1)]] .
  then have "guarded T ?k ?n (purgeLocked now2 d2)" using guarded_purge [OF _ assms(7) g] by (simp add: dir_inv_def)
  then obtain r where r: "map_of (d_replay (purgeLocked now2 d2)) (directoryReplayKeyFor again) = Some r"
    "de_Sequence (do_envelope again) \<in> directory_spent (rp_state r)"
    using assms(5,6) by (auto simp: guarded_def)
  have "acceptSequence again (purgeLocked now2 d2) \<noteq> Some d3" for d3
    using acceptSequence_window [of again "purgeLocked now2 d2" d3] recordAt_Some [OF r(1)] r(2) by auto
  then have "acceptSequence again (purgeLocked now2 d2) = None" by (metis not_Some_eq)
  then show ?thesis by (simp add: commitInbound_def Let_def)
qed

end
