(* ===== verification/Directory_Replies.thy ===== *)
theory Directory_Replies
  imports Directory_Safety
begin

text \<open>
  What the Directory answers: a participants request for at most 128 members is answered whole, in at most
  32 datagrams; the pages of a snapshot are chained by cursors that each work once; and the rows of the
  participants are the current members of the channel.
\<close>

subsection \<open>Sealing all fragments\<close>

lemma sealGroups_all:
  assumes "\<And>i. i < length gs \<Longrightarrow> fitting (encode (k + i)) (\<lambda>p. seal (k + i) p \<noteq> None) (gs ! i)"
  shows "\<exists>ds. sealGroups encode seal k gs = Inr ds \<and> length ds = length gs \<and>
    (\<forall>i<length gs. seal (k + i) (the (encode (k + i) (gs ! i))) = Some (ds ! i))"
  using assms
proof (induction gs arbitrary: k)
  case (Cons g gs)
  from Cons.prems [of 0] obtain p d where p: "encode k g = Some p" "seal k p = Some d" by (auto simp: fitting_def)
  have "fitting (encode (Suc k + i)) (\<lambda>p. seal (Suc k + i) p \<noteq> None) (gs ! i)" if "i < length gs" for i
    using Cons.prems [of "Suc i"] that by simp
  from Cons.IH [OF this] obtain ds where ds: "sealGroups encode seal (Suc k) gs = Inr ds" "length ds = length gs"
    "\<forall>i<length gs. seal (Suc k + i) (the (encode (Suc k + i) (gs ! i))) = Some (ds ! i)" by blast
  with p show ?case by (intro exI [of _ "d # ds"]) (auto simp: nth_Cons split: nat.split)
qed simp

lemma sealFragment_size: "sealFragment t x i p = Some g \<Longrightarrow> length g \<le> 1200"
  by (auto simp: sealFragment_def sealDirectoryDatagram_def split: if_splits elim: sealDirectoryEnvelope_Some)

subsection \<open>Participants\<close>

lemma participants_pack:
  assumes "response_ok x" "length rs \<le> 128"
  obtains groups where "packDirectoryRows (participantsEncode x) (fragmentFits ''participants'' x) rs = Inr groups"
    "concat groups = rs" "1 \<le> length groups" "length groups \<le> 32"
    "\<And>i. i < length groups \<Longrightarrow>
       fitting (participantsEncode x i (length groups)) (fragmentFits ''participants'' x i (length groups)) (groups ! i)"
proof (cases "rs = []")
  case True
  have "fitting (participantsEncode x 0 1) (fragmentFits ''participants'' x 0 1) []"
    using participants.fits_iff [OF assms(1), of 0 1 "[]"] participants.cost_unit [OF assms(1), of 0 1 "[]"] by simp
  then show ?thesis using that [of "[[]]"] True by (simp add: packDirectoryRows_def)
next
  case False
  obtain groups where g: "packDirectoryRows (participantsEncode x) (fragmentFits ''participants'' x) rs = Inr groups"
    using participants.pack_complete [OF assms(1), of rs] assms(2) by auto
  then have stable: "packStable (participantsEncode x) (fragmentFits ''participants'' x) rs 6 1 = Inr groups"
    using False by (simp add: packDirectoryRows_def)
  note attempt = packStable_Inr [OF stable]
  have parts: "concat groups = rs" "\<And>i. i < length groups \<Longrightarrow>
      fitting (participantsEncode x i (length groups)) (fragmentFits ''participants'' x i (length groups)) (groups ! i)"
    using packAttempt_Inr [OF conjunct1 [OF attempt]] by auto
  moreover have "1 \<le> length groups" using parts(1) False by (cases groups) auto
  ultimately show ?thesis using that g attempt by blast
qed

text \<open>A clock within the range of a JSON integer.\<close>

definition clock_range :: "gotime \<Rightarrow> duration \<Rightarrow> bool" where
  "clock_range now ttl \<longleftrightarrow> 0 \<le> Unix_of now \<and> 0 < Unix_of (now + ttl) \<and> Unix_of now \<le> Unix_of (now + ttl) \<and>
     Unix_of (now + ttl) \<le> 9007199254740991"

lemma of_int_range:
  assumes "0 \<le> v" "v \<le> 9007199254740991"
  shows "(of_int v :: u64) \<le> 9007199254740991" "v \<noteq> 0 \<Longrightarrow> (of_int v :: u64) \<noteq> 0"
proof -
  have u: "uint (of_int v :: u64) = v"
    using assms by (simp add: uint_word_of_int_eq take_bit_int_eq_self)
  show "(of_int v :: u64) \<le> 9007199254740991" using assms u by (simp add: word_le_def)
  show "v \<noteq> 0 \<Longrightarrow> (of_int v :: u64) \<noteq> 0" using u by (metis unsigned_0)
qed

lemma newResponse_ok:
  assumes "seals_sized dp" "clock_range now ttl" "length epoch = 16" "length responseID = 22" "length requestID \<le> 22"
    "binding \<in> {0, 1}"
  shows "response_ok (newResponse dp c material epoch now ttl requestID responseID binding)"
  using assms of_int_range [of "Unix_of now"] of_int_range [of "Unix_of (now + ttl)"]
  by (auto simp: response_ok_def newResponse_def clock_range_def)

lemma randomID_enough:
  assumes "16 \<le> length (d_entropy d)"
  shows "randomID d = (Some (take 16 (d_entropy d)), d\<lparr>d_entropy := drop 16 (d_entropy d)\<rparr>)"
  using assms by (simp add: randomID_def rand_Read_def)

lemma randomIDText_enough:
  assumes "16 \<le> length (d_entropy d)"
  shows "randomIDText d = (Some (b64Encode (take 16 (d_entropy d))), d\<lparr>d_entropy := drop 16 (d_entropy d)\<rparr>)"
  using randomID_enough [OF assms] by (simp add: randomIDText_def)

text \<open>There is room for a whole response of 32 datagrams.\<close>

definition budget_free :: "gotime \<Rightarrow> directoryV3 \<Rightarrow> bool" where
  "budget_free now d \<longleftrightarrow> IsZero (rt_window (d_responseRate d)) \<or> Second \<le> time_Sub now (rt_window (d_responseRate d)) \<or>
     rt_count (d_responseRate d) \<le> 32"

lemma sendDatagrams_free:
  assumes "budget_free now d" "1 \<le> length gs" "length gs \<le> 32"
  shows "d_outbox (sendDatagrams now gs (Some a) d) = d_outbox d @ map (\<lambda>g. (g, a)) gs"
  using assms by (auto simp: sendDatagrams_def consumeResponseBudget_def budget_free_def Let_def)

text \<open>At most 128 rows, whatever their values, are sent whole.\<close>

lemma participants_served:
  assumes "seals_sized dp" "map_of (d_keys d) c = Some material" "length rs \<le> 128" "length requestID \<le> 22"
    and "binding \<in> {0, 1}" "clock_range (clock AtIssue) (d_freshnessTTL d)" "32 \<le> length (d_entropy d)"
    and "budget_free (clock AtBudget) d"
  defines "x \<equiv> newResponse dp c material (take 16 (d_entropy d)) (clock AtIssue) (d_freshnessTTL d) requestID
      (b64Encode (take 16 (drop 16 (d_entropy d)))) binding"
  shows "\<exists>groups datagrams. concat groups = rs \<and> 1 \<le> length groups \<and> length groups \<le> 32 \<and> length datagrams = length groups \<and>
    (\<forall>i<length groups. length (datagrams ! i) \<le> 1200 \<and>
       sealFragment ''participants'' x i (bytes_of (marshalParticipants x i (length groups) (groups ! i))) = Some (datagrams ! i)) \<and>
    d_outbox (sendParticipants dp clock c requestID rs (Some a) binding d) = d_outbox d @ map (\<lambda>g. (g, a)) datagrams"
proof -
  let ?d1 = "d\<lparr>d_entropy := drop 16 (d_entropy d)\<rparr>" and ?d2 = "d\<lparr>d_entropy := drop 16 (drop 16 (d_entropy d))\<rparr>"
  have draws: "randomID d = (Some (take 16 (d_entropy d)), ?d1)"
    "randomIDText ?d1 = (Some (b64Encode (take 16 (drop 16 (d_entropy d)))), ?d2)"
    using assms(7) randomID_enough [of d] randomIDText_enough [of ?d1] by simp_all
  have ok: "response_ok x"
    unfolding x_def using assms(1,4-7) by (intro newResponse_ok) (simp_all add: length_b64Encode)
  obtain groups where
    g: "packDirectoryRows (participantsEncode x) (fragmentFits ''participants'' x) rs = Inr groups"
      "concat groups = rs" "1 \<le> length groups" "length groups \<le> 32"
      "\<And>i. i < length groups \<Longrightarrow>
       fitting (participantsEncode x i (length groups)) (fragmentFits ''participants'' x i (length groups)) (groups ! i)"
    using participants_pack [OF ok assms(3)] by blast
  have "fitting (participantsEncode x (0 + i) (length groups)) (\<lambda>p. sealFragment ''participants'' x (0 + i) p \<noteq> None) (groups ! i)"
    if "i < length groups" for i
    using g(5) [OF that] by (simp add: fragmentFits_def fitting_def)
  from sealGroups_all [where encode = "\<lambda>i. participantsEncode x i (length groups)" and seal = "sealFragment ''participants'' x", OF this]
  obtain datagrams where s: "sealGroups (\<lambda>i. participantsEncode x i (length groups)) (sealFragment ''participants'' x) 0 groups =
      Inr datagrams" "length datagrams = length groups"
    "\<forall>i<length groups. sealFragment ''participants'' x i (bytes_of (marshalParticipants x i (length groups) (groups ! i))) = Some (datagrams ! i)"
    by (auto simp: participantsEncode_def)
  have "sendParticipants dp clock c requestID rs (Some a) binding d = sendDatagrams (clock AtBudget) datagrams (Some a) ?d2"
    using assms(2,3) draws g(1) s(1) by (simp add: sendParticipants_def Let_def x_def [symmetric])
  moreover have "budget_free (clock AtBudget) ?d2" using assms(8) by (simp add: budget_free_def)
  ultimately have "d_outbox (sendParticipants dp clock c requestID rs (Some a) binding d) = d_outbox d @ map (\<lambda>g. (g, a)) datagrams"
    using sendDatagrams_free [of "clock AtBudget" ?d2 datagrams a] g(3,4) s(2) by simp
  with g s show ?thesis using sealFragment_size by blast
qed

text \<open>Committing a request changes the replay table and what has expired, nothing else.\<close>

lemma commit_request:
  assumes "acceptSequence opened (purgeLocked now d) \<noteq> None" "de_Type (do_envelope opened) = ''request''" "do_request opened = Some r"
  obtains d1 where "commitInbound now opened addr d = (Some r, d1)" "d_keys d1 = d_keys d" "d_entropy d1 = d_entropy d"
    "d_freshnessTTL d1 = d_freshnessTTL d" "d_responseRate d1 = d_responseRate d" "d_transport d1 = d_transport d"
    "d_outbox d1 = d_outbox d"
proof -
  obtain d1 where d1: "acceptSequence opened (purgeLocked now d) = Some d1" using assms(1) by blast
  then show ?thesis
    using assms(2,3) that [of d1] by (auto simp: commitInbound_def Let_def purgeLocked_def elim!: acceptSequence_Some)
qed

text \<open>
  C7. A participants request is answered whole. When a datagram opens to a request for the participants of a channel
  and its sequence is fresh, the Directory sends between one and 32 datagrams of at most 1200 bytes to the
  endpoint it came from: fragment \<open>i\<close> of \<open>n\<close> is sealed under the channel's key for a fresh epoch with sequence
  \<open>i + 1\<close> and names the request, and the rows of the fragments in order are exactly the participants the Relay
  reports for the channel, as long as these are at most 128. Neither the search for a stable fragment count nor
  the size of a row ever refuses them.
\<close>

theorem participants_request_answered:
  assumes opens: "openDirectoryDatagram dp (jb_data job) (jb_binding job) (d_keys d) (clock AtOpen) = Inr opened"
    and request: "do_request opened = Some r" "dq_Resource r = ''participants''"
    and fresh: "acceptSequence opened (purgeLocked (clock AtCommit) d) \<noteq> None"
    and few: "length (directoryParticipants now (de_ChannelID (do_envelope opened)) s) \<le> 128"
    and "jb_addr job = Some a" "seals_sized dp" "clock_range (clock AtIssue) (d_freshnessTTL d)" "32 \<le> length (d_entropy d)"
    and "budget_free (clock AtBudget) d"
  shows "\<exists>x groups datagrams. concat groups = directoryParticipants now (de_ChannelID (do_envelope opened)) s \<and>
    1 \<le> length groups \<and> length groups \<le> 32 \<and> length datagrams = length groups \<and>
    rs_channelID x = de_ChannelID (do_envelope opened) \<and> rs_requestID x = dq_RequestID r \<and>
    map_of (d_keys d) (rs_channelID x) = Some (rs_material x) \<and> rs_epoch x = take 16 (d_entropy d) \<and>
    rs_binding x = transport_binding (d_transport d) \<and>
    (\<forall>i<length groups. length (datagrams ! i) \<le> 1200 \<and>
       sealFragment ''participants'' x i (bytes_of (marshalParticipants x i (length groups) (groups ! i))) = Some (datagrams ! i)) \<and>
    d_outbox (directory_handle dp clock (\<lambda>c. directoryParticipants now c s) job d) = d_outbox d @ map (\<lambda>g. (g, a)) datagrams"
proof -
  let ?c = "de_ChannelID (do_envelope opened)"
  obtain e epoch plaintext where e: "decryptEnvelope dp (d_keys d) (jb_binding job) e epoch = Inr plaintext" "do_envelope opened = e"
    "de_Type e = ''request''" "openRequest dp (de_ExpiresAt e) (clock AtOpen) plaintext = Inr r"
    using openDirectoryDatagram_Inr [OF opens] request(1) by (metis option.distinct(1) option.inject)
  obtain material where material: "map_of (d_keys d) ?c = Some material" using decryptEnvelope_Inr [OF e(1)] e(2) by metis
  have rid: "length (dq_RequestID r) \<le> 22"
    using openRequest_Inr(1) [OF e(4)] by (auto simp: decodeCanonicalDirectoryID_def split: if_splits)
  have cursor: "dq_Cursor r = None" using openRequest_Inr(3) [OF e(4)] request(2) by auto
  obtain d1 where commit: "commitInbound (clock AtCommit) opened (jb_addr job) d = (Some r, d1)"
    and same: "d_keys d1 = d_keys d" "d_entropy d1 = d_entropy d" "d_freshnessTTL d1 = d_freshnessTTL d"
      "d_responseRate d1 = d_responseRate d" "d_transport d1 = d_transport d" "d_outbox d1 = d_outbox d"
    using commit_request [OF fresh] e(2,3) request(1) by metis
  have b: "transport_binding (d_transport d) \<in> {0, 1}" by (simp add: transport_binding_def)
  have free: "budget_free (clock AtBudget) d1" using assms(10) same(4) by (simp add: budget_free_def)
  have handled: "directory_handle dp clock (\<lambda>c. directoryParticipants now c s) job d =
      sendParticipants dp clock ?c (dq_RequestID r) (directoryParticipants now ?c s) (Some a) (transport_binding (d_transport d)) d1"
    using opens commit request(2) cursor same(5) assms(6) by (simp add: directory_handle_def serveRequest_def)
  let ?x = "newResponse dp ?c material (take 16 (d_entropy d)) (clock AtIssue) (d_freshnessTTL d) (dq_RequestID r)
      (b64Encode (take 16 (drop 16 (d_entropy d)))) (transport_binding (d_transport d))"
  have x: "rs_channelID ?x = ?c" "rs_requestID ?x = dq_RequestID r" "rs_material ?x = material" "rs_epoch ?x = take 16 (d_entropy d)"
    "rs_binding ?x = transport_binding (d_transport d)" by (simp_all add: newResponse_def)
  have "map_of (d_keys d1) ?c = Some material" "clock_range (clock AtIssue) (d_freshnessTTL d1)" "32 \<le> length (d_entropy d1)"
    using material assms(8,9) same by simp_all
  from participants_served [where clock = clock, OF assms(7) this(1) few rid b this(2,3) free, of a, unfolded same]
  obtain groups datagrams where "concat groups = directoryParticipants now ?c s" "1 \<le> length groups" "length groups \<le> 32"
    "length datagrams = length groups"
    "\<forall>i<length groups. length (datagrams ! i) \<le> 1200 \<and>
       sealFragment ''participants'' ?x i (bytes_of (marshalParticipants ?x i (length groups) (groups ! i))) = Some (datagrams ! i)"
    "d_outbox (sendParticipants dp clock ?c (dq_RequestID r) (directoryParticipants now ?c s) (Some a)
       (transport_binding (d_transport d)) d1) = d_outbox d @ map (\<lambda>g. (g, a)) datagrams" by blast
  then show ?thesis
    unfolding handled using x material by (intro exI [of _ ?x] exI [of _ groups] exI [of _ datagrams]) (simp only: simp_thms)
qed

subsection \<open>Snapshots\<close>

text \<open>A fragment that was packed with the estimated count seals with the final one.\<close>

lemma length_snapshot_payload:
  assumes "n \<le> 32"
  shows "length (marshalSnapshotPayload x session p i n cs sp) \<le> length (marshalSnapshotPayload x session p i 32 cs sp)"
  using decimal_mono [OF assms] by (simp add: marshalSnapshotPayload_def payload_defs)

lemma length_snapshot_empty:
  "length (marshalSnapshotPayload x session p i n cs (Some [])) \<le> length (marshalSnapshotPayload x session p i n cs None)"
  by (simp add: marshalSnapshotPayload_def payload_defs)

lemma snapshot_pack:
  assumes ok: "response_ok x" and "rs \<noteq> []"
    and pack: "packDirectorySnapshotRows (snapshotEncode x session p) (fragmentFits ''snapshot'' x) rs = Inr groups"
  shows "concat groups = rs" "1 \<le> length groups" "length groups \<le> 32"
    "\<And>i. i < length groups \<Longrightarrow> fitting (\<lambda>g. snapshotEncode x session p i (length groups) (Some g))
       (fragmentFits ''snapshot'' x i (length groups)) (groups ! i)"
proof -
  have "packSnapshotGroups (snapshotEncode x session p) (fragmentFits ''snapshot'' x) [] rs = Inr groups"
    using pack assms(2) by (simp add: packDirectorySnapshotRows_def)
  from packSnapshotGroups_Inr [OF this] have g: "concat groups = rs" "length groups \<le> 32"
    "\<And>i. i < length groups \<Longrightarrow> groups ! i \<noteq> [] \<and>
        fitting (\<lambda>g. snapshotEncode x session p i 32 (Some g)) (fragmentFits ''snapshot'' x i 32) (groups ! i) \<or>
      i = 0 \<and> groups ! i = [] \<and> fitting (snapshotEncode x session p 0 32) (fragmentFits ''snapshot'' x 0 32) None"
    by auto
  show "concat groups = rs" "length groups \<le> 32" by fact+
  then show "1 \<le> length groups" using assms(2) by (cases groups) auto
  fix i assume i: "i < length groups"
  then have small: "i < 1000" using g(2) by simp
  let ?cs = "if i = 0 then [ss_channel session] else []"
  have relay: "isDirectoryRelayType ''snapshot''" by (simp add: isDirectoryRelayType_def)
  have "\<exists>q. fragmentFits ''snapshot'' x i 32 q \<and>
      length (marshalSnapshotPayload x session p i (length groups) ?cs (Some (groups ! i))) \<le> length q"
    using g(3) [OF i]
  proof (elim disjE conjE)
    assume "fitting (\<lambda>g. snapshotEncode x session p i 32 (Some g)) (fragmentFits ''snapshot'' x i 32) (groups ! i)"
    then have "fragmentFits ''snapshot'' x i 32 (bytes_of (marshalSnapshotPayload x session p i 32 ?cs (Some (groups ! i))))"
      by (simp add: fitting_def snapshotEncode_def)
    then show ?thesis
      by (intro exI conjI, assumption) (simp only: length_bytes_of length_snapshot_payload [OF g(2)])
  next
    assume e: "i = 0" "groups ! i = []" and "fitting (snapshotEncode x session p 0 32) (fragmentFits ''snapshot'' x 0 32) None"
    then have "fragmentFits ''snapshot'' x i 32 (bytes_of (marshalSnapshotPayload x session p i 32 ?cs None))"
      by (simp add: fitting_def snapshotEncode_def)
    then show ?thesis unfolding e(2)
      by (intro exI conjI, assumption) (simp only: length_bytes_of le_trans [OF length_snapshot_payload [OF g(2)] length_snapshot_empty])
  qed
  then obtain q where "fragmentFits ''snapshot'' x i 32 q"
    "length (bytes_of (marshalSnapshotPayload x session p i (length groups) ?cs (Some (groups ! i)))) \<le> length q" by auto
  from fragmentFits_shorter [OF ok relay small this]
  show "fitting (\<lambda>g. snapshotEncode x session p i (length groups) (Some g)) (fragmentFits ''snapshot'' x i (length groups)) (groups ! i)"
    by (auto simp: fitting_def snapshotEncode_def)
qed

text \<open>What storing a cursor leaves behind.\<close>

lemma storeLoop_first:
  assumes "16 \<le> length (d_entropy d)" "map_of (d_cursors d) (b64Encode (take 16 (d_entropy d))) = None"
  shows "storeCursorLoop (Suc n) entry d = (Some (b64Encode (take 16 (d_entropy d))),
    d\<lparr>d_entropy := drop 16 (d_entropy d), d_cursors := AList.update (b64Encode (take 16 (d_entropy d))) entry (d_cursors d)\<rparr>)"
  using assms randomIDText_enough [OF assms(1)] by simp

lemma sendError_cursors: "d_cursors (sendError dp clock c rid code addr b d) = d_cursors d"
  by (auto simp: sendError_def randomID_def sendDatagrams_def consumeResponseBudget_def Let_def split: option.split prod.split)

lemma sendDatagrams_cursors: "d_cursors (sendDatagrams now gs addr d) = d_cursors d"
  by (auto simp: sendDatagrams_def consumeResponseBudget_def Let_def split: option.split)

text \<open>
  C30. A snapshot can be read to its end, page by page. Page \<open>k\<close> of a snapshot's session, unless it is the last, leaves a
  cursor from which the next request is answered with page \<open>k + 1\<close> of the same session, speakers and revision, as
  long as the session has not expired; that cursor is then gone. The pages one after the other are the
  speakers of the session.
\<close>

theorem snapshot_chain:
  fixes dp :: directoryPrims and rid :: string and addr :: "udpaddr option" and b :: u8
  assumes "map_of (d_keys d) c = Some material" "k + 1 < length (splitDirectorySnapshotPages (ss_speakers session))"
    and "48 \<le> length (d_entropy d)"
    and fresh: "map_of (d_cursors (purgeLocked (clock AtStore) d)) (b64Encode (take 16 (d_entropy d))) = None"
    and wf: "gomap_wf (d_cursors d)"
    and later: "clock' AtPurge < ss_expires session" "clock' AtSession < ss_expires session"
  defines "cursor \<equiv> b64Encode (take 16 (d_entropy d))" and "d' \<equiv> sendSnapshotPage dp clock c rid session k addr b d"
  defines "d'' \<equiv> snd (takeCursor (clock' AtPurge) cursor d')"
  shows "map_of (d_cursors d') cursor = Some \<lparr>cu_session = session, cu_page = k + 1\<rparr> \<and>
    sendSnapshotCursor dp clock' c rid' cursor addr' b' d' = sendSnapshotPage dp clock' c rid' session (k + 1) addr' b' d'' \<and>
    map_of (d_cursors d'') cursor = None \<and>
    concat (splitDirectorySnapshotPages (ss_speakers session)) = ss_speakers session"
proof -
  let ?p = "purgeLocked (clock AtStore) d"
  let ?entry = "\<lparr>cu_session = session, cu_page = k + 1\<rparr>"
  have entropy: "d_entropy ?p = d_entropy d" by (simp add: purgeLocked_def)
  define d1 where "d1 = ?p\<lparr>d_entropy := drop 16 (d_entropy d), d_cursors := AList.update cursor ?entry (d_cursors ?p)\<rparr>"
  have store: "nextPageCursor (clock AtStore) session k (length (splitDirectorySnapshotPages (ss_speakers session))) d =
      (Some (Some cursor), d1)"
    using assms(2,3) fresh storeLoop_first [of ?p 3 ?entry]
    by (simp add: nextPageCursor_def storeSnapshotCursor_def entropy cursor_def d1_def eval_nat_numeral)
  have "32 \<le> length (d_entropy d1)" using assms(3) by (simp add: d1_def)
  then have draws: "randomID d1 = (Some (take 16 (d_entropy d1)), d1\<lparr>d_entropy := drop 16 (d_entropy d1)\<rparr>)"
    "randomIDText (d1\<lparr>d_entropy := drop 16 (d_entropy d1)\<rparr>) = (Some (b64Encode (take 16 (drop 16 (d_entropy d1)))),
       d1\<lparr>d_entropy := drop 16 (drop 16 (d_entropy d1))\<rparr>)"
    using randomID_enough [of d1] randomIDText_enough [of "d1\<lparr>d_entropy := drop 16 (d_entropy d1)\<rparr>"] by simp_all
  have cursors: "d_cursors d' = d_cursors d1"
    using assms(1,2) store draws unfolding d'_def
    by (auto simp: sendSnapshotPage_def Let_def sendError_cursors sendDatagrams_cursors split: sum.split sealError.split)
  then have stored: "map_of (d_cursors d') cursor = Some ?entry" by (simp add: d1_def)
  have "gomap_wf (d_cursors d')" using wf unfolding cursors d1_def by (simp add: purgeLocked_def)
  then have "map_of (d_cursors (purgeLocked (clock' AtPurge) d')) cursor = Some ?entry"
    using stored later(1) by (simp add: purgeLocked_def map_of_prune)
  then have "sendSnapshotCursor dp clock' c rid' cursor addr' b' d' = sendSnapshotPage dp clock' c rid' session (k + 1) addr' b' d''"
    using later(2) by (simp add: sendSnapshotCursor_def takeCursor_def Let_def d''_def)
  moreover have "map_of (d_cursors d'') cursor = None" by (simp add: d''_def takeCursor_def Let_def)
  ultimately show ?thesis using stored pages_of_snapshot(1) [of "ss_speakers session"] by blast
qed

text \<open>The response and the state in which a page is encoded, after its random draws.\<close>

definition pageResponse ::
  "directoryPrims \<Rightarrow> directoryClock \<Rightarrow> u32 \<Rightarrow> directoryKeyMaterial \<Rightarrow> string \<Rightarrow> u8 \<Rightarrow> directoryV3 \<Rightarrow> directoryResponse" where
  "pageResponse dp clock c material rid b d1 =
     newResponse dp c material (take 16 (d_entropy d1)) (clock AtIssue) (d_freshnessTTL d1) rid
       (b64Encode (take 16 (drop 16 (d_entropy d1)))) b"

lemma nextPageCursor_ttl: "nextPageCursor now session k n d = (r, d1) \<Longrightarrow> d_freshnessTTL d1 = d_freshnessTTL d"
  using config_storeLoop [of 4 "\<lparr>cu_session = session, cu_page = k + 1\<rparr>" "purgeLocked now d"] config_purge [of now d]
  by (auto simp: nextPageCursor_def storeSnapshotCursor_def dir_config_def split: if_splits prod.splits option.splits)

lemma sendSnapshotPage_draws:
  fixes dp :: directoryPrims and rid :: string and b :: u8
  assumes "map_of (d_keys d) c = Some material" "k < length (splitDirectorySnapshotPages (ss_speakers session))"
    and cursor: "nextPageCursor (clock AtStore) session k (length (splitDirectorySnapshotPages (ss_speakers session))) d = (Some nc, d1)"
    and "32 \<le> length (d_entropy d1)"
  defines "x \<equiv> pageResponse dp clock c material rid b d1" and "d3 \<equiv> d1\<lparr>d_entropy := drop 16 (drop 16 (d_entropy d1))\<rparr>"
    and "pg \<equiv> \<lparr>pg_Index = k, pg_Count = length (splitDirectorySnapshotPages (ss_speakers session)), pg_NextCursor = nc\<rparr>"
  shows "sendSnapshotPage dp clock c rid session k addr b d =
    (case packDirectorySnapshotRows (snapshotEncode x session pg) (fragmentFits ''snapshot'' x)
            (splitDirectorySnapshotPages (ss_speakers session) ! k) of
       Inl _ \<Rightarrow> sendError dp clock c rid ''RESPONSE_TOO_LARGE'' addr b d3
     | Inr groups \<Rightarrow>
         (case sealGroups (\<lambda>i g. snapshotEncode x session pg i (length groups) (Some g)) (sealFragment ''snapshot'' x) 0 groups of
            Inl EncodeFailed \<Rightarrow> d3
          | Inl SealFailed \<Rightarrow> sendError dp clock c rid ''RESPONSE_TOO_LARGE'' addr b d3
          | Inr datagrams \<Rightarrow> sendDatagrams (clock AtBudget) datagrams addr d3))"
proof -
  let ?d2 = "d1\<lparr>d_entropy := drop 16 (d_entropy d1)\<rparr>"
  have draws: "randomID d1 = (Some (take 16 (d_entropy d1)), ?d2)"
    "randomIDText ?d2 = (Some (b64Encode (take 16 (drop 16 (d_entropy d1)))), d3)"
    using assms(4) randomID_enough [of d1] randomIDText_enough [of ?d2] by (simp_all add: d3_def)
  show ?thesis
    using assms(1,2) cursor draws
    unfolding x_def pg_def pageResponse_def nextPageCursor_ttl [OF cursor] by (simp add: sendSnapshotPage_def Let_def)
qed

text \<open>
  C31. A page of a snapshot is sent whole or refused. For a page with speakers, either the fragments sent hold exactly
  the page's speakers in order, at most 32 of them, each sealed with its own sequence and the final count, the
  channel's row being in the first one only; or the one answer is the error that the response is too large.
\<close>

theorem snapshot_page_whole:
  assumes "seals_sized dp" "map_of (d_keys d) c = Some material" "length rid \<le> 22" "b \<in> {0, 1}"
    and "k < length (splitDirectorySnapshotPages (ss_speakers session))" "ss_speakers session \<noteq> []"
    and "nextPageCursor (clock AtStore) session k (length (splitDirectorySnapshotPages (ss_speakers session))) d = (Some nc, d1)"
    and "32 \<le> length (d_entropy d1)" "clock_range (clock AtIssue) (d_freshnessTTL d)" "budget_free (clock AtBudget) d1"
  defines "x \<equiv> pageResponse dp clock c material rid b d1" and "d3 \<equiv> d1\<lparr>d_entropy := drop 16 (drop 16 (d_entropy d1))\<rparr>"
    and "pg \<equiv> \<lparr>pg_Index = k, pg_Count = length (splitDirectorySnapshotPages (ss_speakers session)), pg_NextCursor = nc\<rparr>"
  shows "(\<exists>groups datagrams. concat groups = splitDirectorySnapshotPages (ss_speakers session) ! k \<and>
      1 \<le> length groups \<and> length groups \<le> 32 \<and> length datagrams = length groups \<and>
      (\<forall>i<length groups. length (datagrams ! i) \<le> 1200 \<and> sealFragment ''snapshot'' x i (bytes_of (marshalSnapshotPayload x session pg i
         (length groups) (if i = 0 then [ss_channel session] else []) (Some (groups ! i)))) = Some (datagrams ! i)) \<and>
      d_outbox (sendSnapshotPage dp clock c rid session k (Some a) b d) = d_outbox d1 @ map (\<lambda>g. (g, a)) datagrams) \<or>
    sendSnapshotPage dp clock c rid session k (Some a) b d = sendError dp clock c rid ''RESPONSE_TOO_LARGE'' (Some a) b d3"
proof -
  let ?rs = "splitDirectorySnapshotPages (ss_speakers session) ! k"
  have ok: "response_ok x"
    unfolding x_def pageResponse_def using assms(1,3,4,8,9) nextPageCursor_ttl [OF assms(7)]
    by (intro newResponse_ok) (simp_all add: length_b64Encode)
  have "?rs \<in> set (splitPages (ss_speakers session))" using assms(5,6) by (auto simp: splitDirectorySnapshotPages_def)
  then have ne: "?rs \<noteq> []" using splitPages_bound by blast
  note page = sendSnapshotPage_draws [where clock = clock and dp = dp and rid = rid and b = b and addr = "Some a", OF assms(2,5,7,8),
      folded x_def d3_def pg_def]
  show ?thesis
  proof (cases "packDirectorySnapshotRows (snapshotEncode x session pg) (fragmentFits ''snapshot'' x) ?rs")
    case (Inl e)
    then show ?thesis using page by simp
  next
    case (Inr groups)
    note g = snapshot_pack [OF ok ne Inr]
    have "fitting (\<lambda>h. snapshotEncode x session pg (0 + i) (length groups) (Some h)) (\<lambda>p. sealFragment ''snapshot'' x (0 + i) p \<noteq> None)
        (groups ! i)" if "i < length groups" for i
      using g(4) [OF that] by (simp add: fragmentFits_def fitting_def)
    from sealGroups_all [where encode = "\<lambda>i h. snapshotEncode x session pg i (length groups) (Some h)" and
        seal = "sealFragment ''snapshot'' x", OF this]
    obtain datagrams where s: "sealGroups (\<lambda>i h. snapshotEncode x session pg i (length groups) (Some h)) (sealFragment ''snapshot'' x) 0
        groups = Inr datagrams" "length datagrams = length groups"
      "\<forall>i<length groups. sealFragment ''snapshot'' x i (bytes_of (marshalSnapshotPayload x session pg i
         (length groups) (if i = 0 then [ss_channel session] else []) (Some (groups ! i)))) = Some (datagrams ! i)"
      by (auto simp: snapshotEncode_def)
    have "budget_free (clock AtBudget) d3" using assms(10) by (simp add: budget_free_def d3_def)
    then have "d_outbox (sendSnapshotPage dp clock c rid session k (Some a) b d) = d_outbox d1 @ map (\<lambda>g. (g, a)) datagrams"
      using page Inr s(1,2) g(2,3) sendDatagrams_free [of "clock AtBudget" d3 datagrams a] by (simp add: d3_def)
    with g s show ?thesis using sealFragment_size by blast
  qed
qed

subsection \<open>Names that cannot be sent\<close>

lemma jsonEscape_long: "length s \<le> length (jsonEscape s)"
proof (induction s rule: jsonEscape.induct)
  case (2 c cs)
  have "1 \<le> length (escapeChar c)" by (simp add: escapeChar_def)
  with 2 show ?case by (auto split: if_splits)
qed simp

lemma decimal_pos: "1 \<le> length (decimal n)"
  by (subst decimal.simps) simp

text \<open>The first fragment of a snapshot is larger than a datagram if the name of its channel has 512 bytes.\<close>

lemma first_fragment_too_large:
  assumes "response_ok x" "length (rs_requestID x) = 22" "length (ss_revision session) = 64" "512 \<le> length (dc_Name (ss_channel session))"
  shows "\<not> fragmentFits ''snapshot'' x 0 n (bytes_of (marshalSnapshotPayload x session p 0 n' [ss_channel session] sp))"
proof -
  let ?m = "marshalSnapshotPayload x session p 0 n' [ss_channel session] sp"
  have "512 \<le> length (jsonEscape (dc_Name (ss_channel session)))" using jsonEscape_long assms(4) le_trans by blast
  moreover have "2 \<le> length (case sp of None \<Rightarrow> ''null'' | Some rs \<Rightarrow> jsonArray (map marshalSpeakerRow rs))"
    by (auto simp: jsonArray_def split: option.split)
  moreover have "2 \<le> length (case pg_NextCursor p of None \<Rightarrow> ''null'' | Some c \<Rightarrow> quoted c)"
    by (auto simp: quoted_def split: option.split)
  moreover have "length (rs_responseID x) = 22" using assms(1) by (simp add: response_ok_def)
  ultimately have "830 \<le> length ?m"
    using assms(2,3) decimal_pos [of "unat (rs_issuedAt x)"] decimal_pos [of "unat (rs_expiresAt x)"] decimal_pos [of n']
      decimal_pos [of 0] decimal_pos [of 3] decimal_pos [of "pg_Index p"] decimal_pos [of "pg_Count p"]
      decimal_pos [of "unat (dc_ChannelID (ss_channel session))"]
    by (auto simp: marshalSnapshotPayload_def marshalPage_def marshalChannelRow_def payload_defs)
  then have "(4 * 830 + 66) div 3 \<le> (4 * length (bytes_of ?m) + 66) div 3" by (intro div_le_mono) simp
  then show ?thesis
    using fragmentFits_iff [OF assms(1), of "''snapshot''" 0 n "bytes_of ?m"]
      decimal_pos [of "unat (rs_channelID x)"] decimal_pos [of "unat (rs_expiresAt x)"] decimal_pos [of 1]
    by (simp add: isDirectoryRelayType_def envelopeSize_def)
qed

lemma long_name_pack:
  assumes "response_ok x" "length (rs_requestID x) = 22" "length (ss_revision session) = 64" "512 \<le> length (dc_Name (ss_channel session))"
  shows "rs \<noteq> [] \<Longrightarrow> packDirectorySnapshotRows (snapshotEncode x session p) (fragmentFits ''snapshot'' x) rs = Inl PackChannel"
    and "sealGroups (\<lambda>i g. snapshotEncode x session p i n (Some g)) (sealFragment ''snapshot'' x) 0 [[]] = Inl SealFailed"
proof -
  note big = first_fragment_too_large [OF assms]
  show "packDirectorySnapshotRows (snapshotEncode x session p) (fragmentFits ''snapshot'' x) rs = Inl PackChannel" if ne: "rs \<noteq> []"
  proof -
    obtain r rest where "rs = r # rest" using ne by (cases rs) auto
    then have "fillGroup (\<lambda>g. snapshotEncode x session p 0 32 (Some g)) (fragmentFits ''snapshot'' x 0 32) [] rs = Inr []"
      using big by (simp add: snapshotEncode_def)
    with ne show ?thesis
      using big by (simp add: packDirectorySnapshotRows_def packSnapshotGroups.simps snapshotEncode_def)
  qed
  show "sealGroups (\<lambda>i g. snapshotEncode x session p i n (Some g)) (sealFragment ''snapshot'' x) 0 [[]] = Inl SealFailed"
    using big [of n p n "Some []"] by (simp add: snapshotEncode_def fragmentFits_def)
qed

text \<open>
  Some valid names can never be sent. If the name of a channel has 512 bytes or more, which 128 code points can have,
  then every page of every snapshot of the channel is answered with the error that the response is too large,
  also the channel's row alone.
\<close>

theorem long_name_refused:
  assumes "seals_sized dp" "map_of (d_keys d) c = Some material" "length rid = 22" "b \<in> {0, 1}"
    and "k < length (splitDirectorySnapshotPages (ss_speakers session))"
    and "nextPageCursor (clock AtStore) session k (length (splitDirectorySnapshotPages (ss_speakers session))) d = (Some nc, d1)"
    and "32 \<le> length (d_entropy d1)" "clock_range (clock AtIssue) (d_freshnessTTL d)"
    and "length (ss_revision session) = 64" "512 \<le> length (dc_Name (ss_channel session))"
  shows "sendSnapshotPage dp clock c rid session k addr b d =
    sendError dp clock c rid ''RESPONSE_TOO_LARGE'' addr b (d1\<lparr>d_entropy := drop 16 (drop 16 (d_entropy d1))\<rparr>)"
proof -
  let ?x = "pageResponse dp clock c material rid b d1"
  have ok: "response_ok ?x"
    unfolding pageResponse_def using assms(1,3,4,7,8) nextPageCursor_ttl [OF assms(6)]
    by (intro newResponse_ok) (simp_all add: length_b64Encode)
  have rid: "length (rs_requestID ?x) = 22" using assms(3) by (simp add: pageResponse_def newResponse_def)
  note long = long_name_pack [OF ok rid assms(9,10)]
  note page = sendSnapshotPage_draws [where clock = clock and dp = dp and rid = rid and b = b and addr = addr, OF assms(2,5,6,7)]
  show ?thesis
  proof (cases "splitDirectorySnapshotPages (ss_speakers session) ! k = []")
    case True
    then show ?thesis unfolding page by (simp add: packDirectorySnapshotRows_def long(2) del: sealGroups.simps)
  next
    case False
    then show ?thesis unfolding page by (simp add: long(1))
  qed
qed

end
