(* ===== verification/Directory_Limits.thy ===== *)
theory Directory_Limits
  imports Directory_Replies
begin

text \<open>
  Further properties of the Directory: what a configuration that loads is made of, how registrations come about and
  are kept, and two limits of the design: a datagram that is opened before its expiry and committed after it is
  not protected against replay, and a paging cursor is not bound to the channel it was issued for.
\<close>

subsection \<open>Configuration\<close>

text \<open>
  A configuration that loads is well-formed: every channel key has 32 bytes that are not all zero and its
  directional keys are derived from it; channels and keys are the same; every channel and speaker is filed under its
  own numbers with a valid name, every speaker's channel is configured, sender numbers are not zero; and the limits
  of channels, speaker rows and freshness hold.
\<close>

theorem directory_config_wellformed:
  assumes "newDirectoryV3 pr readCSV entropy config = Inr (Some d)"
  shows "(\<forall>c k. map_of (d_keys d) c = Some k \<longrightarrow> length (dk_channel k) = 32 \<and> (\<exists>b\<in>set (dk_channel k). b \<noteq> 0) \<and>
      newDirectoryKeyMaterial pr (dk_channel k) = Some k) \<and>
    dom (map_of (d_keys d)) = dom (map_of (md_channels (d_metadata d))) \<and>
    (\<forall>c r. map_of (md_channels (d_metadata d)) c = Some r \<longrightarrow> dc_ChannelID r = c \<and> validDirectoryName (dc_Name r)) \<and>
    (\<forall>c n r. map_of (speakersOf (d_metadata d) c) n = Some r \<longrightarrow>
      map_of (md_channels (d_metadata d)) c \<noteq> None \<and> ds_ChannelID r = c \<and> ds_SenderID r = n \<and> n \<noteq> 0 \<and> validDirectoryName (ds_Name r)) \<and>
    speakerRowsOf (d_metadata d) \<le> 4096 \<and> Second \<le> d_freshnessTTL d \<and> d_freshnessTTL d \<le> 90 * Second"
proof -
  note config = newDirectory_config [OF assms]
  have keys: "\<forall>c k. map_of (d_keys d) c = Some k \<longrightarrow> length (dk_channel k) = 32 \<and> (\<exists>b\<in>set (dk_channel k). b \<noteq> 0) \<and>
      newDirectoryKeyMaterial pr (dk_channel k) = Some k"
    using config(1) by (auto simp: keys_wf_def dest!: map_of_SomeD)
  have channels: "\<forall>c r. map_of (md_channels (d_metadata d)) c = Some r \<longrightarrow> dc_ChannelID r = c \<and> validDirectoryName (dc_Name r)"
    using config(2) by (auto simp: metadata_wf_def channels_wf_def dest!: map_of_SomeD)
  have speakers: "\<forall>c n r. map_of (speakersOf (d_metadata d) c) n = Some r \<longrightarrow>
      map_of (md_channels (d_metadata d)) c \<noteq> None \<and> ds_ChannelID r = c \<and> ds_SenderID r = n \<and> n \<noteq> 0 \<and> validDirectoryName (ds_Name r)"
  proof (intro allI impI)
    fix c n r assume r: "map_of (speakersOf (d_metadata d) c) n = Some r"
    then obtain t where "map_of (md_speakers (d_metadata d)) c = Some t" by (cases "map_of (md_speakers (d_metadata d)) c") (auto simp: speakersOf_def)
    then have "map_of (md_channels (d_metadata d)) c \<noteq> None" using config(2) by (auto simp: metadata_wf_def dest!: map_of_SomeD)
    with speakers_wf_speakersOf [OF config(2), of c] map_of_SomeD [OF r]
    show "map_of (md_channels (d_metadata d)) c \<noteq> None \<and> ds_ChannelID r = c \<and> ds_SenderID r = n \<and> n \<noteq> 0 \<and> validDirectoryName (ds_Name r)"
      by (auto simp: speakers_wf_def)
  qed
  have "speakerRowsOf (d_metadata d) \<le> 4096 \<and> Second \<le> d_freshnessTTL d \<and> d_freshnessTTL d \<le> 90 * Second"
    using config by simp
  with keys channels speakers config(3) show ?thesis by blast
qed

subsection \<open>Registrations\<close>

lemma registrations_accept: "acceptSequence opened d = Some d' \<Longrightarrow> d_registrations d' = d_registrations d"
  by (erule acceptSequence_Some) simp

text \<open>
  Registrations, exactly: what is registered after a datagram was committed was registered and unexpired before, or
  this datagram registered it, with the endpoint and the transport it came over, or this datagram is a heartbeat that came
  over the transport and from the endpoint of a registration that was not expired. In the last two cases its sequence
  was fresh and the registration lasts 90 seconds from now.
\<close>

theorem registration_exact:
  assumes "dir_inv d" "map_of (d_registrations (snd (commitInbound now opened addr d))) key = Some r"
  shows "map_of (d_registrations d) key = Some r \<and> now < rg_deadline r \<or>
    acceptSequence opened (purgeLocked now d) \<noteq> None \<and> registrationKeyFor opened = Some key \<and>
      rg_deadline r = now + 90 * Second \<and> rg_binding r = do_binding opened \<and>
      (de_Type (do_envelope opened) = ''register'' \<and> rg_addr r = addr \<or>
       de_Type (do_envelope opened) = ''heartbeat'' \<and> sameUDPEndpoint (rg_addr r) addr \<and>
         (\<exists>r0. map_of (d_registrations d) key = Some r0 \<and> now < rg_deadline r0 \<and> rg_addr r0 = rg_addr r))"
proof -
  let ?d1 = "purgeLocked now d"
  have old: "map_of (d_registrations ?d1) k = Some r0 \<longleftrightarrow> map_of (d_registrations d) k = Some r0 \<and> now < rg_deadline r0" for k r0
  proof -
    have "gomap_wf (d_registrations d)" using assms(1) by (simp add: dir_inv_def)
    then show ?thesis
      by (cases "map_of (d_registrations d) k") (auto simp: purgeLocked_def map_of_prune simp del: map_of_eq_Some_iff)
  qed
  show ?thesis
  proof (cases "acceptSequence opened ?d1")
    case None
    with assms(2) show ?thesis by (simp add: commitInbound_def Let_def old)
  next
    case (Some d2)
    note same = registrations_accept [OF Some]
    have r: "map_of (d_registrations (if de_Type (do_envelope opened) = ''register'' then commitRegister now opened addr d2
        else if de_Type (do_envelope opened) = ''heartbeat'' then commitHeartbeat now opened addr d2 else d2)) key = Some r"
      using assms(2) Some by (auto simp: commitInbound_def Let_def split: if_splits)
    show ?thesis
    proof (cases "map_of (d_registrations ?d1) key = Some r")
      case True
      then show ?thesis by (simp add: old)
    next
      case False
      with r Some old same show ?thesis
        by (auto simp: commitRegister_def commitHeartbeat_def cloneUDPAddr_def directoryRegistrationTTL_def
            split: if_splits option.splits)
    qed
  qed
qed

subsection \<open>Limits\<close>

text \<open>
  A datagram is not protected beyond its expiry. Its expiry is checked when it is opened, by an earlier reading of
  the clock than the one the commit purges the replay records with: a request that is committed at or after its expiry
  finds no record of its first use and is answered a second time.
\<close>

theorem replay_after_expiry:
  assumes "dir_inv d" "de_Type (do_envelope opened) = ''request''"
    and "map_of (d_replay (purgeLocked now d)) (directoryReplayKeyFor opened) = None" "length (d_replay (purgeLocked now d)) < 1024"
    and "0 \<le> sint (de_ExpiresAt (do_envelope opened))" "time_Unix (sint (de_ExpiresAt (do_envelope opened))) \<le> now2"
  shows "fst (commitInbound now opened addr d) = do_request opened \<and>
    fst (commitInbound now2 opened addr2 (snd (commitInbound now opened addr d))) = do_request opened"
proof -
  let ?k = "directoryReplayKeyFor opened" and ?x = "time_Unix (sint (de_ExpiresAt (do_envelope opened)))"
  have accepts: "acceptSequence opened e = Some (e\<lparr>d_replay := AList.update ?k \<lparr>rp_state = \<lparr>dr_initialized = True,
      dr_highest = de_Sequence (do_envelope opened), dr_seen = 1\<rparr>, rp_expires = ?x\<rparr> (d_replay e)\<rparr>)"
    if "map_of (d_replay e) ?k = None" "length (d_replay e) < 1024" for e
    using that assms(5)
    by (auto simp: acceptSequence_def Let_def directoryReplayAccept_def zeroDirectoryReplayState_def time_Unix_def unixEpoch_def
        Second_def not_less)
  define d1 where "d1 = snd (commitInbound now opened addr d)"
  have first: "commitInbound now opened addr d = (do_request opened, d1)"
    and replay: "d_replay d1 = AList.update ?k \<lparr>rp_state = \<lparr>dr_initialized = True, dr_highest = de_Sequence (do_envelope opened),
      dr_seen = 1\<rparr>, rp_expires = ?x\<rparr> (d_replay (purgeLocked now d))"
    unfolding d1_def using assms(2) accepts [OF assms(3,4)] by (simp_all add: commitInbound_def Let_def)
  have inv: "dir_inv d1" using inv_commit [OF assms(1), of now opened addr] by (simp add: d1_def)
  then have "map_of (d_replay (purgeLocked now2 d1)) ?k = None"
    using replay assms(6) by (simp add: purgeLocked_def dir_inv_def map_of_prune del: map_of_eq_Some_iff)
  moreover obtain rec where "(?k, rec) \<in> set (d_replay d1)" "rp_expires rec = ?x"
    using replay map_of_SomeD [of "d_replay d1" ?k] by fastforce
  then have "length (d_replay (purgeLocked now2 d1)) < length (d_replay d1)"
    using assms(6) by (auto simp: purgeLocked_def prune_def intro!: length_filter_less)
  ultimately have "fst (commitInbound now2 opened addr2 d1) = do_request opened"
    using assms(2) accepts [of "purgeLocked now2 d1"] inv by (simp add: commitInbound_def Let_def dir_inv_def)
  then show ?thesis unfolding first by simp
qed

text \<open>
  A paging cursor is not bound to a channel. Whoever presents it with a request under the key of any configured channel
  \<open>c\<close> is answered under that channel's key with the page the cursor stands for, also when the page belongs to another
  channel.
\<close>

theorem cursor_crosses_channels:
  assumes "gomap_wf (d_cursors d)" "map_of (d_cursors d) cursor = Some e" "dc_ChannelID (ss_channel (cu_session e)) \<noteq> c"
    and "clock AtPurge < ss_expires (cu_session e)" "clock AtSession < ss_expires (cu_session e)" "dq_Cursor request = Some cursor"
  shows "sendSnapshot dp clock c request addr b d =
    sendSnapshotPage dp clock c (dq_RequestID request) (cu_session e) (cu_page e) addr b (snd (takeCursor (clock AtPurge) cursor d))"
proof -
  have "map_of (d_cursors (purgeLocked (clock AtPurge) d)) cursor = Some e"
    using assms(1,2,4) by (simp add: purgeLocked_def map_of_prune)
  then show ?thesis using assms(5,6) by (simp add: sendSnapshot_def sendSnapshotCursor_def takeCursor_def Let_def)
qed

end
