(* ===== verification/Directory_Examples.thy ===== *)
theory Directory_Examples
  imports Directory_Limits
begin

text \<open>
  A small Directory: one channel, two speakers, a client's request. Each property of the Directory that has hypotheses
  is applied to it.
\<close>

subsection \<open>A configuration\<close>

definition demoCSV :: "string \<Rightarrow> string list list option" where
  "demoCSV path =
     (if path = ''keys'' then Some [[''channel_id'', ''Directory_Channel_Key_base64url''], ['' 111 '', b64Encode (replicate 32 1)]]
      else if path = ''channels'' then Some [[''111'', ''Operations'']]
      else if path = ''speakers'' then Some [[''111'', ''7'', ''Alice''], [''All'', ''9'', ''Guest'']]
      else None)"

definition demoDirectoryConfig :: directoryV3Config where
  "demoDirectoryConfig = \<lparr>dcf_Enabled = True, dcf_Transport = ''Dedicated-UDP'', dcf_KeyFile = ''keys'', dcf_ChannelsCSV = ''channels'',
     dcf_SpeakersCSV = ''speakers'', dcf_hasConn = True, dcf_PublishInterval = 0, dcf_FreshnessTTL = 0,
     dcf_hasParticipants = True, dcf_permitted = True\<rparr>"

definition demoDirectoryKey :: directoryKeyMaterial where
  "demoDirectoryKey = the (newDirectoryKeyMaterial demoPrims (replicate 32 1))"

definition demoMetadata :: directoryMetadata where
  "demoMetadata = \<lparr>md_channels = [(111, \<lparr>dc_ChannelID = 111, dc_Name = ''Operations''\<rparr>)],
     md_speakers = [(111, [(7, \<lparr>ds_ChannelID = 111, ds_SenderID = 7, ds_Name = ''Alice''\<rparr>)])],
     md_fallback = [(9, \<lparr>ds_ChannelID = 0, ds_SenderID = 9, ds_Name = ''Guest''\<rparr>)]\<rparr>"

definition demoDirService :: directoryV3 where
  "demoDirService = \<lparr>d_keys = [(111, demoDirectoryKey)], d_metadata = demoMetadata, d_transport = DedicatedUDP,
     d_publishEvery = 30 * Second, d_freshnessTTL = 90 * Second, d_jobs = [], d_registrations = [], d_replay = [],
     d_cursors = [], d_preauth = [], d_responseRate = zeroRate, d_entropy = replicate 96 5, d_outbox = []\<rparr>"

lemma demo_texts:
  "blankText ''keys'' = False" "blankText ''channels'' = False" "blankText ''speakers'' = False"
  by code_simp+

lemma demo_headers:
  "isDirectoryHeader [''channel_id'', ''Directory_Channel_Key_base64url''] [''channel_id'', ''directory_channel_key_base64url'']"
  "\<not> isDirectoryHeader [''111'', ''Operations''] [''channel_id'', ''name'']"
  "\<not> isDirectoryHeader [''111'', ''7'', ''Alice''] [''channel_id'', ''sender_id'', ''name'']"
  by code_simp+

lemma demo_trims: "TrimSpace '' 111 '' = ''111''" "TrimSpace ''111'' = ''111''" "TrimSpace ''7'' = ''7''" "TrimSpace ''9'' = ''9''"
  by code_simp+

lemma demo_numbers:
  "parseDirectoryU32 '' 111 '' False = Some 111" "parseDirectoryU32 ''111'' False = Some 111"
  "parseDirectoryU32 ''7'' True = Some 7" "parseDirectoryU32 ''9'' True = Some 9"
  by (simp_all add: parseDirectoryU32_def demo_trims isDigit_def digitsValue_def)

lemma demo_names: "validDirectoryName ''Operations''" "validDirectoryName ''Alice''" "validDirectoryName ''Guest''"
  by code_simp+

lemma demo_all: "\<not> EqualFold (TrimSpace ''111'') ''all''" "EqualFold (TrimSpace ''All'') ''all''"
  by code_simp+

lemma demo_material: "newDirectoryKeyMaterial demoPrims (replicate 32 1) = Some demoDirectoryKey"
proof -
  obtain k where "newDirectoryKeyMaterial demoPrims (replicate 32 1) = Some k"
    by (rule newDirectoryKeyMaterial_Some [OF demoPrims_hmac, of "replicate 32 1"]) simp_all
  then show ?thesis by (simp add: demoDirectoryKey_def)
qed

lemma demo_keys: "loadDirectoryKeyStore demoPrims demoCSV True ''keys'' = Inr [(111, demoDirectoryKey)]"
  by (simp add: loadDirectoryKeyStore_def demo_texts demoCSV_def dropHeader_def demo_headers demo_numbers TrimSpace_text
      b64Decode_Encode demo_material list_all_iff)

lemma demo_metadata: "loadDirectoryMetadata demoCSV ''channels'' ''speakers'' = Inr demoMetadata"
  by (simp add: loadDirectoryMetadata_def demo_texts demoCSV_def dropHeader_def demo_headers demo_numbers demo_names demo_all
      speakersOf_def demoMetadata_def)

lemma demo_transport: "parseDirectoryTransport ''Dedicated-UDP'' = Some DedicatedUDP"
  by code_simp

lemma demo_new: "newDirectoryV3 demoPrims demoCSV (replicate 96 5) demoDirectoryConfig = Inr (Some demoDirService)"
  by (simp add: newDirectoryV3_def demoDirectoryConfig_def demo_keys demo_metadata demo_transport demoDirService_def demoMetadata_def
      directoryDefaultPublishInterval_def directoryDefaultFreshnessTTL_def directoryMaxFreshnessTTL_def Second_def)

theorem directory_config_wellformed_witness:
  "length (dk_channel demoDirectoryKey) = 32 \<and> newDirectoryKeyMaterial demoPrims (dk_channel demoDirectoryKey) = Some demoDirectoryKey"
proof -
  have "map_of (d_keys demoDirService) 111 = Some demoDirectoryKey" by (simp add: demoDirService_def)
  with directory_config_wellformed [OF demo_new] show ?thesis by blast
qed

theorem directory_safe_witness:
  "length (d_jobs (directory_enqueue 5 [1] (Some demoAddr) 0 demoDirService)) \<le> 32 \<and>
   length (splitDirectorySnapshotPages (resolvedSpeakers demoMetadata 111)) \<le> 133"
proof -
  have run: "steps dir_step demoDirService (directory_enqueue 5 [1] (Some demoAddr) 0 demoDirService)"
    by (rule steps_single) (auto simp: dir_step_def intro: sec_enqueue)
  have "d_metadata (directory_enqueue 5 [1] (Some demoAddr) 0 demoDirService) = demoMetadata"
    using config_steps [OF run] by (simp add: dir_config_def demoDirService_def)
  with directory_safe [OF demo_new run] show ?thesis by metis
qed

theorem resolvedSpeakers_exact_witness:
  "\<lparr>ds_ChannelID = 111, ds_SenderID = 9, ds_Name = ''Guest''\<rparr> \<in> set (resolvedSpeakers demoMetadata 111)"
proof -
  have "metadata_wf demoMetadata" using loadDirectoryMetadata_wf(1) [OF demo_metadata] .
  from resolvedSpeakers_exact(2) [OF this, of "\<lparr>ds_ChannelID = 111, ds_SenderID = 9, ds_Name = ''Guest''\<rparr>" 111]
  show ?thesis by (simp add: demoMetadata_def speakersOf_def)
qed

subsection \<open>A request\<close>

text \<open>The decoder of the envelope knows one request, sealed for the dedicated transport.\<close>

definition demoSealed :: directoryEnvelope where
  "demoSealed = demoEnvelope (b64Encode (demoTag (directoryAAD (demoEnvelope []) demoEpoch 0)))"

definition demoServicePrims :: directoryPrims where
  "demoServicePrims = demoDirectory\<lparr>dp_envelope := (\<lambda>_. Some (presentEnvelope demoSealed))\<rparr>"

definition demoRequest :: directoryRequestPayload where
  "demoRequest = \<lparr>dq_Version = 3, dq_IssuedAt = 1700000000, dq_ExpiresAt = 1700000010,
     dq_RequestID = b64Encode (replicate 16 0), dq_Resource = ''participants'', dq_Cursor = None\<rparr>"

definition demoOpened :: directoryOpenedDatagram where
  "demoOpened = \<lparr>do_envelope = demoSealed, do_epoch = demoEpoch, do_binding = 0, do_request = Some demoRequest,
     do_registration = None\<rparr>"

lemma demoSealed_fields:
  "de_Version demoSealed = 3" "de_Type demoSealed = ''request''" "de_ChannelID demoSealed = 111" "de_Sequence demoSealed = 1"
  "de_ExpiresAt demoSealed = 1700000010" "de_Epoch demoSealed = b64Encode demoEpoch"
  "de_Ciphertext demoSealed = b64Encode (demoTag (directoryAAD (demoEnvelope []) demoEpoch 0))"
  "directoryAAD demoSealed demoEpoch b = directoryAAD (demoEnvelope []) demoEpoch b"
  by (simp_all add: demoSealed_def demoEnvelope_def directoryAAD_def)

lemma demo_seals_sized: "seals_sized demoServicePrims"
  using demo_gcm(2) by (simp add: seals_sized_def demoServicePrims_def demoDirectory_def demoPrims_hmac demoTag_def)

lemma demo_opens:
  "openDirectoryDatagram demoServicePrims [1] 0 (d_keys demoDirService) (time_Unix 1700000001) = Inr demoOpened"
proof -
  obtain key where key: "directoryEpochKey demoPrims (dk_c2r demoDirectoryKey) demoEpoch = Some key" "length key = 32"
    using directoryEpochKey_32 [OF demoPrims_hmac] .
  have check: "checkEnvelope demoServicePrims [1] 0 (time_Unix 1700000001) = Inr (demoSealed, demoEpoch)"
    by (simp add: checkEnvelope_def acceptsUDPDatagramSize_def demoServicePrims_def demoSealed_fields isDirectoryClientType_def
        decodeCanonicalDirectoryID_encode demoEpoch_def)
  have decrypt: "decryptEnvelope demoServicePrims (d_keys demoDirService) 0 demoSealed demoEpoch = Inr []"
    using key by (simp add: decryptEnvelope_def demoDirService_def demoServicePrims_def demoDirectory_def demoSealed_fields
        b64Decode_Encode demoTag_def)
  have request: "openRequest demoServicePrims 1700000010 (time_Unix 1700000001) [] = Inr demoRequest"
    by (simp add: openRequest_def demoServicePrims_def demoDirectory_def demoRequestInput_def validateDirectoryClientPayload_def
        decodeCanonicalDirectoryID_encode openCursor_def demoRequest_def)
  show ?thesis by (simp add: openDirectoryDatagram_def check decrypt request demoSealed_fields demoOpened_def)
qed

theorem directory_open_sound_witness:
  "(\<exists>material key ciphertext plaintext. map_of (d_keys demoDirService) 111 = Some material \<and>
      directoryEpochKey demoPrims (dk_c2r material) demoEpoch = Some key \<and> b64Decode (de_Ciphertext demoSealed) = Some ciphertext \<and>
      gcm_Open demoServicePrims key (directoryNonce 1) ciphertext (directoryAAD demoSealed demoEpoch 0) = Some plaintext) \<and>
   do_request demoOpened \<noteq> None"
proof -
  have parts: "do_envelope demoOpened = demoSealed" "do_epoch demoOpened = demoEpoch" "dp_prims demoServicePrims = demoPrims"
    by (simp_all add: demoOpened_def demoServicePrims_def demoDirectory_def)
  show ?thesis
    using directory_open_sound [OF demo_opens] unfolding parts demoSealed_fields(2-4) by simp
qed

lemma demo_fresh: "acceptSequence demoOpened (purgeLocked now demoDirService) \<noteq> None"
  by (simp add: acceptSequence_def Let_def purgeLocked_def demoDirService_def directoryReplayAccept_def zeroDirectoryReplayState_def
      prune_def)

lemma demo_inv: "dir_inv demoDirService"
  by (rule inv_newDirectory [OF demo_new])

lemma demo_expiry: "time_Unix (sint (de_ExpiresAt (do_envelope demoOpened))) = time_Unix 1700000010"
  by (simp add: demoOpened_def demoSealed_fields)

theorem directory_no_replay_witness:
  "commitInbound (time_Unix 1700000003) demoOpened None
     (snd (commitInbound (time_Unix 1700000002) demoOpened (Some demoAddr) demoDirService)) =
   (None, purgeLocked (time_Unix 1700000003) (snd (commitInbound (time_Unix 1700000002) demoOpened (Some demoAddr) demoDirService)))"
proof (rule directory_no_replay [OF demo_inv demo_fresh steps_refl _ refl refl])
  show "time_Unix 1700000004 < time_Unix (sint (de_ExpiresAt (do_envelope demoOpened)))"
    unfolding demo_expiry by (simp add: time_Unix_def Second_def)
  show "time_Unix 1700000003 \<le> time_Unix 1700000004" by (simp add: time_Unix_def Second_def)
qed

theorem replay_after_expiry_witness:
  "fst (commitInbound (time_Unix 1700000011) demoOpened None
     (snd (commitInbound (time_Unix 1700000002) demoOpened (Some demoAddr) demoDirService))) = Some demoRequest"
proof -
  have "fst (commitInbound (time_Unix 1700000002) demoOpened (Some demoAddr) demoDirService) = do_request demoOpened \<and>
    fst (commitInbound (time_Unix 1700000011) demoOpened None
     (snd (commitInbound (time_Unix 1700000002) demoOpened (Some demoAddr) demoDirService))) = do_request demoOpened"
    by (rule replay_after_expiry [OF demo_inv])
      (simp_all add: demo_expiry, simp_all add: demoOpened_def demoSealed_fields purgeLocked_def demoDirService_def prune_def time_Unix_def Second_def)
  then show ?thesis by (simp add: demoOpened_def)
qed

text \<open>A clock that stands still.\<close>

definition demoClock :: directoryClock where
  "demoClock r = time_Unix 1700000001"

lemma demo_range: "clock_range (time_Unix 1700000001) (90 * Second)"
proof -
  have "time_Unix 1700000001 + 90 * Second = time_Unix 1700000091" by (simp add: time_Unix_def Second_def)
  then show ?thesis by (simp add: clock_range_def)
qed

lemma demo_free: "budget_free now demoDirService"
  by (simp add: budget_free_def demoDirService_def zeroRate_def IsZero_def)

text \<open>A Relay with one member on the channel.\<close>

definition demoMembers :: server where
  "demoMembers = setChan 111 demoChannel demoRelay"

lemma demo_members: "length (directoryParticipants now 111 demoMembers) \<le> 128"
proof -
  have "chan demoMembers 111 = Some demoChannel" by (simp add: demoMembers_def)
  moreover have "length (filter P (ch_peers demoChannel)) \<le> 128" for P
    using length_filter_le [of P "ch_peers demoChannel"] by (simp add: demoChannel_fields)
  ultimately show ?thesis by (simp add: directoryParticipants_def)
qed

theorem participants_request_answered_witness:
  "\<exists>datagrams. 1 \<le> length datagrams \<and> length datagrams \<le> 32 \<and>
     d_outbox (directory_handle demoServicePrims demoClock (\<lambda>c. directoryParticipants (time_Unix 1010) c demoMembers)
       \<lparr>jb_data = [1], jb_addr = Some demoAddr, jb_binding = 0\<rparr> demoDirService) = map (\<lambda>g. (g, demoAddr)) datagrams"
proof -
  let ?job = "\<lparr>jb_data = [1], jb_addr = Some demoAddr, jb_binding = 0\<rparr>"
  have opens: "openDirectoryDatagram demoServicePrims (jb_data ?job) (jb_binding ?job) (d_keys demoDirService) (demoClock AtOpen) = Inr demoOpened"
    using demo_opens by (simp add: demoClock_def)
  have few: "length (directoryParticipants (time_Unix 1010) (de_ChannelID (do_envelope demoOpened)) demoMembers) \<le> 128"
    using demo_members by (simp add: demoOpened_def demoSealed_fields)
  have request: "do_request demoOpened = Some demoRequest" "dq_Resource demoRequest = ''participants''" "jb_addr ?job = Some demoAddr"
    by (simp_all add: demoOpened_def demoRequest_def)
  have rest: "clock_range (demoClock AtIssue) (d_freshnessTTL demoDirService)" "32 \<le> length (d_entropy demoDirService)"
    "d_outbox demoDirService = []"
    using demo_range by (simp_all add: demoClock_def demoDirService_def)
  from participants_request_answered [where clock = demoClock, OF opens request(1,2) demo_fresh few request(3) demo_seals_sized rest(1,2) demo_free]
  obtain groups datagrams where
    "1 \<le> length groups" "length groups \<le> 32" "length datagrams = length (groups :: directoryParticipantRow list list)"
    "d_outbox (directory_handle demoServicePrims demoClock (\<lambda>c. directoryParticipants (time_Unix 1010) c demoMembers) ?job demoDirService) =
       d_outbox demoDirService @ map (\<lambda>g. (g, demoAddr)) datagrams" by blast
  then show ?thesis using rest(3) by (intro exI [of _ datagrams]) simp
qed

subsection \<open>Registration\<close>

definition demoRegister :: directoryOpenedDatagram where
  "demoRegister = \<lparr>do_envelope = demoSealed\<lparr>de_Type := ''register''\<rparr>, do_epoch = demoEpoch, do_binding = 0, do_request = None,
     do_registration = Some \<lparr>dg_Version = 3, dg_IssuedAt = 1700000000, dg_ExpiresAt = 1700000010,
       dg_InstanceID = b64Encode (replicate 16 4)\<rparr>\<rparr>"

theorem registration_exact_witness:
  "\<exists>r. map_of (d_registrations (snd (commitInbound (time_Unix 1700000002) demoRegister (Some demoAddr) demoDirService)))
       \<lparr>gk_channelID = 111, gk_instanceID = replicate 16 4\<rparr> = Some r \<and>
     rg_addr r = Some demoAddr \<and> rg_deadline r = time_Unix 1700000002 + 90 * Second"
proof -
  obtain r where r: "map_of (d_registrations (snd (commitInbound (time_Unix 1700000002) demoRegister (Some demoAddr) demoDirService)))
       \<lparr>gk_channelID = 111, gk_instanceID = replicate 16 4\<rparr> = Some r"
    by (simp add: commitInbound_def Let_def acceptSequence_def purgeLocked_def demoDirService_def directoryReplayAccept_def prune_def
        zeroDirectoryReplayState_def demoRegister_def demoSealed_fields commitRegister_def registrationKeyFor_def
        decodeCanonicalDirectoryID_encode)
  have "map_of (d_registrations demoDirService) \<lparr>gk_channelID = 111, gk_instanceID = replicate 16 4\<rparr> = None"
    by (simp add: demoDirService_def)
  with registration_exact [OF demo_inv r] have "rg_addr r = Some demoAddr \<and> rg_deadline r = time_Unix 1700000002 + 90 * Second"
    by (auto simp: demoRegister_def)
  with r show ?thesis by blast
qed

subsection \<open>Snapshots\<close>

definition demoSpeakers :: "directorySpeakerRow list" where
  "demoSpeakers = map (\<lambda>n. \<lparr>ds_ChannelID = 111, ds_SenderID = of_nat n, ds_Name = ''Alice''\<rparr>) [1..<41]"

definition demoSession :: "string \<Rightarrow> directorySnapshotSession" where
  "demoSession name = \<lparr>ss_channel = \<lparr>dc_ChannelID = 111, dc_Name = name\<rparr>, ss_speakers = demoSpeakers, ss_revision = replicate 64 (CHR ''a''),
     ss_expires = time_Unix 1700000030\<rparr>"

lemma demo_session:
  "ss_speakers (demoSession name) = demoSpeakers" "ss_expires (demoSession name) = time_Unix 1700000030"
  "ss_revision (demoSession name) = replicate 64 (CHR ''a'')" "dc_Name (ss_channel (demoSession name)) = name"
  "dc_ChannelID (ss_channel (demoSession name)) = 111" "length (splitDirectorySnapshotPages demoSpeakers) = 2" "demoSpeakers \<noteq> []"
  by (simp_all add: demoSession_def pages_of_snapshot(3)) (simp_all add: demoSpeakers_def)

lemma demo_clock: "demoClock r < time_Unix 1700000030"
  by (simp add: demoClock_def time_Unix_def Second_def)

lemma demo_material_of: "map_of (d_keys demoDirService) 111 = Some demoDirectoryKey"
  by (simp add: demoDirService_def)

theorem snapshot_chain_witness:
  "map_of (d_cursors (sendSnapshotPage demoServicePrims demoClock 111 [] (demoSession ''Operations'') 0 (Some demoAddr) 0 demoDirService))
     (b64Encode (replicate 16 5)) = Some \<lparr>cu_session = demoSession ''Operations'', cu_page = 1\<rparr>"
  using snapshot_chain [where d = demoDirService and c = 111 and k = 0 and session = "demoSession ''Operations''" and clock = demoClock and
      clock' = demoClock and dp = demoServicePrims and rid = "[]" and addr = "Some demoAddr" and b = 0, OF demo_material_of]
    demo_clock by (simp add: demo_session) (simp add: demoDirService_def purgeLocked_def prune_def)

lemma demo_last_page:
  "nextPageCursor now session (Suc 0) 2 demoDirService = (Some None, demoDirService)"
  by (simp add: nextPageCursor_def)

theorem snapshot_page_whole_witness:
  "(\<exists>datagrams. 1 \<le> length datagrams \<and> length datagrams \<le> 32 \<and>
      d_outbox (sendSnapshotPage demoServicePrims demoClock 111 [] (demoSession ''Operations'') 1 (Some demoAddr) 0 demoDirService) =
        map (\<lambda>g. (g, demoAddr)) datagrams) \<or>
   sendSnapshotPage demoServicePrims demoClock 111 [] (demoSession ''Operations'') 1 (Some demoAddr) 0 demoDirService =
     sendError demoServicePrims demoClock 111 [] ''RESPONSE_TOO_LARGE'' (Some demoAddr) 0
       (demoDirService\<lparr>d_entropy := drop 16 (drop 16 (d_entropy demoDirService))\<rparr>)"
proof -
  let ?s = "demoSession ''Operations''"
  have cursor: "nextPageCursor (demoClock AtStore) ?s 1 (length (splitDirectorySnapshotPages (ss_speakers ?s))) demoDirService = (Some None, demoDirService)"
    by (simp add: demo_session demo_last_page)
  have rest: "32 \<le> length (d_entropy demoDirService)" "clock_range (demoClock AtIssue) (d_freshnessTTL demoDirService)" "d_outbox demoDirService = []"
    using demo_range by (simp_all add: demoDirService_def demoClock_def)
  have page: "1 < length (splitDirectorySnapshotPages (ss_speakers ?s))" "ss_speakers ?s \<noteq> []" "length [] \<le> (22 :: nat)" "(0 :: u8) \<in> {0, 1}"
    by (simp_all add: demo_session)
  from snapshot_page_whole [where clock = demoClock, OF demo_seals_sized demo_material_of page(3,4,1,2) cursor rest(1,2) demo_free, of demoAddr]
  show ?thesis
    using rest(3) by (elim disjE exE conjE) (metis append_Nil, blast)
qed

text \<open>128 code points of four bytes.\<close>

definition wideName :: string where
  "wideName = concat (replicate 128 [CHR 0xF0, CHR 0x9F, CHR 0x98, CHR 0x80])"

lemma wideName_valid: "validDirectoryName wideName"
proof -
  have "utf8Count (bytes_of (concat (replicate n [CHR 0xF0, CHR 0x9F, CHR 0x98, CHR 0x80]))) = Some n" for n
    by (induction n) (simp_all add: bytes_of_def Let_def)
  then show ?thesis by (simp add: validDirectoryName_def wideName_def)
qed

lemma wideName_length: "length wideName = 512"
  by (simp add: wideName_def length_concat sum_list_replicate)

theorem long_name_refused_witness:
  "validDirectoryName wideName \<and>
   sendSnapshotPage demoServicePrims demoClock 111 (b64Encode (replicate 16 0)) (demoSession wideName) 1 (Some demoAddr) 0 demoDirService =
     sendError demoServicePrims demoClock 111 (b64Encode (replicate 16 0)) ''RESPONSE_TOO_LARGE'' (Some demoAddr) 0
       (demoDirService\<lparr>d_entropy := drop 16 (drop 16 (d_entropy demoDirService))\<rparr>)"
proof -
  let ?s = "demoSession wideName"
  have "nextPageCursor (demoClock AtStore) ?s 1 (length (splitDirectorySnapshotPages (ss_speakers ?s))) demoDirService = (Some None, demoDirService)"
    by (simp add: demo_session demo_last_page)
  moreover have "32 \<le> length (d_entropy demoDirService)" "clock_range (demoClock AtIssue) (d_freshnessTTL demoDirService)"
    using demo_range by (simp_all add: demoDirService_def demoClock_def)
  moreover have "length (b64Encode (replicate 16 0)) = 22" by (simp add: length_b64Encode)
  ultimately show ?thesis
    using long_name_refused [where clock = demoClock and k = 1 and session = ?s and d = demoDirService and b = 0 and
        rid = "b64Encode (replicate 16 0)" and addr = "Some demoAddr", OF demo_seals_sized demo_material_of] wideName_valid
    by (simp add: demo_session wideName_length)
qed

theorem cursor_crosses_channels_witness:
  "sendSnapshot demoServicePrims demoClock 222 (demoRequest\<lparr>dq_Resource := ''snapshot'', dq_Cursor := Some ''x''\<rparr>) (Some demoAddr) 0
     (demoDirService\<lparr>d_cursors := [(''x'', \<lparr>cu_session = demoSession ''Operations'', cu_page = 1\<rparr>)]\<rparr>) =
   sendSnapshotPage demoServicePrims demoClock 222 (b64Encode (replicate 16 0)) (demoSession ''Operations'') 1 (Some demoAddr) 0
     (snd (takeCursor (demoClock AtPurge) ''x''
       (demoDirService\<lparr>d_cursors := [(''x'', \<lparr>cu_session = demoSession ''Operations'', cu_page = 1\<rparr>)]\<rparr>)))"
  using cursor_crosses_channels [where c = 222 and cursor = "''x''" and e = "\<lparr>cu_session = demoSession ''Operations'', cu_page = 1\<rparr>" and
      d = "demoDirService\<lparr>d_cursors := [(''x'', \<lparr>cu_session = demoSession ''Operations'', cu_page = 1\<rparr>)]\<rparr>" and clock = demoClock and
      request = "demoRequest\<lparr>dq_Resource := ''snapshot'', dq_Cursor := Some ''x''\<rparr>"] demo_clock
  by (simp add: demo_session) (simp add: demoRequest_def)

end
