(* ===== verification/Config_Files.thy ===== *)
theory Config_Files
  imports Service_Admission Go_Text
begin

text \<open>
  The files a Relay is configured with: the permission policy for secret files (secret_file_permissions.go), the control keys and the
  cookie secret (control_auth.go), the signing keys of the two admission kinds (identity_admission.go, service_admission.go), the rows of
  a Directory file (directory_v3.go) and the strict tables of the management plane (management.go). The file system is a record of the
  calls that read it. A key file that is written row by row loads to exactly the keys in it, and what loads is well-formed.
\<close>

subsection \<open>The file system\<close>

datatype fileKind = RegularFile | DirectoryFile | SymlinkFile | SocketFile | OtherFile

record fileInfo =
  fi_kind :: fileKind
  fi_perm :: u32
  fi_uid :: u32

record files =
  os_windows :: bool
  os_euid :: u32
  os_Stat :: "string \<Rightarrow> fileInfo option"
  os_ReadFile :: "string \<Rightarrow> string option"

unbundle bit_operations_syntax

subsection \<open>Secret files\<close>

datatype secretFilePermissionPolicy = permissionsUnset | permissionsRequired | permissionsWarn | permissionsOff

datatype permissionError = PermissionWindows | PermissionInspect | PermissionIrregular | PermissionOwner | PermissionOthers

definition defaultSecretFilePermissionPolicy :: "files \<Rightarrow> secretFilePermissionPolicy" where
  "defaultSecretFilePermissionPolicy fs = (if os_windows fs then permissionsWarn else permissionsRequired)"

definition parseSecretFilePermissionPolicy :: "files \<Rightarrow> string \<Rightarrow> secretFilePermissionPolicy option" where
  "parseSecretFilePermissionPolicy fs value =
     (let v = TrimSpace value in
      if v = [] then Some (defaultSecretFilePermissionPolicy fs)
      else if ToLowerIs v ''required'' then Some permissionsRequired
      else if ToLowerIs v ''warn'' then Some permissionsWarn
      else if ToLowerIs v ''off'' then Some permissionsOff else None)"

definition secretFileError :: "files \<Rightarrow> string \<Rightarrow> permissionError option" where
  "secretFileError fs path =
     (if os_windows fs then Some PermissionWindows
      else case os_Stat fs path of
        None \<Rightarrow> Some PermissionInspect
      | Some info \<Rightarrow>
          if fi_kind info \<noteq> RegularFile then Some PermissionIrregular
          else if fi_perm info AND 0x100 = 0 then Some PermissionOwner
          else if fi_perm info AND 0x3F \<noteq> 0 then Some PermissionOthers else None)"

definition validateSecretFilePermissions ::
  "files \<Rightarrow> string \<Rightarrow> secretFilePermissionPolicy \<Rightarrow> permissionError option" where
  "validateSecretFilePermissions fs path policy =
     (if blankText path \<or> policy = permissionsOff then None
      else let policy' = (if policy = permissionsUnset then defaultSecretFilePermissionPolicy fs else policy) in
      if policy' = permissionsWarn then None else secretFileError fs path)"

subsection \<open>Modes\<close>

definition parseControlAuthPolicy :: "string \<Rightarrow> controlAuthPolicy option" where
  "parseControlAuthPolicy value =
     (let v = TrimSpace value in
      if v = [] \<or> ToLowerIs v ''off'' then Some controlAuthOff
      else if ToLowerIs v ''optional'' then Some controlAuthOptional
      else if ToLowerIs v ''required'' then Some controlAuthRequired else None)"

definition parseIdentityAdmissionMode :: "string \<Rightarrow> identityAdmissionMode option" where
  "parseIdentityAdmissionMode value =
     (let v = TrimSpace value in
      if v = [] \<or> ToLowerIs v ''off'' then Some identityAdmissionOff
      else if ToLowerIs v ''optional'' then Some identityAdmissionOptional
      else if ToLowerIs v ''required'' then Some identityAdmissionRequired else None)"

definition parseServiceAdmissionMode :: "string \<Rightarrow> serviceAdmissionMode option" where
  "parseServiceAdmissionMode value =
     (let v = TrimSpace value in
      if v = [] \<or> ToLowerIs v ''off'' then Some serviceAdmissionOff
      else if ToLowerIs v ''enabled'' then Some serviceAdmissionEnabled else None)"

subsection \<open>Control keys\<close>

datatype keyFileError = KeyPermissions permissionError | KeyOpen | KeyTable | KeyColumns | KeyNumber | KeyID | KeyText | KeyDuplicate |
  KeyShort

definition parseUint32 :: "string \<Rightarrow> u32 option" where
  "parseUint32 value = map_option of_nat (ParseUint 32 (TrimSpace value))"

text \<open>An empty record, or one blank field, is passed over by every key loader.\<close>

definition blankRecord :: "string list \<Rightarrow> bool" where
  "blankRecord record = (case record of [] \<Rightarrow> True | [cell] \<Rightarrow> blankText cell | _ \<Rightarrow> False)"

definition keysOf :: "controlKeyStore \<Rightarrow> u32 \<Rightarrow> (u32, bytes) gomap" where
  "keysOf keys channelID = (case map_of keys channelID of None \<Rightarrow> [] | Some t \<Rightarrow> t)"

fun controlKeyRows :: "nat \<Rightarrow> string list list \<Rightarrow> controlKeyStore \<Rightarrow> keyFileError + controlKeyStore" where
  "controlKeyRows index [] keys = Inr keys"
| "controlKeyRows index (record # rest) keys =
     (if blankRecord record then controlKeyRows (Suc index) rest keys
      else case record of
        [channelText, idText, keyText] \<Rightarrow>
          if index = 0 \<and> EqualFold (TrimSpace channelText) ''channel_id'' then controlKeyRows (Suc index) rest keys
          else (case parseUint32 channelText of
              None \<Rightarrow> Inl KeyNumber
            | Some channelID \<Rightarrow>
          (case parseUint32 idText of
              None \<Rightarrow> Inl KeyID
            | Some keyID \<Rightarrow>
              if keyID = 0 then Inl KeyID
              else (case stdBase64Decode (TrimSpace keyText) of
                  None \<Rightarrow> Inl KeyText
                | Some key \<Rightarrow>
                    if length key \<noteq> 32 then Inl KeyText
                    else if map_of (keysOf keys channelID) keyID \<noteq> None then Inl KeyDuplicate
                    else controlKeyRows (Suc index) rest
                      (AList.update channelID (AList.update keyID key (keysOf keys channelID)) keys))))
      | _ \<Rightarrow> Inl KeyColumns)"

definition loadControlKeyStore :: "files \<Rightarrow> string \<Rightarrow> secretFilePermissionPolicy \<Rightarrow> keyFileError + controlKeyStore" where
  "loadControlKeyStore fs path secretPermissions =
     (if blankText path then Inr []
      else case validateSecretFilePermissions fs path secretPermissions of
        Some e \<Rightarrow> Inl (KeyPermissions e)
      | None \<Rightarrow>
          (case os_ReadFile fs path of
             None \<Rightarrow> Inl KeyOpen
           | Some content \<Rightarrow>
               (case csvReadAll True content of
                  None \<Rightarrow> Inl KeyTable
                | Some records \<Rightarrow> controlKeyRows 0 records [])))"

definition loadCookieSecret :: "files \<Rightarrow> string \<Rightarrow> secretFilePermissionPolicy \<Rightarrow> keyFileError + bytes" where
  "loadCookieSecret fs path secretPermissions =
     (if blankText path then Inr []
      else case validateSecretFilePermissions fs path secretPermissions of
        Some e \<Rightarrow> Inl (KeyPermissions e)
      | None \<Rightarrow>
          (case os_ReadFile fs path of
             None \<Rightarrow> Inl KeyOpen
           | Some content \<Rightarrow>
               let raw = (if length content < 32 then Inl KeyShort else Inr (bytes_of content)) in
               (case stdBase64Decode (TrimSpace content) of
                  None \<Rightarrow> raw
                | Some decoded \<Rightarrow> if 32 \<le> length decoded then Inr decoded else raw)))"

subsection \<open>Signing keys\<close>

text \<open>\<^verbatim>\<open>loadIdentitySigningKeys\<close> and \<^verbatim>\<open>loadServiceSigningKeys\<close> have the same body.\<close>

fun signingKeyRows :: "nat \<Rightarrow> string list list \<Rightarrow> (string, bytes) gomap \<Rightarrow> keyFileError + (string, bytes) gomap" where
  "signingKeyRows index [] keys = Inr keys"
| "signingKeyRows index (record # rest) keys =
     (if blankRecord record then signingKeyRows (Suc index) rest keys
      else case record of
        [idText, keyText] \<Rightarrow>
          if index = 0 \<and> EqualFold (TrimSpace idText) ''kid'' then signingKeyRows (Suc index) rest keys
          else let keyID = TrimSpace idText in
          if keyID = [] \<or> 128 < length keyID then Inl KeyID
          else (case stdBase64Decode (TrimSpace keyText) of
              None \<Rightarrow> Inl KeyText
            | Some decoded \<Rightarrow>
                if length decoded \<noteq> publicKeySize then Inl KeyText
                else if map_of keys keyID \<noteq> None then Inl KeyDuplicate
                else signingKeyRows (Suc index) rest (AList.update keyID decoded keys))
      | _ \<Rightarrow> Inl KeyColumns)"

definition loadSigningKeys :: "files \<Rightarrow> string \<Rightarrow> keyFileError + (string, bytes) gomap" where
  "loadSigningKeys fs path =
     (if blankText path then Inr []
      else case os_ReadFile fs path of
        None \<Rightarrow> Inl KeyOpen
      | Some content \<Rightarrow>
          (case csvReadAll True content of
             None \<Rightarrow> Inl KeyTable
           | Some records \<Rightarrow> signingKeyRows 0 records []))"

definition loadIdentitySigningKeys :: "files \<Rightarrow> string \<Rightarrow> keyFileError + (string, bytes) gomap" where
  "loadIdentitySigningKeys = loadSigningKeys"

definition loadServiceSigningKeys :: "files \<Rightarrow> string \<Rightarrow> keyFileError + (string, bytes) gomap" where
  "loadServiceSigningKeys = loadSigningKeys"

subsection \<open>Directory tables\<close>

fun dropReturns :: "string \<Rightarrow> string" where
  "dropReturns [] = []"
| "dropReturns (c # cs) = (if c = CHR 0x0D \<and> take 1 cs = [CHR 0x0A] then dropReturns cs else c # dropReturns cs)"

fun joinLines :: "string list \<Rightarrow> string" where
  "joinLines [] = []"
| "joinLines [l] = l"
| "joinLines (l # ls) = l @ CHR 0x0A # joinLines ls"

definition readDirectoryCSV :: "files \<Rightarrow> string \<Rightarrow> string list list option" where
  "readDirectoryCSV fs path =
     (case os_ReadFile fs path of
        None \<Rightarrow> None
      | Some content \<Rightarrow>
          if take 3 content = [CHR 0xEF, CHR 0xBB, CHR 0xBF] then None
          else let kept = filter (\<lambda>line. TrimSpace line \<noteq> [] \<and> take 1 (TrimSpace line) \<noteq> ''#'') (splitOn (CHR 0x0A) (dropReturns content)) in
          if kept = [] then Some [] else csvReadAll False (joinLines kept))"

subsection \<open>Strict tables\<close>

text \<open>\<^verbatim>\<open>strictCSVRows\<close>: the header as given and no empty field.\<close>

definition strictCSVRows :: "files \<Rightarrow> string \<Rightarrow> string list \<Rightarrow> string list list option" where
  "strictCSVRows fs path header =
     (case os_ReadFile fs path of
        None \<Rightarrow> None
      | Some content \<Rightarrow>
          (case csvReadAll True content of
             Some (first # rest) \<Rightarrow>
               if first \<noteq> header then None
               else if list_all (\<lambda>row. length row = length header \<and> list_all (\<lambda>value. value \<noteq> []) row) rest then Some rest else None
           | _ \<Rightarrow> None))"

definition parseManagementBool :: "string \<Rightarrow> bool option" where
  "parseManagementBool value = (if value = ''true'' then Some True else if value = ''false'' then Some False else None)"

definition parseManagementU32 :: "string \<Rightarrow> bool \<Rightarrow> u32 option" where
  "parseManagementU32 value nonzero =
     (if value = [] \<or> take 1 value = ''+'' \<or> take 1 value = ''-'' \<or> CHR ''x'' \<in> set value \<or> CHR ''X'' \<in> set value then None
      else case ParseUint 32 value of
        None \<Rightarrow> None
      | Some parsed \<Rightarrow>
          if decimal parsed \<noteq> value then None
          else if nonzero \<and> parsed = 0 then None else Some (of_nat parsed))"

subsection \<open>What loads\<close>

definition keyStore_wf :: "controlKeyStore \<Rightarrow> bool" where
  "keyStore_wf keys \<longleftrightarrow> gomap_wf keys \<and>
     (\<forall>(c, t)\<in>set keys. gomap_wf t \<and> t \<noteq> [] \<and> (\<forall>(k, v)\<in>set t. k \<noteq> 0 \<and> length v = 32))"

lemma keysOf_wf: "keyStore_wf keys \<Longrightarrow> gomap_wf (keysOf keys c) \<and> (\<forall>(k, v)\<in>set (keysOf keys c). k \<noteq> 0 \<and> length v = 32)"
  by (auto simp: keyStore_wf_def keysOf_def split: option.split dest!: map_of_SomeD)

lemma keysOf_update: "keysOf (AList.update c t keys) d = (if d = c then t else keysOf keys d)"
  by (simp add: keysOf_def map_of_update)

lemma aupdate_not_Nil: "AList.update k v t \<noteq> []"
  by (cases t) auto

lemma keyStore_wf_update:
  assumes "keyStore_wf keys" "k \<noteq> 0" "length v = 32"
  shows "keyStore_wf (AList.update c (AList.update k v (keysOf keys c)) keys)"
  using assms keysOf_wf [OF assms(1), of c] by (auto simp: keyStore_wf_def set_update_wf aupdate_not_Nil)

lemma controlKeyRows_wf: "controlKeyRows index table keys = Inr keys' \<Longrightarrow> keyStore_wf keys \<Longrightarrow> keyStore_wf keys'"
proof (induction index table keys rule: controlKeyRows.induct)
  case (2 index row rest keys)
  show ?case
  proof (cases "blankRecord row")
    case False
    with "2.prems"(1) obtain channelText idText keyText where row: "row = [channelText, idText, keyText]"
      by (auto split: list.splits)
    show ?thesis using "2.prems" False "2.IH"(2) [OF False row] "2.IH"(3) [OF False row] keyStore_wf_update
      by (auto simp: row split: if_splits option.splits)
  qed (use 2 in simp)
qed simp

lemma signingKeyRows_wf:
  "signingKeyRows index table keys = Inr keys' \<Longrightarrow> gomap_wf keys \<and> (\<forall>(k, v)\<in>set keys. k \<noteq> [] \<and> length k \<le> 128 \<and> length v = 32) \<Longrightarrow>
   gomap_wf keys' \<and> (\<forall>(k, v)\<in>set keys'. k \<noteq> [] \<and> length k \<le> 128 \<and> length v = 32)"
proof (induction index table keys rule: signingKeyRows.induct)
  case (2 index row rest keys)
  show ?case
  proof (cases "blankRecord row")
    case False
    with "2.prems"(1) obtain idText keyText where row: "row = [idText, keyText]" by (auto split: list.splits)
    show ?thesis using "2.prems" False "2.IH"(2) [OF False row] "2.IH"(3) [OF False row]
      by (auto simp: row Let_def set_update_wf split: if_splits option.splits)
  qed (use 2 in simp)
qed simp

text \<open>A key file, row by row.\<close>

definition controlKeyRow :: "u32 \<times> u32 \<times> bytes \<Rightarrow> string list" where
  "controlKeyRow = (\<lambda>(c, k, key). [decimal (unat c), decimal (unat k), stdBase64Encode key])"

definition controlKeyFile :: "(u32 \<times> u32 \<times> bytes) list \<Rightarrow> string" where
  "controlKeyFile table = csvText ([''channel_id'', ''key_id'', ''control_key_base64''] # map controlKeyRow table)"

lemma parseUint32_decimal [simp]: "parseUint32 (decimal (unat w)) = Some w"
  using unat_less_exp [of w] by (simp add: parseUint32_def TrimSpace_text ParseUint_decimal)

lemma controlKeyRows_table:
  assumes "0 < index" "distinct (map (\<lambda>(c, k, key). (c, k)) table)" "\<forall>(c, k, key)\<in>set table. k \<noteq> 0 \<and> length key = 32"
    and "\<forall>(c, k, key)\<in>set table. map_of (keysOf keys c) k = None"
  shows "\<exists>store. controlKeyRows index (map controlKeyRow table) keys = Inr store \<and>
    (\<forall>c k. map_of (keysOf store c) k = (map_of (keysOf keys c) ++ (\<lambda>k. map_of (map (\<lambda>(c, k, key). ((c, k), key)) table) (c, k))) k)"
  using assms
proof (induction table arbitrary: index keys)
  case (Cons e table)
  obtain c k key where e: "e = (c, k, key)" by (cases e)
  let ?keys = "AList.update c (AList.update k key (keysOf keys c)) keys"
  have fresh: "\<forall>(c', k', key')\<in>set table. map_of (keysOf ?keys c') k' = None"
  proof (intro ballI, clarify)
    fix c' k' key' assume "(c', k', key') \<in> set table"
    with Cons.prems(2,4) have "map_of (keysOf keys c') k' = None" "(c', k') \<noteq> (c, k)" by (force simp: e)+
    then show "map_of (keysOf ?keys c') k' = None" by (auto simp: keysOf_update map_of_update)
  qed
  obtain store where store: "controlKeyRows (Suc index) (map controlKeyRow table) ?keys = Inr store"
    "\<forall>c k. map_of (keysOf store c) k = (map_of (keysOf ?keys c) ++ (\<lambda>k. map_of (map (\<lambda>(c, k, key). ((c, k), key)) table) (c, k))) k"
    using Cons.IH [of "Suc index" ?keys] Cons.prems fresh by auto
  have new: "map_of (map (\<lambda>(c, k, key). ((c, k), key)) table) (c, k) = None"
    using Cons.prems(2) by (force simp: e map_of_eq_None_iff)
  have "controlKeyRows index (map controlKeyRow (e # table)) keys = Inr store"
    using Cons.prems store(1) by (simp add: e controlKeyRow_def blankRecord_def TrimSpace_text stdBase64_roundtrip)
  moreover have "map_of (keysOf store c') k' =
      (map_of (keysOf keys c') ++ (\<lambda>k. map_of (map (\<lambda>(c, k, key). ((c, k), key)) (e # table)) (c', k))) k'" for c' k'
    using store(2) new by (auto simp: e keysOf_update map_of_update map_add_def split: option.split)
  ultimately show ?case by blast
qed (auto simp: keysOf_def map_add_def)

text \<open>
  C21. Control keys are read as they were written. A key file with one row for every key, with non-zero identifiers, keys of 32 bytes and no
  pair of channel and key identifier twice, loads to a store that finds exactly the keys of the rows.
\<close>

theorem control_keys_roundtrip:
  assumes "distinct (map (\<lambda>(c, k, key). (c, k)) table)" "\<forall>(c, k, key)\<in>set table. k \<noteq> 0 \<and> length key = 32"
    and "os_ReadFile fs path = Some (controlKeyFile table)" "\<not> blankText path" "validateSecretFilePermissions fs path policy = None"
  shows "\<exists>store. loadControlKeyStore fs path policy = Inr store \<and>
    (\<forall>c k key. (\<exists>t. map_of store c = Some t \<and> map_of t k = Some key) \<longleftrightarrow> (c, k, key) \<in> set table)"
proof -
  let ?rows = "[''channel_id'', ''key_id'', ''control_key_base64''] # map controlKeyRow table"
  have "\<forall>f\<in>set [''channel_id'', ''key_id'', ''control_key_base64'']. CHR 0x0D \<notin> set f" by code_simp
  then have "\<forall>row\<in>set ?rows. length row = 3 \<and> (\<forall>f\<in>set row. CHR 0x0D \<notin> set f)"
    by (auto simp: controlKeyRow_def texts_no_return)
  from csvReadAll_csvText [OF this] have read: "csvReadAll True (controlKeyFile table) = Some ?rows"
    by (simp add: controlKeyFile_def)
  obtain store where store: "controlKeyRows 1 (map controlKeyRow table) [] = Inr store"
    "\<And>c k. map_of (keysOf store c) k = map_of (map (\<lambda>(c, k, key). ((c, k), key)) table) (c, k)"
  proof -
    have "map_of (keysOf [] c) ++ f = f" for c and f :: "u32 \<Rightarrow> bytes option" by (simp add: keysOf_def)
    then show thesis using controlKeyRows_table [of 1 table "[]"] assms(1,2) that by (auto simp: keysOf_def)
  qed
  have "EqualFold (TrimSpace ''channel_id'') ''channel_id''" by code_simp
  then have "loadControlKeyStore fs path policy = Inr store"
    using assms(3-5) read store(1) by (simp add: loadControlKeyStore_def blankRecord_def)
  moreover have "(\<exists>t. map_of store c = Some t \<and> map_of t k = Some key) \<longleftrightarrow> (c, k, key) \<in> set table" for c k key
  proof -
    have "distinct (map fst (map (\<lambda>(c, k, key). ((c, k), key)) table))"
      using assms(1) by (simp add: comp_def case_prod_unfold)
    from map_of_eq_Some_iff [OF this, of "(c, k)" key]
    have "map_of (keysOf store c) k = Some key \<longleftrightarrow> (c, k, key) \<in> set table" unfolding store(2) by force
    then show ?thesis by (auto simp: keysOf_def split: option.splits)
  qed
  ultimately show ?thesis by blast
qed

text \<open>
  What the loaders accept is well-formed: control keys have 32 bytes, non-zero identifiers and no duplicates, and signing keys have 32
  bytes under distinct, non-empty identifiers of at most 128 bytes. Under the policy that requires permissions, a control key file
  that is used is a regular file its owner can read and nobody else can access.
\<close>

theorem key_files_wellformed:
  assumes "loadControlKeyStore fs path policy = Inr keys" "loadSigningKeys fs path' = Inr signing"
  shows "(\<forall>c t. map_of keys c = Some t \<longrightarrow> distinct (map fst t) \<and> t \<noteq> [] \<and> (\<forall>(k, v)\<in>set t. k \<noteq> 0 \<and> length v = 32)) \<and>
    distinct (map fst keys) \<and> distinct (map fst signing) \<and>
    (\<forall>(k, v)\<in>set signing. k \<noteq> [] \<and> length k \<le> 128 \<and> length v = 32) \<and>
    (keys \<noteq> [] \<and> policy = permissionsRequired \<longrightarrow> \<not> os_windows fs \<and>
       (\<exists>info. os_Stat fs path = Some info \<and> fi_kind info = RegularFile \<and> fi_perm info AND 0x100 \<noteq> 0 \<and> fi_perm info AND 0x3F = 0))"
proof -
  have "keyStore_wf []" by (simp add: keyStore_wf_def)
  then have keys: "keyStore_wf keys"
    using assms(1) controlKeyRows_wf by (auto simp: loadControlKeyStore_def split: if_splits option.splits)
  have signing: "gomap_wf signing \<and> (\<forall>(k, v)\<in>set signing. k \<noteq> [] \<and> length k \<le> 128 \<and> length v = 32)"
    using assms(2) signingKeyRows_wf [of 0 _ "[]" signing] by (auto simp: loadSigningKeys_def split: if_splits option.splits)
  have "\<not> os_windows fs \<and> (\<exists>info. os_Stat fs path = Some info \<and> fi_kind info = RegularFile \<and> fi_perm info AND 0x100 \<noteq> 0 \<and>
      fi_perm info AND 0x3F = 0)" if "keys \<noteq> []" "policy = permissionsRequired"
    using assms(1) that by (auto simp: loadControlKeyStore_def validateSecretFilePermissions_def secretFileError_def Let_def
        split: if_splits option.splits)
  moreover have "\<forall>c t. map_of keys c = Some t \<longrightarrow> distinct (map fst t) \<and> t \<noteq> [] \<and> (\<forall>(k, v)\<in>set t. k \<noteq> 0 \<and> length v = 32)"
    using keys by (auto simp: keyStore_wf_def dest!: map_of_SomeD)
  ultimately show ?thesis using keys signing by (simp add: keyStore_wf_def)
qed

subsection \<open>An example\<close>

definition demoTable :: "(u32 \<times> u32 \<times> bytes) list" where
  "demoTable = [(111, 1, replicate 32 7), (111, 2, replicate 32 8), (222, 1, replicate 32 9)]"

definition demoSigning :: string where
  "demoSigning = csvText [[''kid'', ''ed25519_public_key_base64''], [''k1'', stdBase64Encode (replicate 32 8)]]"

definition demoFiles :: files where
  "demoFiles = \<lparr>os_windows = False, os_euid = 1000,
     os_Stat = (\<lambda>path. Some \<lparr>fi_kind = RegularFile, fi_perm = 0x180, fi_uid = 1000\<rparr>),
     os_ReadFile = (\<lambda>path. if path = ''keys'' then Some (controlKeyFile demoTable) else if path = ''signing'' then Some demoSigning else None)\<rparr>"

lemma demoFiles_facts:
  "os_ReadFile demoFiles ''keys'' = Some (controlKeyFile demoTable)" "os_ReadFile demoFiles ''signing'' = Some demoSigning"
  "\<not> blankText ''keys''" "\<not> blankText ''signing''" "validateSecretFilePermissions demoFiles ''keys'' permissionsRequired = None"
proof -
  show blank: "\<not> blankText ''keys''" "\<not> blankText ''signing''" by code_simp+
  show "validateSecretFilePermissions demoFiles ''keys'' permissionsRequired = None"
    using blank by (simp add: validateSecretFilePermissions_def secretFileError_def demoFiles_def)
qed (simp_all add: demoFiles_def)

theorem control_keys_roundtrip_witness:
  "\<exists>store t. loadControlKeyStore demoFiles ''keys'' permissionsRequired = Inr store \<and> map_of store 111 = Some t \<and>
     map_of t 2 = Some (replicate 32 8)"
proof -
  have "distinct (map (\<lambda>(c, k, key). (c, k)) demoTable)" "\<forall>(c, k, key)\<in>set demoTable. k \<noteq> 0 \<and> length key = 32"
    "(111, 2, replicate 32 8) \<in> set demoTable"
    by (simp_all add: demoTable_def)
  with control_keys_roundtrip [OF this(1,2) demoFiles_facts(1,3,5)] show ?thesis by blast
qed

lemma demo_signing: "loadSigningKeys demoFiles ''signing'' = Inr [(''k1'', replicate 32 8)]"
proof -
  have plain: "\<forall>f\<in>set [''kid'', ''ed25519_public_key_base64'', ''k1'']. CHR 0x0D \<notin> set f" by code_simp
  have kid: "EqualFold (TrimSpace ''kid'') ''kid''" "TrimSpace ''k1'' = ''k1''" by code_simp+
  have "csvReadAll True demoSigning = Some [[''kid'', ''ed25519_public_key_base64''], [''k1'', stdBase64Encode (replicate 32 8)]]"
    unfolding demoSigning_def using plain by (intro csvReadAll_csvText [where n = 2]) (simp_all add: texts_no_return)
  then show ?thesis
    using kid by (simp add: loadSigningKeys_def demoFiles_facts blankRecord_def TrimSpace_text stdBase64_roundtrip)
qed

theorem key_files_wellformed_witness:
  "\<exists>store. loadControlKeyStore demoFiles ''keys'' permissionsRequired = Inr store \<and> distinct (map fst store) \<and>
     (store \<noteq> [] \<longrightarrow> (\<exists>info. os_Stat demoFiles ''keys'' = Some info \<and> fi_kind info = RegularFile \<and> fi_perm info AND 0x3F = 0))"
proof -
  have "\<exists>store. controlKeyRows 1 (map controlKeyRow demoTable) [] = Inr store"
    using controlKeyRows_table [of 1 demoTable "[]"] by (auto simp: demoTable_def keysOf_def)
  then obtain store where store: "controlKeyRows 1 (map controlKeyRow demoTable) [] = Inr store" by blast
  have "\<forall>f\<in>set [''channel_id'', ''key_id'', ''control_key_base64'']. CHR 0x0D \<notin> set f" by code_simp
  then have "csvReadAll True (controlKeyFile demoTable) =
      Some ([''channel_id'', ''key_id'', ''control_key_base64''] # map controlKeyRow demoTable)"
    unfolding controlKeyFile_def by (intro csvReadAll_csvText [where n = 3]) (auto simp: controlKeyRow_def texts_no_return)
  moreover have "EqualFold (TrimSpace ''channel_id'') ''channel_id''" by code_simp
  ultimately have "loadControlKeyStore demoFiles ''keys'' permissionsRequired = Inr store"
    using store demoFiles_facts by (simp add: loadControlKeyStore_def blankRecord_def)
  with key_files_wellformed [OF this demo_signing] show ?thesis by auto
qed

end
