(* ===== verification/Management_Policy.thy ===== *)
theory Management_Policy
  imports Config_Files Private_Link
begin

text \<open>
  The policy files of the management plane (management.go) and of the private control link (private_control.go): services and their
  certificates, channel access and global permissions. A service is shared by two maps and changed through one of them, so the services
  live in a table under their identifiers and the map of certificates holds these. A policy that loads is well-formed, and
  a service of the private control link is reachable exactly through the enabled rows.
\<close>

subsection \<open>Data\<close>

datatype managementEventDelivery = deliveryDisabled | deliveryLive

definition parseManagementEventDelivery :: "string \<Rightarrow> managementEventDelivery option" where
  "parseManagementEventDelivery value =
     (let v = TrimSpace value in
      if ToLowerIs v ''disabled'' then Some deliveryDisabled
      else if ToLowerIs v ''live'' then Some deliveryLive else None)"

record managementService =
  ms_serviceID :: string
  ms_apiRole :: string
  ms_enabled :: bool
  ms_global :: "(string, bool) gomap"

record managementChannelACL =
  acl_serviceID :: string
  acl_channelID :: u32
  acl_senderID :: u32
  acl_admissionRole :: string
  acl_allowListen :: bool
  acl_allowTalk :: bool
  acl_allowInterrupt :: bool
  acl_interruptPriority :: u8
  acl_enabled :: bool

record managementPolicy =
  mpol_byCertificate :: "(string, string) gomap"
  mpol_byService :: "(string, managementService) gomap"
  mpol_acls :: "(string, (u32, (u32, managementChannelACL) gomap) gomap) gomap"

record managementGrantSigner =
  sig_keyID :: string
  sig_key :: bytes

datatype policyError = PolicyPath | PolicyTable | PolicyRow | PolicyDuplicate | PolicyReference | PolicyEmpty |
  PolicyPermissions permissionError | PolicyKey

text \<open>\<^verbatim>\<open>managementHexPattern\<close>.\<close>

definition managementHexMatch :: "string \<Rightarrow> bool" where
  "managementHexMatch s \<longleftrightarrow> length s = 64 \<and> list_all (\<lambda>c. c \<in> set ''0123456789abcdef'') s"

subsection \<open>Services\<close>

definition apiRoles :: "string list" where
  "apiRoles = [''viewer'', ''recorder'', ''operator'', ''auditor'', ''admin'']"

fun loadServiceRows :: "string list list \<Rightarrow> managementPolicy \<Rightarrow> policyError + managementPolicy" where
  "loadServiceRows [] p = Inr p"
| "loadServiceRows (row # rest) p =
     (case row of
        [serviceID, certificate, apiRole, enabledText] \<Rightarrow>
          if \<not> managedServiceIDMatch serviceID \<or> \<not> managementHexMatch certificate then Inl PolicyRow
          else if apiRole \<notin> set apiRoles then Inl PolicyRow
          else (case parseManagementBool enabledText of
              None \<Rightarrow> Inl PolicyRow
            | Some enabled \<Rightarrow>
                if map_of (mpol_byService p) serviceID \<noteq> None then Inl PolicyDuplicate
                else if map_of (mpol_byCertificate p) certificate \<noteq> None then Inl PolicyDuplicate
                else loadServiceRows rest (p\<lparr>
                  mpol_byService := AList.update serviceID
                    \<lparr>ms_serviceID = serviceID, ms_apiRole = apiRole, ms_enabled = enabled, ms_global = []\<rparr> (mpol_byService p),
                  mpol_byCertificate := AList.update certificate serviceID (mpol_byCertificate p)\<rparr>))
      | _ \<Rightarrow> Inl PolicyRow)"

subsection \<open>Channel access\<close>

definition aclsOf :: "managementPolicy \<Rightarrow> string \<Rightarrow> (u32, (u32, managementChannelACL) gomap) gomap" where
  "aclsOf p serviceID = (case map_of (mpol_acls p) serviceID of None \<Rightarrow> [] | Some t \<Rightarrow> t)"

definition channelACLs :: "managementPolicy \<Rightarrow> string \<Rightarrow> u32 \<Rightarrow> (u32, managementChannelACL) gomap" where
  "channelACLs p serviceID channelID = (case map_of (aclsOf p serviceID) channelID of None \<Rightarrow> [] | Some t \<Rightarrow> t)"

definition parsePriority :: "string \<Rightarrow> u8 option" where
  "parsePriority value =
     (case ParseUint 8 value of
        None \<Rightarrow> None
      | Some n \<Rightarrow> if decimal n \<noteq> value then None else Some (of_nat n))"

definition receiveOnly :: "string \<Rightarrow> bool" where
  "receiveOnly role \<longleftrightarrow> role = ''recorder'' \<or> role = ''observer''"

definition aclConsistent :: "string \<Rightarrow> bool \<Rightarrow> bool \<Rightarrow> bool \<Rightarrow> u8 \<Rightarrow> bool" where
  "aclConsistent role listen talk interrupt priority \<longleftrightarrow>
     \<not> (\<not> listen \<or> interrupt \<and> (\<not> talk \<or> priority = 0) \<or> \<not> interrupt \<and> priority \<noteq> 0 \<or>
        receiveOnly role \<and> (talk \<or> interrupt \<or> priority \<noteq> 0))"

definition enabledService :: "managementPolicy \<Rightarrow> string \<Rightarrow> bool" where
  "enabledService p serviceID = (case map_of (mpol_byService p) serviceID of None \<Rightarrow> False | Some service \<Rightarrow> ms_enabled service)"

text \<open>The row of \<^verbatim>\<open>management-channel-acl.csv\<close> as a value.\<close>

definition aclRow :: "managementPolicy \<Rightarrow> string list \<Rightarrow> managementChannelACL option" where
  "aclRow p row =
     (case row of
        [serviceID, channelText, senderText, role, listenText, talkText, interruptText, priorityText, enabledText] \<Rightarrow>
          if \<not> enabledService p serviceID then None
          else (case (parseManagementU32 channelText False, parseManagementU32 senderText True) of
              (Some channelID, Some senderID) \<Rightarrow>
                if role \<noteq> ''recorder'' \<and> role \<noteq> ''observer'' \<and> role \<noteq> ''automation'' then None
                else (case (parseManagementBool listenText, parseManagementBool talkText, parseManagementBool interruptText,
                       parsePriority priorityText, parseManagementBool enabledText) of
                    (Some listen, Some talk, Some interrupt, Some priority, Some enabled) \<Rightarrow>
                      if \<not> aclConsistent role listen talk interrupt priority then None
                      else Some \<lparr>acl_serviceID = serviceID, acl_channelID = channelID, acl_senderID = senderID,
                        acl_admissionRole = role, acl_allowListen = listen, acl_allowTalk = talk, acl_allowInterrupt = interrupt,
                        acl_interruptPriority = priority, acl_enabled = enabled\<rparr>
                  | _ \<Rightarrow> None)
            | _ \<Rightarrow> None)
      | _ \<Rightarrow> None)"

fun loadACLRows :: "string list list \<Rightarrow> managementPolicy \<Rightarrow> policyError + managementPolicy" where
  "loadACLRows [] p = Inr p"
| "loadACLRows (row # rest) p =
     (case aclRow p row of
        None \<Rightarrow> Inl PolicyRow
      | Some acl \<Rightarrow>
          let serviceID = acl_serviceID acl; channelID = acl_channelID acl; senderID = acl_senderID acl in
          if map_of (channelACLs p serviceID channelID) senderID \<noteq> None then Inl PolicyDuplicate
          else loadACLRows rest (p\<lparr>mpol_acls := AList.update serviceID
            (AList.update channelID (AList.update senderID acl (channelACLs p serviceID channelID)) (aclsOf p serviceID)) (mpol_acls p)\<rparr>))"

subsection \<open>Global permissions\<close>

fun loadGlobalRows :: "string list list \<Rightarrow> managementPolicy \<Rightarrow> policyError + managementPolicy" where
  "loadGlobalRows [] p = Inr p"
| "loadGlobalRows (row # rest) p =
     (case row of
        [serviceID, permission, enabledText] \<Rightarrow>
          (case map_of (mpol_byService p) serviceID of
             None \<Rightarrow> Inl PolicyReference
           | Some service \<Rightarrow>
               if \<not> ms_enabled service \<or> permission \<noteq> ''health.read'' \<and> permission \<noteq> ''service_admission.revoke'' then Inl PolicyReference
               else (case parseManagementBool enabledText of
                   None \<Rightarrow> Inl PolicyRow
                 | Some enabled \<Rightarrow>
                     if map_of (ms_global service) permission \<noteq> None then Inl PolicyDuplicate
                     else loadGlobalRows rest (p\<lparr>mpol_byService := AList.update serviceID
                       (service\<lparr>ms_global := AList.update permission enabled (ms_global service)\<rparr>) (mpol_byService p)\<rparr>)))
      | _ \<Rightarrow> Inl PolicyRow)"

definition emptyPolicy :: managementPolicy where
  "emptyPolicy = \<lparr>mpol_byCertificate = [], mpol_byService = [], mpol_acls = []\<rparr>"

definition loadManagementPolicy :: "files \<Rightarrow> string \<Rightarrow> string \<Rightarrow> string \<Rightarrow> policyError + managementPolicy" where
  "loadManagementPolicy fs servicesPath aclPath globalPermissionsPath =
     (if blankText servicesPath \<or> blankText aclPath then Inl PolicyPath
      else case strictCSVRows fs servicesPath [''service_id'', ''certificate_sha256'', ''api_role'', ''enabled''] of
        None \<Rightarrow> Inl PolicyTable
      | Some services \<Rightarrow>
          (case loadServiceRows services emptyPolicy of
             Inl e \<Rightarrow> Inl e
           | Inr p1 \<Rightarrow>
               (case strictCSVRows fs aclPath [''service_id'', ''channel_id'', ''sender_id'', ''admission_role'', ''allow_listen'',
                   ''allow_talk'', ''allow_interrupt'', ''interrupt_priority'', ''enabled''] of
                  None \<Rightarrow> Inl PolicyTable
                | Some acls \<Rightarrow>
                    (case loadACLRows acls p1 of
                       Inl e \<Rightarrow> Inl e
                     | Inr p2 \<Rightarrow>
                         if blankText globalPermissionsPath then Inr p2
                         else (case strictCSVRows fs globalPermissionsPath [''service_id'', ''permission'', ''enabled''] of
                             None \<Rightarrow> Inl PolicyTable
                           | Some globals \<Rightarrow> loadGlobalRows globals p2)))))"

text \<open>\<open>fromSeed\<close> is \<^verbatim>\<open>ed25519.NewKeyFromSeed\<close>.\<close>

definition loadManagementGrantSigner ::
  "files \<Rightarrow> (bytes \<Rightarrow> bytes) \<Rightarrow> string \<Rightarrow> secretFilePermissionPolicy \<Rightarrow> policyError + managementGrantSigner" where
  "loadManagementGrantSigner fs fromSeed path secretPermissions =
     (case validateSecretFilePermissions fs path secretPermissions of
        Some e \<Rightarrow> Inl (PolicyPermissions e)
      | None \<Rightarrow>
          (case strictCSVRows fs path [''kid'', ''ed25519_private_key_base64''] of
             Some [[keyID, keyText]] \<Rightarrow>
               if keyID = [] \<or> 128 < length keyID then Inl PolicyRow
               else (case stdBase64Decode keyText of
                   None \<Rightarrow> Inl PolicyKey
                 | Some decoded \<Rightarrow>
                     if length decoded = 32 then Inr \<lparr>sig_keyID = keyID, sig_key = fromSeed decoded\<rparr>
                     else if length decoded = 64 then Inr \<lparr>sig_keyID = keyID, sig_key = decoded\<rparr> else Inl PolicyKey)
           | Some _ \<Rightarrow> Inl PolicyRow
           | None \<Rightarrow> Inl PolicyTable))"

subsection \<open>Services of the private control link\<close>

text \<open>The two loaders differ in what identifies a peer; \<open>seen\<close> and \<open>peers\<close> are the services and the peers of all rows so far.\<close>

fun privateControlRows ::
  "(string \<Rightarrow> 'k option) \<Rightarrow> string list list \<Rightarrow> string list \<Rightarrow> 'k list \<Rightarrow> ('k, string) gomap \<Rightarrow> policyError + ('k, string) gomap" where
  "privateControlRows parse [] seen peers table = Inr table"
| "privateControlRows parse (row # rest) seen peers table =
     (case row of
        [serviceID, peerText, enabledText] \<Rightarrow>
          (case parse peerText of
             None \<Rightarrow> Inl PolicyRow
           | Some peer \<Rightarrow>
               if \<not> managedServiceIDMatch serviceID then Inl PolicyRow
               else (case parseManagementBool enabledText of
                   None \<Rightarrow> Inl PolicyRow
                 | Some enabled \<Rightarrow>
                     if serviceID \<in> set seen then Inl PolicyDuplicate
                     else if peer \<in> set peers then Inl PolicyDuplicate
                     else privateControlRows parse rest (serviceID # seen) (peer # peers)
                       (if enabled then AList.update peer serviceID table else table)))
      | _ \<Rightarrow> Inl PolicyRow)"

definition parseCertificate :: "string \<Rightarrow> string option" where
  "parseCertificate value = (if managementHexMatch value then Some value else None)"

definition parseUID :: "string \<Rightarrow> u32 option" where
  "parseUID value = (case ParseUint 32 value of None \<Rightarrow> None | Some uid \<Rightarrow> if uid = 0 then None else Some (of_nat uid))"

definition loadPrivateControlPolicy :: "files \<Rightarrow> string \<Rightarrow> policyError + privateControlPolicy" where
  "loadPrivateControlPolicy fs path =
     (if blankText path then Inl PolicyPath
      else case strictCSVRows fs path [''management_service_id'', ''certificate_sha256'', ''enabled''] of
        None \<Rightarrow> Inl PolicyTable
      | Some rows \<Rightarrow>
          (case privateControlRows parseCertificate rows [] [] [] of
             Inl e \<Rightarrow> Inl e
           | Inr table \<Rightarrow> if table = [] then Inl PolicyEmpty else Inr \<lparr>pol_byCertificate = table, pol_byUID = []\<rparr>))"

definition loadPrivateControlUDSPolicy :: "files \<Rightarrow> string \<Rightarrow> policyError + privateControlPolicy" where
  "loadPrivateControlUDSPolicy fs path =
     (if blankText path then Inl PolicyPath
      else case strictCSVRows fs path [''management_service_id'', ''uid'', ''enabled''] of
        None \<Rightarrow> Inl PolicyTable
      | Some rows \<Rightarrow>
          (case privateControlRows parseUID rows [] [] [] of
             Inl e \<Rightarrow> Inl e
           | Inr table \<Rightarrow> if table = [] then Inl PolicyEmpty else Inr \<lparr>pol_byCertificate = [], pol_byUID = table\<rparr>))"

subsection \<open>What loads\<close>

definition service_ok :: "string \<Rightarrow> managementService \<Rightarrow> bool" where
  "service_ok sid v \<longleftrightarrow> ms_serviceID v = sid \<and> managedServiceIDMatch sid \<and> ms_apiRole v \<in> set apiRoles \<and> gomap_wf (ms_global v) \<and>
     fst ` set (ms_global v) \<subseteq> {''health.read'', ''service_admission.revoke''} \<and> (\<not> ms_enabled v \<longrightarrow> ms_global v = [])"

definition acl_ok :: "string \<Rightarrow> u32 \<Rightarrow> u32 \<Rightarrow> managementChannelACL \<Rightarrow> bool" where
  "acl_ok sid c n a \<longleftrightarrow> acl_serviceID a = sid \<and> acl_channelID a = c \<and> acl_senderID a = n \<and> n \<noteq> 0 \<and>
     acl_admissionRole a \<in> {''recorder'', ''observer'', ''automation''} \<and>
     aclConsistent (acl_admissionRole a) (acl_allowListen a) (acl_allowTalk a) (acl_allowInterrupt a) (acl_interruptPriority a)"

definition acls_ok :: "string \<Rightarrow> (u32, (u32, managementChannelACL) gomap) gomap \<Rightarrow> bool" where
  "acls_ok sid cs \<longleftrightarrow> gomap_wf cs \<and> (\<forall>(c, ns)\<in>set cs. gomap_wf ns \<and> (\<forall>(n, a)\<in>set ns. acl_ok sid c n a))"

definition policy_wf :: "managementPolicy \<Rightarrow> bool" where
  "policy_wf p \<longleftrightarrow>
     gomap_wf (mpol_byService p) \<and> (\<forall>(sid, v)\<in>set (mpol_byService p). service_ok sid v) \<and>
     gomap_wf (mpol_byCertificate p) \<and> distinct (map snd (mpol_byCertificate p)) \<and>
     (\<forall>(cert, sid)\<in>set (mpol_byCertificate p). managementHexMatch cert \<and> map_of (mpol_byService p) sid \<noteq> None) \<and>
     gomap_wf (mpol_acls p) \<and> (\<forall>(sid, cs)\<in>set (mpol_acls p). enabledService p sid \<and> acls_ok sid cs)"

lemma update_new: "map_of t k = None \<Longrightarrow> AList.update k v t = t @ [(k, v)]"
  by (induction t) auto

lemma loadServiceRows_wf:
  "loadServiceRows rows p = Inr p' \<Longrightarrow> policy_wf p \<Longrightarrow> mpol_acls p = [] \<Longrightarrow> policy_wf p' \<and> mpol_acls p' = []"
proof (induction rows p rule: loadServiceRows.induct)
  case (2 row rest p)
  from "2.prems"(1) obtain sid cert role enText en where row: "row = [sid, cert, role, enText]" "managedServiceIDMatch sid" "managementHexMatch cert"
    "role \<in> set apiRoles" "parseManagementBool enText = Some en" "map_of (mpol_byService p) sid = None" "map_of (mpol_byCertificate p) cert = None"
    by (auto split: list.splits option.splits if_splits)
  let ?v = "\<lparr>ms_serviceID = sid, ms_apiRole = role, ms_enabled = en, ms_global = []\<rparr>"
  let ?p = "p\<lparr>mpol_byService := AList.update sid ?v (mpol_byService p), mpol_byCertificate := AList.update cert sid (mpol_byCertificate p)\<rparr>"
  have "sid \<notin> snd ` set (mpol_byCertificate p)" using "2.prems"(2) row(6) by (auto simp: policy_wf_def)
  moreover have "service_ok sid ?v" using row by (simp add: service_ok_def)
  ultimately have "policy_wf ?p"
    using "2.prems"(2,3) row by (auto simp: policy_wf_def set_update_wf update_new [OF row(7)] map_of_update)
  moreover have "loadServiceRows rest ?p = Inr p'" using "2.prems"(1) row by simp
  ultimately show ?case using 2 row by simp
qed simp

lemma aclRow_ok:
  assumes "aclRow p row = Some a"
  shows "acl_ok (acl_serviceID a) (acl_channelID a) (acl_senderID a) a" "enabledService p (acl_serviceID a)"
proof -
  have zero: "parseManagementU32 t True = Some n \<Longrightarrow> n \<noteq> 0" for t n
  proof -
    assume "parseManagementU32 t True = Some n"
    then obtain m where m: "ParseUint 32 t = Some m" "m \<noteq> 0" "n = of_nat m"
      by (auto simp: parseManagementU32_def split: if_splits option.splits)
    then have "m < 2 ^ 32" by (auto simp: ParseUint_def split: if_splits)
    with m(3) have "unat n = m" by (simp add: unat_of_nat take_bit_nat_eq_self)
    with m(2) show "n \<noteq> 0" by auto
  qed
  from assms show "acl_ok (acl_serviceID a) (acl_channelID a) (acl_senderID a) a" "enabledService p (acl_serviceID a)"
    by (auto simp: aclRow_def acl_ok_def zero split: list.splits option.splits if_splits prod.splits)
qed

lemma aclsOf_ok: "policy_wf p \<Longrightarrow> acls_ok sid (aclsOf p sid)"
proof (cases "map_of (mpol_acls p) sid")
  case (Some cs)
  moreover assume "policy_wf p"
  ultimately show ?thesis using map_of_SomeD [OF Some] by (fastforce simp: policy_wf_def aclsOf_def)
qed (simp add: aclsOf_def acls_ok_def)

lemma channelACLs_ok: "policy_wf p \<Longrightarrow> gomap_wf (channelACLs p sid c) \<and> (\<forall>(n, a)\<in>set (channelACLs p sid c). acl_ok sid c n a)"
  using aclsOf_ok [of p sid] by (auto simp: channelACLs_def acls_ok_def split: option.split dest!: map_of_SomeD)

lemma loadACLRows_wf:
  "loadACLRows rows p = Inr p' \<Longrightarrow> policy_wf p \<Longrightarrow> policy_wf p'"
proof (induction rows p rule: loadACLRows.induct)
  case (2 row rest p)
  from "2.prems"(1) obtain a where a: "aclRow p row = Some a" by (auto split: option.splits)
  define sid where "sid = acl_serviceID a"
  let ?ns = "AList.update (acl_senderID a) a (channelACLs p sid (acl_channelID a))"
  let ?cs = "AList.update (acl_channelID a) ?ns (aclsOf p sid)"
  let ?p = "p\<lparr>mpol_acls := AList.update sid ?cs (mpol_acls p)\<rparr>"
  note ok = aclRow_ok [OF a, folded sid_def]
  have "acls_ok sid ?cs"
    using ok(1) aclsOf_ok [OF "2.prems"(2), of sid] channelACLs_ok [OF "2.prems"(2), of sid "acl_channelID a"]
    by (auto simp: acls_ok_def set_update_wf)
  moreover have "enabledService ?p = enabledService p" by (simp add: enabledService_def fun_eq_iff)
  ultimately have "policy_wf ?p" using "2.prems"(2) ok(2) by (auto simp: policy_wf_def set_update_wf)
  moreover have "map_of (channelACLs p sid (acl_channelID a)) (acl_senderID a) = None" "loadACLRows rest ?p = Inr p'"
    using "2.prems"(1) a by (auto simp: sid_def Let_def split: if_splits)
  ultimately show ?case using "2.IH" [OF a refl refl refl] a by (simp add: sid_def)
qed simp

lemma loadGlobalRows_wf:
  "loadGlobalRows rows p = Inr p' \<Longrightarrow> policy_wf p \<Longrightarrow> policy_wf p' \<and> mpol_acls p' = mpol_acls p"
proof (induction rows p rule: loadGlobalRows.induct)
  case (2 row rest p)
  from "2.prems"(1) obtain sid perm enText v en where row: "row = [sid, perm, enText]" "map_of (mpol_byService p) sid = Some v" "ms_enabled v"
    "perm \<in> {''health.read'', ''service_admission.revoke''}" "parseManagementBool enText = Some en" "map_of (ms_global v) perm = None"
    by (auto split: list.splits option.splits if_splits)
  let ?v = "v\<lparr>ms_global := AList.update perm en (ms_global v)\<rparr>"
  let ?p = "p\<lparr>mpol_byService := AList.update sid ?v (mpol_byService p)\<rparr>"
  have "service_ok sid v" using "2.prems"(2) row(2) by (auto simp: policy_wf_def dest!: map_of_SomeD)
  then have ok: "service_ok sid ?v" using row(3,4) by (auto simp: service_ok_def set_update_wf)
  have "enabledService ?p = enabledService p" using row(2,3) by (auto simp: enabledService_def fun_eq_iff map_of_update)
  then have "policy_wf ?p" using "2.prems"(2) ok row(2) by (auto simp: policy_wf_def set_update_wf map_of_update)
  moreover have "loadGlobalRows rest ?p = Inr p'" using "2.prems"(1) row by auto
  ultimately show ?case using 2 row by simp
qed simp

lemma loadManagementPolicy_wf:
  assumes "loadManagementPolicy fs servicesPath aclPath globalsPath = Inr p"
  shows "policy_wf p"
proof -
  have empty: "policy_wf emptyPolicy" "mpol_acls emptyPolicy = []" by (simp_all add: policy_wf_def emptyPolicy_def)
  obtain rs1 rs2 p1 p2 where p: "loadServiceRows rs1 emptyPolicy = Inr p1" "loadACLRows rs2 p1 = Inr p2"
    "p = p2 \<or> (\<exists>rs3. loadGlobalRows rs3 p2 = Inr p)"
    using assms that unfolding loadManagementPolicy_def by (simp split: if_splits option.splits sum.splits) blast+
  have "policy_wf p2" using loadACLRows_wf [OF p(2)] loadServiceRows_wf [OF p(1) empty] by blast
  with p(3) loadGlobalRows_wf show ?thesis by blast
qed

text \<open>
  A management policy that loads is well-formed. Every certificate digest has 64 lower-case hexadecimal digits and belongs to one known
  service, and no service has two; service identifiers and roles are valid; only enabled services hold global permissions, and only
  the two that exist; every channel entry belongs to an enabled service, is filed under its own channel and non-zero sender, allows
  listening, gives receive-only roles nothing else, and has an interrupt priority exactly with the right to interrupt.
\<close>

theorem management_policy_wellformed:
  assumes "loadManagementPolicy fs servicesPath aclPath globalsPath = Inr p"
  shows "(\<forall>cert sid. map_of (mpol_byCertificate p) cert = Some sid \<longrightarrow> managementHexMatch cert \<and>
        (\<exists>v. map_of (mpol_byService p) sid = Some v \<and> ms_serviceID v = sid \<and> managedServiceIDMatch sid \<and> ms_apiRole v \<in> set apiRoles)) \<and>
    (\<forall>cert cert' sid. map_of (mpol_byCertificate p) cert = Some sid \<longrightarrow> map_of (mpol_byCertificate p) cert' = Some sid \<longrightarrow> cert = cert') \<and>
    (\<forall>sid v permission b. map_of (mpol_byService p) sid = Some v \<longrightarrow> map_of (ms_global v) permission = Some b \<longrightarrow>
        ms_enabled v \<and> permission \<in> {''health.read'', ''service_admission.revoke''}) \<and>
    (\<forall>sid c n a. map_of (channelACLs p sid c) n = Some a \<longrightarrow> enabledService p sid \<and> acl_serviceID a = sid \<and> acl_channelID a = c \<and>
        acl_senderID a = n \<and> n \<noteq> 0 \<and> acl_allowListen a \<and> (receiveOnly (acl_admissionRole a) \<longrightarrow> \<not> acl_allowTalk a) \<and>
        (acl_allowInterrupt a \<longrightarrow> acl_allowTalk a) \<and> (acl_allowInterrupt a \<longleftrightarrow> acl_interruptPriority a \<noteq> 0))"
proof (intro conjI allI impI)
  have wf: "policy_wf p" by (rule loadManagementPolicy_wf [OF assms])
  {
    fix cert sid assume "map_of (mpol_byCertificate p) cert = Some sid"
    from map_of_SomeD [OF this] wf obtain v where v: "managementHexMatch cert" "map_of (mpol_byService p) sid = Some v"
      by (auto simp: policy_wf_def simp del: map_of_eq_Some_iff)
    have "service_ok sid v" using map_of_SomeD [OF v(2)] wf by (auto simp: policy_wf_def)
    with v show "managementHexMatch cert" "\<exists>v. map_of (mpol_byService p) sid = Some v \<and> ms_serviceID v = sid \<and> managedServiceIDMatch sid \<and>
        ms_apiRole v \<in> set apiRoles"
      by (auto simp: service_ok_def)
  }
  show "cert = cert'" if "map_of (mpol_byCertificate p) cert = Some sid" "map_of (mpol_byCertificate p) cert' = Some sid" for cert cert' sid
  proof -
    have "inj_on snd (set (mpol_byCertificate p))" using wf by (simp add: policy_wf_def distinct_map)
    from inj_onD [OF this, of "(cert, sid)" "(cert', sid)"] that [THEN map_of_SomeD] show ?thesis by simp
  qed
  {
    fix sid v permission b assume v: "map_of (mpol_byService p) sid = Some v" "map_of (ms_global v) permission = Some b"
    have "service_ok sid v" using map_of_SomeD [OF v(1)] wf by (auto simp: policy_wf_def)
    with map_of_SomeD [OF v(2)] show "ms_enabled v" "permission \<in> {''health.read'', ''service_admission.revoke''}"
      by (auto simp: service_ok_def)
  }
  fix sid c n a assume a: "map_of (channelACLs p sid c) n = Some a"
  then have "map_of (mpol_acls p) sid \<noteq> None" by (auto simp: channelACLs_def aclsOf_def split: option.splits)
  then show "enabledService p sid" using wf by (auto simp: policy_wf_def dest!: map_of_SomeD)
  have "acl_ok sid c n a" using channelACLs_ok [OF wf, of sid c] map_of_SomeD [OF a] by auto
  then show "acl_serviceID a = sid" "acl_channelID a = c" "acl_senderID a = n" "n \<noteq> 0" "acl_allowListen a"
    "receiveOnly (acl_admissionRole a) \<Longrightarrow> \<not> acl_allowTalk a" "acl_allowInterrupt a \<Longrightarrow> acl_allowTalk a"
    "acl_allowInterrupt a \<longleftrightarrow> acl_interruptPriority a \<noteq> 0"
    by (auto simp: acl_ok_def aclConsistent_def)
qed

lemma privateControlRows_exact:
  "privateControlRows parse rows seen peers table = Inr table' \<Longrightarrow> gomap_wf table \<Longrightarrow> fst ` set table \<subseteq> set peers \<Longrightarrow>
   snd ` set table \<subseteq> set seen \<Longrightarrow> distinct (map snd table) \<Longrightarrow>
   gomap_wf table' \<and> distinct (map snd table') \<and>
   (\<forall>k sid. map_of table' k = Some sid \<longleftrightarrow> map_of table k = Some sid \<or> (\<exists>t. parse t = Some k \<and> [sid, t, ''true''] \<in> set rows))"
proof (induction parse rows seen peers table rule: privateControlRows.induct)
  case (2 parse row rest seen peers table)
  from "2.prems"(1) obtain sid t enText k en where row: "row = [sid, t, enText]" "parse t = Some k" "managedServiceIDMatch sid"
    "parseManagementBool enText = Some en" "sid \<notin> set seen" "k \<notin> set peers"
    and rest: "privateControlRows parse rest (sid # seen) (k # peers) (if en then AList.update k sid table else table) = Inr table'"
    by (auto split: list.splits option.splits if_splits)
  have new: "map_of table k = None" using row(6) "2.prems"(3) by (force simp: map_of_eq_None_iff)
  have en: "en \<longleftrightarrow> enText = ''true''" using row(4) by (auto simp: parseManagementBool_def split: if_splits)
  let ?t = "if en then AList.update k sid table else table"
  have t: "gomap_wf ?t" "fst ` set ?t \<subseteq> set (k # peers)" "snd ` set ?t \<subseteq> set (sid # seen)" "distinct (map snd ?t)"
    using "2.prems" row new by (auto simp: update_new [OF new])
  note IH = "2.IH" [OF row(1) refl refl refl row(2) _ row(4) row(5,6), OF _ rest t]
  have "map_of ?t k' = Some sid' \<longleftrightarrow> map_of table k' = Some sid' \<or> en \<and> k' = k \<and> sid' = sid" for k' sid'
    using new by (auto simp: map_of_update simp del: map_of_eq_Some_iff)
  then show ?case using IH row en by (auto simp del: map_of_eq_Some_iff)
qed simp

text \<open>
  The services of the private control link are exactly the enabled rows of their table: over mTLS a certificate digest leads to a service
  if and only if a row names both and is enabled, and over a local socket a user identifier does; no service is reached in two ways.
\<close>

theorem private_control_policy_exact:
  assumes "loadPrivateControlPolicy fs path = Inr pol" "loadPrivateControlUDSPolicy fs path' = Inr pol'"
  shows "\<exists>rows rows'. strictCSVRows fs path [''management_service_id'', ''certificate_sha256'', ''enabled''] = Some rows \<and>
    strictCSVRows fs path' [''management_service_id'', ''uid'', ''enabled''] = Some rows' \<and>
    (\<forall>cert sid. map_of (pol_byCertificate pol) cert = Some sid \<longleftrightarrow> managementHexMatch cert \<and> [sid, cert, ''true''] \<in> set rows) \<and>
    (\<forall>uid sid. map_of (pol_byUID pol') uid = Some sid \<longleftrightarrow> (\<exists>t. parseUID t = Some uid \<and> [sid, t, ''true''] \<in> set rows')) \<and>
    distinct (map snd (pol_byCertificate pol)) \<and> distinct (map snd (pol_byUID pol')) \<and> pol_byUID pol = [] \<and> pol_byCertificate pol' = []"
proof -
  obtain rows table where r: "strictCSVRows fs path [''management_service_id'', ''certificate_sha256'', ''enabled''] = Some rows"
    "privateControlRows parseCertificate rows [] [] [] = Inr table" "pol = \<lparr>pol_byCertificate = table, pol_byUID = []\<rparr>"
    using assms(1) by (auto simp: loadPrivateControlPolicy_def split: if_splits option.splits sum.splits)
  obtain rows' table' where r': "strictCSVRows fs path' [''management_service_id'', ''uid'', ''enabled''] = Some rows'"
    "privateControlRows parseUID rows' [] [] [] = Inr table'" "pol' = \<lparr>pol_byCertificate = [], pol_byUID = table'\<rparr>"
    using assms(2) by (auto simp: loadPrivateControlUDSPolicy_def split: if_splits option.splits sum.splits)
  have "(\<exists>t. parseCertificate t = Some cert \<and> P t) \<longleftrightarrow> managementHexMatch cert \<and> P cert" for cert P
    by (auto simp: parseCertificate_def split: if_splits)
  then show ?thesis
    using r r' privateControlRows_exact [OF r(2)] privateControlRows_exact [OF r'(2)] by (simp del: map_of_eq_Some_iff)
qed

subsection \<open>An example\<close>

definition demoDigest :: "char \<Rightarrow> string" where "demoDigest c = replicate 64 c"

definition demoPolicyFiles :: files where
  "demoPolicyFiles = demoFiles\<lparr>os_ReadFile := (\<lambda>path.
     if path = ''services'' then Some (csvText [[''service_id'', ''certificate_sha256'', ''api_role'', ''enabled''],
       [''rec-1'', demoDigest (CHR ''a''), ''recorder'', ''true''], [''ops'', demoDigest (CHR ''b''), ''operator'', ''true'']])
     else if path = ''acl'' then Some (csvText [[''service_id'', ''channel_id'', ''sender_id'', ''admission_role'', ''allow_listen'',
       ''allow_talk'', ''allow_interrupt'', ''interrupt_priority'', ''enabled''],
       [''rec-1'', ''5'', ''11'', ''recorder'', ''true'', ''false'', ''false'', ''0'', ''true''],
       [''ops'', ''5'', ''12'', ''automation'', ''true'', ''true'', ''true'', ''9'', ''true'']])
     else if path = ''globals'' then Some (csvText [[''service_id'', ''permission'', ''enabled''], [''ops'', ''health.read'', ''true'']])
     else if path = ''mtls'' then Some (csvText [[''management_service_id'', ''certificate_sha256'', ''enabled''],
       [''mgmt-1'', demoDigest (CHR ''a''), ''true''], [''mgmt-2'', demoDigest (CHR ''b''), ''false'']])
     else if path = ''uds'' then Some (csvText [[''management_service_id'', ''uid'', ''enabled''], [''mgmt-1'', ''7'', ''true'']])
     else None)\<rparr>"

definition demoRecorder :: managementService where
  "demoRecorder = \<lparr>ms_serviceID = ''rec-1'', ms_apiRole = ''recorder'', ms_enabled = True, ms_global = []\<rparr>"

definition demoOperator :: managementService where
  "demoOperator = \<lparr>ms_serviceID = ''ops'', ms_apiRole = ''operator'', ms_enabled = True, ms_global = [(''health.read'', True)]\<rparr>"

definition demoRecorderACL :: managementChannelACL where
  "demoRecorderACL = \<lparr>acl_serviceID = ''rec-1'', acl_channelID = 5, acl_senderID = 11, acl_admissionRole = ''recorder'', acl_allowListen = True,
     acl_allowTalk = False, acl_allowInterrupt = False, acl_interruptPriority = 0, acl_enabled = True\<rparr>"

definition demoOperatorACL :: managementChannelACL where
  "demoOperatorACL = \<lparr>acl_serviceID = ''ops'', acl_channelID = 5, acl_senderID = 12, acl_admissionRole = ''automation'', acl_allowListen = True,
     acl_allowTalk = True, acl_allowInterrupt = True, acl_interruptPriority = 9, acl_enabled = True\<rparr>"

definition demoManagementPolicy :: managementPolicy where
  "demoManagementPolicy = \<lparr>mpol_byCertificate = [(demoDigest (CHR ''a''), ''rec-1''), (demoDigest (CHR ''b''), ''ops'')],
     mpol_byService = [(''rec-1'', demoRecorder), (''ops'', demoOperator)],
     mpol_acls = [(''rec-1'', [(5, [(11, demoRecorderACL)])]), (''ops'', [(5, [(12, demoOperatorACL)])])]\<rparr>"

lemma demo_policy_texts:
  "managementHexMatch (demoDigest (CHR ''a''))" "managementHexMatch (demoDigest (CHR ''b''))"
  "managedServiceIDMatch ''rec-1''" "managedServiceIDMatch ''ops''" "managedServiceIDMatch ''mgmt-1''" "managedServiceIDMatch ''mgmt-2''"
  "demoDigest (CHR ''a'') \<noteq> demoDigest (CHR ''b'')" "demoDigest (CHR ''b'') \<noteq> demoDigest (CHR ''a'')" "demoDigest c \<noteq> []"
  "\<not> blankText ''services''" "\<not> blankText ''acl''" "\<not> blankText ''globals''" "\<not> blankText ''mtls''" "\<not> blankText ''uds''"
  by (simp_all add: managementHexMatch_def demoDigest_def managedServiceIDMatch_def alnum_def) code_simp+

lemma strictCSVRows_text:
  assumes "os_ReadFile fs path = Some (csvText (header # rows))" "header \<noteq> []"
    and "list_all (\<lambda>row. length row = length header \<and> list_all (\<lambda>f. f \<noteq> []) row) rows"
    and "list_all (list_all (\<lambda>f. CHR 0x0D \<notin> set f)) (header # rows)"
  shows "strictCSVRows fs path header = Some rows"
proof -
  have "csvReadAll True (csvText (header # rows)) = Some (header # rows)"
    using assms by (intro csvReadAll_csvText [where n = "length header"]) (auto simp: list_all_iff)
  then show ?thesis using assms by (simp add: strictCSVRows_def)
qed

lemma demo_tables:
  "strictCSVRows demoPolicyFiles ''services'' [''service_id'', ''certificate_sha256'', ''api_role'', ''enabled''] =
     Some [[''rec-1'', demoDigest (CHR ''a''), ''recorder'', ''true''], [''ops'', demoDigest (CHR ''b''), ''operator'', ''true'']]"
  "strictCSVRows demoPolicyFiles ''acl'' [''service_id'', ''channel_id'', ''sender_id'', ''admission_role'', ''allow_listen'',
       ''allow_talk'', ''allow_interrupt'', ''interrupt_priority'', ''enabled''] =
     Some [[''rec-1'', ''5'', ''11'', ''recorder'', ''true'', ''false'', ''false'', ''0'', ''true''],
       [''ops'', ''5'', ''12'', ''automation'', ''true'', ''true'', ''true'', ''9'', ''true'']]"
  "strictCSVRows demoPolicyFiles ''globals'' [''service_id'', ''permission'', ''enabled''] = Some [[''ops'', ''health.read'', ''true'']]"
  "strictCSVRows demoPolicyFiles ''mtls'' [''management_service_id'', ''certificate_sha256'', ''enabled''] =
     Some [[''mgmt-1'', demoDigest (CHR ''a''), ''true''], [''mgmt-2'', demoDigest (CHR ''b''), ''false'']]"
  "strictCSVRows demoPolicyFiles ''uds'' [''management_service_id'', ''uid'', ''enabled''] = Some [[''mgmt-1'', ''7'', ''true'']]"
  by (rule strictCSVRows_text; (simp add: demoPolicyFiles_def; fail | code_simp))+

lemma demo_numbers_parsed:
  "parseManagementU32 ''5'' False = Some 5" "parseManagementU32 ''11'' True = Some 11" "parseManagementU32 ''12'' True = Some 12"
  "parsePriority ''0'' = Some 0" "parsePriority ''9'' = Some 9" "parseUID ''7'' = Some 7"
  by (simp_all add: parseManagementU32_def parsePriority_def parseUID_def ParseUint_def isDigit_def digitsValue_def decimal.simps)
    code_simp+

lemma demo_policy_loads: "loadManagementPolicy demoPolicyFiles ''services'' ''acl'' ''globals'' = Inr demoManagementPolicy"
proof -
  let ?ops = "demoOperator\<lparr>ms_global := []\<rparr>"
  let ?certs = "[(demoDigest (CHR ''a''), ''rec-1''), (demoDigest (CHR ''b''), ''ops'')]"
  let ?p1 = "\<lparr>mpol_byCertificate = ?certs, mpol_byService = [(''rec-1'', demoRecorder), (''ops'', ?ops)], mpol_acls = []\<rparr>"
  let ?p2 = "?p1\<lparr>mpol_acls := mpol_acls demoManagementPolicy\<rparr>"
  have services: "loadServiceRows [[''rec-1'', demoDigest (CHR ''a''), ''recorder'', ''true''], [''ops'', demoDigest (CHR ''b''), ''operator'', ''true'']]
      emptyPolicy = Inr ?p1"
    by (simp add: demo_policy_texts emptyPolicy_def apiRoles_def parseManagementBool_def demoRecorder_def demoOperator_def)
  have enabled: "enabledService (?p1\<lparr>mpol_acls := a\<rparr>) ''rec-1''" "enabledService (?p1\<lparr>mpol_acls := a\<rparr>) ''ops''" for a
    by (simp_all add: enabledService_def demoRecorder_def demoOperator_def)
  have row: "aclRow (?p1\<lparr>mpol_acls := a\<rparr>) [''rec-1'', ''5'', ''11'', ''recorder'', ''true'', ''false'', ''false'', ''0'', ''true''] = Some demoRecorderACL"
    "aclRow (?p1\<lparr>mpol_acls := a\<rparr>) [''ops'', ''5'', ''12'', ''automation'', ''true'', ''true'', ''true'', ''9'', ''true''] = Some demoOperatorACL" for a
    using enabled [of a] by (simp_all add: aclRow_def demo_numbers_parsed parseManagementBool_def aclConsistent_def receiveOnly_def
        demoRecorderACL_def demoOperatorACL_def)
  have ids: "acl_serviceID demoRecorderACL = ''rec-1''" "acl_channelID demoRecorderACL = 5" "acl_senderID demoRecorderACL = 11"
    "acl_serviceID demoOperatorACL = ''ops''" "acl_channelID demoOperatorACL = 5" "acl_senderID demoOperatorACL = 12"
    by (simp_all add: demoRecorderACL_def demoOperatorACL_def)
  have acls: "loadACLRows [[''rec-1'', ''5'', ''11'', ''recorder'', ''true'', ''false'', ''false'', ''0'', ''true''],
       [''ops'', ''5'', ''12'', ''automation'', ''true'', ''true'', ''true'', ''9'', ''true'']] ?p1 = Inr ?p2"
    using row(1) [of "[]"] row(2) [of "[(''rec-1'', [(5, [(11, demoRecorderACL)])])]"]
    by (simp add: ids channelACLs_def aclsOf_def demoManagementPolicy_def Let_def)
  have globals: "loadGlobalRows [[''ops'', ''health.read'', ''true'']] ?p2 = Inr demoManagementPolicy"
    by (simp add: parseManagementBool_def demoManagementPolicy_def demoOperator_def)
  show ?thesis
    using globals by (simp add: loadManagementPolicy_def demo_policy_texts demo_tables services acls
        del: loadServiceRows.simps loadACLRows.simps loadGlobalRows.simps)
qed

theorem management_policy_wellformed_witness:
  "managementHexMatch (demoDigest (CHR ''a'')) \<and> enabledService demoManagementPolicy ''ops'' \<and> acl_allowTalk demoOperatorACL"
proof -
  have "map_of (mpol_byCertificate demoManagementPolicy) (demoDigest (CHR ''a'')) = Some ''rec-1''"
    "map_of (channelACLs demoManagementPolicy ''ops'' 5) 12 = Some demoOperatorACL" "acl_allowInterrupt demoOperatorACL"
    by (simp_all add: demoManagementPolicy_def channelACLs_def aclsOf_def demoOperatorACL_def)
  with management_policy_wellformed [OF demo_policy_loads] show ?thesis by blast
qed

theorem private_control_policy_exact_witness:
  "\<exists>pol pol'. loadPrivateControlPolicy demoPolicyFiles ''mtls'' = Inr pol \<and> loadPrivateControlUDSPolicy demoPolicyFiles ''uds'' = Inr pol' \<and>
     map_of (pol_byCertificate pol) (demoDigest (CHR ''b'')) \<noteq> Some ''mgmt-2'' \<and> map_of (pol_byUID pol') 7 = Some ''mgmt-1''"
proof -
  have load: "loadPrivateControlPolicy demoPolicyFiles ''mtls'' = Inr \<lparr>pol_byCertificate = [(demoDigest (CHR ''a''), ''mgmt-1'')], pol_byUID = []\<rparr>"
    "loadPrivateControlUDSPolicy demoPolicyFiles ''uds'' = Inr \<lparr>pol_byCertificate = [], pol_byUID = [(7, ''mgmt-1'')]\<rparr>"
    by (simp_all add: loadPrivateControlPolicy_def loadPrivateControlUDSPolicy_def demo_policy_texts demo_tables parseCertificate_def
        parseManagementBool_def demo_numbers_parsed)
  from private_control_policy_exact [OF this] have "map_of [(demoDigest (CHR ''a''), ''mgmt-1'')] (demoDigest (CHR ''b'')) \<noteq> Some ''mgmt-2'' \<and>
      map_of [(7 :: u32, ''mgmt-1'')] 7 = Some ''mgmt-1''"
    using demo_policy_texts by (simp add: demo_tables)
  with load show ?thesis by simp
qed

end
