(* ===== verification/Management_Plane.thy ===== *)
theory Management_Plane
  imports Management_Policy Directory_Config Relay_State
begin

text \<open>
  The management plane (management.go): who a request comes from and what it may see, the health, channel and participant queries, the
  live event stream and the audit log. A request is its method, path, query and client certificates; a reply is its status and its
  content. The times of events and records stay times, and what they are formatted with is a parameter. An event stream is a
  bounded queue that a subscriber's request drains; publishing an event is one section that numbers it and takes the subscribers,
  and one delivery for each of them.
\<close>

subsection \<open>Requests and replies\<close>

record httpRequest =
  rq_Method :: string
  rq_Path :: string
  rq_Query :: "(string, string) gomap"
  rq_PeerCertificates :: "bytes list"
  rq_Body :: bytes
  rq_Flusher :: bool

definition queryGet :: "httpRequest \<Rightarrow> string \<Rightarrow> string" where
  "queryGet r key = (case map_of (rq_Query r) key of None \<Rightarrow> [] | Some value \<Rightarrow> value)"

subsection \<open>State\<close>

record managementEvent =
  me_EventID :: u64
  me_OccurredAt :: gotime
  me_Type :: string
  me_ChannelID :: "u32 option"
  me_SenderID :: "u32 option"
  me_ServiceID :: "string option"
  me_RecordingJobID :: "string option"
  me_State :: "string option"
  me_Reason :: "string option"

record managementFloorInterruptAudit =
  mfa_RequesterPriority :: u8
  mfa_ReplacedSenderID :: "u32 option"
  mfa_ReplacedPriority :: "u8 option"

text \<open>A record without a timestamp has None; its identifier is its sequence in twelve digits.\<close>

record managementAuditRecord =
  ar_Timestamp :: "gotime option"
  ar_ActorType :: string
  ar_ActorID :: string
  ar_ChannelID :: "u32 option"
  ar_Action :: string
  ar_Result :: string
  ar_FloorInterrupt :: "managementFloorInterruptAudit option"
  ar_sequence :: u64

record managementSubscriber =
  sub_service :: managementService
  sub_ch :: "managementEvent list"

record managementPlane =
  mp_policy :: managementPolicy
  mp_signer :: managementGrantSigner
  mp_issuer :: string
  mp_audience :: string
  mp_eventDelivery :: managementEventDelivery
  mp_auditRetrieval :: bool
  mp_eventNext :: u64
  mp_subscribers :: "(u64, managementSubscriber) gomap"
  mp_subscriberN :: u64
  mp_audit :: "managementAuditRecord list"
  mp_auditNext :: u64
  mp_cursorKey :: bytes

datatype managementBody =
    BodyHealth managementEventDelivery bool
  | BodyChannels "(u32 \<times> u32) list"
  | BodyParticipants u32 "(u32 \<times> string) list"
  | BodyAudit "managementAuditRecord list" "string option"
  | BodyGrant string gotime

datatype managementReply = ReplyError nat | ReplyNotFound | ReplyRedirect string | ReplyJSON nat managementBody | ReplyStream u64

abbreviation (input) managementAuditRetention :: nat where "managementAuditRetention \<equiv> 10000"

definition newManagementPlane ::
  "managementPolicy \<Rightarrow> managementGrantSigner \<Rightarrow> string \<Rightarrow> string \<Rightarrow> managementEventDelivery \<Rightarrow> managementPlane option" where
  "newManagementPlane policy signer issuer audience eventDelivery =
     (if length (sig_key signer) \<noteq> 64 \<or> blankText issuer \<or> blankText audience then None
      else Some \<lparr>mp_policy = policy, mp_signer = signer, mp_issuer = issuer, mp_audience = audience, mp_eventDelivery = eventDelivery,
        mp_auditRetrieval = False, mp_eventNext = 0, mp_subscribers = [], mp_subscriberN = 0, mp_audit = [], mp_auditNext = 0,
        mp_cursorKey = replicate 32 0\<rparr>)"

subsection \<open>Authorization\<close>

definition serviceForRequest :: "prims \<Rightarrow> managementPlane \<Rightarrow> httpRequest \<Rightarrow> managementService option" where
  "serviceForRequest pr p r =
     (case rq_PeerCertificates r of
        [] \<Rightarrow> None
      | raw # _ \<Rightarrow>
          (case map_of (mpol_byCertificate (mp_policy p)) (hexString (sha256 pr raw)) of
             None \<Rightarrow> None
           | Some serviceID \<Rightarrow>
               (case map_of (mpol_byService (mp_policy p)) serviceID of
                  None \<Rightarrow> None
                | Some service \<Rightarrow> if ms_enabled service then Some service else None)))"

definition hasChannelACL :: "managementPlane \<Rightarrow> string \<Rightarrow> u32 \<Rightarrow> bool" where
  "hasChannelACL p serviceID channelID =
     list_ex (\<lambda>(_, acl). acl_enabled acl \<and> acl_allowListen acl) (channelACLs (mp_policy p) serviceID channelID)"

definition hasAnyChannelACL :: "managementPlane \<Rightarrow> string \<Rightarrow> bool" where
  "hasAnyChannelACL p serviceID = list_ex (\<lambda>(channelID, _). hasChannelACL p serviceID channelID) (aclsOf (mp_policy p) serviceID)"

definition canView :: "managementService \<Rightarrow> bool" where
  "canView service \<longleftrightarrow> ms_apiRole service = ''viewer'' \<or> ms_apiRole service = ''recorder'' \<or> ms_apiRole service = ''operator''"

definition canViewChannel :: "managementPlane \<Rightarrow> managementService \<Rightarrow> u32 \<Rightarrow> bool" where
  "canViewChannel p service channelID \<longleftrightarrow> canView service \<and> hasChannelACL p (ms_serviceID service) channelID"

definition canAuditChannel :: "managementPlane \<Rightarrow> managementService \<Rightarrow> u32 \<Rightarrow> bool" where
  "canAuditChannel p service channelID \<longleftrightarrow> ms_apiRole service = ''auditor'' \<and> hasChannelACL p (ms_serviceID service) channelID"

definition canGlobal :: "managementService \<Rightarrow> string \<Rightarrow> bool" where
  "canGlobal service permission \<longleftrightarrow> map_of (ms_global service) permission = Some True"

definition eventAllowed :: "managementPlane \<Rightarrow> managementService \<Rightarrow> managementEvent \<Rightarrow> bool" where
  "eventAllowed p service event =
     (case me_ChannelID event of
        None \<Rightarrow> me_Type event = ''relay_health_changed'' \<and> canGlobal service ''health.read''
      | Some channelID \<Rightarrow> canViewChannel p service channelID \<or> canAuditChannel p service channelID)"

subsection \<open>Events\<close>

text \<open>The section that numbers an event and takes the subscribers; None when events are not delivered.\<close>

definition numberEvent :: "managementEvent \<Rightarrow> managementPlane \<Rightarrow> (managementEvent \<times> u64 list) option \<times> managementPlane" where
  "numberEvent event p =
     (if mp_eventDelivery p \<noteq> deliveryLive then (None, p)
      else let n = mp_eventNext p + 1 in
        (Some (event\<lparr>me_EventID := n\<rparr>, map fst (mp_subscribers p)), p\<lparr>mp_eventNext := n\<rparr>))"

text \<open>One delivery: a queue of 64 that is full drops the event, and a subscriber that has left has no queue.\<close>

definition deliverEvent :: "managementEvent \<Rightarrow> u64 \<Rightarrow> managementPlane \<Rightarrow> managementPlane" where
  "deliverEvent event i p =
     (case map_of (mp_subscribers p) i of
        None \<Rightarrow> p
      | Some subscriber \<Rightarrow>
          if eventAllowed p (sub_service subscriber) event \<and> length (sub_ch subscriber) < 64
          then p\<lparr>mp_subscribers := AList.update i (subscriber\<lparr>sub_ch := sub_ch subscriber @ [event]\<rparr>) (mp_subscribers p)\<rparr>
          else p)"

definition newEvent ::
  "gotime \<Rightarrow> string \<Rightarrow> u32 option \<Rightarrow> u32 option \<Rightarrow> string option \<Rightarrow> string option \<Rightarrow> string option \<Rightarrow> string option \<Rightarrow> managementEvent" where
  "newEvent now eventType channelID senderID serviceID jobID state reason =
     \<lparr>me_EventID = 0, me_OccurredAt = now, me_Type = eventType, me_ChannelID = channelID, me_SenderID = senderID, me_ServiceID = serviceID,
      me_RecordingJobID = jobID, me_State = state, me_Reason = reason\<rparr>"

definition publishEvent :: "managementEvent \<Rightarrow> managementPlane \<Rightarrow> managementPlane" where
  "publishEvent event p =
     (case numberEvent event p of
        (None, p1) \<Rightarrow> p1
      | (Some (event', ids), p1) \<Rightarrow> foldl (\<lambda>p i. deliverEvent event' i p) p1 ids)"

subsection \<open>Queries\<close>

definition handleHealth :: "managementPlane \<Rightarrow> httpRequest \<Rightarrow> managementService \<Rightarrow> managementReply" where
  "handleHealth p r service =
     (if rq_Method r \<noteq> ''GET'' \<or> \<not> canGlobal service ''health.read'' then ReplyError 403
      else ReplyJSON 200 (BodyHealth (mp_eventDelivery p) (mp_auditRetrieval p)))"

definition handleChannels :: "managementPlane \<Rightarrow> server \<Rightarrow> httpRequest \<Rightarrow> managementService \<Rightarrow> managementReply" where
  "handleChannels p s r service =
     (if rq_Method r \<noteq> ''GET'' then ReplyError 405
      else if \<not> canView service \<or> \<not> hasAnyChannelACL p (ms_serviceID service) then ReplyError 403
      else ReplyJSON 200 (BodyChannels (sort_key fst (map (\<lambda>(channelID, ch). (channelID, of_nat (length (ch_peers ch))))
        (filter (\<lambda>(channelID, _). hasChannelACL p (ms_serviceID service) channelID) (s_channels s))))))"

definition participantsOf :: "u32 \<Rightarrow> server \<Rightarrow> (u32 \<times> string) list" where
  "participantsOf channelID s =
     (case chan s channelID of
        None \<Rightarrow> []
      | Some ch \<Rightarrow> sort_key fst (map (\<lambda>(_, p). (p_senderId p,
          if map_of (ch_activeTalkers ch) (p_senderId p) \<noteq> None then ''talking'' else ''idle'')) (ch_peers ch)))"

definition hasSuffix :: "string \<Rightarrow> string \<Rightarrow> bool" where
  "hasSuffix s t \<longleftrightarrow> length t \<le> length s \<and> drop (length s - length t) s = t"

definition trimPrefix :: "string \<Rightarrow> string \<Rightarrow> string" where
  "trimPrefix s t = (if take (length t) s = t then drop (length t) s else s)"

definition handleParticipants :: "managementPlane \<Rightarrow> server \<Rightarrow> httpRequest \<Rightarrow> managementService \<Rightarrow> managementReply" where
  "handleParticipants p s r service =
     (if rq_Method r \<noteq> ''GET'' \<or> \<not> hasSuffix (rq_Path r) ''/participants'' then ReplyError 405
      else case splitOn (CHR ''/'') (trimPrefix (rq_Path r) ''/v1/channels/'') of
        [channelText, resource] \<Rightarrow>
          if channelText = [] \<or> resource \<noteq> ''participants'' then ReplyNotFound
          else (case parseManagementU32 channelText False of
              None \<Rightarrow> ReplyError 403
            | Some channelID \<Rightarrow>
                if \<not> canViewChannel p service channelID then ReplyError 403
                else ReplyJSON 200 (BodyParticipants channelID (participantsOf channelID s)))
      | _ \<Rightarrow> ReplyNotFound)"

subsection \<open>The event stream\<close>

definition canStream :: "managementPlane \<Rightarrow> managementService \<Rightarrow> bool" where
  "canStream p service \<longleftrightarrow> canGlobal service ''health.read'' \<or>
     (canView service \<or> ms_apiRole service = ''auditor'') \<and> hasAnyChannelACL p (ms_serviceID service)"

definition subscribe :: "managementService \<Rightarrow> managementPlane \<Rightarrow> u64 \<times> managementPlane" where
  "subscribe service p =
     (let n = mp_subscriberN p + 1 in
      (n, p\<lparr>mp_subscriberN := n, mp_subscribers := AList.update n \<lparr>sub_service = service, sub_ch = []\<rparr> (mp_subscribers p)\<rparr>))"

definition unsubscribe :: "u64 \<Rightarrow> managementPlane \<Rightarrow> managementPlane" where
  "unsubscribe i p = p\<lparr>mp_subscribers := AList.delete i (mp_subscribers p)\<rparr>"

text \<open>\<^verbatim>\<open>handleEvents\<close> up to its loop; the loop takes events one by one until the client is gone, and then leaves.\<close>

definition handleEvents :: "httpRequest \<Rightarrow> managementService \<Rightarrow> managementPlane \<Rightarrow> managementReply \<times> managementPlane" where
  "handleEvents r service p =
     (if rq_Method r \<noteq> ''GET'' then (ReplyError 405, p)
      else if mp_eventDelivery p = deliveryDisabled then (ReplyNotFound, p)
      else if map_of (rq_Query r) ''since'' \<noteq> None then (ReplyError 400, p)
      else if \<not> canStream p service then (ReplyError 403, p)
      else let (i, p1) = subscribe service p in
        if \<not> rq_Flusher r then (ReplyError 500, unsubscribe i p1) else (ReplyStream i, p1))"

definition takeEvent :: "u64 \<Rightarrow> managementPlane \<Rightarrow> managementEvent option \<times> managementPlane" where
  "takeEvent i p =
     (case map_of (mp_subscribers p) i of
        None \<Rightarrow> (None, p)
      | Some subscriber \<Rightarrow>
          (case sub_ch subscriber of
             [] \<Rightarrow> (None, p)
           | event # rest \<Rightarrow> (Some event, p\<lparr>mp_subscribers := AList.update i (subscriber\<lparr>sub_ch := rest\<rparr>) (mp_subscribers p)\<rparr>)))"

definition optionalField :: "string \<Rightarrow> string option \<Rightarrow> string list" where
  "optionalField name value = (case value of None \<Rightarrow> [] | Some v \<Rightarrow> [field name v])"

definition marshalManagementEvent :: "(gotime \<Rightarrow> string) \<Rightarrow> managementEvent \<Rightarrow> string" where
  "marshalManagementEvent rfc3339 e =
     (let str = (\<lambda>v. quoted (jsonEscape v)); number = (\<lambda>w. decimal (unat (w :: u32))) in
      jsonObject ([field ''schema_version'' (quoted ''management-event-v1''), field ''event_id'' (str (decimal (unat (me_EventID e)))),
        field ''occurred_at'' (str (rfc3339 (me_OccurredAt e))), field ''type'' (str (me_Type e)),
        field ''channel_id'' (case me_ChannelID e of None \<Rightarrow> ''null'' | Some c \<Rightarrow> number c)] @
        optionalField ''sender_id'' (map_option number (me_SenderID e)) @ optionalField ''service_id'' (map_option str (me_ServiceID e)) @
        optionalField ''recording_job_id'' (map_option str (me_RecordingJobID e)) @ optionalField ''state'' (map_option str (me_State e)) @
        optionalField ''reason'' (map_option str (me_Reason e))))"

definition writeManagementSSE :: "(gotime \<Rightarrow> string) \<Rightarrow> managementEvent \<Rightarrow> string" where
  "writeManagementSSE rfc3339 e =
     ''id: '' @ decimal (unat (me_EventID e)) @ [CHR 0x0A] @ ''event: '' @ me_Type e @ [CHR 0x0A] @
     ''data: '' @ marshalManagementEvent rfc3339 e @ [CHR 0x0A, CHR 0x0A]"

subsection \<open>The audit log\<close>

text \<open>A formatted time denotes whole seconds.\<close>

definition seconds :: "gotime \<Rightarrow> gotime" where
  "seconds t = time_Unix (Unix_of t)"

definition appendAudit :: "gotime \<Rightarrow> managementAuditRecord \<Rightarrow> managementPlane \<Rightarrow> managementPlane" where
  "appendAudit now rec p =
     (if \<not> mp_auditRetrieval p then p
      else let n = mp_auditNext p + 1;
          rec' = rec\<lparr>ar_sequence := n, ar_Timestamp := (case ar_Timestamp rec of None \<Rightarrow> Some (seconds now) | Some t \<Rightarrow> Some t)\<rparr>;
          log = mp_audit p @ [rec']
        in p\<lparr>mp_auditNext := n,
             mp_audit := (if managementAuditRetention < length log then drop (length log - managementAuditRetention) log else log)\<rparr>)"

subsection \<open>Every interleaving\<close>

inductive plane_section :: "prims \<Rightarrow> managementPlane \<Rightarrow> managementPlane \<Rightarrow> bool" for pr :: prims where
  sec_number: "plane_section pr p (snd (numberEvent event p))"
| sec_deliver: "plane_section pr p (deliverEvent event i p)"
| sec_events: "serviceForRequest pr p r = Some service \<Longrightarrow> plane_section pr p (snd (handleEvents r service p))"
| sec_leave: "plane_section pr p (unsubscribe i p)"
| sec_take: "plane_section pr p (snd (takeEvent i p))"
| sec_audit: "plane_section pr p (appendAudit now rec p)"

definition subscriber_ok :: "managementPlane \<Rightarrow> managementSubscriber \<Rightarrow> bool" where
  "subscriber_ok p sub \<longleftrightarrow> length (sub_ch sub) \<le> 64 \<and> (\<forall>e\<in>set (sub_ch sub). eventAllowed p (sub_service sub) e) \<and>
     ms_enabled (sub_service sub) \<and> sub_service sub \<in> snd ` set (mpol_byService (mp_policy p))"

definition plane_inv :: "managementPlane \<Rightarrow> bool" where
  "plane_inv p \<longleftrightarrow> gomap_wf (mp_subscribers p) \<and> (\<forall>(i, sub)\<in>set (mp_subscribers p). subscriber_ok p sub) \<and>
     length (mp_audit p) \<le> managementAuditRetention \<and> (\<not> mp_auditRetrieval p \<longrightarrow> mp_audit p = [])"

definition plane_config :: "managementPlane \<Rightarrow> managementPolicy \<times> managementGrantSigner \<times> string \<times> string \<times> managementEventDelivery \<times> bool" where
  "plane_config p = (mp_policy p, mp_signer p, mp_issuer p, mp_audience p, mp_eventDelivery p, mp_auditRetrieval p)"

lemma eventAllowed_config: "mp_policy p' = mp_policy p \<Longrightarrow> eventAllowed p' = eventAllowed p"
  by (simp add: eventAllowed_def canViewChannel_def canAuditChannel_def hasChannelACL_def fun_eq_iff split: option.split)

lemma subscriber_ok_config: "mp_policy p' = mp_policy p \<Longrightarrow> subscriber_ok p' = subscriber_ok p"
  using eventAllowed_config [of p' p] by (simp add: subscriber_ok_def fun_eq_iff)

lemma plane_inv_subscribers:
  assumes "plane_inv p" "gomap_wf t" "\<forall>(i, sub)\<in>set t. subscriber_ok p sub"
  shows "plane_inv (p\<lparr>mp_subscribers := t\<rparr>)"
  using assms subscriber_ok_config [of "p\<lparr>mp_subscribers := t\<rparr>" p] by (simp add: plane_inv_def)

lemma subscriber_of: "plane_inv p \<Longrightarrow> map_of (mp_subscribers p) i = Some sub \<Longrightarrow> subscriber_ok p sub"
  by (auto simp: plane_inv_def dest!: map_of_SomeD)

lemma inv_update:
  assumes "plane_inv p" "subscriber_ok p sub"
  shows "plane_inv (p\<lparr>mp_subscribers := AList.update i sub (mp_subscribers p)\<rparr>)"
  using assms by (intro plane_inv_subscribers) (auto simp: plane_inv_def set_update_wf)

lemma inv_delete: "plane_inv p \<Longrightarrow> plane_inv (p\<lparr>mp_subscribers := AList.delete i (mp_subscribers p)\<rparr>)"
  by (intro plane_inv_subscribers) (auto simp: plane_inv_def set_delete)

lemma inv_number: "plane_inv p \<Longrightarrow> plane_inv (snd (numberEvent event p))"
  using subscriber_ok_config [of "p\<lparr>mp_eventNext := mp_eventNext p + 1\<rparr>" p] by (simp add: numberEvent_def Let_def plane_inv_def)

lemma inv_deliver: "plane_inv p \<Longrightarrow> plane_inv (deliverEvent event i p)"
  by (auto simp: deliverEvent_def subscriber_ok_def intro!: inv_update split: option.split dest: subscriber_of)

lemma inv_subscribe:
  assumes "plane_inv p" "ms_enabled service" "service \<in> snd ` set (mpol_byService (mp_policy p))"
  shows "plane_inv (snd (subscribe service p))"
proof -
  let ?sub = "\<lparr>sub_service = service, sub_ch = []\<rparr>" and ?n = "mp_subscriberN p + 1"
  have "plane_inv (p\<lparr>mp_subscribers := AList.update ?n ?sub (mp_subscribers p)\<rparr>)"
    using assms by (intro inv_update) (simp_all add: subscriber_ok_def)
  then show ?thesis
    using subscriber_ok_config [of "snd (subscribe service p)" p] subscriber_ok_config [of "p\<lparr>mp_subscribers := AList.update ?n ?sub (mp_subscribers p)\<rparr>" p]
    by (simp add: subscribe_def Let_def plane_inv_def)
qed

lemma serviceForRequest_known:
  assumes "serviceForRequest pr p r = Some service"
  shows "ms_enabled service" "service \<in> snd ` set (mpol_byService (mp_policy p))"
  using assms by (force simp: serviceForRequest_def split: list.splits option.splits if_splits dest!: map_of_SomeD)+

lemma inv_events:
  assumes "plane_inv p" "serviceForRequest pr p r = Some service"
  shows "plane_inv (snd (handleEvents r service p))"
  using assms(1) inv_subscribe [OF assms(1) serviceForRequest_known [OF assms(2)]]
  by (auto simp: handleEvents_def unsubscribe_def split: prod.split intro!: inv_delete)

lemma inv_takeEvent: "plane_inv p \<Longrightarrow> plane_inv (snd (takeEvent i p))"
  by (auto simp: takeEvent_def subscriber_ok_def intro!: inv_update split: option.split list.split dest: subscriber_of)

lemma appendAudit_facts:
  "mp_policy (appendAudit now rec p) = mp_policy p" "mp_subscribers (appendAudit now rec p) = mp_subscribers p"
  "mp_auditRetrieval (appendAudit now rec p) = mp_auditRetrieval p"
  "\<not> mp_auditRetrieval p \<Longrightarrow> appendAudit now rec p = p"
  "length (mp_audit p) \<le> 10000 \<Longrightarrow> length (mp_audit (appendAudit now rec p)) \<le> 10000"
  by (auto simp: appendAudit_def Let_def)

lemma inv_audit: "plane_inv p \<Longrightarrow> plane_inv (appendAudit now rec p)"
  using subscriber_ok_config [OF appendAudit_facts(1), of now rec p] appendAudit_facts(4) [of p now rec]
  by (cases "mp_auditRetrieval p") (simp_all add: plane_inv_def appendAudit_facts)

interpretation plane_machine: invariant_machine "plane_section pr" plane_inv
proof
  fix p p' assume "plane_section pr p p'" "plane_inv p"
  then show "plane_inv p'"
    by (cases rule: plane_section.cases)
      (auto simp: unsubscribe_def intro: inv_number inv_deliver inv_events inv_delete inv_takeEvent inv_audit)
qed

lemma plane_config_section: "plane_section pr p p' \<Longrightarrow> plane_config p' = plane_config p"
  by (cases rule: plane_section.cases, assumption)
    (auto simp: plane_config_def numberEvent_def deliverEvent_def handleEvents_def subscribe_def unsubscribe_def takeEvent_def appendAudit_def Let_def
      split: option.split list.split)

lemma config_plane: "steps (plane_section pr) p p' \<Longrightarrow> plane_config p' = plane_config p"
  by (induction rule: steps.induct) (auto dest: plane_config_section)

lemma inv_newPlane: "newManagementPlane policy signer issuer audience delivery = Some p \<Longrightarrow> plane_inv p"
  by (auto simp: newManagementPlane_def plane_inv_def split: if_splits)

lemma aclEntry: "hasChannelACL p sid c \<Longrightarrow> \<exists>n acl. (n, acl) \<in> set (channelACLs (mp_policy p) sid c) \<and> acl_enabled acl \<and> acl_allowListen acl"
  by (auto simp: hasChannelACL_def list_ex_iff)

text \<open>
  C16. Events reach only services that may see them. Whatever requests, events and disconnections happen in whatever order, an event that a
  subscriber takes from its stream is about a channel for which its service, enabled and with a role that may view or audit, has an
  enabled entry that allows listening, or it is a change of the Relay's health and the service may read that. No stream holds more than 64
  events, and the plane that the Relay starts keeps no audit records at all.
\<close>

theorem event_confined:
  assumes "newManagementPlane policy signer issuer audience delivery = Some p0" "steps (plane_section pr) p0 p"
    and "map_of (mp_subscribers p) i = Some sub" "fst (takeEvent i p) = Some e"
  shows "length (sub_ch sub) \<le> 64 \<and> mp_audit p = [] \<and> ms_enabled (sub_service sub) \<and> sub_service sub \<in> snd ` set (mpol_byService policy) \<and>
    (case me_ChannelID e of
       None \<Rightarrow> me_Type e = ''relay_health_changed'' \<and> map_of (ms_global (sub_service sub)) ''health.read'' = Some True
     | Some c \<Rightarrow> ms_apiRole (sub_service sub) \<in> {''viewer'', ''recorder'', ''operator'', ''auditor''} \<and>
         (\<exists>n acl. (n, acl) \<in> set (channelACLs policy (ms_serviceID (sub_service sub)) c) \<and> acl_enabled acl \<and> acl_allowListen acl))"
proof -
  have inv: "plane_inv p" using plane_machine.inv_steps [OF assms(2) inv_newPlane [OF assms(1)]] .
  have config: "mp_policy p = policy" "\<not> mp_auditRetrieval p"
    using config_plane [OF assms(2)] assms(1) by (auto simp: plane_config_def newManagementPlane_def split: if_splits)
  note ok = subscriber_of [OF inv assms(3)]
  have "e \<in> set (sub_ch sub)" using assms(3,4) by (auto simp: takeEvent_def split: list.splits)
  with ok have "eventAllowed p (sub_service sub) e" by (simp add: subscriber_ok_def)
  then show ?thesis
    using ok inv config aclEntry [of p "ms_serviceID (sub_service sub)"]
    by (auto simp: eventAllowed_def subscriber_ok_def plane_inv_def canGlobal_def canViewChannel_def canView_def canAuditChannel_def
        split: option.splits)
qed

lemma deliver_others: "j \<noteq> i \<Longrightarrow> map_of (mp_subscribers (deliverEvent event i p)) j = map_of (mp_subscribers p) j"
  by (simp add: deliverEvent_def split: option.split)

lemma deliver_policy: "mp_policy (deliverEvent event i p) = mp_policy p"
  by (simp add: deliverEvent_def split: option.split)

lemma deliver_all:
  "distinct ids \<Longrightarrow> map_of (mp_subscribers (foldl (\<lambda>p i. deliverEvent event i p) p ids)) i =
     (if i \<in> set ids then map_of (mp_subscribers (deliverEvent event i p)) i else map_of (mp_subscribers p) i)"
proof (induction ids arbitrary: p)
  case (Cons j ids)
  have "map_of (mp_subscribers (deliverEvent event i (deliverEvent event j p))) i = map_of (mp_subscribers (deliverEvent event i p)) i" if "i \<noteq> j"
    using that deliver_others [of i j event p] eventAllowed_config [OF deliver_policy, of event j p]
    by (simp add: deliverEvent_def [of event i] split: option.split)
  then show ?case using Cons deliver_others [of i j event p] by auto
qed simp

text \<open>
  Publishing is complete and fair: with live delivery an event gets the next number and is appended to the stream of exactly those
  subscribers whose service may see it and whose stream has room; nothing that was in a stream is lost, and nobody joins or leaves.
\<close>

theorem publish_exact:
  assumes "plane_inv p" "mp_eventDelivery p = deliveryLive"
  shows "map_of (mp_subscribers (publishEvent event p)) i =
    map_option (\<lambda>sub. if eventAllowed p (sub_service sub) event \<and> length (sub_ch sub) < 64
      then sub\<lparr>sub_ch := sub_ch sub @ [event\<lparr>me_EventID := mp_eventNext p + 1\<rparr>]\<rparr> else sub) (map_of (mp_subscribers p) i)"
proof -
  let ?p = "p\<lparr>mp_eventNext := mp_eventNext p + 1\<rparr>" and ?e = "event\<lparr>me_EventID := mp_eventNext p + 1\<rparr>"
  have published: "publishEvent event p = foldl (\<lambda>p i. deliverEvent ?e i p) ?p (map fst (mp_subscribers p))"
    using assms(2) by (simp add: publishEvent_def numberEvent_def Let_def)
  have allowed: "eventAllowed ?p v ?e = eventAllowed p v event" for v
    by (simp add: eventAllowed_def canViewChannel_def canAuditChannel_def hasChannelACL_def split: option.split)
  have "distinct (map fst (mp_subscribers p))" using assms(1) by (simp add: plane_inv_def)
  note delivered = deliver_all [OF this, of ?e ?p i]
  show ?thesis
  proof (cases "map_of (mp_subscribers p) i")
    case None
    then have "i \<notin> set (map fst (mp_subscribers p))" by (simp add: map_of_eq_None_iff)
    then show ?thesis using None by (simp only: published delivered if_False) simp
  next
    case (Some sub)
    then have "i \<in> set (map fst (mp_subscribers p))" by (force dest: map_of_SomeD)
    then have "map_of (mp_subscribers (publishEvent event p)) i = map_of (mp_subscribers (deliverEvent ?e i ?p)) i"
      by (simp only: published delivered if_True)
    then show ?thesis using Some allowed by (simp add: deliverEvent_def)
  qed
qed

subsection \<open>A stream with one event\<close>

definition demoPlanePrims :: prims where
  "demoPlanePrims = demoPrims\<lparr>sha256 := (\<lambda>_. replicate 32 0xbb)\<rparr>"

definition demoPlane :: managementPlane where
  "demoPlane = \<lparr>mp_policy = demoManagementPolicy, mp_signer = \<lparr>sig_keyID = ''key-1'', sig_key = replicate 64 1\<rparr>, mp_issuer = ''relay'',
     mp_audience = ''relay'', mp_eventDelivery = deliveryLive, mp_auditRetrieval = False, mp_eventNext = 0, mp_subscribers = [],
     mp_subscriberN = 0, mp_audit = [], mp_auditNext = 0, mp_cursorKey = replicate 32 0\<rparr>"

definition demoStreamRequest :: httpRequest where
  "demoStreamRequest = \<lparr>rq_Method = ''GET'', rq_Path = ''/v1/events'', rq_Query = [], rq_PeerCertificates = [[]], rq_Body = [],
     rq_Flusher = True\<rparr>"

definition demoEvent :: managementEvent where
  "demoEvent = newEvent (time_Unix 0) ''participant_joined'' (Some 5) (Some 11) None None None None"

definition demoStream :: managementPlane where
  "demoStream = snd (handleEvents demoStreamRequest demoOperator demoPlane)"

lemma demo_plane_new: "newManagementPlane demoManagementPolicy \<lparr>sig_keyID = ''key-1'', sig_key = replicate 64 1\<rparr> ''relay'' ''relay'' deliveryLive = Some demoPlane"
  by (simp add: newManagementPlane_def demoPlane_def) code_simp

lemma demo_service: "serviceForRequest demoPlanePrims demoPlane demoStreamRequest = Some demoOperator"
proof -
  have "hexString (replicate 32 0xbb) = demoDigest (CHR ''b'')" by code_simp
  then show ?thesis
    using demo_policy_texts
    by (simp add: serviceForRequest_def demoStreamRequest_def demoPlanePrims_def demoPlane_def demoManagementPolicy_def demoOperator_def)
qed

lemma demo_stream: "demoStream = demoPlane\<lparr>mp_subscriberN := 1, mp_subscribers := [(1, \<lparr>sub_service = demoOperator, sub_ch = []\<rparr>)]\<rparr>"
  by (simp add: demoStream_def handleEvents_def demoStreamRequest_def demoPlane_def canStream_def canGlobal_def demoOperator_def subscribe_def)

lemma demo_stream_reached: "steps (plane_section demoPlanePrims) demoPlane demoStream"
  unfolding demoStream_def by (rule steps_single, rule sec_events, rule demo_service)

lemma demo_allowed: "mp_policy p = demoManagementPolicy \<Longrightarrow> me_ChannelID e = Some 5 \<Longrightarrow> eventAllowed p demoOperator e"
  by (simp add: eventAllowed_def canViewChannel_def hasChannelACL_def channelACLs_def aclsOf_def demoManagementPolicy_def demoOperator_def
      demoOperatorACL_def canView_def)

theorem publish_exact_witness:
  "map_option sub_ch (map_of (mp_subscribers (publishEvent demoEvent demoStream)) 1) = Some [demoEvent\<lparr>me_EventID := 1\<rparr>]"
proof -
  have "plane_inv demoStream"
    using plane_machine.inv_steps [OF demo_stream_reached inv_newPlane [OF demo_plane_new]] .
  moreover have "mp_eventDelivery demoStream = deliveryLive" by (simp add: demo_stream demoPlane_def)
  ultimately show ?thesis
    using publish_exact [of demoStream demoEvent 1] demo_allowed [of demoStream demoEvent]
    by (simp add: demo_stream demoPlane_def demoEvent_def newEvent_def)
qed

theorem event_confined_witness:
  "\<exists>n acl. (n, acl) \<in> set (channelACLs demoManagementPolicy ''ops'' 5) \<and> acl_enabled acl \<and> acl_allowListen acl"
proof -
  let ?e = "demoEvent\<lparr>me_EventID := 1\<rparr>" and ?p = "snd (numberEvent demoEvent demoStream)"
  let ?q = "deliverEvent ?e 1 ?p" and ?sub = "\<lparr>sub_service = demoOperator, sub_ch = [?e]\<rparr>"
  have "steps (plane_section demoPlanePrims) demoPlane ?q"
    by (rule steps_step [OF steps_step [OF demo_stream_reached sec_number] sec_deliver])
  moreover have held: "map_of (mp_subscribers ?q) 1 = Some ?sub"
    using demo_allowed [of ?p ?e]
    by (simp add: deliverEvent_def numberEvent_def demo_stream demoPlane_def demoEvent_def newEvent_def)
  moreover have "fst (takeEvent 1 ?q) = Some ?e" by (simp add: takeEvent_def held)
  ultimately show ?thesis
    using event_confined [OF demo_plane_new, of demoPlanePrims ?q 1 ?sub ?e]
    by (simp add: demoEvent_def newEvent_def demoOperator_def)
qed

end
