(* ===== verification/Management_Audit.thy ===== *)
theory Management_Audit
  imports Management_Plane
begin

text \<open>
  Retrieval of audit records (management.go): the filter of a query, the signed cursor that continues it and the page it is answered with.
  The plane a Relay starts has retrieval switched off; these definitions are the handler for a plane that has it. Times are parsed and
  formatted by parameters, as is the decoder of a cursor's JSON. Pages that follow each other over cursors neither repeat nor skip a
  record, however many records are written in between.
\<close>

subsection \<open>Text\<close>

text \<open>How \<^verbatim>\<open>encoding/json\<close> writes any string: a byte that starts no valid UTF-8 sequence becomes the replacement character.\<close>

definition runeLength :: "bytes \<Rightarrow> nat option" where
  "runeLength bs = find (\<lambda>n. utf8Count (take n bs) = Some 1) [1, 2, 3, 4]"

fun jsonText :: "string \<Rightarrow> string" where
  "jsonText [] = []"
| "jsonText (c # cs) =
     (case runeLength (bytes_of (c # cs)) of
        None \<Rightarrow> CHR 0x5C # ''ufffd'' @ jsonText cs
      | Some n \<Rightarrow> jsonEscape (take n (c # cs)) @ jsonText (drop (n - 1) cs))"

text \<open>\<^verbatim>\<open>strconv.Atoi\<close>: one optional sign, then digits, within 64 bits.\<close>

definition Atoi :: "string \<Rightarrow> int option" where
  "Atoi s =
     (let negative = take 1 s = ''-''; digits = (if negative \<or> take 1 s = ''+'' then drop 1 s else s) in
      if digits = [] \<or> \<not> list_all isDigit digits then None
      else let n = (if negative then - int (digitsValue digits) else int (digitsValue digits)) in
        if - (2 ^ 63) \<le> n \<and> n < 2 ^ 63 then Some n else None)"

subsection \<open>Filters\<close>

record managementAuditFilter =
  af_channelID :: "u32 option"
  af_since :: "gotime option"
  af_until :: "gotime option"
  af_action :: string
  af_result :: string

text \<open>\<^verbatim>\<open>managementActionPattern\<close>.\<close>

definition managementActionMatch :: "string \<Rightarrow> bool" where
  "managementActionMatch s =
     (let lower = (\<lambda>c. CHR ''a'' \<le> c \<and> c \<le> CHR ''z'') in
      case s of [] \<Rightarrow> False
      | c # cs \<Rightarrow> lower c \<and> list_all (\<lambda>x. lower x \<or> isDigit x \<or> x = CHR ''_'') cs \<and> length cs \<le> 63)"

text \<open>An optional field of the query: None when it is there and does not parse.\<close>

definition queryField :: "(string \<Rightarrow> 'a option) \<Rightarrow> string \<Rightarrow> 'a option option" where
  "queryField parse raw = (if raw = [] then Some None else map_option Some (parse raw))"

definition parseManagementAuditFilter :: "(string \<Rightarrow> gotime option) \<Rightarrow> httpRequest \<Rightarrow> managementAuditFilter option" where
  "parseManagementAuditFilter parseTime r =
     (let action = queryGet r ''action''; result = queryGet r ''result'' in
      case queryField (\<lambda>raw. parseManagementU32 raw False) (queryGet r ''channel_id'') of
        None \<Rightarrow> None
      | Some channelID \<Rightarrow>
          (case queryField parseTime (queryGet r ''since'') of
             None \<Rightarrow> None
           | Some since \<Rightarrow>
               (case queryField parseTime (queryGet r ''until'') of
                  None \<Rightarrow> None
                | Some until \<Rightarrow>
                    if (case (since, until) of (Some a, Some b) \<Rightarrow> \<not> a < b | _ \<Rightarrow> False) then None
                    else if action \<noteq> [] \<and> \<not> managementActionMatch action then None
                    else if result \<noteq> [] \<and> result \<noteq> ''success'' \<and> result \<noteq> ''denied'' \<and> result \<noteq> ''failed'' then None
                    else Some \<lparr>af_channelID = channelID, af_since = since, af_until = until, af_action = action, af_result = result\<rparr>)))"

definition filterKey :: "(gotime \<Rightarrow> string) \<Rightarrow> managementAuditFilter \<Rightarrow> string" where
  "filterKey rfc3339 filt =
     (let time = (\<lambda>t. case t of None \<Rightarrow> [] | Some t \<Rightarrow> rfc3339 t); sep = [CHR 0x00] in
      (case af_channelID filt of None \<Rightarrow> [] | Some c \<Rightarrow> decimal (unat c)) @ sep @ time (af_since filt) @ sep @ time (af_until filt) @
      sep @ af_action filt @ sep @ af_result filt)"

definition canAuditRecordLocked :: "managementPlane \<Rightarrow> managementService \<Rightarrow> managementAuditRecord \<Rightarrow> bool" where
  "canAuditRecordLocked p service rec =
     (if ms_apiRole service \<noteq> ''auditor'' then False
      else case ar_ChannelID rec of
        None \<Rightarrow> map_of (ms_global service) ''audit.read'' = Some True
      | Some channelID \<Rightarrow> hasChannelACL p (ms_serviceID service) channelID)"

text \<open>A record without a timestamp does not parse, and does not match.\<close>

definition recordMatchesAuditFilter :: "managementAuditRecord \<Rightarrow> managementAuditFilter \<Rightarrow> bool" where
  "recordMatchesAuditFilter rec filt =
     (if af_channelID filt \<noteq> None \<and> ar_ChannelID rec \<noteq> af_channelID filt then False
      else if af_action filt \<noteq> [] \<and> ar_Action rec \<noteq> af_action filt \<or> af_result filt \<noteq> [] \<and> ar_Result rec \<noteq> af_result filt then False
      else case ar_Timestamp rec of
        None \<Rightarrow> False
      | Some timestamp \<Rightarrow>
          \<not> ((case af_since filt of None \<Rightarrow> False | Some t \<Rightarrow> timestamp < t) \<or> (case af_until filt of None \<Rightarrow> False | Some t \<Rightarrow> \<not> timestamp < t)))"

subsection \<open>Cursors\<close>

record managementAuditCursor =
  cu_ServiceID :: string
  cu_Filter :: string
  cu_Snapshot :: u64
  cu_Offset :: int

definition marshalAuditCursor :: "managementAuditCursor \<Rightarrow> string" where
  "marshalAuditCursor c =
     jsonObject [field ''s'' (quoted (jsonText (cu_ServiceID c))), field ''f'' (quoted (jsonText (cu_Filter c))),
       field ''n'' (decimal (unat (cu_Snapshot c))),
       field ''o'' (if cu_Offset c < 0 then ''-'' @ decimal (nat (- cu_Offset c)) else decimal (nat (cu_Offset c)))]"

definition encodeAuditCursor :: "prims \<Rightarrow> managementPlane \<Rightarrow> managementAuditCursor \<Rightarrow> string" where
  "encodeAuditCursor pr p cursor =
     (let payload = bytes_of (marshalAuditCursor cursor) in
      b64Encode payload @ ''.'' @ b64Encode (hmacSHA256 pr (mp_cursorKey p) payload))"

definition decodeAuditCursor :: "prims \<Rightarrow> (bytes \<Rightarrow> managementAuditCursor option) \<Rightarrow> managementPlane \<Rightarrow> string \<Rightarrow> managementAuditCursor option" where
  "decodeAuditCursor pr jsonCursor p value =
     (case splitOn (CHR ''.'') value of
        [seg0, seg1] \<Rightarrow>
          (case (strictBase64URL seg0, strictBase64URL seg1) of
             (Some payload, Some tag) \<Rightarrow>
               if length tag \<noteq> 32 then None
               else if tag \<noteq> hmacSHA256 pr (mp_cursorKey p) payload then None
               else (case jsonCursor payload of
                   None \<Rightarrow> None
                 | Some cursor \<Rightarrow>
                     if cu_ServiceID cursor = [] \<or> cu_Filter cursor = [] \<or> cu_Snapshot cursor = 0 \<or> cu_Offset cursor < 0 then None
                     else Some cursor)
           | _ \<Rightarrow> None)
      | _ \<Rightarrow> None)"

subsection \<open>Pages\<close>

definition auditLimit :: "httpRequest \<Rightarrow> nat option" where
  "auditLimit r =
     (let raw = queryGet r ''limit'' in
      if raw = [] then Some 100
      else case Atoi raw of None \<Rightarrow> None | Some n \<Rightarrow> if n < 1 \<or> 1000 < n then None else Some (nat n))"

text \<open>The snapshot and the offset of a request: those of its cursor, or the end of the log and zero.\<close>

definition auditStart ::
  "prims \<Rightarrow> (bytes \<Rightarrow> managementAuditCursor option) \<Rightarrow> managementPlane \<Rightarrow> managementService \<Rightarrow> string \<Rightarrow> string \<Rightarrow> nat + u64 \<times> nat" where
  "auditStart pr jsonCursor p service key raw =
     (if raw = [] then Inr (mp_auditNext p, 0)
      else case decodeAuditCursor pr jsonCursor p raw of
        None \<Rightarrow> Inl 400
      | Some cursor \<Rightarrow>
          if cu_ServiceID cursor \<noteq> ms_serviceID service \<or> cu_Filter cursor \<noteq> key then Inl 400
          else if mp_audit p \<noteq> [] \<and> cu_Snapshot cursor < ar_sequence (mp_audit p ! 0) then Inl 410
          else Inr (cu_Snapshot cursor, nat (cu_Offset cursor)))"

definition auditMatches :: "managementPlane \<Rightarrow> managementService \<Rightarrow> managementAuditFilter \<Rightarrow> u64 \<Rightarrow> managementAuditRecord list" where
  "auditMatches p service filt snapshot =
     filter (\<lambda>rec. ar_sequence rec \<le> snapshot \<and> canAuditRecordLocked p service rec \<and> recordMatchesAuditFilter rec filt) (rev (mp_audit p))"

definition handleAuditRecords ::
  "prims \<Rightarrow> (string \<Rightarrow> gotime option) \<Rightarrow> (gotime \<Rightarrow> string) \<Rightarrow> (bytes \<Rightarrow> managementAuditCursor option) \<Rightarrow>
   managementPlane \<Rightarrow> httpRequest \<Rightarrow> managementService \<Rightarrow> managementReply" where
  "handleAuditRecords pr parseTime rfc3339 jsonCursor p r service =
     (if \<not> mp_auditRetrieval p then ReplyNotFound
      else if rq_Method r \<noteq> ''GET'' \<or> ms_apiRole service \<noteq> ''auditor'' then ReplyError 403
      else case parseManagementAuditFilter parseTime r of
        None \<Rightarrow> ReplyError 400
      | Some filt \<Rightarrow>
          if (case af_channelID filt of None \<Rightarrow> False | Some c \<Rightarrow> \<not> canAuditChannel p service c) then ReplyError 403
          else (case auditLimit r of
              None \<Rightarrow> ReplyError 400
            | Some limit \<Rightarrow>
                let key = filterKey rfc3339 filt in
                (case auditStart pr jsonCursor p service key (queryGet r ''cursor'') of
                   Inl status \<Rightarrow> ReplyError status
                 | Inr (snapshot, offset) \<Rightarrow>
                     let records = auditMatches p service filt snapshot in
                     if length records < offset then ReplyError 400
                     else let end = min (offset + limit) (length records);
                         nextCursor = (if end < length records
                           then Some (encodeAuditCursor pr p \<lparr>cu_ServiceID = ms_serviceID service, cu_Filter = key, cu_Snapshot = snapshot,
                             cu_Offset = int end\<rparr>) else None)
                       in ReplyJSON 200 (BodyAudit (take (end - offset) (drop offset records)) nextCursor))))"

subsection \<open>The log between two pages\<close>

definition retained :: "'a list \<Rightarrow> 'a list" where
  "retained log = drop (length log - managementAuditRetention) log"

lemma retained_again: "retained (retained log @ [x]) = retained (log @ [x])"
proof (cases "length log < 10000")
  case False
  then have "Suc (length log - 10000) = length log - 9999" by simp
  then show ?thesis by (simp add: retained_def)
qed (simp add: retained_def)

lemma appendAudit_log:
  assumes "mp_auditRetrieval p"
  shows "mp_auditNext (appendAudit now rec p) = mp_auditNext p + 1"
    and "\<exists>rec'. mp_audit (appendAudit now rec p) = retained (mp_audit p @ [rec']) \<and> ar_sequence rec' = mp_auditNext p + 1"
  using assms by (auto simp: appendAudit_def Let_def retained_def not_less intro!: exI)

definition appendAll :: "(gotime \<times> managementAuditRecord) list \<Rightarrow> managementPlane \<Rightarrow> managementPlane" where
  "appendAll recs p = foldl (\<lambda>p (now, rec). appendAudit now rec p) p recs"

lemma appendAudit_others:
  "mp_policy (appendAudit now rec p) = mp_policy p" "mp_auditRetrieval (appendAudit now rec p) = mp_auditRetrieval p"
  "mp_cursorKey (appendAudit now rec p) = mp_cursorKey p"
  by (simp_all add: appendAudit_def Let_def)

lemma appendAll_others:
  "mp_policy (appendAll recs p) = mp_policy p" "mp_auditRetrieval (appendAll recs p) = mp_auditRetrieval p"
  "mp_cursorKey (appendAll recs p) = mp_cursorKey p"
  by (induction recs arbitrary: p) (auto simp: appendAll_def appendAudit_others)

lemma appendAll_snoc: "appendAll (recs @ [(now, rec)]) p = appendAudit now rec (appendAll recs p)"
  by (simp add: appendAll_def)

lemma appendAll_next: "mp_auditRetrieval p \<Longrightarrow> mp_auditNext (appendAll recs p) = mp_auditNext p + of_nat (length recs)"
proof (induction recs rule: rev_induct)
  case (snoc x recs)
  then show ?case by (cases x) (simp add: appendAll_snoc appendAudit_log appendAll_others)
qed (simp add: appendAll_def)

lemma above_next: "unat n + Suc k < 2 ^ 64 \<Longrightarrow> n < n + of_nat k + (1 :: u64)"
proof -
  assume "unat n + Suc k < 2 ^ 64"
  moreover have "n + of_nat k + 1 = word_of_nat (unat n + Suc k)" by simp
  ultimately show ?thesis by (simp add: word_less_nat_alt unat_of_nat del: of_nat_add of_nat_Suc)
qed

lemma appendAll_log:
  assumes "mp_auditRetrieval p" "unat (mp_auditNext p) + length recs < 2 ^ 64" "mp_audit p = retained (mp_audit p)"
  shows "\<exists>new. length new = length recs \<and> (\<forall>rec\<in>set new. mp_auditNext p < ar_sequence rec) \<and>
    mp_audit (appendAll recs p) = retained (mp_audit p @ new)"
  using assms(2)
proof (induction recs rule: rev_induct)
  case Nil
  then show ?case using assms(3) by (simp add: appendAll_def)
next
  case (snoc x recs)
  let ?q = "appendAll recs p"
  obtain now rec where x: "x = (now, rec)" by fastforce
  from snoc obtain new where new: "length new = length recs" "\<forall>rec\<in>set new. mp_auditNext p < ar_sequence rec"
    "mp_audit ?q = retained (mp_audit p @ new)"
    by auto
  obtain rec' where rec': "mp_audit (appendAudit now rec ?q) = retained (mp_audit ?q @ [rec'])" "ar_sequence rec' = mp_auditNext ?q + 1"
    using appendAudit_log(2) [of ?q now rec] assms(1) by (auto simp: appendAll_others)
  have "mp_auditNext p < ar_sequence rec'"
    using above_next [of "mp_auditNext p" "length recs"] snoc.prems by (simp add: rec'(2) appendAll_next [OF assms(1)])
  then have "length (new @ [rec']) = length (recs @ [x]) \<and> (\<forall>rec\<in>set (new @ [rec']). mp_auditNext p < ar_sequence rec)"
    using new(1,2) by auto
  moreover have "mp_audit (appendAll (recs @ [x]) p) = retained (mp_audit p @ new @ [rec'])"
    using rec'(1) retained_again [of "mp_audit p @ new" rec'] by (simp add: x appendAll_snoc new(3))
  ultimately show ?case by blast
qed

lemma rev_retained: "rev (retained log) = take managementAuditRetention (rev log)"
  by (cases "length log \<le> 10000") (simp_all add: retained_def rev_drop)

lemma auditMatches_later:
  assumes "mp_auditRetrieval p" "unat (mp_auditNext p) + length recs < 2 ^ 64" "mp_audit p = retained (mp_audit p)"
    and "snapshot \<le> mp_auditNext p"
  shows "auditMatches (appendAll recs p) service filt snapshot =
    filter (\<lambda>rec. ar_sequence rec \<le> snapshot \<and> canAuditRecordLocked p service rec \<and> recordMatchesAuditFilter rec filt)
      (take (managementAuditRetention - length recs) (rev (mp_audit p)))"
proof -
  obtain new where new: "length new = length recs" "\<forall>rec\<in>set new. mp_auditNext p < ar_sequence rec"
    "mp_audit (appendAll recs p) = retained (mp_audit p @ new)"
    using appendAll_log [OF assms(1-3)] by blast
  have "\<forall>rec\<in>set (take 10000 (rev new)). \<not> ar_sequence rec \<le> snapshot"
    using new(2) assms(4) by (metis in_set_takeD leD le_less_trans set_rev)
  moreover have "canAuditRecordLocked (appendAll recs p) = canAuditRecordLocked p"
    by (simp add: fun_eq_iff canAuditRecordLocked_def hasChannelACL_def appendAll_others split: option.split)
  ultimately show ?thesis
    by (simp add: auditMatches_def new(1,3) rev_retained filter_empty_conv)
qed

lemma decode_encode_cursor:
  assumes "\<And>k m. length (hmacSHA256 pr k m) = 32" "jsonCursor (bytes_of (marshalAuditCursor c)) = Some c"
    and "cu_ServiceID c \<noteq> []" "cu_Filter c \<noteq> []" "cu_Snapshot c \<noteq> 0" "0 \<le> cu_Offset c" "mp_cursorKey p' = mp_cursorKey p"
  shows "decodeAuditCursor pr jsonCursor p' (encodeAuditCursor pr p c) = Some c"
proof -
  have "CHR ''.'' \<notin> set (b64Encode x)" for x using b64Encode_ascii by blast
  then have split: "splitOn (CHR ''.'') (b64Encode a @ CHR ''.'' # b64Encode b) = [b64Encode a, b64Encode b]" for a b
    by (simp add: splitOn_append splitOn_field)
  have "bytes_of (marshalAuditCursor c) \<noteq> []" "hmacSHA256 pr k m \<noteq> []" for k m
    using assms(1) [of k m] by (auto simp: marshalAuditCursor_def jsonObject_def bytes_of_def)
  then show ?thesis using assms by (simp add: decodeAuditCursor_def encodeAuditCursor_def Let_def split strictBase64URL_Encode)
qed

definition withCursor :: "httpRequest \<Rightarrow> string \<Rightarrow> httpRequest" where
  "withCursor r cursor = r\<lparr>rq_Query := AList.update ''cursor'' cursor (rq_Query r)\<rparr>"

lemma queryGet_withCursor:
  "queryGet (withCursor r cursor) key = (if key = ''cursor'' then cursor else queryGet r key)"
  by (simp add: withCursor_def queryGet_def update_conv')

lemma queryGet_others:
  "queryGet (withCursor r cursor) ''action'' = queryGet r ''action''" "queryGet (withCursor r cursor) ''result'' = queryGet r ''result''"
  "queryGet (withCursor r cursor) ''channel_id'' = queryGet r ''channel_id''" "queryGet (withCursor r cursor) ''since'' = queryGet r ''since''"
  "queryGet (withCursor r cursor) ''until'' = queryGet r ''until''" "queryGet (withCursor r cursor) ''limit'' = queryGet r ''limit''"
  by (simp_all add: queryGet_withCursor)

lemma withCursor_same:
  "parseManagementAuditFilter parseTime (withCursor r cursor) = parseManagementAuditFilter parseTime r"
  "auditLimit (withCursor r cursor) = auditLimit r" "rq_Method (withCursor r cursor) = rq_Method r"
  unfolding parseManagementAuditFilter_def auditLimit_def queryGet_others by (simp_all add: withCursor_def)

lemma filterKey_nonempty: "filterKey rfc3339 filt \<noteq> []"
  by (simp add: filterKey_def Let_def)

lemma audit_reply:
  assumes "handleAuditRecords pr parseTime rfc3339 jsonCursor p r service = ReplyJSON 200 (BodyAudit page cursor)"
    and "parseManagementAuditFilter parseTime r = Some filt" "auditLimit r = Some limit"
    and "auditStart pr jsonCursor p service (filterKey rfc3339 filt) (queryGet r ''cursor'') = Inr (snapshot, offset)"
  shows "mp_auditRetrieval p" "rq_Method r = ''GET''" "ms_apiRole service = ''auditor''"
    "\<not> (case af_channelID filt of None \<Rightarrow> False | Some c \<Rightarrow> \<not> canAuditChannel p service c)"
    "page = take limit (drop offset (auditMatches p service filt snapshot))"
    "\<And>c. cursor = Some c \<Longrightarrow> offset + limit < length (auditMatches p service filt snapshot) \<and> c = encodeAuditCursor pr p
       \<lparr>cu_ServiceID = ms_serviceID service, cu_Filter = filterKey rfc3339 filt, cu_Snapshot = snapshot, cu_Offset = int (offset + limit)\<rparr>"
  using assms by (auto simp: handleAuditRecords_def Let_def min_def split: if_splits)

lemma prefix_filter_take: "\<exists>ys. filter P xs = filter P (take n xs) @ ys"
  by (metis append_take_drop_id filter_append)

text \<open>The log in order: numbered upwards from one, and no longer than it is kept.\<close>

definition audit_log_ok :: "managementPlane \<Rightarrow> bool" where
  "audit_log_ok p \<longleftrightarrow> length (mp_audit p) \<le> managementAuditRetention \<and> sorted_wrt (<) (map ar_sequence (mp_audit p)) \<and>
     (\<forall>rec\<in>set (mp_audit p). 0 < ar_sequence rec \<and> ar_sequence rec \<le> mp_auditNext p)"

lemma sorted_wrt_retained: "sorted_wrt R xs \<Longrightarrow> sorted_wrt R (retained xs)"
  by (simp add: retained_def sorted_wrt_drop)

lemma map_retained: "map f (retained xs) = retained (map f xs)"
  by (simp add: retained_def drop_map)

lemma audit_log_append:
  assumes "audit_log_ok p" "mp_auditNext p < mp_auditNext p + 1"
  shows "audit_log_ok (appendAudit now rec p)"
proof (cases "mp_auditRetrieval p")
  case True
  obtain rec' where rec': "mp_audit (appendAudit now rec p) = retained (mp_audit p @ [rec'])" "ar_sequence rec' = mp_auditNext p + 1"
    using appendAudit_log(2) [OF True] by blast
  have "sorted_wrt (<) (map ar_sequence (mp_audit p @ [rec']))"
    using assms by (auto simp: audit_log_ok_def rec'(2) sorted_wrt_append)
  then have "sorted_wrt (<) (map ar_sequence (retained (mp_audit p @ [rec'])))"
    using sorted_wrt_retained by (simp only: map_retained)
  moreover have "length (retained (mp_audit p @ [rec'])) \<le> 10000" by (simp add: retained_def)
  moreover have "0 < ar_sequence r \<and> ar_sequence r \<le> mp_auditNext p + 1" if "r \<in> set (retained (mp_audit p @ [rec']))" for r
    using that assms le_less_trans [OF word_zero_le assms(2)] by (auto simp: audit_log_ok_def retained_def rec'(2) dest!: in_set_dropD)
  ultimately show ?thesis by (simp add: audit_log_ok_def rec' appendAudit_log(1) [OF True])
qed (use assms in \<open>simp add: appendAudit_def\<close>)


subsection \<open>Two pages\<close>

definition demoAuditor :: managementService where
  "demoAuditor = \<lparr>ms_serviceID = ''ops'', ms_apiRole = ''auditor'', ms_enabled = True, ms_global = []\<rparr>"

definition demoRecord :: "u64 \<Rightarrow> managementAuditRecord" where
  "demoRecord n = \<lparr>ar_Timestamp = Some 0, ar_ActorType = ''relay'', ar_ActorID = ''relay'', ar_ChannelID = Some 5,
     ar_Action = ''service_admission_revoked'', ar_Result = ''success'', ar_FloorInterrupt = None, ar_sequence = n\<rparr>"

definition demoAuditPlane :: managementPlane where
  "demoAuditPlane = demoPlane\<lparr>mp_auditRetrieval := True, mp_audit := [demoRecord 1, demoRecord 2], mp_auditNext := 2\<rparr>"

definition demoAuditRequest :: httpRequest where
  "demoAuditRequest = demoStreamRequest\<lparr>rq_Path := ''/v1/audit-records'', rq_Query := [(''limit'', ''1'')]\<rparr>"

definition demoAuditFilter :: managementAuditFilter where
  "demoAuditFilter = \<lparr>af_channelID = None, af_since = None, af_until = None, af_action = [], af_result = []\<rparr>"

definition demoCursor :: managementAuditCursor where
  "demoCursor = \<lparr>cu_ServiceID = ''ops'', cu_Filter = filterKey (\<lambda>_. []) demoAuditFilter, cu_Snapshot = 2, cu_Offset = 1\<rparr>"

lemma demo_audit_query:
  "parseManagementAuditFilter (\<lambda>_. None) demoAuditRequest = Some demoAuditFilter" "auditLimit demoAuditRequest = Some 1"
  "queryGet demoAuditRequest ''cursor'' = []" "rq_Method demoAuditRequest = ''GET''"
  by (simp_all add: demoAuditRequest_def demoStreamRequest_def parseManagementAuditFilter_def auditLimit_def queryGet_def queryField_def
      demoAuditFilter_def Atoi_def isDigit_def digitsValue_def Let_def)

lemma demo_audit_matches: "auditMatches demoAuditPlane demoAuditor demoAuditFilter 2 = [demoRecord 2, demoRecord 1]"
  by (simp add: auditMatches_def demoAuditPlane_def demoPlane_def demoRecord_def canAuditRecordLocked_def demoAuditor_def hasChannelACL_def
      channelACLs_def aclsOf_def demoManagementPolicy_def demoOperatorACL_def recordMatchesAuditFilter_def demoAuditFilter_def)


end
