(* ===== verification/Management_Grants.thy ===== *)
theory Management_Grants
  imports Management_Audit
begin

text \<open>
  The issuer of service admission grants inside the management plane (management.go). A grant is the JSON of its header and claims, as
  \<^verbatim>\<open>encoding/json\<close> writes it, in base64url with an Ed25519 signature; signing and the decoder of request bodies are parameters. What is
  issued is exactly what the channel policy allows.
\<close>

subsection \<open>Request bodies\<close>

record serviceGrantRequest =
  gr_ChannelID :: u32
  gr_SenderID :: u32
  gr_Role :: string
  gr_RequestTalk :: bool
  gr_RequestInterrupt :: bool
  gr_ServicePublicKey :: string

text \<open>\<open>dec\<close> is one call of the strict decoder: the value it reads from the front of its input, and the rest.\<close>

definition decodeManagementJSON :: "(bytes \<Rightarrow> ('a \<times> bytes) option) \<Rightarrow> bytes \<Rightarrow> 'a option" where
  "decodeManagementJSON dec body =
     (case dec (take (16 * 1024) body) of
        None \<Rightarrow> None
      | Some (target, rest) \<Rightarrow> if list_all (\<lambda>b. b \<in> {0x20, 0x09, 0x0A, 0x0D}) rest then Some target else None)"

subsection \<open>JSON of a grant\<close>

definition optionalNumber :: "nat option \<Rightarrow> string" where
  "optionalNumber value = (case value of None \<Rightarrow> ''null'' | Some n \<Rightarrow> decimal n)"

definition signedDecimal :: "int \<Rightarrow> string" where
  "signedDecimal v = (if v < 0 then ''-'' @ decimal (nat (- v)) else decimal (nat v))"

definition marshalGrantHeader :: "serviceGrantHeader \<Rightarrow> string" where
  "marshalGrantHeader h =
     jsonObject [field ''alg'' (quoted (jsonText (sgh_Algorithm h))), field ''kid'' (quoted (jsonText (sgh_KeyID h))),
       field ''typ'' (quoted (jsonText (sgh_Type h)))]"

definition marshalGrantClaims :: "serviceGrantClaims \<Rightarrow> string" where
  "marshalGrantClaims c =
     jsonObject [field ''iss'' (quoted (jsonText (sgc_Issuer c))), field ''aud'' (quoted (jsonText (sgc_Audience c))),
       field ''svc'' (quoted (jsonText (sgc_ServiceID c))), field ''jti'' (quoted (jsonText (sgc_GrantID c))),
       field ''iat'' (signedDecimal (sgc_IssuedAt c)), field ''exp'' (signedDecimal (sgc_ExpiresAt c)),
       field ''ch'' (decimal (unat (sgc_ChannelID c))), field ''sid'' (decimal (unat (sgc_SenderID c))),
       field ''role'' (quoted (jsonText (sgc_Role c))), field ''perm'' (decimal (unat (sgc_Permissions c))),
       field ''pri'' (optionalNumber (map_option unat (sgc_Priority c))),
       field ''grace_seconds'' (optionalNumber (map_option unat (sgc_GraceSeconds c))),
       field ''cnf'' (jsonObject [field ''jkt'' (quoted (jsonText (sgc_JWKThumbprint c)))])]"

subsection \<open>Issuing\<close>

unbundle bit_operations_syntax

datatype grantError = GrantRequest | GrantPublicKey | GrantUnauthorized | GrantPermissions | GrantReceiveOnly | GrantRandom | GrantSize

abbreviation (input) managementGrantLifetime :: duration where "managementGrantLifetime \<equiv> 300 * Second"

definition noACL :: managementChannelACL where
  "noACL = \<lparr>acl_serviceID = [], acl_channelID = 0, acl_senderID = 0, acl_admissionRole = [], acl_allowListen = False, acl_allowTalk = False,
     acl_allowInterrupt = False, acl_interruptPriority = 0, acl_enabled = False\<rparr>"

definition aclFor :: "managementPlane \<Rightarrow> string \<Rightarrow> u32 \<Rightarrow> u32 \<Rightarrow> managementChannelACL" where
  "aclFor p serviceID channelID senderID =
     (case map_of (channelACLs (mp_policy p) serviceID channelID) senderID of None \<Rightarrow> noACL | Some acl \<Rightarrow> acl)"

definition grantPermissions :: "serviceGrantRequest \<Rightarrow> u8" where
  "grantPermissions q =
     (let talk = (if gr_RequestTalk q then identityPermissionListen OR identityPermissionTalk else identityPermissionListen) in
      if gr_RequestInterrupt q then talk OR identityPermissionInterrupt else talk)"

definition grantPriority :: "managementChannelACL \<Rightarrow> serviceGrantRequest \<Rightarrow> u8" where
  "grantPriority acl q = (if gr_RequestInterrupt q then acl_interruptPriority acl else 0)"

definition grantHeader :: "managementPlane \<Rightarrow> serviceGrantHeader" where
  "grantHeader p = \<lparr>sgh_Algorithm = ''EdDSA'', sgh_KeyID = sig_keyID (mp_signer p), sgh_Type = ''incomudon-service-admission+jwt''\<rparr>"

definition grantClaims ::
  "prims \<Rightarrow> bytes \<Rightarrow> gotime \<Rightarrow> managementPlane \<Rightarrow> managementService \<Rightarrow> serviceGrantRequest \<Rightarrow> bytes \<Rightarrow> u8 \<Rightarrow> serviceGrantClaims" where
  "grantClaims pr jti now p service q publicKeyRaw priority =
     \<lparr>sgc_Issuer = mp_issuer p, sgc_Audience = mp_audience p, sgc_ServiceID = ms_serviceID service, sgc_GrantID = b64Encode jti,
      sgc_IssuedAt = Unix_of now, sgc_ExpiresAt = Unix_of (now + managementGrantLifetime), sgc_ChannelID = gr_ChannelID q,
      sgc_SenderID = gr_SenderID q, sgc_Role = gr_Role q, sgc_Permissions = grantPermissions q,
      sgc_Priority = (if grantPermissions q = 7 then Some priority else None), sgc_GraceSeconds = None,
      sgc_JWKThumbprint = b64Encode (sha256 pr publicKeyRaw)\<rparr>"

definition signGrant :: "(bytes \<Rightarrow> bytes \<Rightarrow> bytes) \<Rightarrow> bytes \<Rightarrow> serviceGrantHeader \<Rightarrow> serviceGrantClaims \<Rightarrow> string" where
  "signGrant sign key header claims =
     (let signingInput = b64Encode (bytes_of (marshalGrantHeader header)) @ ''.'' @ b64Encode (bytes_of (marshalGrantClaims claims))
      in signingInput @ ''.'' @ b64Encode (sign key (bytes_of signingInput)))"

definition issueGrant ::
  "prims \<Rightarrow> (bytes \<Rightarrow> bytes \<Rightarrow> bytes) \<Rightarrow> bytes option \<Rightarrow> gotime \<Rightarrow> managementPlane \<Rightarrow> managementService \<Rightarrow> serviceGrantRequest \<Rightarrow>
   grantError + string \<times> gotime \<times> u8 \<times> u8" where
  "issueGrant pr sign draw now p service q =
     (if gr_SenderID q = 0 \<or> gr_Role q \<noteq> ''recorder'' \<and> gr_Role q \<noteq> ''observer'' \<and> gr_Role q \<noteq> ''automation'' then Inl GrantRequest
      else case strictBase64URL (gr_ServicePublicKey q) of
        None \<Rightarrow> Inl GrantPublicKey
      | Some publicKeyRaw \<Rightarrow>
          if length publicKeyRaw \<noteq> publicKeySize then Inl GrantPublicKey
          else let acl = aclFor p (ms_serviceID service) (gr_ChannelID q) (gr_SenderID q) in
          if \<not> acl_enabled acl \<or> acl_admissionRole acl \<noteq> gr_Role q \<or>
             \<not> (ms_apiRole service = ''recorder'' \<or> ms_apiRole service = ''operator'') \<or>
             ms_apiRole service = ''recorder'' \<and> gr_Role q \<noteq> ''recorder''
          then Inl GrantUnauthorized
          else if gr_RequestTalk q \<and> \<not> acl_allowTalk acl \<or>
             gr_RequestInterrupt q \<and> (\<not> gr_RequestTalk q \<or> \<not> acl_allowInterrupt acl)
          then Inl GrantPermissions
          else if (gr_Role q = ''recorder'' \<or> gr_Role q = ''observer'') \<and> grantPermissions q \<noteq> identityPermissionListen
          then Inl GrantReceiveOnly
          else (case draw of
              None \<Rightarrow> Inl GrantRandom
            | Some jti \<Rightarrow>
                let priority = grantPriority acl q;
                    grant = signGrant sign (sig_key (mp_signer p)) (grantHeader p) (grantClaims pr jti now p service q publicKeyRaw priority)
                in if serviceGrantMaxBytes < length grant then Inl GrantSize
                   else Inr (grant, now + managementGrantLifetime, grantPermissions q, priority)))"

definition issuedRecord :: "managementService \<Rightarrow> u32 \<Rightarrow> managementAuditRecord" where
  "issuedRecord service channelID =
     \<lparr>ar_Timestamp = None, ar_ActorType = ''service'', ar_ActorID = ms_serviceID service, ar_ChannelID = Some channelID,
      ar_Action = ''service_admission_issued'', ar_Result = ''success'', ar_FloorInterrupt = None, ar_sequence = 0\<rparr>"

definition handleServiceGrants ::
  "prims \<Rightarrow> (bytes \<Rightarrow> bytes \<Rightarrow> bytes) \<Rightarrow> (bytes \<Rightarrow> (serviceGrantRequest \<times> bytes) option) \<Rightarrow> bytes option \<Rightarrow> gotime \<Rightarrow>
   httpRequest \<Rightarrow> managementService \<Rightarrow> managementPlane \<Rightarrow> managementReply \<times> managementPlane" where
  "handleServiceGrants pr sign dec draw now r service p =
     (if rq_Method r \<noteq> ''POST'' then (ReplyError 405, p)
      else case decodeManagementJSON dec (rq_Body r) of
        None \<Rightarrow> (ReplyError 400, p)
      | Some q \<Rightarrow>
          (case issueGrant pr sign draw now p service q of
             Inl _ \<Rightarrow> (ReplyError 403, p)
           | Inr (grant, expiresAt, _, _) \<Rightarrow>
               let p1 = appendAudit now (issuedRecord service (gr_ChannelID q)) p;
                   p2 = publishEvent (newEvent now ''service_admission_issued'' (Some (gr_ChannelID q)) (Some (gr_SenderID q))
                     (Some (ms_serviceID service)) None None None) p1
               in (ReplyJSON 201 (BodyGrant grant expiresAt), p2)))"

subsection \<open>What is issued\<close>

lemma aclFor_enabled: "acl_enabled (aclFor p sid c n) \<Longrightarrow> map_of (channelACLs (mp_policy p) sid c) n = Some (aclFor p sid c n)"
  by (auto simp: aclFor_def noACL_def split: option.splits)

lemma grantPermissions_values: "grantPermissions q =
  (if gr_RequestInterrupt q then (if gr_RequestTalk q then 7 else 5) else if gr_RequestTalk q then 3 else 1)"
  by (simp add: grantPermissions_def Let_def)

text \<open>
  C17. Who gets a grant: a request is answered with one exactly when it names a service key of 32 bytes and a non-zero sender, the policy has an
  enabled entry for that service, channel and sender under the role that is asked for, the service is an operator or a recorder that asks
  to record, and nothing beyond the entry is asked for: no speech without the right to talk, no interruption without speech and the right to
  interrupt, and no speech at all for a receive-only role. Only a failing random source or a grant that would be longer than the
  protocol allows stand in the way.
\<close>

theorem grant_authorised_exactly:
  "(\<exists>out. issueGrant pr sign draw now p service q = Inr out) \<longleftrightarrow>
    (\<exists>publicKey acl jti. strictBase64URL (gr_ServicePublicKey q) = Some publicKey \<and> length publicKey = 32 \<and> gr_SenderID q \<noteq> 0 \<and>
       map_of (channelACLs (mp_policy p) (ms_serviceID service) (gr_ChannelID q)) (gr_SenderID q) = Some acl \<and> acl_enabled acl \<and>
       acl_admissionRole acl = gr_Role q \<and> gr_Role q \<in> {''recorder'', ''observer'', ''automation''} \<and>
       (ms_apiRole service = ''operator'' \<or> ms_apiRole service = ''recorder'' \<and> gr_Role q = ''recorder'') \<and>
       (gr_RequestTalk q \<longrightarrow> acl_allowTalk acl \<and> gr_Role q = ''automation'') \<and>
       (gr_RequestInterrupt q \<longrightarrow> gr_RequestTalk q \<and> acl_allowInterrupt acl) \<and> draw = Some jti \<and>
       length (signGrant sign (sig_key (mp_signer p)) (grantHeader p)
         (grantClaims pr jti now p service q publicKey (grantPriority acl q))) \<le> 768)"
  (is "?issued \<longleftrightarrow> ?allowed")
proof
  assume ?issued
  then obtain out where out: "issueGrant pr sign draw now p service q = Inr out" ..
  then have "acl_enabled (aclFor p (ms_serviceID service) (gr_ChannelID q) (gr_SenderID q))"
    by (auto simp: issueGrant_def Let_def split: if_splits option.splits)
  from aclFor_enabled [OF this] out show ?allowed
    by (auto simp: issueGrant_def Let_def grantPermissions_values split: if_splits option.splits)
next
  assume ?allowed
  then show ?issued
    by (auto simp: issueGrant_def Let_def aclFor_def grantPermissions_values)
qed

end
