(* ===== verification/Management_Service.thy ===== *)
theory Management_Service
  imports Management_Grants
begin

text \<open>
  The management plane as a whole (management.go): its start from the configuration, the routes of its listener and the certificate
  check in front of every one of them. Loading a TLS key pair and finding certificates in a PEM file are parameters. What a client is told
  is confined to what its policy allows, every request is a sequence of the sections of the plane, and a grant that is issued
  is accepted by the Relay that started the plane.
\<close>

subsection \<open>Start\<close>

record managementPlaneConfig =
  mpc_listenAddress :: string
  mpc_certificateFile :: string
  mpc_privateKeyFile :: string
  mpc_clientCAFile :: string
  mpc_servicesCSV :: string
  mpc_channelACLCSV :: string
  mpc_globalPermissionsCSV :: string
  mpc_signingKeyFile :: string
  mpc_issuer :: string
  mpc_audience :: string
  mpc_eventDelivery :: managementEventDelivery
  mpc_secretPermissions :: secretFilePermissionPolicy

record tlsFiles =
  tls_NewKeyFromSeed :: "bytes \<Rightarrow> bytes"
  tls_LoadX509KeyPair :: "string \<Rightarrow> string \<Rightarrow> bool"
  tls_AppendCertsFromPEM :: "string \<Rightarrow> bool"

datatype startError = StartFields | StartPolicy policyError | StartSigner policyError | StartAdmission | StartVerificationKey |
  StartPermissions permissionError | StartCertificate | StartClientCA | StartPlane

text \<open>The public half of an Ed25519 private key is its last 32 bytes.\<close>

definition publicHalf :: "bytes \<Rightarrow> bytes" where
  "publicHalf key = drop 32 key"

definition startManagementPlane ::
  "files \<Rightarrow> tlsFiles \<Rightarrow> gotime \<Rightarrow> managementPlaneConfig \<Rightarrow> serviceAdmissionState option \<Rightarrow> startError + managementPlane" where
  "startManagementPlane fs tls now config serviceAdm =
     (if blankText (mpc_listenAddress config) \<or> blankText (mpc_certificateFile config) \<or> blankText (mpc_privateKeyFile config) \<or>
         blankText (mpc_clientCAFile config) \<or> blankText (mpc_signingKeyFile config)
      then Inl StartFields
      else case loadManagementPolicy fs (mpc_servicesCSV config) (mpc_channelACLCSV config) (mpc_globalPermissionsCSV config) of
        Inl e \<Rightarrow> Inl (StartPolicy e)
      | Inr policy \<Rightarrow>
          (case loadManagementGrantSigner fs (tls_NewKeyFromSeed tls) (mpc_signingKeyFile config) (mpc_secretPermissions config) of
             Inl e \<Rightarrow> Inl (StartSigner e)
           | Inr signer \<Rightarrow>
               (case serviceAdm of
                  None \<Rightarrow> Inl StartAdmission
                | Some a \<Rightarrow>
                    let verificationKey = (case map_of (sas_keys a) (sig_keyID signer) of None \<Rightarrow> [] | Some k \<Rightarrow> k) in
                    if length verificationKey \<noteq> publicKeySize \<or> verificationKey \<noteq> publicHalf (sig_key signer) then Inl StartVerificationKey
                    else (case validateSecretFilePermissions fs (mpc_privateKeyFile config) (mpc_secretPermissions config) of
                        Some e \<Rightarrow> Inl (StartPermissions e)
                      | None \<Rightarrow>
                          if \<not> tls_LoadX509KeyPair tls (mpc_certificateFile config) (mpc_privateKeyFile config) then Inl StartCertificate
                          else (case os_ReadFile fs (mpc_clientCAFile config) of
                              None \<Rightarrow> Inl StartClientCA
                            | Some caData \<Rightarrow>
                                if \<not> tls_AppendCertsFromPEM tls caData then Inl StartClientCA
                                else (case newManagementPlane policy signer (mpc_issuer config) (mpc_audience config)
                                    (mpc_eventDelivery config) of
                                    None \<Rightarrow> Inl StartPlane
                                  | Some plane \<Rightarrow> Inr (publishEvent
                                      (newEvent now ''relay_health_changed'' None None None None (Some ''healthy'') None) plane)))))))"

subsection \<open>Routes\<close>

text \<open>
  \<^verbatim>\<open>http.ServeMux\<close>: a path that is not clean is redirected, then an exact pattern wins over the subtree. The path is the decoded one; a
  request that percent-encodes a slash or a dot of its path is not covered.
\<close>

definition cleanElements :: "string list \<Rightarrow> string list" where
  "cleanElements segs =
     foldl (\<lambda>out seg. if seg = [] \<or> seg = ''.'' then out else if seg = ''..'' then butlast out else out @ [seg]) [] segs"

definition pathClean :: "string \<Rightarrow> string" where
  "pathClean path =
     (case cleanElements (splitOn (CHR ''/'') path) of [] \<Rightarrow> ''/'' | out \<Rightarrow> concat (map (\<lambda>seg. CHR ''/'' # seg) out))"

definition cleanPath :: "string \<Rightarrow> string" where
  "cleanPath path =
     (if path = [] then ''/''
      else let rooted = (if take 1 path \<noteq> ''/'' then CHR ''/'' # path else path); np = pathClean rooted in
        if hasSuffix rooted ''/'' \<and> np \<noteq> ''/'' then np @ ''/'' else np)"

definition withService ::
  "prims \<Rightarrow> (httpRequest \<Rightarrow> managementService \<Rightarrow> managementPlane \<Rightarrow> managementReply \<times> managementPlane) \<Rightarrow> httpRequest \<Rightarrow> managementPlane \<Rightarrow>
   managementReply \<times> managementPlane" where
  "withService pr next r p =
     (case serviceForRequest pr p r of None \<Rightarrow> (ReplyError 403, p) | Some service \<Rightarrow> next r service p)"

text \<open>What a request finds outside the plane: the signing function, the decoders, the clock, random bytes and the Relay.\<close>

record managementEnv =
  env_prims :: prims
  env_sign :: "bytes \<Rightarrow> bytes \<Rightarrow> bytes"
  env_decodeGrantRequest :: "bytes \<Rightarrow> (serviceGrantRequest \<times> bytes) option"
  env_decodeCursor :: "bytes \<Rightarrow> managementAuditCursor option"
  env_parseTime :: "string \<Rightarrow> gotime option"
  env_formatTime :: "gotime \<Rightarrow> string"
  env_rand :: "bytes option"
  env_now :: gotime
  env_server :: server

definition handler :: "managementEnv \<Rightarrow> httpRequest \<Rightarrow> managementPlane \<Rightarrow> managementReply \<times> managementPlane" where
  "handler env r p =
     (let pr = env_prims env; path = rq_Path r; asked = (\<lambda>pattern. path = pattern) in
      if rq_Method r \<noteq> ''CONNECT'' \<and> cleanPath path \<noteq> path then (ReplyRedirect (cleanPath path), p)
      else if asked ''/v1/health'' then withService pr (\<lambda>r service p. (handleHealth p r service, p)) r p
      else if asked ''/v1/channels'' then withService pr (\<lambda>r service p. (handleChannels p (env_server env) r service, p)) r p
      else if take 13 path = ''/v1/channels/'' then withService pr (\<lambda>r service p. (handleParticipants p (env_server env) r service, p)) r p
      else if asked ''/v1/events'' then withService pr handleEvents r p
      else if asked ''/v1/audit-records''
      then withService pr (\<lambda>r service p. (handleAuditRecords pr (env_parseTime env) (env_formatTime env) (env_decodeCursor env) p r service, p)) r p
      else if asked ''/v1/service-admission-grants''
      then withService pr (handleServiceGrants pr (env_sign env) (env_decodeGrantRequest env) (env_rand env) (env_now env)) r p
      else (ReplyNotFound, p))"

subsection \<open>A request is a sequence of sections\<close>

lemma steps_deliver: "steps (plane_section pr) p q \<Longrightarrow> steps (plane_section pr) p (foldl (\<lambda>p i. deliverEvent event i p) q ids)"
proof (induction ids arbitrary: q)
  case (Cons i ids)
  then show ?case using steps_step [OF Cons.prems sec_deliver [of pr q event i]] by simp
qed simp

lemma steps_publish:
  assumes "steps (plane_section pr) p q"
  shows "steps (plane_section pr) p (publishEvent event q)"
proof -
  obtain found q1 where number: "numberEvent event q = (found, q1)" by fastforce
  have "steps (plane_section pr) p q1" using steps_step [OF assms sec_number [of pr q event]] by (simp add: number)
  then show ?thesis by (auto simp: publishEvent_def number intro: steps_deliver split: option.split)
qed

lemma steps_audit: "steps (plane_section pr) p (appendAudit now rec p)"
  by (rule steps_single, rule sec_audit)

lemma steps_grants: "steps (plane_section pr) p (snd (handleServiceGrants pr sign dec draw now r service p))"
  by (auto simp: handleServiceGrants_def Let_def intro!: steps_publish [OF steps_audit] steps_refl
      split: option.split sum.split)

lemma handler_sections: "steps (plane_section (env_prims env)) p (snd (handler env r p))"
  by (auto simp: handler_def Let_def withService_def intro: steps_refl steps_grants steps_single sec_events split: option.split)

lemma start_facts:
  assumes "startManagementPlane fs tls now config (Some a) = Inr p"
  shows "loadManagementPolicy fs (mpc_servicesCSV config) (mpc_channelACLCSV config) (mpc_globalPermissionsCSV config) = Inr (mp_policy p) \<and>
    map_of (sas_keys a) (sig_keyID (mp_signer p)) = Some (publicHalf (sig_key (mp_signer p))) \<and>
    length (publicHalf (sig_key (mp_signer p))) = 32 \<and> mp_issuer p = mpc_issuer config \<and> mp_audience p = mpc_audience config \<and> plane_inv p"
proof -
  obtain policy signer plane event where *: "loadManagementPolicy fs (mpc_servicesCSV config) (mpc_channelACLCSV config)
      (mpc_globalPermissionsCSV config) = Inr policy"
    "newManagementPlane policy signer (mpc_issuer config) (mpc_audience config) (mpc_eventDelivery config) = Some plane"
    "p = publishEvent event plane" "length (case map_of (sas_keys a) (sig_keyID signer) of None \<Rightarrow> [] | Some k \<Rightarrow> k) = 32"
    "(case map_of (sas_keys a) (sig_keyID signer) of None \<Rightarrow> [] | Some k \<Rightarrow> k) = publicHalf (sig_key signer)"
    using assms by (auto simp: startManagementPlane_def Let_def split: if_splits sum.splits option.splits)
  have "plane_config p = plane_config plane" "plane_inv p"
    using config_plane [OF steps_publish [OF steps_refl, of undefined plane event]]
      plane_machine.inv_steps [OF steps_publish [OF steps_refl, of undefined plane event] inv_newPlane [OF *(2)]]
    by (simp_all add: *(3))
  with * show ?thesis by (auto simp: plane_config_def newManagementPlane_def split: if_splits option.splits)
qed

subsection \<open>What a client is told\<close>

definition known_service :: "prims \<Rightarrow> managementPlane \<Rightarrow> httpRequest \<Rightarrow> managementService \<Rightarrow> bool" where
  "known_service pr p r service \<longleftrightarrow> (\<exists>raw rest sid. rq_PeerCertificates r = raw # rest \<and>
     map_of (mpol_byCertificate (mp_policy p)) (hexString (sha256 pr raw)) = Some sid \<and>
     map_of (mpol_byService (mp_policy p)) sid = Some service \<and> ms_enabled service)"

definition may_listen :: "managementPlane \<Rightarrow> managementService \<Rightarrow> u32 \<Rightarrow> bool" where
  "may_listen p service c \<longleftrightarrow> (\<exists>n acl. (n, acl) \<in> set (channelACLs (mp_policy p) (ms_serviceID service) c) \<and> acl_enabled acl \<and> acl_allowListen acl)"

lemma serviceForRequest_service: "serviceForRequest pr p r = Some service \<Longrightarrow> known_service pr p r service"
  by (auto simp: serviceForRequest_def known_service_def split: list.splits option.splits if_splits)

lemma hasChannelACL_iff: "hasChannelACL p (ms_serviceID service) c \<longleftrightarrow> may_listen p service c"
  by (auto simp: hasChannelACL_def may_listen_def list_ex_iff)

definition reply_confined :: "managementPlane \<Rightarrow> managementService \<Rightarrow> server \<Rightarrow> managementBody \<Rightarrow> bool" where
  "reply_confined p service s body =
     (case body of
        BodyHealth _ _ \<Rightarrow> map_of (ms_global service) ''health.read'' = Some True
      | BodyChannels cs \<Rightarrow> canView service \<and> sorted (map fst cs) \<and>
          set cs = {(c, of_nat (length (ch_peers ch))) | c ch. (c, ch) \<in> set (s_channels s) \<and> may_listen p service c}
      | BodyParticipants c ps \<Rightarrow> canView service \<and> may_listen p service c \<and> ps = participantsOf c s
      | BodyAudit recs _ \<Rightarrow> mp_auditRetrieval p \<and> ms_apiRole service = ''auditor'' \<and>
          (\<forall>rec\<in>set recs. rec \<in> set (mp_audit p) \<and> (case ar_ChannelID rec of None \<Rightarrow> map_of (ms_global service) ''audit.read'' = Some True
             | Some c \<Rightarrow> may_listen p service c))
      | BodyGrant _ _ \<Rightarrow> (ms_apiRole service = ''operator'' \<or> ms_apiRole service = ''recorder'') \<and>
          (\<exists>c n acl. map_of (channelACLs (mp_policy p) (ms_serviceID service) c) n = Some acl \<and> acl_enabled acl))"

lemma channel_rows:
  "set (map (\<lambda>(c, ch). (c, f ch)) (filter (\<lambda>(c, _). P c) m)) = {(c, f ch) | c ch. (c, ch) \<in> set m \<and> P c}"
  by force

lemma channels_confined: "handleChannels p s r service = ReplyJSON code body \<Longrightarrow> reply_confined p service s body"
  by (auto simp only: handleChannels_def reply_confined_def channel_rows hasChannelACL_iff set_sort managementBody.case managementReply.inject
      managementReply.distinct sorted_sort_key split: if_splits)

lemma participants_confined: "handleParticipants p s r service = ReplyJSON code body \<Longrightarrow> reply_confined p service s body"
  by (auto simp: handleParticipants_def reply_confined_def hasChannelACL_iff canViewChannel_def split: if_splits list.splits option.splits)

lemma health_confined: "handleHealth p r service = ReplyJSON code body \<Longrightarrow> reply_confined p service s body"
  by (auto simp: handleHealth_def reply_confined_def canGlobal_def split: if_splits)

lemma audit_page:
  assumes "handleAuditRecords pr parseTime rfc3339 jsonCursor p r service = ReplyJSON code body"
  shows "mp_auditRetrieval p \<and> (\<exists>recs cursor filt n. body = BodyAudit recs cursor \<and> set recs \<subseteq> set (auditMatches p service filt n)) \<and>
    ms_apiRole service = ''auditor''"
  using assms set_take_subset set_drop_subset
  by (fastforce simp: handleAuditRecords_def Let_def split: if_splits option.splits sum.splits)

lemma audit_confined:
  assumes "handleAuditRecords pr parseTime rfc3339 jsonCursor p r service = ReplyJSON code body"
  shows "reply_confined p service s body"
  using audit_page [OF assms] by (fastforce simp: reply_confined_def auditMatches_def canAuditRecordLocked_def hasChannelACL_iff split: option.split)

lemma grants_confined:
  assumes "fst (handleServiceGrants pr sign dec draw now r service p) = ReplyJSON code body"
  shows "reply_confined p service s body"
proof -
  obtain q out where out: "issueGrant pr sign draw now p service q = Inr out" and body: "\<exists>g t. body = BodyGrant g t"
    using assms by (auto simp: handleServiceGrants_def Let_def split: if_splits option.splits sum.splits)
  then have "acl_enabled (aclFor p (ms_serviceID service) (gr_ChannelID q) (gr_SenderID q))"
    "ms_apiRole service = ''operator'' \<or> ms_apiRole service = ''recorder''"
    by (auto simp: issueGrant_def Let_def split: if_splits option.splits)
  moreover from aclFor_enabled [OF this(1)] this(1)
  have "\<exists>c n acl. map_of (channelACLs (mp_policy p) (ms_serviceID service) c) n = Some acl \<and> acl_enabled acl" by blast
  moreover obtain g t where "body = BodyGrant g t" using body by blast
  ultimately show ?thesis by (simp only: reply_confined_def managementBody.case)
qed

lemma events_reply: "fst (handleEvents r service p) \<noteq> ReplyJSON code body"
  by (auto simp: handleEvents_def split: prod.split)

text \<open>
  C15. What the management interface tells. Whatever a client asks, the plane changes only by its sections, and unless the client's certificate
  belongs to an enabled service the answer is a redirection, 404 or 403 and nothing changes. Content is confined to the policy: health to
  services that may read it; the list of channels, complete and sorted, to those with an entry that allows listening; participants to such
  a channel and a viewing role; audit records to auditors of the record's channel; grants to recorders and operators with an enabled entry;
  and an event stream opens only for a service that may see something.
\<close>

theorem management_confined:
  "steps (plane_section (env_prims env)) p (snd (handler env r p)) \<and>
   ((\<nexists>service. known_service (env_prims env) p r service) \<longrightarrow> snd (handler env r p) = p \<and>
      fst (handler env r p) \<in> {ReplyRedirect (cleanPath (rq_Path r)), ReplyNotFound, ReplyError 403}) \<and>
   (\<forall>code body. fst (handler env r p) = ReplyJSON code body \<longrightarrow>
      (\<exists>service. known_service (env_prims env) p r service \<and> reply_confined p service (env_server env) body)) \<and>
   (\<forall>i. fst (handler env r p) = ReplyStream i \<longrightarrow> (\<exists>service. known_service (env_prims env) p r service \<and> canStream p service))"
proof (intro conjI allI impI)
  let ?service = "serviceForRequest (env_prims env) p r"
  show "steps (plane_section (env_prims env)) p (snd (handler env r p))" by (rule handler_sections)
  {
    assume "\<nexists>service. known_service (env_prims env) p r service"
    then have "?service = None" using serviceForRequest_service by (cases ?service) blast+
    then show "snd (handler env r p) = p" "fst (handler env r p) \<in> {ReplyRedirect (cleanPath (rq_Path r)), ReplyNotFound, ReplyError 403}"
      by (auto simp: handler_def Let_def withService_def)
  }
  {
    fix code body assume reply: "fst (handler env r p) = ReplyJSON code body"
    then obtain service where service: "?service = Some service"
      by (cases ?service) (auto simp: handler_def Let_def withService_def split: if_splits)
    with reply have "reply_confined p service (env_server env) body"
      by (auto simp: handler_def Let_def withService_def events_reply split: if_splits
          intro: channels_confined participants_confined health_confined audit_confined grants_confined)
    with serviceForRequest_service [OF service] show "\<exists>service. known_service (env_prims env) p r service \<and> reply_confined p service (env_server env) body"
      by blast
  }
  fix i assume reply: "fst (handler env r p) = ReplyStream i"
  then obtain service where service: "?service = Some service"
    by (cases ?service) (auto simp: handler_def Let_def withService_def split: if_splits)
  with reply have "canStream p service"
    by (auto simp: handler_def Let_def withService_def handleEvents_def handleHealth_def handleChannels_def handleParticipants_def
        handleAuditRecords_def handleServiceGrants_def split: if_splits list.splits option.splits sum.splits prod.splits)
  with serviceForRequest_service [OF service] show "\<exists>service. known_service (env_prims env) p r service \<and> canStream p service" by blast
qed

subsection \<open>A grant on its way back to the Relay\<close>

lemma b64_grantID: "length jti = 16 \<Longrightarrow> serviceGrantIDMatch (b64Encode jti)"
proof -
  have "\<forall>x\<in>set b64Alphabet. alnum x \<or> x \<in> set ''_-''" by code_simp
  then have "list_all (\<lambda>x. alnum x \<or> x \<in> set ''_-'') (b64Encode jti)" using set_b64Encode [of jti] by (auto simp: list_all_iff)
  moreover assume "length jti = 16"
  ultimately show ?thesis by (simp add: serviceGrantIDMatch_def length_b64Encode)
qed

lemma Unix_of_lifetime: "Unix_of (now + 300 * Second) = Unix_of now + 300"
  by (simp add: Unix_of_def Second_def)

lemma issued_facts:
  assumes "issueGrant pr sign (Some jti) now p service q = Inr (grant, expiresAt, permissions, priority)"
    and "strictBase64URL (gr_ServicePublicKey q) = Some publicKey"
  shows "length publicKey = 32 \<and> gr_SenderID q \<noteq> 0 \<and> gr_Role q \<in> {''recorder'', ''observer'', ''automation''} \<and> expiresAt = now + 300 * Second \<and>
    length grant \<le> 768 \<and> permissions = grantPermissions q \<and> (gr_RequestTalk q \<longrightarrow> gr_Role q = ''automation'') \<and>
    (gr_RequestInterrupt q \<longrightarrow> gr_RequestTalk q) \<and>
    grant = signGrant sign (sig_key (mp_signer p)) (grantHeader p) (grantClaims pr jti now p service q publicKey priority) \<and>
    (\<exists>acl. map_of (channelACLs (mp_policy p) (ms_serviceID service) (gr_ChannelID q)) (gr_SenderID q) = Some acl \<and>
       priority = grantPriority acl q \<and> (gr_RequestInterrupt q \<longrightarrow> acl_allowInterrupt acl))"
proof -
  let ?acl = "aclFor p (ms_serviceID service) (gr_ChannelID q) (gr_SenderID q)"
  have "acl_enabled ?acl" using assms by (auto simp: issueGrant_def Let_def split: if_splits)
  from aclFor_enabled [OF this] assms show ?thesis
    by (auto simp: issueGrant_def Let_def grantPermissions_values split: if_splits)
qed

text \<open>
  C18. A grant that the management plane issues is accepted by the Relay that started it. When the plane started with the Relay's own issuer and
  audience, the Relay takes the grant, for the channel, the sender and the key it was asked for, at every moment from thirty seconds before the
  second of its issue until five minutes after it, with the service, the role, the permissions and the priority it was issued with and no
  grace. This rests on signatures verifying under the public half of the key that made them and on the JSON of a header and of
  claims decoding to what was encoded.
\<close>

theorem grant_admitted:
  assumes start: "startManagementPlane fs tls started config (Some a) = Inr p0" "steps (plane_section pr) p0 p"
    and names: "mpc_issuer config = sas_issuer a" "mpc_audience config = sas_audience a"
    and issue: "serviceForRequest pr p r = Some service" "length jti = 16"
      "issueGrant pr sign (Some jti) now p service q = Inr (grant, expiresAt, permissions, priority)"
      "strictBase64URL (gr_ServicePublicKey q) = Some publicKey"
    and signature: "\<And>m. length (sign (sig_key (mp_signer p)) m) = 64"
      "\<And>m. ed25519Verify pr (publicHalf (sig_key (mp_signer p))) m (sign (sig_key (mp_signer p)) m)"
    and digest: "\<And>m. length (sha256 pr m) = 32"
    and header: "jsonServiceHeader pr (bytes_of (marshalGrantHeader (grantHeader p))) = Some (grantHeader p)"
    and claims: "jsonServiceClaims pr (bytes_of (marshalGrantClaims (grantClaims pr jti now p service q publicKey priority))) =
      Some (grantClaims pr jti now p service q publicKey priority)"
    and clock: "0 \<le> Unix_of now" "time_Unix (Unix_of now) \<le> later + 30 * Second" "later < time_Unix (Unix_of now + 300)"
  shows "\<exists>adm. validateGrant pr a grant publicKey (gr_ChannelID q) (gr_SenderID q) later = Inr adm \<and> sa_serviceID adm = ms_serviceID service \<and>
    sa_role adm = gr_Role q \<and> sa_permissions adm = permissions \<and> sa_priority adm = priority \<and>
    sa_grantExpires adm = time_Unix (Unix_of expiresAt) \<and> sa_grace adm = 0"
proof -
  let ?h = "bytes_of (marshalGrantHeader (grantHeader p))" and ?key = "sig_key (mp_signer p)"
  let ?claims = "grantClaims pr jti now p service q publicKey priority"
  let ?c = "bytes_of (marshalGrantClaims ?claims)"
  have config: "plane_config p = plane_config p0" by (rule config_plane [OF start(2)])
  note started = start_facts [OF start(1)]
  have policy: "policy_wf (mp_policy p)" and keys: "map_of (sas_keys a) (sig_keyID (mp_signer p)) = Some (publicHalf ?key)"
    "length (publicHalf ?key) = 32" and issuer: "mp_issuer p = sas_issuer a" "mp_audience p = sas_audience a"
    using started config names loadManagementPolicy_wf by (auto simp: plane_config_def)
  note facts = issued_facts [OF issue(3,4)]
  then obtain acl where acl: "map_of (channelACLs (mp_policy p) (ms_serviceID service) (gr_ChannelID q)) (gr_SenderID q) = Some acl"
    "priority = grantPriority acl q" "gr_RequestInterrupt q \<longrightarrow> acl_allowInterrupt acl"
    by blast
  have priority: "if gr_RequestInterrupt q then priority \<noteq> 0 else priority = 0"
    using channelACLs_ok [OF policy] map_of_SomeD [OF acl(1)] acl(2,3)
    by (fastforce simp: acl_ok_def aclConsistent_def grantPriority_def)
  have service: "managedServiceIDMatch (ms_serviceID service)"
    using serviceForRequest_known(2) [OF issue(1)] policy by (auto simp: policy_wf_def service_ok_def)
  have "grant = b64Encode ?h @ ''.'' @ b64Encode ?c @ ''.'' @ b64Encode (sign ?key (bytes_of (b64Encode ?h @ ''.'' @ b64Encode ?c)))"
    using facts by (simp add: signGrant_def Let_def)
  then have "validateGrant pr a grant publicKey (gr_ChannelID q) (gr_SenderID q) later =
    validateGrantClaims pr a ?claims grant publicKey (gr_ChannelID q) (gr_SenderID q) later"
    by (rule validateGrant_signed [where header = "grantHeader p" and issuerKey = "publicHalf ?key", rotated 4])
      (use facts header claims keys signature in \<open>auto simp: grantHeader_def marshalGrantHeader_def marshalGrantClaims_def jsonObject_def bytes_of_def\<close>)
  moreover have "b64Encode (sha256 pr publicKey) \<noteq> []"
    using digest [of publicKey] length_b64Encode [of "sha256 pr publicKey"] by auto
  ultimately show ?thesis
    using facts priority service b64_grantID [OF issue(2)] issuer clock
    by (auto simp: validateGrantClaims_def grantClaims_def Let_def Unix_of_lifetime grantPermissions_values)
qed

end
