(* ===== verification/Private_Start.thy ===== *)
theory Private_Start
  imports Management_Service Private_Service
begin

text \<open>
  The start of the private control link (private_control.go, private_control_state_path.go, its two platform files and
  private_control_uds_linux.go): the checks of the path of the state file, the two listeners and the authentication of the connections they
  accept. The host is the inodes it has by path, what its symbolic links lead to, and which of its calls fail for reasons of their own.
  A link that starts has a private state directory and, over a UNIX socket, a socket that only its group can reach, and it has
  removed nothing but an old socket of its own.
\<close>

unbundle bit_operations_syntax

subsection \<open>Paths\<close>

text \<open>\<^verbatim>\<open>filepath.Clean\<close> and \<^verbatim>\<open>filepath.Dir\<close> where the separator is a slash.\<close>

definition cleanStep :: "bool \<Rightarrow> string list \<Rightarrow> string \<Rightarrow> string list" where
  "cleanStep rooted out seg =
     (if seg = [] \<or> seg = ''.'' then out
      else if seg = ''..'' then (if out \<noteq> [] \<and> last out \<noteq> ''..'' then butlast out else if rooted then out else out @ [''..''])
      else out @ [seg])"

fun joinSlash :: "string list \<Rightarrow> string" where
  "joinSlash [] = []"
| "joinSlash [seg] = seg"
| "joinSlash (seg # seg' # rest) = seg @ CHR ''/'' # joinSlash (seg' # rest)"

definition filepathClean :: "string \<Rightarrow> string" where
  "filepathClean path =
     (let rooted = take 1 path = ''/''; joined = joinSlash (foldl (cleanStep rooted) [] (splitOn (CHR ''/'') path)) in
      if rooted then CHR ''/'' # joined else if joined = [] then ''.'' else joined)"

definition filepathDir :: "string \<Rightarrow> string" where
  "filepathDir path = filepathClean (rev (dropWhile (\<lambda>c. c \<noteq> CHR ''/'') (rev path)))"

subsection \<open>The host\<close>

record hostInode = fileInfo +
  in_gid :: u32

record host =
  hf_os :: Config_Files.files
  hf_linux :: bool
  hf_egid :: u32
  hf_umask :: u32
  hf_nodes :: "(string, hostInode) gomap"
  hf_follow :: "string \<Rightarrow> hostInode option"
  hf_fails :: "string \<Rightarrow> string \<Rightarrow> bool"

datatype lstatResult = LstatFound hostInode | LstatMissing | LstatFails

definition trimSlash :: "string \<Rightarrow> string" where
  "trimSlash path = (let trimmed = rev (dropWhile (\<lambda>c. c = CHR ''/'') (rev path)) in if trimmed = [] \<and> path \<noteq> [] then ''/'' else trimmed)"

definition Lstat :: "host \<Rightarrow> string \<Rightarrow> lstatResult" where
  "Lstat h path =
     (if hf_fails h ''lstat'' path then LstatFails
      else case map_of (hf_nodes h) (trimSlash path) of None \<Rightarrow> LstatMissing | Some node \<Rightarrow> LstatFound node)"

definition Stat :: "host \<Rightarrow> string \<Rightarrow> hostInode option" where
  "Stat h path =
     (case Lstat h path of
        LstatFound node \<Rightarrow> if fi_kind node = SymlinkFile then hf_follow h (trimSlash path) else Some node
      | _ \<Rightarrow> None)"

definition setNode :: "string \<Rightarrow> hostInode \<Rightarrow> host \<Rightarrow> host" where
  "setNode path node h = h\<lparr>hf_nodes := AList.update (trimSlash path) node (hf_nodes h)\<rparr>"

definition dropNode :: "string \<Rightarrow> host \<Rightarrow> host" where
  "dropNode path h = h\<lparr>hf_nodes := AList.delete (trimSlash path) (hf_nodes h)\<rparr>"

definition newNode :: "fileKind \<Rightarrow> u32 \<Rightarrow> host \<Rightarrow> hostInode" where
  "newNode kind perm h = \<lparr>fi_kind = kind, fi_perm = perm AND NOT (hf_umask h), fi_uid = os_euid (hf_os h), in_gid = hf_egid h\<rparr>"

text \<open>\<^verbatim>\<open>os.MkdirAll\<close>: the directories that were made are there even when it fails.\<close>

definition parentPath :: "string \<Rightarrow> string" where
  "parentPath path = rev (dropWhile (\<lambda>c. c \<noteq> CHR ''/'') (dropWhile (\<lambda>c. c = CHR ''/'') (rev path)))"

definition mkdir :: "string \<Rightarrow> u32 \<Rightarrow> host \<Rightarrow> bool \<times> host" where
  "mkdir path perm h =
     (if hf_fails h ''mkdir'' path \<or> map_of (hf_nodes h) (trimSlash path) \<noteq> None
      then ((case Lstat h path of LstatFound node \<Rightarrow> fi_kind node = DirectoryFile | _ \<Rightarrow> False), h)
      else (True, setNode path (newNode DirectoryFile perm h) h))"

lemma parentPath_shorter: "parentPath path \<noteq> [] \<Longrightarrow> length (parentPath path) < length path"
proof -
  let ?a = "dropWhile (\<lambda>c. c = CHR ''/'') (rev path)"
  assume nonempty: "parentPath path \<noteq> []"
  then have some: "?a \<noteq> []" unfolding parentPath_def by (metis dropWhile.simps(1) rev.simps(1))
  then have "hd ?a \<noteq> CHR ''/''" using hd_dropWhile [OF some] by simp
  with some have "length (dropWhile (\<lambda>c. c \<noteq> CHR ''/'') ?a) < length ?a"
    by (cases ?a) (simp_all add: less_Suc_eq_le length_dropWhile_le)
  then show ?thesis using length_dropWhile_le [of "\<lambda>c. c = CHR ''/''" "rev path"] by (simp add: parentPath_def)
qed

function MkdirAll :: "string \<Rightarrow> u32 \<Rightarrow> host \<Rightarrow> bool \<times> host" where
  "MkdirAll path perm h =
     (case Stat h path of
        Some node \<Rightarrow> (fi_kind node = DirectoryFile, h)
      | None \<Rightarrow>
          (case (if parentPath path = [] then (True, h) else MkdirAll (parentPath path) perm h) of
             (False, h1) \<Rightarrow> (False, h1)
           | (True, h1) \<Rightarrow> mkdir path perm h1))"
  by pat_completeness auto
termination
  by (relation "measure (\<lambda>(path, perm, h). length path)") (auto dest: parentPath_shorter)

declare MkdirAll.simps [simp del]

subsection \<open>The path of the state file\<close>

datatype statePathError = StateUnsupported | StateMkdir | DirInspect | DirKind | DirOwner | DirRights | DirOthers |
  FileInspect | FileKind | FileOwner | FileRights | FileOthers

definition requirePrivateControlStateOwner :: "host \<Rightarrow> hostInode \<Rightarrow> bool" where
  "requirePrivateControlStateOwner h info \<longleftrightarrow> fi_uid info = os_euid (hf_os h)"

definition validatePrivateControlStateDirectory :: "host \<Rightarrow> string \<Rightarrow> statePathError option" where
  "validatePrivateControlStateDirectory h directory =
     (case Lstat h directory of
        LstatFound info \<Rightarrow>
          if fi_kind info \<noteq> DirectoryFile then Some DirKind
          else if \<not> requirePrivateControlStateOwner h info then Some DirOwner
          else if fi_perm info AND 0x1C0 \<noteq> 0x1C0 then Some DirRights
          else if fi_perm info AND 0x3F \<noteq> 0 then Some DirOthers else None
      | _ \<Rightarrow> Some DirInspect)"

definition checkStateFile :: "host \<Rightarrow> string \<Rightarrow> statePathError option" where
  "checkStateFile h path =
     (case Lstat h path of
        LstatMissing \<Rightarrow> None
      | LstatFails \<Rightarrow> Some FileInspect
      | LstatFound info \<Rightarrow>
          if fi_kind info \<noteq> RegularFile then Some FileKind
          else if \<not> requirePrivateControlStateOwner h info then Some FileOwner
          else if fi_perm info AND 0x180 \<noteq> 0x180 then Some FileRights
          else if fi_perm info AND 0x3F \<noteq> 0 then Some FileOthers else None)"

definition preparePrivateControlStatePath :: "string \<Rightarrow> host \<Rightarrow> statePathError option \<times> host" where
  "preparePrivateControlStatePath path h =
     (if os_windows (hf_os h) then (Some StateUnsupported, h)
      else case MkdirAll (filepathDir path) 0x1C0 h of
        (False, h1) \<Rightarrow> (Some StateMkdir, h1)
      | (True, h1) \<Rightarrow>
          (case validatePrivateControlStateDirectory h1 (filepathDir path) of
             Some e \<Rightarrow> (Some e, h1)
           | None \<Rightarrow> (checkStateFile h1 path, h1)))"

definition validatePrivateControlStatePath :: "string \<Rightarrow> secretFilePermissionPolicy \<Rightarrow> host \<Rightarrow> statePathError option \<times> host" where
  "validatePrivateControlStatePath path policy h =
     (if blankText path \<or> policy = permissionsOff then (None, h)
      else let policy' = (if policy = permissionsUnset then defaultSecretFilePermissionPolicy (hf_os h) else policy) in
        case preparePrivateControlStatePath path h of
          (None, h1) \<Rightarrow> (None, h1)
        | (Some e, h1) \<Rightarrow> (if policy' = permissionsWarn then None else Some e, h1))"

definition validatePrivateControlStateDurability :: "host \<Rightarrow> bool" where
  "validatePrivateControlStateDurability h \<longleftrightarrow> \<not> os_windows (hf_os h)"

subsection \<open>Listeners\<close>

record privateControlConfig =
  pcc_transport :: string
  pcc_listenAddress :: string
  pcc_certificateFile :: string
  pcc_privateKeyFile :: string
  pcc_clientCAFile :: string
  pcc_servicesCSV :: string
  pcc_udsSocketPath :: string
  pcc_udsSocketGroup :: string
  pcc_udsServicesCSV :: string
  pcc_relayID :: string
  pcc_stateFile :: string
  pcc_secretPermissions :: secretFilePermissionPolicy

datatype listenError = UdsPlatform | UdsRelative | UdsGroup | UdsParentInspect | UdsParentKind | UdsParentWritable | UdsParentOwner |
  UdsExistingKind | UdsExistingOwner | UdsRemove | UdsInspect | UdsListen | UdsChown | UdsChmod |
  TlsPermissions permissionError | TlsCertificate | TlsClientCA | TcpListen | ListenTransport

text \<open>An old socket of the Relay's own user is removed; anything else in its place is an error.\<close>

definition clearSocketPath :: "string \<Rightarrow> host \<Rightarrow> listenError option \<times> host" where
  "clearSocketPath socketPath h =
     (case Lstat h socketPath of
        LstatFound existing \<Rightarrow>
          if fi_kind existing \<noteq> SocketFile then (Some UdsExistingKind, h)
          else if fi_uid existing \<noteq> os_euid (hf_os h) then (Some UdsExistingOwner, h)
          else if hf_fails h ''remove'' socketPath then (Some UdsRemove, h)
          else (None, dropNode socketPath h)
      | LstatMissing \<Rightarrow> (None, h)
      | LstatFails \<Rightarrow> (Some UdsInspect, h))"

text \<open>\<^verbatim>\<open>net.ListenUnix\<close> makes the socket; a listener that is closed unlinks it.\<close>

definition listenSocket :: "string \<Rightarrow> u32 \<Rightarrow> host \<Rightarrow> listenError option \<times> host" where
  "listenSocket socketPath groupID h =
     (if hf_fails h ''listen'' socketPath \<or> map_of (hf_nodes h) (trimSlash socketPath) \<noteq> None then (Some UdsListen, h)
      else let node = newNode SocketFile 0x1FF h; h1 = setNode socketPath node h in
        if hf_fails h ''chown'' socketPath then (Some UdsChown, dropNode socketPath h1)
        else let h2 = setNode socketPath (node\<lparr>in_gid := groupID\<rparr>) h1 in
          if hf_fails h ''chmod'' socketPath then (Some UdsChmod, dropNode socketPath h2)
          else (None, setNode socketPath (node\<lparr>in_gid := groupID, fi_perm := 0x1B0\<rparr>) h2))"

definition checkSocketParent :: "string \<Rightarrow> host \<Rightarrow> listenError option" where
  "checkSocketParent parent h =
     (case Lstat h parent of
        LstatFound info \<Rightarrow>
          if fi_kind info \<noteq> DirectoryFile then Some UdsParentKind
          else if fi_perm info AND 0x12 \<noteq> 0 then Some UdsParentWritable
          else if fi_uid info \<noteq> os_euid (hf_os h) then Some UdsParentOwner else None
      | _ \<Rightarrow> Some UdsParentInspect)"

definition socketGroup :: "string \<Rightarrow> u32 option" where
  "socketGroup value = (case ParseUint 32 value of None \<Rightarrow> None | Some groupID \<Rightarrow> if groupID = 0 then None else Some (of_nat groupID))"

definition startPrivateControlUDSListener :: "privateControlConfig \<Rightarrow> host \<Rightarrow> listenError option \<times> host" where
  "startPrivateControlUDSListener config h =
     (if \<not> hf_linux h then (Some UdsPlatform, h)
      else let socketPath = filepathClean (pcc_udsSocketPath config) in
      if take 1 socketPath \<noteq> ''/'' then (Some UdsRelative, h)
      else case socketGroup (pcc_udsSocketGroup config) of
        None \<Rightarrow> (Some UdsGroup, h)
      | Some groupID \<Rightarrow>
          (case checkSocketParent (filepathDir socketPath) h of
             Some e \<Rightarrow> (Some e, h)
           | None \<Rightarrow>
               (case clearSocketPath socketPath h of
                  (Some e, h1) \<Rightarrow> (Some e, h1)
                | (None, h1) \<Rightarrow> listenSocket socketPath groupID h1)))"

definition startPrivateControlMTLSListener :: "tlsFiles \<Rightarrow> bool \<Rightarrow> privateControlConfig \<Rightarrow> host \<Rightarrow> listenError option" where
  "startPrivateControlMTLSListener tls listens config h =
     (case validateSecretFilePermissions (hf_os h) (pcc_privateKeyFile config) (pcc_secretPermissions config) of
        Some e \<Rightarrow> Some (TlsPermissions e)
      | None \<Rightarrow>
          if \<not> tls_LoadX509KeyPair tls (pcc_certificateFile config) (pcc_privateKeyFile config) then Some TlsCertificate
          else (case os_ReadFile (hf_os h) (pcc_clientCAFile config) of
              None \<Rightarrow> Some TlsClientCA
            | Some caData \<Rightarrow>
                if \<not> tls_AppendCertsFromPEM tls caData then Some TlsClientCA
                else if \<not> listens then Some TcpListen else None))"

definition startListener :: "tlsFiles \<Rightarrow> bool \<Rightarrow> privateControlConfig \<Rightarrow> host \<Rightarrow> listenError option \<times> host" where
  "startListener tls listens config h =
     (if pcc_transport config = ''mtls-tcp'' then (startPrivateControlMTLSListener tls listens config h, h)
      else if pcc_transport config = ''uds'' then startPrivateControlUDSListener config h
      else (Some ListenTransport, h))"

subsection \<open>Authentication of a connection\<close>

text \<open>What a listener accepted: a TLS connection, its handshake and certificates, or a UNIX connection and its peer's user.\<close>

datatype rawConnection =
    TLSConn bool "bytes list"
  | UnixConn "u32 option"
  | OtherConn

definition authenticatePrivateControlMTLSConnection :: "prims \<Rightarrow> rawConnection \<Rightarrow> privateControlPolicy \<Rightarrow> string option" where
  "authenticatePrivateControlMTLSConnection pr raw policy =
     (case raw of
        TLSConn handshake certificates \<Rightarrow>
          if \<not> handshake then None
          else (case certificates of
              [] \<Rightarrow> None
            | certificate # _ \<Rightarrow> map_of (pol_byCertificate policy) (hexString (sha256 pr certificate)))
      | _ \<Rightarrow> None)"

definition authenticatePrivateControlUDSConnection :: "host \<Rightarrow> rawConnection \<Rightarrow> privateControlPolicy \<Rightarrow> string option" where
  "authenticatePrivateControlUDSConnection h raw policy =
     (if \<not> hf_linux h then None
      else case raw of UnixConn (Some uid) \<Rightarrow> map_of (pol_byUID policy) uid | _ \<Rightarrow> None)"

definition authenticate :: "prims \<Rightarrow> host \<Rightarrow> privateControlConfig \<Rightarrow> rawConnection \<Rightarrow> privateControlPolicy \<Rightarrow> string option" where
  "authenticate pr h config raw policy =
     (if pcc_transport config = ''uds'' then authenticatePrivateControlUDSConnection h raw policy
      else authenticatePrivateControlMTLSConnection pr raw policy)"

subsection \<open>The start\<close>

datatype linkStartError = LinkRelayID | LinkStateFile | LinkDurability | LinkFields | LinkTransport | LinkPolicy policyError |
  LinkStatePath statePathError | LinkConfig | LinkRestore restoreError | LinkListen listenError

definition loadLinkPolicy :: "privateControlConfig \<Rightarrow> host \<Rightarrow> linkStartError + privateControlPolicy" where
  "loadLinkPolicy config h =
     (if pcc_transport config = ''mtls-tcp'' then
        (if blankText (pcc_listenAddress config) \<or> blankText (pcc_certificateFile config) \<or> blankText (pcc_privateKeyFile config) \<or>
            blankText (pcc_clientCAFile config) \<or> blankText (pcc_servicesCSV config)
         then Inl LinkFields
         else case loadPrivateControlPolicy (hf_os h) (pcc_servicesCSV config) of Inl e \<Rightarrow> Inl (LinkPolicy e) | Inr policy \<Rightarrow> Inr policy)
      else if pcc_transport config = ''uds'' then
        (if blankText (pcc_udsSocketPath config) \<or> blankText (pcc_udsSocketGroup config) \<or> blankText (pcc_udsServicesCSV config)
         then Inl LinkFields
         else case loadPrivateControlUDSPolicy (hf_os h) (pcc_udsServicesCSV config) of Inl e \<Rightarrow> Inl (LinkPolicy e) | Inr policy \<Rightarrow> Inr policy)
      else Inl LinkTransport)"

definition startPrivateControlLink ::
  "tlsFiles \<Rightarrow> bool \<Rightarrow> (bytes \<Rightarrow> (privateControlPersistentState \<times> bool) option) \<Rightarrow> bool \<Rightarrow> Private_State.files \<Rightarrow> bytes \<Rightarrow> gotime \<Rightarrow>
   server \<Rightarrow> privateControlConfig \<Rightarrow> host \<Rightarrow> (linkStartError + privateControlLink) \<times> host" where
  "startPrivateControlLink tls listens decode readable stateFiles entropy now server config h =
     (let revocationEnabled = (case s_serviceAdmission server of None \<Rightarrow> False | Some a \<Rightarrow> sas_mode a \<noteq> serviceAdmissionOff) in
      if blankText (pcc_relayID config) then (Inl LinkRelayID, h)
      else if revocationEnabled \<and> blankText (pcc_stateFile config) then (Inl LinkStateFile, h)
      else if revocationEnabled \<and> \<not> validatePrivateControlStateDurability h then (Inl LinkDurability, h)
      else case loadLinkPolicy config h of
        Inl e \<Rightarrow> (Inl e, h)
      | Inr policy \<Rightarrow>
          (case validatePrivateControlStatePath (pcc_stateFile config) (pcc_secretPermissions config) h of
             (Some e, h1) \<Rightarrow> (Inl (LinkStatePath e), h1)
           | (None, h1) \<Rightarrow>
               (case newPrivateControlLink (Some server) policy (pcc_relayID config) (pcc_stateFile config) entropy of
                  None \<Rightarrow> (Inl LinkConfig, h1)
                | Some link \<Rightarrow>
                    (case (if blankText (pcc_stateFile config) then Inr link else restorePersistentState decode readable now stateFiles link) of
                       Inl e \<Rightarrow> (Inl (LinkRestore e), h1)
                     | Inr link' \<Rightarrow>
                         (case startListener tls listens config h1 of
                            (Some e, h2) \<Rightarrow> (Inl (LinkListen e), h2)
                          | (None, h2) \<Rightarrow> (Inr link', h2))))))"

subsection \<open>What a start changes\<close>

text \<open>Directories are only added.\<close>

definition grows :: "host \<Rightarrow> host \<Rightarrow> bool" where
  "grows h h' \<longleftrightarrow> h' = h\<lparr>hf_nodes := hf_nodes h'\<rparr> \<and> (\<forall>path node. map_of (hf_nodes h) path = Some node \<longrightarrow> map_of (hf_nodes h') path = Some node)"

lemma grows_refl: "grows h h"
  by (simp add: grows_def)

lemma grows_trans: "grows h1 h2 \<Longrightarrow> grows h2 h3 \<Longrightarrow> grows h1 h3"
  by (auto simp: grows_def) (metis host.surjective host.update_convs(5))

lemma grows_same: "grows h h' \<Longrightarrow> hf_os h' = hf_os h \<and> hf_linux h' = hf_linux h \<and> hf_fails h' = hf_fails h"
  unfolding grows_def by (metis host.select_convs(1,2,7) host.surjective host.update_convs(5))

lemma grows_mkdir: "grows h (snd (mkdir path perm h))"
  by (auto simp: mkdir_def grows_def setNode_def map_of_update)

lemma grows_MkdirAll: "grows h (snd (MkdirAll path perm h))"
proof (induction path perm h rule: MkdirAll.induct)
  case (1 path perm h)
  obtain ok h1 where parent: "(if parentPath path = [] then (True, h) else MkdirAll (parentPath path) perm h) = (ok, h1)" by fastforce
  show ?case
  proof (cases "Stat h path")
    case None
    then have "grows h h1" using 1 parent grows_refl by (auto split: if_splits)
    then show ?thesis
      using None parent grows_trans [OF _ grows_mkdir, of h h1 path perm] by (cases ok) (simp_all add: MkdirAll.simps [of path])
  qed (simp add: MkdirAll.simps [of path] grows_refl)
qed

lemma prepare_grows: "grows h (snd (preparePrivateControlStatePath path h))"
  using grows_MkdirAll [of h "filepathDir path" "0x1C0"]
  by (auto simp: preparePrivateControlStatePath_def grows_refl split: prod.split option.split bool.split)

lemma statePath_grows: "grows h (snd (validatePrivateControlStatePath path policy h))"
  using prepare_grows [of h path]
  by (auto simp: validatePrivateControlStatePath_def grows_refl Let_def split: prod.split option.split)

definition private_dir :: "host \<Rightarrow> string \<Rightarrow> bool" where
  "private_dir h path \<longleftrightarrow> (\<exists>info. map_of (hf_nodes h) (trimSlash path) = Some info \<and> fi_kind info = DirectoryFile \<and>
     fi_uid info = os_euid (hf_os h) \<and> fi_perm info AND 0x3F = 0)"

definition private_file :: "host \<Rightarrow> string \<Rightarrow> bool" where
  "private_file h path \<longleftrightarrow> (\<forall>info. map_of (hf_nodes h) (trimSlash path) = Some info \<longrightarrow> fi_kind info = RegularFile \<and>
     fi_uid info = os_euid (hf_os h) \<and> fi_perm info AND 0x3F = 0)"

lemma statePath_private:
  assumes "validatePrivateControlStatePath path permissionsRequired h = (None, h1)" "\<not> blankText path"
  shows "private_dir h1 (filepathDir path) \<and> private_file h1 path"
  using assms
  by (auto simp: validatePrivateControlStatePath_def preparePrivateControlStatePath_def validatePrivateControlStateDirectory_def checkStateFile_def
      requirePrivateControlStateOwner_def Lstat_def private_dir_def private_file_def Let_def
      split: if_splits prod.splits option.splits bool.splits lstatResult.splits)

definition relay_socket :: "host \<Rightarrow> u32 \<Rightarrow> hostInode" where
  "relay_socket h groupID = \<lparr>fi_kind = SocketFile, fi_perm = 0x1B0, fi_uid = os_euid (hf_os h), in_gid = groupID\<rparr>"

lemma listenSocket_done:
  assumes "listenSocket path groupID h = (None, h')"
  shows "map_of (hf_nodes h) (trimSlash path) = None \<and> map_of (hf_nodes h') = (map_of (hf_nodes h))(trimSlash path \<mapsto> relay_socket h groupID) \<and>
    hf_os h' = hf_os h"
  using assms by (auto simp: listenSocket_def Let_def setNode_def newNode_def relay_socket_def update_conv' split: if_splits)

lemma clearSocketPath_done:
  assumes "clearSocketPath path h = (None, h1)"
  shows "map_of (hf_nodes h1) = (map_of (hf_nodes h))(trimSlash path := None) \<and> hf_os h1 = hf_os h \<and>
    (\<forall>node. map_of (hf_nodes h) (trimSlash path) = Some node \<longrightarrow> fi_kind node = SocketFile \<and> fi_uid node = os_euid (hf_os h))"
  using assms by (auto simp: clearSocketPath_def Lstat_def dropNode_def delete_conv' fun_eq_iff split: if_splits option.splits lstatResult.splits)

lemma uds_done:
  assumes "startPrivateControlUDSListener config h = (None, h')"
  defines "path \<equiv> filepathClean (pcc_udsSocketPath config)"
  shows "hf_linux h \<and> take 1 path = ''/'' \<and> hf_os h' = hf_os h \<and>
    (\<exists>groupID. socketGroup (pcc_udsSocketGroup config) = Some groupID \<and>
       map_of (hf_nodes h') = (map_of (hf_nodes h))(trimSlash path \<mapsto> relay_socket h groupID)) \<and>
    (\<forall>node. map_of (hf_nodes h) (trimSlash path) = Some node \<longrightarrow> fi_kind node = SocketFile \<and> fi_uid node = os_euid (hf_os h)) \<and>
    (\<exists>info. map_of (hf_nodes h) (trimSlash (filepathDir path)) = Some info \<and> fi_kind info = DirectoryFile \<and> fi_perm info AND 0x12 = 0 \<and>
       fi_uid info = os_euid (hf_os h))"
proof -
  obtain groupID h1 where steps: "hf_linux h" "take 1 path = ''/''" "socketGroup (pcc_udsSocketGroup config) = Some groupID"
    "checkSocketParent (filepathDir path) h = None" "clearSocketPath path h = (None, h1)" "listenSocket path groupID h1 = (None, h')"
    using assms by (auto simp: startPrivateControlUDSListener_def Let_def split: if_splits option.splits prod.splits)
  note cleared = clearSocketPath_done [OF steps(5)] and listening = listenSocket_done [OF steps(6)]
  have "relay_socket h1 groupID = relay_socket h groupID" using cleared by (simp add: relay_socket_def)
  then have "map_of (hf_nodes h') = (map_of (hf_nodes h))(trimSlash path \<mapsto> relay_socket h groupID)"
    using cleared listening by simp
  moreover have "\<exists>info. map_of (hf_nodes h) (trimSlash (filepathDir path)) = Some info \<and> fi_kind info = DirectoryFile \<and> fi_perm info AND 0x12 = 0 \<and>
       fi_uid info = os_euid (hf_os h)"
    using steps(4) by (auto simp: checkSocketParent_def Lstat_def split: if_splits option.splits lstatResult.splits)
  ultimately show ?thesis using steps cleared listening by auto
qed

lemma restore_policy: "restorePersistentState decode readable now fs l = Inr l' \<Longrightarrow> l_policy l' = l_policy l \<and> l_relayID l' = l_relayID l"
  by (auto simp: restorePersistentState_def Let_def split: if_splits sum.splits)

lemma start_steps:
  assumes "startPrivateControlLink tls listens decode readable stateFiles entropy now server config h = (Inr l, h')"
  obtains h1 where "\<not> blankText (pcc_relayID config)"
    "(case s_serviceAdmission server of None \<Rightarrow> False | Some a \<Rightarrow> sas_mode a \<noteq> serviceAdmissionOff) \<Longrightarrow>
      \<not> blankText (pcc_stateFile config) \<and> \<not> os_windows (hf_os h)"
    "loadLinkPolicy config h = Inr (l_policy l)" "l_relayID l = pcc_relayID config" "length (l_relayID l) \<le> 128"
    "validatePrivateControlStatePath (pcc_stateFile config) (pcc_secretPermissions config) h = (None, h1)"
    "startListener tls listens config h1 = (None, h')"
proof -
  obtain policy link h1 where *: "loadLinkPolicy config h = Inr policy"
    "validatePrivateControlStatePath (pcc_stateFile config) (pcc_secretPermissions config) h = (None, h1)"
    "newPrivateControlLink (Some server) policy (pcc_relayID config) (pcc_stateFile config) entropy = Some link"
    "(if blankText (pcc_stateFile config) then Inr link else restorePersistentState decode readable now stateFiles link) = Inr l"
    "startListener tls listens config h1 = (None, h')"
    using assms by (auto simp: startPrivateControlLink_def Let_def split: if_splits option.splits prod.splits sum.splits)
  have "l_policy l = policy" "l_relayID l = pcc_relayID config" "length (pcc_relayID config) \<le> 128" "\<not> blankText (pcc_relayID config)"
    using *(3,4) restore_policy [of decode readable now stateFiles link l] by (auto simp: newPrivateControlLink_def split: if_splits)
  with * that [of h1] assms show ?thesis
    by (auto simp: startPrivateControlLink_def validatePrivateControlStateDurability_def Let_def split: if_splits)
qed

lemma of_nat_eq_0_iff_word: "n < 2 ^ 32 \<Longrightarrow> (of_nat n :: u32) = 0 \<longleftrightarrow> n = 0"
  by (auto simp: word_of_nat_eq_0_iff dest: dvd_imp_le)

lemma socketGroup_nonzero: "socketGroup value = Some groupID \<Longrightarrow> groupID \<noteq> 0"
  by (auto simp: socketGroup_def ParseUint_def take_bit_nat_eq_self of_nat_eq_0_iff_word split: option.splits if_splits)

lemma parseUID_nonzero: "parseUID t = Some uid \<Longrightarrow> uid \<noteq> 0"
  by (auto simp: parseUID_def ParseUint_def of_nat_eq_0_iff_word split: option.splits if_splits)

lemma uds_linux: "startPrivateControlUDSListener config h = (None, h') \<Longrightarrow> hf_linux h'"
  by (auto simp: startPrivateControlUDSListener_def clearSocketPath_def listenSocket_def setNode_def dropNode_def Let_def
      split: if_splits option.splits prod.splits lstatResult.splits)

lemma listener_changes:
  assumes "startListener tls listens config h1 = (None, h')"
  shows "hf_os h' = hf_os h1 \<and> (\<forall>path node. map_of (hf_nodes h1) path = Some node \<longrightarrow> map_of (hf_nodes h') path = Some node \<or>
    pcc_transport config = ''uds'' \<and> path = trimSlash (filepathClean (pcc_udsSocketPath config)) \<and> fi_kind node = SocketFile \<and>
    fi_uid node = os_euid (hf_os h1))"
  using assms uds_done [of config h1 h'] by (auto simp: startListener_def split: if_splits)


text \<open>
  C20. Who the link talks to. Once it has started, a connection is authenticated as a service exactly when the services table has an enabled row
  for it: over TLS after a handshake with a certificate whose digest the row names, over a UNIX socket with the peer's user, never
  zero; each transport knows its own kind of peer only.
\<close>

theorem link_peers_exact:
  assumes "startPrivateControlLink tls listens decode readable stateFiles entropy now server config h = (Inr l, h')"
  shows "if pcc_transport config = ''uds''
    then (\<exists>rows. strictCSVRows (hf_os h) (pcc_udsServicesCSV config) [''management_service_id'', ''uid'', ''enabled''] = Some rows \<and>
      (\<forall>raw sid. authenticate pr h' config raw (l_policy l) = Some sid \<longleftrightarrow>
         (\<exists>uid t. raw = UnixConn (Some uid) \<and> uid \<noteq> 0 \<and> parseUID t = Some uid \<and> [sid, t, ''true''] \<in> set rows)))
    else pcc_transport config = ''mtls-tcp'' \<and>
      (\<exists>rows. strictCSVRows (hf_os h) (pcc_servicesCSV config) [''management_service_id'', ''certificate_sha256'', ''enabled''] = Some rows \<and>
      (\<forall>raw sid. authenticate pr h' config raw (l_policy l) = Some sid \<longleftrightarrow>
         (\<exists>certificate rest. raw = TLSConn True (certificate # rest) \<and> managementHexMatch (hexString (sha256 pr certificate)) \<and>
            [sid, hexString (sha256 pr certificate), ''true''] \<in> set rows)))"
proof -
  obtain h1 where policy: "loadLinkPolicy config h = Inr (l_policy l)" and listener: "startListener tls listens config h1 = (None, h')"
    and state: "validatePrivateControlStatePath (pcc_stateFile config) (pcc_secretPermissions config) h = (None, h1)"
    using start_steps [OF assms] by metis
  show ?thesis
  proof (cases "pcc_transport config = ''uds''")
    case True
    have linux: "hf_linux h'" using listener True uds_linux [of config h1 h'] by (simp add: startListener_def)
    from policy True obtain rows table where rows: "strictCSVRows (hf_os h) (pcc_udsServicesCSV config) [''management_service_id'', ''uid'', ''enabled''] = Some rows"
      "privateControlRows parseUID rows [] [] [] = Inr table" "l_policy l = \<lparr>pol_byCertificate = [], pol_byUID = table\<rparr>"
      by (auto simp: loadLinkPolicy_def loadPrivateControlUDSPolicy_def split: if_splits option.splits sum.splits)
    then have "map_of table uid = Some sid \<longleftrightarrow> (\<exists>t. parseUID t = Some uid \<and> [sid, t, ''true''] \<in> set rows)" for uid sid
      using privateControlRows_exact [OF rows(2)] by (simp del: map_of_eq_Some_iff)
    then show ?thesis
      using True linux rows parseUID_nonzero
      by (auto simp: authenticate_def authenticatePrivateControlUDSConnection_def simp del: map_of_eq_Some_iff
          split: rawConnection.splits option.splits)
  next
    case False
    from policy False obtain rows table where rows: "strictCSVRows (hf_os h) (pcc_servicesCSV config) [''management_service_id'', ''certificate_sha256'', ''enabled''] = Some rows"
      "privateControlRows parseCertificate rows [] [] [] = Inr table" "l_policy l = \<lparr>pol_byCertificate = table, pol_byUID = []\<rparr>"
      and "pcc_transport config = ''mtls-tcp''"
      by (auto simp: loadLinkPolicy_def loadPrivateControlPolicy_def split: if_splits option.splits sum.splits)
    moreover have "map_of table cert = Some sid \<longleftrightarrow> managementHexMatch cert \<and> [sid, cert, ''true''] \<in> set rows" for cert sid
      using privateControlRows_exact [OF rows(2)] by (auto simp: parseCertificate_def simp del: map_of_eq_Some_iff split: if_splits)
    ultimately show ?thesis
      using False
      by (auto simp: authenticate_def authenticatePrivateControlMTLSConnection_def simp del: map_of_eq_Some_iff
          split: rawConnection.splits list.splits if_splits)
  qed
qed

end
