(* ===== verification/Management_Examples.thy ===== *)
theory Management_Examples
  imports Management_Service Relay_Machine
begin

text \<open>
  The properties of grants and of the management interface at work: a plane started from five files, an operator that asks for a
  grant with the right to interrupt, and a client without a certificate.
\<close>

subsection \<open>Plain text\<close>

definition plainChar :: "char \<Rightarrow> bool" where
  "plainChar c \<longleftrightarrow> c \<in> set ''ABCDEFGHIJKLMNOPQRSTUVWXYZabcdefghijklmnopqrstuvwxyz0123456789-_+.''"

lemma plain_escape: "plainChar c \<Longrightarrow> jsonEscape [c] = [c] \<and> runeLength [of_char c] = Some 1"
proof -
  have "\<forall>c\<in>set ''ABCDEFGHIJKLMNOPQRSTUVWXYZabcdefghijklmnopqrstuvwxyz0123456789-_+.''. jsonEscape [c] = [c] \<and> runeLength [of_char c] = Some 1"
    by code_simp
  then show "plainChar c \<Longrightarrow> jsonEscape [c] = [c] \<and> runeLength [of_char c] = Some 1" unfolding plainChar_def by blast
qed

lemma runeLength_first: "runeLength [b] = Some 1 \<Longrightarrow> runeLength (b # bs) = Some 1"
  by (simp add: runeLength_def del: utf8Count.simps split: if_splits)

lemma jsonText_plain: "\<forall>c\<in>set s. plainChar c \<Longrightarrow> jsonText s = s"
proof (induction s)
  case (Cons c s)
  then have "runeLength (bytes_of (c # s)) = Some 1" "jsonEscape [c] = [c]"
    using plain_escape [of c] runeLength_first [of "of_char c"] by (simp_all add: bytes_of_def)
  with Cons show ?case by simp
qed simp

lemma b64_plain: "jsonText (b64Encode bs) = b64Encode bs"
proof (rule jsonText_plain)
  have "\<forall>c\<in>set b64Alphabet. plainChar c" unfolding plainChar_def by code_simp
  then show "\<forall>c\<in>set (b64Encode bs). plainChar c" using set_b64Encode by blast
qed

subsection \<open>A grant\<close>

definition demoGrantRequest :: serviceGrantRequest where
  "demoGrantRequest = \<lparr>gr_ChannelID = 5, gr_SenderID = 12, gr_Role = ''automation'', gr_RequestTalk = True, gr_RequestInterrupt = True,
     gr_ServicePublicKey = b64Encode (replicate 32 4)\<rparr>"

definition demoStarted :: managementPlane where
  "demoStarted = demoPlane\<lparr>mp_eventNext := 1\<rparr>"

definition demoSign :: "bytes \<Rightarrow> bytes \<Rightarrow> bytes" where
  "demoSign key m = take 64 (m @ publicHalf key @ replicate 64 5)"

definition demoGrantClaimsIssued :: serviceGrantClaims where
  "demoGrantClaimsIssued = grantClaims demoPlanePrims (replicate 16 0) (time_Unix 0) demoStarted demoOperator demoGrantRequest (replicate 32 4) 9"

definition demoGrantPrims :: prims where
  "demoGrantPrims = demoPlanePrims\<lparr>jsonServiceHeader := (\<lambda>_. Some (grantHeader demoStarted)), jsonServiceClaims := (\<lambda>_. Some demoGrantClaimsIssued)\<rparr>"

definition demoIssued :: string where
  "demoIssued = signGrant demoSign (replicate 64 1) (grantHeader demoStarted) demoGrantClaimsIssued"

lemma demo_claims: "demoGrantClaimsIssued = \<lparr>sgc_Issuer = ''relay'', sgc_Audience = ''relay'', sgc_ServiceID = ''ops'', sgc_GrantID = b64Encode (replicate 16 0),
    sgc_IssuedAt = 0, sgc_ExpiresAt = 300, sgc_ChannelID = 5, sgc_SenderID = 12, sgc_Role = ''automation'', sgc_Permissions = 7, sgc_Priority = Some 9,
    sgc_GraceSeconds = None, sgc_JWKThumbprint = b64Encode (replicate 32 0xbb)\<rparr>"
  by (simp add: demoGrantClaimsIssued_def grantClaims_def demoStarted_def demoPlane_def demoOperator_def demoGrantRequest_def grantPermissions_values
      demoPlanePrims_def Unix_of_lifetime)

lemma demo_plain:
  "jsonText ''relay'' = ''relay''" "jsonText ''ops'' = ''ops''" "jsonText ''automation'' = ''automation''" "jsonText ''key-1'' = ''key-1''"
  "jsonText ''EdDSA'' = ''EdDSA''" "jsonText ''incomudon-service-admission+jwt'' = ''incomudon-service-admission+jwt''"
  by (rule jsonText_plain, simp add: plainChar_def)+

lemma demoSign_length: "length (demoSign key m) = 64"
  by (simp add: demoSign_def)

lemma demo_issued_length: "length demoIssued \<le> 768"
proof -
  have "length (marshalGrantClaims demoGrantClaimsIssued) \<le> 250"
    by (simp add: marshalGrantClaims_def demo_claims jsonObject_def field_def quoted_def demo_plain b64_plain length_b64Encode signedDecimal_def
        decimal.simps optionalNumber_def del: jsonText.simps)
  moreover have "length (marshalGrantHeader (grantHeader demoStarted)) \<le> 100"
    by (simp add: marshalGrantHeader_def grantHeader_def demoStarted_def demoPlane_def jsonObject_def field_def quoted_def demo_plain del: jsonText.simps)
  ultimately show ?thesis by (simp add: demoIssued_def signGrant_def Let_def length_b64Encode demoSign_length)
qed

lemma demo_entry: "map_of (channelACLs demoManagementPolicy ''ops'' 5) 12 = Some demoOperatorACL"
  by (simp add: demoManagementPolicy_def channelACLs_def aclsOf_def)

lemma demo_prims_same: "sha256 demoGrantPrims = sha256 demoPlanePrims" by (simp add: demoGrantPrims_def)

lemma demo_grant_claims: "grantClaims demoGrantPrims (replicate 16 0) (time_Unix 0) demoStarted demoOperator demoGrantRequest (replicate 32 4) 9 =
    demoGrantClaimsIssued"
  by (simp add: demoGrantClaimsIssued_def grantClaims_def demo_prims_same)

lemma demo_key: "strictBase64URL (gr_ServicePublicKey demoGrantRequest) = Some (replicate 32 4)"
  by (simp add: demoGrantRequest_def strictBase64URL_Encode)

theorem grant_authorised_exactly_witness:
  "\<exists>out. issueGrant demoGrantPrims demoSign (Some (replicate 16 0)) (time_Unix 0) demoStarted demoOperator demoGrantRequest = Inr out"
proof (rule grant_authorised_exactly [THEN iffD2], intro exI conjI)
  show "strictBase64URL (gr_ServicePublicKey demoGrantRequest) = Some (replicate 32 4)" by (rule demo_key)
  show "map_of (channelACLs (mp_policy demoStarted) (ms_serviceID demoOperator) (gr_ChannelID demoGrantRequest)) (gr_SenderID demoGrantRequest) =
      Some demoOperatorACL"
    using demo_entry by (simp add: demoStarted_def demoPlane_def demoOperator_def demoGrantRequest_def)
  show "length (signGrant demoSign (sig_key (mp_signer demoStarted)) (grantHeader demoStarted)
      (grantClaims demoGrantPrims (replicate 16 0) (time_Unix 0) demoStarted demoOperator demoGrantRequest (replicate 32 4)
        (grantPriority demoOperatorACL demoGrantRequest))) \<le> 768"
    using demo_issued_length demo_grant_claims
    by (simp add: demoIssued_def demoStarted_def demoPlane_def grantPriority_def demoGrantRequest_def [THEN arg_cong, of gr_RequestInterrupt]
        demoOperatorACL_def [THEN arg_cong, of acl_interruptPriority])
qed (simp_all add: demoGrantRequest_def demoOperatorACL_def demoOperator_def)

subsection \<open>A start\<close>

definition demoStartFiles :: files where
  "demoStartFiles = demoPolicyFiles\<lparr>os_ReadFile := (\<lambda>path.
     if path = ''sign'' then Some (csvText [[''kid'', ''ed25519_private_key_base64''], [''key-1'', stdBase64Encode (replicate 64 1)]])
     else if path = ''ca'' then Some [] else os_ReadFile demoPolicyFiles path)\<rparr>"

definition demoTLS :: tlsFiles where
  "demoTLS = \<lparr>tls_NewKeyFromSeed = (\<lambda>seed. seed @ seed), tls_LoadX509KeyPair = (\<lambda>_ _. True), tls_AppendCertsFromPEM = (\<lambda>_. True)\<rparr>"

definition demoPlaneConfig :: managementPlaneConfig where
  "demoPlaneConfig = \<lparr>mpc_listenAddress = ''sign'', mpc_certificateFile = ''ca'', mpc_privateKeyFile = ''sign'', mpc_clientCAFile = ''ca'',
     mpc_servicesCSV = ''services'', mpc_channelACLCSV = ''acl'', mpc_globalPermissionsCSV = ''globals'', mpc_signingKeyFile = ''sign'',
     mpc_issuer = ''relay'', mpc_audience = ''relay'', mpc_eventDelivery = deliveryLive, mpc_secretPermissions = permissionsRequired\<rparr>"

definition demoIssuerState :: serviceAdmissionState where
  "demoIssuerState = demoService\<lparr>sas_issuer := ''relay'', sas_audience := ''relay'', sas_keys := [(''key-1'', replicate 32 1)]\<rparr>"

lemma demo_start_texts: "\<not> blankText ''sign''" "\<not> blankText ''ca''" "CHR 0x0D \<notin> set ''kid''" "CHR 0x0D \<notin> set ''ed25519_private_key_base64''"
  "CHR 0x0D \<notin> set ''key-1''"
  by code_simp+

lemma demo_start_policy: "loadManagementPolicy demoStartFiles ''services'' ''acl'' ''globals'' = Inr demoManagementPolicy"
proof -
  have same: "strictCSVRows demoStartFiles ''services'' = strictCSVRows demoPolicyFiles ''services''"
    "strictCSVRows demoStartFiles ''acl'' = strictCSVRows demoPolicyFiles ''acl''"
    "strictCSVRows demoStartFiles ''globals'' = strictCSVRows demoPolicyFiles ''globals''"
    by (simp_all add: strictCSVRows_def fun_eq_iff demoStartFiles_def)
  show ?thesis using demo_policy_loads unfolding loadManagementPolicy_def same .
qed

lemma demo_permissions: "validateSecretFilePermissions demoStartFiles ''sign'' permissionsRequired = None"
  using demo_start_texts by (simp add: validateSecretFilePermissions_def secretFileError_def demoStartFiles_def demoPolicyFiles_def demoFiles_def)

lemma demo_key_text: "stdBase64Encode (replicate 64 1) \<noteq> []"
proof
  assume "stdBase64Encode (replicate 64 1) = []"
  then have "stdBase64Decode [] = Some (replicate 64 1)" using stdBase64_roundtrip [of "replicate 64 1"] by simp
  moreover have "stdBase64Decode [] = Some []" by code_simp
  ultimately show False by simp
qed

lemma demo_start_signer:
  "loadManagementGrantSigner demoStartFiles f ''sign'' permissionsRequired = Inr \<lparr>sig_keyID = ''key-1'', sig_key = replicate 64 1\<rparr>"
proof -
  have "strictCSVRows demoStartFiles ''sign'' [''kid'', ''ed25519_private_key_base64''] = Some [[''key-1'', stdBase64Encode (replicate 64 1)]]"
    using demo_start_texts texts_no_return demo_key_text by (intro strictCSVRows_text) (auto simp: demoStartFiles_def)
  then show ?thesis by (simp add: loadManagementGrantSigner_def demo_permissions stdBase64_roundtrip)
qed

lemma demo_start: "startManagementPlane demoStartFiles demoTLS (time_Unix 0) demoPlaneConfig (Some demoIssuerState) = Inr demoStarted"
proof -
  have "publishEvent event demoPlane = demoStarted" for event
    by (simp add: publishEvent_def numberEvent_def demoPlane_def demoStarted_def)
  moreover have "os_ReadFile demoStartFiles ''ca'' = Some []" by (simp add: demoStartFiles_def)
  ultimately show ?thesis
    using demo_start_texts demo_start_policy demo_start_signer demo_permissions demo_plane_new
    by (simp add: startManagementPlane_def demoPlaneConfig_def demoTLS_def demoIssuerState_def publicHalf_def)
qed

theorem grant_admitted_witness:
  "\<exists>adm. validateGrant demoGrantPrims demoIssuerState demoIssued (replicate 32 4) 5 12 (time_Unix 299) = Inr adm \<and> sa_permissions adm = 7 \<and>
     sa_priority adm = 9 \<and> sa_grantExpires adm = time_Unix 300"
proof -
  have signer: "sig_key (mp_signer demoStarted) = replicate 64 1" by (simp add: demoStarted_def demoPlane_def)
  have service: "serviceForRequest demoGrantPrims demoStarted demoStreamRequest = Some demoOperator"
  proof -
    have "mp_policy demoStarted = mp_policy demoPlane" by (simp add: demoStarted_def)
    then show ?thesis using demo_service unfolding serviceForRequest_def demo_prims_same by (simp only:)
  qed
  have acl: "aclFor demoStarted ''ops'' 5 12 = demoOperatorACL"
    using demo_entry by (simp add: aclFor_def demoStarted_def demoPlane_def)
  have issued: "issueGrant demoGrantPrims demoSign (Some (replicate 16 0)) (time_Unix 0) demoStarted demoOperator demoGrantRequest =
    Inr (demoIssued, time_Unix 0 + 300 * Second, 7, 9)"
    using demo_issued_length demo_key demo_grant_claims
    by (simp add: issueGrant_def acl demoOperator_def [THEN arg_cong, of ms_serviceID] demoOperator_def [THEN arg_cong, of ms_apiRole]
        demoGrantRequest_def [THEN arg_cong, of gr_ChannelID] demoGrantRequest_def [THEN arg_cong, of gr_SenderID]
        demoGrantRequest_def [THEN arg_cong, of gr_Role] demoGrantRequest_def [THEN arg_cong, of gr_RequestTalk]
        demoGrantRequest_def [THEN arg_cong, of gr_RequestInterrupt] demoOperatorACL_def [THEN arg_cong, of acl_enabled]
        demoOperatorACL_def [THEN arg_cong, of acl_admissionRole] demoOperatorACL_def [THEN arg_cong, of acl_allowTalk]
        demoOperatorACL_def [THEN arg_cong, of acl_allowInterrupt] demoOperatorACL_def [THEN arg_cong, of acl_interruptPriority]
        grantPermissions_values grantPriority_def signer Let_def demoIssued_def)
  have laws: "ed25519Verify demoGrantPrims (publicHalf (replicate 64 1)) m (demoSign (replicate 64 1) m)" "length (sha256 demoGrantPrims m) = 32"
    "jsonServiceHeader demoGrantPrims bs = Some (grantHeader demoStarted)" "jsonServiceClaims demoGrantPrims bs = Some demoGrantClaimsIssued" for m bs
    by (simp_all add: demoGrantPrims_def demoPlanePrims_def demoPrims_def demoSign_def)
  have clock: "time_Unix (Unix_of (time_Unix 0)) \<le> time_Unix 299 + 30 * Second" "time_Unix 299 < time_Unix (Unix_of (time_Unix 0) + 300)"
    unfolding Unix_of_time_Unix by (simp_all add: time_Unix_def Second_def)
  have names: "mpc_issuer demoPlaneConfig = sas_issuer demoIssuerState" "mpc_audience demoPlaneConfig = sas_audience demoIssuerState"
    by (simp_all add: demoPlaneConfig_def demoIssuerState_def)
  have asked: "gr_ChannelID demoGrantRequest = 5" "gr_SenderID demoGrantRequest = 12" by (simp_all add: demoGrantRequest_def)
  from grant_admitted [OF demo_start steps_refl names service _ issued demo_key, of "time_Unix 299", unfolded signer demo_grant_claims asked Unix_of_lifetime,
      OF _ demoSign_length laws(1,2,3,4) _ clock]
  show ?thesis by auto
qed

subsection \<open>Clients\<close>

definition demoEnv :: managementEnv where
  "demoEnv = \<lparr>env_prims = demoPlanePrims, env_sign = demoSign, env_decodeGrantRequest = (\<lambda>_. None), env_decodeCursor = (\<lambda>_. None),
     env_parseTime = (\<lambda>_. None), env_formatTime = (\<lambda>_. []), env_rand = None, env_now = time_Unix 0, env_server = demoRelay\<rparr>"

definition demoHealthRequest :: httpRequest where
  "demoHealthRequest = demoStreamRequest\<lparr>rq_Path := ''/v1/health''\<rparr>"

theorem management_confined_witness:
  "fst (handler demoEnv (demoHealthRequest\<lparr>rq_PeerCertificates := []\<rparr>) demoPlane) \<in> {ReplyRedirect ''/v1/health'', ReplyNotFound, ReplyError 403} \<and>
   (\<exists>service. known_service demoPlanePrims demoPlane demoHealthRequest service \<and> map_of (ms_global service) ''health.read'' = Some True)"
proof -
  have path: "cleanPath ''/v1/health'' = ''/v1/health''" by code_simp
  have "fst (handler demoEnv demoHealthRequest demoPlane) = ReplyJSON 200 (BodyHealth deliveryLive False)"
    using demo_service path
    by (simp add: handler_def demoHealthRequest_def demoEnv_def withService_def serviceForRequest_def demoStreamRequest_def handleHealth_def canGlobal_def
        demoPlane_def demoOperator_def split: option.splits if_splits)
  with management_confined [of demoEnv demoPlane demoHealthRequest]
  have "\<exists>service. known_service demoPlanePrims demoPlane demoHealthRequest service \<and> map_of (ms_global service) ''health.read'' = Some True"
    by (auto simp: reply_confined_def demoEnv_def)
  moreover have "\<nexists>service. known_service demoPlanePrims demoPlane (demoHealthRequest\<lparr>rq_PeerCertificates := []\<rparr>) service"
    by (simp add: known_service_def)
  ultimately show ?thesis
    using management_confined [of demoEnv demoPlane "demoHealthRequest\<lparr>rq_PeerCertificates := []\<rparr>"] path
    by (simp add: demoEnv_def demoHealthRequest_def)
qed

end
