(* ===== verification/Private_Start_Example.thy ===== *)
theory Private_Start_Example
  imports Private_Start Management_Examples
begin

text \<open>A private control link that starts over a UNIX socket, in place of an old socket, with a state file in a private directory.\<close>

definition demoServed :: server where
  "demoServed = demoRelay\<lparr>s_serviceAdmission := Some demoIssuerState\<rparr>"

definition demoLinkConfig :: privateControlConfig where
  "demoLinkConfig = \<lparr>pcc_transport = ''uds'', pcc_listenAddress = [], pcc_certificateFile = [], pcc_privateKeyFile = [], pcc_clientCAFile = [],
     pcc_servicesCSV = [], pcc_udsSocketPath = ''/run//r'', pcc_udsSocketGroup = ''5'', pcc_udsServicesCSV = ''uds'', pcc_relayID = ''uds'',
     pcc_stateFile = ''/st/f'', pcc_secretPermissions = permissionsRequired\<rparr>"

definition demoHost :: host where
  "demoHost = \<lparr>hf_os = demoPolicyFiles, hf_linux = True, hf_egid = 1000, hf_umask = 0x12, hf_nodes =
     [(''/run'', \<lparr>fi_kind = DirectoryFile, fi_perm = 0x1ED, fi_uid = 1000, in_gid = 1000\<rparr>),
      (''/st'', \<lparr>fi_kind = DirectoryFile, fi_perm = 0x1C0, fi_uid = 1000, in_gid = 1000\<rparr>),
      (''/run/r'', \<lparr>fi_kind = SocketFile, fi_perm = 0x1B0, fi_uid = 1000, in_gid = 1000\<rparr>)],
     hf_follow = (\<lambda>_. None), hf_fails = (\<lambda>_ _. False)\<rparr>"

lemma demo_paths: "filepathClean ''/run//r'' = ''/run/r''" "filepathDir ''/run/r'' = ''/run''" "filepathDir ''/st/f'' = ''/st''"
  "trimSlash ''/run/r'' = ''/run/r''" "trimSlash ''/run'' = ''/run''" "trimSlash ''/st'' = ''/st''" "trimSlash ''/st/f'' = ''/st/f''"
  "socketGroup ''5'' = Some 5" "\<not> blankText ''/st/f''" "\<not> blankText ''/run//r''" "\<not> blankText ''5''" "\<not> blankText ''uds''"
  by (simp_all add: socketGroup_def ParseUint_def isDigit_def digitsValue_def) code_simp+

lemma demo_euid: "os_euid demoPolicyFiles = 1000" "os_windows demoPolicyFiles = False"
  by (simp_all add: demoPolicyFiles_def demoFiles_def)

lemma demo_uds_policy: "loadPrivateControlUDSPolicy demoPolicyFiles ''uds'' = Inr \<lparr>pol_byCertificate = [], pol_byUID = [(7, ''mgmt-1'')]\<rparr>"
  using demo_policy_texts demo_tables(5) demo_numbers_parsed
  by (simp add: loadPrivateControlUDSPolicy_def parseManagementBool_def)

lemma demo_state_path: "validatePrivateControlStatePath ''/st/f'' permissionsRequired demoHost = (None, demoHost)"
  by (simp add: validatePrivateControlStatePath_def preparePrivateControlStatePath_def validatePrivateControlStateDirectory_def checkStateFile_def
      requirePrivateControlStateOwner_def MkdirAll.simps Stat_def Lstat_def demo_paths demo_euid demoHost_def)

lemma demo_listener: "\<exists>h'. startListener demoTLS True demoLinkConfig demoHost = (None, h')"
  by (simp add: startListener_def startPrivateControlUDSListener_def demoLinkConfig_def checkSocketParent_def clearSocketPath_def listenSocket_def
      Lstat_def demo_paths demo_euid demoHost_def dropNode_def Let_def)

lemma demo_link_starts:
  "\<exists>l h'. startPrivateControlLink demoTLS True (\<lambda>_. None) True [] [] (time_Unix 0) demoServed demoLinkConfig demoHost = (Inr l, h')"
proof -
  obtain h' where "startListener demoTLS True demoLinkConfig demoHost = (None, h')" using demo_listener by blast
  moreover have "loadLinkPolicy demoLinkConfig demoHost = Inr \<lparr>pol_byCertificate = [], pol_byUID = [(7, ''mgmt-1'')]\<rparr>"
    by (simp add: loadLinkPolicy_def demoLinkConfig_def demo_paths demo_uds_policy demoHost_def)
  moreover have "validatePrivateControlStatePath (pcc_stateFile demoLinkConfig) (pcc_secretPermissions demoLinkConfig) demoHost = (None, demoHost)"
    using demo_state_path by (simp add: demoLinkConfig_def)
  moreover have "restorePersistentState (\<lambda>_. None) True (time_Unix 0) [] link = Inr link"
    if "newPrivateControlLink (Some demoServed) \<lparr>pol_byCertificate = [], pol_byUID = [(7, ''mgmt-1'')]\<rparr> ''uds'' ''/st/f'' [] = Some link" for link
    using that by (auto simp: newPrivateControlLink_def restorePersistentState_def loadPrivateControlPersistentState_def demo_paths demoServed_def)
  ultimately show ?thesis
    by (simp add: startPrivateControlLink_def validatePrivateControlStateDurability_def demoLinkConfig_def demo_paths newPrivateControlLink_def
        demoHost_def demo_euid Let_def)
qed


theorem link_peers_exact_witness:
  "\<exists>l h'. startPrivateControlLink demoTLS True (\<lambda>_. None) True [] [] (time_Unix 0) demoServed demoLinkConfig demoHost = (Inr l, h') \<and>
     authenticate demoPrims h' demoLinkConfig (UnixConn (Some 7)) (l_policy l) = Some ''mgmt-1'' \<and>
     authenticate demoPrims h' demoLinkConfig (UnixConn (Some 0)) (l_policy l) = None"
proof -
  obtain l h' where start: "startPrivateControlLink demoTLS True (\<lambda>_. None) True [] [] (time_Unix 0) demoServed demoLinkConfig demoHost = (Inr l, h')"
    using demo_link_starts by blast
  have "authenticate demoPrims h' demoLinkConfig raw (l_policy l) = Some sid \<longleftrightarrow>
      (\<exists>uid t. raw = UnixConn (Some uid) \<and> uid \<noteq> 0 \<and> parseUID t = Some uid \<and> [sid, t, ''true''] = [''mgmt-1'', ''7'', ''true''])" for raw sid
    using link_peers_exact [OF start, of demoPrims] demo_tables(5) by (simp add: demoLinkConfig_def demoHost_def)
  then have "authenticate demoPrims h' demoLinkConfig (UnixConn (Some 7)) (l_policy l) = Some ''mgmt-1''"
    "authenticate demoPrims h' demoLinkConfig (UnixConn (Some 0)) (l_policy l) \<noteq> Some sid" for sid
    using demo_numbers_parsed by auto
  then show ?thesis using start by (metis not_None_eq)
qed

end
