(* ===== verification/Relay_Startup.thy ===== *)
theory Relay_Startup
  imports Private_Start_Example Directory_Service
begin

text \<open>
  The start of a Relay (main.go): the defaults from the environment, the checks and loaders in the order of \<^verbatim>\<open>main\<close>, and the services it starts. The
  command line is a function on the options, as \<^verbatim>\<open>flag.Parse\<close> changes what it names; every way out by \<^verbatim>\<open>log.Fatal\<close> is an error. A Relay that
  starts has a consistent configuration: nothing relies on an authentication that is not required or has no keys.
\<close>

subsection \<open>Errors in sequence\<close>

definition andThen :: "'e + 'a \<Rightarrow> ('a \<Rightarrow> 'e + 'b) \<Rightarrow> 'e + 'b" where
  "andThen r next = (case r of Inl e \<Rightarrow> Inl e | Inr a \<Rightarrow> next a)"

definition fatalIf :: "bool \<Rightarrow> 'e \<Rightarrow> 'e + 'a \<Rightarrow> 'e + 'a" where
  "fatalIf c e next = (if c then Inl e else next)"

definition orFatal :: "'e \<Rightarrow> 'a option \<Rightarrow> 'e + 'a" where
  "orFatal e r = (case r of None \<Rightarrow> Inl e | Some a \<Rightarrow> Inr a)"

definition asFatal :: "('d \<Rightarrow> 'e) \<Rightarrow> 'd + 'a \<Rightarrow> 'e + 'a" where
  "asFatal f r = (case r of Inl d \<Rightarrow> Inl (f d) | Inr a \<Rightarrow> Inr a)"

lemma andThen_Inr: "andThen r next = Inr b \<longleftrightarrow> (\<exists>a. r = Inr a \<and> next a = Inr b)"
  by (cases r) (simp_all add: andThen_def)

lemma fatalIf_Inr: "fatalIf c e next = Inr b \<longleftrightarrow> \<not> c \<and> next = Inr b"
  by (simp add: fatalIf_def)

lemma orFatal_Inr: "orFatal e r = Inr a \<longleftrightarrow> r = Some a"
  by (cases r) (simp_all add: orFatal_def)

lemma asFatal_Inr: "asFatal f r = Inr a \<longleftrightarrow> r = Inr a"
  by (cases r) (simp_all add: asFatal_def)

lemmas fatal_Inr = andThen_Inr fatalIf_Inr orFatal_Inr asFatal_Inr

subsection \<open>Options\<close>

text \<open>The issuer, audience, event delivery and permission policy inside the two service configurations are filled in when they are started.\<close>

record relayOptions =
  op_port :: int
  op_membershipLeaseSec :: int
  op_keepaliveIntervalSec :: int
  op_talkMaxSec :: int
  op_multiTalk :: bool
  op_maxActiveTalkers :: int
  op_directoryEnabled :: bool
  op_directoryTransport :: string
  op_directoryKeyFile :: string
  op_directoryChannelsCSV :: string
  op_directorySpeakersCSV :: string
  op_directoryDedicatedListen :: string
  op_directoryPublishInterval :: duration
  op_directoryFreshnessTTL :: duration
  op_controlAuthPolicy :: string
  op_controlKeyFile :: string
  op_controlCookieSecretFile :: string
  op_secretFilePermissions :: string
  op_identityAdmissionMode :: string
  op_identityIssuer :: string
  op_identityAudience :: string
  op_identitySigningKeyFile :: string
  op_serviceAdmissionMode :: string
  op_serviceAdmissionIssuer :: string
  op_serviceAdmissionAudience :: string
  op_serviceAdmissionSigningKeyFile :: string
  op_managementEnabled :: bool
  op_management :: managementPlaneConfig
  op_managementEventDelivery :: string
  op_privateControlEnabled :: bool
  op_privateControl :: privateControlConfig
  op_floorInterrupt :: bool
  op_noCrypto :: bool

definition ParseBool :: "string \<Rightarrow> bool option" where
  "ParseBool s =
     (if s \<in> {''1'', ''t'', ''T'', ''TRUE'', ''true'', ''True''} then Some True
      else if s \<in> {''0'', ''f'', ''F'', ''FALSE'', ''false'', ''False''} then Some False else None)"

text \<open>A variable that is empty or does not parse leaves the default.\<close>

definition envOr :: "(string \<Rightarrow> string) \<Rightarrow> string \<Rightarrow> (string \<Rightarrow> 'a option) \<Rightarrow> 'a \<Rightarrow> 'a" where
  "envOr getenv name parse def =
     (if getenv name = [] then def else case parse (getenv name) of None \<Rightarrow> def | Some v \<Rightarrow> v)"

definition AtoiWithin :: "(int \<Rightarrow> bool) \<Rightarrow> string \<Rightarrow> int option" where
  "AtoiWithin ok s = (case Atoi s of None \<Rightarrow> None | Some n \<Rightarrow> if ok n then Some n else None)"

definition nonEmptyOr :: "string \<Rightarrow> string \<Rightarrow> string" where
  "nonEmptyOr value def = (if value = [] then def else value)"

definition managementDefaults :: "(string \<Rightarrow> string) \<Rightarrow> managementPlaneConfig" where
  "managementDefaults getenv =
     \<lparr>mpc_listenAddress = getenv ''INCOMUDON_MANAGEMENT_LISTEN'', mpc_certificateFile = getenv ''INCOMUDON_MANAGEMENT_CERT_FILE'',
      mpc_privateKeyFile = getenv ''INCOMUDON_MANAGEMENT_KEY_FILE'', mpc_clientCAFile = getenv ''INCOMUDON_MANAGEMENT_CLIENT_CA_FILE'',
      mpc_servicesCSV = getenv ''INCOMUDON_MANAGEMENT_SERVICES_CSV'', mpc_channelACLCSV = getenv ''INCOMUDON_MANAGEMENT_CHANNEL_ACL_CSV'',
      mpc_globalPermissionsCSV = getenv ''INCOMUDON_MANAGEMENT_GLOBAL_PERMISSIONS_CSV'',
      mpc_signingKeyFile = getenv ''INCOMUDON_MANAGEMENT_SIGNING_KEY_FILE'', mpc_issuer = [], mpc_audience = [],
      mpc_eventDelivery = deliveryDisabled, mpc_secretPermissions = permissionsUnset\<rparr>"

definition privateControlDefaults :: "(string \<Rightarrow> string) \<Rightarrow> privateControlConfig" where
  "privateControlDefaults getenv =
     \<lparr>pcc_transport = getenv ''INCOMUDON_PRIVATE_CONTROL_TRANSPORT'', pcc_listenAddress = getenv ''INCOMUDON_PRIVATE_CONTROL_LISTEN'',
      pcc_certificateFile = getenv ''INCOMUDON_PRIVATE_CONTROL_CERT_FILE'', pcc_privateKeyFile = getenv ''INCOMUDON_PRIVATE_CONTROL_KEY_FILE'',
      pcc_clientCAFile = getenv ''INCOMUDON_PRIVATE_CONTROL_CLIENT_CA_FILE'', pcc_servicesCSV = getenv ''INCOMUDON_PRIVATE_CONTROL_SERVICES_CSV'',
      pcc_udsSocketPath = getenv ''INCOMUDON_PRIVATE_CONTROL_UDS_SOCKET_PATH'', pcc_udsSocketGroup = getenv ''INCOMUDON_PRIVATE_CONTROL_UDS_SOCKET_GROUP'',
      pcc_udsServicesCSV = getenv ''INCOMUDON_PRIVATE_CONTROL_UDS_SERVICES_CSV'', pcc_relayID = getenv ''INCOMUDON_PRIVATE_CONTROL_RELAY_ID'',
      pcc_stateFile = getenv ''INCOMUDON_PRIVATE_CONTROL_STATE_FILE'', pcc_secretPermissions = permissionsUnset\<rparr>"

definition relayDefaults :: "(string \<Rightarrow> duration option) \<Rightarrow> (string \<Rightarrow> string) \<Rightarrow> relayOptions" where
  "relayDefaults parseDuration getenv =
     \<lparr>op_port = 50000,
      op_membershipLeaseSec = envOr getenv ''INCOMUDON_MEMBERSHIP_LEASE_SEC'' Atoi (defaultMembershipLease div Second),
      op_keepaliveIntervalSec = envOr getenv ''INCOMUDON_KEEPALIVE_INTERVAL_SEC'' Atoi (defaultKeepaliveInterval div Second),
      op_talkMaxSec = envOr getenv ''INCOMUDON_TALK_MAX_SEC'' (AtoiWithin (\<lambda>n. 0 \<le> n)) 0,
      op_multiTalk = envOr getenv ''INCOMUDON_MULTI_TALK'' ParseBool False,
      op_maxActiveTalkers = envOr getenv ''INCOMUDON_MAX_ACTIVE_TALKERS'' (AtoiWithin (\<lambda>n. 1 \<le> n \<and> n \<le> maxActiveTalkersV1)) 2,
      op_directoryEnabled = envOr getenv ''INCOMUDON_DIRECTORY_ENABLED'' ParseBool False,
      op_directoryTransport = getenv ''INCOMUDON_DIRECTORY_TRANSPORT'', op_directoryKeyFile = getenv ''INCOMUDON_DIRECTORY_KEY_FILE'',
      op_directoryChannelsCSV = getenv ''INCOMUDON_DIRECTORY_CHANNELS_CSV'', op_directorySpeakersCSV = getenv ''INCOMUDON_DIRECTORY_SPEAKERS_CSV'',
      op_directoryDedicatedListen = getenv ''INCOMUDON_DIRECTORY_DEDICATED_LISTEN'',
      op_directoryPublishInterval = envOr getenv ''INCOMUDON_DIRECTORY_PUBLISH_INTERVAL'' parseDuration directoryDefaultPublishInterval,
      op_directoryFreshnessTTL = envOr getenv ''INCOMUDON_DIRECTORY_FRESHNESS_TTL'' parseDuration directoryDefaultFreshnessTTL,
      op_controlAuthPolicy = nonEmptyOr (getenv ''INCOMUDON_CONTROL_AUTH_POLICY'') ''off'',
      op_controlKeyFile = getenv ''INCOMUDON_CONTROL_KEY_FILE'', op_controlCookieSecretFile = getenv ''INCOMUDON_CONTROL_COOKIE_SECRET_FILE'',
      op_secretFilePermissions = getenv ''INCOMUDON_SECRET_FILE_PERMISSIONS'',
      op_identityAdmissionMode = nonEmptyOr (getenv ''INCOMUDON_IDENTITY_ADMISSION_MODE'') ''off'',
      op_identityIssuer = getenv ''INCOMUDON_IDENTITY_ISSUER'', op_identityAudience = getenv ''INCOMUDON_IDENTITY_AUDIENCE'',
      op_identitySigningKeyFile = getenv ''INCOMUDON_IDENTITY_SIGNING_KEY_FILE'',
      op_serviceAdmissionMode = nonEmptyOr (getenv ''INCOMUDON_SERVICE_ADMISSION_MODE'') ''off'',
      op_serviceAdmissionIssuer = getenv ''INCOMUDON_SERVICE_ADMISSION_ISSUER'', op_serviceAdmissionAudience = getenv ''INCOMUDON_SERVICE_ADMISSION_AUDIENCE'',
      op_serviceAdmissionSigningKeyFile = getenv ''INCOMUDON_SERVICE_ADMISSION_SIGNING_KEY_FILE'',
      op_managementEnabled = envOr getenv ''INCOMUDON_MANAGEMENT_ENABLED'' ParseBool False, op_management = managementDefaults getenv,
      op_managementEventDelivery = nonEmptyOr (getenv ''INCOMUDON_MANAGEMENT_EVENT_DELIVERY'') ''live'',
      op_privateControlEnabled = envOr getenv ''INCOMUDON_PRIVATE_CONTROL_ENABLED'' ParseBool False, op_privateControl = privateControlDefaults getenv,
      op_floorInterrupt = envOr getenv ''INCOMUDON_FLOOR_INTERRUPT_ENABLED'' ParseBool False, op_noCrypto = False\<rparr>"

subsection \<open>The configuration of the Relay\<close>

datatype mainError = FatalTalkMax | FatalTiming | FatalControlPolicy | FatalNoCrypto | FatalSecretPolicy | FatalControlKeys keyFileError |
  FatalCookieSecret keyFileError | FatalControlAuth controlAuthError | FatalIdentityMode | FatalIdentityKeys keyFileError | FatalIdentityControl |
  FatalIdentity admissionConfigError | FatalFloorInterrupt | FatalServiceMode | FatalServiceControl | FatalServiceKeys keyFileError |
  FatalService admissionConfigError | FatalListen | FatalDirectoryTransport | FatalDirectoryListen | FatalDirectory configError |
  FatalEventDelivery | FatalManagement startError | FatalSameListen | FatalPrivateControl linkStartError

text \<open>What the process finds: the host with its files, the clock, random bytes, the sockets it can open and the decoders of the state file.\<close>

record runtime =
  rt_prims :: prims
  rt_host :: host
  rt_tls :: tlsFiles
  rt_now :: gotime
  rt_entropy :: bytes
  rt_diagnostics :: relayDiagnosticsState
  rt_listenMedia :: bool
  rt_listenUDP :: "string \<Rightarrow> bool"
  rt_listenTCP :: bool
  rt_decodeState :: "bytes \<Rightarrow> (privateControlPersistentState \<times> bool) option"
  rt_stateReadable :: bool
  rt_stateFiles :: Private_State.files

text \<open>\<^verbatim>\<open>time.Duration(n) * time.Second\<close> in 64 bits.\<close>

definition durationSeconds :: "int \<Rightarrow> duration" where
  "durationSeconds n = sint (word_of_int (n * Second) :: u64)"

definition clampTalkers :: "int \<Rightarrow> int" where
  "clampTalkers n = (if n < 1 then 1 else if maxActiveTalkersV1 < n then maxActiveTalkersV1 else n)"

definition loadControlAuth :: "runtime \<Rightarrow> relayOptions \<Rightarrow> controlAuthPolicy \<Rightarrow> secretFilePermissionPolicy \<Rightarrow> mainError + controlAuthState" where
  "loadControlAuth rt op policy secretPermissions =
     andThen (asFatal FatalControlKeys (loadControlKeyStore (hf_os (rt_host rt)) (op_controlKeyFile op) secretPermissions)) (\<lambda>keys.
     andThen (asFatal FatalCookieSecret (loadCookieSecret (hf_os (rt_host rt)) (op_controlCookieSecretFile op) secretPermissions)) (\<lambda>secret.
     asFatal FatalControlAuth (newControlAuthState policy keys secret (rt_entropy rt))))"

definition loadIdentityAdmission :: "runtime \<Rightarrow> relayOptions \<Rightarrow> controlAuthPolicy \<Rightarrow> mainError + identityAdmissionState option" where
  "loadIdentityAdmission rt op policy =
     andThen (orFatal FatalIdentityMode (parseIdentityAdmissionMode (op_identityAdmissionMode op))) (\<lambda>mode.
     andThen (if mode \<noteq> identityAdmissionOff
       then asFatal FatalIdentityKeys (loadIdentitySigningKeys (hf_os (rt_host rt)) (op_identitySigningKeyFile op)) else Inr []) (\<lambda>keys.
     fatalIf (mode = identityAdmissionRequired \<and> policy \<noteq> controlAuthPolicy.controlAuthRequired) FatalIdentityControl (
     andThen (asFatal FatalIdentity (newIdentityAdmissionState mode (op_identityIssuer op) (op_identityAudience op) keys)) (\<lambda>identity.
     fatalIf (op_floorInterrupt op \<and> (\<not> identity_isRequired identity \<or> policy \<noteq> controlAuthPolicy.controlAuthRequired)) FatalFloorInterrupt (
     Inr identity)))))"

definition loadServiceAdmission ::
  "runtime \<Rightarrow> relayOptions \<Rightarrow> controlAuthPolicy \<Rightarrow> controlKeyStore \<Rightarrow> mainError + serviceAdmissionState option" where
  "loadServiceAdmission rt op policy controlKeys =
     andThen (orFatal FatalServiceMode (parseServiceAdmissionMode (op_serviceAdmissionMode op))) (\<lambda>mode.
     fatalIf (mode \<noteq> serviceAdmissionOff \<and> (policy = controlAuthOff \<or> controlKeys = [])) FatalServiceControl (
     andThen (if mode \<noteq> serviceAdmissionOff
       then asFatal FatalServiceKeys (loadServiceSigningKeys (hf_os (rt_host rt)) (op_serviceAdmissionSigningKeyFile op)) else Inr []) (\<lambda>keys.
     asFatal FatalService (newServiceAdmissionState mode (op_serviceAdmissionIssuer op) (op_serviceAdmissionAudience op) keys))))"

definition configureRelay :: "runtime \<Rightarrow> relayOptions \<Rightarrow> mainError + server \<times> secretFilePermissionPolicy" where
  "configureRelay rt op =
     (let lease = durationSeconds (op_membershipLeaseSec op); keepalive = durationSeconds (op_keepaliveIntervalSec op) in
     fatalIf (\<not> validMaximumTalkSeconds (op_talkMaxSec op)) FatalTalkMax (
     fatalIf (\<not> validMembershipTiming lease keepalive) FatalTiming (
     andThen (orFatal FatalControlPolicy (parseControlAuthPolicy (op_controlAuthPolicy op))) (\<lambda>policy.
     fatalIf (op_noCrypto op \<and> policy = controlAuthPolicy.controlAuthRequired) FatalNoCrypto (
     andThen (orFatal FatalSecretPolicy (parseSecretFilePermissionPolicy (hf_os (rt_host rt)) (op_secretFilePermissions op))) (\<lambda>secretPermissions.
     andThen (loadControlAuth rt op policy secretPermissions) (\<lambda>controlAuth.
     andThen (loadIdentityAdmission rt op policy) (\<lambda>identity.
     andThen (loadServiceAdmission rt op policy (ca_keys controlAuth)) (\<lambda>service.
     fatalIf (\<not> rt_listenMedia rt) FatalListen (
     andThen (orFatal FatalTiming (configureMembershipTiming lease keepalive
       (newServer (rt_now rt) (rt_diagnostics rt) (op_noCrypto op) (durationSeconds (op_talkMaxSec op)) (op_multiTalk op)
         (clampTalkers (op_maxActiveTalkers op))))) (\<lambda>s.
     Inr (configureServiceAdmission service (configureIdentityAdmission identity (op_floorInterrupt op) (configureControlAuth (Some controlAuth) s)),
          secretPermissions))))))))))))"

subsection \<open>Services\<close>

record relay =
  rl_server :: server
  rl_directory :: "directoryV3 option"
  rl_management :: "managementPlane option"
  rl_privateControl :: "privateControlLink option"
  rl_host :: host

definition startDirectory :: "runtime \<Rightarrow> relayOptions \<Rightarrow> secretFilePermissionPolicy \<Rightarrow> mainError + directoryV3 option" where
  "startDirectory rt op secretPermissions =
     (if \<not> op_directoryEnabled op then Inr None
      else andThen (orFatal FatalDirectoryTransport (parseDirectoryTransport (op_directoryTransport op))) (\<lambda>transport.
        fatalIf (transport = DedicatedUDP \<and> (blankText (op_directoryDedicatedListen op) \<or> \<not> rt_listenUDP rt (op_directoryDedicatedListen op)))
          FatalDirectoryListen (
        asFatal FatalDirectory (newDirectoryV3 (rt_prims rt) (readDirectoryCSV (hf_os (rt_host rt))) (rt_entropy rt)
          \<lparr>dcf_Enabled = True, dcf_Transport = (case transport of MediaPort \<Rightarrow> ''media-port'' | DedicatedUDP \<Rightarrow> ''dedicated-udp''),
           dcf_KeyFile = op_directoryKeyFile op, dcf_ChannelsCSV = op_directoryChannelsCSV op, dcf_SpeakersCSV = op_directorySpeakersCSV op,
           dcf_hasConn = True, dcf_PublishInterval = op_directoryPublishInterval op, dcf_FreshnessTTL = op_directoryFreshnessTTL op,
           dcf_hasParticipants = True,
           dcf_permitted = (validateSecretFilePermissions (hf_os (rt_host rt)) (op_directoryKeyFile op) secretPermissions = None)\<rparr>))))"

definition managementConfig :: "relayOptions \<Rightarrow> secretFilePermissionPolicy \<Rightarrow> managementEventDelivery \<Rightarrow> managementPlaneConfig" where
  "managementConfig op secretPermissions delivery = (op_management op)\<lparr>mpc_issuer := op_serviceAdmissionIssuer op,
     mpc_audience := op_serviceAdmissionAudience op, mpc_eventDelivery := delivery, mpc_secretPermissions := secretPermissions\<rparr>"

definition startManagement ::
  "runtime \<Rightarrow> relayOptions \<Rightarrow> secretFilePermissionPolicy \<Rightarrow> server \<Rightarrow> mainError + managementPlane option \<times> server" where
  "startManagement rt op secretPermissions s =
     (if \<not> op_managementEnabled op then Inr (None, s)
      else andThen (orFatal FatalEventDelivery (parseManagementEventDelivery (op_managementEventDelivery op))) (\<lambda>delivery.
        andThen (asFatal FatalManagement (startManagementPlane (hf_os (rt_host rt)) (rt_tls rt) (rt_now rt)
          (managementConfig op secretPermissions delivery) (s_serviceAdmission s))) (\<lambda>plane.
        Inr (Some plane, s\<lparr>s_management := True\<rparr>))))"

definition startPrivateControl ::
  "runtime \<Rightarrow> relayOptions \<Rightarrow> secretFilePermissionPolicy \<Rightarrow> server \<Rightarrow> mainError + privateControlLink option \<times> server \<times> host" where
  "startPrivateControl rt op secretPermissions s =
     (if \<not> op_privateControlEnabled op then Inr (None, s, rt_host rt)
      else fatalIf (pcc_transport (op_privateControl op) = ''mtls-tcp'' \<and> op_managementEnabled op \<and>
          TrimSpace (pcc_listenAddress (op_privateControl op)) = TrimSpace (mpc_listenAddress (op_management op))) FatalSameListen (
        case startPrivateControlLink (rt_tls rt) (rt_listenTCP rt) (rt_decodeState rt) (rt_stateReadable rt) (rt_stateFiles rt) (rt_entropy rt)
            (rt_now rt) s ((op_privateControl op)\<lparr>pcc_secretPermissions := secretPermissions\<rparr>) (rt_host rt) of
          (Inl e, _) \<Rightarrow> Inl (FatalPrivateControl e)
        | (Inr link, h) \<Rightarrow> Inr (Some link, (case l_server link of None \<Rightarrow> s | Some s' \<Rightarrow> s')\<lparr>s_privateControl := True\<rparr>, h)))"

definition startRelay :: "runtime \<Rightarrow> relayOptions \<Rightarrow> mainError + relay" where
  "startRelay rt op =
     andThen (configureRelay rt op) (\<lambda>(s, secretPermissions).
     andThen (startDirectory rt op secretPermissions) (\<lambda>directory.
     andThen (startManagement rt op secretPermissions s) (\<lambda>(plane, s1).
     andThen (startPrivateControl rt op secretPermissions s1) (\<lambda>(link, s2, h).
     Inr \<lparr>rl_server = s2, rl_directory = directory, rl_management = plane, rl_privateControl = link, rl_host = h\<rparr>))))"

subsection \<open>A consistent configuration\<close>

lemma instance_config:
  "newRelayInstanceIDLoop n a = (r, a') \<Longrightarrow> ca_policy a' = ca_policy a \<and> ca_keys a' = ca_keys a \<and> ca_cookieSecret a' = ca_cookieSecret a"
  by (induction n a rule: newRelayInstanceIDLoop.induct) (auto simp: Let_def split: option.splits prod.splits if_splits)

lemma newControlAuth_facts:
  assumes "newControlAuthState policy keys secret entropy = Inr a"
  shows "ca_policy a = policy \<and> ca_keys a = keys \<and> ca_cookieSecret a = secret \<and> (policy = controlAuthPolicy.controlAuthRequired \<longrightarrow> keys \<noteq> []) \<and>
    (keys \<noteq> [] \<longrightarrow> 32 \<le> length secret)"
  using assms
  by (auto simp: newControlAuthState_def newRelayInstanceIDLocked_def Let_def split: if_splits prod.splits option.splits dest!: instance_config)

lemma identity_facts:
  assumes "loadIdentityAdmission rt op policy = Inr identity"
  shows "(identity_isRequired identity \<longrightarrow> policy = controlAuthPolicy.controlAuthRequired) \<and>
    (op_floorInterrupt op \<longrightarrow> identity_isRequired identity)"
  using assms by (auto simp: loadIdentityAdmission_def fatal_Inr identity_isRequired_def newIdentityAdmissionState_def split: if_splits option.splits)

lemma service_facts:
  assumes "loadServiceAdmission rt op policy keys = Inr (Some v)"
  shows "policy \<noteq> controlAuthOff \<and> keys \<noteq> [] \<and> sas_keys v \<noteq> [] \<and> sas_mode v \<noteq> serviceAdmissionOff \<and> sas_issuer v = op_serviceAdmissionIssuer op \<and>
    sas_audience v = op_serviceAdmissionAudience op"
  using assms by (auto simp: loadServiceAdmission_def fatal_Inr newServiceAdmissionState_def split: if_splits)

definition sound_config :: "server \<Rightarrow> bool" where
  "sound_config s \<longleftrightarrow> (\<exists>a. s_controlAuth s = Some a \<and>
     15 * Second \<le> s_membershipLease s \<and> s_membershipLease s \<le> 300 * Second \<and> Second \<le> s_keepaliveInterval s \<and>
     3 * s_keepaliveInterval s \<le> s_membershipLease s \<and> 0 \<le> s_talkMax s \<and> s_talkMax s \<le> 65535 * Second \<and>
     1 \<le> s_maxActiveTalkers s \<and> s_maxActiveTalkers s \<le> 16 \<and>
     (ca_policy a = controlAuthPolicy.controlAuthRequired \<longrightarrow> \<not> s_noCrypto s \<and> ca_keys a \<noteq> []) \<and>
     (ca_keys a \<noteq> [] \<longrightarrow> 32 \<le> length (ca_cookieSecret a)) \<and>
     (identity_isRequired (s_identityAdmission s) \<longrightarrow> ca_policy a = controlAuthPolicy.controlAuthRequired) \<and>
     (s_floorInterrupt s \<longrightarrow> identity_isRequired (s_identityAdmission s)) \<and>
     (\<forall>v. s_serviceAdmission s = Some v \<longrightarrow> ca_policy a \<noteq> controlAuthOff \<and> ca_keys a \<noteq> [] \<and> sas_keys v \<noteq> []))"

lemma durationSeconds_small: "0 \<le> n \<Longrightarrow> n \<le> 65535 \<Longrightarrow> durationSeconds n = n * Second"
  unfolding durationSeconds_def sint_sbintrunc' by (rule signed_take_bit_int_eq_self) (simp_all add: Second_def)

text \<open>The range check comes after the multiplication: seconds beyond 55 bits are taken for the lease they wrap to.\<close>

lemma lease_wraps: "durationSeconds (2 ^ 55 + 30) = 30 * Second"
  unfolding durationSeconds_def Second_def by code_simp

lemma configureRelay_sound:
  assumes "configureRelay rt op = Inr (s, secretPermissions)"
  shows "sound_config s \<and> (\<forall>v. s_serviceAdmission s = Some v \<longrightarrow> sas_mode v \<noteq> serviceAdmissionOff \<and> sas_issuer v = op_serviceAdmissionIssuer op \<and>
    sas_audience v = op_serviceAdmissionAudience op)"
proof -
  let ?lease = "durationSeconds (op_membershipLeaseSec op)" and ?keepalive = "durationSeconds (op_keepaliveIntervalSec op)"
  let ?base = "newServer (rt_now rt) (rt_diagnostics rt) (op_noCrypto op) (durationSeconds (op_talkMaxSec op)) (op_multiTalk op)
    (clampTalkers (op_maxActiveTalkers op))"
  obtain policy a identity service s0 where
    limits: "validMaximumTalkSeconds (op_talkMaxSec op)" "validMembershipTiming ?lease ?keepalive"
    and policy: "\<not> (op_noCrypto op \<and> policy = controlAuthPolicy.controlAuthRequired)" "loadControlAuth rt op policy secretPermissions = Inr a"
    and admissions: "loadIdentityAdmission rt op policy = Inr identity" "loadServiceAdmission rt op policy (ca_keys a) = Inr service"
    and s: "configureMembershipTiming ?lease ?keepalive ?base = Some s0"
      "s = configureServiceAdmission service (configureIdentityAdmission identity (op_floorInterrupt op) (configureControlAuth (Some a) s0))"
    using assms unfolding configureRelay_def Let_def fatal_Inr sum.inject prod.inject not_not
    by blast
  obtain keys secret where "newControlAuthState policy keys secret (rt_entropy rt) = Inr a"
    using policy(2) by (auto simp: loadControlAuth_def fatal_Inr)
  note auth = newControlAuth_facts [OF this] and identity = identity_facts [OF admissions(1)]
  have fields: "s = ?base\<lparr>s_membershipLease := ?lease, s_keepaliveInterval := ?keepalive, s_controlAuth := Some a, s_identityAdmission := identity,
      s_floorInterrupt := op_floorInterrupt op, s_serviceAdmission := service\<rparr>"
    using s by (simp add: configureMembershipTiming_def configureServiceAdmission_def configureIdentityAdmission_def configureControlAuth_def split: if_splits)
  have timing: "15 * Second \<le> ?lease \<and> ?lease \<le> 300 * Second \<and> Second \<le> ?keepalive \<and> 3 * ?keepalive \<le> ?lease"
    using limits(2) by (auto simp: validMembershipTiming_def minimumMembershipLease_def maximumMembershipLease_def minimumKeepaliveInterval_def split: if_splits)
  have talk: "0 \<le> durationSeconds (op_talkMaxSec op) \<and> durationSeconds (op_talkMaxSec op) \<le> 65535 * Second"
    using limits(1) by (simp add: validMaximumTalkSeconds_def durationSeconds_small Second_def)
  have "sound_config s"
    unfolding sound_config_def
    using timing talk policy(1) auth identity service_facts [of rt op policy "ca_keys a"] admissions(2)
    by (auto simp: fields newServer_def clampTalkers_def Let_def)
  then show ?thesis using service_facts [of rt op policy "ca_keys a"] admissions(2) by (auto simp: fields)
qed

lemma configureRelay_inv:
  assumes "configureRelay rt op = Inr (s, secretPermissions)"
  shows "relay_inv s"
proof -
  let ?lease = "durationSeconds (op_membershipLeaseSec op)" and ?keepalive = "durationSeconds (op_keepaliveIntervalSec op)"
  let ?talk = "durationSeconds (op_talkMaxSec op)" and ?talkers = "clampTalkers (op_maxActiveTalkers op)"
  obtain policy a identity service s0 where policy: "loadControlAuth rt op policy secretPermissions = Inr a"
    and service: "loadServiceAdmission rt op policy (ca_keys a) = Inr service"
    and s: "configureMembershipTiming ?lease ?keepalive (newServer (rt_now rt) (rt_diagnostics rt) (op_noCrypto op) ?talk (op_multiTalk op) ?talkers) = Some s0"
      "s = configureServiceAdmission service (configureIdentityAdmission identity (op_floorInterrupt op) (configureControlAuth (Some a) s0))"
    using assms unfolding configureRelay_def Let_def fatal_Inr sum.inject prod.inject not_not by blast
  let ?b = "configured (rt_now rt) (rt_diagnostics rt) (op_noCrypto op) ?talk (op_multiTalk op) ?talkers (Some a) identity (op_floorInterrupt op) service"
  obtain keys secret where "newControlAuthState policy keys secret (rt_entropy rt) = Inr a"
    using policy by (auto simp: loadControlAuth_def fatal_Inr)
  moreover have "case service of None \<Rightarrow> True | Some v \<Rightarrow> deny_inv v"
    using service by (auto simp: loadServiceAdmission_def fatal_Inr newServiceAdmissionState_def deny_inv_def split: if_splits)
  ultimately have "relay_inv ?b" using pending_inv_new by (intro relay_inv_configured) auto
  moreover have "s = ?b\<lparr>s_membershipLease := ?lease, s_keepaliveInterval := ?keepalive\<rparr>"
    using s by (auto simp: configureMembershipTiming_def configured_def configureServiceAdmission_def configureIdentityAdmission_def
        configureControlAuth_def split: if_splits)
  ultimately show ?thesis using relay_inv_timing by simp
qed

text \<open>What restoring the deny rules changes in a service admission.\<close>

definition same_issuer :: "serviceAdmissionState \<Rightarrow> serviceAdmissionState \<Rightarrow> bool" where
  "same_issuer a b \<longleftrightarrow> sas_mode b = sas_mode a \<and> sas_issuer b = sas_issuer a \<and> sas_audience b = sas_audience a \<and> sas_keys b = sas_keys a \<and>
     (deny_inv a \<longrightarrow> deny_inv b)"

lemma installRevocation_same:
  assumes "installRevocation st target denyUntil now = (True, st')"
  shows "\<exists>a b. st = Some a \<and> st' = Some b \<and> same_issuer a b"
proof -
  obtain a where a: "st = Some a" using assms by (cases st) (auto simp: installRevocation_def)
  then obtain b where b: "st' = Some b" using assms by (auto simp: installRevocation_def Let_def split: if_splits)
  have "service_step undefined now a b" using assms a b by (auto intro: ss_revoke)
  then have "deny_inv a \<Longrightarrow> deny_inv b" using deny_inv_step by blast
  moreover have "sas_mode b = sas_mode a \<and> sas_issuer b = sas_issuer a \<and> sas_audience b = sas_audience a \<and> sas_keys b = sas_keys a"
    using assms a b by (auto simp: installRevocation_def service_cleanupLocked_def Let_def split: if_splits)
  ultimately show ?thesis using a b by (auto simp: same_issuer_def)
qed

lemma restoreRules_same: "restoreRules now rules sv = Inr sv' \<Longrightarrow> rel_option same_issuer sv sv'"
proof (induction rules arbitrary: sv)
  case (Cons rule rules)
  then obtain sv1 where "restoreRules now rules sv1 = Inr sv'" "sv1 = sv \<or> (\<exists>target denyUntil. installRevocation sv target denyUntil now = (True, sv1))"
    by (auto simp: Let_def split: option.splits if_splits prod.splits bool.splits)
  with Cons.IH [of sv1] show ?case by (auto dest!: installRevocation_same simp: same_issuer_def option_rel_Some1)
qed (auto simp: same_issuer_def option.rel_refl)

lemma restore_server:
  assumes "restorePersistentState decode readable now fs l = Inr l'" "l_server l = Some s"
  shows "\<exists>sv. l_server l' = Some (s\<lparr>s_serviceAdmission := sv\<rparr>) \<and> rel_option same_issuer (s_serviceAdmission s) sv"
  using assms by (auto simp: restorePersistentState_def Let_def split: if_splits sum.splits dest!: restoreRules_same)

lemma start_server:
  assumes "startPrivateControlLink tls listens decode readable stateFiles entropy now server config h = (Inr l, h')"
  shows "\<exists>sv. l_server l = Some (server\<lparr>s_serviceAdmission := sv\<rparr>) \<and> rel_option same_issuer (s_serviceAdmission server) sv"
proof -
  obtain policy link where *: "newPrivateControlLink (Some server) policy (pcc_relayID config) (pcc_stateFile config) entropy = Some link"
    "(if blankText (pcc_stateFile config) then Inr link else restorePersistentState decode readable now stateFiles link) = Inr l"
    using assms by (auto simp: startPrivateControlLink_def Let_def split: if_splits option.splits prod.splits sum.splits)
  have "l_server link = Some server" using *(1) by (auto simp: newPrivateControlLink_def split: if_splits)
  moreover have "rel_option same_issuer (s_serviceAdmission server) (s_serviceAdmission server)"
    by (cases "s_serviceAdmission server") (simp_all add: same_issuer_def)
  moreover have "server\<lparr>s_serviceAdmission := s_serviceAdmission server\<rparr> = server" by simp
  ultimately show ?thesis using *(2) restore_server [of decode readable now stateFiles link l server] by (metis sum.inject(2))
qed

lemma sound_service:
  assumes "sound_config s" "rel_option same_issuer (s_serviceAdmission s) sv"
  shows "sound_config (s\<lparr>s_serviceAdmission := sv, s_privateControl := b\<rparr>)"
  using assms by (cases sv; cases "s_serviceAdmission s") (auto simp: sound_config_def same_issuer_def)

lemma inv_flags: "relay_inv (s\<lparr>s_privateControl := b\<rparr>) = relay_inv s" "relay_inv (s\<lparr>s_management := b\<rparr>) = relay_inv s"
proof -
  have "chan (s\<lparr>s_privateControl := b\<rparr>) = chan s" "chan (s\<lparr>s_management := b\<rparr>) = chan s"
    "talkLimit (s\<lparr>s_privateControl := b\<rparr>) = talkLimit s" "talkLimit (s\<lparr>s_management := b\<rparr>) = talkLimit s"
    by (simp_all add: chan_def talkLimit_def fun_eq_iff)
  then show "relay_inv (s\<lparr>s_privateControl := b\<rparr>) = relay_inv s" "relay_inv (s\<lparr>s_management := b\<rparr>) = relay_inv s"
    by (simp_all add: relay_inv_def subsystems_ok_def)
qed

lemma inv_started:
  assumes "relay_inv s" "rel_option same_issuer (s_serviceAdmission s) sv"
  shows "relay_inv (s\<lparr>s_serviceAdmission := sv, s_privateControl := b\<rparr>)"
proof -
  have "case sv of None \<Rightarrow> True | Some v \<Rightarrow> deny_inv v"
    using assms(2) relay_inv_subsystems(2) [OF assms(1)] by (cases sv; cases "s_serviceAdmission s") (auto simp: same_issuer_def)
  from relay_inv_service [OF assms(1) this] have "relay_inv (s\<lparr>s_serviceAdmission := sv\<rparr>)" .
  then show ?thesis using inv_flags(1) [where s = "s\<lparr>s_serviceAdmission := sv\<rparr>"] by simp
qed

lemma sound_management: "sound_config s \<Longrightarrow> sound_config (s\<lparr>s_management := True\<rparr>)"
  by (simp add: sound_config_def)

lemma inv_management: "relay_inv s \<Longrightarrow> relay_inv (s\<lparr>s_management := True\<rparr>)"
  by (simp add: inv_flags)

text \<open>
  C14. A Relay that starts is consistent. Its lease is between 15 and 300 seconds and at least three keepalive intervals, its talk time at most
  65535 seconds and its talkers one to sixteen; required control authentication has keys, a cookie secret of at least 32 bytes and no
  unencrypted mode; required identity admission and the floor interrupt come only with required control authentication, the interrupt only
  with required identity admission; and service admission has control keys and signing keys. The invariant of the Relay's run holds.
  The management plane issues grants under the issuer, the audience and a key that the Relay's own service admission accepts, and a
  private control link beside service admission has a state file.
\<close>

theorem relay_starts_consistent:
  assumes "startRelay rt op = Inr rl"
  shows "sound_config (rl_server rl) \<and> relay_inv (rl_server rl) \<and>
    (\<forall>p. rl_management rl = Some p \<longrightarrow> (\<exists>v. s_serviceAdmission (rl_server rl) = Some v \<and> mp_issuer p = sas_issuer v \<and>
       mp_audience p = sas_audience v \<and> map_of (sas_keys v) (sig_keyID (mp_signer p)) = Some (publicHalf (sig_key (mp_signer p))))) \<and>
    (rl_privateControl rl \<noteq> None \<and> s_serviceAdmission (rl_server rl) \<noteq> None \<longrightarrow> \<not> blankText (pcc_stateFile (op_privateControl op)))"
proof -
  obtain s secret directory plane s1 link s2 h where
    base: "configureRelay rt op = Inr (s, secret)" and plane: "startManagement rt op secret s = Inr (plane, s1)"
    and link: "startPrivateControl rt op secret s1 = Inr (link, s2, h)"
    and rl: "rl = \<lparr>rl_server = s2, rl_directory = directory, rl_management = plane, rl_privateControl = link, rl_host = h\<rparr>"
    using assms by (auto simp: startRelay_def fatal_Inr split: prod.splits)
  note sound = configureRelay_sound [OF base] and inv = configureRelay_inv [OF base]
  have s1: "s1 = s \<or> s1 = s\<lparr>s_management := True\<rparr>" using plane by (auto simp: startManagement_def fatal_Inr split: if_splits)
  with sound inv have one: "sound_config s1" "relay_inv s1" "s_serviceAdmission s1 = s_serviceAdmission s"
    using sound_management inv_management by auto
  have two: "\<exists>sv b. s2 = s1\<lparr>s_serviceAdmission := sv, s_privateControl := b\<rparr> \<and> rel_option same_issuer (s_serviceAdmission s1) sv"
  proof (cases "op_privateControlEnabled op")
    case True
    then obtain l where "startPrivateControlLink (rt_tls rt) (rt_listenTCP rt) (rt_decodeState rt) (rt_stateReadable rt) (rt_stateFiles rt) (rt_entropy rt)
        (rt_now rt) s1 ((op_privateControl op)\<lparr>pcc_secretPermissions := secret\<rparr>) (rt_host rt) = (Inr l, h)"
      and "s2 = (case l_server l of None \<Rightarrow> s1 | Some s' \<Rightarrow> s')\<lparr>s_privateControl := True\<rparr>"
      using link by (auto simp: startPrivateControl_def fatal_Inr split: if_splits prod.splits sum.splits)
    moreover obtain sv where "l_server l = Some (s1\<lparr>s_serviceAdmission := sv\<rparr>)" "rel_option same_issuer (s_serviceAdmission s1) sv"
      using start_server [OF calculation(1)] by blast
    ultimately have "s2 = s1\<lparr>s_serviceAdmission := sv, s_privateControl := True\<rparr> \<and> rel_option same_issuer (s_serviceAdmission s1) sv" by simp
    then show ?thesis by blast
  next
    case False
    then have "s2 = s1\<lparr>s_serviceAdmission := s_serviceAdmission s1, s_privateControl := s_privateControl s1\<rparr>"
      using link by (simp add: startPrivateControl_def)
    moreover have "rel_option same_issuer (s_serviceAdmission s1) (s_serviceAdmission s1)"
      by (cases "s_serviceAdmission s1") (simp_all add: same_issuer_def)
    ultimately show ?thesis by blast
  qed
  then have "sound_config s2" "relay_inv s2" and issuer: "rel_option same_issuer (s_serviceAdmission s) (s_serviceAdmission s2)"
    using sound_service [OF one(1)] inv_started [OF one(2)] one(3) by auto
  moreover have "\<exists>v. s_serviceAdmission s2 = Some v \<and> mp_issuer p = sas_issuer v \<and> mp_audience p = sas_audience v \<and>
      map_of (sas_keys v) (sig_keyID (mp_signer p)) = Some (publicHalf (sig_key (mp_signer p)))" if some: "plane = Some p" for p
  proof -
    obtain delivery where start: "startManagementPlane (hf_os (rt_host rt)) (rt_tls rt) (rt_now rt) (managementConfig op secret delivery)
        (s_serviceAdmission s) = Inr p"
      using plane some by (auto simp: startManagement_def fatal_Inr split: if_splits)
    then obtain v where v: "s_serviceAdmission s = Some v"
      by (cases "s_serviceAdmission s") (auto simp: startManagementPlane_def split: if_splits sum.splits)
    then obtain v2 where v2: "s_serviceAdmission s2 = Some v2" "same_issuer v v2" using issuer by (cases "s_serviceAdmission s2") auto
    with start_facts [OF start [unfolded v]] sound v show ?thesis by (auto simp: managementConfig_def same_issuer_def)
  qed
  moreover have "\<not> blankText (pcc_stateFile (op_privateControl op))" if connected: "link \<noteq> None" and served: "s_serviceAdmission s2 \<noteq> None"
  proof -
    from connected link obtain l where "startPrivateControlLink (rt_tls rt) (rt_listenTCP rt) (rt_decodeState rt) (rt_stateReadable rt) (rt_stateFiles rt)
        (rt_entropy rt) (rt_now rt) s1 ((op_privateControl op)\<lparr>pcc_secretPermissions := secret\<rparr>) (rt_host rt) = (Inr l, h)"
      by (auto simp: startPrivateControl_def fatal_Inr split: if_splits prod.splits sum.splits)
    from start_steps [OF this] have "(case s_serviceAdmission s1 of None \<Rightarrow> False | Some a \<Rightarrow> sas_mode a \<noteq> serviceAdmissionOff) \<longrightarrow>
        \<not> blankText (pcc_stateFile (op_privateControl op))" by (metis privateControlConfig.select_convs(11) privateControlConfig.surjective privateControlConfig.update_convs(12))
    moreover obtain v where "s_serviceAdmission s1 = Some v" using served issuer one(3) by (cases "s_serviceAdmission s") auto
    ultimately show ?thesis using sound one(3) by auto
  qed
  ultimately show ?thesis by (simp add: rl)
qed

subsection \<open>A Relay without options\<close>

definition demoRuntime :: runtime where
  "demoRuntime = \<lparr>rt_prims = demoPrims, rt_host = demoHost, rt_tls = demoTLS, rt_now = time_Unix 1000, rt_entropy = [], rt_diagnostics = fullCounters,
     rt_listenMedia = True, rt_listenUDP = (\<lambda>_. False), rt_listenTCP = False, rt_decodeState = (\<lambda>_. None), rt_stateReadable = True, rt_stateFiles = []\<rparr>"

definition demoOptions :: relayOptions where
  "demoOptions = relayDefaults (\<lambda>_. None) (\<lambda>_. [])"

lemma demo_modes: "parseControlAuthPolicy ''off'' = Some controlAuthOff" "parseIdentityAdmissionMode ''off'' = Some identityAdmissionOff"
  "parseServiceAdmissionMode ''off'' = Some serviceAdmissionOff" "blankText []" "TrimSpace [] = []"
  by code_simp+

lemma demo_options:
  "op_membershipLeaseSec demoOptions = defaultMembershipLease div Second" "op_keepaliveIntervalSec demoOptions = defaultKeepaliveInterval div Second"
  "op_talkMaxSec demoOptions = 0" "op_controlAuthPolicy demoOptions = ''off''" "op_identityAdmissionMode demoOptions = ''off''"
  "op_serviceAdmissionMode demoOptions = ''off''" "op_controlKeyFile demoOptions = []" "op_controlCookieSecretFile demoOptions = []"
  "op_secretFilePermissions demoOptions = []" "\<not> op_floorInterrupt demoOptions" "\<not> op_directoryEnabled demoOptions"
  "\<not> op_managementEnabled demoOptions" "\<not> op_privateControlEnabled demoOptions" "\<not> op_noCrypto demoOptions"
  by (simp_all add: demoOptions_def relayDefaults_def envOr_def nonEmptyOr_def)

lemma demo_timing: "validMembershipTiming (durationSeconds (defaultMembershipLease div Second)) (durationSeconds (defaultKeepaliveInterval div Second))"
proof -
  have "0 \<le> defaultMembershipLease div Second" "defaultMembershipLease div Second \<le> 65535"
    "0 \<le> defaultKeepaliveInterval div Second" "defaultKeepaliveInterval div Second \<le> 65535"
    by (simp_all add: defaultMembershipLease_def defaultKeepaliveInterval_def Second_def)
  then show ?thesis
    by (simp add: durationSeconds_small validMembershipTiming_def defaultMembershipLease_def defaultKeepaliveInterval_def minimumMembershipLease_def
        maximumMembershipLease_def minimumKeepaliveInterval_def Second_def)
qed

lemma demo_relay_starts: "\<exists>rl. startRelay demoRuntime demoOptions = Inr rl"
proof -
  obtain p where secret: "parseSecretFilePermissionPolicy (hf_os (rt_host demoRuntime)) [] = Some p"
    by (simp add: parseSecretFilePermissionPolicy_def demo_modes)
  obtain a where auth: "loadControlAuth demoRuntime demoOptions controlAuthOff p = Inr a" "ca_keys a = []"
    by (simp add: loadControlAuth_def demo_options loadControlKeyStore_def loadCookieSecret_def demo_modes newControlAuthState_def andThen_def asFatal_def)
  have admissions: "loadIdentityAdmission demoRuntime demoOptions controlAuthOff = Inr None"
    "loadServiceAdmission demoRuntime demoOptions controlAuthOff [] = Inr None"
    by (simp_all add: loadIdentityAdmission_def loadServiceAdmission_def demo_options demo_modes newIdentityAdmissionState_def newServiceAdmissionState_def
        andThen_def asFatal_def orFatal_def fatalIf_def)
  have "rt_listenMedia demoRuntime" by (simp add: demoRuntime_def)
  then have "\<exists>s p. configureRelay demoRuntime demoOptions = Inr (s, p)"
    using demo_timing secret auth admissions
    by (simp add: configureRelay_def andThen_def fatalIf_def orFatal_def demo_options demo_modes validMaximumTalkSeconds_def configureMembershipTiming_def Let_def)
  then show ?thesis
    by (auto simp: startRelay_def startDirectory_def startManagement_def startPrivateControl_def demo_options andThen_def)
qed

theorem relay_starts_consistent_witness:
  "\<exists>rl. startRelay demoRuntime demoOptions = Inr rl \<and> relay_inv (rl_server rl) \<and> s_membershipLease (rl_server rl) \<le> 300 * Second"
proof -
  obtain rl where start: "startRelay demoRuntime demoOptions = Inr rl" using demo_relay_starts by blast
  with relay_starts_consistent [OF this] show ?thesis unfolding sound_config_def by blast
qed

end
