(* ===== verification/Spec2Isabelle.thy ===== *)
theory Spec2Isabelle
  imports Relay_Safety Private_Command Directory_Examples Relay_Startup
begin

text \<open>
  \<^bold>\<open>The IncomUdon Relay: a verification development.\<close>

  The program (Go, under src/) is a push-to-talk voice relay. Clients send UDP datagrams: control
  packets that join a channel, take and release the floor and keep a membership alive, and media
  packets that the Relay copies to the other members of the channel. On channels with a control
  key every control packet carries an HMAC, a per-session counter and, for a JOIN, the answer to a
  challenge. A member may be admitted by a signed ticket (identity admission) or a signed grant (service
  admission). A management plane may revoke service admissions over the private control link, a
  connection with length-prefixed JSON frames, whose deny rules and answers survive a restart in a
  state file. The Directory answers sealed requests with the names and the current members of a channel.

  \<^bold>\<open>How the parts are modelled.\<close> Go's fixed-width integers are words, byte slices are lists of 8-bit words,
  maps are association lists with distinct keys, times are integers of nanoseconds. Every critical
  section of a mutex is one function from the state before to the state after; a goroutine's interleaving
  with others is a run of a step relation over such functions, or a parameter where a goroutine waits.
  A reading of the clock and a draw of the random source are arguments. The socket is an outbox of
  datagrams, and what the Relay tells the management plane is recorded in lists. SHA-256, HMAC, Ed25519 and the
  struct decoders of encoding/json are parameters; what a theorem needs of them is a hypothesis.

  \<^descr> Relay_Prelude: words, big-endian encodings, Go maps, time, runs of a machine and the locale
    \<^verbatim>\<open>invariant_machine\<close>.
  \<^descr> Wire: packet layouts of main.go, parsing and building (\<^verbatim>\<open>parsePacket\<close>, \<^verbatim>\<open>buildRelayControlPacket\<close>);
    what is built parses back to its fields, what is accepted is exactly header, payload and tag.
  \<^descr> Endpoint, Replay: endpoint keys; the replay windows of control_auth.go and directory_v3.go, which
    accept no counter twice and refuse only spent or stale ones.
  \<^descr> Primitives: strict base64url, token segments, the record of cryptographic and JSON functions.
  \<^descr> Control_Auth: control_auth.go; signed packets, Relay nonces that never repeat, challenges that are
    answered once, bounded tables of provisional sessions.
  \<^descr> Admission_Store, Identity_Admission, Service_Admission: identity_admission.go and service_admission.go.
    A ticket or grant is accepted only when it is genuine, in scope and current; what reaches a JOIN
    was validated and proved and is used once; a revocation holds until it ends.
  \<^descr> Go_Text, Config_Files: trimming, case folding, UTF-8, decimal numbers, Base64 and the CSV reader; on these the permission policy
    of secret files (secret_file_permissions.go) and the loaders of control keys, the cookie secret, signing keys and
    tables. Keys are read as they were written, and what loads is well-formed.
  \<^descr> Diagnostics: relay_diagnostics.go; counters that start a new epoch instead of wrapping.
  \<^descr> Relay_State, Membership, Floor, Relay_Handler: main.go, with the parts of control_auth.go and
    management.go it calls: the server record, sending, registration, lease and expiry, rights, media, the
    floor with Floor Interrupt, the packet handler branch by branch, the receive loop, the clean-up tick and
    \<^verbatim>\<open>revokeManagedServiceAdmission\<close>.
  \<^descr> Relay_Invariant, Relay_Machine: the invariant of the server (talker limit, keys of peers, exclusive
    admissions, well-formed tables), kept by every operation and so under every interleaving.
  \<^descr> Membership_Lease, Membership_Life, Floor_Control: what the expiry pass, refreshes, the floor operations,
    the talk timeout and the clean-up do, exactly.
  \<^descr> Relay_Safety: the handler end to end: unverified packets and outsiders achieve nothing, media is relayed
    exactly for active talkers, a JOIN is sound, a revocation is complete.
  \<^descr> Private_Control, Private_Frames: the messages of private_control.go, their validation, the scanner for
    duplicate members (it accepts exactly the values without any), frames and the loop over short writes.
  \<^descr> Private_Link, Private_Link_Safety: the link's idempotency table, slots, throttle, sessions and queues; their
    limits under every interleaving; the table refines a map from commands to fresh, running or done through
    the locale \<^verbatim>\<open>simulation\<close>.
  \<^descr> Private_Snapshot: private_control_snapshot.go; chunks that fit and lose nothing.
  \<^descr> Private_State, Private_Durability, Private_Restart: private_control_state.go; the file is replaced as a
    whole, an answer is durable before it is visible, a restart finds everything again.
  \<^descr> Private_Service, Private_Command: the commands and the life of a connection; the outcome of a revocation,
    connections that reach nothing, snapshots sent as a whole.
  \<^descr> Directory_Envelope: directory_v3.go; key derivation, sealing and opening of datagrams. What opens was
    authenticated under the key of its channel, and what a client seals opens to its plaintext.
  \<^descr> Directory_Packing, Directory_Response: the division of rows into fragments and pages, the JSON text of the
    responses and its size. The locale \<^verbatim>\<open>fragment_sizes\<close> states when the packing loop cannot fail; it is
    interpreted on the participants of a channel.
  \<^descr> Directory_Config: the loaders of keys, channels and speakers, the speakers of a channel and the revision.
  \<^descr> Directory_Service, Directory_Safety: the running Directory; its limits in every reachable state and under
    every interleaving, and that no unexpired datagram acts twice.
  \<^descr> Directory_Replies, Directory_Limits, Directory_Examples: replies that are complete and fit their datagrams,
    snapshots that can be read page by page, registrations; names, expiries and cursors the code does not treat
    as its documentation says; a small Directory on which the properties are applied.
  \<^descr> Management_Policy: the policy files of management.go and of the private control link; what loads is well-formed, and
    the link's peers are exactly the enabled rows.
  \<^descr> Management_Plane: the management plane; authorization, queries, the event stream and the audit log. Under every interleaving an
    event reaches only services that may see it, and publishing reaches all of them whose stream has room.
  \<^descr> Management_Audit: retrieval of audit records with signed cursors; pages neither repeat nor skip.
  \<^descr> Management_Grants: grants are issued exactly for what the policy allows.
  \<^descr> Management_Service, Management_Examples: the start of the plane, its routes and the certificate check; what a client is told is
    confined to its policy, and the Relay accepts the grants its own plane issues.
  \<^descr> Private_Start, Private_Start_Example: the state path, the listeners, the authentication of connections and the start of the
    private control link (private_control.go, private_control_state_path*.go, private_control_uds_*.go), over a host of inodes.
  \<^descr> Relay_Startup: \<^verbatim>\<open>main\<close>; the defaults from the environment and the configuration checks. A Relay that starts is consistent, and its
    state satisfies the invariant that every run keeps.

  \<^bold>\<open>Bounds and fuel.\<close> Loops over tables and lists are structural. The JSON scanner runs on fuel twice the
  number of tokens plus one, which is shown to be enough for every input; the instance identifier loop of
  the control authentication is bounded by the code itself; the loops over short writes and over the frames
  of a connection end because each round takes bytes away.

  \<^bold>\<open>Not modelled.\<close> The HTTP server below the routes and TLS: a request or a connection brings its certificates and whether its
  handshake succeeded. \<^verbatim>\<open>flag.Parse\<close>: the command line is a change of the options. The goroutines that only wait: tickers, socket reads,
  the accept loop, the goroutine that drains a session's queue into its connection, and the loop that writes an event stream; the
  operations they call are modelled. Formatting and parsing of times, and logging. These are input and output, or code of the
  standard library whose documented behaviour is a hypothesis where a theorem needs it.
\<close>

end
